(* ===== verification/Prelude.thy ===== *)
theory Prelude
  imports Main "HOL-Library.Word" "HOL-Library.Monad_Syntax"
begin

text \<open>
  Shared vocabulary of the development: the machine integer types of the
  drivers, the status codes of IOKit that the sources return, named collections
  of rewrite rules, and the generic facts on words, lists and functions that
  more than one component uses.

  The sources are compiled for 64-bit kernels: \<^verbatim>\<open>uint32_t\<close>, \<^verbatim>\<open>unsigned\<close> and
  \<^verbatim>\<open>UInt32\<close> are 32 bits wide and kept as words (\<open>u32\<close>); \<^verbatim>\<open>size_t\<close> and
  addresses are 64 bits wide.
\<close>

unbundle bit_operations_syntax

type_synonym u8 = "8 word"
type_synonym u16 = "16 word"
type_synonym u32 = "32 word"
type_synonym u64 = "64 word"

named_theorems model_simps \<open>unfolding rules of the model's straight-line definitions\<close>
named_theorems frame_simps \<open>what an operation leaves unchanged\<close>

section \<open>Status codes\<close>

text \<open>The \<^verbatim>\<open>kIOReturn*\<close> codes that the modelled sources return.\<close>

datatype ioreturn =
    kIOReturnSuccess
  | kIOReturnError
  | kIOReturnNoMemory
  | kIOReturnNoResources
  | kIOReturnNoDevice
  | kIOReturnNotPrivileged
  | kIOReturnBadArgument
  | kIOReturnUnsupported
  | kIOReturnInternalError
  | kIOReturnNotReady
  | kIOReturnNotAligned
  | kIOReturnBadMedia
  | kIOReturnNotFound
  | kIOReturnDeviceError
  | kIOReturnUnsupportedMode
  | kIOReturnCannotLock
  | kIOReturnDMAError
  | kIOReturnNotWritable
  | kIOReturnNotReadable
  | kIOReturnIOError
  | kIOReturnNoSpace
  | kIOReturnOverrun

section \<open>Words\<close>

lemma unat_add_no_wrap:
  fixes a b :: "'a::len word"
  shows "unat a + unat b < 2 ^ LENGTH('a) \<Longrightarrow> unat (a + b) = unat a + unat b"
  by (simp add: unat_word_ariths)

lemma unat_add_of_nat:
  fixes a :: "'a::len word"
  shows "unat a + n < 2 ^ LENGTH('a) \<Longrightarrow> unat (a + of_nat n) = unat a + n"
  by (simp add: unat_word_ariths unat_of_nat)

lemma unat_sub_no_wrap:
  fixes a b :: "'a::len word"
  shows "unat b \<le> unat a \<Longrightarrow> unat (a - b) = unat a - unat b"
  by (simp add: unat_sub word_le_nat_alt)

text \<open>Signed readings of 32-bit words.\<close>

lemma uint_u32: "0 \<le> uint (w :: u32)" "uint (w :: u32) < 4294967296"
  using uint_bounded [of w] by simp_all

lemma uint_less_unat: "uint (w :: u32) < numeral n \<longleftrightarrow> unat w < numeral n"
  by (simp flip: of_nat_less_iff [where ?'a = int])

lemma sint_u32:
  "sint (w :: u32) = (if uint w < 2147483648 then uint w else uint w - 4294967296)"
proof -
  have s: "sint w = (uint w + 2147483648) mod 4294967296 - 2147483648"
    by (simp add: sint_uint signed_take_bit_eq_take_bit_shift take_bit_eq_mod)
  show ?thesis
  proof (cases "uint w < 2147483648")
    case True
    then have "(uint w + 2147483648) mod 4294967296 = uint w + 2147483648"
      using uint_u32 [of w] by (intro mod_pos_pos_trivial) linarith+
    with s True show ?thesis by simp
  next
    case False
    have "(uint w + 2147483648) mod 4294967296 = (uint w - 2147483648 + 4294967296) mod 4294967296"
      by (simp add: algebra_simps)
    also have "\<dots> = (uint w - 2147483648) mod 4294967296"
      by (rule mod_add_self2)
    also have "\<dots> = uint w - 2147483648"
      using uint_u32 [of w] False by (intro mod_pos_pos_trivial) linarith+
    finally show ?thesis using s False by simp
  qed
qed

lemma sless_zero_iff: "(w :: u32) <s 0 \<longleftrightarrow> 2147483648 \<le> unat w"
  using uint_u32 [of w] by (auto simp: word_sless_alt sint_u32 uint_less_unat not_less [symmetric])

lemma zero_sle_iff: "0 \<le>s (w :: u32) \<longleftrightarrow> unat w < 2147483648"
  using sless_zero_iff [of w] by (auto simp: signed.not_less [symmetric])

text \<open>
  The lowest clear bit of a word: the idiom \<^verbatim>\<open>~x & (x + 1)\<close> of the ID scanners
  isolates it.
\<close>

lemma lowest_clear_bit:
  fixes w :: "'a::len word"
  assumes n: "n < LENGTH('a)" and clear: "\<not> bit w n" and below: "\<And>j. j < n \<Longrightarrow> bit w j"
  shows "NOT w AND (w + 1) = push_bit n 1"
proof -
  define h where "h = w AND NOT (mask n)"
  have "w = h OR mask n"
    by (rule bit_word_eqI) (auto simp: h_def bit_simps below)
  moreover have "h OR mask n = h + mask n"
    by (rule disjunctive_add [symmetric]) (simp add: h_def bit_simps)
  ultimately have w: "w = h + mask n" by simp
  have "w + 1 = h + push_bit n 1"
    by (simp add: w mask_eq_exp_minus_1 push_bit_eq_mult)
  also have "\<dots> = h OR push_bit n 1"
    by (rule disjunctive_add) (auto simp: h_def bit_simps clear)
  finally have w1: "w + 1 = h OR push_bit n 1" .
  show ?thesis
    unfolding w1 by (rule bit_word_eqI) (auto simp: h_def bit_simps clear)
qed

lemma exists_clear_bit:
  fixes w :: "'a::len word"
  assumes "w \<noteq> - 1"
  obtains n where "n < LENGTH('a)" and "\<not> bit w n" and "\<And>j. j < n \<Longrightarrow> bit w j"
proof -
  have "\<exists>n. n < LENGTH('a) \<and> \<not> bit w n"
  proof (rule ccontr)
    assume "\<not> ?thesis"
    then have "w = - 1" by (intro bit_word_eqI) auto
    with assms show False by simp
  qed
  then have *: "\<exists>n. \<not> bit w n \<and> n < LENGTH('a)" by blast
  define n where "n = (LEAST n. \<not> bit w n)"
  have "\<not> bit w n" unfolding n_def using * by (metis (mono_tags, lifting) LeastI)
  moreover have "n < LENGTH('a)"
    unfolding n_def using * by (metis (mono_tags, lifting) Least_le order_le_less_trans)
  moreover have "\<And>j. j < n \<Longrightarrow> bit w j" unfolding n_def using not_less_Least by blast
  ultimately show thesis using that by blast
qed

lemma unat_of_nat_small: "m < 4294967296 \<Longrightarrow> unat (of_nat m :: u32) = m"
  by (simp add: unat_of_nat)

end
