(* ===== verification/FifoQueue.thy ===== *)
theory FifoQueue
  imports Prelude
begin

text \<open>
  The command FIFO of the SVGA device (\<^verbatim>\<open>FB/SVGADevice.cpp\<close>): register access,
  \<open>FIFOReserve\<close>, \<open>FIFOCommit\<close> and the helpers that write command headers.

  The FIFO memory is an array of 32-bit registers and data shared with the host
  (BAR2).  It is indexed here by dword; the byte positions \<^verbatim>\<open>MIN\<close>, \<^verbatim>\<open>MAX\<close>,
  \<^verbatim>\<open>NEXT_CMD\<close> and \<^verbatim>\<open>STOP\<close> that the registers hold are multiples of four
  (\<open>fifo_wf\<close>), so a byte position \<open>p\<close> is dword \<open>p div 4\<close>.

  The host is not part of the repository.  It is a parameter of every operation
  that can observe it (record \<open>host\<close>): what a port read returns, and what the host
  has done to the FIFO memory when the driver next looks.  It acts at each port
  access and before each read of the \<^verbatim>\<open>STOP\<close>, \<^verbatim>\<open>FENCE\<close> and \<^verbatim>\<open>BUSY\<close> registers, the
  points where the driver can observe it.  \<open>host_serving\<close> states what the device
  documentation (\<^verbatim>\<open>svga_reg.h\<close>) promises: the host only consumes from the front of
  the queue, and it makes progress after a write to the \<^verbatim>\<open>SYNC\<close> register.
\<close>

section \<open>Registers\<close>

text \<open>FIFO registers: dword indices into the FIFO memory.\<close>

abbreviation (input) SVGA_FIFO_MIN :: nat where "SVGA_FIFO_MIN \<equiv> 0"
abbreviation (input) SVGA_FIFO_MAX :: nat where "SVGA_FIFO_MAX \<equiv> 1"
abbreviation (input) SVGA_FIFO_NEXT_CMD :: nat where "SVGA_FIFO_NEXT_CMD \<equiv> 2"
abbreviation (input) SVGA_FIFO_STOP :: nat where "SVGA_FIFO_STOP \<equiv> 3"
abbreviation (input) SVGA_FIFO_CAPABILITIES :: nat where "SVGA_FIFO_CAPABILITIES \<equiv> 4"
abbreviation (input) SVGA_FIFO_FENCE :: nat where "SVGA_FIFO_FENCE \<equiv> 6"
abbreviation (input) SVGA_FIFO_3D_HWVERSION :: nat where "SVGA_FIFO_3D_HWVERSION \<equiv> 7"
abbreviation (input) SVGA_FIFO_CURSOR_ON :: nat where "SVGA_FIFO_CURSOR_ON \<equiv> 9"
abbreviation (input) SVGA_FIFO_CURSOR_X :: nat where "SVGA_FIFO_CURSOR_X \<equiv> 10"
abbreviation (input) SVGA_FIFO_CURSOR_Y :: nat where "SVGA_FIFO_CURSOR_Y \<equiv> 11"
abbreviation (input) SVGA_FIFO_CURSOR_COUNT :: nat where "SVGA_FIFO_CURSOR_COUNT \<equiv> 12"
abbreviation (input) SVGA_FIFO_RESERVED :: nat where "SVGA_FIFO_RESERVED \<equiv> 14"
abbreviation (input) SVGA_FIFO_CURSOR_SCREEN_ID :: nat where "SVGA_FIFO_CURSOR_SCREEN_ID \<equiv> 15"
abbreviation (input) SVGA_FIFO_3D_HWVERSION_REVISED :: nat where "SVGA_FIFO_3D_HWVERSION_REVISED \<equiv> 17"
abbreviation (input) SVGA_FIFO_3D_CAPS :: nat where "SVGA_FIFO_3D_CAPS \<equiv> 32"
abbreviation (input) SVGA_FIFO_3D_CAPS_LAST :: nat where "SVGA_FIFO_3D_CAPS_LAST \<equiv> 287"
abbreviation (input) SVGA_FIFO_GUEST_3D_HWVERSION :: nat where "SVGA_FIFO_GUEST_3D_HWVERSION \<equiv> 288"
abbreviation (input) SVGA_FIFO_BUSY :: nat where "SVGA_FIFO_BUSY \<equiv> 290"
abbreviation (input) SVGA_FIFO_NUM_REGS :: nat where "SVGA_FIFO_NUM_REGS \<equiv> 291"

abbreviation (input) SVGA_FIFO_CAP_FENCE :: u32 where "SVGA_FIFO_CAP_FENCE \<equiv> 1"
abbreviation (input) SVGA_FIFO_CAP_RESERVE :: u32 where "SVGA_FIFO_CAP_RESERVE \<equiv> 64"
abbreviation (input) SVGA_FIFO_CAP_SCREEN_OBJECT :: u32 where "SVGA_FIFO_CAP_SCREEN_OBJECT \<equiv> 128"
abbreviation (input) SVGA_FIFO_CAP_GMR2 :: u32 where "SVGA_FIFO_CAP_GMR2 \<equiv> 256"
abbreviation (input) SVGA_FIFO_CAP_3D_HWVERSION_REVISED :: u32 where
  "SVGA_FIFO_CAP_3D_HWVERSION_REVISED \<equiv> SVGA_FIFO_CAP_GMR2"
abbreviation (input) SVGA_FIFO_CAP_SCREEN_OBJECT_2 :: u32 where "SVGA_FIFO_CAP_SCREEN_OBJECT_2 \<equiv> 512"

text \<open>Device registers, behind the index and value ports.\<close>

abbreviation (input) SVGA_REG_ID :: u32 where "SVGA_REG_ID \<equiv> 0"
abbreviation (input) SVGA_REG_ENABLE :: u32 where "SVGA_REG_ENABLE \<equiv> 1"
abbreviation (input) SVGA_REG_WIDTH :: u32 where "SVGA_REG_WIDTH \<equiv> 2"
abbreviation (input) SVGA_REG_HEIGHT :: u32 where "SVGA_REG_HEIGHT \<equiv> 3"
abbreviation (input) SVGA_REG_MAX_WIDTH :: u32 where "SVGA_REG_MAX_WIDTH \<equiv> 4"
abbreviation (input) SVGA_REG_MAX_HEIGHT :: u32 where "SVGA_REG_MAX_HEIGHT \<equiv> 5"
abbreviation (input) SVGA_REG_BITS_PER_PIXEL :: u32 where "SVGA_REG_BITS_PER_PIXEL \<equiv> 7"
abbreviation (input) SVGA_REG_BYTES_PER_LINE :: u32 where "SVGA_REG_BYTES_PER_LINE \<equiv> 12"
abbreviation (input) SVGA_REG_FB_OFFSET :: u32 where "SVGA_REG_FB_OFFSET \<equiv> 14"
abbreviation (input) SVGA_REG_VRAM_SIZE :: u32 where "SVGA_REG_VRAM_SIZE \<equiv> 15"
abbreviation (input) SVGA_REG_FB_SIZE :: u32 where "SVGA_REG_FB_SIZE \<equiv> 16"
abbreviation (input) SVGA_REG_CAPABILITIES :: u32 where "SVGA_REG_CAPABILITIES \<equiv> 17"
abbreviation (input) SVGA_REG_MEM_SIZE :: u32 where "SVGA_REG_MEM_SIZE \<equiv> 19"
abbreviation (input) SVGA_REG_CONFIG_DONE :: u32 where "SVGA_REG_CONFIG_DONE \<equiv> 20"
abbreviation (input) SVGA_REG_SYNC :: u32 where "SVGA_REG_SYNC \<equiv> 21"
abbreviation (input) SVGA_REG_BUSY :: u32 where "SVGA_REG_BUSY \<equiv> 22"
abbreviation (input) SVGA_REG_CURSOR_ID :: u32 where "SVGA_REG_CURSOR_ID \<equiv> 24"
abbreviation (input) SVGA_REG_CURSOR_X :: u32 where "SVGA_REG_CURSOR_X \<equiv> 25"
abbreviation (input) SVGA_REG_CURSOR_Y :: u32 where "SVGA_REG_CURSOR_Y \<equiv> 26"
abbreviation (input) SVGA_REG_CURSOR_ON :: u32 where "SVGA_REG_CURSOR_ON \<equiv> 27"
abbreviation (input) SVGA_REG_HOST_BITS_PER_PIXEL :: u32 where "SVGA_REG_HOST_BITS_PER_PIXEL \<equiv> 28"
abbreviation (input) SVGA_REG_GMR_ID :: u32 where "SVGA_REG_GMR_ID \<equiv> 41"
abbreviation (input) SVGA_REG_GMR_DESCRIPTOR :: u32 where "SVGA_REG_GMR_DESCRIPTOR \<equiv> 42"
abbreviation (input) SVGA_REG_GMR_MAX_IDS :: u32 where "SVGA_REG_GMR_MAX_IDS \<equiv> 43"
abbreviation (input) SVGA_REG_GMR_MAX_DESCRIPTOR_LENGTH :: u32 where "SVGA_REG_GMR_MAX_DESCRIPTOR_LENGTH \<equiv> 44"
abbreviation (input) SVGA_REG_TRACES :: u32 where "SVGA_REG_TRACES \<equiv> 45"
abbreviation (input) SVGA_REG_GMRS_MAX_PAGES :: u32 where "SVGA_REG_GMRS_MAX_PAGES \<equiv> 46"
abbreviation (input) SVGA_REG_MEMORY_SIZE :: u32 where "SVGA_REG_MEMORY_SIZE \<equiv> 47"
abbreviation (input) SVGA_REG_TOP :: u32 where "SVGA_REG_TOP \<equiv> 48"

section \<open>State\<close>

type_synonym fifo_mem = "nat \<Rightarrow> u32"

text \<open>
  The host: \<open>h_reg t log i\<close> is what reading register \<open>i\<close> returns, and \<open>h_step t log m\<close> the FIFO
  memory after the host has worked on \<open>m\<close>, at the \<open>t\<close>-th opportunity and after the port writes
  \<open>log\<close>.
\<close>

record host =
  h_reg :: "nat \<Rightarrow> (u32 \<times> u32) list \<Rightarrow> u32 \<Rightarrow> u32"
  h_step :: "nat \<Rightarrow> (u32 \<times> u32) list \<Rightarrow> fifo_mem \<Rightarrow> fifo_mem"

text \<open>
  A pointer that \<open>FIFOReserve\<close> returns: into the FIFO memory or into the bounce buffer, by
  dword.
\<close>

datatype fifo_ptr = Fifo_at nat | Bounce_at nat

text \<open>
  The object's fields.  \<open>io_log\<close> is the history of port writes, newest last, and \<open>io_tick\<close> counts
  the host's opportunities to act.  \<open>m_mapped\<close> says that \<^verbatim>\<open>m_bar2_map\<close> and \<^verbatim>\<open>m_fifo_ptr\<close> are set,
  \<open>m_has_bounce_buffer\<close> that \<^verbatim>\<open>m_bounce_buffer\<close> is.
\<close>

record svga =
  m_fifo :: fifo_mem
  m_bounce :: "nat \<Rightarrow> u32"
  m_using_bounce_buffer :: bool
  m_reserved_size :: nat
  m_next_fence :: u32
  m_cursor_ptr :: "fifo_ptr option"
  m_has_provider :: bool
  m_mapped :: bool
  m_has_bounce_buffer :: bool
  m_fifo_size :: u32
  m_capabilities :: u32
  m_width :: u32
  m_height :: u32
  m_pitch :: u32
  m_max_width :: u32
  m_max_height :: u32
  m_max_gmr_ids :: u32
  m_max_gmr_descriptor_length :: u32
  m_max_gmr_pages :: u32
  m_total_memory :: u32
  m_fb_offset :: u32
  m_vram_size :: u32
  m_fb_size :: u32
  io_log :: "(u32 \<times> u32) list"
  io_tick :: nat

text \<open>Addition of \<^verbatim>\<open>size_t\<close> values.\<close>

definition size_add :: "nat \<Rightarrow> nat \<Rightarrow> nat" where
  "size_add a b = (a + b) mod 2 ^ 64"

section \<open>Port access\<close>

definition poll :: "host \<Rightarrow> svga \<Rightarrow> svga" where
  "poll h d = d\<lparr>m_fifo := h_step h (io_tick d) (io_log d) (m_fifo d), io_tick := Suc (io_tick d)\<rparr>"

definition WriteReg :: "host \<Rightarrow> u32 \<Rightarrow> u32 \<Rightarrow> svga \<Rightarrow> svga" where
  "WriteReg h index val d = poll h (d\<lparr>io_log := io_log d @ [(index, val)]\<rparr>)"

definition ReadReg :: "host \<Rightarrow> u32 \<Rightarrow> svga \<Rightarrow> u32 \<times> svga" where
  "ReadReg h index d = (let d = poll h d in (h_reg h (io_tick d) (io_log d) index, d))"

definition HasCapability :: "u32 \<Rightarrow> svga \<Rightarrow> bool" where
  "HasCapability cap d \<longleftrightarrow> m_capabilities d AND cap \<noteq> 0"

definition IsFIFORegValid :: "nat \<Rightarrow> svga \<Rightarrow> bool" where
  "IsFIFORegValid reg d \<longleftrightarrow> m_fifo d SVGA_FIFO_MIN > push_bit 2 (of_nat reg)"

definition HasFIFOCap :: "u32 \<Rightarrow> svga \<Rightarrow> bool" where
  "HasFIFOCap cap d \<longleftrightarrow> m_fifo d SVGA_FIFO_CAPABILITIES AND cap \<noteq> 0"

definition FIFOFull :: "host \<Rightarrow> svga \<Rightarrow> svga" where
  "FIFOFull h d = snd (ReadReg h SVGA_REG_BUSY (WriteReg h SVGA_REG_SYNC 1 d))"

section \<open>Reserve and commit\<close>

abbreviation (input) BOUNCE_BUFFER_SIZE :: nat where "BOUNCE_BUFFER_SIZE \<equiv> 65536"

datatype reserve_decision = Reserve_in_place | Need_bounce | Fifo_full

text \<open>
  One round of the loop of \<open>FIFOReserve\<close>: \<^verbatim>\<open>next_cmd + bytes\<close> is a \<^verbatim>\<open>size_t\<close> sum, while
  \<^verbatim>\<open>(max - next_cmd) + (stop - min)\<close> is computed in 32 bits.
\<close>

definition reserve_decide :: "u32 \<Rightarrow> u32 \<Rightarrow> u32 \<Rightarrow> u32 \<Rightarrow> nat \<Rightarrow> reserve_decision" where
  "reserve_decide max' min' next_cmd stop bytes =
    (if next_cmd \<ge> stop then
       (if unat next_cmd + bytes < unat max' \<or> (unat next_cmd + bytes = unat max' \<and> stop > min')
        then Reserve_in_place
        else if unat ((max' - next_cmd) + (stop - min')) \<le> bytes then Fifo_full
        else Need_bounce)
     else if unat next_cmd + bytes < unat stop then Reserve_in_place
     else Fifo_full)"

partial_function (option) FIFOReserve_loop ::
  "host \<Rightarrow> u32 \<Rightarrow> u32 \<Rightarrow> u32 \<Rightarrow> bool \<Rightarrow> nat \<Rightarrow> svga \<Rightarrow> (fifo_ptr \<times> svga) option" where
  "FIFOReserve_loop h max' min' next_cmd reservable bytes d =
    (let d = poll h d;
         stop = m_fifo d SVGA_FIFO_STOP;
         bounce = (Bounce_at 0, d\<lparr>m_using_bounce_buffer := True\<rparr>)
     in case reserve_decide max' min' next_cmd stop bytes of
          Fifo_full \<Rightarrow> FIFOReserve_loop h max' min' next_cmd reservable bytes (FIFOFull h d)
        | Need_bounce \<Rightarrow> Some bounce
        | Reserve_in_place \<Rightarrow>
            if reservable \<or> bytes \<le> 4
            then Some (Fifo_at (unat next_cmd div 4),
                   d\<lparr>m_using_bounce_buffer := False,
                     m_fifo := (if reservable then (m_fifo d)(SVGA_FIFO_RESERVED := of_nat bytes)
                                else m_fifo d)\<rparr>)
            else Some bounce)"

definition FIFOReserve :: "host \<Rightarrow> nat \<Rightarrow> svga \<Rightarrow> (fifo_ptr option \<times> svga) option" where
  "FIFOReserve h bytes d =
    (let max' = m_fifo d SVGA_FIFO_MAX;
         min' = m_fifo d SVGA_FIFO_MIN;
         next_cmd = m_fifo d SVGA_FIFO_NEXT_CMD;
         reservable = HasFIFOCap SVGA_FIFO_CAP_RESERVE d
     in if bytes > BOUNCE_BUFFER_SIZE \<or> bytes > unat (max' - min') then Some (None, d)
        else if bytes mod 4 \<noteq> 0 then Some (None, d)
        else if m_reserved_size d \<noteq> 0 then Some (None, d)
        else do {
          (p, d) \<leftarrow> FIFOReserve_loop h max' min' next_cmd reservable bytes (d\<lparr>m_reserved_size := bytes\<rparr>);
          Some (Some p, d)
        })"

text \<open>Pointer arithmetic and stores through the reserved pointer, in dwords.\<close>

fun ptr_add :: "fifo_ptr \<Rightarrow> nat \<Rightarrow> fifo_ptr" where
  "ptr_add (Fifo_at a) n = Fifo_at (a + n)"
| "ptr_add (Bounce_at a) n = Bounce_at (a + n)"

fun put :: "fifo_ptr \<Rightarrow> nat \<Rightarrow> u32 \<Rightarrow> svga \<Rightarrow> svga" where
  "put (Fifo_at a) i v d = d\<lparr>m_fifo := (m_fifo d)(a + i := v)\<rparr>"
| "put (Bounce_at a) i v d = d\<lparr>m_bounce := (m_bounce d)(a + i := v)\<rparr>"

fun peek :: "fifo_ptr \<Rightarrow> nat \<Rightarrow> svga \<Rightarrow> u32" where
  "peek (Fifo_at a) i d = m_fifo d (a + i)"
| "peek (Bounce_at a) i d = m_bounce d (a + i)"

text \<open>Field assignments \<open>cmd->f = v\<close> in order, and \<^verbatim>\<open>memcpy\<close> or \<^verbatim>\<open>bzero\<close> of whole dwords.\<close>

definition puts :: "fifo_ptr \<Rightarrow> (nat \<times> u32) list \<Rightarrow> svga \<Rightarrow> svga" where
  "puts p ws d = fold (\<lambda>(i, v). put p i v) ws d"

definition put_dwords :: "fifo_ptr \<Rightarrow> nat \<Rightarrow> u32 list \<Rightarrow> svga \<Rightarrow> svga" where
  "put_dwords p i vs d = puts p (zip [i..<i + length vs] vs) d"

definition FIFOReserveCmd :: "host \<Rightarrow> u32 \<Rightarrow> nat \<Rightarrow> svga \<Rightarrow> (fifo_ptr option \<times> svga) option" where
  "FIFOReserveCmd h type bytes d = do {
     (cmd, d) \<leftarrow> FIFOReserve h (size_add bytes 4) d;
     case cmd of
       None \<Rightarrow> Some (None, d)
     | Some cmd \<Rightarrow> Some (Some (ptr_add cmd 1), put cmd 0 type d)
   }"

abbreviation (input) SVGA_CMD_ESCAPE :: u32 where "SVGA_CMD_ESCAPE \<equiv> 33"

definition FIFOReserveEscape :: "host \<Rightarrow> u32 \<Rightarrow> nat \<Rightarrow> svga \<Rightarrow> (fifo_ptr option \<times> svga) option" where
  "FIFOReserveEscape h nsid bytes d = do {
     let padded_bytes = size_add bytes 3 div 4 * 4;
     (header, d) \<leftarrow> FIFOReserve h (size_add padded_bytes 12) d;
     case header of
       None \<Rightarrow> Some (None, d)
     | Some header \<Rightarrow>
         Some (Some (ptr_add header 3), puts header [(0, SVGA_CMD_ESCAPE), (1, nsid), (2, of_nat bytes)] d)
   }"

text \<open>\<^verbatim>\<open>memcpy\<close> of \<open>n\<close> dwords into the FIFO memory, from the bounce buffer.\<close>

definition blit :: "fifo_mem \<Rightarrow> nat \<Rightarrow> (nat \<Rightarrow> u32) \<Rightarrow> nat \<Rightarrow> nat \<Rightarrow> fifo_mem" where
  "blit m dst src off n = (\<lambda>i. if dst \<le> i \<and> i < dst + n then src (off + (i - dst)) else m i)"

text \<open>The dword by dword copy of a device without the reserve capability.\<close>

fun bounce_loop :: "u32 \<Rightarrow> u32 \<Rightarrow> (nat \<Rightarrow> u32) \<Rightarrow> nat \<Rightarrow> nat \<Rightarrow> u32 \<Rightarrow> fifo_mem \<Rightarrow> u32 \<times> fifo_mem" where
  "bounce_loop max' min' buffer off 0 next_cmd m = (next_cmd, m)"
| "bounce_loop max' min' buffer off (Suc n) next_cmd m =
    (let m = m(unat next_cmd div 4 := buffer off);
         next_cmd = next_cmd + 4;
         next_cmd = (if next_cmd = max' then min' else next_cmd);
         m = m(SVGA_FIFO_NEXT_CMD := next_cmd)
     in bounce_loop max' min' buffer (Suc off) n next_cmd m)"

definition FIFOCommit :: "nat \<Rightarrow> svga \<Rightarrow> svga" where
  "FIFOCommit bytes d =
    (let m = m_fifo d;
         next_cmd = m SVGA_FIFO_NEXT_CMD;
         max' = m SVGA_FIFO_MAX;
         min' = m SVGA_FIFO_MIN;
         reservable = HasFIFOCap SVGA_FIFO_CAP_RESERVE d
     in if bytes mod 4 \<noteq> 0 then d
        else if m_reserved_size d = 0 then d
        else let
          m = (if m_using_bounce_buffer d then
                 (if reservable then
                    let chunk_size = (if bytes < unat (max' - next_cmd) then bytes else unat (max' - next_cmd));
                        m = m(SVGA_FIFO_RESERVED := of_nat bytes);
                        m = blit m (unat next_cmd div 4) (m_bounce d) 0 (chunk_size div 4)
                    in blit m (unat min' div 4) (m_bounce d) (chunk_size div 4) ((bytes - chunk_size) div 4)
                  else snd (bounce_loop max' min' (m_bounce d) 0 (bytes div 4) next_cmd m))
               else m);
          m = (if \<not> m_using_bounce_buffer d \<or> reservable then
                 let next_cmd = next_cmd + of_nat bytes;
                     next_cmd = (if next_cmd \<ge> max' then next_cmd - (max' - min') else next_cmd)
                 in m(SVGA_FIFO_NEXT_CMD := next_cmd)
               else m);
          m = (if reservable then m(SVGA_FIFO_RESERVED := 0) else m)
        in d\<lparr>m_reserved_size := 0, m_fifo := m\<rparr>)"

definition FIFOCommitAll :: "svga \<Rightarrow> svga" where
  "FIFOCommitAll d = FIFOCommit (m_reserved_size d) d"

section \<open>The queue in the FIFO memory\<close>

definition fifo_lo :: "fifo_mem \<Rightarrow> nat" where "fifo_lo m = unat (m SVGA_FIFO_MIN) div 4"
definition fifo_hi :: "fifo_mem \<Rightarrow> nat" where "fifo_hi m = unat (m SVGA_FIFO_MAX) div 4"
definition fifo_next :: "fifo_mem \<Rightarrow> nat" where "fifo_next m = unat (m SVGA_FIFO_NEXT_CMD) div 4"
definition fifo_stop :: "fifo_mem \<Rightarrow> nat" where "fifo_stop m = unat (m SVGA_FIFO_STOP) div 4"

definition fifo_cap :: "fifo_mem \<Rightarrow> nat" where "fifo_cap m = fifo_hi m - fifo_lo m"

text \<open>Dword \<open>i\<close> places after position \<open>p\<close> of the data area, wrapping from \<^verbatim>\<open>MAX\<close> to \<^verbatim>\<open>MIN\<close>.\<close>

definition fifo_slot :: "fifo_mem \<Rightarrow> nat \<Rightarrow> nat \<Rightarrow> nat" where
  "fifo_slot m p i = fifo_lo m + (p - fifo_lo m + i) mod fifo_cap m"

definition fifo_len :: "fifo_mem \<Rightarrow> nat" where
  "fifo_len m = (if fifo_stop m \<le> fifo_next m then fifo_next m - fifo_stop m
                 else fifo_cap m - (fifo_stop m - fifo_next m))"

definition fifo_queue :: "fifo_mem \<Rightarrow> u32 list" where
  "fifo_queue m = map (\<lambda>i. m (fifo_slot m (fifo_stop m) i)) [0..<fifo_len m]"

text \<open>
  A well-formed FIFO: the four byte positions are dword-aligned, the data area lies after the
  registers, both ends of the queue lie in the data area, and a position plus the largest
  command (64K) fits 32 bits, so \<^verbatim>\<open>MAX\<close> is at most 4G - 64K.
\<close>

definition fifo_wf :: "fifo_mem \<Rightarrow> bool" where
  "fifo_wf m \<longleftrightarrow> (\<forall>r \<in> {SVGA_FIFO_MIN, SVGA_FIFO_MAX, SVGA_FIFO_NEXT_CMD, SVGA_FIFO_STOP}. unat (m r) mod 4 = 0) \<and>
     SVGA_FIFO_NUM_REGS \<le> fifo_lo m \<and> fifo_lo m < fifo_hi m \<and>
     fifo_lo m \<le> fifo_next m \<and> fifo_next m < fifo_hi m \<and> fifo_lo m \<le> fifo_stop m \<and> fifo_stop m < fifo_hi m \<and>
     fifo_hi m \<le> 1073725440"

lemma length_fifo_queue [simp]: "length (fifo_queue m) = fifo_len m"
  by (simp add: fifo_queue_def)

lemma fifo_wfD:
  assumes "fifo_wf m"
  shows "unat (m 0) = 4 * fifo_lo m" "unat (m (Suc 0)) = 4 * fifo_hi m" "unat (m 2) = 4 * fifo_next m"
    "unat (m 3) = 4 * fifo_stop m" "291 \<le> fifo_lo m" "fifo_lo m < fifo_hi m"
    "fifo_lo m \<le> fifo_next m" "fifo_next m < fifo_hi m" "fifo_lo m \<le> fifo_stop m" "fifo_stop m < fifo_hi m"
    "fifo_hi m \<le> 1073725440" "fifo_hi m = fifo_lo m + fifo_cap m" "0 < fifo_cap m"
  using assms
  by (auto simp: fifo_wf_def fifo_lo_def fifo_hi_def fifo_next_def fifo_stop_def fifo_cap_def)

lemma fifo_len_less: "fifo_wf m \<Longrightarrow> fifo_len m < fifo_cap m"
  using fifo_wfD [of m] by (auto simp: fifo_len_def)

lemma fifo_slot_bounds: "fifo_wf m \<Longrightarrow> fifo_lo m \<le> fifo_slot m p i \<and> fifo_slot m p i < fifo_hi m"
  using fifo_wfD [of m] by (simp add: fifo_slot_def)

text \<open>Two slots within one turn of the data area differ.\<close>

lemma fifo_slot_inject:
  assumes "fifo_wf m" "i < j" "j < i + fifo_cap m"
  shows "fifo_slot m p i \<noteq> fifo_slot m p j"
proof
  assume "fifo_slot m p i = fifo_slot m p j"
  then have "(p - fifo_lo m + i) mod fifo_cap m = (p - fifo_lo m + j) mod fifo_cap m"
    by (simp add: fifo_slot_def)
  then have "fifo_cap m dvd (p - fifo_lo m + j) - (p - fifo_lo m + i)"
    using assms by (intro mod_eq_dvd_iff_nat [THEN iffD1]) auto
  then show False using assms by (auto dest: dvd_imp_le)
qed

lemma fifo_slot_next:
  assumes "fifo_wf m"
  shows "fifo_slot m (fifo_stop m) (fifo_len m + j) = fifo_slot m (fifo_next m) j"
proof -
  have "(fifo_stop m - fifo_lo m + (fifo_len m + j)) mod fifo_cap m = (fifo_next m - fifo_lo m + j) mod fifo_cap m"
  proof (cases "fifo_stop m \<le> fifo_next m")
    case True
    then have "fifo_stop m - fifo_lo m + (fifo_len m + j) = fifo_next m - fifo_lo m + j"
      using fifo_wfD [OF assms] by (simp add: fifo_len_def)
    then show ?thesis by (rule arg_cong)
  next
    case False
    then have "fifo_stop m - fifo_lo m + (fifo_len m + j) = fifo_next m - fifo_lo m + j + fifo_cap m"
      using fifo_wfD [OF assms] by (simp add: fifo_len_def)
    then show ?thesis by (metis mod_add_self2)
  qed
  then show ?thesis by (simp add: fifo_slot_def)
qed

text \<open>
  The core of every commit: once \<open>n\<close> dwords after \<^verbatim>\<open>NEXT_CMD\<close> hold the command and
  \<^verbatim>\<open>NEXT_CMD\<close> has moved past them, the queue has grown by exactly these dwords.
\<close>

definition fifo_frame :: "fifo_mem \<Rightarrow> fifo_mem \<Rightarrow> bool" where
  "fifo_frame m m' \<longleftrightarrow> m' SVGA_FIFO_MIN = m SVGA_FIFO_MIN \<and> m' SVGA_FIFO_MAX = m SVGA_FIFO_MAX"

lemma fifo_frame_geometry:
  "fifo_frame m m' \<Longrightarrow> fifo_lo m' = fifo_lo m \<and> fifo_hi m' = fifo_hi m \<and> fifo_cap m' = fifo_cap m \<and>
     fifo_slot m' = fifo_slot m"
  by (simp add: fifo_frame_def fifo_lo_def fifo_hi_def fifo_cap_def fifo_slot_def fun_eq_iff)

lemma fifo_append:
  assumes wf: "fifo_wf m" and fr: "fifo_frame m m'" and stop: "m' SVGA_FIFO_STOP = m SVGA_FIFO_STOP"
    and room: "fifo_len m + n < fifo_cap m"
    and next': "unat (m' SVGA_FIFO_NEXT_CMD) = 4 * fifo_slot m (fifo_next m) n"
    and new: "\<And>j. j < n \<Longrightarrow> m' (fifo_slot m (fifo_next m) j) = c ! j" and len: "length c = n"
    and old: "\<And>i. i < fifo_len m \<Longrightarrow> m' (fifo_slot m (fifo_stop m) i) = m (fifo_slot m (fifo_stop m) i)"
  shows "fifo_wf m' \<and> fifo_queue m' = fifo_queue m @ c \<and> fifo_len m' = fifo_len m + n"
proof -
  note w = fifo_wfD [OF wf] and g = fifo_frame_geometry [OF fr]
  have st: "fifo_stop m' = fifo_stop m" using stop by (simp add: fifo_stop_def)
  have nx: "fifo_next m' = fifo_slot m (fifo_next m) n" using next' by (simp add: fifo_next_def)
  have nb: "fifo_lo m \<le> fifo_next m'" "fifo_next m' < fifo_hi m"
    using fifo_slot_bounds [OF wf] by (simp_all add: nx)
  have wf': "fifo_wf m'"
    using wf fr stop nb next' unfolding fifo_wf_def by (auto simp: g st fifo_frame_def)
  have "fifo_slot m (fifo_stop m) (fifo_len m + n) = fifo_next m'"
    by (simp add: nx fifo_slot_next wf)
  moreover have "fifo_slot m (fifo_stop m) (fifo_len m') = fifo_next m'"
    using fifo_slot_next [OF wf', of 0] nb w by (simp add: g st) (simp add: fifo_slot_def)
  ultimately have len': "fifo_len m' = fifo_len m + n"
    using fifo_slot_inject [OF wf, of "fifo_len m'" "fifo_len m + n" "fifo_stop m"]
      fifo_slot_inject [OF wf, of "fifo_len m + n" "fifo_len m'" "fifo_stop m"]
      fifo_len_less [OF wf'] room g by (metis add.commute linorder_neqE_nat trans_less_add1)
  have *: "m' (fifo_slot m (fifo_stop m) i) = c ! (i - fifo_len m)" if "fifo_len m \<le> i" "i < fifo_len m + n" for i
    using that new [of "i - fifo_len m"] fifo_slot_next [OF wf, of "i - fifo_len m"] by auto
  have "fifo_queue m' = map (\<lambda>i. m' (fifo_slot m (fifo_stop m) i)) [0..<fifo_len m + n]"
    by (simp add: fifo_queue_def g st len')
  also have "\<dots> = fifo_queue m @ c"
    using old len * by (intro nth_equalityI) (auto simp: fifo_queue_def nth_append)
  finally show ?thesis using wf' len' by simp
qed

section \<open>What the host does\<close>

text \<open>The dwords of the FIFO memory that only the driver writes.\<close>

definition fifo_owned :: "nat \<Rightarrow> bool" where
  "fifo_owned i \<longleftrightarrow> i \<in> {SVGA_FIFO_MIN, SVGA_FIFO_MAX, SVGA_FIFO_NEXT_CMD, SVGA_FIFO_CAPABILITIES, SVGA_FIFO_RESERVED}
     \<or> SVGA_FIFO_NUM_REGS \<le> i"

text \<open>
  The documented behaviour of the host: it never writes the driver's part of the FIFO memory
  nor the constant registers, it takes dwords from the front of the queue only, and after a
  write to \<^verbatim>\<open>SYNC\<close> it takes at least one if there is any.
\<close>

definition host_serving :: "host \<Rightarrow> bool" where
  "host_serving h \<longleftrightarrow> (\<forall>t log m. fifo_wf m \<longrightarrow>
     fifo_wf (h_step h t log m) \<and> (\<forall>i. fifo_owned i \<longrightarrow> h_step h t log m i = m i) \<and>
     (\<exists>k. fifo_queue (h_step h t log m) = drop k (fifo_queue m)) \<and>
     (log \<noteq> [] \<and> last log = (SVGA_REG_SYNC, 1) \<and> fifo_queue m \<noteq> [] \<longrightarrow>
        fifo_len (h_step h t log m) < fifo_len m))"

text \<open>The driver's fields that FIFO traffic leaves alone.\<close>

definition driver_fields :: "svga \<Rightarrow> _" where
  "driver_fields d = ((m_next_fence d, m_cursor_ptr d, m_has_provider d, m_mapped d, m_has_bounce_buffer d),
     (m_fifo_size d, m_capabilities d, m_width d, m_height d, m_pitch d, m_max_width d, m_max_height d),
     (m_max_gmr_ids d, m_max_gmr_descriptor_length d, m_max_gmr_pages d, m_total_memory d),
     (m_fb_offset d, m_vram_size d, m_fb_size d),
     (m_fifo d SVGA_FIFO_MIN, m_fifo d SVGA_FIFO_MAX, m_fifo d SVGA_FIFO_CAPABILITIES))"

text \<open>What a round of host activity does to the driver's state.\<close>

definition served :: "svga \<Rightarrow> svga \<Rightarrow> bool" where
  "served d d' \<longleftrightarrow> fifo_wf (m_fifo d') \<and> (\<forall>i. fifo_owned i \<longrightarrow> m_fifo d' i = m_fifo d i) \<and>
     (\<exists>k. fifo_queue (m_fifo d') = drop k (fifo_queue (m_fifo d))) \<and>
     driver_fields d' = driver_fields d \<and> m_reserved_size d' = m_reserved_size d \<and>
     m_using_bounce_buffer d' = m_using_bounce_buffer d \<and> m_bounce d' = m_bounce d"

lemma served_trans: "served a b \<Longrightarrow> served b c \<Longrightarrow> served a c"
  unfolding served_def by (metis drop_drop)

lemma served_refl: "fifo_wf (m_fifo d) \<Longrightarrow> served d d"
  unfolding served_def by (metis drop0)

lemma served_geometry:
  "served d d' \<Longrightarrow> fifo_lo (m_fifo d') = fifo_lo (m_fifo d) \<and> fifo_hi (m_fifo d') = fifo_hi (m_fifo d) \<and>
     fifo_cap (m_fifo d') = fifo_cap (m_fifo d) \<and> fifo_next (m_fifo d') = fifo_next (m_fifo d)"
  by (simp add: served_def fifo_owned_def fifo_lo_def fifo_hi_def fifo_cap_def fifo_next_def)

lemma served_len: "served d d' \<Longrightarrow> fifo_len (m_fifo d') \<le> fifo_len (m_fifo d)"
  unfolding served_def by (metis diff_le_self length_drop length_fifo_queue)

lemma served_poll:
  assumes "host_serving h" "fifo_wf (m_fifo d)"
  shows "served d (poll h d)"
  using assms unfolding served_def host_serving_def
  by (auto simp: poll_def driver_fields_def fifo_owned_def)

lemma served_WriteReg:
  assumes "host_serving h" "fifo_wf (m_fifo d)"
  shows "served d (WriteReg h i v d)"
proof -
  have "served d (d\<lparr>io_log := io_log d @ [(i, v)]\<rparr>)"
    using served_refl [OF assms(2)] by (simp add: served_def driver_fields_def)
  then show ?thesis
    unfolding WriteReg_def by (rule served_trans) (rule served_poll, use assms in simp_all)
qed

lemma served_ReadReg:
  assumes "host_serving h" "fifo_wf (m_fifo d)"
  shows "served d (snd (ReadReg h i d))"
  using served_poll [OF assms] by (simp add: ReadReg_def Let_def)

lemma served_wf: "served d d' \<Longrightarrow> fifo_wf (m_fifo d')"
  by (simp add: served_def)

lemma served_FIFOFull:
  assumes "host_serving h" "fifo_wf (m_fifo d)"
  shows "served d (FIFOFull h d)"
  unfolding FIFOFull_def
proof (rule served_trans)
  show "served d (WriteReg h SVGA_REG_SYNC 1 d)" using assms by (rule served_WriteReg)
  then show "served (WriteReg h SVGA_REG_SYNC 1 d) (snd (ReadReg h SVGA_REG_BUSY (WriteReg h SVGA_REG_SYNC 1 d)))"
    using assms(1) by (intro served_ReadReg served_wf)
qed

lemma FIFOFull_progress:
  assumes "host_serving h" "fifo_wf (m_fifo d)" "fifo_len (m_fifo d) \<noteq> 0"
  shows "fifo_len (m_fifo (FIFOFull h d)) < fifo_len (m_fifo d)"
proof -
  let ?d = "WriteReg h SVGA_REG_SYNC 1 d"
  have "fifo_queue (m_fifo d) \<noteq> []" using assms(3) by (simp flip: length_0_conv)
  then have "fifo_len (m_fifo ?d) < fifo_len (m_fifo d)"
    using assms unfolding host_serving_def by (simp add: WriteReg_def poll_def)
  moreover have "fifo_len (m_fifo (FIFOFull h d)) \<le> fifo_len (m_fifo ?d)"
    unfolding FIFOFull_def
    by (rule served_len, rule served_ReadReg) (use assms served_WriteReg served_wf in blast)+
  ultimately show ?thesis by simp
qed

section \<open>Reserving\<close>

definition fifo_ready :: "svga \<Rightarrow> bool" where
  "fifo_ready d \<longleftrightarrow> fifo_wf (m_fifo d) \<and> m_reserved_size d = 0"

text \<open>An open reservation of \<open>n\<close> dwords at \<open>p\<close>.\<close>

definition fifo_pending :: "svga \<Rightarrow> fifo_ptr \<Rightarrow> nat \<Rightarrow> bool" where
  "fifo_pending d p n \<longleftrightarrow> fifo_wf (m_fifo d) \<and> m_reserved_size d = 4 * n \<and> 0 < n \<and> n \<le> 16384 \<and>
     fifo_len (m_fifo d) + n < fifo_cap (m_fifo d) \<and>
     (if m_using_bounce_buffer d then p = Bounce_at 0
      else p = Fifo_at (fifo_next (m_fifo d)) \<and> fifo_next (m_fifo d) + n \<le> fifo_hi (m_fifo d))"

lemma wf_space:
  assumes "fifo_wf m" and "fifo_stop m \<le> fifo_next m"
  shows "unat (m (Suc 0) - m 2 + (m 3 - m 0)) = 4 * (fifo_hi m - fifo_next m + (fifo_stop m - fifo_lo m))"
proof -
  note w = fifo_wfD [OF assms(1)]
  have "unat (m (Suc 0) - m 2) = 4 * (fifo_hi m - fifo_next m)" "unat (m 3 - m 0) = 4 * (fifo_stop m - fifo_lo m)"
    using w by (simp_all add: unat_sub_no_wrap diff_mult_distrib2)
  then show ?thesis using w assms(2) by (subst unat_add_no_wrap) simp_all
qed

text \<open>What a round of the reserve loop decides, in terms of the queue.\<close>

lemma reserve_decide_cases:
  assumes wf: "fifo_wf m" and n: "n < fifo_cap m"
  shows "case reserve_decide (m SVGA_FIFO_MAX) (m SVGA_FIFO_MIN) (m SVGA_FIFO_NEXT_CMD) (m SVGA_FIFO_STOP) (4 * n) of
           Reserve_in_place \<Rightarrow> fifo_len m + n < fifo_cap m \<and> fifo_next m + n \<le> fifo_hi m
         | Need_bounce \<Rightarrow> fifo_len m + n < fifo_cap m
         | Fifo_full \<Rightarrow> fifo_len m \<noteq> 0 \<and> fifo_cap m \<le> fifo_len m + n"
proof -
  note w = fifo_wfD [OF wf]
  have cmp: "m 3 \<le> m 2 \<longleftrightarrow> fifo_stop m \<le> fifo_next m" "m 0 < m 3 \<longleftrightarrow> fifo_lo m < fifo_stop m"
    using w by (simp_all add: word_le_nat_alt word_less_nat_alt)
  note sum = wf_space [OF wf]
  show ?thesis
    unfolding reserve_decide_def using w n sum
    by (simp add: cmp fifo_len_def) linarith
qed


text \<open>
  The loop returns when the host serves, whatever the queue holds at the start; it hands out a
  reservation of the requested size that does not overlap the queue.
\<close>

lemma fifo_queue_cong:
  assumes "\<forall>i. i \<le> 3 \<or> 291 \<le> i \<longrightarrow> m' i = m i" and "fifo_wf m"
  shows "fifo_queue m' = fifo_queue m" "fifo_wf m' = fifo_wf m" "fifo_len m' = fifo_len m"
    "fifo_lo m' = fifo_lo m" "fifo_hi m' = fifo_hi m" "fifo_cap m' = fifo_cap m" "fifo_next m' = fifo_next m"
    "fifo_stop m' = fifo_stop m" "fifo_slot m' = fifo_slot m"
proof -
  have r: "m' 0 = m 0" "m' (Suc 0) = m (Suc 0)" "m' 2 = m 2" "m' 3 = m 3" using assms by simp_all
  then show g: "fifo_len m' = fifo_len m"
    "fifo_lo m' = fifo_lo m" "fifo_hi m' = fifo_hi m" "fifo_cap m' = fifo_cap m" "fifo_next m' = fifo_next m"
    "fifo_stop m' = fifo_stop m" "fifo_slot m' = fifo_slot m" "fifo_wf m' = fifo_wf m"
    by (simp_all add: fifo_len_def fifo_lo_def fifo_hi_def fifo_cap_def fifo_next_def fifo_stop_def
        fifo_slot_def fifo_wf_def fun_eq_iff)
  have "m' (fifo_slot m p i) = m (fifo_slot m p i)" for p i
    using assms fifo_slot_bounds [OF assms(2), of p i] fifo_wfD(5) [OF assms(2)] by simp
  then show "fifo_queue m' = fifo_queue m" by (simp add: fifo_queue_def g)
qed

definition reserved_for :: "svga \<Rightarrow> svga \<Rightarrow> fifo_ptr \<Rightarrow> nat \<Rightarrow> bool" where
  "reserved_for d d' p n \<longleftrightarrow> fifo_pending d' p n \<and> driver_fields d' = driver_fields d \<and>
     (\<exists>k. fifo_queue (m_fifo d') = drop k (fifo_queue (m_fifo d)))"

lemma FIFOReserve_loop_returns:
  assumes serving: "host_serving h" and "fifo_wf (m_fifo d)" and "m_reserved_size d = 4 * n"
    and "0 < n" and "n \<le> 16384" and "n < fifo_cap (m_fifo d)"
  shows "\<exists>p d'. FIFOReserve_loop h (m_fifo d SVGA_FIFO_MAX) (m_fifo d SVGA_FIFO_MIN) (m_fifo d SVGA_FIFO_NEXT_CMD)
      reservable (4 * n) d = Some (p, d') \<and> reserved_for d d' p n"
  using assms(2-)
proof (induction "fifo_len (m_fifo d)" arbitrary: d rule: less_induct)
  case less
  let ?d = "poll h d" let ?m = "m_fifo ?d"
  let ?full = "FIFOFull h ?d"
  have s: "served d ?d" using serving less.prems(1) by (rule served_poll)
  note g = served_geometry [OF s] and wf = served_wf [OF s]
  have regs: "m_fifo d 0 = ?m 0" "m_fifo d (Suc 0) = ?m (Suc 0)" "m_fifo d 2 = ?m 2"
    using s by (simp_all add: served_def fifo_owned_def)
  let ?dec = "reserve_decide (?m 1) (?m 0) (?m 2) (?m 3) (4 * n)"
  have dec: "case ?dec of Reserve_in_place \<Rightarrow> fifo_len ?m + n < fifo_cap ?m \<and> fifo_next ?m + n \<le> fifo_hi ?m
         | Need_bounce \<Rightarrow> fifo_len ?m + n < fifo_cap ?m
         | Fifo_full \<Rightarrow> fifo_len ?m \<noteq> 0 \<and> fifo_cap ?m \<le> fifo_len ?m + n"
    using wf less.prems(5) g by (intro reserve_decide_cases) simp_all
  have base: "m_reserved_size ?d = 4 * n" "driver_fields ?d = driver_fields d"
    "\<exists>k. fifo_queue ?m = drop k (fifo_queue (m_fifo d))"
    using s less.prems(2) by (simp_all add: served_def)
  have bounce: "reserved_for d (?d\<lparr>m_using_bounce_buffer := True\<rparr>) (Bounce_at 0) n"
    if "fifo_len ?m + n < fifo_cap ?m"
    using base wf that less.prems(3,4) by (simp add: reserved_for_def fifo_pending_def driver_fields_def)
  show ?case
  proof (cases ?dec)
    case Reserve_in_place
    let ?m' = "if reservable then ?m(SVGA_FIFO_RESERVED := of_nat (4 * n)) else ?m"
    have "\<forall>i. i \<le> 3 \<or> 291 \<le> i \<longrightarrow> ?m' i = ?m i" by simp
    note c = fifo_queue_cong [OF this wf]
    have "reserved_for d (?d\<lparr>m_using_bounce_buffer := False, m_fifo := ?m'\<rparr>) (Fifo_at (unat (m_fifo d 2) div 4)) n"
      using base wf dec Reserve_in_place less.prems(3,4) fifo_wfD(3) [OF wf] regs c
      by (auto simp: reserved_for_def fifo_pending_def driver_fields_def)
    then show ?thesis
      using Reserve_in_place dec bounce regs by (subst FIFOReserve_loop.simps) (auto simp: Let_def)
  next
    case Need_bounce
    then show ?thesis
      using dec bounce regs by (subst FIFOReserve_loop.simps) (auto simp: Let_def)
  next
    case Fifo_full
    have s2: "served ?d ?full" using serving wf by (rule served_FIFOFull)
    have lt: "fifo_len (m_fifo ?full) < fifo_len (m_fifo d)"
      using FIFOFull_progress [OF serving wf] dec Fifo_full served_len [OF s] by simp
    have s3: "served d ?full" using s s2 by (rule served_trans)
    then have "m_fifo ?full 0 = m_fifo d 0" "m_fifo ?full (Suc 0) = m_fifo d (Suc 0)" "m_fifo ?full 2 = m_fifo d 2"
      by (simp_all add: served_def fifo_owned_def)
    then obtain p d' where "FIFOReserve_loop h (m_fifo d 1) (m_fifo d 0) (m_fifo d 2) reservable (4 * n) ?full
        = Some (p, d')" "reserved_for ?full d' p n"
      using less.hyps [OF lt] less.prems served_geometry [OF s3] served_wf [OF s3] s3
      by (auto simp: served_def)
    moreover from this(2) have "reserved_for d d' p n"
      using s3 unfolding reserved_for_def served_def by (metis drop_drop)
    ultimately show ?thesis
      using Fifo_full regs by (subst FIFOReserve_loop.simps) (auto simp: Let_def)
  qed
qed

definition fifo_fits :: "svga \<Rightarrow> nat \<Rightarrow> bool" where
  "fifo_fits d n \<longleftrightarrow> n \<le> 16384 \<and> n < fifo_cap (m_fifo d)"

definition fifo_too_large :: "svga \<Rightarrow> nat \<Rightarrow> bool" where
  "fifo_too_large d n \<longleftrightarrow> 16384 < n \<or> fifo_cap (m_fifo d) < n"

lemma unat_max_minus_min: "fifo_wf m \<Longrightarrow> unat (m (Suc 0) - m 0) = 4 * fifo_cap m"
  using fifo_wfD [of m] by (simp add: unat_sub_no_wrap)

lemma FIFOReserve_returns:
  assumes "host_serving h" and "fifo_ready d" and "0 < n" and "fifo_fits d n"
  shows "\<exists>p d'. FIFOReserve h (4 * n) d = Some (Some p, d') \<and> reserved_for d d' p n"
proof -
  let ?d = "d\<lparr>m_reserved_size := 4 * n\<rparr>"
  obtain p d' where "FIFOReserve_loop h (m_fifo d 1) (m_fifo d 0) (m_fifo d 2)
      (HasFIFOCap SVGA_FIFO_CAP_RESERVE d) (4 * n) ?d = Some (p, d')" "reserved_for ?d d' p n"
    using FIFOReserve_loop_returns [of h ?d n, where reservable = "HasFIFOCap SVGA_FIFO_CAP_RESERVE d"] assms by (auto simp: fifo_ready_def fifo_fits_def)
  moreover from this(2) have "reserved_for d d' p n"
    by (simp add: reserved_for_def driver_fields_def)
  ultimately show ?thesis
    using assms by (simp add: FIFOReserve_def Let_def fifo_ready_def fifo_fits_def unat_max_minus_min)
qed

lemma FIFOReserve_refused:
  assumes "fifo_ready d" and "fifo_too_large d n"
  shows "FIFOReserve h (4 * n) d = Some (None, d)"
  using assms by (auto simp: FIFOReserve_def Let_def fifo_ready_def fifo_too_large_def unat_max_minus_min)

text \<open>Writing through the reserved pointer.\<close>

definition fifo_contents :: "svga \<Rightarrow> fifo_ptr \<Rightarrow> nat \<Rightarrow> u32 list" where
  "fifo_contents d p n = map (\<lambda>i. peek p i d) [0..<n]"

lemma length_fifo_contents [simp]: "length (fifo_contents d p n) = n"
  by (simp add: fifo_contents_def)

text \<open>A dword past \<^verbatim>\<open>NEXT_CMD\<close>, within the free room, is not part of the queue.\<close>

lemma fifo_slot_free:
  assumes "fifo_wf m" and "fifo_len m + j < fifo_cap m" and "i < fifo_len m"
  shows "fifo_slot m (fifo_stop m) i \<noteq> fifo_slot m (fifo_next m) j"
  using fifo_slot_inject [OF assms(1), of i "fifo_len m + j" "fifo_stop m"] assms
  by (simp add: fifo_slot_next)

lemma fifo_slot_straight:
  assumes "fifo_wf m" and "fifo_next m + j < fifo_hi m"
  shows "fifo_slot m (fifo_next m) j = fifo_next m + j"
  using fifo_wfD [OF assms(1)] assms(2) by (simp add: fifo_slot_def)

lemma put_in_place:
  assumes wf: "fifo_wf m" and i: "i < n" and room: "fifo_len m + n < fifo_cap m"
    and straight: "fifo_next m + n \<le> fifo_hi m"
  shows "fifo_queue (m(fifo_next m + i := v)) = fifo_queue m" and "fifo_wf (m(fifo_next m + i := v))"
    and "fifo_len (m(fifo_next m + i := v)) = fifo_len m" and "fifo_cap (m(fifo_next m + i := v)) = fifo_cap m"
    and "fifo_next (m(fifo_next m + i := v)) = fifo_next m" and "fifo_hi (m(fifo_next m + i := v)) = fifo_hi m"
proof -
  let ?m = "m(fifo_next m + i := v)"
  have ge: "291 \<le> fifo_next m + i" using fifo_wfD [OF wf] by simp
  then have r: "?m 0 = m 0" "?m (Suc 0) = m (Suc 0)" "?m 2 = m 2" "?m 3 = m 3" by auto
  show g: "fifo_len ?m = fifo_len m" "fifo_cap ?m = fifo_cap m" "fifo_next ?m = fifo_next m" "fifo_hi ?m = fifo_hi m"
    "fifo_wf ?m"
    using wf by (simp_all only: fifo_len_def fifo_lo_def fifo_hi_def fifo_cap_def fifo_next_def fifo_stop_def
        fifo_wf_def r One_nat_def) simp_all
  have "?m (fifo_slot m (fifo_stop m) j) = m (fifo_slot m (fifo_stop m) j)" if "j < fifo_len m" for j
  proof -
    have "fifo_slot m (fifo_next m) i = fifo_next m + i"
      using wf straight i by (intro fifo_slot_straight) simp_all
    then show ?thesis using fifo_slot_free [OF wf _ that, of i] room i by simp
  qed
  moreover have "fifo_slot ?m = fifo_slot m" "fifo_stop ?m = fifo_stop m"
    by (simp_all only: fifo_slot_def fifo_lo_def fifo_cap_def fifo_hi_def fifo_stop_def r fun_eq_iff One_nat_def) simp
  ultimately show "fifo_queue ?m = fifo_queue m"
    unfolding fifo_queue_def by (simp add: g)
qed

lemma put_pending:
  assumes "fifo_pending d p n" and "i < n"
  shows "fifo_pending (put p i v d) p n" and "fifo_contents (put p i v d) p n = (fifo_contents d p n)[i := v]"
    and "fifo_queue (m_fifo (put p i v d)) = fifo_queue (m_fifo d)"
    and "driver_fields (put p i v d) = driver_fields d"
proof -
  have upd: "fifo_contents (put p i v d) p n = (fifo_contents d p n)[i := v]"
    using assms(2) by (cases p) (auto simp: fifo_contents_def nth_list_update intro!: nth_equalityI)
  show "fifo_contents (put p i v d) p n = (fifo_contents d p n)[i := v]" by (fact upd)
  show "fifo_pending (put p i v d) p n" "fifo_queue (m_fifo (put p i v d)) = fifo_queue (m_fifo d)"
    "driver_fields (put p i v d) = driver_fields d"
    using assms put_in_place [of "m_fifo d" i n v] fifo_wfD [of "m_fifo d"]
    by (auto simp: fifo_pending_def driver_fields_def split: if_splits)
qed

section \<open>Committing\<close>

text \<open>The new value of \<^verbatim>\<open>NEXT_CMD\<close>.\<close>

lemma commit_next:
  assumes wf: "fifo_wf m" and n: "n \<le> fifo_cap m" "n \<le> 16384"
  shows "unat (let next_cmd = m 2 + of_nat (4 * n) in
           if next_cmd \<ge> m (Suc 0) then next_cmd - (m (Suc 0) - m 0) else next_cmd) =
         4 * fifo_slot m (fifo_next m) n"
proof -
  note w = fifo_wfD [OF wf]
  define y where "y = m 2 + of_nat (4 * n)"
  have sum: "unat y = 4 * (fifo_next m + n)"
    unfolding y_def using w n by (subst unat_add_of_nat) simp_all
  have "unat (let next_cmd = y in
          if next_cmd \<ge> m (Suc 0) then next_cmd - (m (Suc 0) - m 0) else next_cmd) = 4 * fifo_slot m (fifo_next m) n"
  proof (cases "fifo_hi m \<le> fifo_next m + n")
    case True
    then have "m (Suc 0) \<le> y"
      unfolding word_le_nat_alt sum using w by simp
    moreover have "unat (y - (m (Suc 0) - m 0)) = 4 * (fifo_next m + n - fifo_cap m)"
      using w n True unat_max_minus_min [OF wf] by (subst unat_sub_no_wrap) (simp_all add: sum)
    moreover have "(fifo_next m - fifo_lo m + n) mod fifo_cap m = fifo_next m - fifo_lo m + n - fifo_cap m"
      using w n True by (subst le_mod_geq) simp_all
    ultimately show ?thesis
      using w n True by (simp add: Let_def fifo_slot_def)
  next
    case False
    then have "\<not> m (Suc 0) \<le> y"
      unfolding word_le_nat_alt sum using w by simp
    then show ?thesis
      using w n False sum by (simp add: Let_def fifo_slot_def)
  qed
  then show ?thesis by (simp only: y_def)
qed

lemma fifo_slot_wrapped:
  assumes wf: "fifo_wf m" and "fifo_hi m \<le> fifo_next m + j" and "j < fifo_cap m"
  shows "fifo_slot m (fifo_next m) j = fifo_lo m + (fifo_next m + j - fifo_hi m)"
proof -
  have "(fifo_next m - fifo_lo m + j) mod fifo_cap m = fifo_next m - fifo_lo m + j - fifo_cap m"
    using fifo_wfD [OF wf] assms by (subst le_mod_geq) simp_all
  then show ?thesis
    using fifo_wfD [OF wf] assms by (simp add: fifo_slot_def)
qed

lemma blit_wrap:
  fixes src :: "nat \<Rightarrow> u32"
  assumes wf: "fifo_wf m" and room: "fifo_len m + n < fifo_cap m"
    and chunk: "chunk = min n (fifo_hi m - fifo_next m)"
  defines "m' \<equiv> blit (blit m (fifo_next m) src 0 chunk) (fifo_lo m) src chunk (n - chunk)"
  shows "\<And>j. j < n \<Longrightarrow> m' (fifo_slot m (fifo_next m) j) = src j"
    and "\<And>i. i < fifo_len m \<Longrightarrow> m' (fifo_slot m (fifo_stop m) i) = m (fifo_slot m (fifo_stop m) i)"
    and "\<And>i. i < 291 \<Longrightarrow> m' i = m i"
proof -
  note w = fifo_wfD [OF wf]
  show new: "m' (fifo_slot m (fifo_next m) j) = src j" if "j < n" for j
  proof (cases "fifo_next m + j < fifo_hi m")
    case True
    then show ?thesis
      using that w room chunk fifo_slot_straight [OF wf True] by (auto simp: m'_def blit_def)
  next
    case False
    then have "fifo_slot m (fifo_next m) j = fifo_lo m + (fifo_next m + j - fifo_hi m)"
      using that room by (intro fifo_slot_wrapped wf) simp_all
    moreover obtain k where k: "fifo_next m + j = fifo_hi m + k"
      using False by (metis le_Suc_ex not_less)
    ultimately have "fifo_slot m (fifo_next m) j = fifo_lo m + k" by simp
    moreover have "fifo_lo m + k < fifo_lo m + n - chunk" "chunk + k = j" "chunk \<le> n"
      using k that w chunk by auto
    ultimately show ?thesis
      by (simp add: m'_def blit_def)
  qed
  show "m' i = m i" if "i < 291" for i
    using that w by (simp add: m'_def blit_def)
  show "m' (fifo_slot m (fifo_stop m) i) = m (fifo_slot m (fifo_stop m) i)" if "i < fifo_len m" for i
  proof -
    let ?i = "fifo_slot m (fifo_stop m) i"
    have "m' x = m x" if "\<forall>j<n. x \<noteq> fifo_slot m (fifo_next m) j" "fifo_lo m \<le> x" "x < fifo_hi m" for x
    proof (rule ccontr)
      assume "m' x \<noteq> m x"
      then have "(fifo_next m \<le> x \<and> x < fifo_next m + chunk) \<or> x < fifo_lo m + (n - chunk)"
        unfolding m'_def blit_def by (metis (full_types))
      then show False
      proof
        assume *: "fifo_next m \<le> x \<and> x < fifo_next m + chunk"
        then have "fifo_slot m (fifo_next m) (x - fifo_next m) = x"
          using that(3) by (subst fifo_slot_straight [OF wf]) simp_all
        moreover have "x - fifo_next m < n" using * chunk by auto
        ultimately show False using that(1) by metis
      next
        assume *: "x < fifo_lo m + (n - chunk)"
        then have ch: "chunk = fifo_hi m - fifo_next m" using chunk that(2) by auto
        have "fifo_slot m (fifo_next m) (chunk + (x - fifo_lo m)) = x"
          using * ch w that(2) room by (subst fifo_slot_wrapped [OF wf]) simp_all
        with that(1,2) * show False by (metis add.commute less_diff_conv2 less_diff_conv)
      qed
    qed
    then show ?thesis
      using that room fifo_slot_free [OF wf _ that] fifo_slot_bounds [OF wf] by simp
  qed
qed

lemma bounce_loop_wrap:
  assumes wf: "fifo_wf m" and room: "fifo_len m + n < fifo_cap m"
    and "bounce_loop (m (Suc 0)) (m 0) src off n (m 2) m = (next', m')"
  shows "fifo_wf m' \<and> fifo_queue m' = fifo_queue m @ map (\<lambda>i. src (off + i)) [0..<n] \<and>
    m' 0 = m 0 \<and> m' (Suc 0) = m (Suc 0) \<and> m' 4 = m 4"
  using assms
proof (induction n arbitrary: off m next' m')
  case 0
  then show ?case by simp
next
  case (Suc n)
  note wf = Suc.prems(1) and w = fifo_wfD [OF Suc.prems(1)]
  let ?next = "if m 2 + 4 = m (Suc 0) then m 0 else m 2 + 4"
  let ?m = "m(fifo_next m := src off, 2 := ?next)"
  have eq: "?m 0 = m 0" "?m (Suc 0) = m (Suc 0)" "?m 2 = ?next" "?m 3 = m 3" "?m 4 = m 4" using w by auto
  have run: "bounce_loop (?m (Suc 0)) (?m 0) src (Suc off) n (?m 2) ?m = (next', m')"
    using Suc.prems(3) w by (simp only: eq) (simp add: Let_def)
  have step: "fifo_wf ?m \<and> fifo_queue ?m = fifo_queue m @ [src off] \<and> fifo_len ?m = fifo_len m + 1"
  proof (rule fifo_append [OF wf])
    show "fifo_frame m ?m" unfolding fifo_frame_def by (simp only: eq One_nat_def)
    show "unat (?m 2) = 4 * fifo_slot m (fifo_next m) 1"
    proof -
      have sum: "unat (m 2 + 4) = 4 * (fifo_next m + 1)"
        using w by (subst unat_add_no_wrap) simp_all
      have iff: "m 2 + 4 = m (Suc 0) \<longleftrightarrow> fifo_next m + 1 = fifo_hi m"
        unfolding word_unat_eq_iff sum using w by auto
      show ?thesis
      proof (cases "fifo_next m + 1 = fifo_hi m")
        case True
        then have "fifo_slot m (fifo_next m) 1 = fifo_lo m"
          using w Suc.prems(2) by (subst fifo_slot_wrapped [OF wf]) simp_all
        then show ?thesis using True iff w by simp
      next
        case False
        then have "fifo_slot m (fifo_next m) 1 = fifo_next m + 1"
          using w by (subst fifo_slot_straight [OF wf]) simp_all
        then show ?thesis using False iff sum by simp
      qed
    qed
    show "?m (fifo_slot m (fifo_stop m) i) = m (fifo_slot m (fifo_stop m) i)" if "i < fifo_len m" for i
      using fifo_slot_free [OF wf _ that, of 0] fifo_slot_straight [OF wf, of 0] w Suc.prems(2)
        fifo_slot_bounds [OF wf, of "fifo_stop m" i] by simp
    show "?m (fifo_slot m (fifo_next m) j) = [src off] ! j" if "j < 1" for j
      using that fifo_slot_straight [OF wf, of 0] w by simp
  qed (use Suc.prems(2) eq in simp_all)
  have room: "fifo_len ?m + n < fifo_cap ?m"
    using step Suc.prems(2) by (simp only: fifo_cap_def fifo_hi_def fifo_lo_def eq One_nat_def)
  have "fifo_wf m' \<and> fifo_queue m' = fifo_queue ?m @ map (\<lambda>i. src (Suc off + i)) [0..<n] \<and>
      m' 0 = ?m 0 \<and> m' (Suc 0) = ?m (Suc 0) \<and> m' 4 = ?m 4"
    by (rule Suc.IH [OF conjunct1 [OF step] room run])
  moreover have "map (\<lambda>i. src (off + i)) [0..<Suc n] = src off # map (\<lambda>i. src (Suc off + i)) [0..<n]"
    by (simp add: upt_conv_Cons map_Suc_upt [symmetric] comp_def del: upt_Suc)
  ultimately show ?case
    using step by (simp only: eq append.assoc append_Cons append_Nil)
qed

lemma FIFOCommitAll_pending:
  assumes pending: "fifo_pending d p n"
  shows "fifo_ready (FIFOCommitAll d)"
    and "fifo_queue (m_fifo (FIFOCommitAll d)) = fifo_queue (m_fifo d) @ fifo_contents d p n"
    and "driver_fields (FIFOCommitAll d) = driver_fields d"
proof -
  let ?m = "m_fifo d" and ?d = "FIFOCommitAll d" and ?r = "HasFIFOCap SVGA_FIFO_CAP_RESERVE d"
  have wf: "fifo_wf ?m" and size: "m_reserved_size d = 4 * n" and n: "0 < n" "n \<le> 16384"
    and room: "fifo_len ?m + n < fifo_cap ?m"
    using pending by (simp_all add: fifo_pending_def)
  note w = fifo_wfD [OF wf]
  have "fifo_wf (m_fifo ?d) \<and> fifo_queue (m_fifo ?d) = fifo_queue ?m @ fifo_contents d p n \<and>
      m_fifo ?d 0 = ?m 0 \<and> m_fifo ?d (Suc 0) = ?m (Suc 0) \<and> m_fifo ?d 4 = ?m 4"
  proof (cases "m_using_bounce_buffer d \<and> \<not> ?r")
    case True
    obtain next' m' where run: "bounce_loop (?m (Suc 0)) (?m 0) (m_bounce d) 0 n (?m 2) ?m = (next', m')"
      by fastforce
    from bounce_loop_wrap [OF wf room this] show ?thesis
      using True n size run pending
      by (simp add: FIFOCommitAll_def FIFOCommit_def Let_def fifo_contents_def fifo_pending_def)
  next
    case False
    let ?c = "fifo_contents d p n"
    define m1 where "m1 = (if m_using_bounce_buffer d then
        blit (blit (?m(14 := of_nat (4 * n))) (fifo_next ?m) (m_bounce d) 0 (min n (fifo_hi ?m - fifo_next ?m)))
          (fifo_lo ?m) (m_bounce d) (min n (fifo_hi ?m - fifo_next ?m)) (n - min n (fifo_hi ?m - fifo_next ?m))
        else ?m)"
    define m3 where "m3 = (let m2 = m1(2 := (let next_cmd = ?m 2 + of_nat (4 * n) in
           if next_cmd \<ge> ?m (Suc 0) then next_cmd - (?m (Suc 0) - ?m 0) else next_cmd))
         in if ?r then m2(14 := 0) else m2)"
    have m1: "(\<forall>i < 291. i \<noteq> 14 \<longrightarrow> m1 i = ?m i) \<and>
        (\<forall>j < n. m1 (fifo_slot ?m (fifo_next ?m) j) = ?c ! j) \<and>
        (\<forall>i < fifo_len ?m. m1 (fifo_slot ?m (fifo_stop ?m) i) = ?m (fifo_slot ?m (fifo_stop ?m) i))"
    proof (cases "m_using_bounce_buffer d")
      case True
      let ?mr = "?m(14 := of_nat (4 * n))"
      have "\<forall>i. i \<le> 3 \<or> 291 \<le> i \<longrightarrow> ?mr i = ?m i" by simp
      note c = fifo_queue_cong [where m' = ?mr, OF this wf]
      have "fifo_wf ?mr" "fifo_len ?mr + n < fifo_cap ?mr" using c wf room by simp_all
      note b = blit_wrap [OF this refl, where src = "m_bounce d", unfolded c]
      have "?c ! j = m_bounce d j" if "j < n" for j
        using that pending True by (simp add: fifo_contents_def fifo_pending_def)
      moreover have "fifo_slot ?m (fifo_stop ?m) i \<noteq> 14" for i
        using fifo_slot_bounds [OF wf, of "fifo_stop ?m" i] w by auto
      ultimately show ?thesis
        unfolding m1_def using b True by simp
    next
      case False
      have "m1 (fifo_slot ?m (fifo_next ?m) j) = ?c ! j" if "j < n" for j
        using that pending False fifo_slot_straight [OF wf, of j]
        by (simp add: fifo_contents_def fifo_pending_def m1_def)
      then show ?thesis using False by (simp add: m1_def)
    qed
    have m3: "m3 i = m1 i" if "i \<noteq> 2" "i \<noteq> 14" for i
      using that by (simp add: m3_def Let_def)
    have slot: "fifo_slot ?m p i \<noteq> 2" "fifo_slot ?m p i \<noteq> 14" for p i
      using fifo_slot_bounds [OF wf, of p i] w by auto
    have "fifo_wf m3 \<and> fifo_queue m3 = fifo_queue ?m @ ?c \<and> fifo_len m3 = fifo_len ?m + n"
    proof (rule fifo_append [OF wf])
      show "unat (m3 2) = 4 * fifo_slot ?m (fifo_next ?m) n"
        using commit_next [OF wf _ n(2)] room by (simp add: m3_def Let_def)
    qed (use m1 m3 slot room in \<open>auto simp: fifo_frame_def\<close>)
    moreover have "m3 0 = ?m 0" "m3 (Suc 0) = ?m (Suc 0)" "m3 4 = ?m 4"
      using m1 m3 by simp_all
    moreover have "m_fifo ?d = m3"
    proof -
      have max_next: "unat (?m (Suc 0) - ?m 2) = 4 * (fifo_hi ?m - fifo_next ?m)"
        using w by (simp add: unat_sub_no_wrap diff_mult_distrib2)
      show ?thesis
      proof (cases "n < fifo_hi ?m - fifo_next ?m")
        case True
        then have "min n (fifo_hi ?m - fifo_next ?m) = n" "4 * n < 4 * (fifo_hi ?m - fifo_next ?m)" by simp_all
        then show ?thesis
          using False size n w
          by (simp add: FIFOCommitAll_def FIFOCommit_def m1_def m3_def max_next Let_def del: of_nat_mult)
      next
        case wrap: False
        then have "min n (fifo_hi ?m - fifo_next ?m) = fifo_hi ?m - fifo_next ?m"
          "\<not> 4 * n < 4 * (fifo_hi ?m - fifo_next ?m)" by simp_all
        moreover have "(4 * n - 4 * (fifo_hi ?m - fifo_next ?m)) div 4 = n - (fifo_hi ?m - fifo_next ?m)"
          by (simp flip: diff_mult_distrib2)
        ultimately show ?thesis
          using False size n w
          by (simp add: FIFOCommitAll_def FIFOCommit_def m1_def m3_def max_next Let_def del: of_nat_mult)
      qed
    qed
    ultimately show ?thesis by simp
  qed
  then show "fifo_ready ?d" "fifo_queue (m_fifo ?d) = fifo_queue (m_fifo d) @ fifo_contents d p n"
    "driver_fields ?d = driver_fields d"
    using size n by (simp_all add: fifo_ready_def driver_fields_def FIFOCommitAll_def FIFOCommit_def Let_def)
qed

section \<open>The interface: a sink of commands\<close>

text \<open>
  What the command writers of the driver rely on: \<open>reserve\<close> hands out room for \<open>n\<close> dwords, \<open>store\<close>
  fills it in, \<open>commit\<close> makes the contents the end of the queue.  The other fixed functions name
  what the laws speak of: the states without and with an open reservation, its contents, the
  queue, and the part of the state that commands leave alone.
\<close>

locale command_sink =
  fixes reserve :: "'h \<Rightarrow> nat \<Rightarrow> 's \<Rightarrow> ('p option \<times> 's) option"
    and store :: "'p \<Rightarrow> nat \<Rightarrow> u32 \<Rightarrow> 's \<Rightarrow> 's"
    and commit :: "'s \<Rightarrow> 's"
    and serving :: "'h \<Rightarrow> bool"
    and ready :: "'s \<Rightarrow> bool"
    and pending :: "'s \<Rightarrow> 'p \<Rightarrow> nat \<Rightarrow> bool"
    and contents :: "'s \<Rightarrow> 'p \<Rightarrow> nat \<Rightarrow> u32 list"
    and queue :: "'s \<Rightarrow> u32 list"
    and frame :: "'s \<Rightarrow> 'f"
    and fits :: "'s \<Rightarrow> nat \<Rightarrow> bool"
    and too_large :: "'s \<Rightarrow> nat \<Rightarrow> bool"
  assumes reserve_ok: "serving h \<Longrightarrow> ready s \<Longrightarrow> 0 < n \<Longrightarrow> fits s n \<Longrightarrow>
      \<exists>p t. reserve h (4 * n) s = Some (Some p, t) \<and> pending t p n \<and> frame t = frame s \<and>
        (\<exists>k. queue t = drop k (queue s))"
    and reserve_refused: "ready s \<Longrightarrow> too_large s n \<Longrightarrow> reserve h (4 * n) s = Some (None, s)"
    and store_pending: "pending s p n \<Longrightarrow> i < n \<Longrightarrow> pending (store p i v s) p n \<and>
      contents (store p i v s) p n = (contents s p n)[i := v] \<and> queue (store p i v s) = queue s \<and>
      frame (store p i v s) = frame s"
    and length_contents: "length (contents s p n) = n"
    and commit_pending: "pending s p n \<Longrightarrow> ready (commit s) \<and>
      queue (commit s) = queue s @ contents s p n \<and> frame (commit s) = frame s"
    and fits_frame: "frame s = frame t \<Longrightarrow> fits s n = fits t n \<and> too_large s n = too_large t n"

context command_sink
begin

definition write_all :: "'p \<Rightarrow> (nat \<times> u32) list \<Rightarrow> 's \<Rightarrow> 's" where
  "write_all p ws s = fold (\<lambda>(i, v). store p i v) ws s"

lemma write_all_pending:
  assumes "pending s p n" and "\<forall>(i, v) \<in> set ws. i < n"
  shows "pending (write_all p ws s) p n \<and>
    contents (write_all p ws s) p n = fold (\<lambda>(i, v) c. c[i := v]) ws (contents s p n) \<and>
    queue (write_all p ws s) = queue s \<and> frame (write_all p ws s) = frame s"
  using assms
proof (induction ws arbitrary: s)
  case Nil
  then show ?case by (simp add: write_all_def)
next
  case (Cons w ws)
  obtain i v where w: "w = (i, v)" by fastforce
  have "pending (store p i v s) p n" "contents (store p i v s) p n = (contents s p n)[i := v]"
    "queue (store p i v s) = queue s" "frame (store p i v s) = frame s"
    using store_pending [OF Cons.prems(1), of i v] Cons.prems(2) w by simp_all
  with Cons.IH [of "store p i v s"] Cons.prems(2) w show ?case
    by (simp add: write_all_def)
qed

text \<open>The whole life of a command: it is appended to what is left of the queue.\<close>

lemma emit:
  assumes "serving h" and "ready s" and "0 < n" and "fits s n" and "\<forall>(i, v) \<in> set ws. i < n"
    and full: "\<And>c. length c = n \<Longrightarrow> fold (\<lambda>(i, v) c. c[i := v]) ws c = cmd"
  shows "\<exists>p t. reserve h (4 * n) s = Some (Some p, t) \<and> ready (commit (write_all p ws t)) \<and>
    frame (commit (write_all p ws t)) = frame s \<and>
    (\<exists>k. queue (commit (write_all p ws t)) = drop k (queue s) @ cmd)"
proof -
  obtain p t where pt: "reserve h (4 * n) s = Some (Some p, t)" "pending t p n" "frame t = frame s"
    "\<exists>k. queue t = drop k (queue s)"
    using reserve_ok [OF assms(1-4)] by blast
  note w = write_all_pending [OF pt(2) assms(5)]
  then have "pending (write_all p ws t) p n" by blast
  from commit_pending [OF this] w pt full [OF length_contents] show ?thesis
    by metis
qed

end

interpretation fifo: command_sink FIFOReserve put FIFOCommitAll host_serving fifo_ready fifo_pending
    fifo_contents "\<lambda>d. fifo_queue (m_fifo d)" driver_fields fifo_fits fifo_too_large
proof unfold_locales
  fix h s n
  assume "host_serving h" "fifo_ready s" "0 < n" "fifo_fits s n"
  from FIFOReserve_returns [OF this]
  show "\<exists>p t. FIFOReserve h (4 * n) s = Some (Some p, t) \<and> fifo_pending t p n \<and>
      driver_fields t = driver_fields s \<and> (\<exists>k. fifo_queue (m_fifo t) = drop k (fifo_queue (m_fifo s)))"
    by (auto simp: reserved_for_def)
next
  fix s t n
  assume "driver_fields s = driver_fields t"
  then show "fifo_fits s n = fifo_fits t n \<and> fifo_too_large s n = fifo_too_large t n"
    by (simp add: driver_fields_def fifo_fits_def fifo_too_large_def fifo_cap_def fifo_hi_def fifo_lo_def)
qed (simp_all add: FIFOReserve_refused put_pending FIFOCommitAll_pending)

lemma puts_write_all: "puts p ws d = fifo.write_all p ws d"
  by (simp add: puts_def fifo.write_all_def)

section \<open>Properties\<close>

lemma put_ptr_add: "put (ptr_add p j) i v d = put p (j + i) v d"
  by (cases p) (simp_all add: add.assoc)

lemma puts_ptr_add: "puts (ptr_add p j) ws d = puts p (map (\<lambda>(i, v). (j + i, v)) ws) d"
  unfolding puts_def by (induction ws arbitrary: d) (auto simp: put_ptr_add)

lemma puts_Cons: "puts p ((i, v) # ws) d = puts p ws (put p i v d)"
  by (simp add: puts_def)

lemma puts_append: "puts p (as @ bs) d = puts p bs (puts p as d)"
  by (simp add: puts_def)

text \<open>Writing all dwords from the first to the last determines the contents.\<close>

lemma fold_update_all:
  "length c = j + length vs \<Longrightarrow>
    fold (\<lambda>(i, v) c. c[i := v]) (zip [j..<j + length vs] vs) c = take j c @ vs"
proof (induction vs arbitrary: c j)
  case Nil
  then show ?case by simp
next
  case (Cons v vs)
  have "zip [j..<j + length (v # vs)] (v # vs) = (j, v) # zip [Suc j..<Suc j + length vs] vs"
    by (simp add: upt_conv_Cons del: upt_Suc)
  then show ?case
    using Cons.prems Cons.IH [of "c[j := v]" "Suc j"]
    by (simp add: take_Suc_conv_app_nth take_update_cancel del: upt_Suc)
qed

text \<open>C1: reserving, filling and committing \<open>length ws\<close> dwords returns for every queue state when
  the host serves the FIFO, and appends exactly \<open>ws\<close> to what the host has left of the queue: in
  place, through the bounce buffer, wrapping at the end of the data area, with and without the
  reserve capability.\<close>

theorem fifo_transaction:
  assumes "host_serving h" and "fifo_ready d" and "ws \<noteq> []" and "fifo_fits d (length ws)"
  shows "\<exists>p d' k. FIFOReserve h (4 * length ws) d = Some (Some p, d') \<and>
    (let e = FIFOCommitAll (put_dwords p 0 ws d') in
     fifo_ready e \<and> fifo_queue (m_fifo e) = drop k (fifo_queue (m_fifo d)) @ ws \<and>
     driver_fields e = driver_fields d)"
proof -
  have "\<forall>(i, v) \<in> set (zip [0..<0 + length ws] ws). i < length ws"
    by (auto dest: set_zip_leftD)
  moreover have "fold (\<lambda>(i, v) c. c[i := v]) (zip [0..<0 + length ws] ws) c = ws" if "length c = length ws" for c
    using that fold_update_all [of c 0 ws] by simp
  moreover have "0 < length ws" using assms(3) by simp
  ultimately obtain p t k where
    "FIFOReserve h (4 * length ws) d = Some (Some p, t)"
    "fifo_ready (FIFOCommitAll (put_dwords p 0 ws t))"
    "driver_fields (FIFOCommitAll (put_dwords p 0 ws t)) = driver_fields d"
    "fifo_queue (m_fifo (FIFOCommitAll (put_dwords p 0 ws t))) = drop k (fifo_queue (m_fifo d)) @ ws"
    using fifo.emit [OF assms(1,2) _ assms(4), where ws = "zip [0..<0 + length ws] ws" and cmd = ws]
    unfolding put_dwords_def puts_write_all by metis
  then show ?thesis unfolding Let_def by blast
qed

text \<open>C27: the reserved room is the client's alone: a store at any dword of it changes neither the
  commands that are queued nor a FIFO register nor the size of the reservation.\<close>

theorem fifo_reservation_disjoint:
  assumes "host_serving h" and "fifo_ready d" and "0 < n" and "fifo_fits d n"
    and "FIFOReserve h (4 * n) d = Some (Some p, d')" and "i < n"
  shows "fifo_queue (m_fifo (put p i v d')) = fifo_queue (m_fifo d') \<and>
    (\<forall>r < SVGA_FIFO_NUM_REGS. m_fifo (put p i v d') r = m_fifo d' r) \<and>
    m_reserved_size (put p i v d') = 4 * n"
proof -
  from FIFOReserve_returns [OF assms(1-4)] assms(5) have p: "fifo_pending d' p n"
    by (simp add: reserved_for_def)
  have "\<forall>r < SVGA_FIFO_NUM_REGS. m_fifo (put p i v d') r = m_fifo d' r"
    using p fifo_wfD [of "m_fifo d'"] by (auto simp: fifo_pending_def split: if_splits)
  with put_pending [OF p assms(6)] show ?thesis by (simp add: fifo_pending_def)
qed

lemma reserve_decide_whole:
  assumes "fifo_wf m" and "fifo_cap m = n"
  shows "reserve_decide (m SVGA_FIFO_MAX) (m SVGA_FIFO_MIN) (m SVGA_FIFO_NEXT_CMD) (m SVGA_FIFO_STOP) (4 * n) = Fifo_full"
proof -
  note w = fifo_wfD [OF assms(1)]
  have cmp: "m 3 \<le> m 2 \<longleftrightarrow> fifo_stop m \<le> fifo_next m" "m 0 < m 3 \<longleftrightarrow> fifo_lo m < fifo_stop m"
    using w by (simp_all add: word_le_nat_alt word_less_nat_alt)
  have "unat (m (Suc 0) - m 2 + (m 3 - m 0)) = 4 * (fifo_hi m - fifo_next m + (fifo_stop m - fifo_lo m))"
    if "fifo_stop m \<le> fifo_next m"
    using wf_space [OF assms(1) that] .
  then show ?thesis
    unfolding reserve_decide_def using w assms(2) by (simp add: cmp) linarith
qed

lemma FIFOReserve_loop_whole:
  assumes "FIFOReserve_loop h max' min' next_cmd r bytes d = Some res"
  shows "host_serving h \<longrightarrow> fifo_wf (m_fifo d) \<longrightarrow> max' = m_fifo d SVGA_FIFO_MAX \<longrightarrow>
    min' = m_fifo d SVGA_FIFO_MIN \<longrightarrow> next_cmd = m_fifo d SVGA_FIFO_NEXT_CMD \<longrightarrow>
    bytes = 4 * fifo_cap (m_fifo d) \<longrightarrow> False"
proof (rule FIFOReserve_loop.raw_induct [OF _ assms, where P = "\<lambda>h max' min' next_cmd r bytes d res.
    host_serving h \<longrightarrow> fifo_wf (m_fifo d) \<longrightarrow> max' = m_fifo d SVGA_FIFO_MAX \<longrightarrow>
    min' = m_fifo d SVGA_FIFO_MIN \<longrightarrow> next_cmd = m_fifo d SVGA_FIFO_NEXT_CMD \<longrightarrow>
    bytes = 4 * fifo_cap (m_fifo d) \<longrightarrow> False"], intro impI)
  fix loop h max' min' next_cmd r bytes d res
  assume IH: "\<And>h max' min' next_cmd r bytes d res. loop h max' min' next_cmd r bytes d = Some res \<Longrightarrow>
      host_serving h \<longrightarrow> fifo_wf (m_fifo d) \<longrightarrow> max' = m_fifo d SVGA_FIFO_MAX \<longrightarrow>
      min' = m_fifo d SVGA_FIFO_MIN \<longrightarrow> next_cmd = m_fifo d SVGA_FIFO_NEXT_CMD \<longrightarrow>
      bytes = 4 * fifo_cap (m_fifo d) \<longrightarrow> False"
    and run: "(let d = poll h d; stop = m_fifo d SVGA_FIFO_STOP; bounce = (Bounce_at 0, d\<lparr>m_using_bounce_buffer := True\<rparr>)
      in case reserve_decide max' min' next_cmd stop bytes of
         Reserve_in_place \<Rightarrow>
           if r \<or> bytes \<le> 4
           then Some (Fifo_at (unat next_cmd div 4), d\<lparr>m_using_bounce_buffer := False,
                m_fifo := if r then (m_fifo d)(SVGA_FIFO_RESERVED := word_of_nat bytes) else m_fifo d\<rparr>)
           else Some bounce
         | Need_bounce \<Rightarrow> Some bounce
         | Fifo_full \<Rightarrow> loop h max' min' next_cmd r bytes (FIFOFull h d)) = Some res"
    and serving: "host_serving h" and wf: "fifo_wf (m_fifo d)"
    and regs: "max' = m_fifo d SVGA_FIFO_MAX" "min' = m_fifo d SVGA_FIFO_MIN" "next_cmd = m_fifo d SVGA_FIFO_NEXT_CMD"
    and bytes: "bytes = 4 * fifo_cap (m_fifo d)"
  let ?d = "poll h d"
  have s: "served d ?d" using serving wf by (rule served_poll)
  then have regs': "max' = m_fifo ?d 1" "min' = m_fifo ?d 0" "next_cmd = m_fifo ?d 2"
    "bytes = 4 * fifo_cap (m_fifo ?d)"
    using regs bytes served_geometry [OF s] by (simp_all add: served_def fifo_owned_def)
  have "reserve_decide max' min' next_cmd (m_fifo ?d SVGA_FIFO_STOP) bytes = Fifo_full"
    unfolding regs' using served_wf [OF s] by (intro reserve_decide_whole refl)
  with run have again: "loop h max' min' next_cmd r bytes (FIFOFull h ?d) = Some res"
    by (simp add: Let_def)
  have s2: "served ?d (FIFOFull h ?d)" using serving served_wf [OF s] by (rule served_FIFOFull)
  have "max' = m_fifo (FIFOFull h ?d) 1" "min' = m_fifo (FIFOFull h ?d) 0" "next_cmd = m_fifo (FIFOFull h ?d) 2"
    "bytes = 4 * fifo_cap (m_fifo (FIFOFull h ?d))"
    using s2 regs' served_geometry [OF s2] by (simp_all add: served_def fifo_owned_def)
  with IH [OF again] serving served_wf [OF s2] show False by simp
qed

text \<open>C39: a request for exactly the size of the data area passes the size check and is then never
  granted: one dword must stay free to tell a full queue from an empty one, so the loop waits for
  ever, even when the host empties the FIFO.\<close>

theorem FIFOReserve_whole_area_hangs:
  assumes "host_serving h" and "fifo_ready d" and "fifo_cap (m_fifo d) \<le> 16384"
  shows "FIFOReserve h (4 * fifo_cap (m_fifo d)) d = None"
proof -
  let ?d = "d\<lparr>m_reserved_size := 4 * fifo_cap (m_fifo d)\<rparr>"
  have "FIFOReserve_loop h (m_fifo d SVGA_FIFO_MAX) (m_fifo d SVGA_FIFO_MIN) (m_fifo d SVGA_FIFO_NEXT_CMD)
      (HasFIFOCap SVGA_FIFO_CAP_RESERVE d) (4 * fifo_cap (m_fifo d)) ?d = None"
    using FIFOReserve_loop_whole [of h "m_fifo ?d 1" "m_fifo ?d 0" "m_fifo ?d 2" _ _ ?d] assms(1,2)
    by (auto simp: fifo_ready_def not_Some_eq [symmetric] simp del: not_Some_eq)
  with assms show ?thesis
    by (simp add: FIFOReserve_def Let_def fifo_ready_def unat_max_minus_min)
qed

section \<open>A concrete host and FIFO\<close>

text \<open>
  A host that empties the FIFO whenever it acts and reports not busy, and FIFOs with a data
  area of 25 dwords, for evaluating the properties.
\<close>

definition drain_host :: host where
  "drain_host = \<lparr>h_reg = \<lambda>t log i. 0, h_step = \<lambda>t log m. m(SVGA_FIFO_STOP := m SVGA_FIFO_NEXT_CMD)\<rparr>"

definition small_fifo :: "u32 \<Rightarrow> u32 \<Rightarrow> u32 \<Rightarrow> fifo_mem" where
  "small_fifo next_cmd stop caps =
     (\<lambda>i. of_nat i)(SVGA_FIFO_MIN := 1164, SVGA_FIFO_MAX := 1264, SVGA_FIFO_NEXT_CMD := next_cmd,
       SVGA_FIFO_STOP := stop, SVGA_FIFO_CAPABILITIES := caps)"

definition svga_new :: svga where
  "svga_new = \<lparr>m_fifo = \<lambda>_. 0, m_bounce = \<lambda>_. 0, m_using_bounce_buffer = False, m_reserved_size = 0,
     m_next_fence = 0, m_cursor_ptr = None, m_has_provider = False, m_mapped = False, m_has_bounce_buffer = False,
     m_fifo_size = 0, m_capabilities = 0, m_width = 0, m_height = 0, m_pitch = 0, m_max_width = 0,
     m_max_height = 0, m_max_gmr_ids = 0, m_max_gmr_descriptor_length = 0, m_max_gmr_pages = 0,
     m_total_memory = 0, m_fb_offset = 0, m_vram_size = 0, m_fb_size = 0, io_log = [], io_tick = 0\<rparr>"

definition small_svga :: "u32 \<Rightarrow> u32 \<Rightarrow> u32 \<Rightarrow> svga" where
  "small_svga next_cmd stop caps = svga_new\<lparr>m_fifo := small_fifo next_cmd stop caps\<rparr>"

lemma drain_host_serving: "host_serving drain_host"
  unfolding host_serving_def
proof (intro allI impI conjI)
  fix t log m
  assume wf: "fifo_wf m"
  let ?m = "h_step drain_host t log m"
  have m: "?m = m(3 := m 2)" by (simp add: drain_host_def)
  have wf': "fifo_wf ?m" and len: "fifo_len ?m = 0"
    using wf unfolding m by (simp_all add: fifo_wf_def fifo_lo_def fifo_hi_def fifo_next_def fifo_stop_def fifo_len_def)
  then have q: "fifo_queue ?m = []" by (simp flip: length_0_conv)
  show "fifo_wf ?m" by (fact wf')
  show "\<exists>k. fifo_queue ?m = drop k (fifo_queue m)"
    unfolding q by (rule exI [of _ "fifo_len m"]) simp
  show "?m i = m i" if "fifo_owned i" for i
    using that by (auto simp: m fifo_owned_def)
  assume "log \<noteq> [] \<and> last log = (SVGA_REG_SYNC, 1) \<and> fifo_queue m \<noteq> []"
  then have "fifo_len m \<noteq> 0" by (metis length_0_conv length_fifo_queue)
  then show "fifo_len ?m < fifo_len m" using len by simp
qed

lemma small_svga_ready:
  assumes "next_cmd \<in> {1164, 1200, 1256, 1260}" and "stop \<in> {1164, 1200, 1256, 1260}"
  shows "fifo_ready (small_svga next_cmd stop caps)"
    and "fifo_cap (m_fifo (small_svga next_cmd stop caps)) = 25"
  using assms by (auto simp: small_svga_def svga_new_def small_fifo_def fifo_ready_def fifo_wf_def fifo_lo_def
      fifo_hi_def fifo_next_def fifo_stop_def fifo_cap_def)

lemma fifo_transaction_witness:
  "\<exists>p d' k. FIFOReserve drain_host (4 * length [7, 8, 9 :: u32]) (small_svga 1256 1200 0) = Some (Some p, d') \<and>
    (let e = FIFOCommitAll (put_dwords p 0 [7, 8, 9] d') in
     fifo_ready e \<and>
     fifo_queue (m_fifo e) = drop k (fifo_queue (m_fifo (small_svga 1256 1200 0))) @ [7, 8, 9] \<and>
     driver_fields e = driver_fields (small_svga 1256 1200 0))"
  by (rule fifo_transaction [OF drain_host_serving])
    (simp_all add: fifo_fits_def small_svga_ready)

lemma FIFOReserve_whole_area_hangs_witness:
  "FIFOReserve drain_host (4 * fifo_cap (m_fifo (small_svga 1200 1200 64))) (small_svga 1200 1200 64) = None"
  by (rule FIFOReserve_whole_area_hangs [OF drain_host_serving]) (simp_all add: small_svga_ready)

lemma fifo_reservation_disjoint_witness:
  "\<exists>p d'. FIFOReserve drain_host (4 * 3) (small_svga 1200 1256 64) = Some (Some p, d') \<and>
    fifo_queue (m_fifo (put p 2 77 d')) = fifo_queue (m_fifo d') \<and>
    (\<forall>r < SVGA_FIFO_NUM_REGS. m_fifo (put p 2 77 d') r = m_fifo d' r) \<and>
    m_reserved_size (put p 2 77 d') = 4 * 3"
proof -
  have r: "fifo_ready (small_svga 1200 1256 64)" "fifo_fits (small_svga 1200 1256 64) 3"
    by (simp_all add: small_svga_ready fifo_fits_def)
  obtain p d' where *: "FIFOReserve drain_host (4 * 3) (small_svga 1200 1256 64) = Some (Some p, d')"
    using FIFOReserve_returns [OF drain_host_serving r(1) _ r(2)] by auto
  with fifo_reservation_disjoint [OF drain_host_serving r(1) _ r(2) *, of 2 77] show ?thesis by auto
qed

end
