(* ===== verification/SvgaDevice.thy ===== *)
theory SvgaDevice
  imports FifoQueue
begin

text \<open>
  The rest of the SVGA device object (\<^verbatim>\<open>FB/SVGADevice.cpp\<close>): bring-up and teardown,
  fences and synchronisation, cursor, mode setting, and the 2D, video and GMR commands.
  A command returns \<open>Some (ok, d)\<close> with the C++ result and the new state, and \<open>None\<close> when
  it never returns (\<open>FIFOReserve\<close> waiting for a host that does not serve the FIFO).
\<close>

abbreviation (input) SVGA_CMD_UPDATE :: u32 where "SVGA_CMD_UPDATE \<equiv> 1"
abbreviation (input) SVGA_CMD_RECT_COPY :: u32 where "SVGA_CMD_RECT_COPY \<equiv> 3"
abbreviation (input) SVGA_CMD_DEFINE_ALPHA_CURSOR :: u32 where "SVGA_CMD_DEFINE_ALPHA_CURSOR \<equiv> 22"
abbreviation (input) SVGA_CMD_FRONT_ROP_FILL :: u32 where "SVGA_CMD_FRONT_ROP_FILL \<equiv> 29"
abbreviation (input) SVGA_CMD_FENCE :: u32 where "SVGA_CMD_FENCE \<equiv> 30"
abbreviation (input) SVGA_CMD_DEFINE_GMR2 :: u32 where "SVGA_CMD_DEFINE_GMR2 \<equiv> 41"
abbreviation (input) SVGA_CMD_REMAP_GMR2 :: u32 where "SVGA_CMD_REMAP_GMR2 \<equiv> 42"
abbreviation (input) SVGA_ROP_COPY :: u32 where "SVGA_ROP_COPY \<equiv> 3"
abbreviation (input) SVGA_ID_2 :: u32 where "SVGA_ID_2 \<equiv> 0x90000002"
abbreviation (input) SVGA_CAP_EXTENDED_FIFO :: u32 where "SVGA_CAP_EXTENDED_FIFO \<equiv> 0x8000"
abbreviation (input) SVGA_CAP_GMR :: u32 where "SVGA_CAP_GMR \<equiv> 0x100000"
abbreviation (input) SVGA_CAP_TRACES :: u32 where "SVGA_CAP_TRACES \<equiv> 0x200000"
abbreviation (input) SVGA_CAP_GMR2 :: u32 where "SVGA_CAP_GMR2 \<equiv> 0x400000"
abbreviation (input) SVGA_ESCAPE_NSID_VMWARE :: u32 where "SVGA_ESCAPE_NSID_VMWARE \<equiv> 0"
abbreviation (input) SVGA_ESCAPE_VMWARE_VIDEO_SET_REGS :: u32 where
  "SVGA_ESCAPE_VMWARE_VIDEO_SET_REGS \<equiv> 0x20001"
abbreviation (input) SVGA_ESCAPE_VMWARE_VIDEO_FLUSH :: u32 where
  "SVGA_ESCAPE_VMWARE_VIDEO_FLUSH \<equiv> 0x20002"

section \<open>Bring-up and teardown\<close>

text \<open>
  The PCI provider: whether the two BARs exist, the mapping of BAR2 succeeds, and the bounce
  buffer can be allocated.
\<close>

record pci =
  has_bar0 :: bool
  has_bar2 :: bool
  can_map :: bool
  can_malloc :: bool

definition svga_Init :: "svga \<Rightarrow> svga" where
  "svga_Init d = d\<lparr>m_has_provider := False, m_mapped := False, m_cursor_ptr := None,
     m_has_bounce_buffer := False, m_next_fence := 1, m_capabilities := 0\<rparr>"

definition svga_Cleanup :: "svga \<Rightarrow> svga" where
  "svga_Cleanup d = d\<lparr>m_has_provider := False, m_mapped := False, m_has_bounce_buffer := False,
     m_capabilities := 0\<rparr>"

text \<open>The reads of \<open>Start\<close> that fill the object's fields, in order.\<close>

definition Start_read_fields :: "host \<Rightarrow> svga \<Rightarrow> svga" where
  "Start_read_fields h d =
    (let (v, d) = ReadReg h SVGA_REG_FB_OFFSET d; d = d\<lparr>m_fb_offset := v\<rparr>;
         (v, d) = ReadReg h SVGA_REG_FB_SIZE d; d = d\<lparr>m_fb_size := v\<rparr>;
         (v, d) = ReadReg h SVGA_REG_VRAM_SIZE d; d = d\<lparr>m_vram_size := v\<rparr>;
         (v, d) = ReadReg h SVGA_REG_MAX_WIDTH d; d = d\<lparr>m_max_width := v\<rparr>;
         (v, d) = ReadReg h SVGA_REG_MAX_HEIGHT d; d = d\<lparr>m_max_height := v\<rparr>;
         (host_bpp, d) = ReadReg h SVGA_REG_HOST_BITS_PER_PIXEL d;
         (guest_bpp, d) = ReadReg h SVGA_REG_BITS_PER_PIXEL d;
         (v, d) = ReadReg h SVGA_REG_WIDTH d; d = d\<lparr>m_width := v\<rparr>;
         (v, d) = ReadReg h SVGA_REG_HEIGHT d; d = d\<lparr>m_height := v\<rparr>;
         (v, d) = ReadReg h SVGA_REG_BYTES_PER_LINE d; d = d\<lparr>m_pitch := v\<rparr>;
         d = (if HasCapability SVGA_CAP_GMR d then
                (let (v, d) = ReadReg h SVGA_REG_GMR_MAX_IDS d; d = d\<lparr>m_max_gmr_ids := v\<rparr>;
                     (v, d) = ReadReg h SVGA_REG_GMR_MAX_DESCRIPTOR_LENGTH d
                 in d\<lparr>m_max_gmr_descriptor_length := v\<rparr>)
              else d)
     in if HasCapability SVGA_CAP_GMR2 d then
          (let (v, d) = ReadReg h SVGA_REG_GMRS_MAX_PAGES d; d = d\<lparr>m_max_gmr_pages := v\<rparr>;
               (v, d) = ReadReg h SVGA_REG_MEMORY_SIZE d
           in d\<lparr>m_total_memory := v\<rparr>)
        else d)"

definition svga_Start :: "host \<Rightarrow> pci \<Rightarrow> svga \<Rightarrow> bool \<times> svga" where
  "svga_Start h provider d =
    (let d = d\<lparr>m_has_provider := True, m_has_bounce_buffer := False\<rparr>
     in if \<not> has_bar0 provider then (False, svga_Cleanup d)
        else let
          d = WriteReg h SVGA_REG_ENABLE 0 d;
          d = WriteReg h SVGA_REG_ID SVGA_ID_2 d;
          (reg_id, d) = ReadReg h SVGA_REG_ID d
        in if reg_id \<noteq> SVGA_ID_2 then (False, svga_Cleanup d)
        else let
          d = WriteReg h SVGA_REG_CONFIG_DONE 0 d;
          d = WriteReg h SVGA_REG_ENABLE 1 d;
          (v, d) = ReadReg h SVGA_REG_CAPABILITIES d; d = d\<lparr>m_capabilities := v\<rparr>;
          (v, d) = ReadReg h SVGA_REG_MEM_SIZE d; d = d\<lparr>m_fifo_size := v\<rparr>
        in if \<not> has_bar2 provider \<or> \<not> can_map provider then (False, svga_Cleanup d)
        else let
          d = Start_read_fields h (d\<lparr>m_mapped := True\<rparr>);
          d = (if HasCapability SVGA_CAP_TRACES d then WriteReg h SVGA_REG_TRACES 1 d else d)
        in if \<not> can_malloc provider then (False, svga_Cleanup d)
        else (True, d\<lparr>m_has_bounce_buffer := True, m_cursor_ptr := None\<rparr>))"

definition svga_Disable :: "host \<Rightarrow> svga \<Rightarrow> svga" where
  "svga_Disable h d = WriteReg h SVGA_REG_ENABLE 0 d"

definition FIFOInit :: "host \<Rightarrow> svga \<Rightarrow> bool \<times> svga" where
  "FIFOInit h d =
    (let m = m_fifo d;
         m = m(SVGA_FIFO_MIN := of_nat (SVGA_FIFO_NUM_REGS * 4));
         m = m(SVGA_FIFO_MAX := m_fifo_size d);
         m = m(SVGA_FIFO_NEXT_CMD := m SVGA_FIFO_MIN);
         m = m(SVGA_FIFO_STOP := m SVGA_FIFO_MIN);
         d = WriteReg h SVGA_REG_CONFIG_DONE 1 (d\<lparr>m_fifo := m\<rparr>)
     in (True, d\<lparr>m_reserved_size := 0, m_using_bounce_buffer := False\<rparr>))"

section \<open>Fences and synchronisation\<close>

definition InsertFence :: "host \<Rightarrow> svga \<Rightarrow> (u32 \<times> svga) option" where
  "InsertFence h d =
    (if \<not> HasFIFOCap SVGA_FIFO_CAP_FENCE d then Some (1, d)
     else let
       d = (if m_next_fence d = 0 then d\<lparr>m_next_fence := 1\<rparr> else d);
       fence = m_next_fence d;
       d = d\<lparr>m_next_fence := fence + 1\<rparr>
     in do {
       (cmd, d) \<leftarrow> FIFOReserve h 8 d;
       case cmd of
         None \<Rightarrow> Some (0, d)
       | Some cmd \<Rightarrow> Some (fence, FIFOCommitAll (puts cmd [(0, SVGA_CMD_FENCE), (1, fence)] d))
     })"

text \<open>\<^verbatim>\<open>static_cast<int32_t>(fifo[SVGA_FIFO_FENCE] - fence) >= 0\<close>; the read is a chance for the
  host to act.\<close>

definition HasFencePassedUnguarded :: "host \<Rightarrow> u32 \<Rightarrow> svga \<Rightarrow> bool \<times> svga" where
  "HasFencePassedUnguarded h fence d =
    (let d = poll h d in (0 \<le>s m_fifo d SVGA_FIFO_FENCE - fence, d))"

definition HasFencePassed :: "host \<Rightarrow> u32 \<Rightarrow> svga \<Rightarrow> bool \<times> svga" where
  "HasFencePassed h fence d =
    (if fence = 0 then (True, d)
     else if \<not> HasFIFOCap SVGA_FIFO_CAP_FENCE d then (False, d)
     else HasFencePassedUnguarded h fence d)"

text \<open>\<^verbatim>\<open>while (ReadReg(SVGA_REG_BUSY)) ;\<close>\<close>

partial_function (option) wait_busy :: "host \<Rightarrow> svga \<Rightarrow> svga option" where
  "wait_busy h d =
    (let (busy, d) = ReadReg h SVGA_REG_BUSY d in if busy \<noteq> 0 then wait_busy h d else Some d)"

partial_function (option) SyncToFence_loop :: "host \<Rightarrow> u32 \<Rightarrow> svga \<Rightarrow> svga option" where
  "SyncToFence_loop h fence d =
    (let (passed, d) = HasFencePassedUnguarded h fence d
     in if passed then Some d
        else let (busy, d) = ReadReg h SVGA_REG_BUSY d
          in if busy \<noteq> 0 then SyncToFence_loop h fence d
             else Some (snd (HasFencePassedUnguarded h fence d)))"

definition SyncToFence :: "host \<Rightarrow> u32 \<Rightarrow> svga \<Rightarrow> svga option" where
  "SyncToFence h fence d =
    (if fence = 0 then Some d
     else if \<not> HasFIFOCap SVGA_FIFO_CAP_FENCE d then wait_busy h (WriteReg h SVGA_REG_SYNC 1 d)
     else let (passed, d) = HasFencePassedUnguarded h fence d
       in if passed then Some d else SyncToFence_loop h fence (WriteReg h SVGA_REG_SYNC 1 d))"

definition RingDoorBell :: "host \<Rightarrow> svga \<Rightarrow> svga" where
  "RingDoorBell h d =
    (if IsFIFORegValid SVGA_FIFO_BUSY d then
       let d = poll h d
       in if m_fifo d SVGA_FIFO_BUSY = 0
          then WriteReg h SVGA_REG_SYNC 1 (d\<lparr>m_fifo := (m_fifo d)(SVGA_FIFO_BUSY := 1)\<rparr>)
          else d
     else WriteReg h SVGA_REG_SYNC 1 d)"

definition SyncFIFO :: "host \<Rightarrow> svga \<Rightarrow> svga option" where
  "SyncFIFO h d = wait_busy h (WriteReg h SVGA_REG_SYNC 1 d)"

section \<open>Cursor and mode\<close>

text \<open>\<open>cursor_bypass_2\<close> is \<^verbatim>\<open>checkOptionFB(VMW_OPTION_FB_CURSOR_BYPASS_2)\<close>.\<close>

definition cursor_bypass_3 :: "u32 \<Rightarrow> u32 \<Rightarrow> bool \<Rightarrow> svga \<Rightarrow> svga" where
  "cursor_bypass_3 x y visible d =
    (let m = (m_fifo d)(SVGA_FIFO_CURSOR_ON := if visible then 1 else 0,
                SVGA_FIFO_CURSOR_X := x, SVGA_FIFO_CURSOR_Y := y)
     in d\<lparr>m_fifo := m(SVGA_FIFO_CURSOR_COUNT := m SVGA_FIFO_CURSOR_COUNT + 1)\<rparr>)"

definition svga_setCursorState :: "host \<Rightarrow> bool \<Rightarrow> u32 \<Rightarrow> u32 \<Rightarrow> bool \<Rightarrow> svga \<Rightarrow> svga" where
  "svga_setCursorState h cursor_bypass_2 x y visible d =
    (if cursor_bypass_2 then
       let d = WriteReg h SVGA_REG_CURSOR_ID 1 d;
           d = WriteReg h SVGA_REG_CURSOR_X x d;
           d = WriteReg h SVGA_REG_CURSOR_Y y d
       in WriteReg h SVGA_REG_CURSOR_ON (if visible then 1 else 0) d
     else cursor_bypass_3 x y visible d)"

definition svga_setCursorState_screen :: "u32 \<Rightarrow> u32 \<Rightarrow> u32 \<Rightarrow> bool \<Rightarrow> svga \<Rightarrow> svga" where
  "svga_setCursorState_screen screenId x y visible d =
    (let d = (if HasFIFOCap (SVGA_FIFO_CAP_SCREEN_OBJECT OR SVGA_FIFO_CAP_SCREEN_OBJECT_2) d
              then d\<lparr>m_fifo := (m_fifo d)(SVGA_FIFO_CURSOR_SCREEN_ID := screenId)\<rparr> else d)
     in cursor_bypass_3 x y visible d)"

text \<open>
  \<^verbatim>\<open>width * height * bytespp\<close> is a 32-bit product; \<^verbatim>\<open>sizeof(SVGAFifoCmdDefineAlphaCursor)\<close> is 20.
\<close>

definition BeginDefineAlphaCursor :: "host \<Rightarrow> u32 \<Rightarrow> u32 \<Rightarrow> u32 \<Rightarrow> svga \<Rightarrow> (fifo_ptr option \<times> svga) option" where
  "BeginDefineAlphaCursor h width height bytespp d = do {
     (cmd, d) \<leftarrow> FIFOReserveCmd h SVGA_CMD_DEFINE_ALPHA_CURSOR (20 + unat (width * height * bytespp)) d;
     case cmd of
       None \<Rightarrow> Some (None, d)
     | Some cmd \<Rightarrow> Some (Some (ptr_add cmd 5), d\<lparr>m_cursor_ptr := Some cmd\<rparr>)
   }"

definition EndDefineAlphaCursor :: "u32 \<Rightarrow> u32 \<Rightarrow> u32 \<Rightarrow> u32 \<Rightarrow> u32 \<Rightarrow> svga \<Rightarrow> bool \<times> svga" where
  "EndDefineAlphaCursor width height bytespp hotspot_x hotspot_y d =
    (case m_cursor_ptr d of
       None \<Rightarrow> (False, d)
     | Some cmd \<Rightarrow>
         let d = puts cmd [(0, 1), (1, hotspot_x), (2, hotspot_y), (3, width), (4, height)] d;
             d = FIFOCommit (4 + 20 + unat (width * height * bytespp)) d
         in (True, d\<lparr>m_cursor_ptr := None\<rparr>))"

definition SetMode :: "host \<Rightarrow> u32 \<Rightarrow> u32 \<Rightarrow> u32 \<Rightarrow> svga \<Rightarrow> svga option" where
  "SetMode h width height bpp d = do {
     d \<leftarrow> SyncFIFO h d;
     let d = WriteReg h SVGA_REG_WIDTH width d;
     let d = WriteReg h SVGA_REG_HEIGHT height d;
     let d = WriteReg h SVGA_REG_BITS_PER_PIXEL bpp d;
     let d = WriteReg h SVGA_REG_ENABLE 1 d;
     let (pitch, d) = ReadReg h SVGA_REG_BYTES_PER_LINE d;
     let (fb_size, d) = ReadReg h SVGA_REG_FB_SIZE d;
     Some (d\<lparr>m_pitch := pitch, m_fb_size := fb_size, m_width := width, m_height := height\<rparr>)
   }"

section \<open>Two-dimensional and GMR commands\<close>

text \<open>What every command does once its room is reserved: fill it and commit, or report failure.\<close>

definition commit_cmd :: "('p option \<times> svga) option \<Rightarrow> ('p \<Rightarrow> svga \<Rightarrow> svga) \<Rightarrow> (bool \<times> svga) option" where
  "commit_cmd reserved fill = do {
     (cmd, d) \<leftarrow> reserved;
     case cmd of
       None \<Rightarrow> Some (False, d)
     | Some cmd \<Rightarrow> Some (True, FIFOCommitAll (fill cmd d))
   }"

definition UpdateFramebuffer :: "host \<Rightarrow> u32 \<Rightarrow> u32 \<Rightarrow> u32 \<Rightarrow> u32 \<Rightarrow> svga \<Rightarrow> (bool \<times> svga) option" where
  "UpdateFramebuffer h x y width height d =
    commit_cmd (FIFOReserveCmd h SVGA_CMD_UPDATE 16 d)
      (\<lambda>cmd. puts cmd [(0, x), (1, y), (2, width), (3, height)])"

definition UpdateFullscreen :: "host \<Rightarrow> svga \<Rightarrow> (bool \<times> svga) option" where
  "UpdateFullscreen h d = UpdateFramebuffer h 0 0 (m_width d) (m_height d) d"

text \<open>The rectangles are arrays of dwords, \<^verbatim>\<open>memcpy\<close>ed into the command.\<close>

definition RectCopy :: "host \<Rightarrow> u32 list \<Rightarrow> svga \<Rightarrow> (bool \<times> svga) option" where
  "RectCopy h copyRect d =
    commit_cmd (FIFOReserveCmd h SVGA_CMD_RECT_COPY 24 d) (\<lambda>cmd. put_dwords cmd 0 (take 6 copyRect))"

definition RectFill :: "host \<Rightarrow> u32 \<Rightarrow> u32 list \<Rightarrow> svga \<Rightarrow> (bool \<times> svga) option" where
  "RectFill h color rect d =
    commit_cmd (FIFOReserveCmd h SVGA_CMD_FRONT_ROP_FILL 24 d)
      (\<lambda>cmd d. put cmd 5 SVGA_ROP_COPY (put_dwords cmd 1 (take 4 rect) (put cmd 0 color d)))"

definition UpdateFramebuffer2 :: "host \<Rightarrow> u32 list \<Rightarrow> svga \<Rightarrow> (bool \<times> svga) option" where
  "UpdateFramebuffer2 h rect d =
    commit_cmd (FIFOReserveCmd h SVGA_CMD_UPDATE 16 d) (\<lambda>cmd. put_dwords cmd 0 (take 4 rect))"

definition defineGMR :: "host \<Rightarrow> u32 \<Rightarrow> u32 \<Rightarrow> svga \<Rightarrow> bool \<times> svga" where
  "defineGMR h gmrId ppn d =
    (if \<not> HasCapability SVGA_CAP_GMR d then (False, d)
     else (True, WriteReg h SVGA_REG_GMR_DESCRIPTOR ppn (WriteReg h SVGA_REG_GMR_ID gmrId d)))"

definition defineGMR2 :: "host \<Rightarrow> u32 \<Rightarrow> u32 \<Rightarrow> svga \<Rightarrow> (bool \<times> svga) option" where
  "defineGMR2 h gmrId numPages d =
    commit_cmd (FIFOReserveCmd h SVGA_CMD_DEFINE_GMR2 8 d) (\<lambda>cmd. puts cmd [(0, gmrId), (1, numPages)])"

text \<open>\<open>suffix\<close> is \<open>None\<close> for a null pointer, otherwise the dwords it points to.\<close>

definition remapGMR2 ::
  "host \<Rightarrow> u32 \<Rightarrow> u32 \<Rightarrow> u32 \<Rightarrow> u32 \<Rightarrow> u32 list option \<Rightarrow> nat \<Rightarrow> svga \<Rightarrow> (bool \<times> svga) option" where
  "remapGMR2 h gmrId flags offsetPages numPages suffix suffixSize d =
    (if suffix = None \<and> suffixSize \<noteq> 0 then Some (False, d)
     else commit_cmd (FIFOReserveCmd h SVGA_CMD_REMAP_GMR2 (size_add 16 suffixSize) d)
       (\<lambda>cmd d. let d = puts cmd [(0, gmrId), (1, flags), (2, offsetPages), (3, numPages)] d
                in case suffix of None \<Rightarrow> d | Some ws \<Rightarrow> put_dwords cmd 4 (take (suffixSize div 4) ws) d))"

section \<open>Video overlay commands\<close>

definition count_bits :: "u32 \<Rightarrow> u32" where
  "count_bits mask0 =
    (let m = drop_bit 1 (mask0 AND 0xAAAAAAAA) + (mask0 AND 0x55555555);
         m = drop_bit 2 (m AND 0xCCCCCCCC) + (m AND 0x33333333);
         m = drop_bit 4 (m AND 0xF0F0F0F0) + (m AND 0x0F0F0F0F);
         m = drop_bit 8 (m AND 0xFF00FF00) + (m AND 0x00FF00FF)
     in drop_bit 16 (m AND 0xFFFF0000) + (m AND 0x0000FFFF))"

text \<open>
  The command is a type, a stream number and pairs of register number and value; the
  returned pointer is to the whole structure, so item \<open>i\<close> is at dwords \<open>2 + 2 * i\<close> and
  \<open>3 + 2 * i\<close>.
\<close>

definition BeginVideoSetRegs :: "host \<Rightarrow> u32 \<Rightarrow> nat \<Rightarrow> svga \<Rightarrow> (fifo_ptr option \<times> svga) option" where
  "BeginVideoSetRegs h streamId numItems d = do {
     (cmd, d) \<leftarrow> FIFOReserveEscape h SVGA_ESCAPE_NSID_VMWARE (size_add 8 (numItems * 8 mod 2 ^ 64)) d;
     case cmd of
       None \<Rightarrow> Some (None, d)
     | Some cmd \<Rightarrow> Some (Some cmd, puts cmd [(0, SVGA_ESCAPE_VMWARE_VIDEO_SET_REGS), (1, streamId)] d)
   }"

definition put_item :: "fifo_ptr \<Rightarrow> nat \<Rightarrow> u32 \<Rightarrow> u32 \<Rightarrow> svga \<Rightarrow> svga" where
  "put_item setRegs i registerId val d =
     puts setRegs [(2 + 2 * i, registerId), (3 + 2 * i, val)] d"

text \<open>\<open>regArray\<close> is the overlay unit read as an array of dwords.\<close>

definition VideoSetRegsInRange ::
  "host \<Rightarrow> u32 \<Rightarrow> (nat \<Rightarrow> u32) \<Rightarrow> u32 \<Rightarrow> u32 \<Rightarrow> svga \<Rightarrow> (bool \<times> svga) option" where
  "VideoSetRegsInRange h streamId regArray minReg maxReg d =
    (let numRegs = maxReg - minReg + 1
     in if minReg > maxReg then Some (True, d)
        else commit_cmd (BeginVideoSetRegs h streamId (unat numRegs) d)
          (\<lambda>setRegs d. fold (\<lambda>i. put_item setRegs i (of_nat i + minReg) (regArray (unat (of_nat i + minReg))))
             [0..<unat numRegs] d))"

lemma unat_drop_bit_1_less: "regMask \<noteq> (0 :: u32) \<Longrightarrow> unat (drop_bit 1 regMask) < unat regMask"
  unfolding unat_drop_bit_eq by (simp add: drop_bit_eq_div unat_gt_0)

text \<open>The loop over the mask bits: \<open>i\<close> is the register, \<open>numRegs\<close> the next free item.\<close>

function video_mask_loop ::
  "fifo_ptr \<Rightarrow> (nat \<Rightarrow> u32) \<Rightarrow> nat \<Rightarrow> nat \<Rightarrow> u32 \<Rightarrow> svga \<Rightarrow> svga" where
  "video_mask_loop setRegs regArray numRegs i regMask d =
    (if regMask = 0 then d
     else if regMask AND 1 \<noteq> 0
       then video_mask_loop setRegs regArray (numRegs + 1) (i + 1) (drop_bit 1 regMask)
              (put_item setRegs numRegs (of_nat i) (regArray i) d)
       else video_mask_loop setRegs regArray numRegs (i + 1) (drop_bit 1 regMask) d)"
  by pat_completeness auto

termination
  by (relation "measure (\<lambda>(setRegs, regArray, numRegs, i, regMask, d). unat regMask)")
    (use unat_drop_bit_1_less in auto)

definition VideoSetRegsWithMask ::
  "host \<Rightarrow> u32 \<Rightarrow> (nat \<Rightarrow> u32) \<Rightarrow> u32 \<Rightarrow> svga \<Rightarrow> (bool \<times> svga) option" where
  "VideoSetRegsWithMask h streamId regArray regMask d =
    (if regMask = 0 then Some (True, d)
     else commit_cmd (BeginVideoSetRegs h streamId (unat (count_bits regMask)) d)
       (\<lambda>setRegs. video_mask_loop setRegs regArray 0 0 regMask))"

definition VideoSetReg :: "host \<Rightarrow> u32 \<Rightarrow> u32 \<Rightarrow> u32 \<Rightarrow> svga \<Rightarrow> (bool \<times> svga) option" where
  "VideoSetReg h streamId registerId val d =
    commit_cmd (BeginVideoSetRegs h streamId 1 d) (\<lambda>setRegs. put_item setRegs 0 registerId val)"

definition VideoFlush :: "host \<Rightarrow> u32 \<Rightarrow> svga \<Rightarrow> (bool \<times> svga) option" where
  "VideoFlush h streamId d =
    commit_cmd (FIFOReserveEscape h SVGA_ESCAPE_NSID_VMWARE 8 d)
      (\<lambda>cmd. puts cmd [(0, SVGA_ESCAPE_VMWARE_VIDEO_FLUSH), (1, streamId)])"

section \<open>Queries\<close>

text \<open>\<open>HWVersion\<close> says whether the out pointer is set; \<open>None\<close> is the result \<^verbatim>\<open>false\<close>.\<close>

definition get3DHWVersion :: "bool \<Rightarrow> svga \<Rightarrow> u32 option" where
  "get3DHWVersion HWVersion d =
    (if \<not> HWVersion then None
     else if m_fifo d SVGA_FIFO_MIN \<le> of_nat (4 * SVGA_FIFO_GUEST_3D_HWVERSION) then None
     else if HasFIFOCap SVGA_FIFO_CAP_3D_HWVERSION_REVISED d then Some (m_fifo d SVGA_FIFO_3D_HWVERSION_REVISED)
     else Some (m_fifo d SVGA_FIFO_3D_HWVERSION))"

text \<open>The values \<open>RegDump\<close> publishes, register 0 up to \<^verbatim>\<open>SVGA_REG_TOP\<close>.\<close>

definition RegDump :: "host \<Rightarrow> svga \<Rightarrow> u32 list \<times> svga" where
  "RegDump h d =
     fold (\<lambda>i (regs, d). let (v, d) = ReadReg h (of_nat i) d in (regs @ [v], d)) [0..<unat SVGA_REG_TOP] ([], d)"

text \<open>The dword index of the capability block, or a null pointer.\<close>

definition get3DCapsBlock :: "svga \<Rightarrow> nat option" where
  "get3DCapsBlock d =
    (if m_fifo d SVGA_FIFO_MIN \<le> of_nat (4 * SVGA_FIFO_3D_CAPS_LAST) then None else Some SVGA_FIFO_3D_CAPS)"

section \<open>Commands reach the queue\<close>

text \<open>
  \<open>emits d r cmd\<close>: the operation's outcome \<open>r\<close> from \<open>d\<close> is success, with \<open>cmd\<close> appended to what is
  left of the queue, no reservation open and the driver's fields as they were.
\<close>

definition emits :: "svga \<Rightarrow> (bool \<times> svga) option \<Rightarrow> u32 list \<Rightarrow> bool" where
  "emits d r cmd \<longleftrightarrow> (\<exists>e k. r = Some (True, e) \<and> fifo_ready e \<and>
     fifo_queue (m_fifo e) = drop k (fifo_queue (m_fifo d)) @ cmd \<and> driver_fields e = driver_fields d)"

text \<open>
  \<open>writes fill n body\<close>: \<open>fill p\<close> makes stores below dword \<open>n\<close> of the room \<open>p\<close>, and they leave
  \<open>body\<close> there whatever was there before.
\<close>

definition writes :: "(fifo_ptr \<Rightarrow> svga \<Rightarrow> svga) \<Rightarrow> nat \<Rightarrow> u32 list \<Rightarrow> bool" where
  "writes fill n body \<longleftrightarrow> (\<exists>ws. (\<forall>p d. fill p d = puts p ws d) \<and> (\<forall>(i, v) \<in> set ws. i < n) \<and>
     (\<forall>c. length c = n \<longrightarrow> fold (\<lambda>(i, v) c. c[i := v]) ws c = body))"

lemma reserve_emits:
  assumes "host_serving h" and "fifo_ready d" and "0 < n" and "fifo_fits d n"
    and w: "writes fill n body"
    and r: "\<And>p e. FIFOReserve h (4 * n) d = Some (Some p, e) \<Longrightarrow>
        r = Some (True, FIFOCommitAll (fill p e))"
  shows "emits d r body"
proof -
  obtain ws where ws: "\<And>p d. fill p d = puts p ws d" "\<forall>(i, v) \<in> set ws. i < n"
    "\<And>c. length c = n \<Longrightarrow> fold (\<lambda>(i, v) c. c[i := v]) ws c = body"
    using w unfolding writes_def by auto
  from fifo.emit [OF assms(1-4) ws(2,3)] obtain p t k where
    "FIFOReserve h (4 * n) d = Some (Some p, t)" "fifo_ready (FIFOCommitAll (puts p ws t))"
    "driver_fields (FIFOCommitAll (puts p ws t)) = driver_fields d"
    "fifo_queue (m_fifo (FIFOCommitAll (puts p ws t))) = drop k (fifo_queue (m_fifo d)) @ body"
    unfolding puts_write_all by metis
  with r ws(1) show ?thesis unfolding emits_def by metis
qed

lemma fold_update_shift:
  assumes "\<forall>(i, v) \<in> set ws. i < n" and "length c = j + n"
  shows "fold (\<lambda>(i, v) c. c[i := v]) (map (\<lambda>(i, v). (j + i, v)) ws) c =
    take j c @ fold (\<lambda>(i, v) c. c[i := v]) ws (drop j c)"
  using assms
proof (induction ws arbitrary: c)
  case Nil
  then show ?case by simp
next
  case (Cons w ws)
  then show ?case by (cases w) (auto simp: drop_update_swap take_update_cancel)
qed

lemma writes_cons:
  assumes "writes fill n body"
  shows "writes (\<lambda>p d. fill (ptr_add p 1) (put p 0 v d)) (Suc n) (v # body)"
proof -
  obtain ws where ws: "\<And>p d. fill p d = puts p ws d" "\<forall>(i, v) \<in> set ws. i < n"
    "\<And>c. length c = n \<Longrightarrow> fold (\<lambda>(i, v) c. c[i := v]) ws c = body"
    using assms unfolding writes_def by auto
  have "fold (\<lambda>(i, v) c. c[i := v]) ((0, v) # map (\<lambda>(i, v). (1 + i, v)) ws) c = v # body" if "length c = Suc n" for c
  proof -
    have "fold (\<lambda>(i, v) c. c[i := v]) (map (\<lambda>(i, v). (1 + i, v)) ws) (c[0 := v]) =
        take 1 (c[0 := v]) @ body"
      using that ws by (subst fold_update_shift [where n = n]) simp_all
    then show ?thesis using that by (cases c) simp_all
  qed
  then show ?thesis
    unfolding writes_def using ws(1,2)
    by (intro exI [of _ "(0, v) # map (\<lambda>(i, v). (1 + i, v)) ws"]) (auto simp: puts_ptr_add puts_Cons)
qed

lemma writes_dwords: "writes (\<lambda>p. put_dwords p 0 vs) (length vs) vs"
  unfolding writes_def put_dwords_def
proof (intro exI conjI allI impI)
  show "\<forall>(i, v) \<in> set (zip [0..<0 + length vs] vs). i < length vs"
    by (auto dest: set_zip_leftD)
  show "fold (\<lambda>(i, v) c. c[i := v]) (zip [0..<0 + length vs] vs) c = vs" if "length c = length vs" for c
    using that fold_update_all [of c 0 vs] by simp
qed simp

text \<open>Field assignments at increasing offsets, in any order of the source that fills all fields.\<close>

lemma put_dwords_puts: "put_dwords p i vs d = puts p (zip [i..<i + length vs] vs) d"
  by (simp add: put_dwords_def)

lemma writes_fields:
  assumes "\<forall>(i, v) \<in> set ws. i < n"
    and "\<And>c. length c = n \<Longrightarrow> fold (\<lambda>(i, v) c. c[i := v]) ws c = body"
  shows "writes (\<lambda>p. puts p ws) n body"
  using assms unfolding writes_def by blast

lemma length_fold_update [simp]: "length (fold (\<lambda>(i, v) c. c[i := v]) ws c) = length c"
  by (induction ws arbitrary: c) auto

lemma fold_update_prefix:
  assumes "\<forall>(i, v) \<in> set ws. i < n" and "n \<le> length c"
  shows "fold (\<lambda>(i, v) c. c[i := v]) ws c = fold (\<lambda>(i, v) c. c[i := v]) ws (take n c) @ drop n c"
  using assms
proof (induction ws arbitrary: c)
  case Nil
  then show ?case by simp
next
  case (Cons w ws)
  obtain i v where w: "w = (i, v)" by fastforce
  then have "i < n" "\<forall>(i, v) \<in> set ws. i < n" using Cons.prems(1) by auto
  then have "fold (\<lambda>(i, v) c. c[i := v]) ws (c[i := v]) =
      fold (\<lambda>(i, v) c. c[i := v]) ws ((take n c)[i := v]) @ drop n c"
    using Cons.IH [of "c[i := v]"] Cons.prems(2) by (simp add: take_update_swap)
  then show ?case by (simp add: w)
qed

lemma writes_then_dwords:
  assumes "writes fill n body" and "j = n"
  shows "writes (\<lambda>p d. put_dwords p j vs (fill p d)) (n + length vs) (body @ vs)"
proof -
  obtain ws where ws: "\<And>p d. fill p d = puts p ws d" "\<forall>(i, v) \<in> set ws. i < n"
    "\<And>c. length c = n \<Longrightarrow> fold (\<lambda>(i, v) c. c[i := v]) ws c = body"
    using assms unfolding writes_def by auto
  note split = fold_update_prefix [OF ws(2)]
  have "fold (\<lambda>(i, v) c. c[i := v]) (ws @ zip [j..<j + length vs] vs) c = body @ vs"
    if len: "length c = n + length vs" for c
  proof -
    have b: "fold (\<lambda>(i, v) c. c[i := v]) ws c = body @ drop n c"
      using split [of c] ws(3) [of "take n c"] len by simp
    have "length body = n"
      using arg_cong [OF b, of length] len by (simp only: length_fold_update length_append length_drop)
    with b show ?thesis
      using fold_update_all [of "body @ drop n c" n vs] len assms(2) by simp
  qed
  moreover have "\<forall>(i, v) \<in> set (ws @ zip [j..<j + length vs] vs). i < n + length vs"
    using ws(2) assms(2) by (auto dest: set_zip_leftD)
  ultimately show ?thesis
    unfolding writes_def put_dwords_puts using ws(1)
    by (intro exI [of _ "ws @ zip [j..<j + length vs] vs"]) (auto simp: puts_append)
qed

text \<open>A command with a type word.\<close>

lemma FIFOReserveCmd_emits:
  assumes "host_serving h" and "fifo_ready d" and "fifo_fits d (Suc n)" and "writes fill n body"
  shows "emits d (commit_cmd (FIFOReserveCmd h type (4 * n) d) fill) (type # body)"
proof (rule reserve_emits [OF assms(1,2) _ assms(3) writes_cons [OF assms(4)]])
  have "size_add (4 * n) 4 = 4 * Suc n"
    using assms(3) by (simp add: fifo_fits_def size_add_def)
  then show "commit_cmd (FIFOReserveCmd h type (4 * n) d) fill =
      Some (True, FIFOCommitAll (fill (ptr_add p 1) (put p 0 type e)))"
    if "FIFOReserve h (4 * Suc n) d = Some (Some p, e)" for p e
    using that by (simp add: commit_cmd_def FIFOReserveCmd_def)
qed simp

text \<open>Fields assigned in the order of the structure.\<close>

fun field_seq :: "nat \<Rightarrow> (nat \<times> u32) list \<Rightarrow> bool" where
  "field_seq i [] = True"
| "field_seq i ((j, v) # ws) \<longleftrightarrow> j = i \<and> field_seq (Suc i) ws"

lemma field_seq_zip: "field_seq i ws \<Longrightarrow> ws = zip [i..<i + length ws] (map snd ws)"
proof (induction i ws rule: field_seq.induct)
  case (2 i j v ws)
  then show ?case by (simp add: upt_conv_Cons del: upt_Suc)
qed simp

lemma writes_field_seq:
  assumes "field_seq 0 ws" and "n = length ws"
  shows "writes (\<lambda>p. puts p ws) n (map snd ws)"
  using writes_dwords [of "map snd ws"] field_seq_zip [OF assms(1)] assms(2)
  unfolding put_dwords_def by simp

lemma cmd_fields_emits:
  assumes "host_serving h" and "fifo_ready d" and "fifo_fits d n"
    and "field_seq 0 ws" and "length ws + 1 = n" and "bytes + 4 = 4 * n"
  shows "emits d (commit_cmd (FIFOReserveCmd h type bytes d) (\<lambda>cmd. puts cmd ws)) (type # map snd ws)"
proof -
  have "bytes = 4 * length ws" "fifo_fits d (Suc (length ws))" using assms(3,5,6) by auto
  then show ?thesis by (auto intro!: FIFOReserveCmd_emits assms writes_field_seq)
qed

lemma cmd_dwords_emits:
  assumes "host_serving h" and "fifo_ready d" and "fifo_fits d n" and "length vs + 1 = n" and "bytes + 4 = 4 * n"
  shows "emits d (commit_cmd (FIFOReserveCmd h type bytes d) (\<lambda>cmd. put_dwords cmd 0 vs)) (type # vs)"
proof -
  have "bytes = 4 * length vs" "fifo_fits d (Suc (length vs))" using assms(3-5) by auto
  then show ?thesis by (auto intro!: FIFOReserveCmd_emits assms writes_dwords)
qed

lemma UpdateFramebuffer_emits:
  assumes "host_serving h" "fifo_ready d" "fifo_fits d 5"
  shows "emits d (UpdateFramebuffer h x y width height d) [SVGA_CMD_UPDATE, x, y, width, height]"
  using cmd_fields_emits [OF assms(1-3), of "[(0, x), (1, y), (2, width), (3, height)]" 16 SVGA_CMD_UPDATE] 
  by (simp add: UpdateFramebuffer_def)

lemma UpdateFramebuffer2_emits:
  assumes "host_serving h" "fifo_ready d" "fifo_fits d 5" "length rect = 4"
  shows "emits d (UpdateFramebuffer2 h rect d) (SVGA_CMD_UPDATE # rect)"
  using cmd_dwords_emits [OF assms(1-3), of rect 16 SVGA_CMD_UPDATE] assms(4)
  by (simp add: UpdateFramebuffer2_def)

lemma RectCopy_emits:
  assumes "host_serving h" "fifo_ready d" "fifo_fits d 7" "length rect = 6"
  shows "emits d (RectCopy h rect d) (SVGA_CMD_RECT_COPY # rect)"
  using cmd_dwords_emits [OF assms(1-3), of rect 24 SVGA_CMD_RECT_COPY] assms(4)
  by (simp add: RectCopy_def)

lemma RectFill_emits:
  assumes "host_serving h" "fifo_ready d" "fifo_fits d 7" "length rect = 4"
  shows "emits d (RectFill h color rect d) (SVGA_CMD_FRONT_ROP_FILL # color # rect @ [SVGA_ROP_COPY])"
proof -
  obtain a b c e where rect: "rect = [a, b, c, e]"
    using assms(4) by (auto simp: numeral_eq_Suc length_Suc_conv)
  have "(\<lambda>cmd d. put cmd 5 SVGA_ROP_COPY (put_dwords cmd 1 rect (put cmd 0 color d))) =
      (\<lambda>cmd. puts cmd [(0, color), (1, a), (2, b), (3, c), (4, e), (5, SVGA_ROP_COPY)])"
    by (simp add: rect put_dwords_def puts_def upt_rec fun_eq_iff numeral_eq_Suc)
  then show ?thesis
    using cmd_fields_emits [OF assms(1-3), of "[(0, color), (1, a), (2, b), (3, c), (4, e), (5, SVGA_ROP_COPY)]"
        24 SVGA_CMD_FRONT_ROP_FILL] 
    by (simp add: RectFill_def rect)
qed

lemma defineGMR2_emits:
  assumes "host_serving h" "fifo_ready d" "fifo_fits d 3"
  shows "emits d (defineGMR2 h gmrId numPages d) [SVGA_CMD_DEFINE_GMR2, gmrId, numPages]"
  using cmd_fields_emits [OF assms(1-3), of "[(0, gmrId), (1, numPages)]" 8 SVGA_CMD_DEFINE_GMR2] 
  by (simp add: defineGMR2_def)

lemma remapGMR2_emits:
  assumes "host_serving h" "fifo_ready d" "fifo_fits d (5 + length ws)"
  shows "emits d (remapGMR2 h gmrId flags offsetPages numPages (Some ws) (4 * length ws) d)
    (SVGA_CMD_REMAP_GMR2 # gmrId # flags # offsetPages # numPages # ws)"
proof -
  let ?fs = "[(0 :: nat, gmrId), (1, flags), (2, offsetPages), (3, numPages)]"
  have "writes (\<lambda>cmd d. put_dwords cmd 4 ws (puts cmd ?fs d)) (4 + length ws) (map snd ?fs @ ws)"
    by (rule writes_then_dwords, rule writes_field_seq) simp_all
  from FIFOReserveCmd_emits [OF assms(1,2) _ this] assms(3)
  have "emits d (commit_cmd (FIFOReserveCmd h SVGA_CMD_REMAP_GMR2 (4 * (4 + length ws)) d)
      (\<lambda>cmd d. put_dwords cmd 4 ws (puts cmd ?fs d))) (SVGA_CMD_REMAP_GMR2 # map snd ?fs @ ws)"
    by simp
  moreover have "size_add 16 (4 * length ws) = 4 * (4 + length ws)"
    using assms(3) by (simp add: fifo_fits_def size_add_def)
  ultimately show ?thesis by (simp add: remapGMR2_def Let_def)
qed


subsection \<open>Escapes and video registers\<close>

lemma ptr_add_ptr_add [simp]: "ptr_add (ptr_add p i) j = ptr_add p (i + j)"
  by (cases p) simp_all

lemma FIFOReserveEscape_emits:
  assumes "host_serving h" and "fifo_ready d" and "fifo_fits d (3 + n)" and "writes fill n body"
    and "n = (bytes + 3) div 4"
  shows "emits d (commit_cmd (FIFOReserveEscape h nsid bytes d) fill) (SVGA_CMD_ESCAPE # nsid # of_nat bytes # body)"
proof -
  have small: "bytes + 3 < 2 ^ 64" "bytes \<le> 4 * n" "n \<le> 16384"
    using assms(3,5) by (auto simp: fifo_fits_def)
  then have size: "size_add (size_add bytes 3 div 4 * 4) 12 = 4 * Suc (Suc (Suc n))"
    using assms(5) by (simp add: size_add_def)
  have fits: "fifo_fits d (Suc (Suc (Suc n)))" using assms(3) by (simp add: numeral_eq_Suc)
  show ?thesis
  proof (rule reserve_emits [OF assms(1,2) _ fits writes_cons [OF writes_cons [OF writes_cons [OF assms(4)]]]])
    show "commit_cmd (FIFOReserveEscape h nsid bytes d) fill =
        Some (True, FIFOCommitAll (fill (ptr_add (ptr_add (ptr_add p 1) 1) 1)
          (put (ptr_add (ptr_add p 1) 1) 0 (of_nat bytes) (put (ptr_add p 1) 0 nsid (put p 0 SVGA_CMD_ESCAPE e)))))"
      if "FIFOReserve h (4 * Suc (Suc (Suc n))) d = Some (Some p, e)" for p e
      using that size
      by (simp add: commit_cmd_def FIFOReserveEscape_def put_ptr_add puts_def numeral_eq_Suc [of "num.Bit1 num.One"]
          numeral_2_eq_2)
  qed simp
qed

lemma writes_then_fill:
  assumes "writes fill n body"
  shows "writes (\<lambda>p d. fill (ptr_add p 2) (puts p [(0, a), (1, b)] d)) (Suc (Suc n)) (a # b # body)"
  using writes_cons [OF writes_cons [OF assms, of b], of a]
  by (simp add: put_ptr_add puts_def numeral_2_eq_2)

lemma put_item_ptr: "put_item p i r v d = puts (ptr_add p 2) [(2 * i, r), (2 * i + 1, v)] d"
  by (simp add: put_item_def puts_def put_ptr_add eval_nat_numeral)

lemma put_dwords_Nil: "put_dwords p i [] d = d"
  by (simp add: put_dwords_def puts_def)

lemma put_dwords_Cons: "put_dwords p i (v # vs) d = put_dwords p (Suc i) vs (put p i v d)"
  by (simp add: put_dwords_def puts_def upt_conv_Cons del: upt_Suc)

lemma VideoSetRegs_emits:
  assumes "host_serving h" and "fifo_ready d" and "fifo_fits d (5 + 2 * length items)"
    and fill: "\<And>p d. fill p d = fold (\<lambda>(i, r, v). put_item p i r v) (zip [0..<length items] items) d"
  shows "emits d (commit_cmd (BeginVideoSetRegs h streamId (length items) d) fill)
    (SVGA_CMD_ESCAPE # SVGA_ESCAPE_NSID_VMWARE # of_nat (8 + 8 * length items) #
     SVGA_ESCAPE_VMWARE_VIDEO_SET_REGS # streamId # concat (map (\<lambda>(r, v). [r, v]) items))"
proof -
  let ?vs = "concat (map (\<lambda>(r, v). [r, v]) items)"
  have items: "fold (\<lambda>(i, r, v). put_item p i r v) (zip [j..<j + length is] is) d =
      put_dwords (ptr_add p 2) (2 * j) (concat (map (\<lambda>(r, v). [r, v]) is)) d" for p j "is" d
  proof (induction "is" arbitrary: j d)
    case Nil
    then show ?case by (simp add: put_dwords_Nil)
  next
    case (Cons w "is")
    have "zip [j..<j + length (w # is)] (w # is) = (j, w) # zip [Suc j..<Suc j + length is] is"
      by (simp add: upt_conv_Cons del: upt_Suc)
    then show ?case
      using Cons [of "Suc j"]
      by (cases w) (simp add: put_dwords_Cons put_item_ptr puts_def split_def del: upt_Suc)
  qed
  have len: "length ?vs = 2 * length items" by (induction items) auto
  have "writes (\<lambda>p. put_dwords p 0 ?vs) (2 * length items) ?vs"
    using writes_dwords [of ?vs] by (simp add: len)
  from writes_then_fill [OF this, of SVGA_ESCAPE_VMWARE_VIDEO_SET_REGS streamId]
  have w: "writes (\<lambda>p d. fill p (puts p [(0, SVGA_ESCAPE_VMWARE_VIDEO_SET_REGS), (1, streamId)] d))
      (2 + 2 * length items) (SVGA_ESCAPE_VMWARE_VIDEO_SET_REGS # streamId # ?vs)"
    using items [of _ 0 items] by (simp add: fill)
  have small: "length items \<le> 16384" using assms(3) by (simp add: fifo_fits_def)
  then have "size_add 8 (length items * 8 mod 2 ^ 64) = 8 + 8 * length items"
    by (simp add: size_add_def)
  then have "commit_cmd (BeginVideoSetRegs h streamId (length items) d) fill =
      commit_cmd (FIFOReserveEscape h SVGA_ESCAPE_NSID_VMWARE (8 + 8 * length items) d)
        (\<lambda>p d. fill p (puts p [(0, SVGA_ESCAPE_VMWARE_VIDEO_SET_REGS), (1, streamId)] d))"
    by (cases "FIFOReserveEscape h 0 (8 + 8 * length items) d")
      (auto simp: commit_cmd_def BeginVideoSetRegs_def split: option.split)
  moreover have "fifo_fits d (3 + (2 + 2 * length items))"
    using assms(3) by (simp add: numeral_eq_Suc)
  ultimately show ?thesis
    using FIFOReserveEscape_emits [OF assms(1,2) _ w, of "8 + 8 * length items" SVGA_ESCAPE_NSID_VMWARE] by simp
qed

subsection \<open>The population count\<close>

text \<open>A round of \<open>count_bits\<close> on naturals: \<open>m\<close> selects the low halves of the fields, \<open>k\<close> is their width.\<close>

definition bits_stage :: "nat \<Rightarrow> nat \<Rightarrow> nat \<Rightarrow> nat" where
  "bits_stage k m n = drop_bit k (n AND push_bit k m) + (n AND m)"

lemma split_parts:
  fixes x y :: nat
  assumes "y < 2 ^ p"
  shows "drop_bit p (y + 2 ^ p * x) = x" and "take_bit p (y + 2 ^ p * x) = y"
  using assms by (simp_all add: drop_bit_eq_div take_bit_eq_mod)

lemma and_split:
  fixes x y a b :: nat
  assumes "y < 2 ^ p" and "b < 2 ^ p"
  shows "(y + 2 ^ p * x) AND (b + 2 ^ p * a) = (y AND b) + 2 ^ p * (x AND a)"
proof -
  let ?n = "(y + 2 ^ p * x) AND (b + 2 ^ p * a)"
  have "?n = push_bit p (drop_bit p ?n) + take_bit p ?n" by (rule bits_ident [symmetric])
  also have "drop_bit p ?n = x AND a"
    by (simp only: drop_bit_and split_parts [OF assms(1)] split_parts [OF assms(2)])
  also have "take_bit p ?n = y AND b"
    by (simp only: take_bit_and split_parts [OF assms(1)] split_parts [OF assms(2)])
  finally show ?thesis by (simp add: push_bit_eq_mult mult.commute)
qed

lemma bits_stage_split:
  assumes "y < 2 ^ p" and "push_bit k b < 2 ^ p" and "k \<le> p"
  shows "bits_stage k (b + 2 ^ p * a) (y + 2 ^ p * x) = bits_stage k b y + 2 ^ p * bits_stage k a x"
proof -
  have b: "b < 2 ^ p"
  proof -
    have "b \<le> push_bit k b" by (simp add: push_bit_eq_mult)
    then show ?thesis using assms(2) by (rule le_less_trans)
  qed
  have push: "push_bit k (b + 2 ^ p * a) = push_bit k b + 2 ^ p * push_bit k a"
    by (simp add: push_bit_eq_mult algebra_simps)
  have drop: "drop_bit k (u + 2 ^ p * (x AND push_bit k a)) = drop_bit k u + 2 ^ p * drop_bit k (x AND push_bit k a)"
    for u
  proof -
    have v: "x AND push_bit k a = 2 ^ k * (drop_bit k x AND a)"
    proof -
      have "x AND push_bit k a = push_bit k (drop_bit k x AND a)"
        by (rule bit_eqI) (auto simp: bit_simps)
      then show ?thesis by (simp only: push_bit_eq_mult mult.commute)
    qed
    have "drop_bit k (u + 2 ^ p * (2 ^ k * w)) = drop_bit k u + 2 ^ p * w" for w
    proof -
      have "u + 2 ^ p * (2 ^ k * w) = u + 2 ^ k * (2 ^ p * w)" by simp
      then show ?thesis by (simp only: drop_bit_eq_div) simp
    qed
    moreover have "drop_bit k (2 ^ k * w) = w" for w :: nat by (simp add: drop_bit_eq_div)
    ultimately show ?thesis unfolding v by (simp only:)
  qed
  show ?thesis
    unfolding bits_stage_def push and_split [OF assms(1,2)] and_split [OF assms(1) b] drop
    by (simp only: distrib_left add_ac)
qed

lemma and_nat_le2: "n AND m \<le> (m :: nat)"
proof -
  have "int (n AND m) \<le> int m" unfolding of_nat_and_eq by (rule AND_upper2) simp
  then show ?thesis by simp
qed

lemma bits_stage_le: "bits_stage k m n \<le> 2 * m"
proof -
  have "drop_bit k (n AND push_bit k m) \<le> m"
  proof -
    have "n AND push_bit k m \<le> push_bit k m" by (rule and_nat_le2) 
    then have "drop_bit k (n AND push_bit k m) \<le> drop_bit k (push_bit k m)"
      unfolding drop_bit_eq_div by (rule div_le_mono)
    also have "drop_bit k (push_bit k m) = m" by (simp add: push_bit_eq_mult drop_bit_eq_div)
    finally show ?thesis .
  qed
  moreover have "n AND m \<le> m" by (rule and_nat_le2)
  ultimately show ?thesis by (simp add: bits_stage_def)
qed

text \<open>The last round adds the two halves.\<close>

lemma bits_stage_sum:
  assumes "u < 2 ^ k" and "v < 2 ^ k"
  shows "bits_stage k (mask k) (u + 2 ^ k * v) = u + v"
proof -
  have m: "w AND mask k = w" if "w < 2 ^ k" for w :: nat
    using that by (simp add: take_bit_eq_mask [symmetric] take_bit_nat_eq_self)
  have "(u + 2 ^ k * v) AND (0 + 2 ^ k * mask k) = (u AND 0) + 2 ^ k * (v AND mask k)"
    using assms by (intro and_split) simp_all
  moreover have "(u + 2 ^ k * v) AND (mask k + 2 ^ k * 0) = (u AND mask k) + 2 ^ k * (v AND 0)"
    using assms by (intro and_split) (simp_all add: mask_nat_less_exp)
  ultimately show ?thesis
    using m assms by (simp add: bits_stage_def push_bit_eq_mult mult.commute drop_bit_eq_div)
qed

definition pop :: "nat \<Rightarrow> nat \<Rightarrow> nat" where
  "pop w n = length (filter (bit n) [0..<w])"

lemma pop_add:
  assumes "y < 2 ^ w"
  shows "pop (w + v) (y + 2 ^ w * x) = pop w y + pop v x"
proof -
  let ?n = "y + 2 ^ w * x"
  have lo: "bit ?n j = bit y j" if "j < w" for j
    using that split_parts(2) [OF assms, of x] by (metis bit_take_bit_iff)
  have hi: "bit ?n (j + w) = bit x j" for j
    using split_parts(1) [OF assms, of x] by (metis bit_drop_bit_eq comp_apply add.commute)
  have "[w..<w + v] = map (\<lambda>j. j + w) [0..<v]"
    by (simp add: map_add_upt add.commute)
  then have "[0..<w + v] = [0..<w] @ map (\<lambda>j. j + w) [0..<v]"
    using upt_add_eq_append [of 0 w v] by simp
  moreover have "filter (bit ?n) [0..<w] = filter (bit y) [0..<w]"
    by (rule filter_cong) (simp_all add: lo)
  moreover have "bit ?n \<circ> (\<lambda>j. j + w) = bit x" by (rule ext) (simp add: hi)
  ultimately show ?thesis by (simp add: pop_def filter_map)
qed

lemma pop_le: "pop w n \<le> w"
  unfolding pop_def using length_filter_le [of "bit n" "[0..<w]"] by simp

lemma pop_mod: "pop w n = pop w (n mod 2 ^ w)"
proof -
  have "filter (bit n) [0..<w] = filter (bit (take_bit w n)) [0..<w]"
    by (rule filter_cong) (simp_all add: bit_take_bit_iff)
  then show ?thesis by (simp add: pop_def take_bit_eq_mod)
qed

lemma pop_1: "n < 2 \<Longrightarrow> pop 1 n = n"
  by (cases n rule: nat.exhaust) (auto simp: pop_def bit_0)

text \<open>One level of the tree: \<open>f\<close> counts in \<open>w\<close>-bit numbers, and the rounds of \<open>f\<close> on the doubled
  width act on the two halves separately.\<close>

lemma pop_double:
  assumes f: "\<And>n. n < 2 ^ w \<Longrightarrow> f n = pop w n"
    and g: "\<And>x y. x < 2 ^ w \<Longrightarrow> y < 2 ^ w \<Longrightarrow> g (y + 2 ^ w * x) = f y + 2 ^ w * f x"
    and n: "n < 2 ^ w2" and w2: "w2 = w + w" and m: "m = 2 ^ w - 1"
  shows "bits_stage w m (g n) = pop w2 n"
proof -
  let ?x = "n div 2 ^ w" and ?y = "n mod 2 ^ w"
  have xy: "?x < 2 ^ w" "?y < 2 ^ w" "n = ?y + 2 ^ w * ?x"
    using n by (simp_all add: w2 less_mult_imp_div_less power_add)
  have less: "pop w m < 2 ^ w" for m
    using pop_le [of w m] less_exp [of w] by (rule le_less_trans)
  have "g n = pop w ?y + 2 ^ w * pop w ?x" using g [OF xy(1,2)] f [OF xy(1)] f [OF xy(2)] xy(3) by simp
  then have "bits_stage w (mask w) (g n) = pop w ?y + pop w ?x"
    using bits_stage_sum [OF less less] by simp
  then show ?thesis using pop_add [OF xy(2), of w ?x] xy(3) by (simp add: w2 m mask_eq_exp_minus_1)
qed

text \<open>The rounds for 2, 4, 8, 16 and 32 bits.\<close>

lemma pop_2: "n < 4 \<Longrightarrow> bits_stage 1 1 n = pop 2 n"
  by (rule pop_double [of 1 "\<lambda>n. n" "\<lambda>n. n"]) (simp_all add: pop_1 [simplified])

lemma pop_4: "n < 16 \<Longrightarrow> bits_stage 2 3 (bits_stage 1 5 n) = pop 4 n"
proof (rule pop_double [of 2 "bits_stage 1 1" "bits_stage 1 5"])
  show "bits_stage 1 5 (y + 2 ^ 2 * x) = bits_stage 1 1 y + 2 ^ 2 * bits_stage 1 1 x" if "y < 2 ^ 2" for x y
    using bits_stage_split [of y 2 1 1 1 x] that by simp
qed (use pop_2 in simp_all)

lemma pop_8: "n < 256 \<Longrightarrow> bits_stage 4 0xF (bits_stage 2 0x33 (bits_stage 1 0x55 n)) = pop 8 n"
proof (rule pop_double [of 4 "\<lambda>n. bits_stage 2 3 (bits_stage 1 5 n)"])
  show "bits_stage 2 0x33 (bits_stage 1 0x55 (y + 2 ^ 4 * x)) =
      bits_stage 2 3 (bits_stage 1 5 y) + 2 ^ 4 * bits_stage 2 3 (bits_stage 1 5 x)" if "y < 2 ^ 4" for x y
    using bits_stage_split [of y 4 1 5 5 x] bits_stage_split [of "bits_stage 1 5 y" 4 2 3 3 "bits_stage 1 5 x"]
      bits_stage_le [of 1 5 y] that by simp
qed (use pop_4 in simp_all)

lemma pop_16:
  "n < 2 ^ 16 \<Longrightarrow> bits_stage 8 0xFF (bits_stage 4 0xF0F (bits_stage 2 0x3333 (bits_stage 1 0x5555 n))) = pop 16 n"
proof (rule pop_double [of 8 "\<lambda>n. bits_stage 4 0xF (bits_stage 2 0x33 (bits_stage 1 0x55 n))"])
  fix x y :: nat
  assume "y < 2 ^ 8"
  then show "bits_stage 4 0xF0F (bits_stage 2 0x3333 (bits_stage 1 0x5555 (y + 2 ^ 8 * x))) =
      bits_stage 4 0xF (bits_stage 2 0x33 (bits_stage 1 0x55 y)) +
      2 ^ 8 * bits_stage 4 0xF (bits_stage 2 0x33 (bits_stage 1 0x55 x))"
    using bits_stage_split [of y 8 1 85 85 x]
      bits_stage_split [of "bits_stage 1 0x55 y" 8 2 51 51 "bits_stage 1 0x55 x"]
      bits_stage_split [of "bits_stage 2 0x33 (bits_stage 1 0x55 y)" 8 4 15 15 "bits_stage 2 0x33 (bits_stage 1 0x55 x)"]
      bits_stage_le [of 1 85 y] bits_stage_le [of 2 51 "bits_stage 1 0x55 y"] by simp
qed (use pop_8 in simp_all)

lemma pop_32:
  "n < 2 ^ 32 \<Longrightarrow> bits_stage 16 0xFFFF (bits_stage 8 0xFF00FF (bits_stage 4 0xF0F0F0F
     (bits_stage 2 0x33333333 (bits_stage 1 0x55555555 n)))) = pop 32 n"
proof (rule pop_double [of 16 "\<lambda>n. bits_stage 8 0xFF (bits_stage 4 0xF0F (bits_stage 2 0x3333 (bits_stage 1 0x5555 n)))"])
  fix x y :: nat
  assume y: "y < 2 ^ 16"
  let ?y1 = "bits_stage 1 0x5555 y" let ?x1 = "bits_stage 1 0x5555 x"
  let ?y2 = "bits_stage 2 0x3333 ?y1" let ?x2 = "bits_stage 2 0x3333 ?x1"
  let ?y4 = "bits_stage 4 0xF0F ?y2" let ?x4 = "bits_stage 4 0xF0F ?x2"
  show "bits_stage 8 0xFF00FF (bits_stage 4 0xF0F0F0F (bits_stage 2 0x33333333 (bits_stage 1 0x55555555 (y + 2 ^ 16 * x)))) =
      bits_stage 8 0xFF ?y4 + 2 ^ 16 * bits_stage 8 0xFF ?x4"
    using bits_stage_split [of y 16 1 21845 21845 x] bits_stage_split [of ?y1 16 2 13107 13107 ?x1]
      bits_stage_split [of ?y2 16 4 3855 3855 ?x2] bits_stage_split [of ?y4 16 8 255 255 ?x4]
      bits_stage_le [of 1 21845 y] bits_stage_le [of 2 13107 ?y1] bits_stage_le [of 4 3855 ?y2] y by simp
qed (use pop_16 in simp_all)

lemma unat_bits_stage:
  fixes w :: u32
  assumes "drop_bit k hi = lo" and "unat lo < 2 ^ 31" and "unat hi = push_bit k (unat lo)"
  shows "unat (drop_bit k (w AND hi) + (w AND lo)) = bits_stage k (unat lo) (unat w)"
proof -
  have "drop_bit k (w AND hi) \<le> lo"
    unfolding drop_bit_and assms(1) by (rule word_and_le1)
  moreover have "w AND lo \<le> lo" by (rule word_and_le1)
  ultimately have "unat (drop_bit k (w AND hi) + (w AND lo)) = unat (drop_bit k (w AND hi)) + unat (w AND lo)"
    using assms(2) by (intro unat_add_no_wrap) (simp add: word_le_nat_alt)
  then show ?thesis
    by (simp only: bits_stage_def unat_drop_bit_eq unsigned_and_eq assms(3))
qed

lemma count_bits_pop: "unat (count_bits w) = pop 32 (unat w)"
proof -
  have s1: "unat (drop_bit 1 (v AND 0xAAAAAAAA) + (v AND 0x55555555)) = bits_stage 1 0x55555555 (unat v)" for v :: u32
    using unat_bits_stage [of 1 "0xAAAAAAAA" "0x55555555" v] by (simp del: drop_bit_and)
  have s2: "unat (drop_bit 2 (v AND 0xCCCCCCCC) + (v AND 0x33333333)) = bits_stage 2 0x33333333 (unat v)" for v :: u32
    using unat_bits_stage [of 2 "0xCCCCCCCC" "0x33333333" v] by (simp del: drop_bit_and)
  have s4: "unat (drop_bit 4 (v AND 0xF0F0F0F0) + (v AND 0x0F0F0F0F)) = bits_stage 4 0x0F0F0F0F (unat v)" for v :: u32
    using unat_bits_stage [of 4 "0xF0F0F0F0" "0x0F0F0F0F" v] by (simp del: drop_bit_and)
  have s8: "unat (drop_bit 8 (v AND 0xFF00FF00) + (v AND 0x00FF00FF)) = bits_stage 8 0x00FF00FF (unat v)" for v :: u32
    using unat_bits_stage [of 8 "0xFF00FF00" "0x00FF00FF" v] by (simp del: drop_bit_and)
  have s16: "unat (drop_bit 16 (v AND 0xFFFF0000) + (v AND 0x0000FFFF)) = bits_stage 16 0x0000FFFF (unat v)" for v :: u32
    using unat_bits_stage [of 16 "0xFFFF0000" "0x0000FFFF" v] by (simp del: drop_bit_and)
  have "unat (count_bits w) = bits_stage 16 0x0000FFFF (bits_stage 8 0x00FF00FF (bits_stage 4 0x0F0F0F0F
     (bits_stage 2 0x33333333 (bits_stage 1 0x55555555 (unat w)))))"
    unfolding count_bits_def Let_def by (simp only: s1 s2 s4 s8 s16)
  also have "\<dots> = pop 32 (unat w)"
    using pop_32 [of "unat w"] unsigned_less [of w, where ?'a = nat] by simp
  finally show ?thesis .
qed

lemma count_bits_length: "unat (count_bits w) = length (filter (bit w) [0..<32])"
proof -
  have "bit (unat w) = bit w" by (rule ext) (simp add: bit_unsigned_iff)
  then show ?thesis by (simp add: count_bits_pop pop_def)
qed

lemma VideoSetReg_emits:
  assumes "host_serving h" "fifo_ready d" "fifo_fits d 7"
  shows "emits d (VideoSetReg h streamId registerId val d)
    [SVGA_CMD_ESCAPE, SVGA_ESCAPE_NSID_VMWARE, 16, SVGA_ESCAPE_VMWARE_VIDEO_SET_REGS, streamId, registerId, val]"
  using VideoSetRegs_emits [OF assms(1,2), of "[(registerId, val)]" "\<lambda>setRegs. put_item setRegs 0 registerId val" streamId]
    assms(3) by (simp add: VideoSetReg_def)

lemma VideoFlush_emits:
  assumes "host_serving h" "fifo_ready d" "fifo_fits d 5"
  shows "emits d (VideoFlush h streamId d)
    [SVGA_CMD_ESCAPE, SVGA_ESCAPE_NSID_VMWARE, 8, SVGA_ESCAPE_VMWARE_VIDEO_FLUSH, streamId]"
proof -
  have w: "writes (\<lambda>p. puts p [(0, SVGA_ESCAPE_VMWARE_VIDEO_FLUSH), (1, streamId)]) 2
      [SVGA_ESCAPE_VMWARE_VIDEO_FLUSH, streamId]"
    using writes_field_seq [of "[(0, SVGA_ESCAPE_VMWARE_VIDEO_FLUSH), (1, streamId)]" 2] by simp
  have "emits d (VideoFlush h streamId d)
      (SVGA_CMD_ESCAPE # SVGA_ESCAPE_NSID_VMWARE # of_nat 8 # [SVGA_ESCAPE_VMWARE_VIDEO_FLUSH, streamId])"
    unfolding VideoFlush_def by (rule FIFOReserveEscape_emits [OF assms(1,2) _ w]) (use assms(3) in simp_all)
  then show ?thesis by simp
qed

lemma fold_zip_map:
  "fold (\<lambda>(i, r, v). f i r v) (zip [0..<n] (map (\<lambda>i. (a i, b i)) [0..<n])) = fold (\<lambda>i. f i (a i) (b i)) [0..<n]"
proof -
  have "zip [0..<n] (map (\<lambda>i. (a i, b i)) [0..<n]) = map (\<lambda>i. (i, a i, b i)) [0..<n]"
    by (rule nth_equalityI) simp_all
  then show ?thesis by (simp add: fold_map comp_def)
qed

text \<open>The registers and values a ranged update sends.\<close>

definition range_items :: "(nat \<Rightarrow> u32) \<Rightarrow> u32 \<Rightarrow> u32 \<Rightarrow> (u32 \<times> u32) list" where
  "range_items regArray minReg maxReg =
     map (\<lambda>r. (of_nat r, regArray r)) [unat minReg..<Suc (unat maxReg)]"

lemma range_items_alt:
  assumes "minReg \<le> maxReg"
  shows "range_items regArray minReg maxReg = map (\<lambda>i. (of_nat i + minReg, regArray (unat (of_nat i + minReg))))
           [0..<Suc (unat maxReg - unat minReg)]"
proof -
  have "unat (of_nat i + minReg) = i + unat minReg" if "i < Suc (unat maxReg - unat minReg)" for i
  proof -
    have "unat minReg + i < 2 ^ LENGTH(32)"
      using that unsigned_less [of maxReg, where ?'a = nat] assms by (simp add: word_le_nat_alt)
    from unat_add_of_nat [OF this] show ?thesis by (simp only: add.commute)
  qed
  moreover have "[unat minReg..<Suc (unat maxReg)] = map (\<lambda>i. i + unat minReg) [0..<Suc (unat maxReg - unat minReg)]"
    using assms by (simp only: map_add_upt word_le_nat_alt) simp
  ultimately show ?thesis
    by (simp add: range_items_def comp_def del: upt_Suc)
qed

lemma VideoSetRegsInRange_emits:
  assumes "host_serving h" "fifo_ready d" "minReg \<le> maxReg"
    and "fifo_fits d (5 + 2 * length (range_items regArray minReg maxReg))"
  shows "emits d (VideoSetRegsInRange h streamId regArray minReg maxReg d)
    (SVGA_CMD_ESCAPE # SVGA_ESCAPE_NSID_VMWARE # of_nat (8 + 8 * length (range_items regArray minReg maxReg)) #
     SVGA_ESCAPE_VMWARE_VIDEO_SET_REGS # streamId #
     concat (map (\<lambda>(r, v). [r, v]) (range_items regArray minReg maxReg)))"
proof -
  have le: "unat minReg \<le> unat maxReg" using assms(3) by (simp add: word_le_nat_alt)
  have len: "length (range_items regArray minReg maxReg) = Suc (unat maxReg - unat minReg)"
    using le by (simp add: range_items_def)
  have "unat (maxReg - minReg) < 16384" using assms(4) le by (simp add: len fifo_fits_def unat_sub_no_wrap)
  then have num: "unat (maxReg - minReg + 1) = Suc (unat maxReg - unat minReg)"
    using le by (subst unat_add_no_wrap) (simp_all add: unat_sub_no_wrap)
  have run: "VideoSetRegsInRange h streamId regArray minReg maxReg d =
      commit_cmd (BeginVideoSetRegs h streamId (Suc (unat maxReg - unat minReg)) d)
        (\<lambda>setRegs d. fold (\<lambda>i. put_item setRegs i (of_nat i + minReg) (regArray (unat (of_nat i + minReg))))
          [0..<Suc (unat maxReg - unat minReg)] d)"
    unfolding VideoSetRegsInRange_def Let_def num by (rule if_not_P) (use assms(3) in \<open>simp add: not_less\<close>)
  have "fold (\<lambda>i. put_item p i (of_nat i + minReg) (regArray (unat (of_nat i + minReg))))
          [0..<Suc (unat maxReg - unat minReg)] e =
      fold (\<lambda>(i, r, v). put_item p i r v) (zip [0..<length (range_items regArray minReg maxReg)]
        (range_items regArray minReg maxReg)) e" for p e
    unfolding len unfolding range_items_alt [OF assms(3)] fold_zip_map ..
  from VideoSetRegs_emits [OF assms(1,2,4) this, of streamId] show ?thesis
    unfolding run by (simp only: len)
qed

text \<open>The registers and values a masked update sends.\<close>

definition mask_items :: "(nat \<Rightarrow> u32) \<Rightarrow> u32 \<Rightarrow> (u32 \<times> u32) list" where
  "mask_items regArray regMask = map (\<lambda>r. (of_nat r, regArray r)) (filter (bit regMask) [0..<32])"

lemma filter_bit_drop:
  "filter (bit (w :: u32)) [0..<32] = (if bit w 0 then [0] else []) @ map Suc (filter (bit (drop_bit 1 w)) [0..<32])"
proof -
  have "[0..<32] = 0 # map Suc [0..<31]" by (simp add: map_Suc_upt upt_conv_Cons)
  moreover have "filter (bit (drop_bit 1 w)) [0..<32] = filter (bit (drop_bit 1 w)) [0..<31]"
  proof -
    have "\<not> bit (drop_bit 1 w) 31"
      using bit_imp_le_length [of w 32] by (auto simp: bit_drop_bit_eq)
    moreover have "[0..<32] = [0..<31] @ [31]" by (simp add: upt_rec)
    ultimately show ?thesis by (simp only: filter_append) simp
  qed
  moreover have "bit w \<circ> Suc = bit (drop_bit 1 w)" by (rule ext) (simp add: bit_drop_bit_eq)
  ultimately show ?thesis by (simp add: filter_map)
qed

declare video_mask_loop.simps [simp del]

lemma video_mask_loop_items:
  "video_mask_loop p f n i m d =
    fold (\<lambda>(k, r, v). put_item p k r v)
      (zip [n..<n + length (filter (bit m) [0..<32])] (map (\<lambda>j. (of_nat (i + j), f (i + j))) (filter (bit m) [0..<32]))) d"
proof (induction p f n i m d rule: video_mask_loop.induct)
  case (1 p f n i m d)
  define rest where "rest = filter (bit (drop_bit 1 m)) [0..<32]"
  have odd: "m AND 1 \<noteq> 0 \<longleftrightarrow> bit m 0" by (simp add: bit_0 and_one_eq odd_iff_mod_2_eq_one)
  show ?case
  proof (cases "m = 0")
    case True
    then show ?thesis by (simp add: video_mask_loop.simps)
  next
    case False
    show ?thesis
    proof (cases "bit m 0")
      case True
      then have "video_mask_loop p f n i m d =
          video_mask_loop p f (n + 1) (i + 1) (drop_bit 1 m) (put_item p n (of_nat i) (f i) d)"
        using False odd by (subst video_mask_loop.simps) simp
      also have "\<dots> = fold (\<lambda>(k, r, v). put_item p k r v)
          (zip [n + 1..<n + 1 + length rest] (map (\<lambda>j. (of_nat (i + 1 + j), f (i + 1 + j))) rest))
          (put_item p n (of_nat i) (f i) d)"
        using False odd True unfolding rest_def by (intro 1(1)) simp_all
      finally have run: "video_mask_loop p f n i m d = fold (\<lambda>(k, r, v). put_item p k r v)
          (zip [n + 1..<n + 1 + length rest] (map (\<lambda>j. (of_nat (i + 1 + j), f (i + 1 + j))) rest))
          (put_item p n (of_nat i) (f i) d)" .
      have items: "filter (bit m) [0..<32] = 0 # map Suc rest"
        unfolding filter_bit_drop [of m] rest_def using True by simp
      show ?thesis
        unfolding items run by (simp add: upt_conv_Cons comp_def add.left_commute del: upt_Suc)
    next
      case even: False
      then have "video_mask_loop p f n i m d = video_mask_loop p f n (i + 1) (drop_bit 1 m) d"
        using False odd by (subst video_mask_loop.simps) simp
      also have "\<dots> = fold (\<lambda>(k, r, v). put_item p k r v)
          (zip [n..<n + length rest] (map (\<lambda>j. (of_nat (i + 1 + j), f (i + 1 + j))) rest)) d"
        using False odd even unfolding rest_def by (intro 1(2)) simp_all
      finally have run: "video_mask_loop p f n i m d = fold (\<lambda>(k, r, v). put_item p k r v)
          (zip [n..<n + length rest] (map (\<lambda>j. (of_nat (i + 1 + j), f (i + 1 + j))) rest)) d" .
      have items: "filter (bit m) [0..<32] = map Suc rest"
        unfolding filter_bit_drop [of m] rest_def using even by simp
      show ?thesis
        unfolding items run by (simp add: comp_def add.left_commute)
    qed
  qed
qed

lemma VideoSetRegsWithMask_emits:
  assumes "host_serving h" "fifo_ready d" "regMask \<noteq> 0"
    and "fifo_fits d (5 + 2 * length (mask_items regArray regMask))"
  shows "emits d (VideoSetRegsWithMask h streamId regArray regMask d)
    (SVGA_CMD_ESCAPE # SVGA_ESCAPE_NSID_VMWARE # of_nat (8 + 8 * length (mask_items regArray regMask)) #
     SVGA_ESCAPE_VMWARE_VIDEO_SET_REGS # streamId #
     concat (map (\<lambda>(r, v). [r, v]) (mask_items regArray regMask)))"
proof -
  have len: "unat (count_bits regMask) = length (mask_items regArray regMask)"
    by (simp add: mask_items_def count_bits_length)
  have fill: "video_mask_loop p regArray 0 0 regMask e = fold (\<lambda>(i, r, v). put_item p i r v)
      (zip [0..<length (mask_items regArray regMask)] (mask_items regArray regMask)) e" for p e
    by (simp add: video_mask_loop_items mask_items_def)
  show ?thesis
    using VideoSetRegs_emits [OF assms(1,2,4), OF fill, of streamId] assms(3)
    by (simp add: VideoSetRegsWithMask_def len)
qed

section \<open>The alpha cursor\<close>

text \<open>The image goes between \<open>Begin\<close> and \<open>End\<close>, through the pointer \<open>Begin\<close> returned.\<close>

lemma list_6: "length xs = 6 \<Longrightarrow> \<exists>a b c d e f. xs = [a, b, c, d, e, f]"
  by (auto simp: numeral_eq_Suc length_Suc_conv)

lemma put_dwords_ptr_add: "put_dwords (ptr_add p j) i vs d = put_dwords p (j + i) vs d"
  by (induction vs arbitrary: i d) (simp_all add: put_dwords_Nil put_dwords_Cons put_ptr_add)

lemma m_cursor_ptr_put [simp]: "m_cursor_ptr (put p i v d) = m_cursor_ptr d"
  by (cases p) simp_all

lemma m_cursor_ptr_put_dwords [simp]: "m_cursor_ptr (put_dwords p i vs d) = m_cursor_ptr d"
  by (induction vs arbitrary: i d) (simp_all add: put_dwords_Nil put_dwords_Cons)

lemma alpha_cursor_emits:
  assumes "host_serving h" and "fifo_ready d" and "fifo_fits d (6 + length pixels)"
    and size: "unat (width * height * bytespp) = 4 * length pixels"
  shows "\<exists>p e. BeginDefineAlphaCursor h width height bytespp d = Some (Some p, e) \<and>
    (let (ok, f) = EndDefineAlphaCursor width height bytespp hotspot_x hotspot_y (put_dwords p 0 pixels e) in
     ok \<and> fifo_ready f \<and>
     (\<exists>k. fifo_queue (m_fifo f) = drop k (fifo_queue (m_fifo d)) @
        [SVGA_CMD_DEFINE_ALPHA_CURSOR, 1, hotspot_x, hotspot_y, width, height] @ pixels))"
proof -
  let ?n = "6 + length pixels"
  have small: "?n \<le> 16384" using assms(3) by (simp add: fifo_fits_def)
  then have len: "size_add (20 + unat (width * height * bytespp)) 4 = 4 * ?n"
    by (simp add: size size_add_def)
  obtain p e where "FIFOReserve h (4 * ?n) d = Some (Some p, e)" and r: "reserved_for d e p ?n"
    using FIFOReserve_returns [OF assms(1,2) _ assms(3)] by auto
  then have res: "FIFOReserve h (size_add (20 + unat (width * height * bytespp)) 4) d = Some (Some p, e)"
    by (simp only: len)
  let ?cmd = "ptr_add p 1" let ?e = "e\<lparr>m_cursor_ptr := Some (ptr_add p 1)\<rparr>"
  let ?ws = "(0, SVGA_CMD_DEFINE_ALPHA_CURSOR) # zip [6..<6 + length pixels] pixels @
    [(1, 1), (2, hotspot_x), (3, hotspot_y), (4, width), (5, height)]"
  have swap: "(put p 0 v e)\<lparr>m_cursor_ptr := c\<rparr> = put p 0 v (e\<lparr>m_cursor_ptr := c\<rparr>)" for v c
    by (cases p) simp_all
  have begin': "BeginDefineAlphaCursor h width height bytespp d =
      Some (Some (ptr_add p 6), put p 0 SVGA_CMD_DEFINE_ALPHA_CURSOR ?e)"
    by (simp add: BeginDefineAlphaCursor_def FIFOReserveCmd_def res swap)
  have pend: "fifo_pending ?e p ?n" and q: "\<exists>k. fifo_queue (m_fifo ?e) = drop k (fifo_queue (m_fifo d))"
    using r by (simp_all add: reserved_for_def fifo_pending_def)
  have "\<forall>(i, v) \<in> set ?ws. i < ?n" by (auto dest: set_zip_leftD)
  note w = fifo.write_all_pending [OF pend this, folded puts_write_all]
  let ?f = "puts p ?ws ?e"
  have full: "fold (\<lambda>(i, v) c. c[i := v]) ?ws c =
      [SVGA_CMD_DEFINE_ALPHA_CURSOR, 1, hotspot_x, hotspot_y, width, height] @ pixels" if "length c = ?n" for c
  proof -
    have "length (take 6 c) = 6" using that by simp
    from list_6 [OF this] obtain c0 c1 c2 c3 c4 c5 where c: "take 6 c = [c0, c1, c2, c3, c4, c5]"
      by blast
    have mid: "fold (\<lambda>(i, v) c. c[i := v]) (zip [6..<6 + length pixels] pixels) (c[0 := SVGA_CMD_DEFINE_ALPHA_CURSOR]) =
        [SVGA_CMD_DEFINE_ALPHA_CURSOR, c1, c2, c3, c4, c5] @ pixels"
      using that by (subst fold_update_all) (simp_all add: take_update_swap c)
    have "fold (\<lambda>(i, v) c. c[i := v]) ?ws c =
        fold (\<lambda>(i, v) c. c[i := v]) [(1, 1), (2, hotspot_x), (3, hotspot_y), (4, width), (5, height)]
          ([SVGA_CMD_DEFINE_ALPHA_CURSOR, c1, c2, c3, c4, c5] @ pixels)"
      unfolding mid [symmetric] by simp
    then show ?thesis by (simp add: numeral_eq_Suc)
  qed
  have pend': "fifo_pending ?f p ?n" and q': "fifo_queue (m_fifo ?f) = fifo_queue (m_fifo ?e)"
    and c: "fifo_contents ?f p ?n = [SVGA_CMD_DEFINE_ALPHA_CURSOR, 1, hotspot_x, hotspot_y, width, height] @ pixels"
    using w full by simp_all
  note committed = FIFOCommitAll_pending [OF pend']
  have "m_reserved_size ?f = 4 + 20 + unat (width * height * bytespp)"
    using pend' size by (simp add: fifo_pending_def)
  moreover have "puts ?cmd [(0, 1), (1, hotspot_x), (2, hotspot_y), (3, width), (4, height)]
      (put_dwords (ptr_add p 6) 0 pixels (put p 0 SVGA_CMD_DEFINE_ALPHA_CURSOR ?e)) = ?f"
  proof -
    have px: "put_dwords (ptr_add p 6) 0 pixels x = puts p (zip [6..<6 + length pixels] pixels) x" for x
      unfolding put_dwords_ptr_add unfolding put_dwords_def by simp
    have shift: "map (\<lambda>(i, v). (1 + i, v)) [(0, 1), (1, hotspot_x), (2, hotspot_y), (3, width), (4, height)] =
        [(1 :: nat, 1), (2, hotspot_x), (3, hotspot_y), (4, width), (5, height)]"
      by (simp add: numeral_eq_Suc)
    show ?thesis
      unfolding px puts_ptr_add shift by (simp add: puts_append puts_Cons)
  qed
  ultimately have end': "EndDefineAlphaCursor width height bytespp hotspot_x hotspot_y
      (put_dwords (ptr_add p 6) 0 pixels (put p 0 SVGA_CMD_DEFINE_ALPHA_CURSOR ?e)) =
      (True, (FIFOCommitAll ?f)\<lparr>m_cursor_ptr := None\<rparr>)"
    by (simp add: EndDefineAlphaCursor_def FIFOCommitAll_def Let_def del: ptr_add.simps)
  have "let (ok, f) = (True, (FIFOCommitAll ?f)\<lparr>m_cursor_ptr := None\<rparr>) in
     ok \<and> fifo_ready f \<and>
     (\<exists>k. fifo_queue (m_fifo f) = drop k (fifo_queue (m_fifo d)) @
        [SVGA_CMD_DEFINE_ALPHA_CURSOR, 1, hotspot_x, hotspot_y, width, height] @ pixels)"
    using q committed q' c by (auto simp: fifo_ready_def)
  then show ?thesis
    using begin' unfolding end' [symmetric] by blast
qed

section \<open>Fences\<close>

text \<open>The fence number of the \<open>n\<close>-th insertion: 1, 2, ... with 0 left out when the counter wraps.\<close>

definition fence_ticket :: "nat \<Rightarrow> u32" where
  "fence_ticket n = of_nat (1 + n mod 4294967295)"

definition fence_count :: "svga \<Rightarrow> nat \<Rightarrow> bool" where
  "fence_count d n \<longleftrightarrow> (if m_next_fence d = 0 then 1 else m_next_fence d) = fence_ticket n"

lemma unat_fence_ticket: "unat (fence_ticket n) = 1 + n mod 4294967295"
proof -
  have "1 + n mod 4294967295 < 2 ^ LENGTH(32)"
    using mod_less_divisor [of 4294967295 n] by simp
  then show ?thesis unfolding fence_ticket_def by (simp only: unat_of_nat) simp
qed

lemma fence_ticket_nonzero: "fence_ticket n \<noteq> 0"
  using unat_fence_ticket [of n] by auto

lemma fence_ticket_Suc:
  "(if fence_ticket n + 1 = 0 then 1 else fence_ticket n + 1) = fence_ticket (Suc n)"
proof -
  have n: "n mod 4294967295 < 4294967295" by simp
  have "unat (fence_ticket n + 1) = (2 + n mod 4294967295) mod 4294967296"
    by (simp add: unat_word_ariths unat_fence_ticket mod_simps)
  moreover have "Suc n mod 4294967295 = (if Suc (n mod 4294967295) = 4294967295 then 0 else Suc (n mod 4294967295))"
    by (rule mod_Suc)
  ultimately show ?thesis
    using n by (simp add: word_unat_eq_iff unat_fence_ticket split: if_splits)
qed

text \<open>A difference of tickets, read as a signed number, orders the insertions up to 2G apart.\<close>

lemma fence_ticket_order:
  assumes "a < b + 2147483647" and "b < a + 2147483647"
  shows "0 \<le>s fence_ticket a - fence_ticket b \<longleftrightarrow> b \<le> a"
proof -
  let ?N = "4294967295 :: nat"
  have diff: "unat (fence_ticket a - fence_ticket b) =
      (if b mod ?N \<le> a mod ?N then a mod ?N - b mod ?N else 4294967296 - (b mod ?N - a mod ?N))"
    using mod_less_divisor [of ?N a] mod_less_divisor [of ?N b]
    by (simp add: unat_sub_if_size word_size unat_fence_ticket)
  define qa ra qb rb where "qa = a div ?N" "ra = a mod ?N" "qb = b div ?N" "rb = b mod ?N"
  have e: "a = ?N * qa + ra" "b = ?N * qb + rb" "ra < ?N" "rb < ?N"
    by (simp_all add: qa_ra_qb_rb_def)
  have up: "qa \<le> Suc qb" "qb \<le> Suc qa"
    using assms e by linarith+
  have "(if rb \<le> ra then ra - rb else 4294967296 - (rb - ra)) < 2147483648 \<longleftrightarrow> b \<le> a"
  proof (cases "qa = qb")
    case True
    then show ?thesis using assms e by auto
  next
    case False
    then have "qa = Suc qb \<or> qb = Suc qa" using up by auto
    then show ?thesis
    proof
      assume "qa = Suc qb"
      then have "b \<le> a" "a = b + ?N + ra - rb" using e by simp_all
      then show ?thesis using assms(1) e(3,4) by auto
    next
      assume "qb = Suc qa"
      then have "a < b" "b = a + ?N + rb - ra" using e by simp_all
      then show ?thesis using assms(2) e(3,4) by auto
    qed
  qed
  then show ?thesis unfolding zero_sle_iff diff by (simp only: qa_ra_qb_rb_def)
qed

lemma InsertFence_ticket:
  assumes "host_serving h" and "fifo_ready d" and "HasFIFOCap SVGA_FIFO_CAP_FENCE d" and "fifo_fits d 2"
    and "fence_count d n"
  shows "\<exists>e k. InsertFence h d = Some (fence_ticket n, e) \<and> fence_count e (Suc n) \<and> fifo_ready e \<and>
    fifo_queue (m_fifo e) = drop k (fifo_queue (m_fifo d)) @ [SVGA_CMD_FENCE, fence_ticket n]"
proof -
  let ?d = "(if m_next_fence d = 0 then d\<lparr>m_next_fence := 1\<rparr> else d)\<lparr>m_next_fence := fence_ticket n + 1\<rparr>"
  let ?ws = "[(0 :: nat, SVGA_CMD_FENCE), (1, fence_ticket n)]"
  have d: "m_fifo ?d = m_fifo d" "fifo_ready ?d" "fifo_fits ?d 2"
    using assms(2,4) by (simp_all add: fifo_ready_def fifo_fits_def)
  have "\<forall>(i, v) \<in> set ?ws. i < (2 :: nat)" by simp
  moreover have "fold (\<lambda>(i, v) c. c[i := v]) ?ws c = [SVGA_CMD_FENCE, fence_ticket n]" if "length c = 2" for c
    using that by (auto simp: numeral_2_eq_2 length_Suc_conv)
  ultimately obtain p t k where t: "FIFOReserve h 8 ?d = Some (Some p, t)"
    "fifo_ready (FIFOCommitAll (puts p ?ws t))" "driver_fields (FIFOCommitAll (puts p ?ws t)) = driver_fields ?d"
    "fifo_queue (m_fifo (FIFOCommitAll (puts p ?ws t))) = drop k (fifo_queue (m_fifo ?d)) @ [SVGA_CMD_FENCE, fence_ticket n]"
    using fifo.emit [OF assms(1) d(2) _ d(3), of ?ws "[SVGA_CMD_FENCE, fence_ticket n]", folded puts_write_all]
    by auto
  have "m_next_fence (FIFOCommitAll (puts p ?ws t)) = fence_ticket n + 1"
    using t(3) by (simp add: driver_fields_def)
  then have "fence_count (FIFOCommitAll (puts p ?ws t)) (Suc n)"
    using fence_ticket_Suc [of n] by (auto simp: fence_count_def split: if_splits)
  moreover have "InsertFence h d = Some (fence_ticket n, FIFOCommitAll (puts p ?ws t))"
    using assms(3,5) t(1) by (auto simp: InsertFence_def Let_def fence_count_def split: if_splits)
  ultimately show ?thesis using t(2,4) d(1) by auto
qed

section \<open>Synchronisation\<close>

text \<open>A host that is idle in the end, whatever it is asked to do.\<close>

definition host_settles :: "host \<Rightarrow> bool" where
  "host_settles h \<longleftrightarrow> (\<forall>log. \<exists>N. \<forall>t \<ge> N. h_reg h t log SVGA_REG_BUSY = 0)"

text \<open>The host reported, after the last port write, a write to \<^verbatim>\<open>SYNC\<close>, that it is not busy.\<close>

definition reported_idle :: "host \<Rightarrow> svga \<Rightarrow> bool" where
  "reported_idle h d \<longleftrightarrow> io_log d \<noteq> [] \<and> last (io_log d) = (SVGA_REG_SYNC, 1) \<and>
     (\<exists>t. h_reg h t (io_log d) SVGA_REG_BUSY = 0)"

lemma poll_io [simp]: "io_log (poll h d) = io_log d" "io_tick (poll h d) = Suc (io_tick d)"
  by (simp_all add: poll_def)

lemma WriteReg_io [simp]: "io_log (WriteReg h i v d) = io_log d @ [(i, v)]" "io_tick (WriteReg h i v d) = Suc (io_tick d)"
  by (simp_all add: WriteReg_def)

lemma ReadReg_io [simp]: "io_log (snd (ReadReg h i d)) = io_log d" "io_tick (snd (ReadReg h i d)) = Suc (io_tick d)"
  "fst (ReadReg h i d) = h_reg h (Suc (io_tick d)) (io_log d) i"
  by (simp_all add: ReadReg_def Let_def)

lemma HasFencePassedUnguarded_io [simp]:
  "io_log (snd (HasFencePassedUnguarded h fence d)) = io_log d"
  "io_tick (snd (HasFencePassedUnguarded h fence d)) = Suc (io_tick d)"
  by (simp_all add: HasFencePassedUnguarded_def Let_def)

lemma wait_busy_step:
  "wait_busy h d = (if h_reg h (Suc (io_tick d)) (io_log d) SVGA_REG_BUSY \<noteq> 0
     then wait_busy h (snd (ReadReg h SVGA_REG_BUSY d)) else Some (snd (ReadReg h SVGA_REG_BUSY d)))"
  by (subst wait_busy.simps) (simp add: split_def Let_def)

lemma wait_busy_returns:
  assumes "\<forall>t \<ge> N. h_reg h t (io_log d) SVGA_REG_BUSY = 0"
  shows "\<exists>e. wait_busy h d = Some e \<and> io_log e = io_log d \<and> (\<exists>t. h_reg h t (io_log d) SVGA_REG_BUSY = 0)"
  using assms
proof (induction "N - io_tick d" arbitrary: d rule: less_induct)
  case less
  show ?case
  proof (cases "h_reg h (Suc (io_tick d)) (io_log d) SVGA_REG_BUSY = 0")
    case True
    then show ?thesis by (subst wait_busy_step) auto
  next
    case False
    then have "Suc (io_tick d) < N" using less.prems not_less by blast
    then have "N - io_tick (snd (ReadReg h SVGA_REG_BUSY d)) < N - io_tick d" by simp
    from less.hyps [OF this] less.prems False show ?thesis by (subst wait_busy_step) auto
  qed
qed

lemma SyncFIFO_returns:
  assumes "host_settles h"
  shows "\<exists>e. SyncFIFO h d = Some e \<and> io_log e = io_log d @ [(SVGA_REG_SYNC, 1)] \<and> reported_idle h e"
proof -
  let ?d = "WriteReg h SVGA_REG_SYNC 1 d"
  obtain N where "\<forall>t \<ge> N. h_reg h t (io_log ?d) SVGA_REG_BUSY = 0"
    using assms unfolding host_settles_def by blast
  from wait_busy_returns [OF this] show ?thesis by (auto simp: SyncFIFO_def reported_idle_def)
qed

lemma SyncToFence_loop_step:
  "SyncToFence_loop h fence d =
    (let d1 = snd (HasFencePassedUnguarded h fence d); d2 = snd (ReadReg h SVGA_REG_BUSY d1)
     in if fst (HasFencePassedUnguarded h fence d) then Some d1
        else if h_reg h (Suc (Suc (io_tick d))) (io_log d) SVGA_REG_BUSY \<noteq> 0 then SyncToFence_loop h fence d2
        else Some (snd (HasFencePassedUnguarded h fence d2)))"
  by (subst SyncToFence_loop.simps) (simp add: split_def Let_def)

lemma fence_passed_read:
  "fst (HasFencePassedUnguarded h fence d) \<longleftrightarrow> 0 \<le>s m_fifo (snd (HasFencePassedUnguarded h fence d)) SVGA_FIFO_FENCE - fence"
  by (simp add: HasFencePassedUnguarded_def Let_def)

lemma SyncToFence_loop_returns:
  assumes "\<forall>t \<ge> N. h_reg h t (io_log d) SVGA_REG_BUSY = 0"
  shows "\<exists>e. SyncToFence_loop h fence d = Some e \<and> io_log e = io_log d \<and>
    (0 \<le>s m_fifo e SVGA_FIFO_FENCE - fence \<or> (\<exists>t. h_reg h t (io_log d) SVGA_REG_BUSY = 0))"
  using assms
proof (induction "N - io_tick d" arbitrary: d rule: less_induct)
  case less
  let ?d1 = "snd (HasFencePassedUnguarded h fence d)" let ?d2 = "snd (ReadReg h SVGA_REG_BUSY ?d1)"
  show ?case
  proof (cases "fst (HasFencePassedUnguarded h fence d)")
    case True
    then show ?thesis using fence_passed_read [of h fence d] by (subst SyncToFence_loop_step) auto
  next
    case not_passed: False
    show ?thesis
    proof (cases "h_reg h (Suc (Suc (io_tick d))) (io_log d) SVGA_REG_BUSY = 0")
      case True
      then show ?thesis using not_passed by (subst SyncToFence_loop_step) auto
    next
      case False
      then have "Suc (Suc (io_tick d)) < N" using less.prems not_less by blast
      then have "N - io_tick ?d2 < N - io_tick d" by simp
      from less.hyps [OF this] less.prems False not_passed show ?thesis
        by (subst SyncToFence_loop_step) auto
    qed
  qed
qed


lemma SyncToFence_returns:
  assumes "host_settles h" and "fence \<noteq> 0" and "HasFIFOCap SVGA_FIFO_CAP_FENCE d"
  shows "\<exists>e. SyncToFence h fence d = Some e \<and>
    (0 \<le>s m_fifo e SVGA_FIFO_FENCE - fence \<or> reported_idle h e)"
proof -
  let ?d1 = "snd (HasFencePassedUnguarded h fence d)" let ?d = "WriteReg h SVGA_REG_SYNC 1 ?d1"
  obtain N where "\<forall>t \<ge> N. h_reg h t (io_log ?d) SVGA_REG_BUSY = 0"
    using assms(1) unfolding host_settles_def by blast
  from SyncToFence_loop_returns [OF this, of fence] obtain e where
    "SyncToFence_loop h fence ?d = Some e" "io_log e = io_log ?d"
    "0 \<le>s m_fifo e SVGA_FIFO_FENCE - fence \<or> (\<exists>t. h_reg h t (io_log ?d) SVGA_REG_BUSY = 0)"
    by auto
  then show ?thesis
    using assms(2,3) fence_passed_read [of h fence d]
    by (cases "fst (HasFencePassedUnguarded h fence d)")
      (auto simp: SyncToFence_def split_def Let_def reported_idle_def)
qed

lemma SetMode_returns:
  assumes "host_settles h"
  shows "\<exists>e. SetMode h width height bpp d = Some e \<and> m_width e = width \<and> m_height e = height \<and>
    m_pitch e = h_reg h (io_tick e - 1) (io_log e) SVGA_REG_BYTES_PER_LINE \<and>
    m_fb_size e = h_reg h (io_tick e) (io_log e) SVGA_REG_FB_SIZE \<and>
    io_log e = io_log d @ [(SVGA_REG_SYNC, 1), (SVGA_REG_WIDTH, width), (SVGA_REG_HEIGHT, height),
      (SVGA_REG_BITS_PER_PIXEL, bpp), (SVGA_REG_ENABLE, 1)]"
proof -
  obtain e where "SyncFIFO h d = Some e" "io_log e = io_log d @ [(SVGA_REG_SYNC, 1)]"
    using SyncFIFO_returns [OF assms] by blast
  then show ?thesis by (simp add: SetMode_def split_def Let_def)
qed

section \<open>Bring-up\<close>

lemma FIFOInit_ready:
  assumes "host_serving h" and "unat (m_fifo_size d) mod 4 = 0" and "1164 < unat (m_fifo_size d)"
    and "unat (m_fifo_size d) \<le> 4294901760"
  shows "fst (FIFOInit h d)" and "fifo_ready (snd (FIFOInit h d))" and "fifo_queue (m_fifo (snd (FIFOInit h d))) = []"
    and "fifo_cap (m_fifo (snd (FIFOInit h d))) = unat (m_fifo_size d) div 4 - SVGA_FIFO_NUM_REGS"
proof -
  let ?m = "(m_fifo d)(0 := 1164, 1 := m_fifo_size d, 2 := 1164, 3 := 1164)"
  let ?d = "d\<lparr>m_fifo := ?m\<rparr>"
  have wf: "fifo_wf (m_fifo ?d)"
    using assms(2-4) by (auto simp: fifo_wf_def fifo_lo_def fifo_hi_def fifo_next_def fifo_stop_def)
  have cap: "fifo_cap (m_fifo ?d) = unat (m_fifo_size d) div 4 - 291"
    by (simp add: fifo_cap_def fifo_hi_def fifo_lo_def)
  have "fifo_len (m_fifo ?d) = 0" by (simp add: fifo_len_def fifo_next_def fifo_stop_def)
  then have "fifo_queue (m_fifo ?d) = []" by (simp flip: length_0_conv)
  moreover have s: "served ?d (WriteReg h SVGA_REG_CONFIG_DONE 1 ?d)"
    using assms(1) wf by (rule served_WriteReg)
  ultimately have "fifo_queue (m_fifo (WriteReg h SVGA_REG_CONFIG_DONE 1 ?d)) = []"
    by (auto simp: served_def)
  moreover have "FIFOInit h d = (True, (WriteReg h SVGA_REG_CONFIG_DONE 1 ?d)\<lparr>m_reserved_size := 0, m_using_bounce_buffer := False\<rparr>)"
    by (simp add: FIFOInit_def Let_def)
  ultimately show "fst (FIFOInit h d)" "fifo_ready (snd (FIFOInit h d))" "fifo_queue (m_fifo (snd (FIFOInit h d))) = []"
    "fifo_cap (m_fifo (snd (FIFOInit h d))) = unat (m_fifo_size d) div 4 - SVGA_FIFO_NUM_REGS"
    using served_wf [OF s] served_geometry [OF s] cap by (simp_all add: fifo_ready_def)
qed

text \<open>What \<open>Start\<close> holds when it fails, and when it succeeds.\<close>

definition svga_released :: "svga \<Rightarrow> bool" where
  "svga_released d \<longleftrightarrow> \<not> m_has_provider d \<and> \<not> m_mapped d \<and> \<not> m_has_bounce_buffer d \<and> m_capabilities d = 0"

lemma poll_fields [simp]:
  "m_has_provider (poll h d) = m_has_provider d" "m_mapped (poll h d) = m_mapped d"
  "m_has_bounce_buffer (poll h d) = m_has_bounce_buffer d" "m_capabilities (poll h d) = m_capabilities d"
  "m_cursor_ptr (poll h d) = m_cursor_ptr d"
  by (simp_all add: poll_def)

lemma WriteReg_fields [simp]:
  "m_has_provider (WriteReg h i v d) = m_has_provider d" "m_mapped (WriteReg h i v d) = m_mapped d"
  "m_has_bounce_buffer (WriteReg h i v d) = m_has_bounce_buffer d" "m_capabilities (WriteReg h i v d) = m_capabilities d"
  "m_cursor_ptr (WriteReg h i v d) = m_cursor_ptr d"
  by (simp_all add: WriteReg_def)

lemma ReadReg_fields [simp]:
  "m_has_provider (snd (ReadReg h i d)) = m_has_provider d" "m_mapped (snd (ReadReg h i d)) = m_mapped d"
  "m_has_bounce_buffer (snd (ReadReg h i d)) = m_has_bounce_buffer d"
  "m_capabilities (snd (ReadReg h i d)) = m_capabilities d" "m_cursor_ptr (snd (ReadReg h i d)) = m_cursor_ptr d"
  by (simp_all add: ReadReg_def Let_def)

lemma Start_read_fields_fields [simp]:
  "m_has_provider (Start_read_fields h d) = m_has_provider d" "m_mapped (Start_read_fields h d) = m_mapped d"
  by (simp_all add: Start_read_fields_def split_def Let_def)

lemma svga_released_Cleanup: "svga_released (svga_Cleanup d)"
  by (simp add: svga_released_def svga_Cleanup_def)

text \<open>\<open>Start\<close> succeeds exactly for a provider that has both BARs and grants the mapping and the
  memory, and a device that answers with the SVGA II identification when it is asked for it; then the
  registers are mapped and the bounce buffer allocated.  When it fails, whichever step failed,
  everything it acquired is released.\<close>

theorem svga_Start_all_or_nothing:
  "fst (svga_Start h provider d) =
     (has_bar0 provider \<and> has_bar2 provider \<and> can_map provider \<and> can_malloc provider \<and>
      h_reg h (io_tick d + 3) (io_log d @ [(SVGA_REG_ENABLE, 0), (SVGA_REG_ID, SVGA_ID_2)]) SVGA_REG_ID = SVGA_ID_2) \<and>
   (if fst (svga_Start h provider d)
    then m_has_provider (snd (svga_Start h provider d)) \<and> m_mapped (snd (svga_Start h provider d)) \<and>
      m_has_bounce_buffer (snd (svga_Start h provider d)) \<and> m_cursor_ptr (snd (svga_Start h provider d)) = None
    else svga_released (snd (svga_Start h provider d)))"
  by (auto simp: svga_Start_def svga_released_Cleanup split_def Let_def numeral_3_eq_3)

text \<open>\<open>FIFOInit\<close> leaves an empty, well-formed FIFO without a reservation, whose data area is
  the FIFO memory less the registers, provided the host reports a FIFO size that is a multiple of
  four and larger than the registers.\<close>

theorem FIFOInit_empties:
  assumes "host_serving h" and "unat (m_fifo_size d) mod 4 = 0" and "1164 < unat (m_fifo_size d)"
    and "unat (m_fifo_size d) \<le> 4294901760"
  shows "fst (FIFOInit h d) \<and> fifo_ready (snd (FIFOInit h d)) \<and> fifo_queue (m_fifo (snd (FIFOInit h d))) = [] \<and>
    fifo_cap (m_fifo (snd (FIFOInit h d))) = unat (m_fifo_size d) div 4 - SVGA_FIFO_NUM_REGS"
  using FIFOInit_ready [OF assms] by blast

lemma FIFOInit_empties_witness:
  "let d = svga_new\<lparr>m_fifo_size := 0x200000\<rparr>; r = FIFOInit drain_host d in
    fst r \<and> fifo_ready (snd r) \<and> fifo_queue (m_fifo (snd r)) = [] \<and> fifo_cap (m_fifo (snd r)) = 523997"
  using FIFOInit_empties [OF drain_host_serving, of "svga_new\<lparr>m_fifo_size := 0x200000\<rparr>"] by (simp add: Let_def)

text \<open>the fence numbers order the insertions: the \<open>n\<close>-th \<open>InsertFence\<close> returns ticket \<open>n\<close>,
  never 0, and appends the fence command carrying it; the state is then ready for ticket \<open>n + 1\<close>,
  also across the wrap of the counter, which skips 0.\<close>

theorem InsertFence_issues_tickets:
  assumes "host_serving h" and "fifo_ready d" and "HasFIFOCap SVGA_FIFO_CAP_FENCE d" and "fifo_fits d 2"
    and "fence_count d n"
  shows "\<exists>e k. InsertFence h d = Some (fence_ticket n, e) \<and> fence_ticket n \<noteq> 0 \<and> fence_count e (Suc n) \<and>
    fifo_ready e \<and> fifo_queue (m_fifo e) = drop k (fifo_queue (m_fifo d)) @ [SVGA_CMD_FENCE, fence_ticket n]"
  using InsertFence_ticket [OF assms] fence_ticket_nonzero by blast

lemma InsertFence_issues_tickets_witness:
  "\<exists>e k. InsertFence drain_host ((small_svga 1256 1200 65)\<lparr>m_next_fence := 0\<rparr>) = Some (fence_ticket 4294967295, e) \<and>
    fence_ticket 4294967295 \<noteq> 0 \<and> fence_count e (Suc 4294967295) \<and> fifo_ready e \<and>
    fifo_queue (m_fifo e) = drop k (fifo_queue (m_fifo ((small_svga 1256 1200 65)\<lparr>m_next_fence := 0\<rparr>))) @
      [SVGA_CMD_FENCE, fence_ticket 4294967295]"
proof (rule InsertFence_issues_tickets [OF drain_host_serving])
  let ?d = "(small_svga 1256 1200 65)\<lparr>m_next_fence := 0\<rparr>"
  show "fifo_ready ?d" using small_svga_ready(1) [of 1256 1200 65] by (simp add: fifo_ready_def)
  show "fifo_fits ?d 2" using small_svga_ready(2) [of 1256 1200 65] by (simp add: fifo_fits_def)
  show "HasFIFOCap SVGA_FIFO_CAP_FENCE ?d"
    by (simp add: HasFIFOCap_def small_svga_def svga_new_def small_fifo_def)
  show "fence_count ?d 4294967295" by (simp add: fence_count_def fence_ticket_def)
qed

text \<open>When the host has processed the fences up to ticket \<open>a\<close>, \<open>HasFencePassed\<close> answers for
  ticket \<open>b\<close> exactly whether it is among them, as long as the two are less than 2147483647
  insertions apart; the counter may wrap in between.\<close>

theorem HasFencePassed_iff:
  assumes "HasFIFOCap SVGA_FIFO_CAP_FENCE d"
    and "m_fifo (poll h d) SVGA_FIFO_FENCE = fence_ticket a"
    and "a < b + 2147483647" and "b < a + 2147483647"
  shows "fst (HasFencePassed h (fence_ticket b) d) \<longleftrightarrow> b \<le> a"
  using assms fence_ticket_order [OF assms(3,4)]
  by (simp add: HasFencePassed_def HasFencePassedUnguarded_def Let_def fence_ticket_nonzero)

lemma HasFencePassed_iff_witness:
  "\<exists>d. fst (HasFencePassed drain_host (fence_ticket 4294967290) d) \<longleftrightarrow> 4294967290 \<le> (4294967300 :: nat)"
  by (rule exI, rule HasFencePassed_iff [where
      d = "svga_new\<lparr>m_fifo := (\<lambda>_. 0)(SVGA_FIFO_CAPABILITIES := 1, SVGA_FIFO_FENCE := fence_ticket 4294967300)\<rparr>"])
    (simp_all add: HasFIFOCap_def poll_def drain_host_def)

text \<open>\<open>SyncToFence\<close> returns when the host becomes idle in the end, and then the fence has
  passed or the host has reported, after a write to \<^verbatim>\<open>SYNC\<close>, that it is no longer busy.\<close>

theorem SyncToFence_terminates:
  assumes "host_settles h" and "fence \<noteq> 0" and "HasFIFOCap SVGA_FIFO_CAP_FENCE d"
  shows "\<exists>e. SyncToFence h fence d = Some e \<and>
    (0 \<le>s m_fifo e SVGA_FIFO_FENCE - fence \<or> reported_idle h e)"
  using assms by (rule SyncToFence_returns)

lemma drain_host_settles: "host_settles drain_host"
  by (simp add: host_settles_def drain_host_def)

lemma SyncToFence_terminates_witness:
  "\<exists>e. SyncToFence drain_host 5 (small_svga 1256 1200 1) = Some e \<and>
    (0 \<le>s m_fifo e SVGA_FIFO_FENCE - 5 \<or> reported_idle drain_host e)"
  by (rule SyncToFence_terminates [OF drain_host_settles])
    (simp_all add: HasFIFOCap_def small_svga_def svga_new_def small_fifo_def)

text \<open>\<open>SetMode\<close> first drains the FIFO, then programs width, height, depth and enable in this
  order, and records the pitch and frame buffer size the device reports for the new mode.\<close>

theorem SetMode_programs:
  assumes "host_settles h"
  shows "\<exists>e. SetMode h width height bpp d = Some e \<and> m_width e = width \<and> m_height e = height \<and>
    m_pitch e = h_reg h (io_tick e - 1) (io_log e) SVGA_REG_BYTES_PER_LINE \<and>
    m_fb_size e = h_reg h (io_tick e) (io_log e) SVGA_REG_FB_SIZE \<and>
    io_log e = io_log d @ [(SVGA_REG_SYNC, 1), (SVGA_REG_WIDTH, width), (SVGA_REG_HEIGHT, height),
      (SVGA_REG_BITS_PER_PIXEL, bpp), (SVGA_REG_ENABLE, 1)]"
  using assms by (rule SetMode_returns)

lemma SetMode_programs_witness:
  "\<exists>e. SetMode drain_host 1024 768 32 svga_new = Some e \<and> m_width e = 1024 \<and> m_height e = 768 \<and>
    m_pitch e = h_reg drain_host (io_tick e - 1) (io_log e) SVGA_REG_BYTES_PER_LINE \<and>
    m_fb_size e = h_reg drain_host (io_tick e) (io_log e) SVGA_REG_FB_SIZE \<and>
    io_log e = io_log svga_new @ [(SVGA_REG_SYNC, 1), (SVGA_REG_WIDTH, 1024), (SVGA_REG_HEIGHT, 768),
      (SVGA_REG_BITS_PER_PIXEL, 32), (SVGA_REG_ENABLE, 1)]"
  by (rule SetMode_programs [OF drain_host_settles])

text \<open>An alpha cursor definition through \<open>BeginDefineAlphaCursor\<close>, the caller's writes of the
  image and \<open>EndDefineAlphaCursor\<close> reaches the queue as one command with the image intact, when
  the 32-bit product \<^verbatim>\<open>width * height * bytespp\<close> is the size of the image.\<close>

theorem alpha_cursor_command:
  assumes "host_serving h" and "fifo_ready d" and "fifo_fits d (6 + length pixels)"
    and "unat (width * height * bytespp) = 4 * length pixels"
  shows "\<exists>p e. BeginDefineAlphaCursor h width height bytespp d = Some (Some p, e) \<and>
    (let (ok, f) = EndDefineAlphaCursor width height bytespp hotspot_x hotspot_y (put_dwords p 0 pixels e) in
     ok \<and> fifo_ready f \<and>
     (\<exists>k. fifo_queue (m_fifo f) = drop k (fifo_queue (m_fifo d)) @
        [SVGA_CMD_DEFINE_ALPHA_CURSOR, 1, hotspot_x, hotspot_y, width, height] @ pixels))"
  using assms by (rule alpha_cursor_emits)

lemma alpha_cursor_command_witness:
  "\<exists>p e. BeginDefineAlphaCursor drain_host 2 2 4 (small_svga 1256 1200 64) = Some (Some p, e) \<and>
    (let (ok, f) = EndDefineAlphaCursor 2 2 4 1 0 (put_dwords p 0 [9, 8, 7, 6] e) in
     ok \<and> fifo_ready f \<and>
     (\<exists>k. fifo_queue (m_fifo f) = drop k (fifo_queue (m_fifo (small_svga 1256 1200 64))) @
        [SVGA_CMD_DEFINE_ALPHA_CURSOR, 1, 1, 0, 2, 2] @ [9, 8, 7, 6]))"
  by (rule alpha_cursor_command [OF drain_host_serving]) (simp_all add: small_svga_ready fifo_fits_def)

text \<open>A masked video register update sends exactly the registers whose mask bits are set, in
  increasing order and with their values, in an escape command whose size field is that of the
  items: the population count that sizes the command agrees with the loop that fills it.\<close>

theorem VideoSetRegsWithMask_sends:
  assumes "host_serving h" and "fifo_ready d" and "regMask \<noteq> 0"
    and "fifo_fits d (5 + 2 * length (mask_items regArray regMask))"
  shows "emits d (VideoSetRegsWithMask h streamId regArray regMask d)
    (SVGA_CMD_ESCAPE # SVGA_ESCAPE_NSID_VMWARE # of_nat (8 + 8 * length (mask_items regArray regMask)) #
     SVGA_ESCAPE_VMWARE_VIDEO_SET_REGS # streamId #
     concat (map (\<lambda>(r, v). [r, v]) (mask_items regArray regMask)))"
  using assms by (rule VideoSetRegsWithMask_emits)

lemma mask_items_5: "mask_items f 5 = [(0, f 0), (2, f 2)]"
proof -
  have "[0..<32] = [0, 1, 2] @ [3..<32]" by (simp add: upt_rec)
  moreover have "filter (bit (5 :: u32)) [3..<32] = []" by (simp add: upt_rec)
  ultimately show ?thesis by (simp add: mask_items_def)
qed

lemma VideoSetRegsWithMask_sends_witness:
  "emits (small_svga 1256 1200 0) (VideoSetRegsWithMask drain_host 1 (\<lambda>i. of_nat (10 * i)) 5 (small_svga 1256 1200 0))
    [SVGA_CMD_ESCAPE, SVGA_ESCAPE_NSID_VMWARE, 24, SVGA_ESCAPE_VMWARE_VIDEO_SET_REGS, 1, 0, 0, 2, 20]"
  using VideoSetRegsWithMask_sends [OF drain_host_serving, of "small_svga 1256 1200 0" 5 "\<lambda>i. of_nat (10 * i)" 1]
  by (simp add: small_svga_ready fifo_fits_def mask_items_5)

end
