(* ===== verification/Svga3D.thy ===== *)
theory Svga3D
  imports SvgaDevice
begin

text \<open>
  The SVGA3D command writers (\<^verbatim>\<open>AC/SVGA3D.cpp\<close>) and the screen object commands
  (\<^verbatim>\<open>AC/SVGAScreen.cpp\<close>).  Each reserves room for a header and a structure, assigns the
  fields and commits; the \<open>Begin\<close> operations leave the variable part to the caller, who
  writes through the returned pointer and then calls \<open>FIFOCommitAll\<close>.

  Structures are sequences of dwords; \<^verbatim>\<open>float\<close> values, which the driver only copies, are kept
  as their bit patterns.
\<close>

section \<open>Structures\<close>

datatype image_id = SVGA3dSurfaceImageId u32 u32 u32
datatype guest_ptr = SVGAGuestPtr u32 u32
datatype guest_image = SVGA3dGuestImage guest_ptr u32
datatype rect3d = SVGA3dRect u32 u32 u32 u32
datatype box3d = SVGA3dBox u32 u32 u32 u32 u32 u32
datatype signed_rect = SVGASignedRect u32 u32 u32 u32
datatype signed_point = SVGASignedPoint u32 u32

fun image_dwords :: "image_id \<Rightarrow> u32 list" where
  "image_dwords (SVGA3dSurfaceImageId sid face mipmap) = [sid, face, mipmap]"

fun guest_ptr_dwords :: "guest_ptr \<Rightarrow> u32 list" where
  "guest_ptr_dwords (SVGAGuestPtr gmrId off) = [gmrId, off]"

fun guest_image_dwords :: "guest_image \<Rightarrow> u32 list" where
  "guest_image_dwords (SVGA3dGuestImage ptr pitch) = guest_ptr_dwords ptr @ [pitch]"

fun rect_dwords :: "rect3d \<Rightarrow> u32 list" where
  "rect_dwords (SVGA3dRect x y w h) = [x, y, w, h]"

fun box_dwords :: "box3d \<Rightarrow> u32 list" where
  "box_dwords (SVGA3dBox x y z w h d) = [x, y, z, w, h, d]"

fun signed_rect_dwords :: "signed_rect \<Rightarrow> u32 list" where
  "signed_rect_dwords (SVGASignedRect l t r b) = [l, t, r, b]"

fun signed_point_dwords :: "signed_point \<Rightarrow> u32 list" where
  "signed_point_dwords (SVGASignedPoint x y) = [x, y]"

lemma struct_lengths [simp]:
  "length (image_dwords i) = 3" "length (guest_ptr_dwords p) = 2" "length (guest_image_dwords g) = 3"
  "length (rect_dwords r) = 4" "length (box_dwords b) = 6" "length (signed_rect_dwords s) = 4"
  "length (signed_point_dwords q) = 2"
proof -
  show ptr: "length (guest_ptr_dwords p) = 2" for p by (cases p) simp
  show "length (image_dwords i) = 3" by (cases i) simp
  show "length (guest_image_dwords g) = 3" by (cases g) (simp add: ptr)
  show "length (rect_dwords r) = 4" by (cases r) simp
  show "length (box_dwords b) = 6" by (cases b) simp
  show "length (signed_rect_dwords s) = 4" by (cases s) simp
  show "length (signed_point_dwords q) = 2" by (cases q) simp
qed

text \<open>The assignment of the field at dword \<open>i\<close>, a scalar or a structure.\<close>

definition field :: "nat \<Rightarrow> u32 list \<Rightarrow> (nat \<times> u32) list" where
  "field i vs = zip [i..<i + length vs] vs"

section \<open>SVGA3D\<close>

abbreviation (input) SVGA3D_HWVERSION_WS65_B1 :: u32 where "SVGA3D_HWVERSION_WS65_B1 \<equiv> 0x20000"

text \<open>\<open>Init\<close>: \<open>None\<close> for a null device; the result and \<^verbatim>\<open>HWVersion\<close>.\<close>

definition SVGA3D_Init :: "svga option \<Rightarrow> bool \<times> u32" where
  "SVGA3D_Init device =
    (case device of
       None \<Rightarrow> (False, 0)
     | Some d \<Rightarrow>
         if \<not> HasCapability SVGA_CAP_EXTENDED_FIFO d then (False, 0)
         else case get3DHWVersion True d of
             None \<Rightarrow> (False, 0)
           | Some v \<Rightarrow> (v \<noteq> 0 \<and> \<not> v < SVGA3D_HWVERSION_WS65_B1, v))"

definition SVGA3D_FIFOReserve :: "host \<Rightarrow> u32 \<Rightarrow> nat \<Rightarrow> svga \<Rightarrow> (fifo_ptr option \<times> svga) option" where
  "SVGA3D_FIFOReserve h cmd cmdSize d = do {
     (header, d) \<leftarrow> FIFOReserve h (size_add 8 cmdSize) d;
     case header of
       None \<Rightarrow> Some (None, d)
     | Some header \<Rightarrow> Some (Some (ptr_add header 2), puts header [(0, cmd), (1, of_nat cmdSize)] d)
   }"

text \<open>The pattern of the \<open>Begin\<close> operations: initialise, and return a pointer into the command.\<close>

definition begin_cmd :: "(fifo_ptr option \<times> svga) option \<Rightarrow> (fifo_ptr \<Rightarrow> svga \<Rightarrow> svga) \<Rightarrow> (fifo_ptr \<Rightarrow> 'p) \<Rightarrow>
    ('p option \<times> svga) option" where
  "begin_cmd reserved init result = do {
     (cmd, d) \<leftarrow> reserved;
     case cmd of
       None \<Rightarrow> Some (None, d)
     | Some cmd \<Rightarrow> Some (Some (result cmd), init cmd d)
   }"

abbreviation (input) SVGA_3D_CMD_SURFACE_DEFINE :: u32 where "SVGA_3D_CMD_SURFACE_DEFINE \<equiv> 1040"
abbreviation (input) SVGA_3D_CMD_SURFACE_DESTROY :: u32 where "SVGA_3D_CMD_SURFACE_DESTROY \<equiv> 1041"
abbreviation (input) SVGA_3D_CMD_SURFACE_COPY :: u32 where "SVGA_3D_CMD_SURFACE_COPY \<equiv> 1042"
abbreviation (input) SVGA_3D_CMD_SURFACE_STRETCHBLT :: u32 where "SVGA_3D_CMD_SURFACE_STRETCHBLT \<equiv> 1043"
abbreviation (input) SVGA_3D_CMD_SURFACE_DMA :: u32 where "SVGA_3D_CMD_SURFACE_DMA \<equiv> 1044"
abbreviation (input) SVGA_3D_CMD_CONTEXT_DEFINE :: u32 where "SVGA_3D_CMD_CONTEXT_DEFINE \<equiv> 1045"
abbreviation (input) SVGA_3D_CMD_CONTEXT_DESTROY :: u32 where "SVGA_3D_CMD_CONTEXT_DESTROY \<equiv> 1046"
abbreviation (input) SVGA_3D_CMD_SETTRANSFORM :: u32 where "SVGA_3D_CMD_SETTRANSFORM \<equiv> 1047"
abbreviation (input) SVGA_3D_CMD_SETZRANGE :: u32 where "SVGA_3D_CMD_SETZRANGE \<equiv> 1048"
abbreviation (input) SVGA_3D_CMD_SETRENDERSTATE :: u32 where "SVGA_3D_CMD_SETRENDERSTATE \<equiv> 1049"
abbreviation (input) SVGA_3D_CMD_SETRENDERTARGET :: u32 where "SVGA_3D_CMD_SETRENDERTARGET \<equiv> 1050"
abbreviation (input) SVGA_3D_CMD_SETTEXTURESTATE :: u32 where "SVGA_3D_CMD_SETTEXTURESTATE \<equiv> 1051"
abbreviation (input) SVGA_3D_CMD_SETMATERIAL :: u32 where "SVGA_3D_CMD_SETMATERIAL \<equiv> 1052"
abbreviation (input) SVGA_3D_CMD_SETLIGHTDATA :: u32 where "SVGA_3D_CMD_SETLIGHTDATA \<equiv> 1053"
abbreviation (input) SVGA_3D_CMD_SETLIGHTENABLED :: u32 where "SVGA_3D_CMD_SETLIGHTENABLED \<equiv> 1054"
abbreviation (input) SVGA_3D_CMD_SETVIEWPORT :: u32 where "SVGA_3D_CMD_SETVIEWPORT \<equiv> 1055"
abbreviation (input) SVGA_3D_CMD_SETCLIPPLANE :: u32 where "SVGA_3D_CMD_SETCLIPPLANE \<equiv> 1056"
abbreviation (input) SVGA_3D_CMD_CLEAR :: u32 where "SVGA_3D_CMD_CLEAR \<equiv> 1057"
abbreviation (input) SVGA_3D_CMD_PRESENT :: u32 where "SVGA_3D_CMD_PRESENT \<equiv> 1058"
abbreviation (input) SVGA_3D_CMD_SHADER_DEFINE :: u32 where "SVGA_3D_CMD_SHADER_DEFINE \<equiv> 1059"
abbreviation (input) SVGA_3D_CMD_SHADER_DESTROY :: u32 where "SVGA_3D_CMD_SHADER_DESTROY \<equiv> 1060"
abbreviation (input) SVGA_3D_CMD_SET_SHADER :: u32 where "SVGA_3D_CMD_SET_SHADER \<equiv> 1061"
abbreviation (input) SVGA_3D_CMD_SET_SHADER_CONST :: u32 where "SVGA_3D_CMD_SET_SHADER_CONST \<equiv> 1062"
abbreviation (input) SVGA_3D_CMD_DRAW_PRIMITIVES :: u32 where "SVGA_3D_CMD_DRAW_PRIMITIVES \<equiv> 1063"
abbreviation (input) SVGA_3D_CMD_SETSCISSORRECT :: u32 where "SVGA_3D_CMD_SETSCISSORRECT \<equiv> 1064"
abbreviation (input) SVGA_3D_CMD_BEGIN_QUERY :: u32 where "SVGA_3D_CMD_BEGIN_QUERY \<equiv> 1065"
abbreviation (input) SVGA_3D_CMD_END_QUERY :: u32 where "SVGA_3D_CMD_END_QUERY \<equiv> 1066"
abbreviation (input) SVGA_3D_CMD_WAIT_FOR_QUERY :: u32 where "SVGA_3D_CMD_WAIT_FOR_QUERY \<equiv> 1067"
abbreviation (input) SVGA_3D_CMD_PRESENT_READBACK :: u32 where "SVGA_3D_CMD_PRESENT_READBACK \<equiv> 1068"
abbreviation (input) SVGA_3D_CMD_BLIT_SURFACE_TO_SCREEN :: u32 where "SVGA_3D_CMD_BLIT_SURFACE_TO_SCREEN \<equiv> 1069"

definition DestroySurface :: "host \<Rightarrow> u32 \<Rightarrow> svga \<Rightarrow> (bool \<times> svga) option" where
  "DestroySurface h sid d =
    commit_cmd (SVGA3D_FIFOReserve h SVGA_3D_CMD_SURFACE_DESTROY 4 d)
      (\<lambda>cmd. puts cmd (field 0 [sid]))"

definition DefineContext :: "host \<Rightarrow> u32 \<Rightarrow> svga \<Rightarrow> (bool \<times> svga) option" where
  "DefineContext h cid d =
    commit_cmd (SVGA3D_FIFOReserve h SVGA_3D_CMD_CONTEXT_DEFINE 4 d)
      (\<lambda>cmd. puts cmd (field 0 [cid]))"

definition DestroyContext :: "host \<Rightarrow> u32 \<Rightarrow> svga \<Rightarrow> (bool \<times> svga) option" where
  "DestroyContext h cid d =
    commit_cmd (SVGA3D_FIFOReserve h SVGA_3D_CMD_CONTEXT_DESTROY 4 d)
      (\<lambda>cmd. puts cmd (field 0 [cid]))"

definition SetRenderTarget :: "host \<Rightarrow> u32 \<Rightarrow> u32 \<Rightarrow> image_id \<Rightarrow> svga \<Rightarrow> (bool \<times> svga) option" where
  "SetRenderTarget h cid type target d =
    commit_cmd (SVGA3D_FIFOReserve h SVGA_3D_CMD_SETRENDERTARGET 20 d)
      (\<lambda>cmd. puts cmd (field 0 [cid] @ field 1 [type] @ field 2 (image_dwords target)))"

definition SetTransform :: "host \<Rightarrow> u32 \<Rightarrow> u32 \<Rightarrow> u32 list \<Rightarrow> svga \<Rightarrow> (bool \<times> svga) option" where
  "SetTransform h cid type matrix d =
    commit_cmd (SVGA3D_FIFOReserve h SVGA_3D_CMD_SETTRANSFORM 72 d)
      (\<lambda>cmd. puts cmd (field 0 [cid] @ field 1 [type] @ field 2 (take 16 matrix)))"

definition SetMaterial :: "host \<Rightarrow> u32 \<Rightarrow> u32 \<Rightarrow> u32 list \<Rightarrow> svga \<Rightarrow> (bool \<times> svga) option" where
  "SetMaterial h cid face material d =
    commit_cmd (SVGA3D_FIFOReserve h SVGA_3D_CMD_SETMATERIAL 76 d)
      (\<lambda>cmd. puts cmd (field 0 [cid] @ field 1 [face] @ field 2 (take 17 material)))"

definition SetLightEnabled :: "host \<Rightarrow> u32 \<Rightarrow> u32 \<Rightarrow> bool \<Rightarrow> svga \<Rightarrow> (bool \<times> svga) option" where
  "SetLightEnabled h cid index enabled d =
    commit_cmd (SVGA3D_FIFOReserve h SVGA_3D_CMD_SETLIGHTENABLED 12 d)
      (\<lambda>cmd. puts cmd (field 0 [cid] @ field 1 [index] @ field 2 [if enabled then 1 else 0]))"

definition SetLightData :: "host \<Rightarrow> u32 \<Rightarrow> u32 \<Rightarrow> u32 list \<Rightarrow> svga \<Rightarrow> (bool \<times> svga) option" where
  "SetLightData h cid index data d =
    commit_cmd (SVGA3D_FIFOReserve h SVGA_3D_CMD_SETLIGHTDATA 124 d)
      (\<lambda>cmd. puts cmd (field 0 [cid] @ field 1 [index] @ field 2 (take 29 data)))"

definition DestroyShader :: "host \<Rightarrow> u32 \<Rightarrow> u32 \<Rightarrow> u32 \<Rightarrow> svga \<Rightarrow> (bool \<times> svga) option" where
  "DestroyShader h cid shid type d =
    commit_cmd (SVGA3D_FIFOReserve h SVGA_3D_CMD_SHADER_DESTROY 12 d)
      (\<lambda>cmd. puts cmd (field 0 [cid] @ field 1 [shid] @ field 2 [type]))"

definition SetShader :: "host \<Rightarrow> u32 \<Rightarrow> u32 \<Rightarrow> u32 \<Rightarrow> svga \<Rightarrow> (bool \<times> svga) option" where
  "SetShader h cid type shid d =
    commit_cmd (SVGA3D_FIFOReserve h SVGA_3D_CMD_SET_SHADER 12 d)
      (\<lambda>cmd. puts cmd (field 0 [cid] @ field 1 [type] @ field 2 [shid]))"

definition SurfaceStretchBlt :: "host \<Rightarrow> image_id \<Rightarrow> image_id \<Rightarrow> box3d \<Rightarrow> box3d \<Rightarrow> u32 \<Rightarrow> svga \<Rightarrow> (bool \<times> svga) option" where
  "SurfaceStretchBlt h src dest boxSrc boxDest mode d =
    commit_cmd (SVGA3D_FIFOReserve h SVGA_3D_CMD_SURFACE_STRETCHBLT 76 d)
      (\<lambda>cmd. puts cmd (field 0 (image_dwords src) @ field 3 (image_dwords dest) @ field 6 (box_dwords boxSrc) @ field 12 (box_dwords boxDest) @ field 18 [mode]))"

definition SetViewport :: "host \<Rightarrow> u32 \<Rightarrow> rect3d \<Rightarrow> svga \<Rightarrow> (bool \<times> svga) option" where
  "SetViewport h cid rect d =
    commit_cmd (SVGA3D_FIFOReserve h SVGA_3D_CMD_SETVIEWPORT 20 d)
      (\<lambda>cmd. puts cmd (field 0 [cid] @ field 1 (rect_dwords rect)))"

definition SetScissorRect :: "host \<Rightarrow> u32 \<Rightarrow> rect3d \<Rightarrow> svga \<Rightarrow> (bool \<times> svga) option" where
  "SetScissorRect h cid rect d =
    commit_cmd (SVGA3D_FIFOReserve h SVGA_3D_CMD_SETSCISSORRECT 20 d)
      (\<lambda>cmd. puts cmd (field 0 [cid] @ field 1 (rect_dwords rect)))"

definition SetZRange :: "host \<Rightarrow> u32 \<Rightarrow> u32 \<Rightarrow> u32 \<Rightarrow> svga \<Rightarrow> (bool \<times> svga) option" where
  "SetZRange h cid zMin zMax d =
    commit_cmd (SVGA3D_FIFOReserve h SVGA_3D_CMD_SETZRANGE 12 d)
      (\<lambda>cmd. puts cmd (field 0 [cid] @ field 1 [zMin] @ field 2 [zMax]))"

definition SetClipPlane :: "host \<Rightarrow> u32 \<Rightarrow> u32 \<Rightarrow> u32 list \<Rightarrow> svga \<Rightarrow> (bool \<times> svga) option" where
  "SetClipPlane h cid index plane d =
    commit_cmd (SVGA3D_FIFOReserve h SVGA_3D_CMD_SETCLIPPLANE 24 d)
      (\<lambda>cmd. puts cmd (field 0 [cid] @ field 1 [index] @ field 2 (take 4 plane)))"

definition BeginQuery :: "host \<Rightarrow> u32 \<Rightarrow> u32 \<Rightarrow> svga \<Rightarrow> (bool \<times> svga) option" where
  "BeginQuery h cid qtype d =
    commit_cmd (SVGA3D_FIFOReserve h SVGA_3D_CMD_BEGIN_QUERY 8 d)
      (\<lambda>cmd. puts cmd (field 0 [cid] @ field 1 [qtype]))"

definition EndQuery :: "host \<Rightarrow> u32 \<Rightarrow> u32 \<Rightarrow> u32 \<Rightarrow> u32 \<Rightarrow> svga \<Rightarrow> (bool \<times> svga) option" where
  "EndQuery h cid qtype gmrid offset_in_gmr d =
    commit_cmd (SVGA3D_FIFOReserve h SVGA_3D_CMD_END_QUERY 16 d)
      (\<lambda>cmd. puts cmd (field 0 [cid] @ field 1 [qtype] @ field 2 [gmrid] @ field 3 [offset_in_gmr]))"

definition WaitForQuery :: "host \<Rightarrow> u32 \<Rightarrow> u32 \<Rightarrow> u32 \<Rightarrow> u32 \<Rightarrow> svga \<Rightarrow> (bool \<times> svga) option" where
  "WaitForQuery h cid qtype gmrid offset_in_gmr d =
    commit_cmd (SVGA3D_FIFOReserve h SVGA_3D_CMD_WAIT_FOR_QUERY 16 d)
      (\<lambda>cmd. puts cmd (field 0 [cid] @ field 1 [qtype] @ field 2 [gmrid] @ field 3 [offset_in_gmr]))"

text \<open>
  \<open>DefineShader\<close> refuses a length that is not a multiple of four; \<open>SetShaderConst\<close> finds an unknown
  constant type only after it has reserved the command, and then gives the room back with
  \<open>FIFOCommit(0)\<close>.
\<close>

definition DefineShader ::
  "host \<Rightarrow> u32 \<Rightarrow> u32 \<Rightarrow> u32 \<Rightarrow> u32 list \<Rightarrow> nat \<Rightarrow> svga \<Rightarrow> (ioreturn \<times> svga) option" where
  "DefineShader h cid shid type bytecode bytecodeLen d =
    (if bytecodeLen mod 4 \<noteq> 0 then Some (kIOReturnBadArgument, d)
     else do {
       (cmd, d) \<leftarrow> SVGA3D_FIFOReserve h SVGA_3D_CMD_SHADER_DEFINE (size_add 12 bytecodeLen) d;
       case cmd of
         None \<Rightarrow> Some (kIOReturnNoMemory, d)
       | Some cmd \<Rightarrow> Some (kIOReturnSuccess, FIFOCommitAll (puts cmd
           (field 0 [cid] @ field 1 [shid] @ field 2 [type] @ field 3 (take (bytecodeLen div 4) bytecode)) d))
     })"

abbreviation (input) SVGA3D_CONST_TYPE_FLOAT :: u32 where "SVGA3D_CONST_TYPE_FLOAT \<equiv> 0"
abbreviation (input) SVGA3D_CONST_TYPE_INT :: u32 where "SVGA3D_CONST_TYPE_INT \<equiv> 1"
abbreviation (input) SVGA3D_CONST_TYPE_BOOL :: u32 where "SVGA3D_CONST_TYPE_BOOL \<equiv> 2"

definition SetShaderConst ::
  "host \<Rightarrow> u32 \<Rightarrow> u32 \<Rightarrow> u32 \<Rightarrow> u32 \<Rightarrow> u32 list \<Rightarrow> svga \<Rightarrow> (ioreturn \<times> svga) option" where
  "SetShaderConst h cid reg type ctype val d = do {
     (cmd, d) \<leftarrow> SVGA3D_FIFOReserve h SVGA_3D_CMD_SET_SHADER_CONST 32 d;
     case cmd of
       None \<Rightarrow> Some (kIOReturnNoMemory, d)
     | Some cmd \<Rightarrow>
         let d = puts cmd (field 0 [cid] @ field 1 [reg] @ field 2 [type] @ field 3 [ctype]) d
         in if ctype = SVGA3D_CONST_TYPE_FLOAT \<or> ctype = SVGA3D_CONST_TYPE_INT
            then Some (kIOReturnSuccess, FIFOCommitAll (puts cmd (field 4 (take 4 val)) d))
            else if ctype = SVGA3D_CONST_TYPE_BOOL
            then Some (kIOReturnSuccess, FIFOCommitAll (puts cmd (field 4 [0, 0, 0, 0] @ field 4 [hd val]) d))
            else Some (kIOReturnBadArgument, FIFOCommit 0 d)
   }"

text \<open>The commands with a variable part.  The counts and the sizes computed from them are \<^verbatim>\<open>size_t\<close>.\<close>

definition size_mult :: "nat \<Rightarrow> nat \<Rightarrow> nat" where
  "size_mult a b = a * b mod 2 ^ 64"

text \<open>\<^verbatim>\<open>bzero\<close> of \<open>n\<close> dwords from dword \<open>i\<close>.\<close>

definition zeros :: "nat \<Rightarrow> nat \<Rightarrow> (nat \<times> u32) list" where
  "zeros i n = field i (replicate n 0)"

definition BeginDefineSurface ::
  "host \<Rightarrow> u32 \<Rightarrow> u32 \<Rightarrow> u32 \<Rightarrow> nat \<Rightarrow> svga \<Rightarrow> ((fifo_ptr \<times> fifo_ptr) option \<times> svga) option" where
  "BeginDefineSurface h sid flags format numMipSizes d =
    begin_cmd (SVGA3D_FIFOReserve h SVGA_3D_CMD_SURFACE_DEFINE (size_add 36 (size_mult 12 numMipSizes)) d)
      (\<lambda>cmd. puts cmd (field 0 [sid] @ field 1 [flags] @ field 2 [format] @ zeros 3 6 @ zeros 9 (3 * numMipSizes)))
      (\<lambda>cmd. (ptr_add cmd 3, ptr_add cmd 9))"

definition BeginSurfaceDMAwithSuffix ::
  "host \<Rightarrow> guest_image \<Rightarrow> image_id \<Rightarrow> u32 \<Rightarrow> nat \<Rightarrow> u32 \<Rightarrow> u32 \<Rightarrow> svga \<Rightarrow> (fifo_ptr option \<times> svga) option" where
  "BeginSurfaceDMAwithSuffix h guestImage hostImage transfer numBoxes maximumOffset flags d =
    begin_cmd (SVGA3D_FIFOReserve h SVGA_3D_CMD_SURFACE_DMA (size_add (size_add 28 (size_mult 36 numBoxes)) 12) d)
      (\<lambda>cmd. puts cmd (field 0 (guest_image_dwords guestImage) @ field 3 (image_dwords hostImage) @ field 6 [transfer] @
         field (7 + 9 * numBoxes) [12] @ field (8 + 9 * numBoxes) [maximumOffset] @ field (9 + 9 * numBoxes) [flags]))
      (\<lambda>cmd. ptr_add cmd 7)"

definition BeginDrawPrimitives ::
  "host \<Rightarrow> u32 \<Rightarrow> nat \<Rightarrow> nat \<Rightarrow> svga \<Rightarrow> ((fifo_ptr \<times> fifo_ptr) option \<times> svga) option" where
  "BeginDrawPrimitives h cid numVertexDecls numRanges d =
    begin_cmd (SVGA3D_FIFOReserve h SVGA_3D_CMD_DRAW_PRIMITIVES
        (size_add (size_add 12 (size_mult 36 numVertexDecls)) (size_mult 28 numRanges)) d)
      (\<lambda>cmd. puts cmd (field 0 [cid] @ field 1 [of_nat numVertexDecls] @ field 2 [of_nat numRanges]))
      (\<lambda>cmd. (ptr_add cmd 3, ptr_add cmd (3 + 9 * numVertexDecls)))"

definition BeginPresentReadback :: "host \<Rightarrow> nat \<Rightarrow> svga \<Rightarrow> (fifo_ptr option \<times> svga) option" where
  "BeginPresentReadback h numRects d =
    begin_cmd (SVGA3D_FIFOReserve h SVGA_3D_CMD_PRESENT_READBACK (size_mult 16 numRects) d)
      (\<lambda>cmd d. d) (\<lambda>cmd. cmd)"

definition BeginSurfaceDMA ::
  "host \<Rightarrow> guest_image \<Rightarrow> image_id \<Rightarrow> u32 \<Rightarrow> nat \<Rightarrow> svga \<Rightarrow> (fifo_ptr option \<times> svga) option" where
  "BeginSurfaceDMA h guestImage hostImage transfer numBoxes d =
    begin_cmd (SVGA3D_FIFOReserve h SVGA_3D_CMD_SURFACE_DMA (size_add 28 (size_mult 36 numBoxes)) d)
      (\<lambda>cmd. puts cmd (field 0 (guest_image_dwords guestImage) @ field 3 (image_dwords hostImage) @ field 6 [transfer] @ zeros 7 (9 * numBoxes)))
      (\<lambda>cmd. ptr_add cmd 7)"

definition BeginPresent ::
  "host \<Rightarrow> u32 \<Rightarrow> nat \<Rightarrow> svga \<Rightarrow> (fifo_ptr option \<times> svga) option" where
  "BeginPresent h sid numRects d =
    begin_cmd (SVGA3D_FIFOReserve h SVGA_3D_CMD_PRESENT (size_add 4 (size_mult 24 numRects)) d)
      (\<lambda>cmd. puts cmd (field 0 [sid]))
      (\<lambda>cmd. ptr_add cmd 1)"

definition BeginClear ::
  "host \<Rightarrow> u32 \<Rightarrow> u32 \<Rightarrow> u32 \<Rightarrow> u32 \<Rightarrow> u32 \<Rightarrow> nat \<Rightarrow> svga \<Rightarrow> (fifo_ptr option \<times> svga) option" where
  "BeginClear h cid flags color depth stencil numRects d =
    begin_cmd (SVGA3D_FIFOReserve h SVGA_3D_CMD_CLEAR (size_add 20 (size_mult 16 numRects)) d)
      (\<lambda>cmd. puts cmd (field 0 [cid] @ field 1 [flags] @ field 2 [color] @ field 3 [depth] @ field 4 [stencil]))
      (\<lambda>cmd. ptr_add cmd 5)"

definition BeginSurfaceCopy ::
  "host \<Rightarrow> image_id \<Rightarrow> image_id \<Rightarrow> nat \<Rightarrow> svga \<Rightarrow> (fifo_ptr option \<times> svga) option" where
  "BeginSurfaceCopy h src dest numBoxes d =
    begin_cmd (SVGA3D_FIFOReserve h SVGA_3D_CMD_SURFACE_COPY (size_add 24 (size_mult 36 numBoxes)) d)
      (\<lambda>cmd. puts cmd (field 0 (image_dwords src) @ field 3 (image_dwords dest) @ zeros 6 (9 * numBoxes)))
      (\<lambda>cmd. ptr_add cmd 6)"

definition BeginSetTextureState ::
  "host \<Rightarrow> u32 \<Rightarrow> nat \<Rightarrow> svga \<Rightarrow> (fifo_ptr option \<times> svga) option" where
  "BeginSetTextureState h cid numStates d =
    begin_cmd (SVGA3D_FIFOReserve h SVGA_3D_CMD_SETTEXTURESTATE (size_add 4 (size_mult 12 numStates)) d)
      (\<lambda>cmd. puts cmd (field 0 [cid]))
      (\<lambda>cmd. ptr_add cmd 1)"

definition BeginSetRenderState ::
  "host \<Rightarrow> u32 \<Rightarrow> nat \<Rightarrow> svga \<Rightarrow> (fifo_ptr option \<times> svga) option" where
  "BeginSetRenderState h cid numStates d =
    begin_cmd (SVGA3D_FIFOReserve h SVGA_3D_CMD_SETRENDERSTATE (size_add 4 (size_mult 8 numStates)) d)
      (\<lambda>cmd. puts cmd (field 0 [cid]))
      (\<lambda>cmd. ptr_add cmd 1)"

definition BeginBlitSurfaceToScreen ::
  "host \<Rightarrow> image_id \<Rightarrow> signed_rect \<Rightarrow> u32 \<Rightarrow> signed_rect \<Rightarrow> nat \<Rightarrow> svga \<Rightarrow> (fifo_ptr option \<times> svga) option" where
  "BeginBlitSurfaceToScreen h srcImage srcRect destScreenId destRect numClipRects d =
    begin_cmd (SVGA3D_FIFOReserve h SVGA_3D_CMD_BLIT_SURFACE_TO_SCREEN (size_add 48 (size_mult 16 numClipRects)) d)
      (\<lambda>cmd. puts cmd (field 0 (image_dwords srcImage) @ field 3 (signed_rect_dwords srcRect) @ field 7 [destScreenId] @ field 8 (signed_rect_dwords destRect)))
      (\<lambda>cmd. ptr_add cmd 12)"

section \<open>Screen objects\<close>

abbreviation (input) SVGA_CMD_DEFINE_SCREEN :: u32 where "SVGA_CMD_DEFINE_SCREEN \<equiv> 34"
abbreviation (input) SVGA_CMD_DESTROY_SCREEN :: u32 where "SVGA_CMD_DESTROY_SCREEN \<equiv> 35"
abbreviation (input) SVGA_CMD_DEFINE_GMRFB :: u32 where "SVGA_CMD_DEFINE_GMRFB \<equiv> 36"
abbreviation (input) SVGA_CMD_BLIT_GMRFB_TO_SCREEN :: u32 where "SVGA_CMD_BLIT_GMRFB_TO_SCREEN \<equiv> 37"
abbreviation (input) SVGA_CMD_BLIT_SCREEN_TO_GMRFB :: u32 where "SVGA_CMD_BLIT_SCREEN_TO_GMRFB \<equiv> 38"
abbreviation (input) SVGA_CMD_ANNOTATION_FILL :: u32 where "SVGA_CMD_ANNOTATION_FILL \<equiv> 39"
abbreviation (input) SVGA_CMD_ANNOTATION_COPY :: u32 where "SVGA_CMD_ANNOTATION_COPY \<equiv> 40"

definition SVGAScreen_Init :: "svga option \<Rightarrow> bool" where
  "SVGAScreen_Init device =
    (case device of None \<Rightarrow> False
     | Some d \<Rightarrow> HasFIFOCap (SVGA_FIFO_CAP_SCREEN_OBJECT OR SVGA_FIFO_CAP_SCREEN_OBJECT_2) d)"

text \<open>\<open>screen\<close> is the screen object read as dwords; its first dword is \<^verbatim>\<open>structSize\<close>.\<close>

definition DefineScreen :: "host \<Rightarrow> u32 list \<Rightarrow> svga \<Rightarrow> (bool \<times> svga) option" where
  "DefineScreen h screen d =
    commit_cmd (FIFOReserveCmd h SVGA_CMD_DEFINE_SCREEN (unat (hd screen)) d)
      (\<lambda>cmd. puts cmd (field 0 (take (unat (hd screen) div 4) screen)))"

definition DestroyScreen :: "host \<Rightarrow> u32 \<Rightarrow> svga \<Rightarrow> (bool \<times> svga) option" where
  "DestroyScreen h screenId d =
    commit_cmd (FIFOReserveCmd h SVGA_CMD_DESTROY_SCREEN 4 d) (\<lambda>cmd. puts cmd (field 0 [screenId]))"

definition DefineGMRFB :: "host \<Rightarrow> guest_ptr \<Rightarrow> u32 \<Rightarrow> u32 \<Rightarrow> svga \<Rightarrow> (bool \<times> svga) option" where
  "DefineGMRFB h ptr bytesPerLine format d =
    commit_cmd (FIFOReserveCmd h SVGA_CMD_DEFINE_GMRFB 16 d)
      (\<lambda>cmd. puts cmd (field 0 (guest_ptr_dwords ptr) @ field 2 [bytesPerLine] @ field 3 [format]))"

definition BlitFromGMRFB :: "host \<Rightarrow> signed_point \<Rightarrow> signed_rect \<Rightarrow> u32 \<Rightarrow> svga \<Rightarrow> (bool \<times> svga) option" where
  "BlitFromGMRFB h srcOrigin destRect destScreen d =
    commit_cmd (FIFOReserveCmd h SVGA_CMD_BLIT_GMRFB_TO_SCREEN 28 d)
      (\<lambda>cmd. puts cmd (field 0 (signed_point_dwords srcOrigin) @ field 2 (signed_rect_dwords destRect) @ field 6 [destScreen]))"

definition BlitToGMRFB :: "host \<Rightarrow> signed_point \<Rightarrow> signed_rect \<Rightarrow> u32 \<Rightarrow> svga \<Rightarrow> (bool \<times> svga) option" where
  "BlitToGMRFB h destOrigin srcRect srcScreen d =
    commit_cmd (FIFOReserveCmd h SVGA_CMD_BLIT_SCREEN_TO_GMRFB 28 d)
      (\<lambda>cmd. puts cmd (field 0 (signed_point_dwords destOrigin) @ field 2 (signed_rect_dwords srcRect) @ field 6 [srcScreen]))"

definition AnnotateFill :: "host \<Rightarrow> u32 \<Rightarrow> svga \<Rightarrow> (bool \<times> svga) option" where
  "AnnotateFill h color d =
    commit_cmd (FIFOReserveCmd h SVGA_CMD_ANNOTATION_FILL 4 d) (\<lambda>cmd. puts cmd (field 0 [color]))"

definition AnnotateCopy :: "host \<Rightarrow> signed_point \<Rightarrow> u32 \<Rightarrow> svga \<Rightarrow> (bool \<times> svga) option" where
  "AnnotateCopy h srcOrigin srcScreen d =
    commit_cmd (FIFOReserveCmd h SVGA_CMD_ANNOTATION_COPY 12 d)
      (\<lambda>cmd. puts cmd (field 0 (signed_point_dwords srcOrigin) @ field 2 [srcScreen]))"

section \<open>Commands reach the queue\<close>

lemma length_field [simp]: "length (field i vs) = length vs"
  by (simp add: field_def)

lemma map_snd_field [simp]: "map snd (field i vs) = vs"
  by (simp add: field_def)

lemma field_seq_append [simp]: "field_seq i (as @ bs) \<longleftrightarrow> field_seq i as \<and> field_seq (i + length as) bs"
  by (induction i as rule: field_seq.induct) auto

lemma field_seq_field [simp]: "field_seq i (field j vs) \<longleftrightarrow> vs = [] \<or> i = j"
proof -
  have "field_seq i (field i vs)" for i
  proof (induction vs arbitrary: i)
    case (Cons v vs)
    then show ?case using Cons [of "Suc i"] by (simp add: field_def upt_conv_Cons del: upt_Suc)
  qed (simp add: field_def)
  moreover have "vs \<noteq> [] \<Longrightarrow> field_seq i (field j vs) \<Longrightarrow> i = j"
    by (cases vs) (simp_all add: field_def upt_conv_Cons del: upt_Suc)
  ultimately show ?thesis by (auto simp: field_def)
qed

lemma SVGA3D_emits:
  assumes "host_serving h" and "fifo_ready d" and "fifo_fits d (n + 2)" and "writes fill n body"
    and "cmdSize = 4 * n"
  shows "emits d (commit_cmd (SVGA3D_FIFOReserve h cmd cmdSize d) fill) (cmd # of_nat cmdSize # body)"
proof -
  have fits: "fifo_fits d (Suc (Suc n))" using assms(3) by simp
  then have size: "size_add 8 cmdSize = 4 * Suc (Suc n)"
    by (simp add: fifo_fits_def size_add_def assms(5))
  show ?thesis
  proof (rule reserve_emits [OF assms(1,2) _ fits writes_cons [OF writes_cons [OF assms(4)]]])
    show "commit_cmd (SVGA3D_FIFOReserve h cmd cmdSize d) fill =
        Some (True, FIFOCommitAll (fill (ptr_add (ptr_add p 1) 1)
          (put (ptr_add p 1) 0 (of_nat cmdSize) (put p 0 cmd e))))"
      if "FIFOReserve h (4 * Suc (Suc n)) d = Some (Some p, e)" for p e
      using that size
      by (simp add: commit_cmd_def SVGA3D_FIFOReserve_def put_ptr_add puts_def numeral_2_eq_2)
  qed simp
qed

lemma SVGA3D_fields_emits:
  assumes "host_serving h" and "fifo_ready d" and "fifo_fits d n" and "field_seq 0 ws"
    and "length ws + 2 = n" and "cmdSize + 8 = 4 * n" and "map snd ws = body"
  shows "emits d (commit_cmd (SVGA3D_FIFOReserve h cmd cmdSize d) (\<lambda>cmd. puts cmd ws)) (cmd # of_nat cmdSize # body)"
proof -
  have "cmdSize = 4 * length ws" "fifo_fits d (length ws + 2)" using assms(3,5,6) by auto
  moreover have "writes (\<lambda>p. puts p ws) (length ws) body"
    using writes_field_seq [OF assms(4) refl] assms(7) by simp
  ultimately show ?thesis using SVGA3D_emits [OF assms(1,2)] by blast
qed

text \<open>The \<open>Begin\<close> commands: the caller fills all of the variable part.\<close>

lemma writes_begin:
  assumes init: "\<And>p d. init p d = puts p ws d" "\<forall>(i, v) \<in> set ws. i < k + n"
    "\<And>c. length c = k + n \<Longrightarrow> take k (fold (\<lambda>(i, v) c. c[i := v]) ws c) = hdr"
    and fill: "writes fill n body"
  shows "writes (\<lambda>p d. fill (ptr_add p k) (init p d)) (k + n) (hdr @ body)"
proof -
  obtain vs where vs: "\<And>p d. fill p d = puts p vs d" "\<forall>(i, v) \<in> set vs. i < n"
    "\<And>c. length c = n \<Longrightarrow> fold (\<lambda>(i, v) c. c[i := v]) vs c = body"
    using fill unfolding writes_def by auto
  let ?vs = "map (\<lambda>(i, v). (k + i, v)) vs"
  have "fold (\<lambda>(i, v) c. c[i := v]) (ws @ ?vs) c = hdr @ body" if c: "length c = k + n" for c
  proof -
    let ?c = "fold (\<lambda>(i, v) c. c[i := v]) ws c"
    have "length ?c = k + n" using c by simp
    then have "fold (\<lambda>(i, v) c. c[i := v]) ?vs ?c = take k ?c @ body"
      using fold_update_shift [OF vs(2), of ?c k] vs(3) [of "drop k ?c"] by simp
    then show ?thesis using init(3) [OF c] by simp
  qed
  moreover have "\<forall>(i, v) \<in> set (ws @ ?vs). i < k + n" using init(2) vs(2) by auto
  ultimately show ?thesis
    unfolding writes_def using init(1) vs(1)
    by (intro exI [of _ "ws @ ?vs"]) (auto simp: puts_append puts_ptr_add)
qed

lemma take_fold_update_low:
  assumes "\<forall>(i, v) \<in> set ws. k \<le> i"
  shows "take k (fold (\<lambda>(i, v) c. c[i := v]) ws c) = take k c"
  using assms
proof (induction ws arbitrary: c)
  case (Cons w ws)
  then show ?case by (cases w) (auto simp: take_update_cancel)
qed simp

text \<open>
  The common form of \<open>init\<close>: the header fields in order, then possibly stores into the variable
  part (\<^verbatim>\<open>bzero\<close>), which the caller overwrites.
\<close>

lemma writes_header:
  assumes "field_seq 0 hs" and "length hs = k" and "\<forall>(i, v) \<in> set zs. k \<le> i \<and> i < k + n"
    and "writes fill n body"
  shows "writes (\<lambda>p d. fill (ptr_add p k) (puts p (hs @ zs) d)) (k + n) (map snd hs @ body)"
proof (rule writes_begin [OF _ _ _ assms(4)])
  have hs: "hs = zip [0..<0 + k] (map snd hs)" using field_seq_zip [OF assms(1)] assms(2) by simp
  show "\<forall>(i, v) \<in> set (hs @ zs). i < k + n"
  proof (clarsimp, safe)
    fix i v assume "(i, v) \<in> set hs"
    then have "i \<in> set [0..<0 + k]" using hs by (metis set_zip_leftD)
    then show "i < k + n" by simp
  qed (use assms(3) in auto)
  fix c :: "u32 list" assume c: "length c = k + n"
  have "fold (\<lambda>(i, v) c. c[i := v]) hs c = map snd hs @ drop k c"
  proof -
    have "length (map snd hs) = k" by (simp add: assms(2))
    then have "fold (\<lambda>(i, v) c. c[i := v]) (zip [0..<0 + k] (map snd hs)) (take k c) = map snd hs"
      using fold_update_all [of "take k c" 0 "map snd hs"] c by simp
    moreover have "fold (\<lambda>(i, v) c. c[i := v]) hs c = fold (\<lambda>(i, v) c. c[i := v]) hs (take k c) @ drop k c"
    proof (rule fold_update_prefix)
      show "\<forall>(i, v) \<in> set hs. i < k"
      proof safe
        fix i v assume "(i, v) \<in> set hs"
        then have "i \<in> set [0..<0 + k]" using hs by (metis set_zip_leftD)
        then show "i < k" by simp
      qed
    qed (simp add: c)
    ultimately show ?thesis using hs by metis
  qed
  then have "take k (fold (\<lambda>(i, v) c. c[i := v]) zs (fold (\<lambda>(i, v) c. c[i := v]) hs c)) = map snd hs"
    using assms(2,3) by (subst take_fold_update_low) auto
  then show "take k (fold (\<lambda>(i, v) c. c[i := v]) (hs @ zs) c) = map snd hs" by simp
qed simp

lemma commit_begin:
  "commit_cmd (begin_cmd reserved init result) fill = commit_cmd reserved (\<lambda>p d. fill (result p) (init p d))"
  by (cases reserved) (auto simp: commit_cmd_def begin_cmd_def split: option.split)

lemma SVGA3D_begin_emits:
  assumes "host_serving h" and "fifo_ready d" and "fifo_fits d (2 + k + n)"
    and "field_seq 0 hs" and "length hs = k" and "\<forall>(i, v) \<in> set zs. k \<le> i \<and> i < k + n"
    and "writes fill n body" and "cmdSize = 4 * (k + n)"
  shows "emits d (commit_cmd (begin_cmd (SVGA3D_FIFOReserve h cmd cmdSize d) (\<lambda>cmd. puts cmd (hs @ zs)) (\<lambda>cmd. ptr_add cmd k)) fill)
    (cmd # of_nat cmdSize # map snd hs @ body)"
  unfolding commit_begin
  by (rule SVGA3D_emits [OF assms(1,2) _ writes_header [OF assms(4-7)] assms(8)]) (use assms(3) in \<open>simp add: add_ac\<close>)

end
