(* ===== verification/CommandStream.thy ===== *)
theory CommandStream
  imports Svga3D
begin

text \<open>
  All commands of the device, screen and 3D writers seen as one vocabulary: \<open>command\<close> names a
  call with its arguments and, for the \<open>Begin\<close> operations, the dwords the caller then stores in the
  variable part; \<open>exec\<close> performs the call on the driver's state; \<open>encode\<close> is the command the device
  documentation (\<^verbatim>\<open>svga_reg.h\<close>, \<^verbatim>\<open>svga3d_reg.h\<close>) specifies.  The theorems say that \<open>exec\<close> puts
  exactly \<open>encode\<close> into the queue, for single commands and for any sequence, and that a host that
  knows only the documented frame sizes recovers the commands from the stream.
\<close>

section \<open>The vocabulary\<close>

text \<open>Framebuffer, GMR, video and screen object commands.\<close>

datatype command_2d =
    Update u32 u32 u32 u32
  | Rect_copy u32 u32 u32 u32 u32 u32
  | Rect_fill u32 u32 u32 u32 u32
  | Define_gmr2 u32 u32
  | Remap_gmr2 u32 u32 u32 u32 "u32 list"
  | Video_reg u32 u32 u32
  | Video_flush u32
  | Destroy_screen u32
  | Define_gmrfb guest_ptr u32 u32
  | Blit_from_gmrfb signed_point signed_rect u32
  | Blit_to_gmrfb signed_point signed_rect u32
  | Annotate_fill u32
  | Annotate_copy signed_point u32
  | Define_screen "u32 list"

text \<open>SVGA3D commands written in one call.\<close>

datatype command_3d =
    Destroy_surface u32
  | Define_context u32
  | Destroy_context u32
  | Set_render_target u32 u32 image_id
  | Set_transform u32 u32 "u32 list"
  | Set_material u32 u32 "u32 list"
  | Set_light_enabled u32 u32 bool
  | Set_light_data u32 u32 "u32 list"
  | Destroy_shader u32 u32 u32
  | Set_shader u32 u32 u32
  | Surface_stretch_blt image_id image_id box3d box3d u32
  | Set_viewport u32 rect3d
  | Set_scissor_rect u32 rect3d
  | Set_z_range u32 u32 u32
  | Set_clip_plane u32 u32 "u32 list"
  | Begin_query u32 u32
  | End_query u32 u32 u32 u32
  | Wait_for_query u32 u32 u32 u32
  | Define_shader u32 u32 u32 "u32 list"
  | Set_shader_const u32 u32 u32 u32 "u32 list"

text \<open>SVGA3D commands whose variable part, \<open>n\<close> items in \<open>vs\<close>, the caller writes.\<close>

datatype command_begin =
    Surface_dma guest_image image_id u32 nat "u32 list"
  | Present u32 nat "u32 list"
  | Clear u32 u32 u32 u32 u32 nat "u32 list"
  | Surface_copy image_id image_id nat "u32 list"
  | Set_texture_state u32 nat "u32 list"
  | Set_render_state u32 nat "u32 list"
  | Blit_surface_to_screen image_id signed_rect u32 signed_rect nat "u32 list"
  | Present_readback nat "u32 list"
  | Define_surface u32 u32 u32 "u32 list" nat "u32 list"
  | Surface_dma_suffix guest_image image_id u32 u32 u32 nat "u32 list"
  | Draw_primitives u32 nat nat "u32 list" "u32 list"

datatype command = Cmd_2d command_2d | Cmd_3d command_3d | Cmd_begin command_begin

text \<open>The dwords that follow a \<^verbatim>\<open>REMAP_GMR2\<close> command, by its flags and page count.\<close>

definition remap_suffix :: "u32 \<Rightarrow> u32 \<Rightarrow> nat" where
  "remap_suffix flags numPages =
    (if flags AND 1 \<noteq> 0 then 2
     else (if flags AND 2 \<noteq> 0 then 2 else 1) * (if flags AND 4 \<noteq> 0 then 1 else unat numPages))"

text \<open>The calls.  A call that reports an \<^verbatim>\<open>IOReturn\<close> succeeds when it reports success.\<close>

fun exec_2d :: "host \<Rightarrow> command_2d \<Rightarrow> svga \<Rightarrow> (bool \<times> svga) option" where
  "exec_2d h (Update a b c e) d = UpdateFramebuffer h a b c e d"
| "exec_2d h (Rect_copy a b c e f g) d = RectCopy h [a, b, c, e, f, g] d"
| "exec_2d h (Rect_fill a b c e f) d = RectFill h a [b, c, e, f] d"
| "exec_2d h (Define_gmr2 a b) d = defineGMR2 h a b d"
| "exec_2d h (Remap_gmr2 a b c e f) d = remapGMR2 h a b c e (Some f) (4 * length f) d"
| "exec_2d h (Video_reg a b c) d = VideoSetReg h a b c d"
| "exec_2d h (Video_flush a) d = VideoFlush h a d"
| "exec_2d h (Destroy_screen a) d = DestroyScreen h a d"
| "exec_2d h (Define_gmrfb a b c) d = DefineGMRFB h a b c d"
| "exec_2d h (Blit_from_gmrfb a b c) d = BlitFromGMRFB h a b c d"
| "exec_2d h (Blit_to_gmrfb a b c) d = BlitToGMRFB h a b c d"
| "exec_2d h (Annotate_fill a) d = AnnotateFill h a d"
| "exec_2d h (Annotate_copy a b) d = AnnotateCopy h a b d"
| "exec_2d h (Define_screen a) d = DefineScreen h a d"

fun exec_3d :: "host \<Rightarrow> command_3d \<Rightarrow> svga \<Rightarrow> (bool \<times> svga) option" where
  "exec_3d h (Destroy_surface a) d = DestroySurface h a d"
| "exec_3d h (Define_context a) d = DefineContext h a d"
| "exec_3d h (Destroy_context a) d = DestroyContext h a d"
| "exec_3d h (Set_render_target a b c) d = SetRenderTarget h a b c d"
| "exec_3d h (Set_transform a b c) d = SetTransform h a b c d"
| "exec_3d h (Set_material a b c) d = SetMaterial h a b c d"
| "exec_3d h (Set_light_enabled a b c) d = SetLightEnabled h a b c d"
| "exec_3d h (Set_light_data a b c) d = SetLightData h a b c d"
| "exec_3d h (Destroy_shader a b c) d = DestroyShader h a b c d"
| "exec_3d h (Set_shader a b c) d = SetShader h a b c d"
| "exec_3d h (Surface_stretch_blt a b c e f) d = SurfaceStretchBlt h a b c e f d"
| "exec_3d h (Set_viewport a b) d = SetViewport h a b d"
| "exec_3d h (Set_scissor_rect a b) d = SetScissorRect h a b d"
| "exec_3d h (Set_z_range a b c) d = SetZRange h a b c d"
| "exec_3d h (Set_clip_plane a b c) d = SetClipPlane h a b c d"
| "exec_3d h (Begin_query a b) d = BeginQuery h a b d"
| "exec_3d h (End_query a b c e) d = EndQuery h a b c e d"
| "exec_3d h (Wait_for_query a b c e) d = WaitForQuery h a b c e d"
| "exec_3d h (Define_shader a b c e) d = map_option (\<lambda>(r, d). (r = kIOReturnSuccess, d)) (DefineShader h a b c e (4 * length e) d)"
| "exec_3d h (Set_shader_const a b c e f) d = map_option (\<lambda>(r, d). (r = kIOReturnSuccess, d)) (SetShaderConst h a b c e f d)"

fun exec_begin :: "host \<Rightarrow> command_begin \<Rightarrow> svga \<Rightarrow> (bool \<times> svga) option" where
  "exec_begin h (Surface_dma a b c n vs) d = commit_cmd (BeginSurfaceDMA h a b c n d) (\<lambda>p. put_dwords p 0 vs)"
| "exec_begin h (Present a n vs) d = commit_cmd (BeginPresent h a n d) (\<lambda>p. put_dwords p 0 vs)"
| "exec_begin h (Clear a b c e f n vs) d = commit_cmd (BeginClear h a b c e f n d) (\<lambda>p. put_dwords p 0 vs)"
| "exec_begin h (Surface_copy a b n vs) d = commit_cmd (BeginSurfaceCopy h a b n d) (\<lambda>p. put_dwords p 0 vs)"
| "exec_begin h (Set_texture_state a n vs) d = commit_cmd (BeginSetTextureState h a n d) (\<lambda>p. put_dwords p 0 vs)"
| "exec_begin h (Set_render_state a n vs) d = commit_cmd (BeginSetRenderState h a n d) (\<lambda>p. put_dwords p 0 vs)"
| "exec_begin h (Blit_surface_to_screen a b c e n vs) d = commit_cmd (BeginBlitSurfaceToScreen h a b c e n d) (\<lambda>p. put_dwords p 0 vs)"
| "exec_begin h (Present_readback n vs) d = commit_cmd (BeginPresentReadback h n d) (\<lambda>p. put_dwords p 0 vs)"
| "exec_begin h (Define_surface a b c e n vs) d = commit_cmd (BeginDefineSurface h a b c n d) (\<lambda>(faces, mips) d. put_dwords mips 0 vs (put_dwords faces 0 e d))"
| "exec_begin h (Surface_dma_suffix a b c e f n vs) d = commit_cmd (BeginSurfaceDMAwithSuffix h a b c n e f d) (\<lambda>p. put_dwords p 0 vs)"
| "exec_begin h (Draw_primitives a n m vs ws) d = commit_cmd (BeginDrawPrimitives h a n m d) (\<lambda>(decls, ranges) d. put_dwords ranges 0 ws (put_dwords decls 0 vs d))"

fun exec :: "host \<Rightarrow> command \<Rightarrow> svga \<Rightarrow> (bool \<times> svga) option" where
  "exec h (Cmd_2d c) d = exec_2d h c d"
| "exec h (Cmd_3d c) d = exec_3d h c d"
| "exec h (Cmd_begin c) d = exec_begin h c d"

text \<open>The documented encoding.\<close>

fun encode_2d :: "command_2d \<Rightarrow> u32 list" where
  "encode_2d (Update a b c e) = [1, a, b, c, e]"
| "encode_2d (Rect_copy a b c e f g) = [3, a, b, c, e, f, g]"
| "encode_2d (Rect_fill a b c e f) = [29, a, b, c, e, f, 3]"
| "encode_2d (Define_gmr2 a b) = [41, a, b]"
| "encode_2d (Remap_gmr2 a b c e f) = 42 # a # b # c # e # f"
| "encode_2d (Video_reg a b c) = [33, 0, 16, 0x20001, a, b, c]"
| "encode_2d (Video_flush a) = [33, 0, 8, 0x20002, a]"
| "encode_2d (Destroy_screen a) = 35 # [a]"
| "encode_2d (Define_gmrfb a b c) = 36 # guest_ptr_dwords a @ [b] @ [c]"
| "encode_2d (Blit_from_gmrfb a b c) = 37 # signed_point_dwords a @ signed_rect_dwords b @ [c]"
| "encode_2d (Blit_to_gmrfb a b c) = 38 # signed_point_dwords a @ signed_rect_dwords b @ [c]"
| "encode_2d (Annotate_fill a) = 39 # [a]"
| "encode_2d (Annotate_copy a b) = 40 # signed_point_dwords a @ [b]"
| "encode_2d (Define_screen a) = 34 # a"

fun encode_3d :: "command_3d \<Rightarrow> u32 list" where
  "encode_3d (Destroy_surface a) = 1041 # 4 # [a]"
| "encode_3d (Define_context a) = 1045 # 4 # [a]"
| "encode_3d (Destroy_context a) = 1046 # 4 # [a]"
| "encode_3d (Set_render_target a b c) = 1050 # 20 # [a] @ [b] @ image_dwords c"
| "encode_3d (Set_transform a b c) = 1047 # 72 # [a] @ [b] @ c"
| "encode_3d (Set_material a b c) = 1052 # 76 # [a] @ [b] @ c"
| "encode_3d (Set_light_enabled a b c) = 1054 # 12 # [a] @ [b] @ [if c then 1 else 0]"
| "encode_3d (Set_light_data a b c) = 1053 # 124 # [a] @ [b] @ c"
| "encode_3d (Destroy_shader a b c) = 1060 # 12 # [a] @ [b] @ [c]"
| "encode_3d (Set_shader a b c) = 1061 # 12 # [a] @ [b] @ [c]"
| "encode_3d (Surface_stretch_blt a b c e f) = 1043 # 76 # image_dwords a @ image_dwords b @ box_dwords c @ box_dwords e @ [f]"
| "encode_3d (Set_viewport a b) = 1055 # 20 # [a] @ rect_dwords b"
| "encode_3d (Set_scissor_rect a b) = 1064 # 20 # [a] @ rect_dwords b"
| "encode_3d (Set_z_range a b c) = 1048 # 12 # [a] @ [b] @ [c]"
| "encode_3d (Set_clip_plane a b c) = 1056 # 24 # [a] @ [b] @ c"
| "encode_3d (Begin_query a b) = 1065 # 8 # [a] @ [b]"
| "encode_3d (End_query a b c e) = 1066 # 16 # [a] @ [b] @ [c] @ [e]"
| "encode_3d (Wait_for_query a b c e) = 1067 # 16 # [a] @ [b] @ [c] @ [e]"
| "encode_3d (Define_shader a b c e) = 1059 # of_nat (12 + 4 * length e) # a # b # c # e"
| "encode_3d (Set_shader_const a b c e f) = 1062 # 32 # a # b # c # e # (if e = 2 then [hd f, 0, 0, 0] else f)"

fun encode_begin :: "command_begin \<Rightarrow> u32 list" where
  "encode_begin (Surface_dma a b c n vs) = 1044 # of_nat (4 * (7 + 9 * n)) # guest_image_dwords a @ image_dwords b @ [c] @ vs"
| "encode_begin (Present a n vs) = 1058 # of_nat (4 * (1 + 6 * n)) # [a] @ vs"
| "encode_begin (Clear a b c e f n vs) = 1057 # of_nat (4 * (5 + 4 * n)) # [a] @ [b] @ [c] @ [e] @ [f] @ vs"
| "encode_begin (Surface_copy a b n vs) = 1042 # of_nat (4 * (6 + 9 * n)) # image_dwords a @ image_dwords b @ vs"
| "encode_begin (Set_texture_state a n vs) = 1051 # of_nat (4 * (1 + 3 * n)) # [a] @ vs"
| "encode_begin (Set_render_state a n vs) = 1049 # of_nat (4 * (1 + 2 * n)) # [a] @ vs"
| "encode_begin (Blit_surface_to_screen a b c e n vs) = 1069 # of_nat (4 * (12 + 4 * n)) # image_dwords a @ signed_rect_dwords b @ [c] @ signed_rect_dwords e @ vs"
| "encode_begin (Present_readback n vs) = 1068 # of_nat (16 * n) # vs"
| "encode_begin (Define_surface a b c e n vs) = 1040 # of_nat (36 + 12 * n) # a # b # c # e @ vs"
| "encode_begin (Surface_dma_suffix a b c e f n vs) = 1044 # of_nat (4 * (10 + 9 * n)) # guest_image_dwords a @ image_dwords b @ [c] @ vs @ [12, e, f]"
| "encode_begin (Draw_primitives a n m vs ws) = 1063 # of_nat (4 * (3 + 9 * n + 7 * m)) # [a, of_nat n, of_nat m] @ vs @ ws"

fun encode :: "command \<Rightarrow> u32 list" where
  "encode (Cmd_2d c) = encode_2d c"
| "encode (Cmd_3d c) = encode_3d c"
| "encode (Cmd_begin c) = encode_begin c"

text \<open>The lengths the documentation requires of the arguments that are arrays.\<close>

fun valid_2d :: "command_2d \<Rightarrow> bool" where
  "valid_2d (Remap_gmr2 a b c e f) \<longleftrightarrow> remap_suffix b e = length f"
| "valid_2d (Define_screen a) \<longleftrightarrow> a \<noteq> [] \<and> unat (hd a) = 4 * length a"
| "valid_2d _ \<longleftrightarrow> True"

fun valid_3d :: "command_3d \<Rightarrow> bool" where
  "valid_3d (Set_transform a b c) \<longleftrightarrow> length c = 16"
| "valid_3d (Set_material a b c) \<longleftrightarrow> length c = 17"
| "valid_3d (Set_light_data a b c) \<longleftrightarrow> length c = 29"
| "valid_3d (Set_clip_plane a b c) \<longleftrightarrow> length c = 4"
| "valid_3d (Set_shader_const a b c e f) \<longleftrightarrow> e \<in> {0, 1, 2} \<and> length f = 4"
| "valid_3d _ \<longleftrightarrow> True"

fun valid_begin :: "command_begin \<Rightarrow> bool" where
  "valid_begin (Surface_dma a b c n vs) \<longleftrightarrow> length vs = 9 * n"
| "valid_begin (Present a n vs) \<longleftrightarrow> length vs = 6 * n"
| "valid_begin (Clear a b c e f n vs) \<longleftrightarrow> length vs = 4 * n"
| "valid_begin (Surface_copy a b n vs) \<longleftrightarrow> length vs = 9 * n"
| "valid_begin (Set_texture_state a n vs) \<longleftrightarrow> length vs = 3 * n"
| "valid_begin (Set_render_state a n vs) \<longleftrightarrow> length vs = 2 * n"
| "valid_begin (Blit_surface_to_screen a b c e n vs) \<longleftrightarrow> length vs = 4 * n"
| "valid_begin (Present_readback n vs) \<longleftrightarrow> length vs = 4 * n"
| "valid_begin (Define_surface a b c e n vs) \<longleftrightarrow> length e = 6 \<and> length vs = 3 * n"
| "valid_begin (Surface_dma_suffix a b c e f n vs) \<longleftrightarrow> length vs = 9 * n"
| "valid_begin (Draw_primitives a n m vs ws) \<longleftrightarrow> length vs = 9 * n \<and> length ws = 7 * m"

fun valid :: "command \<Rightarrow> bool" where
  "valid (Cmd_2d c) = valid_2d c"
| "valid (Cmd_3d c) = valid_3d c"
| "valid (Cmd_begin c) = valid_begin c"

section \<open>Each command reaches the queue as documented\<close>

lemma fold_update_field:
  assumes "j + length us \<le> length c"
  shows "fold (\<lambda>(i, v) c. c[i := v]) (field j us) c = take j c @ us @ drop (j + length us) c"
proof -
  let ?c = "take (j + length us) c"
  have "\<forall>(i, v) \<in> set (field j us). i < j + length us"
    unfolding field_def by (auto dest: set_zip_leftD)
  then have "fold (\<lambda>(i, v) c. c[i := v]) (field j us) c =
      fold (\<lambda>(i, v) c. c[i := v]) (field j us) ?c @ drop (j + length us) c"
    using assms by (rule fold_update_prefix)
  also have "fold (\<lambda>(i, v) c. c[i := v]) (field j us) ?c = take j c @ us"
    unfolding field_def using assms by (subst fold_update_all) simp_all
  finally show ?thesis by simp
qed

lemma size_small: "a + b * n < 2 ^ 64 \<Longrightarrow> size_add a (size_mult b n) = a + b * n"
  by (simp add: size_add_def size_mult_def)

lemma size_add_small: "a + b < 2 ^ 64 \<Longrightarrow> size_add a b = a + b"
  by (simp add: size_add_def)

lemma zeros_bounds: "(i, v) \<in> set (zeros j n) \<Longrightarrow> j \<le> i \<and> i < j + n"
  unfolding zeros_def field_def by (auto dest: set_zip_leftD)

lemma put_dwords_append: "put_dwords p i (us @ vs) d = put_dwords p (i + length us) vs (put_dwords p i us d)"
  by (induction us arbitrary: i d) (simp_all add: put_dwords_Nil put_dwords_Cons)

lemma fits_eq: "fifo_fits d n \<Longrightarrow> n = m \<Longrightarrow> fifo_fits d m"
  by simp

lemma begin_emits:
  assumes "host_serving h" and "fifo_ready d" and "fifo_fits d (2 + k + per * n)"
    and "field_seq 0 hs" and "length hs = k" and "zs = [] \<or> zs = zeros k (per * n)" and "length vs = per * n"
    and "map snd hs = hdr" and "K = 4 * k" and "P = 4 * per"
  shows "emits d (commit_cmd (begin_cmd (SVGA3D_FIFOReserve h cmd (size_add K (size_mult P n)) d)
      (\<lambda>cmd. puts cmd (hs @ zs)) (\<lambda>cmd. ptr_add cmd k)) (\<lambda>p. put_dwords p 0 vs))
    (cmd # of_nat (4 * (k + per * n)) # hdr @ vs)"
proof -
  have "size_add K (size_mult P n) = K + P * n"
    using assms(3,9,10) by (intro size_small) (simp add: fifo_fits_def)
  then have size: "size_add K (size_mult P n) = 4 * (k + per * n)"
    by (simp add: assms(9,10) algebra_simps)
  have "\<forall>(i, v) \<in> set zs. k \<le> i \<and> i < k + per * n"
    using assms(6) by (auto dest: zeros_bounds)
  moreover have "writes (\<lambda>p. put_dwords p 0 vs) (per * n) vs"
    using writes_dwords [of vs] assms(7) by simp
  ultimately show ?thesis
    unfolding size assms(8) [symmetric] using SVGA3D_begin_emits [OF assms(1-5)] by blast
qed

lemma field_append: "field i (us @ vs) = field i us @ field (i + length us) vs"
  by (simp add: field_def upt_add_eq_append [of i "i + length us" "length vs", simplified add.assoc] zip_append add.assoc)

lemma put_dwords_field: "put_dwords p i vs d = puts p (field i vs) d"
  by (simp add: put_dwords_puts field_def)

lemma field_bounds: "(i, v) \<in> set (field j vs) \<Longrightarrow> j \<le> i \<and> i < j + length vs"
  unfolding field_def by (auto dest: set_zip_leftD)

lemma commit_DefineShader:
  assumes "fifo_fits d (n + 5)" and "n = length e"
  shows "map_option (\<lambda>(r, d). (r = kIOReturnSuccess, d)) (DefineShader h a b c e (4 * n) d) =
    commit_cmd (SVGA3D_FIFOReserve h SVGA_3D_CMD_SHADER_DEFINE (12 + 4 * n) d) (\<lambda>cmd. puts cmd (field 0 (a # b # c # e)))"
proof -
  have "size_add 12 (4 * n) = 12 + 4 * n"
    using assms(1) by (intro size_add_small) (simp add: fifo_fits_def)
  moreover have "field 0 [a] @ field 1 [b] @ field 2 [c] @ field 3 e = field 0 (a # b # c # e)"
    using field_append [of 0 "[a]" "b # c # e"] field_append [of 1 "[b]" "c # e"] field_append [of 2 "[c]" e]
    by (simp add: eval_nat_numeral)
  ultimately show ?thesis
    by (cases "SVGA3D_FIFOReserve h SVGA_3D_CMD_SHADER_DEFINE (12 + 4 * n) d")
      (auto simp: DefineShader_def commit_cmd_def assms(2) split: option.split)
qed

lemma commit_SetShaderConst:
  assumes "e \<in> {0, 1, 2}"
  shows "map_option (\<lambda>(r, d). (r = kIOReturnSuccess, d)) (SetShaderConst h a b c e f d) =
    commit_cmd (SVGA3D_FIFOReserve h SVGA_3D_CMD_SET_SHADER_CONST 32 d)
      (\<lambda>cmd. puts cmd (field 0 [a, b, c, e] @ (if e = 2 then field 4 [0, 0, 0, 0] @ field 4 [hd f] else field 4 (take 4 f))))"
proof -
  have "field 0 [a, b, c, e] = field 0 [a] @ field 1 [b] @ field 2 [c] @ field 3 [e]"
    using field_append [of 0 "[a]" "[b, c, e]"] field_append [of 1 "[b]" "[c, e]"] field_append [of 2 "[c]" "[e]"]
    by (simp add: eval_nat_numeral)
  then show ?thesis
    using assms
    by (cases "SVGA3D_FIFOReserve h SVGA_3D_CMD_SET_SHADER_CONST 32 d")
      (auto simp: SetShaderConst_def commit_cmd_def Let_def puts_append split: option.split)
qed

lemma exec_Update:
  assumes "host_serving h" and "fifo_ready d" and "fifo_fits d (length (encode_2d (Update a b c e)))"
  shows "emits d (exec_2d h (Update a b c e) d) (encode_2d (Update a b c e))"
proof -
  have fits: "fifo_fits d (5)" by (rule fits_eq [OF assms(3)]) simp
  show ?thesis using assms(1,2) fits by (simp add: UpdateFramebuffer_emits)
qed

lemma exec_Rect_copy:
  assumes "host_serving h" and "fifo_ready d" and "fifo_fits d (length (encode_2d (Rect_copy a b c e f g)))"
  shows "emits d (exec_2d h (Rect_copy a b c e f g) d) (encode_2d (Rect_copy a b c e f g))"
proof -
  have fits: "fifo_fits d (7)" by (rule fits_eq [OF assms(3)]) simp
  show ?thesis using RectCopy_emits [of h d "[a, b, c, e, f, g]"] assms(1,2) fits by simp
qed

lemma exec_Rect_fill:
  assumes "host_serving h" and "fifo_ready d" and "fifo_fits d (length (encode_2d (Rect_fill a b c e f)))"
  shows "emits d (exec_2d h (Rect_fill a b c e f) d) (encode_2d (Rect_fill a b c e f))"
proof -
  have fits: "fifo_fits d (7)" by (rule fits_eq [OF assms(3)]) simp
  show ?thesis using RectFill_emits [of h d "[b, c, e, f]" a] assms(1,2) fits by simp
qed

lemma exec_Define_gmr2:
  assumes "host_serving h" and "fifo_ready d" and "fifo_fits d (length (encode_2d (Define_gmr2 a b)))"
  shows "emits d (exec_2d h (Define_gmr2 a b) d) (encode_2d (Define_gmr2 a b))"
proof -
  have fits: "fifo_fits d (3)" by (rule fits_eq [OF assms(3)]) simp
  show ?thesis using assms(1,2) fits by (simp add: defineGMR2_emits)
qed

lemma exec_Remap_gmr2:
  assumes "host_serving h" and "fifo_ready d" and "fifo_fits d (length (encode_2d (Remap_gmr2 a b c e f)))" and "valid_2d (Remap_gmr2 a b c e f)"
  shows "emits d (exec_2d h (Remap_gmr2 a b c e f) d) (encode_2d (Remap_gmr2 a b c e f))"
proof -
  have fits: "fifo_fits d (5 + length f)" by (rule fits_eq [OF assms(3)]) (use assms(4) in simp)
  show ?thesis using remapGMR2_emits [of h d f a b c e] assms(1,2) assms(4) fits by simp
qed

lemma exec_Video_reg:
  assumes "host_serving h" and "fifo_ready d" and "fifo_fits d (length (encode_2d (Video_reg a b c)))"
  shows "emits d (exec_2d h (Video_reg a b c) d) (encode_2d (Video_reg a b c))"
proof -
  have fits: "fifo_fits d (7)" by (rule fits_eq [OF assms(3)]) simp
  show ?thesis using assms(1,2) fits by (simp add: VideoSetReg_emits)
qed

lemma exec_Video_flush:
  assumes "host_serving h" and "fifo_ready d" and "fifo_fits d (length (encode_2d (Video_flush a)))"
  shows "emits d (exec_2d h (Video_flush a) d) (encode_2d (Video_flush a))"
proof -
  have fits: "fifo_fits d (5)" by (rule fits_eq [OF assms(3)]) simp
  show ?thesis using assms(1,2) fits by (simp add: VideoFlush_emits)
qed

lemma exec_Destroy_screen:
  assumes "host_serving h" and "fifo_ready d" and "fifo_fits d (length (encode_2d (Destroy_screen a)))"
  shows "emits d (exec_2d h (Destroy_screen a) d) (encode_2d (Destroy_screen a))"
proof -
  have fits: "fifo_fits d (2)" by (rule fits_eq [OF assms(3)]) simp
  show ?thesis using cmd_fields_emits [of h d 2 "field 0 [a]" 4 35] assms(1,2) fits by (simp add: DestroyScreen_def)
qed

lemma exec_Define_gmrfb:
  assumes "host_serving h" and "fifo_ready d" and "fifo_fits d (length (encode_2d (Define_gmrfb a b c)))"
  shows "emits d (exec_2d h (Define_gmrfb a b c) d) (encode_2d (Define_gmrfb a b c))"
proof -
  have fits: "fifo_fits d (5)" by (rule fits_eq [OF assms(3)]) simp
  show ?thesis using cmd_fields_emits [of h d 5 "field 0 (guest_ptr_dwords a) @ field 2 [b] @ field 3 [c]" 16 36] assms(1,2) fits by (simp add: DefineGMRFB_def)
qed

lemma exec_Blit_from_gmrfb:
  assumes "host_serving h" and "fifo_ready d" and "fifo_fits d (length (encode_2d (Blit_from_gmrfb a b c)))"
  shows "emits d (exec_2d h (Blit_from_gmrfb a b c) d) (encode_2d (Blit_from_gmrfb a b c))"
proof -
  have fits: "fifo_fits d (8)" by (rule fits_eq [OF assms(3)]) simp
  show ?thesis using cmd_fields_emits [of h d 8 "field 0 (signed_point_dwords a) @ field 2 (signed_rect_dwords b) @ field 6 [c]" 28 37] assms(1,2) fits by (simp add: BlitFromGMRFB_def)
qed

lemma exec_Blit_to_gmrfb:
  assumes "host_serving h" and "fifo_ready d" and "fifo_fits d (length (encode_2d (Blit_to_gmrfb a b c)))"
  shows "emits d (exec_2d h (Blit_to_gmrfb a b c) d) (encode_2d (Blit_to_gmrfb a b c))"
proof -
  have fits: "fifo_fits d (8)" by (rule fits_eq [OF assms(3)]) simp
  show ?thesis using cmd_fields_emits [of h d 8 "field 0 (signed_point_dwords a) @ field 2 (signed_rect_dwords b) @ field 6 [c]" 28 38] assms(1,2) fits by (simp add: BlitToGMRFB_def)
qed

lemma exec_Annotate_fill:
  assumes "host_serving h" and "fifo_ready d" and "fifo_fits d (length (encode_2d (Annotate_fill a)))"
  shows "emits d (exec_2d h (Annotate_fill a) d) (encode_2d (Annotate_fill a))"
proof -
  have fits: "fifo_fits d (2)" by (rule fits_eq [OF assms(3)]) simp
  show ?thesis using cmd_fields_emits [of h d 2 "field 0 [a]" 4 39] assms(1,2) fits by (simp add: AnnotateFill_def)
qed

lemma exec_Annotate_copy:
  assumes "host_serving h" and "fifo_ready d" and "fifo_fits d (length (encode_2d (Annotate_copy a b)))"
  shows "emits d (exec_2d h (Annotate_copy a b) d) (encode_2d (Annotate_copy a b))"
proof -
  have fits: "fifo_fits d (4)" by (rule fits_eq [OF assms(3)]) simp
  show ?thesis using cmd_fields_emits [of h d 4 "field 0 (signed_point_dwords a) @ field 2 [b]" 12 40] assms(1,2) fits by (simp add: AnnotateCopy_def)
qed

lemma exec_Define_screen:
  assumes "host_serving h" and "fifo_ready d" and "fifo_fits d (length (encode_2d (Define_screen a)))" and "valid_2d (Define_screen a)"
  shows "emits d (exec_2d h (Define_screen a) d) (encode_2d (Define_screen a))"
proof -
  have fits: "fifo_fits d (length a + 1)" by (rule fits_eq [OF assms(3)]) (use assms(4) in simp)
  show ?thesis using cmd_fields_emits [of h d "length a + 1" "field 0 a" "4 * length a" 34] assms(1,2) assms(4) fits by (simp add: DefineScreen_def)
qed

lemma exec_Destroy_surface:
  assumes "host_serving h" and "fifo_ready d" and "fifo_fits d (length (encode_3d (Destroy_surface a)))"
  shows "emits d (exec_3d h (Destroy_surface a) d) (encode_3d (Destroy_surface a))"
proof -
  have fits: "fifo_fits d (3)" by (rule fits_eq [OF assms(3)]) simp
  show ?thesis using SVGA3D_fields_emits [of h d 3 "field 0 [a]" 4 "[a]" 1041] assms(1,2) fits by (simp add: DestroySurface_def)
qed

lemma exec_Define_context:
  assumes "host_serving h" and "fifo_ready d" and "fifo_fits d (length (encode_3d (Define_context a)))"
  shows "emits d (exec_3d h (Define_context a) d) (encode_3d (Define_context a))"
proof -
  have fits: "fifo_fits d (3)" by (rule fits_eq [OF assms(3)]) simp
  show ?thesis using SVGA3D_fields_emits [of h d 3 "field 0 [a]" 4 "[a]" 1045] assms(1,2) fits by (simp add: DefineContext_def)
qed

lemma exec_Destroy_context:
  assumes "host_serving h" and "fifo_ready d" and "fifo_fits d (length (encode_3d (Destroy_context a)))"
  shows "emits d (exec_3d h (Destroy_context a) d) (encode_3d (Destroy_context a))"
proof -
  have fits: "fifo_fits d (3)" by (rule fits_eq [OF assms(3)]) simp
  show ?thesis using SVGA3D_fields_emits [of h d 3 "field 0 [a]" 4 "[a]" 1046] assms(1,2) fits by (simp add: DestroyContext_def)
qed

lemma exec_Set_render_target:
  assumes "host_serving h" and "fifo_ready d" and "fifo_fits d (length (encode_3d (Set_render_target a b c)))"
  shows "emits d (exec_3d h (Set_render_target a b c) d) (encode_3d (Set_render_target a b c))"
proof -
  have fits: "fifo_fits d (7)" by (rule fits_eq [OF assms(3)]) simp
  show ?thesis using SVGA3D_fields_emits [of h d 7 "field 0 [a] @ field 1 [b] @ field 2 (image_dwords c)" 20 "[a] @ [b] @ image_dwords c" 1050] assms(1,2) fits by (simp add: SetRenderTarget_def)
qed

lemma exec_Set_transform:
  assumes "host_serving h" and "fifo_ready d" and "fifo_fits d (length (encode_3d (Set_transform a b c)))" and "valid_3d (Set_transform a b c)"
  shows "emits d (exec_3d h (Set_transform a b c) d) (encode_3d (Set_transform a b c))"
proof -
  have fits: "fifo_fits d (20)" by (rule fits_eq [OF assms(3)]) (use assms(4) in simp)
  show ?thesis using SVGA3D_fields_emits [of h d 20 "field 0 [a] @ field 1 [b] @ field 2 c" 72 "[a] @ [b] @ c" 1047] assms(1,2) assms(4) fits by (simp add: SetTransform_def)
qed

lemma exec_Set_material:
  assumes "host_serving h" and "fifo_ready d" and "fifo_fits d (length (encode_3d (Set_material a b c)))" and "valid_3d (Set_material a b c)"
  shows "emits d (exec_3d h (Set_material a b c) d) (encode_3d (Set_material a b c))"
proof -
  have fits: "fifo_fits d (21)" by (rule fits_eq [OF assms(3)]) (use assms(4) in simp)
  show ?thesis using SVGA3D_fields_emits [of h d 21 "field 0 [a] @ field 1 [b] @ field 2 c" 76 "[a] @ [b] @ c" 1052] assms(1,2) assms(4) fits by (simp add: SetMaterial_def)
qed

lemma exec_Set_light_enabled:
  assumes "host_serving h" and "fifo_ready d" and "fifo_fits d (length (encode_3d (Set_light_enabled a b c)))"
  shows "emits d (exec_3d h (Set_light_enabled a b c) d) (encode_3d (Set_light_enabled a b c))"
proof -
  have fits: "fifo_fits d (5)" by (rule fits_eq [OF assms(3)]) simp
  show ?thesis using SVGA3D_fields_emits [of h d 5 "field 0 [a] @ field 1 [b] @ field 2 [if c then 1 else 0]" 12 "[a] @ [b] @ [if c then 1 else 0]" 1054] assms(1,2) fits by (simp add: SetLightEnabled_def)
qed

lemma exec_Set_light_data:
  assumes "host_serving h" and "fifo_ready d" and "fifo_fits d (length (encode_3d (Set_light_data a b c)))" and "valid_3d (Set_light_data a b c)"
  shows "emits d (exec_3d h (Set_light_data a b c) d) (encode_3d (Set_light_data a b c))"
proof -
  have fits: "fifo_fits d (33)" by (rule fits_eq [OF assms(3)]) (use assms(4) in simp)
  show ?thesis using SVGA3D_fields_emits [of h d 33 "field 0 [a] @ field 1 [b] @ field 2 c" 124 "[a] @ [b] @ c" 1053] assms(1,2) assms(4) fits by (simp add: SetLightData_def)
qed

lemma exec_Destroy_shader:
  assumes "host_serving h" and "fifo_ready d" and "fifo_fits d (length (encode_3d (Destroy_shader a b c)))"
  shows "emits d (exec_3d h (Destroy_shader a b c) d) (encode_3d (Destroy_shader a b c))"
proof -
  have fits: "fifo_fits d (5)" by (rule fits_eq [OF assms(3)]) simp
  show ?thesis using SVGA3D_fields_emits [of h d 5 "field 0 [a] @ field 1 [b] @ field 2 [c]" 12 "[a] @ [b] @ [c]" 1060] assms(1,2) fits by (simp add: DestroyShader_def)
qed

lemma exec_Set_shader:
  assumes "host_serving h" and "fifo_ready d" and "fifo_fits d (length (encode_3d (Set_shader a b c)))"
  shows "emits d (exec_3d h (Set_shader a b c) d) (encode_3d (Set_shader a b c))"
proof -
  have fits: "fifo_fits d (5)" by (rule fits_eq [OF assms(3)]) simp
  show ?thesis using SVGA3D_fields_emits [of h d 5 "field 0 [a] @ field 1 [b] @ field 2 [c]" 12 "[a] @ [b] @ [c]" 1061] assms(1,2) fits by (simp add: SetShader_def)
qed

lemma exec_Surface_stretch_blt:
  assumes "host_serving h" and "fifo_ready d" and "fifo_fits d (length (encode_3d (Surface_stretch_blt a b c e f)))"
  shows "emits d (exec_3d h (Surface_stretch_blt a b c e f) d) (encode_3d (Surface_stretch_blt a b c e f))"
proof -
  have fits: "fifo_fits d (21)" by (rule fits_eq [OF assms(3)]) simp
  show ?thesis using SVGA3D_fields_emits [of h d 21 "field 0 (image_dwords a) @ field 3 (image_dwords b) @ field 6 (box_dwords c) @ field 12 (box_dwords e) @ field 18 [f]" 76 "image_dwords a @ image_dwords b @ box_dwords c @ box_dwords e @ [f]" 1043] assms(1,2) fits by (simp add: SurfaceStretchBlt_def)
qed

lemma exec_Set_viewport:
  assumes "host_serving h" and "fifo_ready d" and "fifo_fits d (length (encode_3d (Set_viewport a b)))"
  shows "emits d (exec_3d h (Set_viewport a b) d) (encode_3d (Set_viewport a b))"
proof -
  have fits: "fifo_fits d (7)" by (rule fits_eq [OF assms(3)]) simp
  show ?thesis using SVGA3D_fields_emits [of h d 7 "field 0 [a] @ field 1 (rect_dwords b)" 20 "[a] @ rect_dwords b" 1055] assms(1,2) fits by (simp add: SetViewport_def)
qed

lemma exec_Set_scissor_rect:
  assumes "host_serving h" and "fifo_ready d" and "fifo_fits d (length (encode_3d (Set_scissor_rect a b)))"
  shows "emits d (exec_3d h (Set_scissor_rect a b) d) (encode_3d (Set_scissor_rect a b))"
proof -
  have fits: "fifo_fits d (7)" by (rule fits_eq [OF assms(3)]) simp
  show ?thesis using SVGA3D_fields_emits [of h d 7 "field 0 [a] @ field 1 (rect_dwords b)" 20 "[a] @ rect_dwords b" 1064] assms(1,2) fits by (simp add: SetScissorRect_def)
qed

lemma exec_Set_z_range:
  assumes "host_serving h" and "fifo_ready d" and "fifo_fits d (length (encode_3d (Set_z_range a b c)))"
  shows "emits d (exec_3d h (Set_z_range a b c) d) (encode_3d (Set_z_range a b c))"
proof -
  have fits: "fifo_fits d (5)" by (rule fits_eq [OF assms(3)]) simp
  show ?thesis using SVGA3D_fields_emits [of h d 5 "field 0 [a] @ field 1 [b] @ field 2 [c]" 12 "[a] @ [b] @ [c]" 1048] assms(1,2) fits by (simp add: SetZRange_def)
qed

lemma exec_Set_clip_plane:
  assumes "host_serving h" and "fifo_ready d" and "fifo_fits d (length (encode_3d (Set_clip_plane a b c)))" and "valid_3d (Set_clip_plane a b c)"
  shows "emits d (exec_3d h (Set_clip_plane a b c) d) (encode_3d (Set_clip_plane a b c))"
proof -
  have fits: "fifo_fits d (8)" by (rule fits_eq [OF assms(3)]) (use assms(4) in simp)
  show ?thesis using SVGA3D_fields_emits [of h d 8 "field 0 [a] @ field 1 [b] @ field 2 c" 24 "[a] @ [b] @ c" 1056] assms(1,2) assms(4) fits by (simp add: SetClipPlane_def)
qed

lemma exec_Begin_query:
  assumes "host_serving h" and "fifo_ready d" and "fifo_fits d (length (encode_3d (Begin_query a b)))"
  shows "emits d (exec_3d h (Begin_query a b) d) (encode_3d (Begin_query a b))"
proof -
  have fits: "fifo_fits d (4)" by (rule fits_eq [OF assms(3)]) simp
  show ?thesis using SVGA3D_fields_emits [of h d 4 "field 0 [a] @ field 1 [b]" 8 "[a] @ [b]" 1065] assms(1,2) fits by (simp add: BeginQuery_def)
qed

lemma exec_End_query:
  assumes "host_serving h" and "fifo_ready d" and "fifo_fits d (length (encode_3d (End_query a b c e)))"
  shows "emits d (exec_3d h (End_query a b c e) d) (encode_3d (End_query a b c e))"
proof -
  have fits: "fifo_fits d (6)" by (rule fits_eq [OF assms(3)]) simp
  show ?thesis using SVGA3D_fields_emits [of h d 6 "field 0 [a] @ field 1 [b] @ field 2 [c] @ field 3 [e]" 16 "[a] @ [b] @ [c] @ [e]" 1066] assms(1,2) fits by (simp add: EndQuery_def)
qed

lemma exec_Wait_for_query:
  assumes "host_serving h" and "fifo_ready d" and "fifo_fits d (length (encode_3d (Wait_for_query a b c e)))"
  shows "emits d (exec_3d h (Wait_for_query a b c e) d) (encode_3d (Wait_for_query a b c e))"
proof -
  have fits: "fifo_fits d (6)" by (rule fits_eq [OF assms(3)]) simp
  show ?thesis using SVGA3D_fields_emits [of h d 6 "field 0 [a] @ field 1 [b] @ field 2 [c] @ field 3 [e]" 16 "[a] @ [b] @ [c] @ [e]" 1067] assms(1,2) fits by (simp add: WaitForQuery_def)
qed

lemma exec_Define_shader:
  assumes "host_serving h" and "fifo_ready d" and "fifo_fits d (length (encode_3d (Define_shader a b c e)))"
  shows "emits d (exec_3d h (Define_shader a b c e) d) (encode_3d (Define_shader a b c e))"
proof -
  have fits: "fifo_fits d (length e + 5)" by (rule fits_eq [OF assms(3)]) simp
  show ?thesis
    using SVGA3D_fields_emits [of h d "length e + 5" "field 0 (a # b # c # e)" "12 + 4 * length e" _ SVGA_3D_CMD_SHADER_DEFINE] assms(1,2) fits
    by (simp add: commit_DefineShader [OF fits])
qed

lemma exec_Set_shader_const:
  assumes "host_serving h" and "fifo_ready d" and "fifo_fits d (length (encode_3d (Set_shader_const a b c e f)))" and "valid_3d (Set_shader_const a b c e f)"
  shows "emits d (exec_3d h (Set_shader_const a b c e f) d) (encode_3d (Set_shader_const a b c e f))"
proof -
  let ?body = "a # b # c # e # (if e = 2 then [hd f, 0, 0, 0] else f)"
  have len: "e \<in> {0, 1, 2}" "length f = 4" using assms(4) by simp_all
  have fits: "fifo_fits d (8 + 2)" by (rule fits_eq [OF assms(3)]) (simp add: len)
  have "writes (\<lambda>cmd. puts cmd (field 0 [a, b, c, e] @
      (if e = 2 then field 4 [0, 0, 0, 0] @ field 4 [hd f] else field 4 (take 4 f)))) 8 ?body"
    by (rule writes_fields)
      (auto simp: len fold_update_field dest!: field_bounds split: if_splits)
  from SVGA3D_emits [OF assms(1,2) fits this, of 32 SVGA_3D_CMD_SET_SHADER_CONST]
  show ?thesis by (simp add: commit_SetShaderConst [OF len(1)])
qed

lemma exec_Surface_dma:
  assumes "host_serving h" and "fifo_ready d" and "fifo_fits d (length (encode_begin (Surface_dma a b c n vs)))" and "valid_begin (Surface_dma a b c n vs)"
  shows "emits d (exec_begin h (Surface_dma a b c n vs) d) (encode_begin (Surface_dma a b c n vs))"
proof -
  have fits: "fifo_fits d (2 + 7 + 9 * n)" by (rule fits_eq [OF assms(3)]) (use assms(4) in simp)
  show ?thesis
    using begin_emits [of h d 7 9 n "field 0 (guest_image_dwords a) @ field 3 (image_dwords b) @ field 6 [c]" "zeros 7 (9 * n)" vs "guest_image_dwords a @ image_dwords b @ [c]" 28 36 1044] fits assms(1,2,4)
    by (simp add: BeginSurfaceDMA_def)
qed

lemma exec_Present:
  assumes "host_serving h" and "fifo_ready d" and "fifo_fits d (length (encode_begin (Present a n vs)))" and "valid_begin (Present a n vs)"
  shows "emits d (exec_begin h (Present a n vs) d) (encode_begin (Present a n vs))"
proof -
  have fits: "fifo_fits d (2 + 1 + 6 * n)" by (rule fits_eq [OF assms(3)]) (use assms(4) in simp)
  show ?thesis
    using begin_emits [of h d 1 6 n "field 0 [a]" "[]" vs "[a]" 4 24 1058] fits assms(1,2,4)
    by (simp add: BeginPresent_def)
qed

lemma exec_Clear:
  assumes "host_serving h" and "fifo_ready d" and "fifo_fits d (length (encode_begin (Clear a b c e f n vs)))" and "valid_begin (Clear a b c e f n vs)"
  shows "emits d (exec_begin h (Clear a b c e f n vs) d) (encode_begin (Clear a b c e f n vs))"
proof -
  have fits: "fifo_fits d (2 + 5 + 4 * n)" by (rule fits_eq [OF assms(3)]) (use assms(4) in simp)
  show ?thesis
    using begin_emits [of h d 5 4 n "field 0 [a] @ field 1 [b] @ field 2 [c] @ field 3 [e] @ field 4 [f]" "[]" vs "[a] @ [b] @ [c] @ [e] @ [f]" 20 16 1057] fits assms(1,2,4)
    by (simp add: BeginClear_def)
qed

lemma exec_Surface_copy:
  assumes "host_serving h" and "fifo_ready d" and "fifo_fits d (length (encode_begin (Surface_copy a b n vs)))" and "valid_begin (Surface_copy a b n vs)"
  shows "emits d (exec_begin h (Surface_copy a b n vs) d) (encode_begin (Surface_copy a b n vs))"
proof -
  have fits: "fifo_fits d (2 + 6 + 9 * n)" by (rule fits_eq [OF assms(3)]) (use assms(4) in simp)
  show ?thesis
    using begin_emits [of h d 6 9 n "field 0 (image_dwords a) @ field 3 (image_dwords b)" "zeros 6 (9 * n)" vs "image_dwords a @ image_dwords b" 24 36 1042] fits assms(1,2,4)
    by (simp add: BeginSurfaceCopy_def)
qed

lemma exec_Set_texture_state:
  assumes "host_serving h" and "fifo_ready d" and "fifo_fits d (length (encode_begin (Set_texture_state a n vs)))" and "valid_begin (Set_texture_state a n vs)"
  shows "emits d (exec_begin h (Set_texture_state a n vs) d) (encode_begin (Set_texture_state a n vs))"
proof -
  have fits: "fifo_fits d (2 + 1 + 3 * n)" by (rule fits_eq [OF assms(3)]) (use assms(4) in simp)
  show ?thesis
    using begin_emits [of h d 1 3 n "field 0 [a]" "[]" vs "[a]" 4 12 1051] fits assms(1,2,4)
    by (simp add: BeginSetTextureState_def)
qed

lemma exec_Set_render_state:
  assumes "host_serving h" and "fifo_ready d" and "fifo_fits d (length (encode_begin (Set_render_state a n vs)))" and "valid_begin (Set_render_state a n vs)"
  shows "emits d (exec_begin h (Set_render_state a n vs) d) (encode_begin (Set_render_state a n vs))"
proof -
  have fits: "fifo_fits d (2 + 1 + 2 * n)" by (rule fits_eq [OF assms(3)]) (use assms(4) in simp)
  show ?thesis
    using begin_emits [of h d 1 2 n "field 0 [a]" "[]" vs "[a]" 4 8 1049] fits assms(1,2,4)
    by (simp add: BeginSetRenderState_def)
qed

lemma exec_Blit_surface_to_screen:
  assumes "host_serving h" and "fifo_ready d" and "fifo_fits d (length (encode_begin (Blit_surface_to_screen a b c e n vs)))" and "valid_begin (Blit_surface_to_screen a b c e n vs)"
  shows "emits d (exec_begin h (Blit_surface_to_screen a b c e n vs) d) (encode_begin (Blit_surface_to_screen a b c e n vs))"
proof -
  have fits: "fifo_fits d (2 + 12 + 4 * n)" by (rule fits_eq [OF assms(3)]) (use assms(4) in simp)
  show ?thesis
    using begin_emits [of h d 12 4 n "field 0 (image_dwords a) @ field 3 (signed_rect_dwords b) @ field 7 [c] @ field 8 (signed_rect_dwords e)" "[]" vs "image_dwords a @ signed_rect_dwords b @ [c] @ signed_rect_dwords e" 48 16 1069] fits assms(1,2,4)
    by (simp add: BeginBlitSurfaceToScreen_def)
qed

lemma exec_Present_readback:
  assumes "host_serving h" and "fifo_ready d" and "fifo_fits d (length (encode_begin (Present_readback n vs)))" and "valid_begin (Present_readback n vs)"
  shows "emits d (exec_begin h (Present_readback n vs) d) (encode_begin (Present_readback n vs))"
proof -
  have len: "length vs = 4 * n" using assms(4) by simp
  have fits: "fifo_fits d (4 * n + 2)" by (rule fits_eq [OF assms(3)]) (simp add: len)
  then have size: "size_mult 16 n = 16 * n" by (simp add: fifo_fits_def size_mult_def)
  have "writes (\<lambda>p. put_dwords p 0 vs) (4 * n) vs"
    using writes_dwords [of vs] by (simp add: len)
  from SVGA3D_emits [OF assms(1,2) fits this, of "16 * n" SVGA_3D_CMD_PRESENT_READBACK]
  show ?thesis by (simp add: BeginPresentReadback_def commit_begin size)
qed

lemma exec_Define_surface:
  assumes "host_serving h" and "fifo_ready d" and "fifo_fits d (length (encode_begin (Define_surface a b c e n vs)))" and "valid_begin (Define_surface a b c e n vs)"
  shows "emits d (exec_begin h (Define_surface a b c e n vs) d) (encode_begin (Define_surface a b c e n vs))"
proof -
  let ?hs = "field 0 [a] @ field 1 [b] @ field 2 [c]" and ?zs = "zeros 3 6 @ zeros 9 (3 * n)"
  have len: "length e = 6" "length vs = 3 * n" using assms(4) by simp_all
  have fits: "fifo_fits d (2 + 3 + (6 + 3 * n))" by (rule fits_eq [OF assms(3)]) (simp add: len)
  then have size: "size_add 36 (size_mult 12 n) = 36 + 12 * n"
    by (intro size_small) (simp add: fifo_fits_def)
  have "\<forall>(i, v) \<in> set ?zs. 3 \<le> i \<and> i < 3 + (6 + 3 * n)" by (auto dest!: zeros_bounds)
  moreover have "writes (\<lambda>p. put_dwords p 0 (e @ vs)) (6 + 3 * n) (e @ vs)"
    using writes_dwords [of "e @ vs"] by (simp add: len)
  ultimately show ?thesis
    using SVGA3D_begin_emits [OF assms(1,2) fits, of ?hs ?zs "\<lambda>p. put_dwords p 0 (e @ vs)" "e @ vs" "36 + 12 * n" SVGA_3D_CMD_SURFACE_DEFINE]
    by (simp add: BeginDefineSurface_def commit_begin size put_dwords_append put_dwords_ptr_add len)
qed

lemma exec_Surface_dma_suffix:
  assumes "host_serving h" and "fifo_ready d" and "fifo_fits d (length (encode_begin (Surface_dma_suffix a b c e f n vs)))" and "valid_begin (Surface_dma_suffix a b c e f n vs)"
  shows "emits d (exec_begin h (Surface_dma_suffix a b c e f n vs) d) (encode_begin (Surface_dma_suffix a b c e f n vs))"
proof -
  let ?hs = "guest_image_dwords a @ image_dwords b @ [c]"
  let ?ws = "field 0 ?hs @ field (7 + 9 * n) [12, e, f] @ field 7 vs"
  have len: "length vs = 9 * n" using assms(4) by simp
  have fits: "fifo_fits d (10 + 9 * n + 2)" by (rule fits_eq [OF assms(3)]) (simp add: len)
  have "size_add 28 (size_mult 36 n) = 28 + 36 * n"
    by (rule size_small) (use fits in \<open>simp add: fifo_fits_def\<close>)
  moreover have "size_add (28 + 36 * n) 12 = 40 + 36 * n"
    using fits by (simp add: fifo_fits_def size_add_def)
  ultimately have size: "size_add (size_add 28 (size_mult 36 n)) 12 = 40 + 36 * n" by simp
  have "writes (\<lambda>p. puts p ?ws) (10 + 9 * n) (?hs @ vs @ [12, e, f])"
    by (rule writes_fields) (auto simp: len fold_update_field dest!: field_bounds)
  from SVGA3D_emits [OF assms(1,2) fits this, of "40 + 36 * n" SVGA_3D_CMD_SURFACE_DMA]
  have "emits d (commit_cmd (SVGA3D_FIFOReserve h SVGA_3D_CMD_SURFACE_DMA (40 + 36 * n) d) (\<lambda>p. puts p ?ws))
      (SVGA_3D_CMD_SURFACE_DMA # of_nat (40 + 36 * n) # ?hs @ vs @ [12, e, f])" by simp
  moreover have "field 0 (guest_image_dwords a) @ field 3 (image_dwords b) @ field 6 [c] @
      field (7 + 9 * n) [12] @ field (8 + 9 * n) [e] @ field (9 + 9 * n) [f] =
      field 0 ?hs @ field (7 + 9 * n) [12, e, f]"
    using field_append [of "7 + 9 * n" "[12]" "[e, f]"] field_append [of "8 + 9 * n" "[e]" "[f]"]
    by (simp add: field_append [of _ _ "_ @ _"] field_append [of _ "image_dwords b"])
  moreover have "put_dwords (ptr_add p 7) 0 vs (puts p us d) = puts p (us @ field 7 vs) d" for p us d
    by (simp add: puts_append put_dwords_ptr_add put_dwords_field [symmetric])
  ultimately show ?thesis
    by (simp add: BeginSurfaceDMAwithSuffix_def commit_begin size)
qed

lemma exec_Draw_primitives:
  assumes "host_serving h" and "fifo_ready d" and "fifo_fits d (length (encode_begin (Draw_primitives a n m vs ws)))" and "valid_begin (Draw_primitives a n m vs ws)"
  shows "emits d (exec_begin h (Draw_primitives a n m vs ws) d) (encode_begin (Draw_primitives a n m vs ws))"
proof -
  have len: "length vs = 9 * n" "length ws = 7 * m" using assms(4) by simp_all
  have fits: "fifo_fits d (2 + 3 + (9 * n + 7 * m))" by (rule fits_eq [OF assms(3)]) (simp add: len)
  then have "size_add 12 (size_mult 36 n) = 12 + 36 * n" "size_add (12 + 36 * n) (size_mult 28 m) = 12 + 36 * n + 28 * m"
    by (auto intro!: size_small simp: fifo_fits_def)
  then have size: "size_add (size_add 12 (size_mult 36 n)) (size_mult 28 m) = 4 * (3 + (9 * n + 7 * m))" by simp
  have "writes (\<lambda>p. put_dwords p 0 (vs @ ws)) (9 * n + 7 * m) (vs @ ws)"
    using writes_dwords [of "vs @ ws"] by (simp add: len)
  from SVGA3D_begin_emits [OF assms(1,2) fits, of "field 0 [a] @ field 1 [of_nat n] @ field 2 [of_nat m]" "[]", OF _ _ _ this refl,
      of SVGA_3D_CMD_DRAW_PRIMITIVES]
  show ?thesis
    unfolding encode_begin.simps exec_begin.simps BeginDrawPrimitives_def commit_begin size
    by (simp add: put_dwords_append put_dwords_ptr_add len add.assoc)
qed

lemma exec_2d_emits:
  assumes "host_serving h" and "fifo_ready d" and "fifo_fits d (length (encode_2d c))" and "valid_2d c"
  shows "emits d (exec_2d h c d) (encode_2d c)"
  using assms
  by (cases c) (simp_all only: exec_Update exec_Rect_copy exec_Rect_fill exec_Define_gmr2 exec_Remap_gmr2
      exec_Video_reg exec_Video_flush exec_Destroy_screen exec_Define_gmrfb exec_Blit_from_gmrfb
      exec_Blit_to_gmrfb exec_Annotate_fill exec_Annotate_copy exec_Define_screen)

lemma exec_3d_emits:
  assumes "host_serving h" and "fifo_ready d" and "fifo_fits d (length (encode_3d c))" and "valid_3d c"
  shows "emits d (exec_3d h c d) (encode_3d c)"
  using assms
  by (cases c) (simp_all only: exec_Destroy_surface exec_Define_context exec_Destroy_context exec_Set_render_target
      exec_Set_transform exec_Set_material exec_Set_light_enabled exec_Set_light_data exec_Destroy_shader
      exec_Set_shader exec_Surface_stretch_blt exec_Set_viewport exec_Set_scissor_rect exec_Set_z_range
      exec_Set_clip_plane exec_Begin_query exec_End_query exec_Wait_for_query exec_Define_shader exec_Set_shader_const)

lemma exec_begin_emits:
  assumes "host_serving h" and "fifo_ready d" and "fifo_fits d (length (encode_begin c))" and "valid_begin c"
  shows "emits d (exec_begin h c d) (encode_begin c)"
  using assms
  by (cases c) (simp_all only: exec_Surface_dma exec_Present exec_Clear exec_Surface_copy exec_Set_texture_state
      exec_Set_render_state exec_Blit_surface_to_screen exec_Present_readback exec_Define_surface
      exec_Surface_dma_suffix exec_Draw_primitives)

lemma exec_emits:
  assumes "host_serving h" and "fifo_ready d" and "fifo_fits d (length (encode c))" and "valid c"
  shows "emits d (exec h c d) (encode c)"
  using assms by (cases c) (simp_all add: exec_2d_emits exec_3d_emits exec_begin_emits)

section \<open>Sequences of commands\<close>

text \<open>A client that issues commands in order and stops at the first failure.\<close>

fun exec_all :: "host \<Rightarrow> command list \<Rightarrow> svga \<Rightarrow> (bool \<times> svga) option" where
  "exec_all h [] d = Some (True, d)"
| "exec_all h (c # cs) d = do {
     (ok, d) \<leftarrow> exec h c d;
     if ok then exec_all h cs d else Some (False, d)
   }"

lemma driver_fields_fits: "driver_fields e = driver_fields d \<Longrightarrow> fifo_fits e n = fifo_fits d n"
  by (simp add: fifo_fits_def driver_fields_def fifo_cap_def fifo_lo_def fifo_hi_def)

text \<open>
  The host may have taken part of the commands while later ones were written, so what the queue
  holds is a final part of the old queue and the commands.
\<close>

definition streamed :: "svga \<Rightarrow> (bool \<times> svga) option \<Rightarrow> u32 list \<Rightarrow> bool" where
  "streamed d r stream \<longleftrightarrow> (\<exists>e k. r = Some (True, e) \<and> fifo_ready e \<and>
     fifo_queue (m_fifo e) = drop k (fifo_queue (m_fifo d) @ stream) \<and> driver_fields e = driver_fields d)"

lemma exec_all_streams:
  assumes "host_serving h" and "fifo_ready d" and "\<forall>c \<in> set cs. valid c \<and> fifo_fits d (length (encode c))"
  shows "streamed d (exec_all h cs d) (concat (map encode cs))"
  using assms(2,3)
proof (induction cs arbitrary: d)
  case Nil
  then show ?case unfolding streamed_def by (auto intro!: exI [of _ 0])
next
  case (Cons c cs)
  have "emits d (exec h c d) (encode c)" using exec_emits assms(1) Cons.prems by simp
  then obtain e k where e: "exec h c d = Some (True, e)" "fifo_ready e"
    "fifo_queue (m_fifo e) = drop k (fifo_queue (m_fifo d)) @ encode c" "driver_fields e = driver_fields d"
    unfolding emits_def by blast
  have "streamed e (exec_all h cs e) (concat (map encode cs))"
    using Cons.IH [OF e(2)] Cons.prems(2) driver_fields_fits [OF e(4)] by simp
  then obtain f j where f: "exec_all h cs e = Some (True, f)" "fifo_ready f"
    "fifo_queue (m_fifo f) = drop j (fifo_queue (m_fifo e) @ concat (map encode cs))"
    "driver_fields f = driver_fields e"
    unfolding streamed_def by blast
  let ?q = "fifo_queue (m_fifo d)"
  let ?k = "min k (length ?q)"
  have "fifo_queue (m_fifo f) = drop (j + ?k) (?q @ encode c @ concat (map encode cs))"
    using f(3) e(3) by (simp add: min_def drop_drop [symmetric] del: drop_drop drop_append) (auto simp: drop_append)
  then show ?case
    unfolding streamed_def using e f by (auto intro!: exI [of _ "j + ?k"])
qed

section \<open>The stream parses back into the commands\<close>









text \<open>C2: A client that issues any sequence of valid commands of the 2D, video, screen object and 3D writers, each within the
  bounds a reservation accepts, gets them all accepted by a host that serves the FIFO; the queue then
  holds, but for what the host has taken from its front, the old contents followed by the documented
  encodings in order, with no reservation open and the driver's fields unchanged.\<close>

theorem command_stream:
  assumes "host_serving h" and "fifo_ready d" and "\<forall>c \<in> set cs. valid c \<and> fifo_fits d (length (encode c))"
  shows "\<exists>e k. exec_all h cs d = Some (True, e) \<and> fifo_ready e \<and> driver_fields e = driver_fields d \<and>
     fifo_queue (m_fifo e) = drop k (fifo_queue (m_fifo d) @ concat (map encode cs))"
  using exec_all_streams [OF assms] unfolding streamed_def by blast

lemma command_stream_witness:
  "\<exists>e k. exec_all drain_host [Cmd_2d (Update 0 0 8 8), Cmd_3d (Define_context 5), Cmd_begin (Present 3 1 [0, 0, 4, 4, 0, 0])]
       (small_svga 1200 1256 64) = Some (True, e) \<and> fifo_ready e \<and>
     driver_fields e = driver_fields (small_svga 1200 1256 64) \<and>
     fifo_queue (m_fifo e) = drop k (fifo_queue (m_fifo (small_svga 1200 1256 64)) @
       [1, 0, 0, 8, 8, 1045, 4, 5, 1058, 28, 3, 0, 0, 4, 4, 0, 0])"
  using command_stream [OF drain_host_serving small_svga_ready(1) [of 1200 1256 64],
      of "[Cmd_2d (Update 0 0 8 8), Cmd_3d (Define_context 5), Cmd_begin (Present 3 1 [0, 0, 4, 4, 0, 0])]"]
  by (simp add: fifo_fits_def small_svga_ready)



section \<open>Errors\<close>

text \<open>\<open>FIFOCommit(0)\<close> closes a reservation and adds nothing to the queue.\<close>

lemma fifo_reserved_irrelevant:
  assumes "fifo_wf m"
  shows "fifo_wf (m(14 := v))" and "fifo_queue (m(14 := v)) = fifo_queue m"
proof -
  show wf: "fifo_wf (m(14 := v))"
    using assms by (simp add: fifo_wf_def fifo_lo_def fifo_hi_def fifo_next_def fifo_stop_def)
  show "fifo_queue (m(14 := v)) = fifo_queue m"
    by (rule fifo_queue_cong) (use assms in \<open>auto simp: fifo_wf_def fifo_lo_def\<close>)
qed

lemma FIFOCommit_nothing:
  assumes "fifo_pending d p n"
  shows "fifo_ready (FIFOCommit 0 d) \<and> fifo_queue (m_fifo (FIFOCommit 0 d)) = fifo_queue (m_fifo d) \<and>
    driver_fields (FIFOCommit 0 d) = driver_fields d"
proof -
  have wf: "fifo_wf (m_fifo d)" and "m_reserved_size d \<noteq> 0"
    using assms by (auto simp: fifo_pending_def)
  moreover from wf have "\<not> m_fifo d 1 \<le> m_fifo d 2"
    by (auto simp: fifo_wf_def fifo_next_def fifo_hi_def word_le_nat_alt)
  ultimately have "m_fifo (FIFOCommit 0 d) = m_fifo d \<or> m_fifo (FIFOCommit 0 d) = (m_fifo d)(14 := 0)"
    and "FIFOCommit 0 d = d\<lparr>m_reserved_size := 0, m_fifo := m_fifo (FIFOCommit 0 d)\<rparr>"
    by (auto simp: FIFOCommit_def Let_def blit_def fun_eq_iff)
  then show ?thesis
    using fifo_reserved_irrelevant [OF wf] wf
    by (auto simp: fifo_ready_def driver_fields_def)
qed

text \<open>\<open>SetShaderConst\<close> with a constant type it does not know reports \<open>kIOReturnBadArgument\<close>, and although it
  has reserved the command by then and stored its header, nothing of it reaches the device: no
  reservation stays open and the queue holds only what it held before.\<close>

theorem SetShaderConst_unknown_type:
  assumes "host_serving h" and "fifo_ready d" and "fifo_fits d 10" and "ctype \<notin> {0, 1, 2}"
  shows "\<exists>e k. SetShaderConst h cid reg type ctype val d = Some (kIOReturnBadArgument, e) \<and> fifo_ready e \<and>
     fifo_queue (m_fifo e) = drop k (fifo_queue (m_fifo d)) \<and> driver_fields e = driver_fields d"
proof -
  obtain p t k where t: "FIFOReserve h 40 d = Some (Some p, t)" "fifo_pending t p 10"
    "driver_fields t = driver_fields d" "fifo_queue (m_fifo t) = drop k (fifo_queue (m_fifo d))"
    using fifo.reserve_ok [OF assms(1,2) _ assms(3)] by auto
  let ?ws = "[(0 :: nat, SVGA_3D_CMD_SET_SHADER_CONST), (1, 32), (2, cid), (3, reg), (4, type), (5, ctype)]"
  let ?t = "puts p ?ws t"
  have "fifo_pending ?t p 10" "fifo_queue (m_fifo ?t) = fifo_queue (m_fifo t)" "driver_fields ?t = driver_fields t"
    using fifo.write_all_pending [OF t(2), of ?ws] by (simp_all add: puts_write_all)
  note FIFOCommit_nothing [OF this(1)] this(2,3)
  moreover have "SetShaderConst h cid reg type ctype val d = Some (kIOReturnBadArgument, FIFOCommit 0 ?t)"
    using t(1) assms(4)
    by (simp add: SetShaderConst_def SVGA3D_FIFOReserve_def size_add_def Let_def puts_def field_def put_ptr_add)
  ultimately show ?thesis using t by auto
qed

lemma SetShaderConst_unknown_type_witness:
  "\<exists>e k. SetShaderConst drain_host 1 2 3 9 [] (small_svga 1200 1256 64) = Some (kIOReturnBadArgument, e) \<and> fifo_ready e \<and>
     fifo_queue (m_fifo e) = drop k (fifo_queue (m_fifo (small_svga 1200 1256 64))) \<and>
     driver_fields e = driver_fields (small_svga 1200 1256 64)"
  by (rule SetShaderConst_unknown_type [OF drain_host_serving])
    (simp_all add: small_svga_ready fifo_fits_def)

end
