(* ===== verification/AllocBitmap.thy ===== *)
theory AllocBitmap
  imports Prelude
begin

text \<open>
  The bit map of the VRAM allocator (\<^verbatim>\<open>AC/VMsvga2Allocator.cpp\<close>): one bit per 4K block, most
  significant bit of a byte first.  The range operations treat the bits before and after the
  full bytes one by one and the full bytes with string instructions.  The lemmas relate them to the
  single bits; \<open>memAll\<close> and \<open>memAny\<close> turn out to ignore the last byte they are given.
\<close>

section \<open>The operations\<close>

definition BITTEST :: "u8 list \<Rightarrow> nat \<Rightarrow> bool" where
  "BITTEST m n \<longleftrightarrow> m ! (n div 8) AND drop_bit (n mod 8) 128 \<noteq> 0"

definition BITSET :: "u8 list \<Rightarrow> nat \<Rightarrow> u8 list" where
  "BITSET m n = m[n div 8 := m ! (n div 8) OR drop_bit (n mod 8) 128]"

definition BITCLEAR :: "u8 list \<Rightarrow> nat \<Rightarrow> u8 list" where
  "BITCLEAR m n = m[n div 8 := m ! (n div 8) AND NOT (drop_bit (n mod 8) 128)]"

text \<open>
  \<^verbatim>\<open>repe scasb\<close>: compares bytes with \<open>v\<close>, counting the count register down by one per byte, until
  the count is zero or a byte differs.  The result is the count register at the end.
\<close>

fun repe_scasb :: "u8 \<Rightarrow> u8 list \<Rightarrow> nat \<Rightarrow> nat" where
  "repe_scasb v p 0 = 0"
| "repe_scasb v [] (Suc n) = Suc n"
| "repe_scasb v (x # p) (Suc n) = (if x = v then repe_scasb v p n else n)"

text \<open>\<open>p\<close> is the memory from the pointer on.\<close>

definition memAll :: "u8 list \<Rightarrow> nat \<Rightarrow> bool" where
  "memAll p bytes = (if bytes = 0 then True else repe_scasb 0xFF p bytes = 0)"

definition memAny :: "u8 list \<Rightarrow> nat \<Rightarrow> bool" where
  "memAny p bytes = (if bytes = 0 then False else repe_scasb 0 p bytes \<noteq> 0)"

definition testAll :: "u8 list \<Rightarrow> nat \<Rightarrow> nat \<Rightarrow> bool" where
  "testAll m firstBit pastBit =
    (let firstFull = (firstBit + 7) div 8 * 8;
         pastFull = pastBit div 8 * 8;
         past = (if pastBit > firstFull then firstFull else pastBit)
     in if list_ex (\<lambda>i. \<not> BITTEST m i) [firstBit..<past] then False
        else if pastFull > firstFull \<and> \<not> memAll (drop (firstFull div 8) m) ((pastFull - firstFull) div 8) then False
        else let pastFull = (if pastFull < past then past else pastFull)
             in \<not> list_ex (\<lambda>i. \<not> BITTEST m i) [pastFull..<pastBit])"

definition bzero_bytes :: "u8 list \<Rightarrow> nat \<Rightarrow> nat \<Rightarrow> u8 list" where
  "bzero_bytes m i n = take i m @ replicate n 0 @ drop (i + n) m"

definition clearAll :: "u8 list \<Rightarrow> nat \<Rightarrow> nat \<Rightarrow> u8 list" where
  "clearAll m firstBit pastBit =
    (let firstFull = (firstBit + 7) div 8 * 8;
         pastFull = pastBit div 8 * 8;
         past = (if pastBit > firstFull then firstFull else pastBit);
         m = fold (\<lambda>i m. BITCLEAR m i) [firstBit..<past] m;
         m = (if pastFull > firstFull then bzero_bytes m (firstFull div 8) ((pastFull - firstFull) div 8) else m);
         pastFull = (if pastFull < past then past else pastFull)
     in fold (\<lambda>i m. BITCLEAR m i) [pastFull..<pastBit] m)"

definition clearCheck :: "u8 list \<Rightarrow> nat \<Rightarrow> nat \<Rightarrow> ioreturn \<times> u8 list" where
  "clearCheck m firstBit pastBit =
    (if \<not> testAll m firstBit pastBit then (kIOReturnBadMedia, m)
     else (kIOReturnSuccess, clearAll m firstBit pastBit))"

definition testAny :: "u8 list \<Rightarrow> nat \<Rightarrow> nat \<Rightarrow> bool" where
  "testAny m firstBit pastBit =
    (let firstFull = (firstBit + 7) div 8 * 8;
         pastFull = pastBit div 8 * 8;
         past = (if pastBit > firstFull then firstFull else pastBit)
     in if list_ex (BITTEST m) [firstBit..<past] then True
        else if pastFull > firstFull \<and> memAny (drop (firstFull div 8) m) ((pastFull - firstFull) div 8) then True
        else let pastFull = (if pastFull < past then past else pastFull)
             in list_ex (BITTEST m) [pastFull..<pastBit])"

section \<open>Single bits\<close>

lemma bit_mask_128: "n < 8 \<Longrightarrow> drop_bit n (128 :: u8) = push_bit (7 - n) 1"
proof -
  assume "n < 8"
  then have "n \<in> {0, 1, 2, 3, 4, 5, 6, 7}" by auto
  then show ?thesis by (elim insertE) simp_all
qed

lemma BITTEST_bit: "BITTEST m n \<longleftrightarrow> bit (m ! (n div 8)) (7 - n mod 8)"
  unfolding BITTEST_def by (simp add: bit_mask_128 bit_iff_and_push_bit_not_eq_0 del: push_bit_of_1)

lemma length_BIT [simp]: "length (BITSET m n) = length m" "length (BITCLEAR m n) = length m"
  by (simp_all add: BITSET_def BITCLEAR_def)

lemma same_bit:
  "k div 8 = n div 8 \<Longrightarrow> 7 - k mod 8 = 7 - n mod 8 \<longleftrightarrow> k = (n :: nat)"
proof -
  assume d: "k div 8 = n div 8"
  have "k mod 8 < 8" "n mod 8 < 8" by simp_all
  then have "7 - k mod 8 = 7 - n mod 8 \<longleftrightarrow> k mod 8 = n mod 8" by linarith
  also have "\<dots> \<longleftrightarrow> k = n" using d by (metis div_mult_mod_eq)
  finally show ?thesis .
qed

lemma BITTEST_BITSET [simp]:
  assumes "n div 8 < length m"
  shows "BITTEST (BITSET m n) k \<longleftrightarrow> k = n \<or> BITTEST m k"
proof (cases "k div 8 = n div 8")
  case True
  then show ?thesis
    using assms same_bit [OF True]
    by (auto simp: BITTEST_bit BITSET_def bit_mask_128 bit_simps)
qed (auto simp: BITTEST_def BITSET_def)

lemma BITTEST_BITCLEAR [simp]:
  assumes "n div 8 < length m"
  shows "BITTEST (BITCLEAR m n) k \<longleftrightarrow> k \<noteq> n \<and> BITTEST m k"
proof (cases "k div 8 = n div 8")
  case True
  then show ?thesis
    using assms same_bit [OF True]
    by (auto simp: BITTEST_bit BITCLEAR_def bit_mask_128 bit_simps)
qed (auto simp: BITTEST_def BITCLEAR_def)

section \<open>Ranges of bits\<close>

lemma byte_bits: "(\<forall>n. n div 8 = j \<longrightarrow> P (BITTEST m n)) \<longleftrightarrow> (\<forall>i < 8. P (bit (m ! j) i))"
proof
  assume *: "\<forall>n. n div 8 = j \<longrightarrow> P (BITTEST m n)"
  show "\<forall>i < 8. P (bit (m ! j) i)"
  proof (intro allI impI)
    fix i :: nat assume i: "i < 8"
    define k where "k = 8 * j + (7 - i)"
    have "7 - i < 8" "7 - (7 - i) = i" using i by simp_all
    then have "k div 8 = j" "7 - k mod 8 = i"
      unfolding k_def by (simp_all only: div_mult_self4 mod_mult_self4 div_less mod_less)
    then show "P (bit (m ! j) i)" using * [rule_format, of k] by (simp add: BITTEST_bit)
  qed
next
  assume *: "\<forall>i < 8. P (bit (m ! j) i)"
  show "\<forall>n. n div 8 = j \<longrightarrow> P (BITTEST m n)"
  proof (intro allI impI)
    fix n :: nat assume "n div 8 = j"
    moreover have "7 - n mod 8 < 8" by simp
    ultimately show "P (BITTEST m n)" using * by (auto simp: BITTEST_bit)
  qed
qed

lemma byte_full: "m ! j = 0xFF \<longleftrightarrow> (\<forall>n. n div 8 = j \<longrightarrow> BITTEST m n)"
proof -
  have "(\<forall>n. n div 8 = j \<longrightarrow> BITTEST m n) \<longleftrightarrow> (\<forall>i < 8. bit (m ! j) i)" by (fact byte_bits)
  also have "\<dots> \<longleftrightarrow> m ! j = - 1"
    by (auto intro!: bit_word_eqI)
  moreover have "(- 1 :: u8) = 0xFF" by simp
  ultimately show ?thesis by simp
qed

lemma byte_empty: "m ! j = 0 \<longleftrightarrow> (\<forall>n. n div 8 = j \<longrightarrow> \<not> BITTEST m n)"
proof -
  have "(\<forall>n. n div 8 = j \<longrightarrow> \<not> BITTEST m n) \<longleftrightarrow> (\<forall>i < 8. \<not> bit (m ! j) i)" by (fact byte_bits)
  also have "\<dots> \<longleftrightarrow> m ! j = 0"
    by (auto intro!: bit_word_eqI)
  finally show ?thesis by simp
qed

text \<open>What the string instruction establishes: nothing about the last byte.\<close>

lemma repe_scasb_0:
  assumes "n \<le> length p" and "0 < n"
  shows "repe_scasb v p n = 0 \<longleftrightarrow> (\<forall>i < n - 1. p ! i = v)"
  using assms
proof (induction v p n rule: repe_scasb.induct)
  case (3 v x p n)
  then show ?case by (cases n) (auto simp: less_Suc_eq_0_disj)
qed simp_all

lemma fold_BITCLEAR:
  assumes "b \<le> 8 * length m"
  shows "length (fold (\<lambda>i m. BITCLEAR m i) [a..<b] m) = length m \<and>
    BITTEST (fold (\<lambda>i m. BITCLEAR m i) [a..<b] m) n = (BITTEST m n \<and> \<not> (a \<le> n \<and> n < b))"
  using assms
proof (induction b)
  case (Suc b)
  then show ?case
  proof (cases "a \<le> b")
    case True
    with Suc show ?thesis by auto
  qed auto
qed simp

lemma length_bzero_bytes: "i + n \<le> length m \<Longrightarrow> length (bzero_bytes m i n) = length m"
  by (simp add: bzero_bytes_def)

lemma BITTEST_bzero_bytes:
  assumes "i + n \<le> length m" and "0 < n"
  shows "BITTEST (bzero_bytes m i n) k \<longleftrightarrow> BITTEST m k \<and> \<not> (8 * i \<le> k \<and> k < 8 * (i + n))"
proof -
  have "bzero_bytes m i n ! j = (if i \<le> j \<and> j < i + n then 0 else m ! j)" for j
    using assms by (auto simp: bzero_bytes_def nth_append min_def)
  then have "BITTEST (bzero_bytes m i n) k \<longleftrightarrow> \<not> (i \<le> k div 8 \<and> k div 8 < i + n) \<and> BITTEST m k"
    by (auto simp: BITTEST_def)
  moreover have "i \<le> k div 8 \<and> k div 8 < i + n \<longleftrightarrow> 8 * i \<le> k \<and> k < 8 * (i + n)"
    by (auto simp: less_eq_div_iff_mult_less_eq div_less_iff_less_mult)
  ultimately show ?thesis by auto
qed

text \<open>The last of the full bytes of a range: the one the string instructions do not look at.\<close>

definition overlooked :: "nat \<Rightarrow> nat \<Rightarrow> nat \<Rightarrow> bool" where
  "overlooked a b n \<longleftrightarrow> (a + 7) div 8 < b div 8 \<and> n div 8 = b div 8 - 1"

text \<open>The parts of a range: bits before, in and after the full bytes.\<close>

lemma range_parts:
  fixes a b n :: nat
  defines "past \<equiv> (if b > (a + 7) div 8 * 8 then (a + 7) div 8 * 8 else b)"
  defines "q \<equiv> (if b div 8 * 8 < past then past else b div 8 * 8)"
  assumes "a \<le> b"
  shows "a \<le> n \<and> n < b \<longleftrightarrow> (a \<le> n \<and> n < past) \<or> (q \<le> n \<and> n < b) \<or>
      ((a + 7) div 8 < b div 8 \<and> (a + 7) div 8 \<le> n div 8 \<and> n div 8 < b div 8)"
    and "a \<le> n \<and> n < b \<and> \<not> overlooked a b n \<longleftrightarrow> (a \<le> n \<and> n < past) \<or> (q \<le> n \<and> n < b) \<or>
      ((a + 7) div 8 < b div 8 \<and> (a + 7) div 8 \<le> n div 8 \<and> n div 8 < b div 8 - 1)"
proof -
  define F P N where "F = (a + 7) div 8" and "P = b div 8" and "N = n div 8"
  have r: "a \<le> 8 * F" "8 * F < a + 8" "8 * P \<le> b" "b < 8 * P + 8" "8 * N \<le> n" "n < 8 * N + 8"
    by (auto simp: F_def P_def N_def)
  have pq: "(past = 8 * F \<and> q = 8 * P \<and> F \<le> P \<and> 8 * F < b) \<or> (past = b \<and> q = b \<and> P \<le> F \<and> b \<le> 8 * F)"
    using r unfolding past_def q_def F_def [symmetric] P_def [symmetric] by auto
  then have whole: "a \<le> n \<and> n < b \<longleftrightarrow> (a \<le> n \<and> n < past) \<or> (q \<le> n \<and> n < b) \<or> (F < P \<and> F \<le> N \<and> N < P)"
    using r assms(3)
  proof (elim disjE conjE)
    assume "past = 8 * F" "q = 8 * P" "F \<le> P" "8 * F < b"
    moreover from this have "8 * P \<le> n \<Longrightarrow> a \<le> n" using r by linarith
    ultimately show "(a \<le> n \<and> n < b) = ((a \<le> n \<and> n < past) \<or> (q \<le> n \<and> n < b) \<or> (F < P \<and> F \<le> N \<and> N < P))"
      using r by auto
  qed auto
  have "\<not> (a \<le> n \<and> n < past) \<and> \<not> (q \<le> n \<and> n < b)" if "F < P \<and> N = P - 1"
    using that pq r by auto
  with whole have "a \<le> n \<and> n < b \<and> \<not> (F < P \<and> N = P - 1) \<longleftrightarrow>
      (a \<le> n \<and> n < past) \<or> (q \<le> n \<and> n < b) \<or> (F < P \<and> F \<le> N \<and> N < P - 1)"
    by linarith
  then show "a \<le> n \<and> n < b \<and> \<not> overlooked a b n \<longleftrightarrow> (a \<le> n \<and> n < past) \<or> (q \<le> n \<and> n < b) \<or>
      ((a + 7) div 8 < b div 8 \<and> (a + 7) div 8 \<le> n div 8 \<and> n div 8 < b div 8 - 1)"
    by (simp only: overlooked_def F_def P_def N_def)
  show "a \<le> n \<and> n < b \<longleftrightarrow> (a \<le> n \<and> n < past) \<or> (q \<le> n \<and> n < b) \<or>
      ((a + 7) div 8 < b div 8 \<and> (a + 7) div 8 \<le> n div 8 \<and> n div 8 < b div 8)"
    using whole by (simp only: F_def P_def N_def)
qed

lemma clearAll_bits:
  assumes "b \<le> 8 * length m" and "a \<le> b"
  shows "length (clearAll m a b) = length m \<and>
    BITTEST (clearAll m a b) n = (BITTEST m n \<and> \<not> (a \<le> n \<and> n < b))"
proof -
  define F P where "F = (a + 7) div 8" and "P = b div 8"
  have r: "a \<le> 8 * F" "8 * F < a + 8" "8 * P \<le> b" "b < 8 * P + 8" "P \<le> length m"
    using assms(1) by (auto simp: F_def P_def)
  define past where "past = (if b > F * 8 then F * 8 else b)"
  define m1 where "m1 = fold (\<lambda>i m. BITCLEAR m i) [a..<past] m"
  define m2 where "m2 = (if P * 8 > F * 8 then bzero_bytes m1 (F * 8 div 8) ((P * 8 - F * 8) div 8) else m1)"
  define q where "q = (if P * 8 < past then past else P * 8)"
  have m1: "length m1 = length m" "BITTEST m1 n = (BITTEST m n \<and> \<not> (a \<le> n \<and> n < past))"
    unfolding m1_def using fold_BITCLEAR [of past m a n] assms by (auto simp: past_def)
  have m2: "length m2 = length m" "BITTEST m2 n = (BITTEST m n \<and> \<not> (a \<le> n \<and> n < past) \<and> \<not> (8 * F \<le> n \<and> n < 8 * P))"
    using r m1 length_bzero_bytes [of F "P - F" m1] BITTEST_bzero_bytes [of F "P - F" m1 n]
    by (auto simp: m2_def diff_mult_distrib [symmetric])
  have "b \<le> 8 * length m2" using m2 assms by simp
  have parts: "(a \<le> n \<and> n < past) \<or> (8 * F \<le> n \<and> n < 8 * P) \<or> (q \<le> n \<and> n < b) \<longleftrightarrow> a \<le> n \<and> n < b"
  proof -
    have "F \<le> n div 8 \<and> n div 8 < P \<longleftrightarrow> 8 * F \<le> n \<and> n < 8 * P"
      by (simp add: less_eq_div_iff_mult_less_eq div_less_iff_less_mult mult.commute)
    moreover have "F \<le> n div 8 \<Longrightarrow> n div 8 < P \<Longrightarrow> F < P" by (rule order_le_less_trans)
    moreover note range_parts(1) [OF assms(2), of n, folded F_def P_def, folded past_def, folded q_def]
    ultimately show ?thesis by blast
  qed
  from fold_BITCLEAR [OF \<open>b \<le> 8 * length m2\<close>, of q n]
  have "length (fold (\<lambda>i m. BITCLEAR m i) [q..<b] m2) = length m \<and>
      BITTEST (fold (\<lambda>i m. BITCLEAR m i) [q..<b] m2) n = (BITTEST m n \<and> \<not> (a \<le> n \<and> n < b))"
    unfolding m2 using parts by blast
  moreover have "clearAll m a b = fold (\<lambda>i m. BITCLEAR m i) [q..<b] m2"
    unfolding clearAll_def Let_def F_def P_def past_def m1_def m2_def q_def by (rule refl)
  ultimately show ?thesis by simp
qed

lemma shift_range:
  assumes "f < (p :: nat)"
  shows "(\<forall>i < p - f - 1. P (f + i)) \<longleftrightarrow> (\<forall>j. f \<le> j \<and> j < p - 1 \<longrightarrow> P j)"
proof (intro iffI allI impI)
  fix j assume all: "\<forall>i < p - f - 1. P (f + i)" and "f \<le> j \<and> j < p - 1"
  then have "j - f < p - f - 1" "f + (j - f) = j" by linarith+
  with all show "P j" by metis
qed (use assms in auto)

lemma middle_bytes:
  assumes "b \<le> 8 * length m" and "(a + 7) div 8 < b div 8"
  shows "repe_scasb v (drop ((a + 7) div 8) m) (b div 8 - (a + 7) div 8) = 0 \<longleftrightarrow>
    (\<forall>j. (a + 7) div 8 \<le> j \<and> j < b div 8 - 1 \<longrightarrow> m ! j = v)"
proof -
  let ?f = "(a + 7) div 8" and ?n = "b div 8 - (a + 7) div 8"
  have "?n \<le> length (drop ?f m)" using assms by auto
  then have "repe_scasb v (drop ?f m) ?n = 0 \<longleftrightarrow> (\<forall>i < ?n - 1. drop ?f m ! i = v)"
    by (rule repe_scasb_0) (use assms in simp)
  also have "\<dots> \<longleftrightarrow> (\<forall>i < ?n - 1. m ! (?f + i) = v)"
    using assms by (auto simp: nth_drop)
  also have "\<dots> \<longleftrightarrow> (\<forall>j. ?f \<le> j \<and> j < b div 8 - 1 \<longrightarrow> m ! j = v)"
    using assms(2) by (rule shift_range)
  finally show ?thesis .
qed


text \<open>The tests as early returns and as formulas.\<close>

lemma early_false: "(if A then False else if B then False else C) = (\<not> A \<and> \<not> B \<and> C)"
  by simp

lemma early_true: "(if A then True else if B then True else C) = (A \<or> B \<or> C)"
  by simp

lemma upt_ex: "list_ex P [a..<b] \<longleftrightarrow> (\<exists>n. (a \<le> n \<and> n < b) \<and> P n)"
  unfolding list_ex_iff by auto

lemma byte_less: "F * 8 < P * 8 \<longleftrightarrow> F < (P :: nat)"
  by simp

lemma all_parts:
  assumes "f \<Longrightarrow> M = (\<forall>n. C n \<longrightarrow> Q n)"
  shows "(\<not> (\<exists>n. A n \<and> \<not> Q n) \<and> \<not> (f \<and> \<not> M) \<and> \<not> (\<exists>n. B n \<and> \<not> Q n)) =
    (\<forall>n. A n \<or> B n \<or> (f \<and> C n) \<longrightarrow> Q n)"
  using assms by blast

lemma ex_parts:
  assumes "f \<Longrightarrow> M = (\<exists>n. C n \<and> Q n)"
  shows "((\<exists>n. A n \<and> Q n) \<or> (f \<and> M) \<or> (\<exists>n. B n \<and> Q n)) = (\<exists>n. (A n \<or> B n \<or> (f \<and> C n)) \<and> Q n)"
  using assms by blast

lemma testAll_iff:
  assumes "b \<le> 8 * length m" and "a \<le> b"
  shows "testAll m a b \<longleftrightarrow> (\<forall>n. a \<le> n \<and> n < b \<and> \<not> overlooked a b n \<longrightarrow> BITTEST m n)"
proof -
  define F P where "F = (a + 7) div 8" and "P = b div 8"
  define past where "past = (if b > F * 8 then F * 8 else b)"
  define q where "q = (if P * 8 < past then past else P * 8)"
  have mem: "memAll (drop (F * 8 div 8) m) ((P * 8 - F * 8) div 8) \<longleftrightarrow>
      (\<forall>n. F \<le> n div 8 \<and> n div 8 < P - 1 \<longrightarrow> BITTEST m n)" if "F < P"
    using middle_bytes [of b m a "0xFF"] assms(1) that byte_full
    unfolding F_def [symmetric] P_def [symmetric]
    by (auto simp: memAll_def diff_mult_distrib [symmetric])
  have parts: "a \<le> n \<and> n < b \<and> \<not> overlooked a b n \<longleftrightarrow> (a \<le> n \<and> n < past) \<or> (q \<le> n \<and> n < b) \<or>
      (F < P \<and> F \<le> n div 8 \<and> n div 8 < P - 1)" for n
    unfolding q_def past_def F_def P_def by (rule range_parts(2) [OF assms(2)])
  have "testAll m a b \<longleftrightarrow> \<not> list_ex (\<lambda>i. \<not> BITTEST m i) [a..<past] \<and>
      \<not> (F * 8 < P * 8 \<and> \<not> memAll (drop (F * 8 div 8) m) ((P * 8 - F * 8) div 8)) \<and>
      \<not> list_ex (\<lambda>i. \<not> BITTEST m i) [q..<b]"
    unfolding testAll_def Let_def early_false F_def P_def past_def q_def by (rule refl)
  also have "\<dots> \<longleftrightarrow> (\<forall>n. (a \<le> n \<and> n < past) \<or> (q \<le> n \<and> n < b) \<or> (F < P \<and> F \<le> n div 8 \<and> n div 8 < P - 1) \<longrightarrow> BITTEST m n)"
    unfolding upt_ex byte_less by (rule all_parts) (use mem in blast)
  finally show ?thesis unfolding parts .
qed

lemma testAny_iff:
  assumes "b \<le> 8 * length m" and "a \<le> b"
  shows "testAny m a b \<longleftrightarrow> (\<exists>n. (a \<le> n \<and> n < b \<and> \<not> overlooked a b n) \<and> BITTEST m n)"
proof -
  define F P where "F = (a + 7) div 8" and "P = b div 8"
  define past where "past = (if b > F * 8 then F * 8 else b)"
  define q where "q = (if P * 8 < past then past else P * 8)"
  have mem: "memAny (drop (F * 8 div 8) m) ((P * 8 - F * 8) div 8) \<longleftrightarrow>
      (\<exists>n. F \<le> n div 8 \<and> n div 8 < P - 1 \<and> BITTEST m n)" if "F < P"
    using middle_bytes [of b m a 0] assms(1) that byte_empty
    unfolding F_def [symmetric] P_def [symmetric]
    by (auto simp: memAny_def diff_mult_distrib [symmetric])
  have parts: "a \<le> n \<and> n < b \<and> \<not> overlooked a b n \<longleftrightarrow> (a \<le> n \<and> n < past) \<or> (q \<le> n \<and> n < b) \<or>
      (F < P \<and> F \<le> n div 8 \<and> n div 8 < P - 1)" for n
    unfolding q_def past_def F_def P_def by (rule range_parts(2) [OF assms(2)])
  have "testAny m a b \<longleftrightarrow> list_ex (BITTEST m) [a..<past] \<or>
      (F * 8 < P * 8 \<and> memAny (drop (F * 8 div 8) m) ((P * 8 - F * 8) div 8)) \<or>
      list_ex (BITTEST m) [q..<b]"
    unfolding testAny_def Let_def early_true F_def P_def past_def q_def by (rule refl)
  also have "\<dots> \<longleftrightarrow> (\<exists>n. ((a \<le> n \<and> n < past) \<or> (q \<le> n \<and> n < b) \<or> (F < P \<and> F \<le> n div 8 \<and> n div 8 < P - 1)) \<and> BITTEST m n)"
    unfolding upt_ex byte_less by (rule ex_parts) (use mem in blast)
  finally show ?thesis unfolding parts .
qed

section \<open>Properties\<close>

text \<open>The range operations against single bits: clearing a range clears exactly its bits, and the
  tests look at exactly its bits, except that they skip the last full byte of a range that has full bytes.\<close>

theorem bitmap_ranges:
  assumes "a \<le> b" and "b \<le> 8 * length m"
  shows "length (clearAll m a b) = length m \<and>
    (\<forall>n. BITTEST (clearAll m a b) n = (BITTEST m n \<and> \<not> (a \<le> n \<and> n < b))) \<and>
    testAll m a b = (\<forall>n. a \<le> n \<and> n < b \<and> \<not> ((a + 7) div 8 < b div 8 \<and> n div 8 = b div 8 - 1) \<longrightarrow> BITTEST m n) \<and>
    testAny m a b = (\<exists>n. a \<le> n \<and> n < b \<and> \<not> ((a + 7) div 8 < b div 8 \<and> n div 8 = b div 8 - 1) \<and> BITTEST m n)"
  using clearAll_bits [OF assms(2,1)] testAll_iff [OF assms(2,1)] testAny_iff [OF assms(2,1)]
  unfolding overlooked_def by (intro conjI allI) auto

theorem bitmap_ranges_witness:
  "testAll [0xFF, 0xFF, 0xF0] 3 20 \<and> \<not> testAll [0xFF, 0xFF, 0xF0] 3 21 \<and> testAll [0xFF, 0x0F, 0xF0] 3 20 \<and>
    testAll [0xFF, 0xFF, 0xF0] 3 20 = (\<forall>n. 3 \<le> n \<and> n < 20 \<and> \<not> (10 div 8 < 20 div (8 :: nat) \<and> n div 8 = 20 div 8 - 1) \<longrightarrow>
      BITTEST [0xFF, 0xFF, 0xF0] n)"
proof -
  have "testAll [0xFF, 0xFF, 0xF0] 3 20" "\<not> testAll [0xFF, 0xFF, 0xF0] 3 21" "testAll [0xFF, 0x0F, 0xF0] 3 20" by code_simp+
  moreover have "testAll [0xFF, 0xFF, 0xF0] 3 20 = (\<forall>n. 3 \<le> n \<and> n < 20 \<and> \<not> ((3 + 7) div 8 < 20 div (8 :: nat) \<and> n div 8 = 20 div 8 - 1) \<longrightarrow>
      BITTEST [0xFF, 0xFF, 0xF0] n)"
    using bitmap_ranges [of 3 20 "[0xFF, 0xFF, 0xF0]"] by simp
  ultimately show ?thesis by simp
qed

text \<open>The check that guards \<open>Release\<close> is blind to one byte: for a range that is exactly
  one byte of the map it never reports a bit that is clear already, so memory that is free can be handed over again.\<close>

theorem clearCheck_misses_clear:
  assumes "8 dvd a" and "a + 8 \<le> 8 * length m"
  shows "clearCheck m a (a + 8) = (kIOReturnSuccess, clearAll m a (a + 8))"
proof -
  obtain c where a: "a = 8 * c" using assms(1) by (elim dvdE)
  have "testAll m a (a + 8)"
    using testAll_iff [OF assms(2) le_add1] unfolding overlooked_def a by auto
  then show ?thesis by (simp add: clearCheck_def)
qed

theorem clearCheck_misses_clear_witness:
  "\<not> BITTEST [0] 3 \<and> clearCheck [0] 0 8 = (kIOReturnSuccess, clearAll [0] 0 8)"
  using clearCheck_misses_clear [of 0 "[0]"] by (simp add: BITTEST_def)

end
