(* ===== verification/BuddyAllocator.thy ===== *)
theory BuddyAllocator
  imports AllocBitmap
begin

text \<open>
  The VRAM allocator (\<^verbatim>\<open>AC/VMsvga2Allocator.cpp\<close>), a buddy allocator over blocks of 4K whose free
  lists live in the free memory itself: the first three dwords of a free block hold a magic number
  and the links, its last dword the size.  The build defines \<^verbatim>\<open>FRAGILE\<close>, so freed memory is not
  cleared.  \<open>minBits\<close> and \<open>numSizes\<close> are fields of the object that only \<^verbatim>\<open>Init\<close> assigns, always 12 and
  13; they are constants here.  This theory holds the model; \<open>BuddyProofs\<close> the correctness.

  \<^verbatim>\<open>pool_size_t\<close> is 32 bits wide.  Block numbers and sizes are naturals below \<open>2 ^ 32\<close>, with the
  wrap-around of the 32-bit operations written out.  Addresses are 64 bits wide.  The pool's memory is
  a function from dword offsets, so that \<open>Rebase\<close>, which changes the address at which the same memory is
  seen, leaves it alone.
\<close>

section \<open>State\<close>

abbreviation (input) minBits :: nat where "minBits \<equiv> 12"
abbreviation (input) numSizes :: nat where "numSizes \<equiv> 13"
abbreviation (input) OURNULL :: nat where "OURNULL \<equiv> 4294967295"
abbreviation (input) MAGIC :: nat where "MAGIC \<equiv> 0xA7130423"
abbreviation (input) OFF_MAGIC :: nat where "OFF_MAGIC \<equiv> 0"
abbreviation (input) OFF_PREV :: nat where "OFF_PREV \<equiv> 1"
abbreviation (input) OFF_NEXT :: nat where "OFF_NEXT \<equiv> 2"
abbreviation (input) LEN_OFFSET :: nat where "LEN_OFFSET \<equiv> 1234"

record pool =
  poolStart :: nat
  poolBlocks :: nat
  freeList :: "nat list"
  has_map :: bool
  bmap :: "u8 list"
  freeBytes :: nat
  mem :: "nat \<Rightarrow> nat"

text \<open>32-bit arithmetic.\<close>

definition add32 :: "nat \<Rightarrow> nat \<Rightarrow> nat" where "add32 a b = (a + b) mod 2 ^ 32"
definition sub32 :: "nat \<Rightarrow> nat \<Rightarrow> nat" where "sub32 a b = (a + 2 ^ 32 - b mod 2 ^ 32) mod 2 ^ 32"
definition shl32 :: "nat \<Rightarrow> nat \<Rightarrow> nat" where "shl32 a k = a * 2 ^ k mod 2 ^ 32"

text \<open>The dword at which block \<open>b\<close> starts: \<^verbatim>\<open>poolStart + (b << minBits)\<close> as a pointer to dwords.\<close>

definition block_ptr :: "nat \<Rightarrow> nat" where
  "block_ptr b = shl32 b minBits div 4"

definition store :: "nat \<Rightarrow> nat \<Rightarrow> pool \<Rightarrow> pool" where
  "store i v s = s\<lparr>mem := (mem s)(i := v)\<rparr>"

definition bzero_dwords :: "nat \<Rightarrow> nat \<Rightarrow> pool \<Rightarrow> pool" where
  "bzero_dwords i n s = s\<lparr>mem := (\<lambda>j. if i \<le> j \<and> j < i + n then 0 else mem s j)\<rparr>"

definition set_list :: "nat \<Rightarrow> nat \<Rightarrow> pool \<Rightarrow> pool" where
  "set_list k b s = s\<lparr>freeList := (freeList s)[k := b]\<rparr>"

section \<open>Free lists\<close>

definition makeFree :: "nat \<Rightarrow> nat \<Rightarrow> bool \<Rightarrow> pool \<Rightarrow> pool" where
  "makeFree firstFree bitsFree zap s =
    (let byteBits = bitsFree + minBits;
         bytesToFree = shl32 1 byteBits;
         blocksToFree = shl32 1 bitsFree;
         ptr = block_ptr firstFree;
         s = (if zap then
                (bzero_dwords ptr (bytesToFree div 4) s)
                  \<lparr>bmap := clearAll (bmap s) firstFree (add32 firstFree blocksToFree)\<rparr>
              else s);
         s = store (ptr + OFF_MAGIC) MAGIC s;
         s = store (ptr + OFF_PREV) OURNULL s;
         nextOff = freeList s ! bitsFree;
         s = store (ptr + OFF_NEXT) nextOff s;
         pastPtr = ptr + bytesToFree div 4;
         s = store (pastPtr - 1) (add32 bitsFree LEN_OFFSET) s;
         s = (if nextOff \<noteq> OURNULL then store (block_ptr nextOff + OFF_PREV) firstFree s else s);
         s = set_list bitsFree firstFree s
     in s\<lparr>freeBytes := add32 (freeBytes s) bytesToFree\<rparr>)"

text \<open>The two inner loops of \<open>toFree\<close>, on \<^verbatim>\<open>tryBits\<close> and \<^verbatim>\<open>tryLen\<close>.\<close>

function grow_block :: "nat \<Rightarrow> nat \<Rightarrow> int \<Rightarrow> nat \<Rightarrow> int \<times> nat" where
  "grow_block i pastBlock tryBits tryLen =
    (if tryBits < int numSizes - 1 then
       let nextLen = shl32 tryLen 1
       in if add32 i nextLen > pastBlock then (tryBits, tryLen)
          else if i AND sub32 nextLen 1 \<noteq> 0 then (tryBits, tryLen)
          else grow_block i pastBlock (tryBits + 1) nextLen
     else (tryBits, tryLen))"
  by pat_completeness auto
termination
  by (relation "measure (\<lambda>(i, p, b, l). nat (int numSizes - 1 - b))") auto

function shrink_block :: "nat \<Rightarrow> nat \<Rightarrow> int \<Rightarrow> nat \<Rightarrow> int \<times> nat" where
  "shrink_block i pastBlock tryBits tryLen =
    (if tryBits \<ge> 0 then
       if add32 i tryLen > pastBlock then shrink_block i pastBlock (tryBits - 1) (tryLen div 2)
       else if i AND sub32 tryLen 1 \<noteq> 0 then shrink_block i pastBlock (tryBits - 1) (tryLen div 2)
       else (tryBits, tryLen)
     else (tryBits, tryLen))"
  by pat_completeness auto
termination
  by (relation "measure (\<lambda>(i, p, b, l). nat (b + 1))") auto

declare grow_block.simps [simp del] shrink_block.simps [simp del]

partial_function (option) toFree_loop :: "nat \<Rightarrow> nat \<Rightarrow> bool \<Rightarrow> int \<Rightarrow> nat \<Rightarrow> pool \<Rightarrow> pool option" where
  "toFree_loop i pastBlock zap tryBits tryLen s =
    (if i < pastBlock then
       let (tryBits, tryLen) = grow_block i pastBlock tryBits tryLen;
           (tryBits, tryLen) = shrink_block i pastBlock tryBits tryLen
       in if tryBits < 0 then Some s
          else toFree_loop (add32 i tryLen) pastBlock zap tryBits tryLen (makeFree i (nat tryBits) zap s)
     else Some s)"

declare toFree_loop.simps [code]

definition toFree :: "nat \<Rightarrow> nat \<Rightarrow> bool \<Rightarrow> pool \<Rightarrow> pool option" where
  "toFree firstBlock pastBlock zap s = toFree_loop firstBlock pastBlock zap 0 1 s"

section \<open>Allocation\<close>

text \<open>
  Results: the status, what was stored through the out pointer if anything, and the state; \<open>None\<close>
  stands for an operation that does not return.
\<close>

type_synonym alloc_result = "(ioreturn \<times> nat option \<times> pool) option"

text \<open>The address of dword \<open>i\<close>.\<close>

definition dword_addr :: "pool \<Rightarrow> nat \<Rightarrow> nat" where
  "dword_addr s i = poolStart s + 4 * i"

text \<open>The index of the first nonempty list from \<open>bits\<close> on, \<open>numSizes\<close> or more if there is none.\<close>

function find_list :: "nat list \<Rightarrow> nat \<Rightarrow> nat" where
  "find_list ls retBits =
    (if retBits < numSizes then
       if ls ! retBits \<noteq> OURNULL then retBits else find_list ls (retBits + 1)
     else retBits)"
  by pat_completeness auto
termination
  by (relation "measure (\<lambda>(l, k). numSizes - k)") auto

declare find_list.simps [simp del]

definition BuddyMalloc :: "nat \<Rightarrow> bool \<Rightarrow> pool \<Rightarrow> alloc_result" where
  "BuddyMalloc bits newStore s =
    (if \<not> newStore then Some (kIOReturnBadArgument, None, s)
     else if freeBytes s < shl32 1 (bits + minBits) then Some (kIOReturnNoMemory, None, s)
     else let retBits = find_list (freeList s) bits
     in if retBits \<ge> numSizes then Some (kIOReturnNoMemory, None, s)
     else let offset = freeList s ! retBits
     in if offset \<ge> poolBlocks s then Some (kIOReturnInternalError, None, s)
     else let ptr = block_ptr offset
     in if mem s (ptr + OFF_MAGIC) \<noteq> MAGIC then Some (kIOReturnInternalError, None, s)
     else if mem s (ptr + OFF_PREV) \<noteq> OURNULL then Some (kIOReturnInternalError, None, s)
     else let pastPtr = ptr + shl32 1 (retBits + minBits) div 4
     in if mem s (pastPtr - 1) \<noteq> add32 retBits LEN_OFFSET then Some (kIOReturnInternalError, None, s)
     else let nextOffset = mem s (ptr + OFF_NEXT); nextPtr = block_ptr nextOffset
     in if nextOffset \<noteq> OURNULL \<and> nextOffset \<ge> poolBlocks s then Some (kIOReturnInternalError, None, s)
     else if nextOffset \<noteq> OURNULL \<and> (mem s (nextPtr + OFF_MAGIC) \<noteq> MAGIC \<or> mem s (nextPtr + OFF_PREV) \<noteq> offset)
       then Some (kIOReturnInternalError, None, s)
     else do {
       let s = (if nextOffset \<noteq> OURNULL then store (nextPtr + OFF_PREV) OURNULL s else s);
       let s = set_list retBits nextOffset s;
       let past = add32 offset (shl32 1 bits);
       let s = s\<lparr>bmap := BITSET (bmap s) (sub32 past 1)\<rparr>;
       let s = s\<lparr>freeBytes := sub32 (freeBytes s) (shl32 1 (retBits + minBits))\<rparr>;
       s \<leftarrow> toFree past (add32 offset (shl32 1 retBits)) False s;
       Some (kIOReturnSuccess, Some (dword_addr s ptr), s)
     })"

text \<open>
  The size of the busy block at an address: the first power of two at whose end the bit map has a
  mark.  \<open>Inl\<close> is the error, \<open>Inr\<close> the number of bits.
\<close>

function busy_bits :: "pool \<Rightarrow> nat \<Rightarrow> nat \<Rightarrow> nat \<Rightarrow> ioreturn + nat" where
  "busy_bits s blockOff blocks ourBits =
    (if blockOff + blocks > poolBlocks s \<or> ourBits \<ge> numSizes \<or> blockOff AND (blocks - 1) \<noteq> 0
     then Inl kIOReturnNotAligned
     else if BITTEST (bmap s) (blockOff + blocks - 1) then Inr ourBits
     else busy_bits s blockOff (blocks * 2) (ourBits + 1))"
  by pat_completeness auto
termination
  by (relation "measure (\<lambda>(s, off, b, k). numSizes - k)") auto

declare busy_bits.simps [simp del]

definition BuddyAllocSize :: "nat \<Rightarrow> pool \<Rightarrow> ioreturn + nat" where
  "BuddyAllocSize storage s =
    (if storage < poolStart s then Inl kIOReturnNotAligned
     else let byteOff = storage - poolStart s;
              blockOff = byteOff div 2 ^ minBits
     in if byteOff \<noteq> blockOff * 2 ^ minBits then Inl kIOReturnNotAligned
     else if blockOff \<ge> poolBlocks s then Inl kIOReturnNotAligned
     else busy_bits s blockOff 1 0)"

section \<open>Set-up\<close>

definition ReleaseMap :: "pool \<Rightarrow> pool" where
  "ReleaseMap s = (if \<not> has_map s then s else s\<lparr>has_map := False\<rparr>)"

definition pool_init :: "pool \<Rightarrow> pool" where
  "pool_init s = s\<lparr>has_map := False\<rparr>"

text \<open>\<open>can_malloc\<close>: the system grants the memory for the map.\<close>

definition pool_Init :: "bool \<Rightarrow> nat \<Rightarrow> nat \<Rightarrow> pool \<Rightarrow> ioreturn \<times> pool" where
  "pool_Init can_malloc startAddress bytes s =
    (if startAddress mod 2 ^ minBits \<noteq> 0 then (kIOReturnBadArgument, s)
     else if bytes \<noteq> bytes mod 2 ^ 32 then (kIOReturnBadArgument, s)
     else let s = ReleaseMap s;
              setBits = bytes div 2 ^ minBits;
              s = s\<lparr>poolStart := startAddress, poolBlocks := setBits mod 2 ^ 32, has_map := can_malloc\<rparr>
     in if \<not> can_malloc then (kIOReturnNoMemory, s)
     else (kIOReturnSuccess, s\<lparr>freeBytes := 0, bmap := replicate ((setBits + 7) div 8) 0xFF,
             freeList := replicate numSizes OURNULL\<rparr>))"

definition Rebase :: "nat \<Rightarrow> pool \<Rightarrow> ioreturn \<times> pool" where
  "Rebase newStartAddress s =
    (if newStartAddress mod 2 ^ minBits \<noteq> 0 then (kIOReturnBadArgument, s)
     else (kIOReturnSuccess, s\<lparr>poolStart := newStartAddress\<rparr>))"

definition Release :: "nat \<Rightarrow> nat \<Rightarrow> pool \<Rightarrow> (ioreturn \<times> pool) option" where
  "Release startOffsetBytes endOffsetBytes s =
    (if startOffsetBytes mod 2 ^ minBits \<noteq> 0 then Some (kIOReturnBadArgument, s)
     else if endOffsetBytes mod 2 ^ minBits \<noteq> 0 then Some (kIOReturnBadArgument, s)
     else let startBlock = startOffsetBytes div 2 ^ minBits;
              pastBlockOff = endOffsetBytes div 2 ^ minBits
     in if startBlock \<ge> poolBlocks s \<or> pastBlockOff > poolBlocks s then Some (kIOReturnBadArgument, s)
     else let (ret, m) = clearCheck (bmap s) startBlock pastBlockOff; s = s\<lparr>bmap := m\<rparr>
     in if ret \<noteq> kIOReturnSuccess then Some (ret, s)
     else do {
       s \<leftarrow> toFree (startBlock mod 2 ^ 32) (pastBlockOff mod 2 ^ 32) False s;
       Some (kIOReturnSuccess, s)
     })"

section \<open>Freeing\<close>

text \<open>
  The loop that merges the block \<open>blockOff\<close> of \<open>2 ^ bits\<close> blocks with its buddies.  \<open>Inl\<close> is an error
  return with the state as it is then, \<open>Inr\<close> the merged block.
\<close>

definition unlink_first :: "nat \<Rightarrow> nat \<Rightarrow> pool \<Rightarrow> (ioreturn \<times> pool) + pool" where
  "unlink_first bits buddy s =
    (let nextOffset = mem s (block_ptr buddy + OFF_NEXT); nextPtr = block_ptr nextOffset
     in if nextOffset \<noteq> OURNULL \<and>
          (nextOffset \<ge> poolBlocks s \<or> mem s (nextPtr + OFF_MAGIC) \<noteq> MAGIC \<or> mem s (nextPtr + OFF_PREV) \<noteq> buddy)
        then Inl (kIOReturnInternalError, s)
        else let s = (if nextOffset \<noteq> OURNULL then store (nextPtr + OFF_PREV) OURNULL s else s)
        in Inr (set_list bits nextOffset s))"

definition unlink_inner :: "nat \<Rightarrow> nat \<Rightarrow> pool \<Rightarrow> (ioreturn \<times> pool) + pool" where
  "unlink_inner prevOffset buddy s =
    (let prevPtr = block_ptr prevOffset
     in if prevOffset \<ge> poolBlocks s then Inl (kIOReturnInternalError, s)
        else if mem s (prevPtr + OFF_MAGIC) \<noteq> MAGIC then Inl (kIOReturnInternalError, s)
        else if mem s (prevPtr + OFF_NEXT) \<noteq> buddy then Inl (kIOReturnInternalError, s)
        else let nextOffset = mem s (block_ptr buddy + OFF_NEXT); nextPtr = block_ptr nextOffset
        in if nextOffset \<noteq> OURNULL \<and>
             (nextOffset \<ge> poolBlocks s \<or> mem s (nextPtr + OFF_MAGIC) \<noteq> MAGIC \<or> mem s (nextPtr + OFF_PREV) \<noteq> buddy)
           then Inl (kIOReturnInternalError, s)
           else let s = (if nextOffset \<noteq> OURNULL then store (nextPtr + OFF_PREV) prevOffset s else s)
           in Inr (store (prevPtr + OFF_NEXT) nextOffset s))"

function merge_buddies :: "nat \<Rightarrow> nat \<Rightarrow> pool \<Rightarrow> (ioreturn \<times> pool) + (nat \<times> nat \<times> pool)" where
  "merge_buddies bits blockOff s =
    (if bits < numSizes - 1 then
       let buddy = blockOff XOR shl32 1 bits;
           pastBuddy = add32 buddy (shl32 1 bits)
       in if pastBuddy > poolBlocks s then Inr (bits, blockOff, s)
       else if BITTEST (bmap s) (sub32 pastBuddy 1) then Inr (bits, blockOff, s)
       else let pastPtr = block_ptr pastBuddy;
                trueBits = sint (of_nat (sub32 (mem s (pastPtr - 1)) LEN_OFFSET) :: u32)
       in if trueBits < 0 \<or> trueBits \<ge> int numSizes then Inl (kIOReturnInternalError, s)
       else if trueBits \<noteq> int bits then Inr (bits, blockOff, s)
       else let s = store (pastPtr - 1) 0 s; buddyPtr = block_ptr buddy
       in if mem s (buddyPtr + OFF_MAGIC) \<noteq> MAGIC then Inl (kIOReturnInternalError, s)
       else if freeList s ! bits = OURNULL then Inl (kIOReturnInternalError, s)
       else let prevOffset = mem s (buddyPtr + OFF_PREV)
       in case (if prevOffset = OURNULL then unlink_first bits buddy s else unlink_inner prevOffset buddy s) of
            Inl e \<Rightarrow> Inl e
          | Inr s \<Rightarrow> merge_buddies (bits + 1) (if buddy < blockOff then buddy else blockOff) (bzero_dwords buddyPtr 3 s)
     else Inr (bits, blockOff, s))"
  by pat_completeness auto
termination
  by (relation "measure (\<lambda>(k, b, s). numSizes - k)") auto

declare merge_buddies.simps [simp del]

text \<open>The pointer is an address; 0 is the null pointer.\<close>

definition pool_Free :: "nat \<Rightarrow> pool \<Rightarrow> ioreturn \<times> pool" where
  "pool_Free storage s =
    (if storage = 0 then (kIOReturnSuccess, s)
     else case BuddyAllocSize storage s of
       Inl e \<Rightarrow> (e, s)
     | Inr oldBits \<Rightarrow>
         let blocksHere = shl32 1 oldBits;
             blockOff = (storage - poolStart s) div 2 ^ minBits mod 2 ^ 32;
             s = s\<lparr>bmap := BITCLEAR (bmap s) (sub32 (add32 blockOff blocksHere) 1)\<rparr>
         in case merge_buddies oldBits blockOff s of
              Inl (e, s) \<Rightarrow> (e, s)
            | Inr (bits, blockOff, s) \<Rightarrow>
                let sptr = block_ptr blockOff;
                    s = store (sptr + OFF_MAGIC) MAGIC s;
                    s = store (sptr + OFF_PREV) OURNULL s;
                    nextOffset = freeList s ! bits; nextPtr = block_ptr nextOffset
                in if nextOffset \<noteq> OURNULL \<and>
                     (nextOffset \<ge> poolBlocks s \<or> mem s (nextPtr + OFF_MAGIC) \<noteq> MAGIC \<or> mem s (nextPtr + OFF_PREV) \<noteq> OURNULL)
                   then (kIOReturnInternalError, s)
                   else let
                     s = (if nextOffset \<noteq> OURNULL then store (nextPtr + OFF_PREV) blockOff s else s);
                     s = store (sptr + OFF_NEXT) nextOffset s;
                     s = store (sptr + 2 ^ (minBits + bits) div 4 - 1) (add32 bits LEN_OFFSET) s;
                     s = set_list bits blockOff s
                   in (kIOReturnSuccess, s\<lparr>freeBytes := add32 (freeBytes s) (shl32 1 (oldBits + minBits))\<rparr>))"

section \<open>The client's calls\<close>

text \<open>\<open>Malloc\<close>: the loop finds \<open>bits\<close>; its \<open>sz\<close> is a 64-bit number, \<open>Inl\<close> its early returns.\<close>

function malloc_bits :: "nat \<Rightarrow> nat \<Rightarrow> nat \<Rightarrow> ioreturn + nat" where
  "malloc_bits bytes sz bits =
    (if sz < bytes then
       if bits \<ge> numSizes then Inl kIOReturnNoResources
       else let sz = sz * 2 mod 2 ^ 64
       in if sz = 0 then Inl kIOReturnNoResources else malloc_bits bytes sz (bits + 1)
     else Inr bits)"
  by pat_completeness auto
termination
  by (relation "measure (\<lambda>(b, z, k). numSizes - k)") auto

declare malloc_bits.simps [simp del]

definition pool_Malloc :: "nat \<Rightarrow> bool \<Rightarrow> pool \<Rightarrow> alloc_result" where
  "pool_Malloc bytes newStore s =
    (if \<not> newStore then Some (kIOReturnBadArgument, None, s)
     else case malloc_bits bytes (2 ^ minBits) 0 of
       Inl e \<Rightarrow> Some (e, None, s)
     | Inr bits \<Rightarrow> BuddyMalloc bits newStore s)"

text \<open>The smallest power of two, at least a block, that holds \<open>sz\<close> bytes; bounded by \<open>limit\<close>.\<close>

function can_bits :: "nat \<Rightarrow> nat \<Rightarrow> nat" where
  "can_bits sz canBits = (if 2 ^ canBits < sz then can_bits sz (canBits + 1) else canBits)"
  by pat_completeness auto
termination
proof (relation "measure (\<lambda>(z, k). z - k)")
  fix sz canBits :: nat
  assume "2 ^ canBits < sz"
  moreover have "canBits < 2 ^ canBits" by (rule less_exp)
  ultimately have "canBits < sz" by (rule less_trans [rotated])
  then show "((sz, canBits + 1), (sz, canBits)) \<in> measure (\<lambda>(z, k). z - k)" by auto
qed simp

declare can_bits.simps [simp del]

definition memcpy_dwords :: "nat \<Rightarrow> nat \<Rightarrow> nat \<Rightarrow> pool \<Rightarrow> pool" where
  "memcpy_dwords dst src n s = s\<lparr>mem := (\<lambda>i. if dst \<le> i \<and> i < dst + n then mem s (src + (i - dst)) else mem s i)\<rparr>"

definition Realloc :: "nat \<Rightarrow> nat \<Rightarrow> pool \<Rightarrow> alloc_result" where
  "Realloc ptr sz s =
    (if sz = 0 then (let (r, s) = pool_Free ptr s in Some (r, None, s))
     else if ptr = 0 then pool_Malloc sz True s
     else case BuddyAllocSize ptr s of
       Inl e \<Rightarrow> Some (e, None, s)
     | Inr bits \<Rightarrow>
         let lg2Bytes = bits + minBits
         in if 2 ^ lg2Bytes < sz then do {
              (error, newPtr, s) \<leftarrow> pool_Malloc sz True s;
              if error \<noteq> kIOReturnSuccess then Some (error, newPtr, s)
              else let
                s = memcpy_dwords ((the newPtr - poolStart s) div 4) ((ptr - poolStart s) div 4) (2 ^ lg2Bytes div 4) s;
                (error, s) = pool_Free ptr s;
                s = (if error \<noteq> kIOReturnSuccess then snd (pool_Free (the newPtr) s) else s)
              in Some (error, newPtr, s)
            }
            else let canBits = can_bits sz minBits
            in if canBits \<ge> lg2Bytes then Some (kIOReturnSuccess, Some ptr, s)
            else do {
              let oldBlocks = shl32 1 bits;
              let newBlocks = shl32 1 (canBits - minBits);
              let blockNo = (ptr - poolStart s) div 2 ^ minBits mod 2 ^ 32;
              let s = s\<lparr>bmap := BITSET (bmap s) (sub32 (add32 blockNo newBlocks) 1)\<rparr>;
              let s = s\<lparr>bmap := BITCLEAR (bmap s) (sub32 (add32 blockNo oldBlocks) 1)\<rparr>;
              s \<leftarrow> toFree (add32 blockNo newBlocks) (add32 blockNo oldBlocks) False s;
              Some (kIOReturnSuccess, Some ptr, s)
            })"

text \<open>\<open>bytesFree\<close> says whether the out pointer is set.\<close>

definition Available :: "bool \<Rightarrow> pool \<Rightarrow> ioreturn \<times> nat option" where
  "Available bytesFree s =
    (if \<not> bytesFree then (kIOReturnBadArgument, None) else (kIOReturnSuccess, Some (freeBytes s)))"

section \<open>The consistency check\<close>

text \<open>The walk along one free list: the blocks seen, or \<open>None\<close> for an internal error.\<close>

function check_list :: "pool \<Rightarrow> nat \<Rightarrow> nat \<Rightarrow> nat \<Rightarrow> nat \<Rightarrow> nat \<Rightarrow> (nat \<times> nat) option" where
  "check_list s sz offset prevOffset blocksSeen maxBlocks =
    (if offset \<noteq> OURNULL \<and> blocksSeen < maxBlocks then
       if offset \<ge> poolBlocks s then None
       else if testAny (bmap s) offset (add32 offset (shl32 1 sz)) then None
       else let ptr = block_ptr offset
       in if mem s (ptr + OFF_MAGIC) \<noteq> MAGIC then None
       else if mem s (ptr + OFF_PREV) \<noteq> prevOffset then None
       else let pastPtr = ptr + shl32 1 (minBits + sz) div 4
       in if mem s (pastPtr - 1) \<noteq> add32 sz LEN_OFFSET then None
       else check_list s sz (mem s (ptr + OFF_NEXT)) offset (blocksSeen + 1) maxBlocks
     else Some (offset, blocksSeen))"
  by pat_completeness auto
termination
  by (relation "measure (\<lambda>(s, k, off, p, n, m). m - n)") auto

declare check_list.simps [simp del]

text \<open>All sizes from \<open>sz\<close> on; the counts so far and the blocks seen.\<close>

function check_lists :: "pool \<Rightarrow> nat \<Rightarrow> nat list \<Rightarrow> nat \<Rightarrow> (nat list \<times> nat) option" where
  "check_lists s sz counts seenStore =
    (if sz < numSizes then
       case check_list s sz (freeList s ! sz) OURNULL 0 (poolBlocks s div 2 ^ sz) of
         None \<Rightarrow> None
       | Some (offset, blocksSeen) \<Rightarrow>
           if offset \<noteq> OURNULL then None
           else check_lists s (sz + 1) (counts @ [blocksSeen]) (add32 seenStore (shl32 blocksSeen sz))
     else Some (counts, seenStore))"
  by pat_completeness auto
termination
  by (relation "measure (\<lambda>(s, k, c, n). numSizes - k)") auto

declare check_lists.simps [simp del]

definition Check :: "pool \<Rightarrow> ioreturn \<times> nat list" where
  "Check s =
    (case check_lists s 0 [] 0 of
       None \<Rightarrow> (kIOReturnInternalError, [])
     | Some (counts, seenStore) \<Rightarrow>
         if shl32 seenStore minBits \<noteq> freeBytes s then (kIOReturnInternalError, counts)
         else (kIOReturnSuccess, counts))"

end
