(* ===== verification/BuddyProofs.thy ===== *)
theory BuddyProofs
  imports BuddyAllocator
begin

text \<open>
  Correctness of the VRAM allocator: what its state means (disjoint aligned blocks, some free and
  on the lists, some allocated), that every operation keeps that meaning, and that it hands out a block
  whenever there is one.
\<close>

section \<open>Blocks\<close>

text \<open>A block is its first 4K cell and the binary logarithm of its length.\<close>

type_synonym block = "nat \<times> nat"

definition cells :: "block \<Rightarrow> nat set" where
  "cells c = {fst c ..< fst c + 2 ^ snd c}"

definition all_cells :: "block set \<Rightarrow> nat set" where
  "all_cells S = (\<Union>c \<in> S. cells c)"

definition aligned :: "nat \<Rightarrow> block \<Rightarrow> bool" where
  "aligned P c \<longleftrightarrow> snd c < numSizes \<and> 2 ^ snd c dvd fst c \<and> fst c + 2 ^ snd c \<le> P"

definition disjoint_blocks :: "block set \<Rightarrow> bool" where
  "disjoint_blocks S \<longleftrightarrow> (\<forall>c \<in> S. \<forall>d \<in> S. c \<noteq> d \<longrightarrow> cells c \<inter> cells d = {})"

definition buddy_of :: "block \<Rightarrow> block" where
  "buddy_of c = (fst c XOR 2 ^ snd c, snd c)"

lemma in_cells: "n \<in> cells (b, k) \<longleftrightarrow> b \<le> n \<and> n < b + 2 ^ k"
  by (simp add: cells_def)

lemma cells_nonempty: "fst c \<in> cells c" "cells c \<noteq> {}" "finite (cells c)" "card (cells c) = 2 ^ snd c"
  by (auto simp: cells_def)

lemma last_in_cells: "fst c + 2 ^ snd c - 1 \<in> cells c"
proof -
  have "0 < (2 :: nat) ^ snd c" by simp
  then show ?thesis unfolding cells_def atLeastLessThan_iff by linarith
qed

lemma all_cells_simps [simp]:
  "all_cells {} = {}" "all_cells (insert c S) = cells c \<union> all_cells S" "all_cells (S \<union> T) = all_cells S \<union> all_cells T"
  by (auto simp: all_cells_def)

text \<open>A cell lies in an aligned block exactly when it has the block's high bits.\<close>

lemma aligned_cells:
  assumes "2 ^ k dvd b"
  shows "n \<in> cells (b, k) \<longleftrightarrow> n div 2 ^ k = b div 2 ^ k"
proof -
  obtain q where b: "b = 2 ^ k * q" using assms by (elim dvdE)
  have "n \<in> cells (b, k) \<longleftrightarrow> q \<le> n div 2 ^ k \<and> n div 2 ^ k < q + 1"
    unfolding in_cells b by (simp add: less_eq_div_iff_mult_less_eq div_less_iff_less_mult algebra_simps)
  also have "\<dots> \<longleftrightarrow> n div 2 ^ k = q" by auto
  finally show ?thesis by (simp add: b)
qed

lemma aligned_nested:
  assumes "2 ^ j dvd a" and "2 ^ k dvd b" and "j \<le> k" and "n \<in> cells (a, j)" and "n \<in> cells (b, k)"
  shows "cells (a, j) \<subseteq> cells (b, k)"
proof
  fix m assume "m \<in> cells (a, j)"
  then have "m div 2 ^ j = n div 2 ^ j" using assms(1,4) by (simp add: aligned_cells)
  then have "m div 2 ^ j div 2 ^ (k - j) = n div 2 ^ j div 2 ^ (k - j)" by simp
  then have "m div 2 ^ k = n div 2 ^ k" using assms(3) by (simp flip: div_mult2_eq power_add)
  then show "m \<in> cells (b, k)" using assms(2,5) by (simp add: aligned_cells)
qed

lemma aligned_same:
  assumes "2 ^ k dvd a" and "2 ^ k dvd b" and "n \<in> cells (a, k)" and "n \<in> cells (b, k)"
  shows "a = b"
proof -
  have "a div 2 ^ k = b div 2 ^ k" using assms by (simp add: aligned_cells)
  then show ?thesis using assms(1,2) by (metis dvd_div_mult_self)
qed

lemma buddy_number:
  assumes "2 ^ k dvd (b :: nat)"
  shows "b XOR 2 ^ k = (if 2 ^ Suc k dvd b then b + 2 ^ k else b - 2 ^ k)"
proof -
  obtain q where b: "b = 2 ^ k * q" using assms by (elim dvdE)
  have "b XOR 2 ^ k = push_bit k q XOR push_bit k 1" by (simp add: b push_bit_eq_mult mult.commute)
  also have "\<dots> = push_bit k (q XOR 1)" by (simp only: push_bit_xor)
  also have "q XOR 1 = (if even q then q + 1 else q - 1)"
    by (simp add: xor_Suc_0_eq)
  finally show ?thesis
    by (simp add: b push_bit_eq_mult algebra_simps dvd_mult_cancel_left)
qed

lemma buddy_facts:
  assumes "2 ^ k dvd b"
  shows "2 ^ k dvd b XOR 2 ^ k" and "(b XOR 2 ^ k) XOR 2 ^ k = b" and "b XOR 2 ^ k \<noteq> (b :: nat)"
    and "cells (b XOR 2 ^ k, k) \<inter> cells (b, k) = {}"
    and "cells (min b (b XOR 2 ^ k), Suc k) = cells (b, k) \<union> cells (b XOR 2 ^ k, k)"
    and "2 ^ Suc k dvd min b (b XOR 2 ^ k)"
proof -
  show d: "2 ^ k dvd b XOR 2 ^ k"
    unfolding buddy_number [OF assms] using assms by auto
  show i: "(b XOR 2 ^ k) XOR 2 ^ k = b" by (simp add: xor.assoc)
  have ge: "2 ^ k \<le> b" if "\<not> 2 ^ Suc k dvd b" using assms that by (metis dvd_0_right dvd_imp_le gr0I)
  have pos: "0 < (2 :: nat) ^ k" by simp
  have "b - 2 ^ k \<noteq> b" if "\<not> 2 ^ Suc k dvd b" using ge [OF that] pos by linarith
  then show n: "b XOR 2 ^ k \<noteq> b" unfolding buddy_number [OF assms] by simp
  show "cells (b XOR 2 ^ k, k) \<inter> cells (b, k) = {}"
    using aligned_same [OF d assms] n by blast
  show "cells (min b (b XOR 2 ^ k), Suc k) = cells (b, k) \<union> cells (b XOR 2 ^ k, k)"
    using ge by (auto simp: buddy_number [OF assms] in_cells min_def set_eq_iff)
  obtain q where b: "b = 2 ^ k * q" using assms by (elim dvdE)
  show "2 ^ Suc k dvd min b (b XOR 2 ^ k)"
  proof (cases "2 ^ Suc k dvd b")
    case True
    then show ?thesis by (simp add: buddy_number [OF assms] min_def)
  next
    case False
    then have "odd q" by (simp add: b)
    then obtain r where "q = 2 * r + 1" by (elim oddE)
    then have "b - 2 ^ k = 2 ^ Suc k * r" by (simp add: b algebra_simps)
    moreover have "min b (b XOR 2 ^ k) = b - 2 ^ k" using False by (simp add: buddy_number [OF assms])
    ultimately show ?thesis by simp
  qed
qed

section \<open>Free lists in memory\<close>

definition node :: "(nat \<Rightarrow> nat) \<Rightarrow> nat \<Rightarrow> nat \<Rightarrow> nat \<Rightarrow> nat \<Rightarrow> bool" where
  "node m k b p n \<longleftrightarrow> m (1024 * b) = MAGIC \<and> m (1024 * b + 1) = p \<and> m (1024 * b + 2) = n \<and>
     m (1024 * (b + 2 ^ k) - 1) = k + LEN_OFFSET"

text \<open>The head of a list segment that ends before \<open>n\<close>, and its last node, after \<open>p\<close>.\<close>

definition head_or :: "nat list \<Rightarrow> nat \<Rightarrow> nat" where
  "head_or bs n = (case bs of [] \<Rightarrow> n | b # _ \<Rightarrow> b)"

definition last_or :: "nat \<Rightarrow> nat list \<Rightarrow> nat" where
  "last_or p bs = (if bs = [] then p else last bs)"

lemma head_or_simps [simp]: "head_or [] n = n" "head_or (b # bs) n = b" "head_or (as @ bs) n = head_or as (head_or bs n)"
  by (simp_all add: head_or_def split: list.split)

lemma last_or_simps [simp]: "last_or p [] = p" "last_or p (bs @ [b]) = b" "last_or p (b # bs) = last_or b bs"
  by (simp_all add: last_or_def)

text \<open>A doubly linked segment of size class \<open>k\<close>, entered from \<open>p\<close>, left to \<open>n\<close>.\<close>

fun dll :: "(nat \<Rightarrow> nat) \<Rightarrow> nat \<Rightarrow> nat \<Rightarrow> nat list \<Rightarrow> nat \<Rightarrow> bool" where
  "dll m k p [] n = True"
| "dll m k p (b # bs) n \<longleftrightarrow> node m k b p (head_or bs n) \<and> dll m k b bs n"

lemma dll_append [simp]:
  "dll m k p (as @ bs) n \<longleftrightarrow> dll m k p as (head_or bs n) \<and> dll m k (last_or p as) bs n"
  by (induction as arbitrary: p) auto

text \<open>Only the memory of the nodes matters.\<close>

definition same_in :: "nat set \<Rightarrow> (nat \<Rightarrow> nat) \<Rightarrow> (nat \<Rightarrow> nat) \<Rightarrow> bool" where
  "same_in C m m' \<longleftrightarrow> (\<forall>i. i div 1024 \<in> C \<longrightarrow> m' i = m i)"

lemma same_in_refl [simp]: "same_in C m m"
  by (simp add: same_in_def)

lemma same_in_trans: "same_in C m m' \<Longrightarrow> same_in C m' m'' \<Longrightarrow> same_in C m m''"
  by (simp add: same_in_def)

lemma same_in_mono: "same_in D m m' \<Longrightarrow> C \<subseteq> D \<Longrightarrow> same_in C m m'"
  by (auto simp: same_in_def)

lemma same_in_upd [simp]: "i div 1024 \<notin> C \<Longrightarrow> same_in C m (m'(i := v)) \<longleftrightarrow> same_in C m m'"
  by (auto simp: same_in_def)

lemma node_dwords:
  "1024 * (b :: nat) div 1024 = b" "(1024 * b + 1) div 1024 = b" "(1024 * b + 2) div 1024 = b"
  "(1024 * (b + 2 ^ k) - 1) div 1024 = b + 2 ^ k - 1"
proof -
  have "0 < (2 :: nat) ^ k" by simp
  then obtain j where "(2 :: nat) ^ k = Suc j" by (auto simp: gr0_conv_Suc)
  then show "(1024 * (b + 2 ^ k) - 1) div 1024 = b + 2 ^ k - 1" by simp
qed simp_all

lemma node_same: "same_in (cells (b, k)) m m' \<Longrightarrow> node m k b p n \<Longrightarrow> node m' k b p n"
  using cells_nonempty(1) [of "(b, k)"] last_in_cells [of "(b, k)"] node_dwords [of b] node_dwords(4) [of b k]
  unfolding node_def same_in_def by (metis fst_conv snd_conv)

lemma dll_same: "same_in (\<Union>b \<in> set bs. cells (b, k)) m m' \<Longrightarrow> dll m k p bs n \<Longrightarrow> dll m' k p bs n"
proof (induction bs arbitrary: p)
  case (Cons b bs)
  then have "node m' k b p (head_or bs n)" by (auto intro: node_same same_in_mono)
  moreover have "dll m' k b bs n" using Cons by (auto intro: same_in_mono)
  ultimately show ?case by simp
qed simp

text \<open>Stores into single fields of a node.\<close>

lemma node_index_neq:
  "1024 * (b :: nat) + 1 \<noteq> 1024 * (b + 2 ^ k) - 1" "1024 * b + 2 \<noteq> 1024 * (b + 2 ^ k) - 1" "1024 * b \<noteq> 1024 * (b + 2 ^ k) - 1"
proof -
  have "0 < (2 :: nat) ^ k" by simp
  then obtain j where "(2 :: nat) ^ k = Suc j" by (auto simp: gr0_conv_Suc)
  then show "1024 * b + 1 \<noteq> 1024 * (b + 2 ^ k) - 1" "1024 * b + 2 \<noteq> 1024 * (b + 2 ^ k) - 1"
    "1024 * b \<noteq> 1024 * (b + 2 ^ k) - 1" by simp_all
qed

lemma node_set_prev: "node m k b p n \<Longrightarrow> node (m(1024 * b + 1 := q)) k b q n"
  using node_index_neq [of b k] by (simp add: node_def)

lemma node_set_next: "node m k b p n \<Longrightarrow> node (m(1024 * b + 2 := q)) k b p q"
  using node_index_neq [of b k] by (simp add: node_def)

lemma dll_set_prev:
  assumes "dll m k p (b # bs) n" and "b \<notin> (\<Union>c \<in> set bs. cells (c, k))"
  shows "dll (m(1024 * b + 1 := q)) k q (b # bs) n"
proof -
  have "same_in (\<Union>c \<in> set bs. cells (c, k)) m (m(1024 * b + 1 := q))"
    using assms(2) node_dwords(2) [of b] by simp
  moreover have "node m k b p (head_or bs n)" "dll m k b bs n" using assms(1) by simp_all
  ultimately show ?thesis unfolding dll.simps by (blast intro: node_set_prev dll_same)
qed

lemma dll_set_next:
  assumes "dll m k p (bs @ [b]) n" and "b \<notin> (\<Union>c \<in> set bs. cells (c, k))"
  shows "dll (m(1024 * b + 2 := q)) k p (bs @ [b]) q"
proof -
  have "same_in (\<Union>c \<in> set bs. cells (c, k)) m (m(1024 * b + 2 := q))"
    using assms(2) node_dwords(3) [of b] by simp
  moreover have "dll m k p bs b" "node m k b (last_or p bs) n" using assms(1) by simp_all
  ultimately show ?thesis unfolding dll_append dll.simps head_or_simps by (blast intro: node_set_next dll_same)
qed

definition list_cells :: "nat \<Rightarrow> nat list \<Rightarrow> nat set" where
  "list_cells k bs = (\<Union>b \<in> set bs. cells (b, k))"

lemma list_cells_simps [simp]:
  "list_cells k [] = {}" "list_cells k (b # bs) = cells (b, k) \<union> list_cells k bs"
  "list_cells k (as @ bs) = list_cells k as \<union> list_cells k bs"
  by (auto simp: list_cells_def)

fun separate :: "nat \<Rightarrow> nat list \<Rightarrow> bool" where
  "separate k [] = True"
| "separate k (b # bs) \<longleftrightarrow> cells (b, k) \<inter> list_cells k bs = {} \<and> separate k bs"

lemma separateI:
  assumes "distinct bs" and "\<And>x y. x \<in> set bs \<Longrightarrow> y \<in> set bs \<Longrightarrow> x \<noteq> y \<Longrightarrow> cells (x, k) \<inter> cells (y, k) = {}"
  shows "separate k bs"
  using assms
proof (induction bs)
  case (Cons b bs)
  have "cells (b, k) \<inter> cells (y, k) = {}" if "y \<in> set bs" for y
    using Cons.prems that by auto
  then have "cells (b, k) \<inter> list_cells k bs = {}" unfolding list_cells_def by blast
  moreover have "separate k bs" using Cons by simp
  ultimately show ?case by simp
qed simp

lemma separate_append [simp]:
  "separate k (as @ bs) \<longleftrightarrow> separate k as \<and> separate k bs \<and> list_cells k as \<inter> list_cells k bs = {}"
  by (induction as) auto

lemma start_in_cells [intro]: "b \<in> cells (b, k)"
  using cells_nonempty(1) [of "(b, k)"] by simp

lemma start_in_list_cells: "b \<in> set bs \<Longrightarrow> b \<in> list_cells k bs"
  unfolding list_cells_def using start_in_cells [of b k] by blast

lemma dll_same_list: "same_in (list_cells k bs) m m' \<Longrightarrow> dll m k p bs n \<Longrightarrow> dll m' k p bs n"
  unfolding list_cells_def by (rule dll_same)

lemma dll_push:
  assumes "dll m k p bs n" and "separate k bs" and "node m' k b q (head_or bs n)"
    and "\<And>i. i div 1024 \<in> list_cells k bs \<Longrightarrow>
      m' i = (if bs \<noteq> [] \<and> i = 1024 * hd bs + 1 then b else m i)"
  shows "dll m' k q (b # bs) n"
proof (cases bs)
  case Nil
  then show ?thesis using assms(3) by simp
next
  case (Cons c cs)
  have "c \<notin> list_cells k cs"
    using assms(2) start_in_cells [of c k] unfolding Cons separate.simps by blast
  then have "dll (m(1024 * c + 1 := b)) k b bs n"
    unfolding Cons list_cells_def by (rule dll_set_prev [OF assms(1) [unfolded Cons]])
  moreover have "same_in (list_cells k bs) (m(1024 * c + 1 := b)) m'"
    unfolding same_in_def using assms(4) by (simp add: Cons)
  ultimately have "dll m' k b bs n" by (rule dll_same_list [rotated])
  then show ?thesis using assms(3) by simp
qed

lemma dll_unlink:
  assumes "dll m k p (as @ b # bs) n" and "separate k (as @ b # bs)"
    and upd: "\<And>i. i div 1024 \<in> list_cells k (as @ bs) \<Longrightarrow>
      m' i = (if bs \<noteq> [] \<and> i = 1024 * hd bs + 1 then last_or p as
              else if as \<noteq> [] \<and> i = 1024 * last as + 2 then head_or bs n else m i)"
  shows "dll m' k p (as @ bs) n"
proof -
  have d: "dll m k p as b" "dll m k b bs n" using assms(1) by simp_all
  have disj: "list_cells k as \<inter> list_cells k bs = {}" using assms(2) by auto
  have "dll m' k p as (head_or bs n)"
  proof (cases as rule: rev_cases)
    case (snoc as' a)
    have "a \<notin> list_cells k as'"
      using assms(2) start_in_cells [of a k] unfolding snoc by auto
    then have "dll (m(1024 * a + 2 := head_or bs n)) k p as (head_or bs n)"
      unfolding snoc list_cells_def by (rule dll_set_next [OF d(1) [unfolded snoc]])
    moreover have "same_in (list_cells k as) (m(1024 * a + 2 := head_or bs n)) m'"
      unfolding same_in_def
    proof (intro allI impI)
      fix i assume i: "i div 1024 \<in> list_cells k as"
      have "\<not> (bs \<noteq> [] \<and> i = 1024 * hd bs + 1)"
        using i disj start_in_list_cells [of "hd bs" bs k] node_dwords(2) [of "hd bs"] by auto
      moreover have "m' i = (if bs \<noteq> [] \<and> i = 1024 * hd bs + 1 then last_or p as
          else if as \<noteq> [] \<and> i = 1024 * last as + 2 then head_or bs n else m i)"
        using i by (intro upd) simp
      ultimately show "m' i = (m(1024 * a + 2 := head_or bs n)) i" by (simp only: snoc) simp
    qed
    ultimately show ?thesis by (rule dll_same_list [rotated])
  qed simp
  moreover have "dll m' k (last_or p as) bs n"
  proof (cases bs)
    case (Cons c cs)
    have "c \<notin> list_cells k cs"
      using assms(2) start_in_cells [of c k] unfolding Cons separate_append separate.simps by blast
    then have "dll (m(1024 * c + 1 := last_or p as)) k (last_or p as) bs n"
      unfolding Cons list_cells_def by (rule dll_set_prev [OF d(2) [unfolded Cons]])
    moreover have "same_in (list_cells k bs) (m(1024 * c + 1 := last_or p as)) m'"
      unfolding same_in_def
    proof (intro allI impI)
      fix i assume i: "i div 1024 \<in> list_cells k bs"
      have "\<not> (as \<noteq> [] \<and> i = 1024 * last as + 2)"
        using i disj start_in_list_cells [of "last as" as k] node_dwords(3) [of "last as"] by auto
      moreover have "m' i = (if bs \<noteq> [] \<and> i = 1024 * hd bs + 1 then last_or p as
          else if as \<noteq> [] \<and> i = 1024 * last as + 2 then head_or bs n else m i)"
        using i by (intro upd) simp
      ultimately show "m' i = (m(1024 * c + 1 := last_or p as)) i" by (simp only: Cons) auto
    qed
    ultimately show ?thesis by (rule dll_same_list [rotated])
  qed simp
  ultimately show ?thesis by simp
qed

section \<open>What the state means\<close>

text \<open>
  \<open>L k\<close> is the free list of size class \<open>k\<close>, \<open>A\<close> the set of allocated blocks, and \<open>M\<close> the cells under
  management: those handed over by \<open>Release\<close>.  The bit map marks the last cell of each allocated block and
  all cells that are not managed.
\<close>

definition free_set :: "(nat \<Rightarrow> nat list) \<Rightarrow> block set" where
  "free_set L = {(b, k). k < numSizes \<and> b \<in> set (L k)}"

definition lists_ok :: "pool \<Rightarrow> (nat \<Rightarrow> nat list) \<Rightarrow> bool" where
  "lists_ok s L \<longleftrightarrow> length (freeList s) = numSizes \<and> (\<forall>k < numSizes. freeList s ! k = head_or (L k) OURNULL \<and>
     dll (mem s) k OURNULL (L k) OURNULL \<and> distinct (L k))"

definition map_ok :: "pool \<Rightarrow> block set \<Rightarrow> nat set \<Rightarrow> bool" where
  "map_ok s A M \<longleftrightarrow> length (bmap s) = (poolBlocks s + 7) div 8 \<and>
     (\<forall>n < poolBlocks s. BITTEST (bmap s) n \<longleftrightarrow> (\<exists>c \<in> A. n = fst c + 2 ^ snd c - 1) \<or> n \<notin> M)"

definition heap_ok :: "pool \<Rightarrow> (nat \<Rightarrow> nat list) \<Rightarrow> block set \<Rightarrow> nat set \<Rightarrow> bool" where
  "heap_ok s L A M \<longleftrightarrow> poolBlocks s < 2 ^ 20 \<and> lists_ok s L \<and> free_set L \<inter> A = {} \<and>
     (\<forall>c \<in> free_set L \<union> A. aligned (poolBlocks s) c) \<and> disjoint_blocks (free_set L \<union> A) \<and>
     all_cells (free_set L \<union> A) \<subseteq> M \<and> map_ok s A M"

lemma heap_okD:
  assumes "heap_ok s L A M"
  shows "poolBlocks s < 2 ^ 20" and "length (freeList s) = numSizes"
    and "k < numSizes \<Longrightarrow> freeList s ! k = head_or (L k) OURNULL"
    and "k < numSizes \<Longrightarrow> dll (mem s) k OURNULL (L k) OURNULL"
    and "k < numSizes \<Longrightarrow> distinct (L k)"
    and "c \<in> free_set L \<union> A \<Longrightarrow> aligned (poolBlocks s) c"
    and "c \<in> free_set L \<union> A \<Longrightarrow> d \<in> free_set L \<union> A \<Longrightarrow> c \<noteq> d \<Longrightarrow> cells c \<inter> cells d = {}"
    and "c \<in> free_set L \<union> A \<Longrightarrow> cells c \<subseteq> M"
    and "length (bmap s) = (poolBlocks s + 7) div 8"
    and "n < poolBlocks s \<Longrightarrow> BITTEST (bmap s) n \<longleftrightarrow> (\<exists>c \<in> A. n = fst c + 2 ^ snd c - 1) \<or> n \<notin> M"
    and "free_set L \<inter> A = {}"
proof -
  show "poolBlocks s < 2 ^ 20" "length (freeList s) = numSizes"
    "k < numSizes \<Longrightarrow> freeList s ! k = head_or (L k) OURNULL"
    "k < numSizes \<Longrightarrow> dll (mem s) k OURNULL (L k) OURNULL" "k < numSizes \<Longrightarrow> distinct (L k)"
    using assms unfolding heap_ok_def lists_ok_def by simp_all
  show "length (bmap s) = (poolBlocks s + 7) div 8"
    "n < poolBlocks s \<Longrightarrow> BITTEST (bmap s) n \<longleftrightarrow> (\<exists>c \<in> A. n = fst c + 2 ^ snd c - 1) \<or> n \<notin> M"
    using assms unfolding heap_ok_def map_ok_def by simp_all
  have "disjoint_blocks (free_set L \<union> A)" "all_cells (free_set L \<union> A) \<subseteq> M" "free_set L \<inter> A = {}"
    "\<forall>c \<in> free_set L \<union> A. aligned (poolBlocks s) c"
    using assms unfolding heap_ok_def by simp_all
  then show "c \<in> free_set L \<union> A \<Longrightarrow> aligned (poolBlocks s) c"
    "c \<in> free_set L \<union> A \<Longrightarrow> d \<in> free_set L \<union> A \<Longrightarrow> c \<noteq> d \<Longrightarrow> cells c \<inter> cells d = {}"
    "c \<in> free_set L \<union> A \<Longrightarrow> cells c \<subseteq> M" "free_set L \<inter> A = {}"
    unfolding disjoint_blocks_def all_cells_def by blast+
qed

lemma free_setI: "k < numSizes \<Longrightarrow> b \<in> set (L k) \<Longrightarrow> (b, k) \<in> free_set L"
  by (simp add: free_set_def)

lemma free_set_push: "k < numSizes \<Longrightarrow> free_set (L(k := b # L k)) = insert (b, k) (free_set L)"
  by (auto simp: free_set_def)

lemma free_set_unlink:
  assumes "k < numSizes" and "L k = as @ b # bs" and "distinct (L k)"
  shows "free_set (L(k := as @ bs)) = free_set L - {(b, k)}"
  using assms by (auto simp: free_set_def)

lemma list_cells_free: "list_cells k (L k) = all_cells {c \<in> free_set L. snd c = k}" if "k < numSizes"
  using that by (force simp: list_cells_def all_cells_def free_set_def)

lemma heap_separate:
  assumes "heap_ok s L A M" and "k < numSizes"
  shows "separate k (L k)"
proof (rule separateI)
  show "distinct (L k)" by (rule heap_okD(5) [OF assms])
  fix x y assume "x \<in> set (L k)" "y \<in> set (L k)" "x \<noteq> y"
  then show "cells (x, k) \<inter> cells (y, k) = {}"
    using heap_okD(7) [OF assms(1), of "(x, k)" "(y, k)"] assms(2) by (simp add: free_setI)
qed

lemma heap_lists_disjoint:
  assumes "heap_ok s L A M" and "k < numSizes" and "j < numSizes" and "j \<noteq> k"
  shows "list_cells j (L j) \<inter> list_cells k (L k) = {}"
proof -
  have "cells (x, j) \<inter> cells (y, k) = {}" if "x \<in> set (L j)" "y \<in> set (L k)" for x y
    using heap_okD(7) [OF assms(1), of "(x, j)" "(y, k)"] assms that by (simp add: free_setI)
  then show ?thesis unfolding list_cells_def by blast
qed

lemma list_cells_subset: "k < numSizes \<Longrightarrow> list_cells k (L k) \<subseteq> all_cells (free_set L)"
  by (auto simp: list_cells_def all_cells_def free_set_def)

text \<open>Replacing one list, the memory of the others being left alone.\<close>

lemma lists_ok_replace:
  assumes ok: "heap_ok s L A M" and k: "k < numSizes"
    and "dll (mem t) k OURNULL bs OURNULL" and "distinct bs" and "freeList t = (freeList s)[k := head_or bs OURNULL]"
    and same: "\<And>j. j < numSizes \<Longrightarrow> j \<noteq> k \<Longrightarrow> same_in (list_cells j (L j)) (mem s) (mem t)"
  shows "lists_ok t (L(k := bs))"
  unfolding lists_ok_def
proof (intro conjI allI impI)
  show "length (freeList t) = numSizes" using heap_okD(2) [OF ok] assms(5) by simp
  fix j assume j: "j < numSizes"
  show "freeList t ! j = head_or ((L(k := bs)) j) OURNULL"
    using heap_okD(2,3) [OF ok] j k assms(5) by (simp add: nth_list_update)
  show "dll (mem t) j OURNULL ((L(k := bs)) j) OURNULL"
    using dll_same_list [OF same heap_okD(4) [OF ok]] j assms(3) by simp
  show "distinct ((L(k := bs)) j)" using heap_okD(5) [OF ok] j assms(4) by simp
qed

lemma heap_push:
  assumes ok: "heap_ok s L A M" and c: "aligned (poolBlocks s) (b, k)" "cells (b, k) \<subseteq> M"
    "cells (b, k) \<inter> all_cells (free_set L \<union> A) = {}"
    and node: "node (mem t) k b OURNULL (head_or (L k) OURNULL)"
    and upd: "\<And>i. i div 1024 \<in> list_cells k (L k) \<Longrightarrow>
      mem t i = (if L k \<noteq> [] \<and> i = 1024 * hd (L k) + 1 then b else mem s i)"
    and same: "same_in (- (cells (b, k) \<union> list_cells k (L k))) (mem s) (mem t)"
    and t: "freeList t = (freeList s)[k := b]" "bmap t = bmap s" "poolBlocks t = poolBlocks s"
  shows "heap_ok t (L(k := b # L k)) A M"
proof -
  have k: "k < numSizes" using c(1) by (simp add: aligned_def)
  have new: "b \<notin> set (L k)" 
    using c(3) list_cells_subset [OF k, of L] start_in_list_cells [of b "L k" k] start_in_cells [of b k]
    unfolding all_cells_simps by blast
  have "lists_ok t (L(k := b # L k))"
  proof (rule lists_ok_replace [OF ok k])
    show "dll (mem t) k OURNULL (b # L k) OURNULL"
      by (rule dll_push [OF heap_okD(4) [OF ok k] heap_separate [OF ok k] node upd])
    show "distinct (b # L k)" using new heap_okD(5) [OF ok k] by simp
    show "freeList t = (freeList s)[k := head_or (b # L k) OURNULL]" using t by simp
    fix j assume "j < numSizes" "j \<noteq> k"
    then have "list_cells j (L j) \<subseteq> - (cells (b, k) \<union> list_cells k (L k))"
      using heap_lists_disjoint [OF ok k] list_cells_subset [of j L] c(3) by fastforce
    with same show "same_in (list_cells j (L j)) (mem s) (mem t)" by (rule same_in_mono)
  qed
  moreover have "disjoint_blocks (insert (b, k) (free_set L \<union> A))"
    using heap_okD(7) [OF ok] c(3) unfolding disjoint_blocks_def all_cells_def by blast
  moreover have "(b, k) \<notin> A" using c(3) start_in_cells [of b k] unfolding all_cells_def by auto
  ultimately show ?thesis
    using ok c t unfolding heap_ok_def free_set_push [OF k] map_ok_def by simp
qed

lemma heap_unlink:
  assumes ok: "heap_ok s L A M" and k: "k < numSizes" and L: "L k = as @ b # bs"
    and upd: "\<And>i. i div 1024 \<in> list_cells k (as @ bs) \<Longrightarrow>
      mem t i = (if bs \<noteq> [] \<and> i = 1024 * hd bs + 1 then last_or OURNULL as
                 else if as \<noteq> [] \<and> i = 1024 * last as + 2 then head_or bs OURNULL else mem s i)"
    and same: "same_in (- list_cells k (L k)) (mem s) (mem t)"
    and t: "freeList t = (freeList s)[k := head_or (as @ bs) OURNULL]" "bmap t = bmap s" "poolBlocks t = poolBlocks s"
  shows "heap_ok t (L(k := as @ bs)) A M"
proof -
  have d: "distinct (L k)" by (rule heap_okD(5) [OF ok k])
  have "lists_ok t (L(k := as @ bs))"
  proof (rule lists_ok_replace [OF ok k])
    show "dll (mem t) k OURNULL (as @ bs) OURNULL"
      by (rule dll_unlink [OF heap_okD(4) [OF ok k, unfolded L] heap_separate [OF ok k, unfolded L] upd])
    show "distinct (as @ bs)" using d by (simp add: L)
    show "freeList t = (freeList s)[k := head_or (as @ bs) OURNULL]" by (rule t)
    fix j assume "j < numSizes" "j \<noteq> k"
    then have "list_cells j (L j) \<subseteq> - list_cells k (L k)"
      using heap_lists_disjoint [OF ok k] by blast
    with same show "same_in (list_cells j (L j)) (mem s) (mem t)" by (rule same_in_mono)
  qed
  moreover have "(free_set L - {(b, k)}) \<inter> A = {}" "all_cells (free_set L - {(b, k)} \<union> A) \<subseteq> M"
    "disjoint_blocks (free_set L - {(b, k)} \<union> A)"
  proof -
    show "(free_set L - {(b, k)}) \<inter> A = {}" using heap_okD(11) [OF ok] by blast
    show "all_cells (free_set L - {(b, k)} \<union> A) \<subseteq> M"
      unfolding all_cells_def by (rule UN_least, rule heap_okD(8) [OF ok]) blast
    show "disjoint_blocks (free_set L - {(b, k)} \<union> A)"
      unfolding disjoint_blocks_def by (intro ballI impI, rule heap_okD(7) [OF ok]) blast+
  qed
  moreover have "\<forall>c \<in> free_set L - {(b, k)} \<union> A. aligned (poolBlocks t) c"
    unfolding t(3) by (intro ballI, rule heap_okD(6) [OF ok]) blast
  moreover have "poolBlocks t < 2 ^ 20" unfolding t(3) by (rule heap_okD(1) [OF ok])
  moreover have "map_ok t A M"
    unfolding map_ok_def t(2,3) by (intro conjI allI impI heap_okD(9) [OF ok] heap_okD(10) [OF ok])
  ultimately show ?thesis unfolding heap_ok_def free_set_unlink [where L = L, OF k L d] by (intro conjI)
qed

section \<open>Adding free memory\<close>

text \<open>No 32-bit operation wraps on a pool of at most 4G.\<close>

lemma pow_le_12: "k < 13 \<Longrightarrow> (2 :: nat) ^ k \<le> 4096"
  using power_increasing [of k 12 "2 :: nat"] by simp

lemma shl32_one: "k < 32 \<Longrightarrow> shl32 1 k = 2 ^ k"
  unfolding shl32_def using power_strict_increasing [of k 32 "2 :: nat"] by simp

lemma shl32_bytes: "k < 13 \<Longrightarrow> shl32 1 (k + 12) = 4096 * 2 ^ k"
  using shl32_one [of "k + 12"] by (simp add: power_add)

lemma add32_small: "a + b < 4294967296 \<Longrightarrow> add32 a b = a + b"
  by (simp add: add32_def)

lemma sub32_small: "b \<le> a \<Longrightarrow> a < 4294967296 \<Longrightarrow> sub32 a b = a - b"
  unfolding sub32_def by (simp add: mod_if [of "a + 4294967296 - b"])

lemma block_ptr_small: "b < 2 ^ 20 \<Longrightarrow> block_ptr b = 1024 * b"
  unfolding block_ptr_def shl32_def by simp

lemma block_end: "1024 * b + 4096 * 2 ^ k div 4 - 1 = 1024 * (b + 2 ^ k) - (1 :: nat)"
  by simp

definition kept :: "pool \<Rightarrow> pool \<Rightarrow> bool" where
  "kept s t \<longleftrightarrow> poolStart t = poolStart s \<and> poolBlocks t = poolBlocks s \<and> has_map t = has_map s"

lemma head_in: "L \<noteq> [] \<Longrightarrow> head_or L n = hd L"
  by (cases L) simp_all

lemma heap_list_bound:
  assumes "heap_ok s L A M" and "k < numSizes" and "b \<in> set (L k)"
  shows "b < poolBlocks s" and "b + 2 ^ k \<le> poolBlocks s" and "2 ^ k dvd b" and "b \<noteq> OURNULL" and "b < 2 ^ 20"
proof -
  have "aligned (poolBlocks s) (b, k)" using heap_okD(6) [OF assms(1)] free_setI [OF assms(2), of b L] assms(3) by blast
  moreover have "0 < (2 :: nat) ^ k" by simp
  ultimately show "b + 2 ^ k \<le> poolBlocks s" "2 ^ k dvd b" "b < poolBlocks s"
    unfolding aligned_def fst_conv snd_conv by linarith+
  then show "b \<noteq> OURNULL" "b < 2 ^ 20" using heap_okD(1) [OF assms(1)] by auto
qed

lemma heap_head:
  assumes "heap_ok s L A M" and "k < numSizes"
  shows "freeList s ! k = OURNULL \<longleftrightarrow> L k = []" and "L k \<noteq> [] \<Longrightarrow> freeList s ! k = hd (L k)"
  using heap_okD(3) [OF assms] heap_list_bound(4) [OF assms, of "hd (L k)"] by (cases "L k"; simp)+

lemma makeFree_ok:
  assumes ok: "heap_ok s L A M" and c: "aligned (poolBlocks s) (b, k)" "cells (b, k) \<subseteq> M"
    "cells (b, k) \<inter> all_cells (free_set L \<union> A) = {}"
  shows "heap_ok (makeFree b k False s) (L(k := b # L k)) A M"
    and "freeBytes (makeFree b k False s) = add32 (freeBytes s) (4096 * 2 ^ k)"
    and "kept s (makeFree b k False s)" and "bmap (makeFree b k False s) = bmap s"
    and "same_in (- (cells (b, k) \<union> all_cells (free_set L))) (mem s) (mem (makeFree b k False s))"
proof -
  let ?t = "makeFree b k False s"
  have k: "k < numSizes" and b: "b < 2 ^ 20" and pos: "0 < (2 :: nat) ^ k"
    using c(1) heap_okD(1) [OF ok] by (auto simp: aligned_def intro: le_less_trans [OF le_add1])
  define m where "m = (mem s)(1024 * b := MAGIC, 1024 * b + 1 := OURNULL, 1024 * b + 2 := freeList s ! k,
      1024 * (b + 2 ^ k) - 1 := k + LEN_OFFSET)"
  define m' where "m' = (if L k \<noteq> [] then m(1024 * hd (L k) + 1 := b) else m)"
  have ptr: "L k \<noteq> [] \<Longrightarrow> block_ptr (freeList s ! k) = 1024 * hd (L k)"
    using heap_head(2) [OF ok k] heap_list_bound(5) [OF ok k, of "hd (L k)"] by (simp add: block_ptr_small)
  have len: "add32 k LEN_OFFSET = k + LEN_OFFSET" using k by (intro add32_small) simp
  have mem: "mem ?t = m'"
    unfolding makeFree_def Let_def m'_def m_def store_def set_list_def block_ptr_small [OF b] shl32_bytes [OF k] len block_end
    using heap_head(1) [OF ok k] ptr by auto
  show "freeBytes ?t = add32 (freeBytes s) (4096 * 2 ^ k)" "kept s ?t" and map: "bmap ?t = bmap s"
    unfolding makeFree_def Let_def store_def set_list_def kept_def shl32_bytes [OF k] by auto
  have fl: "freeList ?t = (freeList s)[k := b]" and pb: "poolBlocks ?t = poolBlocks s"
    unfolding makeFree_def Let_def store_def set_list_def by auto
  note own = node_dwords [of b] node_dwords(4) [of b k] last_in_cells [of "(b, k)"] start_in_cells [of b k]
  have hd_in: "L k \<noteq> [] \<Longrightarrow> hd (L k) \<in> list_cells k (L k)"
    by (rule start_in_list_cells) simp
  have disj: "cells (b, k) \<inter> list_cells k (L k) = {}"
    using list_cells_subset [OF k, of L] c(3) by auto
  have outside: "same_in (- cells (b, k)) (mem s) m"
    using own unfolding m_def same_in_def by auto
  show same: "same_in (- (cells (b, k) \<union> all_cells (free_set L))) (mem s) (mem ?t)"
    unfolding mem m'_def using outside hd_in list_cells_subset [OF k, of L] node_dwords(2) [of "hd (L k)"]
    unfolding same_in_def by auto
  have "node m k b OURNULL (head_or (L k) OURNULL)"
    using node_index_neq [of b k] heap_okD(3) [OF ok k] unfolding node_def m_def by simp
  moreover have "same_in (cells (b, k)) m m'"
    using hd_in disj node_dwords(2) [of "hd (L k)"] unfolding m'_def same_in_def by auto
  ultimately have node: "node (mem ?t) k b OURNULL (head_or (L k) OURNULL)"
    unfolding mem by (rule node_same [rotated])
  have upd: "mem ?t i = (if L k \<noteq> [] \<and> i = 1024 * hd (L k) + 1 then b else mem s i)"
    if "i div 1024 \<in> list_cells k (L k)" for i
  proof -
    have "m i = mem s i" using that disj outside unfolding same_in_def by blast
    then show ?thesis unfolding mem m'_def by simp
  qed
  have "same_in (- (cells (b, k) \<union> list_cells k (L k))) (mem s) (mem ?t)"
    unfolding mem m'_def using outside hd_in node_dwords(2) [of "hd (L k)"] unfolding same_in_def by auto
  from heap_push [OF ok c node upd this fl map pb] show "heap_ok ?t (L(k := b # L k)) A M" .
qed


subsection \<open>Splitting a range into blocks\<close>

text \<open>\<open>fits\<close>: the block \<open>(i, k)\<close> is aligned and ends in the range.\<close>

definition fits :: "nat \<Rightarrow> nat \<Rightarrow> nat \<Rightarrow> bool" where
  "fits past i k \<longleftrightarrow> 2 ^ k dvd i \<and> i + 2 ^ k \<le> past"

lemma fits_down: "fits past i k \<Longrightarrow> j \<le> k \<Longrightarrow> fits past i j"
proof -
  assume f: "fits past i k" and j: "j \<le> k"
  have "(2 :: nat) ^ j dvd 2 ^ k" "(2 :: nat) ^ j \<le> 2 ^ k" using j by (simp_all add: le_imp_power_dvd)
  with f show "fits past i j" unfolding fits_def by (meson add_left_mono dvd_trans le_trans)
qed

lemma and_mask_dvd: "i AND (2 ^ k - 1) = 0 \<longleftrightarrow> 2 ^ k dvd (i :: nat)"
proof -
  have "i AND (2 ^ k - 1) = take_bit k i" by (simp only: take_bit_eq_mask mask_eq_exp_minus_1)
  then show ?thesis by (simp only: take_bit_eq_0_iff)
qed

lemma block_tests:
  assumes "k < 14" and "i < past" and "past < 2 ^ 20"
  shows "add32 i (2 ^ k) > past \<longleftrightarrow> \<not> i + 2 ^ k \<le> past" and "i AND sub32 (2 ^ k) 1 \<noteq> 0 \<longleftrightarrow> \<not> 2 ^ k dvd i"
proof -
  have "(2 :: nat) ^ k \<le> 8192" using assms(1) power_increasing [of k 13 "2 :: nat"] by simp
  then show "add32 i (2 ^ k) > past \<longleftrightarrow> \<not> i + 2 ^ k \<le> past"
    using assms by (subst add32_small) auto
  have "sub32 (2 ^ k) 1 = 2 ^ k - 1" using \<open>2 ^ k \<le> 8192\<close> by (intro sub32_small) auto
  then show "i AND sub32 (2 ^ k) 1 \<noteq> 0 \<longleftrightarrow> \<not> 2 ^ k dvd i" by (simp only: and_mask_dvd)
qed

lemma shl32_pow: "k < 13 \<Longrightarrow> shl32 (2 ^ k) 1 = 2 ^ Suc k"
  using pow_le_12 [of k] unfolding shl32_def by simp

lemma grow_block_fits:
  assumes "k < 13" and "i < past" and "past < 2 ^ 20"
  shows "\<exists>j. k \<le> j \<and> j < 13 \<and> grow_block i past (int k) (2 ^ k) = (int j, 2 ^ j) \<and> (j = 12 \<or> \<not> fits past i (Suc j))"
  using assms(1)
proof (induction "12 - k" arbitrary: k)
  case 0
  then have "k = 12" by simp
  then show ?case by (subst grow_block.simps) auto
next
  case (Suc d)
  then have k: "k < 12" by simp
  note t = block_tests [of "Suc k" i past] shl32_pow [of k]
  show ?case
  proof (cases "fits past i (Suc k)")
    case True
    then have "grow_block i past (int k) (2 ^ k) = grow_block i past (int (Suc k)) (2 ^ Suc k)"
      using k t assms by (subst grow_block.simps) (simp add: Let_def fits_def add.commute)
    moreover have "d = 12 - Suc k" "Suc k < 13" using Suc.hyps(2) k by simp_all
    from Suc.hyps(1) [OF this] obtain j where "Suc k \<le> j" "j < 13"
      "grow_block i past (int (Suc k)) (2 ^ Suc k) = (int j, 2 ^ j)" "j = 12 \<or> \<not> fits past i (Suc j)" by blast
    ultimately show ?thesis by (intro exI [of _ j]) simp
  next
    case False
    then have "grow_block i past (int k) (2 ^ k) = (int k, 2 ^ k)"
      using k t assms by (subst grow_block.simps) (auto simp: Let_def fits_def)
    then show ?thesis using False k by auto
  qed
qed

lemma shrink_block_fits:
  assumes "k < 13" and "i < past" and "past < 2 ^ 20"
  shows "\<exists>j \<le> k. shrink_block i past (int k) (2 ^ k) = (int j, 2 ^ j) \<and> fits past i j \<and> (j = k \<or> \<not> fits past i (Suc j))"
  using assms(1)
proof (induction k)
  case 0
  have "fits past i 0" using assms(2) by (simp add: fits_def)
  then show ?case using block_tests [of 0 i past] assms by (subst shrink_block.simps) (auto simp: fits_def)
next
  case (Suc k)
  note t = block_tests [of "Suc k" i past]
  show ?case
  proof (cases "fits past i (Suc k)")
    case True
    then have "shrink_block i past (int (Suc k)) (2 ^ Suc k) = (int (Suc k), 2 ^ Suc k)"
      using Suc.prems t assms by (subst shrink_block.simps) (auto simp: fits_def)
    then show ?thesis using True by blast
  next
    case False
    then have "shrink_block i past (int (Suc k)) (2 ^ Suc k) = shrink_block i past (int k) (2 ^ k)"
      using Suc.prems t assms by (subst shrink_block.simps) (auto simp: fits_def)
    then show ?thesis using Suc False by (metis Suc_lessD le_Suc_eq)
  qed
qed

text \<open>Together the loops find the largest block that fits, from any starting size.\<close>

lemma largest_block:
  assumes "k < 13" and "i < past" and "past < 2 ^ 20"
  shows "\<exists>j < 13. (let (b, l) = grow_block i past (int k) (2 ^ k) in shrink_block i past b l) = (int j, 2 ^ j) \<and>
    fits past i j \<and> (j = 12 \<or> \<not> fits past i (Suc j))"
proof -
  obtain g where g: "g < 13" "grow_block i past (int k) (2 ^ k) = (int g, 2 ^ g)" "g = 12 \<or> \<not> fits past i (Suc g)"
    using grow_block_fits [OF assms] by auto
  obtain j where "j \<le> g" "shrink_block i past (int g) (2 ^ g) = (int j, 2 ^ j)" "fits past i j" "j = g \<or> \<not> fits past i (Suc j)"
    using shrink_block_fits [OF g(1) assms(2,3)] by auto
  with g show ?thesis by (intro exI [of _ j]) auto
qed

text \<open>
  The outcome of freeing the cells from \<open>i\<close> up to \<open>past\<close>: new free blocks \<open>N\<close>, exactly on these cells,
  each as large as alignment and the end of the range allow; the rest of the memory is untouched.
\<close>

definition filled :: "pool \<Rightarrow> (nat \<Rightarrow> nat list) \<Rightarrow> block set \<Rightarrow> nat set \<Rightarrow> nat \<Rightarrow> nat \<Rightarrow> block set \<Rightarrow>
    pool \<Rightarrow> (nat \<Rightarrow> nat list) \<Rightarrow> bool" where
  "filled s L A M i past N t L' \<longleftrightarrow> heap_ok t L' A M \<and> free_set L' = free_set L \<union> N \<and> all_cells N = {i ..< past} \<and>
     (\<forall>(x, j) \<in> N. j = 12 \<or> \<not> fits past x (Suc j)) \<and> kept s t \<and> bmap t = bmap s \<and>
     freeBytes t mod 2 ^ 32 = (freeBytes s + 4096 * (past - i)) mod 2 ^ 32 \<and>
     (freeBytes s < 2 ^ 32 \<longrightarrow> freeBytes t < 2 ^ 32) \<and>
     same_in (- (all_cells (free_set L) \<union> {i ..< past})) (mem s) (mem t)"

lemma kept_trans: "kept s t \<Longrightarrow> kept t u \<Longrightarrow> kept s u"
  by (simp add: kept_def)

lemma kept_refl [simp]: "kept s s"
  by (simp add: kept_def)

lemma filled_empty: "heap_ok s L A M \<Longrightarrow> filled s L A M i i {} s L"
  by (simp add: filled_def)

lemma filled_step:
  assumes ok: "heap_ok s L A M" and f: "fits past i j" and j: "j < 13" "j = 12 \<or> \<not> fits past i (Suc j)"
    and past: "past \<le> poolBlocks s" and M: "{i ..< past} \<subseteq> M" and new: "{i ..< past} \<inter> all_cells (free_set L \<union> A) = {}"
    and rest: "filled (makeFree i j False s) (L(j := i # L j)) A M (i + 2 ^ j) past N t L'"
  shows "filled s L A M i past (insert (i, j) N) t L'"
proof -
  let ?s = "makeFree i j False s"
  have sub: "cells (i, j) \<subseteq> {i ..< past}" using f by (auto simp: in_cells fits_def)
  have c: "aligned (poolBlocks s) (i, j)" "cells (i, j) \<subseteq> M" "cells (i, j) \<inter> all_cells (free_set L \<union> A) = {}"
    using f j past sub M new by (auto simp: aligned_def fits_def)
  note step = makeFree_ok [OF ok c]
  have parts: "{i ..< past} = cells (i, j) \<union> {i + 2 ^ j ..< past}" using f by (auto simp: in_cells fits_def)
  have fs: "free_set (L(j := i # L j)) = insert (i, j) (free_set L)" using j(1) by (rule free_set_push)
  have "same_in (- (all_cells (free_set L) \<union> {i ..< past})) (mem s) (mem t)"
  proof (rule same_in_trans)
    show "same_in (- (all_cells (free_set L) \<union> {i ..< past})) (mem s) (mem ?s)"
      by (rule same_in_mono [OF step(5)]) (use sub in blast)
    show "same_in (- (all_cells (free_set L) \<union> {i ..< past})) (mem ?s) (mem t)"
      using rest unfolding filled_def fs by (elim conjE, rule_tac same_in_mono) (auto simp: parts)
  qed
  moreover have "freeBytes t mod 2 ^ 32 = (freeBytes s + 4096 * (past - i)) mod 2 ^ 32"
  proof -
    have "past - i = 2 ^ j + (past - (i + 2 ^ j))" using f by (simp add: fits_def)
    then have "freeBytes s + 4096 * (past - i) = freeBytes s + 4096 * 2 ^ j + 4096 * (past - (i + 2 ^ j))" by simp
    moreover have "freeBytes t mod 2 ^ 32 = ((freeBytes s + 4096 * 2 ^ j) mod 2 ^ 32 + 4096 * (past - (i + 2 ^ j))) mod 2 ^ 32"
      using rest unfolding filled_def step(2) add32_def by simp
    ultimately show ?thesis by (simp only: mod_add_left_eq)
  qed
  moreover have "freeBytes t < 2 ^ 32"
    using rest unfolding filled_def step(2) add32_def by simp
  moreover have "kept s t" "bmap t = bmap s" "heap_ok t L' A M" "free_set L' = free_set L \<union> insert (i, j) N"
    "all_cells (insert (i, j) N) = {i ..< past}"
    using rest step(3,4) unfolding filled_def fs by (auto intro: kept_trans simp: parts)
  moreover have "\<forall>(x, j) \<in> insert (i, j) N. j = 12 \<or> \<not> fits past x (Suc j)"
    using rest j(2) unfolding filled_def by auto
  ultimately show ?thesis unfolding filled_def by blast
qed

lemma toFree_loop_ok:
  assumes "heap_ok s L A M" and "past \<le> poolBlocks s" and "i \<le> past" and "{i ..< past} \<subseteq> M"
    and "{i ..< past} \<inter> all_cells (free_set L \<union> A) = {}" and "k < 13"
  shows "\<exists>N t L'. toFree_loop i past False (int k) (2 ^ k) s = Some t \<and> filled s L A M i past N t L'"
  using assms
proof (induction "past - i" arbitrary: i k s L rule: less_induct)
  case less
  have P: "past < 2 ^ 20" using heap_okD(1) [OF less.prems(1)] less.prems(2) by simp
  show ?case
  proof (cases "i < past")
    case True
    obtain j where j: "j < 13" "(let (b, l) = grow_block i past (int k) (2 ^ k) in shrink_block i past b l) = (int j, 2 ^ j)"
      "fits past i j" "j = 12 \<or> \<not> fits past i (Suc j)"
      using largest_block [OF less.prems(6) True P] by auto
    let ?s = "makeFree i j False s" and ?L = "L(j := i # L j)"
    have pos: "0 < (2 :: nat) ^ j" by simp
    have "add32 i (2 ^ j) = i + 2 ^ j" using j(3) P by (intro add32_small) (simp add: fits_def)
    then have run: "toFree_loop i past False (int k) (2 ^ k) s = toFree_loop (i + 2 ^ j) past False (int j) (2 ^ j) ?s"
      using True j(2) by (subst toFree_loop.simps) (auto simp: split_def Let_def)
    have sub: "cells (i, j) \<subseteq> {i ..< past}" using j(3) by (auto simp: in_cells fits_def)
    have c: "aligned (poolBlocks s) (i, j)" "cells (i, j) \<subseteq> M" "cells (i, j) \<inter> all_cells (free_set L \<union> A) = {}"
      using j less.prems sub by (auto simp: aligned_def fits_def)
    note step = makeFree_ok [OF less.prems(1) c]
    have "{i + 2 ^ j ..< past} \<inter> all_cells (free_set ?L \<union> A) = {}"
    proof -
      have "{i + 2 ^ j ..< past} \<subseteq> {i ..< past} - cells (i, j)" by (auto simp: in_cells)
      then show ?thesis unfolding free_set_push [OF j(1)] Un_insert_left all_cells_simps using less.prems(5) by auto
    qed
    moreover have "past - (i + 2 ^ j) < past - i" using True pos by linarith
    moreover have "past \<le> poolBlocks ?s" "i + 2 ^ j \<le> past" "{i + 2 ^ j ..< past} \<subseteq> M"
      using less.prems(2,4) step(3) j(3) by (auto simp: kept_def fits_def)
    ultimately obtain N t L' where "toFree_loop (i + 2 ^ j) past False (int j) (2 ^ j) ?s = Some t"
      "filled ?s ?L A M (i + 2 ^ j) past N t L'"
      using less.hyps [of "i + 2 ^ j" ?s ?L j] step(1) j(1) by blast
    then show ?thesis
      using run filled_step [OF less.prems(1) j(3,1,4) less.prems(2,4,5)] by (metis (no_types))
  next
    case False
    then have "i = past" using less.prems(3) by simp
    then show ?thesis using filled_empty [OF less.prems(1)] by (subst toFree_loop.simps) auto
  qed
qed

lemma toFree_ok:
  assumes "heap_ok s L A M" and "past \<le> poolBlocks s" and "i \<le> past" and "{i ..< past} \<subseteq> M"
    and "{i ..< past} \<inter> all_cells (free_set L \<union> A) = {}"
  obtains N t L' where "toFree i past False s = Some t" and "filled s L A M i past N t L'"
  using toFree_loop_ok [OF assms, of 0] unfolding toFree_def by auto

section \<open>Allocation\<close>

definition pool_ok :: "pool \<Rightarrow> (nat \<Rightarrow> nat list) \<Rightarrow> block set \<Rightarrow> bool" where
  "pool_ok s L A \<longleftrightarrow> heap_ok s L A (all_cells (free_set L \<union> A)) \<and>
     freeBytes s = 4096 * card (all_cells (free_set L))"

lemma heap_cells_bound:
  assumes "heap_ok s L A M"
  shows "all_cells (free_set L \<union> A) \<subseteq> {..< poolBlocks s}" and "finite (all_cells (free_set L))"
    and "card (all_cells (free_set L)) \<le> poolBlocks s"
proof -
  have c: "cells c \<subseteq> {..< poolBlocks s}" if "c \<in> free_set L \<union> A" for c
    using heap_okD(6) [OF assms that] unfolding aligned_def cells_def by auto
  show "all_cells (free_set L \<union> A) \<subseteq> {..< poolBlocks s}"
    unfolding all_cells_def by (rule UN_least) (rule c)
  then have *: "all_cells (free_set L) \<subseteq> {..< poolBlocks s}" by simp
  then show "finite (all_cells (free_set L))" by (rule finite_subset) simp
  show "card (all_cells (free_set L)) \<le> poolBlocks s" using card_mono [OF _ *] by simp
qed

text \<open>No two free buddies: they would have been merged.\<close>

definition coalesced :: "(nat \<Rightarrow> nat list) \<Rightarrow> bool" where
  "coalesced L \<longleftrightarrow> (\<forall>(b, k) \<in> free_set L. k < 12 \<longrightarrow> (b XOR 2 ^ k, k) \<notin> free_set L)"

lemma coalesced_filled:
  assumes old: "coalesced K" and apart: "cells (b, r) \<inter> all_cells (free_set K) = {}"
    and b: "2 ^ r dvd b" "b < i" "past = b + 2 ^ r"
    and new: "free_set L = free_set K \<union> N" "all_cells N = {i ..< past}"
    and al: "\<forall>(x, j) \<in> N. 2 ^ j dvd x" and large: "\<forall>(x, j) \<in> N. j = 12 \<or> \<not> fits past x (Suc j)"
  shows "coalesced L"
proof -
  have N: "2 ^ j dvd x" "(x XOR 2 ^ j, j) \<notin> free_set K" "(x XOR 2 ^ j, j) \<notin> N" if "(x, j) \<in> N" "j < 12" for x j
  proof -
    show d: "2 ^ j dvd x" using al that by auto
    have x: "cells (x, j) \<subseteq> {i ..< past}" using new(2) that unfolding all_cells_def by blast
    have xb: "x \<in> cells (b, r)" using x start_in_cells [of x j] b(2,3) unfolding in_cells by auto
    have "j < r"
    proof (rule ccontr)
      assume "\<not> j < r"
      then have "cells (b, r) \<subseteq> cells (x, j)"
        using aligned_nested [OF b(1) d _ xb start_in_cells] by simp
      then have "b \<in> {i ..< past}" using x start_in_cells [of b r] by blast
      then show False using b(2) by simp
    qed
    note f = buddy_facts [OF d]
    let ?m = "min x (x XOR 2 ^ j)"
    have m: "cells (?m, Suc j) \<subseteq> cells (b, r)"
      using aligned_nested [OF f(6) b(1) _ _ xb] \<open>j < r\<close> start_in_cells [of x j] unfolding f(5) by simp
    then show "(x XOR 2 ^ j, j) \<notin> free_set K"
      using apart start_in_cells [of "x XOR 2 ^ j" j] unfolding f(5) all_cells_def by blast
    show "(x XOR 2 ^ j, j) \<notin> N"
    proof
      assume "(x XOR 2 ^ j, j) \<in> N"
      then have "(?m, j) \<in> N" using that(1) by (simp add: min_def)
      moreover have "?m + 2 ^ Suc j \<le> past"
      proof -
        have "?m + 2 ^ Suc j - 1 \<in> cells (?m, Suc j)" using last_in_cells [of "(?m, Suc j)"] by simp
        then have "?m + 2 ^ Suc j - 1 \<in> cells (b, r)" using m by blast
        then have "?m + 2 ^ Suc j - 1 < b + 2 ^ r" unfolding in_cells by (rule conjunct2)
        then show ?thesis using b(3) by simp
      qed
      ultimately show False using large f(6) that(2) unfolding fits_def by auto
    qed
  qed
  show ?thesis
    unfolding coalesced_def new(1)
  proof (intro ballI, clarify)
    fix x j assume x: "(x, j) \<in> free_set K \<union> N" "j < 12" "(x XOR 2 ^ j, j) \<in> free_set K \<union> N"
    then show False
    proof (elim UnE)
      assume "(x, j) \<in> free_set K" "(x XOR 2 ^ j, j) \<in> free_set K"
      then show False using old x(2) unfolding coalesced_def by blast
    next
      assume "(x, j) \<in> free_set K" "(x XOR 2 ^ j, j) \<in> N"
      then show False using N(2) [of "x XOR 2 ^ j" j] x(2) by (simp add: xor.assoc)
    qed (use N x(2) in blast)+
  qed
qed

text \<open>Marking a block as allocated in the map.\<close>

lemma heap_allocate:
  assumes ok: "heap_ok s L A M" and c: "aligned (poolBlocks s) (b, k)" "cells (b, k) \<subseteq> M"
    "cells (b, k) \<inter> all_cells (free_set L \<union> A) = {}"
    and t: "freeList t = freeList s" "mem t = mem s" "poolBlocks t = poolBlocks s" "bmap t = BITSET (bmap s) (b + 2 ^ k - 1)"
  shows "heap_ok t L (insert (b, k) A) M"
proof -
  have last: "b + 2 ^ k - 1 < poolBlocks s" using c(1) unfolding aligned_def by (simp add: less_le_trans [OF diff_less])
  then have in_map: "(b + 2 ^ k - 1) div 8 < length (bmap s)" using heap_okD(9) [OF ok] by simp
  have "map_ok t (insert (b, k) A) M"
    unfolding map_ok_def t(3,4) using heap_okD(9,10) [OF ok] in_map by auto
  moreover have "(b, k) \<notin> free_set L" using c(3) start_in_cells [of b k] unfolding all_cells_def by blast
  moreover have "disjoint_blocks (insert (b, k) (free_set L \<union> A))"
    using heap_okD(7) [OF ok] c(3) unfolding disjoint_blocks_def all_cells_def by blast
  moreover have "lists_ok t L" using ok t unfolding heap_ok_def lists_ok_def by simp
  ultimately show ?thesis
    using ok c t(3) unfolding heap_ok_def by simp
qed

lemma find_list_first:
  assumes "k \<le> r" and "r < 13" and "ls ! r \<noteq> OURNULL" and "\<And>j. k \<le> j \<Longrightarrow> j < r \<Longrightarrow> ls ! j = OURNULL"
  shows "find_list ls k = r"
  using assms
proof (induction "r - k" arbitrary: k)
  case 0
  then show ?case by (subst find_list.simps) simp
next
  case (Suc d)
  then have "ls ! k = OURNULL" "k < 13" by simp_all
  then show ?case using Suc.hyps(1) [of "Suc k"] Suc.hyps(2) Suc.prems by (subst find_list.simps) simp
qed

lemma find_list_none:
  assumes "\<And>j. k \<le> j \<Longrightarrow> j < 13 \<Longrightarrow> ls ! j = OURNULL"
  shows "13 \<le> find_list ls k"
  using assms
proof (induction "13 - k" arbitrary: k)
  case 0
  then show ?case by (subst find_list.simps) simp
next
  case (Suc d)
  then have "ls ! k = OURNULL" "k < 13" by simp_all
  then show ?case using Suc.hyps(1) [of "Suc k"] Suc.hyps(2) Suc.prems by (subst find_list.simps) simp
qed

text \<open>The outcome of a successful allocation of the block \<open>(b, k)\<close>.\<close>

definition allocated :: "pool \<Rightarrow> (nat \<Rightarrow> nat list) \<Rightarrow> block set \<Rightarrow> block \<Rightarrow> pool \<Rightarrow> (nat \<Rightarrow> nat list) \<Rightarrow> bool" where
  "allocated s L A c t L' \<longleftrightarrow> pool_ok t L' (insert c A) \<and> aligned (poolBlocks s) c \<and>
     cells c \<subseteq> all_cells (free_set L) \<and> all_cells (free_set L') = all_cells (free_set L) - cells c \<and>
     kept s t \<and> same_in (- all_cells (free_set L)) (mem s) (mem t) \<and> (coalesced L \<longrightarrow> coalesced L')"

lemma map_idem: "s\<lparr>bmap := v\<rparr>\<lparr>freeBytes := n\<rparr> = s\<lparr>freeBytes := n, bmap := v\<rparr>"
  by simp

lemma all_cells_disjoint:
  assumes "heap_ok s L A M"
  shows "all_cells (free_set L) \<inter> all_cells A = {}"
  using heap_okD(7,11) [OF assms] unfolding all_cells_def by blast

lemma heap_cells_unlinked:
  assumes "heap_ok s L A M" and "c \<in> free_set L"
  shows "all_cells (free_set L - {c} \<union> A) = all_cells (free_set L \<union> A) - cells c"
proof -
  have "cells d \<inter> cells c = {}" if "d \<in> free_set L - {c} \<union> A" for d
    by (rule heap_okD(7) [OF assms(1)]) (use that assms(2) heap_okD(11) [OF assms(1)] in blast)+
  then show ?thesis using assms(2) unfolding all_cells_def by blast
qed

lemma pool_ok_final:
  assumes "filled s L A M i past N t L'" and "all_cells (free_set L \<union> A) \<union> {i ..< past} = M"
    and "freeBytes s = 4096 * card (all_cells (free_set L))" and "i \<le> past"
    and "{i ..< past} \<inter> all_cells (free_set L) = {}"
  shows "pool_ok t L' A"
proof -
  have t: "heap_ok t L' A M" and L': "free_set L' = free_set L \<union> N" "all_cells N = {i ..< past}"
    and bytes: "freeBytes t mod 2 ^ 32 = (freeBytes s + 4096 * (past - i)) mod 2 ^ 32"
      "freeBytes s < 2 ^ 32 \<Longrightarrow> freeBytes t < 2 ^ 32"
    using assms(1) unfolding filled_def by auto
  have "all_cells (free_set L' \<union> A) = M" using assms(2) unfolding L'(1) by (auto simp: L'(2))
  moreover have "freeBytes t = 4096 * card (all_cells (free_set L'))"
  proof -
    have fin: "finite (all_cells (free_set L))" and n: "card (all_cells (free_set L')) \<le> poolBlocks t"
      using heap_cells_bound [OF t] unfolding L'(1) by (auto intro: finite_subset)
    then have "card (all_cells (free_set L')) = card (all_cells (free_set L)) + (past - i)"
      using assms(5) unfolding L'(1) by (simp add: L'(2) card_Un_disjoint Int_commute)
    moreover have "poolBlocks t < 2 ^ 20" by (rule heap_okD(1) [OF t])
    ultimately show ?thesis using bytes assms(3) n by simp
  qed
  ultimately show ?thesis using t unfolding pool_ok_def by simp
qed

lemma cells_mono: "k \<le> r \<Longrightarrow> cells (b, k) \<subseteq> cells (b, r)"
proof -
  assume "k \<le> r"
  then have "(2 :: nat) ^ k \<le> 2 ^ r" by simp
  then show ?thesis unfolding cells_def fst_conv snd_conv by (intro ivl_subset [THEN iffD2] disjI2) linarith
qed

text \<open>What the free list tells about its first block.\<close>

lemma heap_first:
  assumes ok: "heap_ok s L A M" and r: "r < numSizes" "L r = b # bs"
  shows "freeList s ! r = b" and "mem s (1024 * b) = MAGIC" and "mem s (1024 * b + 1) = OURNULL"
    and "mem s (1024 * b + 2) = head_or bs OURNULL"
    and "mem s (1024 * b + 4096 * 2 ^ r div 4 - 1) = r + LEN_OFFSET"
    and "head_or bs OURNULL = OURNULL \<longleftrightarrow> bs = []"
    and "bs \<noteq> [] \<Longrightarrow> head_or bs OURNULL < poolBlocks s \<and> block_ptr (head_or bs OURNULL) = 1024 * hd bs \<and>
      mem s (1024 * hd bs) = MAGIC \<and> mem s (1024 * hd bs + 1) = b"
proof -
  show "freeList s ! r = b" using heap_head(2) [OF ok r(1)] r(2) by simp
  have d: "node (mem s) r b OURNULL (head_or bs OURNULL)" "dll (mem s) r b bs OURNULL"
    using heap_okD(4) [OF ok r(1)] unfolding r(2) by simp_all
  then show "mem s (1024 * b) = MAGIC" "mem s (1024 * b + 1) = OURNULL" "mem s (1024 * b + 2) = head_or bs OURNULL"
    "mem s (1024 * b + 4096 * 2 ^ r div 4 - 1) = r + LEN_OFFSET"
    unfolding node_def block_end by simp_all
  have hd: "hd bs \<in> set (L r)" if "bs \<noteq> []" using that by (simp add: r(2))
  then show "head_or bs OURNULL = OURNULL \<longleftrightarrow> bs = []"
    using heap_list_bound(4) [OF ok r(1)] by (cases bs) auto
  show "head_or bs OURNULL < poolBlocks s \<and> block_ptr (head_or bs OURNULL) = 1024 * hd bs \<and>
      mem s (1024 * hd bs) = MAGIC \<and> mem s (1024 * hd bs + 1) = b" if bs: "bs \<noteq> []"
    using heap_list_bound(1,5) [OF ok r(1) hd [OF bs]] d(2) bs by (cases bs) (auto simp: block_ptr_small node_def)
qed

text \<open>The state in which \<open>BuddyMalloc\<close> calls \<open>toFree\<close>, and that it gets there.\<close>

definition take_first :: "nat \<Rightarrow> nat \<Rightarrow> nat \<Rightarrow> nat list \<Rightarrow> pool \<Rightarrow> pool" where
  "take_first r k b bs s =
    (set_list r (head_or bs OURNULL) (if bs \<noteq> [] then store (1024 * hd bs + 1) OURNULL s else s))
      \<lparr>bmap := BITSET (bmap s) (b + 2 ^ k - 1), freeBytes := freeBytes s - 4096 * 2 ^ r\<rparr>"

lemma free_bytes_enough:
  assumes pool: "pool_ok s L A" and "c \<in> free_set L"
  shows "4096 * 2 ^ snd c \<le> freeBytes s" and "freeBytes s < 4294967296"
proof -
  have ok: "heap_ok s L A (all_cells (free_set L \<union> A))" and bytes: "freeBytes s = 4096 * card (all_cells (free_set L))"
    using pool unfolding pool_ok_def by auto
  have "card (cells c) \<le> card (all_cells (free_set L))"
    by (rule card_mono [OF heap_cells_bound(2) [OF ok]]) (use assms(2) in \<open>auto simp: all_cells_def\<close>)
  then show "4096 * 2 ^ snd c \<le> freeBytes s" using bytes cells_nonempty(4) [of c] by simp
  show "freeBytes s < 4294967296" using bytes heap_cells_bound(3) [OF ok] heap_okD(1) [OF ok] by simp
qed

lemma BuddyMalloc_run:
  assumes pool: "pool_ok s L A" and r: "k \<le> r" "r < 13" "L r = b # bs" "\<And>j. k \<le> j \<Longrightarrow> j < r \<Longrightarrow> L j = []"
  shows "BuddyMalloc k True s =
    do { t \<leftarrow> toFree (b + 2 ^ k) (b + 2 ^ r) False (take_first r k b bs s);
         Some (kIOReturnSuccess, Some (dword_addr t (1024 * b)), t) }"
proof -
  have ok: "heap_ok s L A (all_cells (free_set L \<union> A))" using pool unfolding pool_ok_def by blast
  note enough = free_bytes_enough [OF pool free_setI [OF r(2)], of b]
  note first = heap_first [where L = L, OF ok r(2,3)]
  note bb = heap_list_bound [OF ok r(2), of b]
  have b: "b < poolBlocks s" "b + 2 ^ r < 1048576" "b < 1048576" "b \<noteq> OURNULL" "poolBlocks s < 1048576"
    using bb r(3) heap_okD(1) [OF ok] by simp_all
  have kr: "(2 :: nat) ^ k \<le> 2 ^ r" using r(1) by simp
  have e: "4096 * 2 ^ r \<le> freeBytes s" "freeBytes s < 4294967296"
    using enough r(3) by simp_all
  have "4096 * 2 ^ k \<le> freeBytes s" using e kr by linarith
  note free = this e
  have find: "find_list (freeList s) k = r"
    using first(1) b(4) heap_head(1) [OF ok] r by (intro find_list_first) simp_all
  have small: "k < 32" "r < 32" "k < 13" using r by simp_all
  have sums: "b + 2 ^ k < 4294967296" "b + 2 ^ r < 4294967296" "r + LEN_OFFSET < 4294967296" "1 \<le> b + 2 ^ k"
  proof -
    show "b + 2 ^ k < 4294967296" using b(2) kr by linarith
    show "1 \<le> b + 2 ^ k" using zero_less_power [of "2 :: nat" k] by linarith
  qed (use b(2) r(2) in simp_all)
  have num: "shl32 1 (k + 12) = 4096 * 2 ^ k" "shl32 1 (r + 12) = 4096 * 2 ^ r" "block_ptr b = 1024 * b"
    "add32 r LEN_OFFSET = r + LEN_OFFSET" "add32 b (shl32 1 k) = b + 2 ^ k" "add32 b (shl32 1 r) = b + 2 ^ r"
    "sub32 (b + 2 ^ k) 1 = b + 2 ^ k - 1" "sub32 (freeBytes s) (4096 * 2 ^ r) = freeBytes s - 4096 * 2 ^ r"
    using shl32_bytes [OF small(3)] shl32_bytes [OF r(2)] block_ptr_small [of b] b(3)
      shl32_one [OF small(1)] shl32_one [OF small(2)] add32_small [OF sums(3)] add32_small [OF sums(1)]
      add32_small [OF sums(2)] sub32_small [OF sums(4,1)] sub32_small [OF free(2,3)]
    by simp_all
  define n where "n = head_or bs OURNULL"
  have cond: "\<not> freeBytes s < 4096 * 2 ^ k" "\<not> r \<ge> 13" "\<not> b \<ge> poolBlocks s"
    "\<not> (n \<noteq> OURNULL \<and> n \<ge> poolBlocks s)"
    "\<not> (n \<noteq> OURNULL \<and> (mem s (block_ptr n) \<noteq> MAGIC \<or> mem s (block_ptr n + 1) \<noteq> b))"
    using free(1) r(2) b(1) first(6,7) unfolding n_def by auto
  have s2: "take_first r k b bs s = (let s = (if n \<noteq> OURNULL then store (block_ptr n + 1) OURNULL s else s);
      s = set_list r n s; s = s\<lparr>bmap := BITSET (bmap s) (b + 2 ^ k - 1)\<rparr>
    in s\<lparr>freeBytes := sub32 (freeBytes s) (4096 * 2 ^ r)\<rparr>)"
    unfolding take_first_def Let_def n_def using num(8) first(6,7) by (simp add: store_def set_list_def)
  have fields: "mem s (1024 * b) = MAGIC" "mem s (1024 * b + 1) = OURNULL" "mem s (1024 * b + 2) = n"
    "mem s (1024 * b + 4096 * 2 ^ r div 4 - 1) = r + LEN_OFFSET"
    using first(2-5) unfolding n_def by simp_all
  show ?thesis
    unfolding BuddyMalloc_def find Let_def first(1) num s2 using cond fields
    by (cases "n = OURNULL") (simp_all add: add.commute)
qed

text \<open>What taking the first block off its list leaves.\<close>

lemma unlinked_cells:
  assumes ok: "heap_ok s L A M" and free: "c \<in> free_set L" and K: "free_set K = free_set L - {c}"
  shows "all_cells (free_set K \<union> A) = all_cells (free_set L \<union> A) - cells c"
    and "all_cells (free_set K) = all_cells (free_set L) - cells c"
    and "finite (all_cells (free_set K))"
    and "card (all_cells (free_set K)) = card (all_cells (free_set L)) - 2 ^ snd c"
    and "cells c \<subseteq> all_cells (free_set L)"
proof -
  show "all_cells (free_set K \<union> A) = all_cells (free_set L \<union> A) - cells c"
    unfolding K by (rule heap_cells_unlinked [OF ok free])
  have "cells d \<inter> cells c = {}" if "d \<in> free_set L - {c}" for d
    by (rule heap_okD(7) [OF ok]) (use that free in blast)+
  then show eq: "all_cells (free_set K) = all_cells (free_set L) - cells c"
    unfolding K all_cells_def using free by blast
  show sub: "cells c \<subseteq> all_cells (free_set L)" using free unfolding all_cells_def by blast
  show "finite (all_cells (free_set K))" unfolding eq using heap_cells_bound(2) [OF ok] by simp
  show "card (all_cells (free_set K)) = card (all_cells (free_set L)) - 2 ^ snd c"
    unfolding eq using card_Diff_subset [OF cells_nonempty(3) sub] cells_nonempty(4) [of c] by simp
qed

lemma take_first_heap:
  assumes ok: "heap_ok s L A M" and r: "k \<le> r" "r < 13" "L r = b # bs"
  shows "heap_ok (take_first r k b bs s) (L(r := bs)) (insert (b, k) A) M"
    and "same_in (- all_cells (free_set L)) (mem s) (mem (take_first r k b bs s))"
    and "kept s (take_first r k b bs s)" and "free_set (L(r := bs)) = free_set L - {(b, r)}"
    and "aligned (poolBlocks s) (b, k)"
proof -
  let ?t = "take_first r k b bs s" and ?L = "L(r := bs)"
  define s1 where "s1 = set_list r (head_or bs OURNULL) (if bs \<noteq> [] then store (1024 * hd bs + 1) OURNULL s else s)"
  have free: "(b, r) \<in> free_set L" using r by (auto intro: free_setI)
  show fs: "free_set ?L = free_set L - {(b, r)}"
    using free_set_unlink [of r L "[]" b bs, OF r(2) _ heap_okD(5) [OF ok r(2)]] r(3) by simp
  have hd_in: "bs \<noteq> [] \<Longrightarrow> hd bs \<in> list_cells r (L r)"
    by (rule start_in_list_cells) (simp add: r(3))
  have mem1: "mem s1 = (if bs \<noteq> [] then (mem s)(1024 * hd bs + 1 := OURNULL) else mem s)"
    by (simp add: s1_def store_def set_list_def)
  have same1: "same_in (- list_cells r (L r)) (mem s) (mem s1)"
    unfolding mem1 using hd_in node_dwords(2) [of "hd bs"] by simp
  have s1: "freeList s1 = (freeList s)[r := head_or ([] @ bs) OURNULL]" "bmap s1 = bmap s" "poolBlocks s1 = poolBlocks s"
    unfolding s1_def store_def set_list_def by simp_all
  have "heap_ok s1 (L(r := [] @ bs)) A M"
    by (rule heap_unlink [OF ok r(2) _ _ same1 s1]) (use r(3) mem1 in simp_all)
  then have ok1: "heap_ok s1 ?L A M" by simp
  have kr: "(2 :: nat) ^ k \<le> 2 ^ r" "(2 :: nat) ^ k dvd 2 ^ r" using r(1) by (simp_all add: le_imp_power_dvd)
  have bb: "b + 2 ^ r \<le> poolBlocks s" "2 ^ r dvd b" using heap_list_bound [OF ok r(2), of b] r(3) by simp_all
  show al: "aligned (poolBlocks s) (b, k)"
  proof -
    have "b + 2 ^ k \<le> poolBlocks s" using bb(1) kr(1) by linarith
    then show ?thesis using bb kr(2) r unfolding aligned_def by (auto intro: dvd_trans)
  qed
  have bkr: "cells (b, k) \<subseteq> cells (b, r)" using r(1) by (rule cells_mono)
  show "heap_ok ?t ?L (insert (b, k) A) M"
  proof (rule heap_allocate [OF ok1])
    show "aligned (poolBlocks s1) (b, k)" unfolding s1(3) by (rule al)
    show "cells (b, k) \<subseteq> M" using bkr heap_okD(8) [OF ok, of "(b, r)"] free by blast
    show "cells (b, k) \<inter> all_cells (free_set ?L \<union> A) = {}"
      unfolding unlinked_cells(1) [OF ok free fs] using bkr by blast
  qed (simp_all add: take_first_def s1_def store_def set_list_def)
  have "mem ?t = mem s1" by (simp add: take_first_def s1_def store_def set_list_def)
  then show "same_in (- all_cells (free_set L)) (mem s) (mem ?t)"
    using same_in_mono [OF same1] list_cells_subset [OF r(2), of L] by (metis Compl_anti_mono)
  show "kept s ?t" by (simp add: take_first_def kept_def store_def set_list_def)
qed

text \<open>Splitting: the free remainder \<open>{i ..< past}\<close> of the block \<open>(b, r)\<close>, whose beginning is taken.\<close>

lemma BuddyMalloc_ok:
  assumes pool: "pool_ok s L A" and r: "k \<le> r" "r < 13" "L r = b # bs" "\<And>j. k \<le> j \<Longrightarrow> j < r \<Longrightarrow> L j = []"
  shows "\<exists>t L'. BuddyMalloc k True s = Some (kIOReturnSuccess, Some (poolStart s + 4096 * b), t) \<and>
    allocated s L A (b, k) t L'"
proof -
  let ?M = "all_cells (free_set L \<union> A)" and ?K = "L(r := bs)" and ?s = "take_first r k b bs s"
  have ok: "heap_ok s L A ?M" and bytes: "freeBytes s = 4096 * card (all_cells (free_set L))"
    using pool unfolding pool_ok_def by auto
  note taken = take_first_heap [where L = L, OF ok r(1-3)]
  have free: "(b, r) \<in> free_set L" using r by (auto intro: free_setI)
  note cut = unlinked_cells [OF ok free taken(4)]
  have kr: "(2 :: nat) ^ k \<le> 2 ^ r" using r(1) by simp
  have bb: "b + 2 ^ r \<le> poolBlocks s" "2 ^ r dvd b" using heap_list_bound [OF ok r(2), of b] r(3) by simp_all
  have bkr: "cells (b, k) \<subseteq> cells (b, r)" using r(1) by (rule cells_mono)
  have range: "{b + 2 ^ k ..< b + 2 ^ r} = cells (b, r) - cells (b, k)" by (auto simp: in_cells)
  have Un: "free_set ?K \<union> insert (b, k) A = insert (b, k) (free_set ?K \<union> A)" by simp
  have le: "b + 2 ^ k \<le> b + 2 ^ r" using kr by simp
  obtain N t L' where t: "toFree (b + 2 ^ k) (b + 2 ^ r) False ?s = Some t"
    and filled: "filled ?s ?K (insert (b, k) A) ?M (b + 2 ^ k) (b + 2 ^ r) N t L'"
  proof (rule toFree_ok [OF taken(1) _ le])
    show "b + 2 ^ r \<le> poolBlocks ?s" using bb(1) taken(3) by (simp add: kept_def)
    show "{b + 2 ^ k ..< b + 2 ^ r} \<subseteq> ?M" unfolding range using cut(5) by auto
    show "{b + 2 ^ k ..< b + 2 ^ r} \<inter> all_cells (free_set ?K \<union> insert (b, k) A) = {}"
      unfolding range Un all_cells_simps(2) cut(1) by blast
  qed
  have L': "free_set L' = free_set ?K \<union> N" "all_cells N = {b + 2 ^ k ..< b + 2 ^ r}" "heap_ok t L' (insert (b, k) A) ?M"
    and large: "\<forall>(x, j) \<in> N. j = 12 \<or> \<not> fits (b + 2 ^ r) x (Suc j)" and kept: "kept s t"
    and same: "same_in (- (all_cells (free_set ?K) \<union> {b + 2 ^ k ..< b + 2 ^ r})) (mem ?s) (mem t)"
    using filled kept_trans [OF taken(3)] unfolding filled_def by blast+
  have "pool_ok t L' (insert (b, k) A)"
  proof (rule pool_ok_final [OF filled _ _ le])
    show "all_cells (free_set ?K \<union> insert (b, k) A) \<union> {b + 2 ^ k ..< b + 2 ^ r} = ?M"
      unfolding range Un all_cells_simps(2) cut(1) using cut(5) bkr by auto
    show "freeBytes ?s = 4096 * card (all_cells (free_set ?K))"
      unfolding cut(4) by (simp add: take_first_def bytes diff_mult_distrib2)
    show "{b + 2 ^ k ..< b + 2 ^ r} \<inter> all_cells (free_set ?K) = {}" unfolding range cut(2) by blast
  qed
  moreover have "all_cells (free_set L') = all_cells (free_set L) - cells (b, k)"
    unfolding L'(1) all_cells_simps L'(2) range cut(2) using cut(5) bkr by blast
  moreover have "same_in (- all_cells (free_set L)) (mem s) (mem t)"
    by (rule same_in_trans [OF taken(2) same_in_mono [OF same]]) (use cut(2,5) range in auto)
  moreover have "coalesced L'" if "coalesced L"
  proof (rule coalesced_filled [where b = b and r = r])
    show "coalesced ?K" using that unfolding coalesced_def taken(4) by blast
    show "cells (b, r) \<inter> all_cells (free_set ?K) = {}" unfolding cut(2) by blast
    show "\<forall>(x, j) \<in> N. 2 ^ j dvd x" using heap_okD(6) [OF L'(3)] unfolding L'(1) aligned_def by auto
  qed (use L' large bb(2) in auto)
  moreover have "cells (b, k) \<subseteq> all_cells (free_set L)" using bkr cut(5) by blast
  ultimately have "allocated s L A (b, k) t L'"
    using kept taken(5) unfolding allocated_def by blast
  moreover have "BuddyMalloc k True s = Some (kIOReturnSuccess, Some (poolStart s + 4096 * b), t)"
    using BuddyMalloc_run [OF pool r] t kept by (simp add: dword_addr_def kept_def)
  ultimately show ?thesis by blast
qed

lemma BuddyMalloc_fails:
  assumes pool: "pool_ok s L A" and none: "\<And>j. k \<le> j \<Longrightarrow> j < 13 \<Longrightarrow> L j = []"
  shows "BuddyMalloc k True s = Some (kIOReturnNoMemory, None, s)"
proof -
  have "heap_ok s L A (all_cells (free_set L \<union> A))" using pool unfolding pool_ok_def by blast
  then have "13 \<le> find_list (freeList s) k"
    using heap_head(1) none by (intro find_list_none) blast
  then show ?thesis by (simp add: BuddyMalloc_def Let_def)
qed

end
