(* ===== verification/BuddyFree.thy ===== *)
theory BuddyFree
  imports BuddyProofs
begin

text \<open>
  Correctness of the VRAM allocator, continued: freeing with the merging of buddies, the size of an
  allocated block, handing memory over to the pool, reallocation and the consistency check.
\<close>

section \<open>Freeing\<close>

text \<open>Taking a block off the list it is on, wherever it stands there.\<close>

lemma heap_middle:
  assumes ok: "heap_ok s L A M" and k: "k < numSizes" and L: "L k = as @ c # bs"
  shows "mem s (1024 * c) = MAGIC" and "mem s (1024 * c + 1) = last_or OURNULL as"
    and "mem s (1024 * c + 2) = head_or bs OURNULL" and "mem s (1024 * (c + 2 ^ k) - 1) = k + LEN_OFFSET"
    and "as \<noteq> [] \<Longrightarrow> last as < poolBlocks s \<and> last as \<noteq> OURNULL \<and> block_ptr (last as) = 1024 * last as \<and>
      mem s (1024 * last as) = MAGIC \<and> mem s (1024 * last as + 2) = c"
    and "bs \<noteq> [] \<Longrightarrow> hd bs < poolBlocks s \<and> hd bs \<noteq> OURNULL \<and> block_ptr (hd bs) = 1024 * hd bs \<and>
      mem s (1024 * hd bs) = MAGIC \<and> mem s (1024 * hd bs + 1) = c"
    and "as \<noteq> [] \<Longrightarrow> freeList s ! k = hd as" and "as = [] \<Longrightarrow> freeList s ! k = c"
    and "block_ptr c = 1024 * c" and "freeList s ! k \<noteq> OURNULL"
proof -
  have d: "dll (mem s) k OURNULL as c" "node (mem s) k c (last_or OURNULL as) (head_or bs OURNULL)" "dll (mem s) k c bs OURNULL"
    using heap_okD(4) [OF ok k] unfolding L by simp_all
  then show "mem s (1024 * c) = MAGIC" "mem s (1024 * c + 1) = last_or OURNULL as"
    "mem s (1024 * c + 2) = head_or bs OURNULL" "mem s (1024 * (c + 2 ^ k) - 1) = k + LEN_OFFSET"
    unfolding node_def by simp_all
  note bound = heap_list_bound [OF ok k, unfolded L]
  show "block_ptr c = 1024 * c" using bound(5) [of c] by (simp add: block_ptr_small)
  show "last as < poolBlocks s \<and> last as \<noteq> OURNULL \<and> block_ptr (last as) = 1024 * last as \<and>
      mem s (1024 * last as) = MAGIC \<and> mem s (1024 * last as + 2) = c" if "as \<noteq> []"
    using bound(1,4,5) [of "last as"] d(1) that
    by (cases as rule: rev_cases) (simp_all add: block_ptr_small node_def)
  show "hd bs < poolBlocks s \<and> hd bs \<noteq> OURNULL \<and> block_ptr (hd bs) = 1024 * hd bs \<and>
      mem s (1024 * hd bs) = MAGIC \<and> mem s (1024 * hd bs + 1) = c" if "bs \<noteq> []"
    using bound(1,4,5) [of "hd bs"] d(3) that by (cases bs) (simp_all add: block_ptr_small node_def)
  show "as \<noteq> [] \<Longrightarrow> freeList s ! k = hd as" "as = [] \<Longrightarrow> freeList s ! k = c"
    using heap_head(2) [OF ok k] unfolding L by simp_all
  show "freeList s ! k \<noteq> OURNULL" using heap_head(1) [OF ok k] unfolding L by simp
qed

text \<open>The state after the unlinking: the neighbours joined, the trailer and the header of the block cleared.\<close>

definition unlinked :: "nat \<Rightarrow> nat list \<Rightarrow> nat \<Rightarrow> nat list \<Rightarrow> pool \<Rightarrow> pool" where
  "unlinked k as c bs s =
    (let s = store (1024 * (c + 2 ^ k) - 1) 0 s;
         s = (if bs \<noteq> [] then store (1024 * hd bs + 1) (last_or OURNULL as) s else s);
         s = (if as = [] then set_list k (head_or bs OURNULL) s else store (1024 * last as + 2) (head_or bs OURNULL) s)
     in bzero_dwords (1024 * c) 3 s)"

lemma unlinked_fields:
  "bmap (unlinked k as c bs s) = bmap s" "poolBlocks (unlinked k as c bs s) = poolBlocks s"
  "freeBytes (unlinked k as c bs s) = freeBytes s" "kept s (unlinked k as c bs s)"
  "freeList (unlinked k as c bs s) = (if as = [] then (freeList s)[k := head_or bs OURNULL] else freeList s)"
  by (simp_all add: unlinked_def Let_def store_def set_list_def bzero_dwords_def kept_def)

lemma unlinked_mem:
  "mem (unlinked k as c bs s) i =
    (if 1024 * c \<le> i \<and> i < 1024 * c + 3 then 0
     else if as \<noteq> [] \<and> i = 1024 * last as + 2 then head_or bs OURNULL
     else if bs \<noteq> [] \<and> i = 1024 * hd bs + 1 then last_or OURNULL as
     else if i = 1024 * (c + 2 ^ k) - 1 then 0 else mem s i)"
  by (cases "as = []"; cases "bs = []") (simp_all add: unlinked_def Let_def store_def set_list_def bzero_dwords_def)

lemma own_index:
  assumes "i = 1024 * (c + 2 ^ k) - 1 \<or> (1024 * c \<le> i \<and> i < 1024 * c + 3)"
  shows "i div 1024 \<in> cells (c, k)"
  using assms
proof
  assume "i = 1024 * (c + 2 ^ k) - 1"
  then show ?thesis using node_dwords(4) [of c k] last_in_cells [of "(c, k)"] by simp
next
  assume "1024 * c \<le> i \<and> i < 1024 * c + 3"
  then have "i div 1024 = c" by linarith
  then show ?thesis by (simp add: start_in_cells)
qed

lemma unlinked_heap:
  assumes ok: "heap_ok s L A M" and k: "k < numSizes" and L: "L k = as @ c # bs"
  shows "heap_ok (unlinked k as c bs s) (L(k := as @ bs)) A M"
    and "same_in (- all_cells (free_set L)) (mem s) (mem (unlinked k as c bs s))"
proof -
  let ?t = "unlinked k as c bs s"
  have sep: "list_cells k as \<inter> list_cells k bs = {}" "cells (c, k) \<inter> list_cells k (as @ bs) = {}"
    using heap_separate [OF ok k] unfolding L by auto
  have ends: "as \<noteq> [] \<Longrightarrow> (1024 * last as + 2) div 1024 \<in> list_cells k as"
    "bs \<noteq> [] \<Longrightarrow> (1024 * hd bs + 1) div 1024 \<in> list_cells k bs"
    using start_in_list_cells [of "last as" as k] start_in_list_cells [of "hd bs" bs k]
      node_dwords(3) [of "last as"] node_dwords(2) [of "hd bs"] by (metis last_in_set, metis hd_in_set)
  have upd: "mem ?t i = (if bs \<noteq> [] \<and> i = 1024 * hd bs + 1 then last_or OURNULL as
      else if as \<noteq> [] \<and> i = 1024 * last as + 2 then head_or bs OURNULL else mem s i)"
    if "i div 1024 \<in> list_cells k (as @ bs)" for i
  proof -
    have "\<not> (1024 * c \<le> i \<and> i < 1024 * c + 3)" "i \<noteq> 1024 * (c + 2 ^ k) - 1"
      using own_index [of i c k] that sep(2) by blast+
    moreover have "\<not> ((bs \<noteq> [] \<and> i = 1024 * hd bs + 1) \<and> (as \<noteq> [] \<and> i = 1024 * last as + 2))"
      using ends sep(1) by auto
    ultimately show ?thesis unfolding unlinked_mem by auto
  qed
  have "mem ?t i = mem s i" if "i div 1024 \<notin> list_cells k (L k)" for i
    using that own_index [of i c k] ends unfolding L unlinked_mem list_cells_simps by auto
  then have same: "same_in (- list_cells k (L k)) (mem s) (mem ?t)" by (simp add: same_in_def)
  have "freeList s ! k = head_or (as @ bs) OURNULL" if "as \<noteq> []"
    using heap_middle(7) [where L = L, OF ok k L that] that by (simp add: head_in)
  then have "freeList ?t = (freeList s)[k := head_or (as @ bs) OURNULL]"
    unfolding unlinked_fields by (cases "as = []") (simp_all, metis list_update_id)
  from heap_unlink [where L = L, OF ok k L upd same this unlinked_fields(1,2)]
  show "heap_ok ?t (L(k := as @ bs)) A M" .
  show "same_in (- all_cells (free_set L)) (mem s) (mem ?t)"
    by (rule same_in_mono [OF same]) (use list_cells_subset [OF k, of L] in blast)
qed

text \<open>
  When the bit map says that the last cell of the buddy is not taken, a free block ends there, no larger
  than the buddy, and its trailer tells its size.
\<close>

lemma end_in_smaller:
  assumes "2 ^ j dvd x" and "2 ^ k dvd a" and "j \<le> k" and "a + 2 ^ k - 1 \<in> cells (x, j)"
  shows "x + 2 ^ j = a + (2 :: nat) ^ k"
proof -
  have "cells (x, j) \<subseteq> cells (a, k)"
    using aligned_nested [OF assms(1-4)] last_in_cells [of "(a, k)"] by simp
  then have "x + 2 ^ j - 1 \<in> cells (a, k)" using last_in_cells [of "(x, j)"] by auto
  moreover have "0 < (2 :: nat) ^ j" "0 < (2 :: nat) ^ k" by simp_all
  ultimately show ?thesis using assms(4) unfolding in_cells by linarith
qed

lemma block_at_buddy_end:
  assumes b: "2 ^ k dvd b" and x: "2 ^ j dvd x" and apart: "cells (x, j) \<inter> cells (b, k) = {}"
    and e: "(b XOR 2 ^ k) + 2 ^ k - 1 \<in> cells (x, j)"
  shows "j \<le> k \<and> x + 2 ^ j = (b XOR 2 ^ k) + (2 :: nat) ^ k"
proof -
  note f = buddy_facts [OF b]
  have "j \<le> k"
  proof (rule ccontr)
    assume "\<not> j \<le> k"
    then have "Suc k \<le> j" by simp
    moreover have "(b XOR 2 ^ k) + 2 ^ k - 1 \<in> cells (min b (b XOR 2 ^ k), Suc k)"
      unfolding f(5) using last_in_cells [of "(b XOR 2 ^ k, k)"] by simp
    ultimately have "cells (min b (b XOR 2 ^ k), Suc k) \<subseteq> cells (x, j)"
      using aligned_nested [OF f(6) x _ _ e] by blast
    then show False using apart start_in_cells [of b k] unfolding f(5) by blast
  qed
  then show ?thesis using end_in_smaller [OF x f(1) _ e] by blast
qed

text \<open>A block on its way from the client to a free list: neither free nor allocated.\<close>

definition loose :: "pool \<Rightarrow> (nat \<Rightarrow> nat list) \<Rightarrow> block set \<Rightarrow> nat set \<Rightarrow> block \<Rightarrow> bool" where
  "loose s L A M c \<longleftrightarrow> heap_ok s L A M \<and> aligned (poolBlocks s) c \<and> cells c \<inter> all_cells (free_set L \<union> A) = {} \<and>
     M = all_cells (free_set L \<union> A) \<union> cells c"

lemma buddy_end_free:
  assumes l: "loose s L A M (b, k)" and past: "(b XOR 2 ^ k) + 2 ^ k \<le> poolBlocks s"
    and clear: "\<not> BITTEST (bmap s) ((b XOR 2 ^ k) + 2 ^ k - 1)"
  obtains j x where "j \<le> k" and "(x, j) \<in> free_set L" and "x + 2 ^ j = (b XOR 2 ^ k) + 2 ^ k"
    and "mem s (1024 * ((b XOR 2 ^ k) + 2 ^ k) - 1) = j + LEN_OFFSET"
proof -
  let ?a = "b XOR 2 ^ k" and ?e = "(b XOR 2 ^ k) + 2 ^ k - 1"
  have ok: "heap_ok s L A M" and b: "2 ^ k dvd b" and apart: "cells (b, k) \<inter> all_cells (free_set L \<union> A) = {}"
    and M: "M = all_cells (free_set L \<union> A) \<union> cells (b, k)"
    using l unfolding loose_def aligned_def fst_conv snd_conv by blast+
  have "?e < poolBlocks s" using past zero_less_power [of "2 :: nat" k] by linarith
  then have e: "?e \<in> M" "\<And>c. c \<in> A \<Longrightarrow> ?e \<noteq> fst c + 2 ^ snd c - 1"
    using heap_okD(10) [OF ok] clear by blast+
  have "?e \<notin> cells (b, k)" using buddy_facts(4) [OF b] last_in_cells [of "(?a, k)"] by auto
  then obtain x j where c: "(x, j) \<in> free_set L \<union> A" "?e \<in> cells (x, j)"
    using e(1) unfolding M all_cells_def by auto
  have al: "2 ^ j dvd x" using heap_okD(6) [OF ok c(1)] by (simp add: aligned_def)
  have "cells (x, j) \<inter> cells (b, k) = {}" using apart c(1) unfolding all_cells_def by blast
  from block_at_buddy_end [OF b al this c(2)] have j: "j \<le> k" "x + 2 ^ j = ?a + 2 ^ k" by simp_all
  have free: "(x, j) \<in> free_set L" using c(1) e(2) [of "(x, j)"] j(2) by auto
  then have k: "j < numSizes" "x \<in> set (L j)" by (auto simp: free_set_def)
  obtain as bs where L: "L j = as @ x # bs" using split_list [OF k(2)] by blast
  show ?thesis
    by (rule that [OF j(1) free j(2)]) (use heap_middle(4) [where L = L, OF ok k(1) L] j(2) in simp)
qed

text \<open>The code that takes the buddy off its list.\<close>

lemma merge_unlink:
  assumes ok: "heap_ok s L A M" and k: "k < numSizes" and L: "L k = as @ a # bs"
  defines "s' \<equiv> store (1024 * (a + 2 ^ k) - 1) 0 s"
  shows "mem s' (1024 * a) = MAGIC" and "freeList s' ! k \<noteq> OURNULL" and "mem s' (1024 * a + 1) = last_or OURNULL as"
    and "\<exists>u. (if last_or OURNULL as = OURNULL then unlink_first k a s' else unlink_inner (last_or OURNULL as) a s') = Inr u \<and>
      bzero_dwords (1024 * a) 3 u = unlinked k as a bs s"
proof -
  note mid = heap_middle [where L = L, OF ok k L]
  have sep: "a \<notin> list_cells k (as @ bs)" "cells (a, k) \<inter> list_cells k (as @ bs) = {}"
    using heap_separate [OF ok k] start_in_cells [of a k] unfolding L by auto
  have e: "a + 2 ^ k - 1 \<in> cells (a, k)" using last_in_cells [of "(a, k)"] by simp
  have same: "mem s' i = mem s i" if "i div 1024 \<in> list_cells k (as @ bs)" for i
    using that sep(2) e node_dwords(4) [of a k] unfolding s'_def store_def by auto
  have own: "mem s' (1024 * a) = mem s (1024 * a)" "mem s' (1024 * a + 1) = mem s (1024 * a + 1)"
    "mem s' (1024 * a + 2) = mem s (1024 * a + 2)"
    using node_index_neq [of a k] unfolding s'_def store_def by simp_all
  show "mem s' (1024 * a) = MAGIC" using own mid(1) by simp
  show "freeList s' ! k \<noteq> OURNULL" using mid(10) by (simp add: s'_def store_def)
  show "mem s' (1024 * a + 1) = last_or OURNULL as" using own mid(2) by simp
  have bs: "hd bs < poolBlocks s' \<and> hd bs \<noteq> OURNULL \<and> block_ptr (hd bs) = 1024 * hd bs \<and>
      mem s' (1024 * hd bs) = MAGIC \<and> mem s' (1024 * hd bs + 1) = a" if "bs \<noteq> []"
  proof -
    have "hd bs \<in> list_cells k (as @ bs)" using start_in_list_cells [of "hd bs" bs k] that by simp
    then show ?thesis
      using mid(6) [OF that] same [of "1024 * hd bs"] same [of "1024 * hd bs + 1"] node_dwords(1,2) [of "hd bs"]
      by (simp add: s'_def store_def)
  qed
  have as: "last as < poolBlocks s' \<and> last as \<noteq> OURNULL \<and> block_ptr (last as) = 1024 * last as \<and>
      mem s' (1024 * last as) = MAGIC \<and> mem s' (1024 * last as + 2) = a" if "as \<noteq> []"
  proof -
    have "last as \<in> list_cells k (as @ bs)" using start_in_list_cells [of "last as" as k] that by simp
    then show ?thesis
      using mid(5) [OF that] same [of "1024 * last as"] same [of "1024 * last as + 2"] node_dwords(1,3) [of "last as"]
      by (simp add: s'_def store_def)
  qed
  have n: "mem s' (1024 * a + 2) = head_or bs OURNULL" using own mid(3) by simp
  have unl: "unlinked k as a bs s = bzero_dwords (1024 * a) 3
      (let t = (if bs \<noteq> [] then store (1024 * hd bs + 1) (last_or OURNULL as) s' else s')
       in if as = [] then set_list k (head_or bs OURNULL) t else store (1024 * last as + 2) (head_or bs OURNULL) t)"
    unfolding unlinked_def Let_def s'_def ..
  show "\<exists>u. (if last_or OURNULL as = OURNULL then unlink_first k a s' else unlink_inner (last_or OURNULL as) a s') = Inr u \<and>
      bzero_dwords (1024 * a) 3 u = unlinked k as a bs s"
  proof (cases "as = []")
    case True
    then show ?thesis
      using n bs mid(9) unfolding unl by (cases "bs = []") (simp_all add: unlink_first_def Let_def head_in)
  next
    case False
    then show ?thesis
      using n bs as mid(9) unfolding unl
      by (cases "bs = []") (simp_all add: unlink_inner_def Let_def head_in last_or_def)
  qed
qed

text \<open>The outcome of merging.\<close>

definition merged :: "pool \<Rightarrow> (nat \<Rightarrow> nat list) \<Rightarrow> block set \<Rightarrow> nat set \<Rightarrow> block \<Rightarrow>
    block \<Rightarrow> pool \<Rightarrow> (nat \<Rightarrow> nat list) \<Rightarrow> bool" where
  "merged s L A M c d t L' \<longleftrightarrow> loose t L' A M d \<and> free_set L' \<subseteq> free_set L \<and>
     all_cells (free_set L') \<union> cells d = all_cells (free_set L) \<union> cells c \<and> (snd d < 12 \<longrightarrow> buddy_of d \<notin> free_set L') \<and>
     kept s t \<and> bmap t = bmap s \<and> freeBytes t = freeBytes s \<and>
     same_in (- (all_cells (free_set L) \<union> cells c)) (mem s) (mem t)"

lemma merged_none: "loose s L A M c \<Longrightarrow> (snd c < 12 \<Longrightarrow> buddy_of c \<notin> free_set L) \<Longrightarrow> merged s L A M c c s L"
  by (simp add: merged_def)

text \<open>One step: the buddy is free and joins, or the loop ends.\<close>

lemma loose_numbers:
  assumes l: "loose s L A M (b, k)" and k: "k < 12"
  shows "shl32 1 k = 2 ^ k" and "b XOR 2 ^ k < 2 ^ 20 + 2 ^ 12" and "add32 (b XOR 2 ^ k) (2 ^ k) = (b XOR 2 ^ k) + 2 ^ k"
    and "sub32 ((b XOR 2 ^ k) + 2 ^ k) 1 = (b XOR 2 ^ k) + 2 ^ k - 1"
proof -
  have b: "2 ^ k dvd b" "b + 2 ^ k \<le> poolBlocks s" "poolBlocks s < 2 ^ 20"
    using l heap_okD(1) unfolding loose_def aligned_def by auto
  show "shl32 1 k = 2 ^ k" using k by (intro shl32_one) simp
  have p: "(2 :: nat) ^ k \<le> 4096" "0 < (2 :: nat) ^ k" using pow_le_12 [of k] k by simp_all
  have "b XOR 2 ^ k \<le> b + 2 ^ k" unfolding buddy_number [OF b(1)] by auto
  then show "b XOR 2 ^ k < 2 ^ 20 + 2 ^ 12" using b p by simp
  then have small: "(b XOR 2 ^ k) + 2 ^ k < 4294967296" using p by simp
  then show "add32 (b XOR 2 ^ k) (2 ^ k) = (b XOR 2 ^ k) + 2 ^ k" by (rule add32_small)
  have "1 \<le> (b XOR 2 ^ k) + 2 ^ k" using p by linarith
  then show "sub32 ((b XOR 2 ^ k) + 2 ^ k) 1 = (b XOR 2 ^ k) + 2 ^ k - 1" using small by (rule sub32_small)
qed

lemma trailer_bits: "j < 13 \<Longrightarrow> sint (of_nat (sub32 (j + LEN_OFFSET) LEN_OFFSET) :: u32) = int j"
proof -
  assume j: "j < 13"
  then have "uint (of_nat j :: u32) = int j" by (simp add: uint_nat unat_of_nat)
  then have "sint (of_nat j :: u32) = int j" using j by (simp add: sint_uint signed_take_bit_int_eq_self)
  then show ?thesis using j by (simp add: sub32_small)
qed

lemma merge_stops:
  assumes l: "loose s L A M (b, k)" and k: "k < 13" and no: "k < 12 \<Longrightarrow> (b XOR 2 ^ k, k) \<notin> free_set L"
  shows "merge_buddies k b s = Inr (k, b, s)"
proof (cases "k < 12")
  case True
  note n = loose_numbers [OF l True]
  let ?a = "b XOR 2 ^ k"
  have P: "poolBlocks s < 2 ^ 20" using l heap_okD(1) unfolding loose_def by blast
  show ?thesis
  proof (cases "?a + 2 ^ k \<le> poolBlocks s \<and> \<not> BITTEST (bmap s) (?a + 2 ^ k - 1)")
    case c: True
    then obtain j x where j: "j \<le> k" "(x, j) \<in> free_set L" "x + 2 ^ j = ?a + 2 ^ k"
      "mem s (1024 * (?a + 2 ^ k) - 1) = j + LEN_OFFSET"
      using buddy_end_free [OF l] by metis
    have "j \<noteq> k" using no [OF True] j(2,3) by auto
    moreover have "block_ptr (?a + 2 ^ k) = 1024 * (?a + 2 ^ k)" using c P by (intro block_ptr_small) simp
    moreover have "j < 13" using j(1) k by simp
    ultimately show ?thesis
      using True c n trailer_bits [of j] by (subst merge_buddies.simps) (simp only: Let_def j(4), simp)
  qed (use True n in \<open>subst merge_buddies.simps, auto simp: Let_def\<close>)
qed (subst merge_buddies.simps, simp)

lemma merge_joins:
  assumes l: "loose s L A M (b, k)" and k: "k < 12" and L: "L k = as @ (b XOR 2 ^ k) # bs"
  shows "merge_buddies k b s = merge_buddies (Suc k) (min b (b XOR 2 ^ k)) (unlinked k as (b XOR 2 ^ k) bs s)"
proof -
  let ?a = "b XOR 2 ^ k"
  note n = loose_numbers [OF l k]
  have ok: "heap_ok s L A M" and b: "2 ^ k dvd b" and M: "M = all_cells (free_set L \<union> A) \<union> cells (b, k)"
    using l unfolding loose_def aligned_def fst_conv snd_conv by blast+
  have P: "poolBlocks s < 2 ^ 20" by (rule heap_okD(1) [OF ok])
  have k13: "k < numSizes" using k by simp
  have free: "(?a, k) \<in> free_set L" using k13 by (rule free_setI) (simp add: L)
  have past: "?a + 2 ^ k \<le> poolBlocks s" and a: "?a < 2 ^ 20" "2 ^ k dvd ?a"
    using heap_list_bound [OF ok k13, of ?a] L by simp_all
  have "?a + 2 ^ k - 1 < poolBlocks s" using past zero_less_power [of "2 :: nat" k] by linarith
  moreover have e: "?a + 2 ^ k - 1 \<in> cells (?a, k)" using last_in_cells [of "(?a, k)"] by simp
  moreover have "?a + 2 ^ k - 1 \<noteq> fst c + 2 ^ snd c - 1" if "c \<in> A" for c
  proof -
    have "(?a, k) \<noteq> c" using that free heap_okD(11) [OF ok] by blast
    with heap_okD(7) [OF ok, of "(?a, k)" c] have "cells (?a, k) \<inter> cells c = {}" using that free by blast
    then show ?thesis using e last_in_cells [of c] by auto
  qed
  moreover have "?a + 2 ^ k - 1 \<in> M" using e free unfolding M all_cells_def by blast
  ultimately have bit: "\<not> BITTEST (bmap s) (?a + 2 ^ k - 1)" using heap_okD(10) [OF ok] by blast
  have ptr: "block_ptr (?a + 2 ^ k) = 1024 * (?a + 2 ^ k)" "block_ptr ?a = 1024 * ?a"
    using past P a by (simp_all add: block_ptr_small)
  note mid = heap_middle(4) [where L = L, OF ok k13 L]
  note unl = merge_unlink [where L = L, OF ok k13 L]
  from unl(4) obtain u where u: "(if last_or OURNULL as = OURNULL
        then unlink_first k ?a (store (1024 * (?a + 2 ^ k) - 1) 0 s)
        else unlink_inner (last_or OURNULL as) ?a (store (1024 * (?a + 2 ^ k) - 1) 0 s)) = Inr u"
      "bzero_dwords (1024 * ?a) 3 u = unlinked k as ?a bs s" by blast
  have "(if ?a < b then ?a else b) = min b ?a" by (simp add: min_def)
  moreover have "\<not> poolBlocks s < ?a + 2 ^ k" "k < 13" using past k by simp_all
  ultimately show ?thesis
    using k unl(1-3) u
    by (subst merge_buddies.simps)
      (simp only: Let_def n(1,3,4) ptr mid bit trailer_bits add_0_right if_False if_True sum.case, simp)
qed

lemma loose_join:
  assumes l: "loose s L A M (b, k)" and k: "k < 12" and L: "L k = as @ (b XOR 2 ^ k) # bs"
  defines "t \<equiv> unlinked k as (b XOR 2 ^ k) bs s" and "c \<equiv> (min b (b XOR 2 ^ k), Suc k)"
  shows "loose t (L(k := as @ bs)) A M c" and "free_set (L(k := as @ bs)) = free_set L - {(b XOR 2 ^ k, k)}"
    and "all_cells (free_set (L(k := as @ bs))) \<union> cells c = all_cells (free_set L) \<union> cells (b, k)"
    and "same_in (- all_cells (free_set L)) (mem s) (mem t)"
proof -
  let ?a = "b XOR 2 ^ k" and ?L = "L(k := as @ bs)"
  have ok: "heap_ok s L A M" and b: "2 ^ k dvd b" "b + 2 ^ k \<le> poolBlocks s"
    and apart: "cells (b, k) \<inter> all_cells (free_set L \<union> A) = {}" and M: "M = all_cells (free_set L \<union> A) \<union> cells (b, k)"
    using l unfolding loose_def aligned_def fst_conv snd_conv by blast+
  have k13: "k < numSizes" using k by simp
  have free: "(?a, k) \<in> free_set L" using k13 by (rule free_setI) (simp add: L)
  note unl = unlinked_heap [where L = L, OF ok k13 L]
  show fs: "free_set ?L = free_set L - {(?a, k)}"
    by (rule free_set_unlink [where L = L, OF k13 L heap_okD(5) [OF ok k13]])
  note cut = unlinked_cells [OF ok free fs]
  have c: "cells c = cells (b, k) \<union> cells (?a, k)" unfolding c_def by (rule buddy_facts(5) [OF b(1)])
  show all: "all_cells (free_set ?L) \<union> cells c = all_cells (free_set L) \<union> cells (b, k)"
    unfolding cut(2) c using cut(5) by blast
  show "same_in (- all_cells (free_set L)) (mem s) (mem t)" unfolding t_def by (rule unl(2))
  have "?a + 2 ^ k \<le> poolBlocks s" using heap_list_bound(2) [OF ok k13, of ?a] L by simp
  then have "cells c \<subseteq> {..< poolBlocks s}" unfolding c using b(2) by (auto simp: in_cells)
  then have "fst c + 2 ^ snd c - 1 < poolBlocks s" using last_in_cells [of c] by blast
  then have "fst c + 2 ^ snd c \<le> poolBlocks s" by linarith
  moreover have "2 ^ snd c dvd fst c" using buddy_facts(6) [OF b(1)] by (simp add: c_def)
  ultimately have "aligned (poolBlocks t) c"
    using k unfolding aligned_def t_def unlinked_fields by (simp add: c_def)
  moreover have "cells c \<inter> all_cells (free_set ?L \<union> A) = {}" unfolding cut(1) c using apart by blast
  moreover have "M = all_cells (free_set ?L \<union> A) \<union> cells c"
    unfolding cut(1) c M using cut(5) by auto
  moreover have "heap_ok t ?L A M" unfolding t_def by (rule unl(1))
  ultimately show "loose t ?L A M c" unfolding loose_def by blast
qed

lemma merged_trans:
  assumes "merged t K A M c e u L'" and K: "free_set K \<subseteq> free_set L"
    and all: "all_cells (free_set K) \<union> cells c = all_cells (free_set L) \<union> cells b"
    and t: "kept s t" "bmap t = bmap s" "freeBytes t = freeBytes s" "same_in (- all_cells (free_set L)) (mem s) (mem t)"
  shows "merged s L A M b e u L'"
proof -
  have m: "loose u L' A M e" "free_set L' \<subseteq> free_set K" "all_cells (free_set L') \<union> cells e = all_cells (free_set L) \<union> cells b"
    "snd e < 12 \<longrightarrow> buddy_of e \<notin> free_set L'" "kept t u" "bmap u = bmap t" "freeBytes u = freeBytes t"
    "same_in (- (all_cells (free_set L) \<union> cells b)) (mem t) (mem u)"
    using assms(1) unfolding merged_def all by simp_all
  have "same_in (- (all_cells (free_set L) \<union> cells b)) (mem s) (mem u)"
    by (rule same_in_trans [OF same_in_mono [OF t(4)] m(8)]) blast
  then show ?thesis
    using m(1-4) order_trans [OF m(2) K] kept_trans [OF t(1) m(5)] t(2,3) m(6,7) unfolding merged_def by simp
qed

lemma merge_ok:
  assumes "loose s L A M (b, k)"
  shows "\<exists>d j t L'. merge_buddies k b s = Inr (j, d, t) \<and> merged s L A M (b, k) (d, j) t L' \<and> k \<le> j"
  using assms
proof (induction "12 - k" arbitrary: b k s L)
  case 0
  have k: "k = 12" using 0 by (auto simp: loose_def aligned_def)
  then show ?case
    using merge_stops [OF "0.prems"] merged_none [OF "0.prems"] by fastforce
next
  case (Suc n)
  then have k: "k < 12" by simp
  show ?case
  proof (cases "(b XOR 2 ^ k, k) \<in> free_set L")
    case False
    then show ?thesis
      using k merge_stops [OF Suc.prems] merged_none [OF Suc.prems] by (fastforce simp: buddy_of_def)
  next
    case True
    then have "b XOR 2 ^ k \<in> set (L k)" by (simp add: free_set_def)
    then obtain as bs where L: "L k = as @ (b XOR 2 ^ k) # bs" by (blast dest: split_list)
    let ?t = "unlinked k as (b XOR 2 ^ k) bs s" and ?L = "L(k := as @ bs)"
    let ?c = "(min b (b XOR 2 ^ k), Suc k)"
    note join = loose_join [where L = L, OF Suc.prems k L]
    have "n = 12 - Suc k" using Suc.hyps(2) by simp
    from Suc.hyps(1) [OF this join(1)] obtain d j u L' where
      run: "merge_buddies (Suc k) (min b (b XOR 2 ^ k)) ?t = Inr (j, d, u)" and
      m: "merged ?t ?L A M ?c (d, j) u L'" and j: "Suc k \<le> j" by blast
    have "merged s L A M (b, k) (d, j) u L'"
      by (rule merged_trans [OF m _ join(3) unlinked_fields(4,1,3) join(4)]) (use join(2) in blast)
    then show ?thesis
      using run j unfolding merge_joins [where L = L, OF Suc.prems k L]
      by (intro exI conjI) (assumption | simp)+
  qed
qed

section \<open>The client's view of a block\<close>

lemma heap_deallocate:
  assumes ok: "heap_ok s L A M" and c: "(b, k) \<in> A"
    and t: "freeList t = freeList s" "mem t = mem s" "poolBlocks t = poolBlocks s" "bmap t = BITCLEAR (bmap s) (b + 2 ^ k - 1)"
  shows "heap_ok t L (A - {(b, k)}) M"
proof -
  let ?e = "b + 2 ^ k - 1"
  have al: "aligned (poolBlocks s) (b, k)" using heap_okD(6) [OF ok] c by blast
  have e: "?e \<in> cells (b, k)" using last_in_cells [of "(b, k)"] by simp
  have "?e < poolBlocks s" using al zero_less_power [of "2 :: nat" k] unfolding aligned_def fst_conv snd_conv by linarith
  then have in_map: "?e div 8 < length (bmap s)" using heap_okD(9) [OF ok] by simp
  have M: "?e \<in> M" using heap_okD(8) [OF ok, of "(b, k)"] c e by blast
  have other: "fst d + 2 ^ snd d - 1 \<noteq> ?e" if "d \<in> A - {(b, k)}" for d
    using heap_okD(7) [OF ok, of "(b, k)" d] c that e last_in_cells [of d] by (metis DiffE Un_iff disjoint_iff insertI1)
  have "map_ok t (A - {(b, k)}) M"
    unfolding map_ok_def t(3,4)
  proof (intro conjI allI impI)
    show "length (BITCLEAR (bmap s) ?e) = (poolBlocks s + 7) div 8" using heap_okD(9) [OF ok] by simp
    fix n assume n: "n < poolBlocks s"
    show "BITTEST (BITCLEAR (bmap s) ?e) n \<longleftrightarrow> (\<exists>d \<in> A - {(b, k)}. n = fst d + 2 ^ snd d - 1) \<or> n \<notin> M"
    proof (cases "n = ?e")
      case True
      then show ?thesis using in_map M other by fastforce
    next
      case False
      then have "BITTEST (BITCLEAR (bmap s) ?e) n \<longleftrightarrow> BITTEST (bmap s) n" using in_map by simp
      then show ?thesis using heap_okD(10) [OF ok n] False by force
    qed
  qed
  moreover have "lists_ok t L" using ok t unfolding heap_ok_def lists_ok_def by simp
  moreover have "free_set L \<union> (A - {(b, k)}) \<subseteq> free_set L \<union> A" by blast
  ultimately show ?thesis
    using ok unfolding heap_ok_def t(3) disjoint_blocks_def all_cells_def by blast
qed

lemma busy_bits_ok:
  assumes ok: "heap_ok s L A M" and c: "(b, k) \<in> A" and j: "j \<le> k"
  shows "busy_bits s b (2 ^ j) j = Inr k"
  using j
proof (induction "k - j" arbitrary: j)
  case 0
  have al: "aligned (poolBlocks s) (b, k)" using heap_okD(6) [OF ok] c by blast
  have b: "k < 13" "2 ^ k dvd b" "b + 2 ^ k \<le> poolBlocks s" using al unfolding aligned_def by auto
  then have "b + 2 ^ k - 1 < poolBlocks s" using zero_less_power [of "2 :: nat" k] by linarith
  from heap_okD(10) [OF ok this] c have "BITTEST (bmap s) (b + 2 ^ k - 1)" by force
  then show ?case using 0 b and_mask_dvd [of b k] by (subst busy_bits.simps) simp
next
  case (Suc n)
  then have j: "j < k" by simp
  have al: "aligned (poolBlocks s) (b, k)" using heap_okD(6) [OF ok] c by blast
  have p: "(2 :: nat) ^ j < 2 ^ k" "(2 :: nat) ^ j dvd 2 ^ k" "0 < (2 :: nat) ^ j"
    using j by (simp_all add: le_imp_power_dvd)
  have b: "j < 13" "2 ^ j dvd b" "b + 2 ^ j \<le> poolBlocks s" "b + 2 ^ j - 1 < poolBlocks s"
  proof -
    show "j < 13" "2 ^ j dvd b" using al j dvd_trans [OF p(2)] unfolding aligned_def by auto
    show "b + 2 ^ j \<le> poolBlocks s" "b + 2 ^ j - 1 < poolBlocks s"
      using al p unfolding aligned_def fst_conv snd_conv by linarith+
  qed
  have i: "b + 2 ^ j - 1 \<in> cells (b, k)" unfolding in_cells using p by linarith
  have "b + 2 ^ j - 1 \<noteq> fst d + 2 ^ snd d - 1" if d: "d \<in> A" for d
  proof
    assume e: "b + 2 ^ j - 1 = fst d + 2 ^ snd d - 1"
    then have "b + 2 ^ j - 1 \<in> cells d" using last_in_cells [of d] by simp
    then have "d = (b, k)" using heap_okD(7) [OF ok, of "(b, k)" d] c d i by blast
    then have "b + 2 ^ j - 1 = b + 2 ^ k - 1" using e by simp
    then show False using p by linarith
  qed
  moreover have "b + 2 ^ j - 1 \<in> M" using heap_okD(8) [OF ok, of "(b, k)"] c i by blast
  ultimately have "\<not> BITTEST (bmap s) (b + 2 ^ j - 1)" using heap_okD(10) [OF ok b(4)] by blast
  then have "busy_bits s b (2 ^ j) j = busy_bits s b (2 ^ Suc j) (Suc j)"
    using b and_mask_dvd [of b j] by (subst busy_bits.simps) (simp add: mult.commute)
  moreover have "n = k - Suc j" using Suc.hyps(2) by simp
  ultimately show ?case using Suc.hyps(1) [of "Suc j"] j by simp
qed

lemma BuddyAllocSize_ok:
  assumes ok: "heap_ok s L A M" and c: "(b, k) \<in> A"
  shows "BuddyAllocSize (poolStart s + 4096 * b) s = Inr k"
proof -
  have "aligned (poolBlocks s) (b, k)" using heap_okD(6) [OF ok] c by blast
  then have "b < poolBlocks s" using zero_less_power [of "2 :: nat" k] unfolding aligned_def fst_conv snd_conv by linarith
  then show ?thesis using busy_bits_ok [OF ok c, of 0] by (simp add: BuddyAllocSize_def Let_def)
qed

text \<open>The end of \<open>Free\<close> does what \<open>makeFree\<close> does, except for the count of free bytes.\<close>

lemma dword_neq: "x < 1024 \<Longrightarrow> y < 1024 \<Longrightarrow> x \<noteq> y \<Longrightarrow> 1024 * a + x \<noteq> 1024 * (b :: nat) + y"
  by (cases a b rule: linorder_cases) auto

definition push_free :: "nat \<Rightarrow> nat \<Rightarrow> pool \<Rightarrow> pool" where
  "push_free bits blockOff s =
    (let sptr = block_ptr blockOff;
         s = store (sptr + OFF_MAGIC) MAGIC s;
         s = store (sptr + OFF_PREV) OURNULL s;
         nextOffset = freeList s ! bits; nextPtr = block_ptr nextOffset;
         s = (if nextOffset \<noteq> OURNULL then store (nextPtr + OFF_PREV) blockOff s else s);
         s = store (sptr + OFF_NEXT) nextOffset s;
         s = store (sptr + 2 ^ (minBits + bits) div 4 - 1) (add32 bits LEN_OFFSET) s
     in set_list bits blockOff s)"

lemma push_free_makeFree:
  assumes "k < 13" and "d < 2 ^ 20" and nx: "freeList s ! k \<noteq> OURNULL \<Longrightarrow> freeList s ! k < 2 ^ 20"
  shows "push_free k d s = (makeFree d k False s)\<lparr>freeBytes := freeBytes s\<rparr>"
proof -
  define e where "e = 1024 * (d + 2 ^ k) - (1 :: nat)"
  have ends: "1024 * d + 2 ^ (12 + k) div 4 - 1 = e" "1024 * d + shl32 1 (k + 12) div 4 - 1 = e"
    unfolding shl32_bytes [OF assms(1)] e_def by (simp_all add: power_add)
  have apart: "1024 * n + 1 \<noteq> 1024 * d + 2" "1024 * n + 1 \<noteq> e" for n :: nat
  proof -
    show "1024 * n + 1 \<noteq> 1024 * d + 2" by (rule dword_neq) simp_all
    have "0 < (2 :: nat) ^ k" by simp
    then obtain j where "(2 :: nat) ^ k = Suc j" by (auto simp: gr0_conv_Suc)
    then have "e = 1024 * (d + j) + 1023" by (simp add: e_def)
    then show "1024 * n + 1 \<noteq> e" using dword_neq [of 1 1023 n "d + j"] by simp
  qed
  show ?thesis
  proof (cases "freeList s ! k = OURNULL")
    case True
    then show ?thesis
      unfolding push_free_def makeFree_def Let_def block_ptr_small [OF assms(2)] ends store_def set_list_def by simp
  next
    case False
    show ?thesis
      unfolding push_free_def makeFree_def Let_def block_ptr_small [OF assms(2)] ends store_def set_list_def
      using False apart [of "freeList s ! k"] block_ptr_small [OF nx [OF False]]
      by (intro pool.equality) (auto simp: fun_eq_iff)
  qed
qed

lemma pool_Free_push:
  assumes "storage \<noteq> 0" and "BuddyAllocSize storage s = Inr k"
    and "b = (storage - poolStart s) div 2 ^ minBits mod 2 ^ 32"
    and "merge_buddies k b (s\<lparr>bmap := BITCLEAR (bmap s) (sub32 (add32 b (shl32 1 k)) 1)\<rparr>) = Inr (j, d, t)"
    and ok: "heap_ok t L A M" "j < 13" "d < 2 ^ 20" "d \<notin> set (L j)"
  shows "pool_Free storage s =
    (kIOReturnSuccess, (push_free j d t)\<lparr>freeBytes := add32 (freeBytes t) (shl32 1 (k + 12))\<rparr>)"
proof -
  define n where "n = freeList t ! j"
  have "n < poolBlocks t \<and> mem t (1024 * n) = MAGIC \<and> mem t (1024 * n + 1) = OURNULL \<and>
    block_ptr n = 1024 * n \<and> n \<noteq> d" if "n \<noteq> OURNULL"
  proof -
    have ne: "L j \<noteq> []" using that heap_head(1) [OF ok(1,2)] unfolding n_def by simp
    then obtain bs where L: "L j = n # bs" using heap_head(2) [OF ok(1,2)] unfolding n_def by (cases "L j") auto
    then have "node (mem t) j n OURNULL (head_or bs OURNULL)" using heap_okD(4) [OF ok(1,2)] by simp
    moreover have "n < poolBlocks t" "n < 2 ^ 20" using heap_list_bound [OF ok(1,2), of n] L by simp_all
    ultimately show ?thesis using ok(4) L by (auto simp: node_def block_ptr_small)
  qed
  moreover have "1024 * n + 1 \<noteq> 1024 * d" "1024 * n \<noteq> 1024 * d + 1"
    using dword_neq [of 1 0 n d] dword_neq [of 0 1 n d] by simp_all
  ultimately have check: "\<not> (n \<noteq> OURNULL \<and> (n \<ge> poolBlocks t \<or>
      mem (store (block_ptr d + 1) OURNULL (store (block_ptr d) MAGIC t)) (block_ptr n) \<noteq> MAGIC \<or>
      mem (store (block_ptr d + 1) OURNULL (store (block_ptr d) MAGIC t)) (block_ptr n + 1) \<noteq> OURNULL))"
    unfolding block_ptr_small [OF ok(3)] by (cases "n = OURNULL") (simp_all add: store_def)
  have n: "freeList (store (block_ptr d + 1) OURNULL (store (block_ptr d) MAGIC t)) ! j = n"
    "poolBlocks (store (block_ptr d + 1) OURNULL (store (block_ptr d) MAGIC t)) = poolBlocks t"
    by (simp_all add: store_def n_def)
  show ?thesis
    unfolding pool_Free_def push_free_def Let_def assms(2) sum.case assms(3) [symmetric] assms(4) prod.case add_0_right
      n if_not_P [OF assms(1)] if_not_P [OF check]
    by (simp add: store_def set_list_def)
qed

text \<open>The outcome of freeing an allocated block.\<close>

definition freed :: "pool \<Rightarrow> (nat \<Rightarrow> nat list) \<Rightarrow> block set \<Rightarrow> block \<Rightarrow> pool \<Rightarrow> (nat \<Rightarrow> nat list) \<Rightarrow> bool" where
  "freed s L A c t L' \<longleftrightarrow> pool_ok t L' (A - {c}) \<and> all_cells (free_set L') = all_cells (free_set L) \<union> cells c \<and>
     kept s t \<and> same_in (- (all_cells (free_set L) \<union> cells c)) (mem s) (mem t) \<and> (coalesced L \<longrightarrow> coalesced L')"

lemma heap_ok_cong:
  "heap_ok s L A M \<Longrightarrow> freeList t = freeList s \<Longrightarrow> mem t = mem s \<Longrightarrow> poolBlocks t = poolBlocks s \<Longrightarrow> bmap t = bmap s \<Longrightarrow>
    heap_ok t L A M"
  by (simp add: heap_ok_def lists_ok_def map_ok_def)

lemma coalesced_insert:
  assumes "coalesced L" and "free_set K \<subseteq> free_set L" and "free_set L' = insert c (free_set K)"
    and "snd c < 12 \<longrightarrow> buddy_of c \<notin> free_set K" and "2 ^ snd c dvd fst c"
  shows "coalesced L'"
  unfolding coalesced_def assms(3)
proof (intro ballI, clarify)
  fix x i assume x: "(x, i) \<in> insert c (free_set K)" "i < 12" "(x XOR 2 ^ i, i) \<in> insert c (free_set K)"
  have self: "x XOR 2 ^ i \<noteq> x" if "c = (x, i)" using buddy_facts(3) [of i x] assms(5) that by simp
  have twice: "x = fst c XOR 2 ^ snd c" if "c = (x XOR 2 ^ i, i)" using that by (simp add: xor.assoc)
  show False using x assms(1,2,4) self twice unfolding coalesced_def buddy_of_def by fastforce
qed

lemma pool_split:
  assumes "pool_ok s L A" and "c \<in> A"
  shows "cells c \<inter> all_cells (free_set L \<union> (A - {c})) = {}"
    and "all_cells (free_set L \<union> A) = all_cells (free_set L \<union> (A - {c})) \<union> cells c"
proof -
  have ok: "heap_ok s L A (all_cells (free_set L \<union> A))" using assms(1) by (simp add: pool_ok_def)
  have "cells c \<inter> cells d = {}" if "d \<in> free_set L \<union> (A - {c})" for d
    using heap_okD(7,11) [OF ok] that assms(2) by blast
  then show "cells c \<inter> all_cells (free_set L \<union> (A - {c})) = {}" unfolding all_cells_def by blast
  show "all_cells (free_set L \<union> A) = all_cells (free_set L \<union> (A - {c})) \<union> cells c"
    using assms(2) unfolding all_cells_def by blast
qed

lemma pool_push:
  assumes l: "loose t K A M (d, j)" and bytes: "n = 4096 * card (all_cells (free_set K) \<union> cells (d, j))"
  defines "u \<equiv> (push_free j d t)\<lparr>freeBytes := n\<rparr>"
  shows "pool_ok u (K(j := d # K j)) A" and "kept t u"
    and "same_in (- (all_cells (free_set K) \<union> cells (d, j))) (mem t) (mem u)"
    and "free_set (K(j := d # K j)) = insert (d, j) (free_set K)" and "d \<notin> set (K j)"
    and "j < 13" and "d < 2 ^ 20"
proof -
  have ok: "heap_ok t K A M" and al: "aligned (poolBlocks t) (d, j)" and apart: "cells (d, j) \<inter> all_cells (free_set K \<union> A) = {}"
    and M: "M = all_cells (free_set K \<union> A) \<union> cells (d, j)"
    using l unfolding loose_def by blast+
  show j: "j < 13" using al by (simp add: aligned_def)
  show d: "d < 2 ^ 20" using al heap_okD(1) [OF ok] by (simp add: aligned_def)
  show new: "d \<notin> set (K j)"
    using free_setI [of j d K] j apart start_in_cells [of d j] unfolding all_cells_def by auto
  have "freeList t ! j \<noteq> OURNULL \<Longrightarrow> freeList t ! j < 2 ^ 20"
    using heap_head [OF ok] heap_list_bound(5) [OF ok, of j "hd (K j)"] j by auto
  from push_free_makeFree [where s = t, OF j d this]
  have u: "u = (makeFree d j False t)\<lparr>freeBytes := n\<rparr>" by (simp add: u_def)
  have "cells (d, j) \<subseteq> M" unfolding M by blast
  note mf = makeFree_ok [OF ok al this apart]
  show fs: "free_set (K(j := d # K j)) = insert (d, j) (free_set K)" using j by (simp add: free_set_push)
  have "all_cells (free_set (K(j := d # K j)) \<union> A) = M" unfolding fs M by auto
  moreover have "heap_ok u (K(j := d # K j)) A M" by (rule heap_ok_cong [OF mf(1)]) (simp_all add: u)
  moreover have "freeBytes u = 4096 * card (all_cells (free_set (K(j := d # K j))))"
    unfolding fs by (simp add: u bytes Un_commute)
  ultimately show "pool_ok u (K(j := d # K j)) A" unfolding pool_ok_def by simp
  show "kept t u" using mf(3) by (simp add: u kept_def)
  show "same_in (- (all_cells (free_set K) \<union> cells (d, j))) (mem t) (mem u)"
    by (rule same_in_mono [where D = "- (cells (d, j) \<union> all_cells (free_set K))"]) (use mf(5) in \<open>auto simp: u\<close>)
qed

lemma block_bounds:
  assumes ok: "heap_ok s L A M" and c: "(b, k) \<in> A"
  shows "k < 13" and "b + 2 ^ k \<le> poolBlocks s" and "b < 2 ^ 20" and "shl32 1 k = 2 ^ k"
    and "add32 b (2 ^ k) = b + 2 ^ k" and "sub32 (b + 2 ^ k) 1 = b + 2 ^ k - 1" and "2 ^ k dvd b"
proof -
  have al: "aligned (poolBlocks s) (b, k)" using heap_okD(6) [OF ok] c by blast
  then show k: "k < 13" and b: "b + 2 ^ k \<le> poolBlocks s" "2 ^ k dvd b" by (auto simp: aligned_def)
  have P: "poolBlocks s < 2 ^ 20" by (rule heap_okD(1) [OF ok])
  then show "b < 2 ^ 20" using b by simp
  show "shl32 1 k = 2 ^ k" using k by (intro shl32_one) simp
  have "1 \<le> b + 2 ^ k" using zero_less_power [of "2 :: nat" k] by linarith
  then show "add32 b (2 ^ k) = b + 2 ^ k" "sub32 (b + 2 ^ k) 1 = b + 2 ^ k - 1"
    using b P by (simp_all add: add32_small sub32_small)
qed

lemma pool_Free_ok:
  assumes pool: "pool_ok s L A" and c: "(b, k) \<in> A" and nz: "poolStart s + 4096 * b \<noteq> 0"
  shows "\<exists>t L'. pool_Free (poolStart s + 4096 * b) s = (kIOReturnSuccess, t) \<and> freed s L A (b, k) t L'"
proof -
  let ?M = "all_cells (free_set L \<union> A)" and ?A = "A - {(b, k)}" and ?s = "s\<lparr>bmap := BITCLEAR (bmap s) (b + 2 ^ k - 1)\<rparr>"
  have ok: "heap_ok s L A ?M" and bytes: "freeBytes s = 4096 * card (all_cells (free_set L))"
    using pool unfolding pool_ok_def by auto
  note bb = block_bounds [OF ok c]
  note split = pool_split [OF pool c]
  have "heap_ok ?s L ?A ?M" by (rule heap_deallocate [OF ok c]) simp_all
  moreover have "aligned (poolBlocks ?s) (b, k)" using heap_okD(6) [OF ok] c by simp
  ultimately have "loose ?s L ?A ?M (b, k)" using split unfolding loose_def by blast
  then obtain d j t L' where run: "merge_buddies k b ?s = Inr (j, d, t)" and m: "merged ?s L ?A ?M (b, k) (d, j) t L'"
    using merge_ok by blast
  have l: "loose t L' ?A ?M (d, j)" and sub: "free_set L' \<subseteq> free_set L" and kept: "kept ?s t"
    and cells: "all_cells (free_set L') \<union> cells (d, j) = all_cells (free_set L) \<union> cells (b, k)"
    and buddy: "snd (d, j) < 12 \<longrightarrow> buddy_of (d, j) \<notin> free_set L'" and fb: "freeBytes t = freeBytes s"
    and same: "same_in (- (all_cells (free_set L) \<union> cells (b, k))) (mem ?s) (mem t)"
    using m unfolding merged_def by simp_all
  have "cells (b, k) \<inter> all_cells (free_set L) = {}" using split(1) by auto
  then have card: "card (all_cells (free_set L) \<union> cells (b, k)) = card (all_cells (free_set L)) + 2 ^ k"
    using heap_cells_bound(2) [OF ok] cells_nonempty(3,4) [of "(b, k)"] by (simp add: card_Un_disjoint Int_commute)
  have "all_cells (free_set L) \<union> cells (b, k) \<subseteq> {..< poolBlocks s}"
    using heap_cells_bound(1) [OF ok] unfolding split(2) by simp
  from card_mono [OF _ this] have P: "card (all_cells (free_set L) \<union> cells (b, k)) \<le> poolBlocks s" by simp
  have n: "add32 (freeBytes t) (shl32 1 (k + 12)) = 4096 * card (all_cells (free_set L') \<union> cells (d, j))"
    unfolding cells card fb bytes shl32_bytes [OF bb(1)] using P card heap_okD(1) [OF ok]
    by (subst add32_small) simp_all
  note push = pool_push [OF l n]
  have okt: "heap_ok t L' ?A ?M" using l unfolding loose_def by blast
  have "b = (poolStart s + 4096 * b - poolStart s) div 2 ^ minBits mod 2 ^ 32" using bb(3) by simp
  from pool_Free_push [OF nz BuddyAllocSize_ok [OF ok c] this _ okt push(6,7,5)] run
  have "pool_Free (poolStart s + 4096 * b) s =
      (kIOReturnSuccess, (push_free j d t)\<lparr>freeBytes := add32 (freeBytes t) (shl32 1 (k + 12))\<rparr>)"
    unfolding bb(4-6) by blast
  moreover have "freed s L A (b, k) ((push_free j d t)\<lparr>freeBytes := add32 (freeBytes t) (shl32 1 (k + 12))\<rparr>) (L'(j := d # L' j))"
    unfolding freed_def
  proof (intro conjI impI)
    show "all_cells (free_set (L'(j := d # L' j))) = all_cells (free_set L) \<union> cells (b, k)"
      unfolding push(4) using cells by auto
    show "kept s ((push_free j d t)\<lparr>freeBytes := add32 (freeBytes t) (shl32 1 (k + 12))\<rparr>)"
      using kept push(2) by (simp add: kept_def)
    show "same_in (- (all_cells (free_set L) \<union> cells (b, k))) (mem s)
        (mem ((push_free j d t)\<lparr>freeBytes := add32 (freeBytes t) (shl32 1 (k + 12))\<rparr>))"
      using same_in_trans [OF same push(3) [unfolded cells]] by simp
    assume "coalesced L"
    then show "coalesced (L'(j := d # L' j))"
      by (rule coalesced_insert [OF _ sub push(4) buddy]) (use l in \<open>simp add: loose_def aligned_def\<close>)
  qed (rule push(1))
  ultimately show ?thesis by blast
qed

section \<open>Setting up the pool\<close>

lemma BITTEST_full: "n < 8 * m \<Longrightarrow> BITTEST (replicate m 0xFF) n"
proof -
  assume "n < 8 * m"
  then have "n div 8 < m" by auto
  then have "replicate m (0xFF :: u8) ! (n div 8) = 0xFF" by (rule nth_replicate)
  then show ?thesis unfolding byte_full by blast
qed

lemma pool_Init_ok:
  assumes "startAddress mod 4096 = 0" and "bytes < 2 ^ 32"
  obtains t where "pool_Init True startAddress bytes s = (kIOReturnSuccess, t)" and "pool_ok t (\<lambda>_. []) {}"
    and "poolStart t = startAddress" and "poolBlocks t = bytes div 4096" and "mem t = mem s" and "has_map t"
proof -
  define t where "t = (ReleaseMap s)\<lparr>poolStart := startAddress, poolBlocks := bytes div 4096, has_map := True,
    freeBytes := 0, bmap := replicate ((bytes div 4096 + 7) div 8) 0xFF, freeList := replicate 13 OURNULL\<rparr>"
  have small: "bytes div 4096 < 2 ^ 20" using assms(2) by (simp add: div_less_iff_less_mult)
  then have run: "pool_Init True startAddress bytes s = (kIOReturnSuccess, t)"
    using assms by (simp add: pool_Init_def Let_def t_def)
  have empty: "free_set (\<lambda>_. []) = {}" by (simp add: free_set_def)
  have "n < bytes div 4096 \<Longrightarrow> BITTEST (bmap t) n" for n
  proof -
    assume "n < bytes div 4096"
    then have "n < 8 * ((bytes div 4096 + 7) div 8)" by linarith
    then show ?thesis unfolding t_def by (simp add: BITTEST_full)
  qed
  then have "heap_ok t (\<lambda>_. []) {} {}"
    using small unfolding heap_ok_def lists_ok_def map_ok_def empty disjoint_blocks_def by (simp add: t_def)
  then have "pool_ok t (\<lambda>_. []) {}" unfolding pool_ok_def empty by (simp add: t_def)
  moreover have "mem t = mem s" by (simp add: t_def ReleaseMap_def)
  ultimately show ?thesis using that [OF run] by (simp add: t_def)
qed

lemma largest_no_buddies:
  assumes L: "all_cells N = {i ..< past}"
    and al: "\<forall>(x, j) \<in> N. 2 ^ j dvd x" and large: "\<forall>(x, j) \<in> N. j = 12 \<or> \<not> fits past x (Suc j)"
    and x: "(x, j) \<in> N" "j < 12"
  shows "(x XOR 2 ^ j, j) \<notin> N"
proof
  assume y: "(x XOR 2 ^ j, j) \<in> N"
  let ?m = "min x (x XOR 2 ^ j)"
  have "2 ^ j dvd x" using al x(1) by auto
  note f = buddy_facts [OF this]
  have "cells (?m, Suc j) \<subseteq> {i ..< past}" unfolding f(5) L [symmetric] using x(1) y unfolding all_cells_def by blast
  then have "?m + 2 ^ Suc j - 1 < past" using last_in_cells [of "(?m, Suc j)"] by auto
  then have "?m + 2 ^ Suc j \<le> past" by linarith
  moreover have "(?m, j) \<in> N" using x(1) y by (simp add: min_def)
  ultimately show False using large f(6) x(2) unfolding fits_def by auto
qed

lemma coalesced_fresh:
  assumes "free_set L = N" "all_cells N = {i ..< past}"
    and "\<forall>(x, j) \<in> N. 2 ^ j dvd x" and "\<forall>(x, j) \<in> N. j = 12 \<or> \<not> fits past x (Suc j)"
  shows "coalesced L"
  unfolding coalesced_def assms(1) using largest_no_buddies [OF assms(2-4)] by auto

lemma coalesced_beside:
  assumes old: "coalesced K" and apart: "{i ..< past} \<inter> all_cells (free_set K) = {}"
    and whole: "2 ^ 12 dvd i" "2 ^ 12 dvd past"
    and L: "free_set L = free_set K \<union> N" "all_cells N = {i ..< past}"
    and al: "\<forall>(x, j) \<in> N. 2 ^ j dvd x" and large: "\<forall>(x, j) \<in> N. j = 12 \<or> \<not> fits past x (Suc j)"
  shows "coalesced L"
proof -
  have out: "(x XOR 2 ^ j, j) \<notin> free_set K" if x: "(x, j) \<in> N" "j < 12" for x j
  proof -
    have d: "2 ^ j dvd x" using al x by auto
    have xi: "i \<le> x" "x < past" using L(2) x(1) start_in_cells [of x j] unfolding all_cells_def by auto
    define q where "q = x div 2 ^ 12 * 2 ^ 12"
    have q: "2 ^ 12 dvd q" "x \<in> cells (q, 12)" unfolding q_def by (auto simp: aligned_cells)
    have "i \<le> q"
      using xi(1) whole(1) unfolding q_def by (metis div_le_mono dvd_div_mult_self mult_le_mono1)
    moreover have "q + 2 ^ 12 \<le> past"
    proof -
      obtain w where w: "past = 2 ^ 12 * w" using whole(2) by (elim dvdE)
      then have "x div 2 ^ 12 < w" using xi(2) by (simp add: less_mult_imp_div_less mult.commute)
      then show ?thesis unfolding q_def w by simp
    qed
    ultimately have "cells (q, 12) \<subseteq> {i ..< past}" by (auto simp: in_cells)
    moreover have "cells (min x (x XOR 2 ^ j), Suc j) \<subseteq> cells (q, 12)"
      using aligned_nested [OF buddy_facts(6) [OF d] q(1) _ _ q(2)] x(2) start_in_cells [of x j] buddy_facts(5) [OF d] by simp
    ultimately have "x XOR 2 ^ j \<in> {i ..< past}"
      using start_in_cells [of "x XOR 2 ^ j" j] unfolding buddy_facts(5) [OF d] by blast
    then show ?thesis using apart start_in_cells [of "x XOR 2 ^ j" j] unfolding all_cells_def by blast
  qed
  have inside: "(x XOR 2 ^ j, j) \<notin> N" if "(x, j) \<in> N" "j < 12" for x j
    by (rule largest_no_buddies [OF L(2) al large that])
  show ?thesis
    unfolding coalesced_def L(1)
  proof (intro ballI, clarify)
    fix x j assume x: "(x, j) \<in> free_set K \<union> N" "j < 12" "(x XOR 2 ^ j, j) \<in> free_set K \<union> N"
    then show False
      using out [of x j] out [of "x XOR 2 ^ j" j] inside [of x j] old by (auto simp: xor.assoc coalesced_def)
  qed
qed

text \<open>Handing over a range of cells that is not managed yet.\<close>

definition released :: "pool \<Rightarrow> (nat \<Rightarrow> nat list) \<Rightarrow> block set \<Rightarrow> nat \<Rightarrow> nat \<Rightarrow> pool \<Rightarrow> (nat \<Rightarrow> nat list) \<Rightarrow> bool" where
  "released s L A x y t L' \<longleftrightarrow> pool_ok t L' A \<and> all_cells (free_set L') = all_cells (free_set L) \<union> {x ..< y} \<and>
     kept s t \<and> same_in (- (all_cells (free_set L) \<union> {x ..< y})) (mem s) (mem t) \<and>
     (coalesced L \<and> 2 ^ 12 dvd x \<and> 2 ^ 12 dvd y \<or> free_set L = {} \<longrightarrow> coalesced L')"

lemma heap_extend:
  assumes ok: "heap_ok s L A (all_cells (free_set L \<union> A))" and range: "x \<le> y" "y \<le> poolBlocks s"
    and new: "{x ..< y} \<inter> all_cells (free_set L \<union> A) = {}"
  shows "clearCheck (bmap s) x y = (kIOReturnSuccess, clearAll (bmap s) x y)"
    and "heap_ok (s\<lparr>bmap := clearAll (bmap s) x y\<rparr>) L A (all_cells (free_set L \<union> A) \<union> {x ..< y})"
proof -
  let ?M = "all_cells (free_set L \<union> A)"
  have len: "y \<le> 8 * length (bmap s)" using range heap_okD(9) [OF ok] by simp
  have "BITTEST (bmap s) n" if n: "x \<le> n" "n < y" for n
  proof -
    have "n < poolBlocks s" "n \<notin> ?M" using n range new by auto
    then show ?thesis using heap_okD(10) [OF ok] by blast
  qed
  then have "testAll (bmap s) x y" unfolding testAll_iff [OF len range(1)] by blast
  then show "clearCheck (bmap s) x y = (kIOReturnSuccess, clearAll (bmap s) x y)" by (simp add: clearCheck_def)
  have ends: "\<not> (x \<le> fst c + 2 ^ snd c - 1 \<and> fst c + 2 ^ snd c - 1 < y)" if "c \<in> A" for c
    using last_in_cells [of c] new that unfolding all_cells_def by fastforce
  note bits = clearAll_bits [OF len range(1)]
  have "map_ok (s\<lparr>bmap := clearAll (bmap s) x y\<rparr>) A (?M \<union> {x ..< y})"
    unfolding map_ok_def
  proof (intro conjI allI impI)
    show "length (bmap (s\<lparr>bmap := clearAll (bmap s) x y\<rparr>)) = (poolBlocks (s\<lparr>bmap := clearAll (bmap s) x y\<rparr>) + 7) div 8"
      using bits heap_okD(9) [OF ok] by simp
    fix n assume n: "n < poolBlocks (s\<lparr>bmap := clearAll (bmap s) x y\<rparr>)"
    have "BITTEST (clearAll (bmap s) x y) n \<longleftrightarrow> BITTEST (bmap s) n \<and> \<not> (x \<le> n \<and> n < y)" using bits by blast
    moreover have "BITTEST (bmap s) n \<longleftrightarrow> (\<exists>c \<in> A. n = fst c + 2 ^ snd c - 1) \<or> n \<notin> ?M"
      using heap_okD(10) [OF ok] n by simp
    ultimately show "BITTEST (bmap (s\<lparr>bmap := clearAll (bmap s) x y\<rparr>)) n \<longleftrightarrow>
        (\<exists>c \<in> A. n = fst c + 2 ^ snd c - 1) \<or> n \<notin> ?M \<union> {x ..< y}"
      using ends by auto
  qed
  moreover have "lists_ok (s\<lparr>bmap := clearAll (bmap s) x y\<rparr>) L" using ok by (simp add: heap_ok_def lists_ok_def)
  ultimately show "heap_ok (s\<lparr>bmap := clearAll (bmap s) x y\<rparr>) L A (?M \<union> {x ..< y})"
    using ok unfolding heap_ok_def by simp
qed

lemma Release_ok:
  assumes pool: "pool_ok s L A" and range: "x \<le> y" "x < poolBlocks s" "y \<le> poolBlocks s"
    and new: "{x ..< y} \<inter> all_cells (free_set L \<union> A) = {}"
  shows "\<exists>t L'. Release (4096 * x) (4096 * y) s = Some (kIOReturnSuccess, t) \<and> released s L A x y t L'"
proof -
  let ?M = "all_cells (free_set L \<union> A)" and ?s = "s\<lparr>bmap := clearAll (bmap s) x y\<rparr>"
  have ok: "heap_ok s L A ?M" and bytes: "freeBytes s = 4096 * card (all_cells (free_set L))"
    using pool unfolding pool_ok_def by auto
  note ext = heap_extend [OF ok range(1,3) new]
  have P: "poolBlocks s < 2 ^ 20" by (rule heap_okD(1) [OF ok])
  obtain N t L' where t: "toFree x y False ?s = Some t" and filled: "filled ?s L A (?M \<union> {x ..< y}) x y N t L'"
    by (rule toFree_ok [OF ext(2)]) (use range new in simp_all)
  have small: "x mod 2 ^ 32 = x" "y mod 2 ^ 32 = y" using range P by simp_all
  have run: "Release (4096 * x) (4096 * y) s = Some (kIOReturnSuccess, t)"
    using range t ext(1) unfolding Release_def Let_def by (simp add: small [simplified])
  have "pool_ok t L' A"
    by (rule pool_ok_final [OF filled _ _ range(1)]) (use bytes new in auto)
  moreover have f: "free_set L' = free_set L \<union> N" "all_cells N = {x ..< y}" "heap_ok t L' A (?M \<union> {x ..< y})"
    "kept ?s t" "same_in (- (all_cells (free_set L) \<union> {x ..< y})) (mem ?s) (mem t)"
    "\<forall>(z, j) \<in> N. j = 12 \<or> \<not> fits y z (Suc j)"
    using filled unfolding filled_def by simp_all
  moreover have al: "\<forall>(z, j) \<in> N. 2 ^ j dvd z" using heap_okD(6) [OF f(3)] unfolding f(1) aligned_def by auto
  moreover have "coalesced L'" if "free_set L = {}"
    by (rule coalesced_fresh [OF _ f(2) al f(6)]) (use f(1) that in simp)
  moreover have "coalesced L'" if "coalesced L" "2 ^ 12 dvd x" "2 ^ 12 dvd y"
    by (rule coalesced_beside [OF that(1) _ that(2,3) f(1,2) al f(6)]) (use new in auto)
  ultimately have "released s L A x y t L'" unfolding released_def by (simp add: kept_def)
  then show ?thesis using run by blast
qed

section \<open>Allocation requests in bytes\<close>

lemma malloc_bits_ok:
  assumes "bytes \<le> 4096 * 2 ^ 12" and "k \<le> 12" and "k = 0 \<or> 4096 * 2 ^ (k - 1) < bytes"
  shows "\<exists>j < 13. malloc_bits bytes (4096 * 2 ^ k) k = Inr j \<and> bytes \<le> 4096 * 2 ^ j \<and> (j = 0 \<or> 4096 * 2 ^ (j - 1) < bytes)"
  using assms(2,3)
proof (induction "12 - k" arbitrary: k)
  case 0
  then have "k = 12" by simp
  then show ?case using assms(1) 0 by (subst malloc_bits.simps) auto
next
  case (Suc n)
  have k: "k < 12" using Suc.hyps(2) by simp
  show ?case
  proof (cases "4096 * 2 ^ k < bytes")
    case True
    have "4096 * 2 ^ k * 2 mod 2 ^ 64 = (4096 * 2 ^ Suc k :: nat)"
      using pow_le_12 [of k] k by simp
    moreover have "(4096 * 2 ^ Suc k :: nat) \<noteq> 0" by simp
    ultimately have "malloc_bits bytes (4096 * 2 ^ k) k = malloc_bits bytes (4096 * 2 ^ Suc k) (Suc k)"
      using True k by (subst malloc_bits.simps) (simp only: Let_def, simp)
    then show ?thesis using Suc.hyps(1) [of "Suc k"] Suc.hyps(2) k True by simp
  next
    case False
    then have "malloc_bits bytes (4096 * 2 ^ k) k = Inr k" by (subst malloc_bits.simps) simp
    then show ?thesis using False Suc.prems k by (intro exI [of _ k]) auto
  qed
qed

text \<open>The size class of a request.\<close>

definition class_for :: "nat \<Rightarrow> nat \<Rightarrow> bool" where
  "class_for bytes k \<longleftrightarrow> k < 13 \<and> bytes \<le> 4096 * 2 ^ k \<and> (k = 0 \<or> 4096 * 2 ^ (k - 1) < bytes)"

lemma pool_Malloc_class:
  assumes "bytes \<le> 4096 * 2 ^ 12"
  obtains k where "class_for bytes k" and "pool_Malloc bytes True s = BuddyMalloc k True s"
proof -
  obtain k where "class_for bytes k" "malloc_bits bytes (2 ^ 12) 0 = Inr k"
    using malloc_bits_ok [OF assms, of 0] unfolding class_for_def by auto
  then show ?thesis using that by (simp add: pool_Malloc_def)
qed

text \<open>A request is met from the first nonempty list of its class or above.\<close>

lemma BuddyMalloc_cases:
  assumes pool: "pool_ok s L A" and k: "k < 13"
  shows "(\<exists>c \<in> free_set L. k \<le> snd c) \<and> (\<exists>b t L'. BuddyMalloc k True s = Some (kIOReturnSuccess, Some (poolStart s + 4096 * b), t) \<and>
      allocated s L A (b, k) t L') \<or>
    \<not> (\<exists>c \<in> free_set L. k \<le> snd c) \<and> BuddyMalloc k True s = Some (kIOReturnNoMemory, None, s)"
proof (cases "\<exists>c \<in> free_set L. k \<le> snd c")
  case True
  then have ex: "\<exists>r. k \<le> r \<and> r < 13 \<and> L r \<noteq> []" by (force simp: free_set_def)
  define r where "r = (LEAST r. k \<le> r \<and> r < 13 \<and> L r \<noteq> [])"
  have r: "k \<le> r" "r < 13" "L r \<noteq> []" using LeastI_ex [OF ex] unfolding r_def by auto
  then obtain b bs where L: "L r = b # bs" by (cases "L r") auto
  have "L j = []" if "k \<le> j" "j < r" for j
    using not_less_Least [of j "\<lambda>r. k \<le> r \<and> r < 13 \<and> L r \<noteq> []"] that r(2) unfolding r_def by auto
  from BuddyMalloc_ok [OF pool r(1,2) L this] show ?thesis using True by blast
next
  case False
  then have "L j = []" if "k \<le> j" "j < 13" for j
    using free_setI [of j "hd (L j)" L] that by (cases "L j") force+
  from BuddyMalloc_fails [OF pool this] show ?thesis using False by blast
qed

text \<open>
  Without two free buddies, a large enough free block exists whenever the free cells hold any aligned
  range of that size.
\<close>

lemma coalesced_large:
  assumes ok: "heap_ok s L A M" and co: "coalesced L" and k: "k < 13" and b: "2 ^ k dvd b"
    and free: "cells (b, k) \<subseteq> all_cells (free_set L)"
  shows "\<exists>c \<in> free_set L. k \<le> snd c"
proof (rule ccontr)
  assume "\<not> ?thesis"
  then have small: "snd c < k" if "c \<in> free_set L" for c using that by fastforce
  have al: "2 ^ snd c dvd fst c" if "c \<in> free_set L" for c
    using heap_okD(6) [OF ok] that unfolding aligned_def by blast
  let ?inside = "\<lambda>j. \<exists>x. (x, j) \<in> free_set L \<and> cells (x, j) \<inter> cells (b, k) \<noteq> {}"
  have "\<exists>j. ?inside j" using free cells_nonempty(1) [of "(b, k)"] unfolding all_cells_def by fastforce
  then have j: "?inside (LEAST j. ?inside j)" by (rule LeastI_ex)
  define j where "j = (LEAST j. ?inside j)"
  have least: "j \<le> i" if "(x, i) \<in> free_set L" "n \<in> cells (x, i)" "n \<in> cells (b, k)" for i x n
    unfolding j_def by (rule Least_le) (use that in blast)
  obtain x n where x: "(x, j) \<in> free_set L" "n \<in> cells (x, j)" "n \<in> cells (b, k)" using j unfolding j_def by blast
  have jk: "j < k" and xd: "2 ^ j dvd x" using small [OF x(1)] al [OF x(1)] by simp_all
  let ?y = "x XOR 2 ^ j"
  note f = buddy_facts [OF xd]
  have "cells (min x ?y, Suc j) \<subseteq> cells (b, k)"
    by (rule aligned_nested [OF f(6) b _ _ x(3)]) (use jk x(2) f(5) in auto)
  then have y: "?y \<in> cells (b, k)" unfolding f(5) using start_in_cells [of ?y j] by blast
  then obtain z i where z: "(z, i) \<in> free_set L" "?y \<in> cells (z, i)" using free unfolding all_cells_def by force
  have ji: "j \<le> i" by (rule least [OF z y])
  have zd: "2 ^ i dvd z" using al [OF z(1)] by simp
  show False
  proof (cases "i = j")
    case True
    then have "z = ?y" using aligned_same [OF _ f(1) _ start_in_cells] zd z(2) by blast
    then show False using co z(1) x(1) True jk k unfolding coalesced_def by auto
  next
    case False
    then have "cells (min x ?y, Suc j) \<subseteq> cells (z, i)"
      using ji f(5) start_in_cells [of ?y j] by (intro aligned_nested [OF f(6) zd _ _ z(2)]) auto
    then have "x \<in> cells (z, i)" unfolding f(5) using start_in_cells [of x j] by blast
    moreover have "(x, j) \<noteq> (z, i)" using False by simp
    ultimately show False using heap_okD(7) [OF ok, of "(x, j)" "(z, i)"] x(1) z(1) start_in_cells [of x j] by blast
  qed
qed

section \<open>The consistency check\<close>

lemma free_cells_clear:
  assumes ok: "heap_ok s L A M" and c: "(b, k) \<in> free_set L"
  shows "\<not> testAny (bmap s) b (b + 2 ^ k)"
proof -
  have b: "b + 2 ^ k \<le> poolBlocks s" using heap_okD(6) [OF ok, of "(b, k)"] c by (simp add: aligned_def)
  have "\<not> BITTEST (bmap s) n" if n: "b \<le> n" "n < b + 2 ^ k" for n
  proof -
    have i: "n \<in> cells (b, k)" using n by (simp add: in_cells)
    have "n \<noteq> fst d + 2 ^ snd d - 1" if d: "d \<in> A" for d
    proof -
      have "(b, k) \<noteq> d" using heap_okD(11) [OF ok] c d by blast
      then have "cells (b, k) \<inter> cells d = {}" using heap_okD(7) [OF ok, of "(b, k)" d] c d by blast
      then show ?thesis using i last_in_cells [of d] by auto
    qed
    moreover have "n \<in> M" using heap_okD(8) [OF ok, of "(b, k)"] c i by blast
    moreover have "n < poolBlocks s" using n b by simp
    ultimately show ?thesis using heap_okD(10) [OF ok] by blast
  qed
  moreover have "b + 2 ^ k \<le> 8 * length (bmap s)" using b heap_okD(9) [OF ok] by simp
  ultimately show ?thesis using testAny_iff [of "b + 2 ^ k" "bmap s" b] by auto
qed

lemma list_cells_card:
  assumes "separate k bs"
  shows "finite (list_cells k bs)" and "card (list_cells k bs) = length bs * 2 ^ k"
  using assms
proof (induction bs)
  case (Cons b bs)
  case 1 then show ?case using Cons cells_nonempty(3) [of "(b, k)"] by simp
  case 2 then show ?case
    using Cons cells_nonempty(3,4) [of "(b, k)"] by (simp add: card_Un_disjoint)
qed simp_all

lemma free_list_length:
  assumes ok: "heap_ok s L A M" and k: "k < numSizes"
  shows "length (L k) \<le> poolBlocks s div 2 ^ k"
proof -
  have "list_cells k (L k) \<subseteq> {..< poolBlocks s}"
    using list_cells_subset [OF k, of L] heap_cells_bound(1) [OF ok] by auto
  from card_mono [OF _ this] have "length (L k) * 2 ^ k \<le> poolBlocks s"
    unfolding list_cells_card(2) [OF heap_separate [OF ok k]] by simp
  then show ?thesis by (simp add: less_eq_div_iff_mult_less_eq)
qed

lemma check_list_ok:
  assumes ok: "heap_ok s L A M" and k: "k < numSizes" and L: "L k = as @ cs"
  shows "check_list s k (head_or cs OURNULL) (last_or OURNULL as) (length as) (poolBlocks s div 2 ^ k) =
    Some (OURNULL, length (L k))"
  using L
proof (induction cs arbitrary: as)
  case Nil
  then show ?case by (subst check_list.simps) simp
next
  case (Cons c cs)
  have len: "length as < poolBlocks s div 2 ^ k" using free_list_length [OF ok k] Cons.prems by simp
  note mid = heap_middle [where L = L, OF ok k Cons.prems]
  have c: "c < poolBlocks s" "c + 2 ^ k \<le> poolBlocks s" "c \<noteq> OURNULL"
    using heap_list_bound [OF ok k, of c] Cons.prems by simp_all
  have P: "poolBlocks s < 2 ^ 20" by (rule heap_okD(1) [OF ok])
  have "(c, k) \<in> free_set L" using k Cons.prems by (intro free_setI) simp_all
  from free_cells_clear [OF ok this] have "\<not> testAny (bmap s) c (c + 2 ^ k)" .
  moreover have n: "shl32 1 k = 2 ^ k" "add32 c (2 ^ k) = c + 2 ^ k" "add32 k LEN_OFFSET = k + LEN_OFFSET"
    "shl32 1 (12 + k) = 4096 * 2 ^ k"
    using k c P shl32_bytes [of k] shl32_one [of k] by (simp_all add: add32_small add.commute)
  moreover have "mem s (1024 * c + 4096 * 2 ^ k div 4 - 1) = k + LEN_OFFSET" using mid(4) by (simp only: block_end)
  moreover have "L k = (as @ [c]) @ cs" using Cons.prems by simp
  from Cons.IH [OF this] have "check_list s k (head_or cs OURNULL) c (length as + 1) (poolBlocks s div 2 ^ k) =
      Some (OURNULL, length (L k))" by simp
  ultimately show ?case
    using len mid(1-3,9) c by (subst check_list.simps) (simp add: Let_def)
qed

lemma free_cells_sum:
  assumes ok: "heap_ok s L A M" and "n \<le> numSizes"
  shows "card (\<Union>k < n. list_cells k (L k)) = (\<Sum>k < n. length (L k) * 2 ^ k)"
proof -
  have "card (\<Union>k < n. list_cells k (L k)) = (\<Sum>k < n. card (list_cells k (L k)))"
  proof (rule card_UN_disjoint)
    show "\<forall>k \<in> {..< n}. finite (list_cells k (L k))"
      using list_cells_card(1) heap_separate [OF ok] assms(2) by simp
    show "\<forall>i \<in> {..< n}. \<forall>j \<in> {..< n}. i \<noteq> j \<longrightarrow> list_cells i (L i) \<inter> list_cells j (L j) = {}"
      using heap_lists_disjoint [OF ok] assms(2) by simp
  qed simp
  also have "\<dots> = (\<Sum>k < n. length (L k) * 2 ^ k)"
    using list_cells_card(2) heap_separate [OF ok] assms(2) by (intro sum.cong) simp_all
  finally show ?thesis .
qed

lemma all_cells_lists: "all_cells (free_set L) = (\<Union>k < numSizes. list_cells k (L k))"
  by (auto simp: all_cells_def list_cells_def free_set_def)

lemma check_lists_ok:
  assumes ok: "heap_ok s L A M" and "n \<le> numSizes"
  shows "check_lists s n (map (\<lambda>k. length (L k)) [0..<n]) (\<Sum>k < n. length (L k) * 2 ^ k) =
    Some (map (\<lambda>k. length (L k)) [0..<numSizes], card (all_cells (free_set L)))"
  using assms(2)
proof (induction "numSizes - n" arbitrary: n)
  case 0
  then have "n = 13" by simp
  moreover have "(\<Sum>k < 13. length (L k) * 2 ^ k) = card (all_cells (free_set L))"
    using free_cells_sum [OF ok, of 13] by (simp only: all_cells_lists)
  ultimately show ?case by (subst check_lists.simps) simp
next
  case (Suc d)
  then have n: "n < 13" by simp
  have one: "check_list s n (freeList s ! n) OURNULL 0 (poolBlocks s div 2 ^ n) = Some (OURNULL, length (L n))"
    using check_list_ok [OF ok n, of "[]" "L n"] heap_okD(3) [OF ok n] by simp
  have P: "poolBlocks s < 2 ^ 20" by (rule heap_okD(1) [OF ok])
  have "(\<Sum>k < Suc n. length (L k) * 2 ^ k) \<le> poolBlocks s"
  proof -
    have "(\<Union>k < Suc n. list_cells k (L k)) \<subseteq> all_cells (free_set L)" unfolding all_cells_lists using n by (intro UN_mono) auto
    then have "(\<Union>k < Suc n. list_cells k (L k)) \<subseteq> {..< poolBlocks s}" using heap_cells_bound(1) [OF ok] by auto
    from card_mono [OF _ this] show ?thesis using free_cells_sum [OF ok, of "Suc n"] n by simp
  qed
  then have sums: "(\<Sum>k < n. length (L k) * 2 ^ k) + length (L n) * 2 ^ n < 4294967296" using P by simp
  then have "shl32 (length (L n)) n = length (L n) * 2 ^ n" unfolding shl32_def by simp
  moreover have "add32 (\<Sum>k < n. length (L k) * 2 ^ k) (length (L n) * 2 ^ n) = (\<Sum>k < Suc n. length (L k) * 2 ^ k)"
    using add32_small [OF sums] by simp
  moreover have "d = 13 - Suc n" "Suc n \<le> 13" using Suc.hyps(2) n by simp_all
  note Suc.hyps(1) [OF this]
  ultimately show ?case using n one by (subst check_lists.simps) (simp del: sum.lessThan_Suc)
qed

lemma Check_ok:
  assumes "pool_ok s L A"
  shows "Check s = (kIOReturnSuccess, map (\<lambda>k. length (L k)) [0..<numSizes])"
proof -
  have ok: "heap_ok s L A (all_cells (free_set L \<union> A))" and bytes: "freeBytes s = 4096 * card (all_cells (free_set L))"
    using assms unfolding pool_ok_def by auto
  have "shl32 (card (all_cells (free_set L))) 12 = freeBytes s"
    using heap_cells_bound(3) [OF ok] heap_okD(1) [OF ok] by (simp add: shl32_def bytes)
  then show ?thesis using check_lists_ok [OF ok, of 0] by (simp add: Check_def)
qed

section \<open>Reallocation\<close>

text \<open>What the client writes into its own blocks does not matter to the pool.\<close>

lemma pool_ok_same:
  assumes pool: "pool_ok s L A" and same: "same_in (all_cells (free_set L)) (mem s) (mem t)"
    and t: "freeList t = freeList s" "poolBlocks t = poolBlocks s" "bmap t = bmap s" "freeBytes t = freeBytes s"
  shows "pool_ok t L A"
proof -
  have ok: "heap_ok s L A (all_cells (free_set L \<union> A))" using pool unfolding pool_ok_def by simp
  have "dll (mem t) k OURNULL (L k) OURNULL" if k: "k < numSizes" for k
    by (rule dll_same_list [OF same_in_mono [OF same list_cells_subset [OF k]] heap_okD(4) [OF ok k]])
  then have "lists_ok t L" using heap_okD(2,3,5) [OF ok] t(1) unfolding lists_ok_def by simp
  then show ?thesis using pool t unfolding pool_ok_def heap_ok_def map_ok_def by simp
qed

lemma heap_ok_bits:
  assumes ok: "heap_ok s L A M" and t: "freeList t = freeList s" "mem t = mem s" "poolBlocks t = poolBlocks s"
    "length (bmap t) = length (bmap s)" "\<And>n. n < poolBlocks s \<Longrightarrow> BITTEST (bmap t) n = BITTEST (bmap s) n"
  shows "heap_ok t L A M"
  using ok t unfolding heap_ok_def lists_ok_def map_ok_def by simp

lemma can_bits_class:
  assumes "sz \<le> 4096 * 2 ^ 12" and "k \<le> 12" and "k = 0 \<or> 4096 * 2 ^ (k - 1) < sz"
  shows "\<exists>j. can_bits sz (12 + k) = 12 + j \<and> class_for sz j"
  using assms(2,3)
proof (induction "12 - k" arbitrary: k)
  case 0
  then have "k = 12" by simp
  then show ?case using assms(1) 0 by (subst can_bits.simps) (auto simp: class_for_def)
next
  case (Suc n)
  have k: "k < 12" using Suc.hyps(2) by simp
  have pow: "(2 :: nat) ^ (12 + k) = 4096 * 2 ^ k" by (simp add: power_add)
  show ?case
  proof (cases "4096 * 2 ^ k < sz")
    case True
    then have "can_bits sz (12 + k) = can_bits sz (12 + Suc k)" by (subst can_bits.simps) (simp add: pow)
    then show ?thesis using Suc.hyps(1) [of "Suc k"] Suc.hyps(2) k True by simp
  next
    case False
    then have "can_bits sz (12 + k) = 12 + k" by (subst can_bits.simps) (simp add: pow)
    then show ?thesis using False Suc.prems k by (intro exI [of _ k]) (auto simp: class_for_def)
  qed
qed

text \<open>The outcome of shrinking \<open>(b, k)\<close> to \<open>(b, j)\<close>.\<close>

definition shrunk :: "pool \<Rightarrow> (nat \<Rightarrow> nat list) \<Rightarrow> block set \<Rightarrow> nat \<Rightarrow> nat \<Rightarrow> nat \<Rightarrow> pool \<Rightarrow> (nat \<Rightarrow> nat list) \<Rightarrow> bool" where
  "shrunk s L A b k j t L' \<longleftrightarrow> pool_ok t L' (insert (b, j) (A - {(b, k)})) \<and>
     all_cells (free_set L') = all_cells (free_set L) \<union> (cells (b, k) - cells (b, j)) \<and> kept s t \<and>
     same_in (- (all_cells (free_set L) \<union> (cells (b, k) - cells (b, j)))) (mem s) (mem t) \<and> (coalesced L \<longrightarrow> coalesced L')"

lemma heap_shrink:
  assumes pool: "pool_ok s L A" and c: "(b, k) \<in> A" and j: "j < k"
  shows "heap_ok (s\<lparr>bmap := BITCLEAR (BITSET (bmap s) (b + 2 ^ j - 1)) (b + 2 ^ k - 1)\<rparr>) L (insert (b, j) (A - {(b, k)}))
    (all_cells (free_set L \<union> A))"
proof -
  let ?M = "all_cells (free_set L \<union> A)" and ?m = "bmap s" and ?x = "b + 2 ^ j - 1" and ?y = "b + 2 ^ k - 1"
  have ok: "heap_ok s L A ?M" using pool unfolding pool_ok_def by simp
  note bb = block_bounds [OF ok c]
  have p: "(2 :: nat) ^ j < 2 ^ k" "(2 :: nat) ^ j dvd 2 ^ k" "0 < (2 :: nat) ^ j" using j by (simp_all add: le_imp_power_dvd)
  have "b + 2 ^ j \<le> poolBlocks s" using bb(2) p(1) by linarith
  then have al: "aligned (poolBlocks s) (b, j)" using bb(1) j dvd_trans [OF p(2) bb(7)] unfolding aligned_def by simp
  have sub: "cells (b, j) \<subseteq> cells (b, k)" using j by (intro cells_mono) simp
  note split = pool_split [OF pool c]
  have d: "heap_ok (s\<lparr>bmap := BITCLEAR ?m ?y\<rparr>) L (A - {(b, k)}) ?M" by (rule heap_deallocate [OF ok c]) simp_all
  have both: "heap_ok (s\<lparr>bmap := BITSET (BITCLEAR ?m ?y) ?x\<rparr>) L (insert (b, j) (A - {(b, k)})) ?M"
    by (rule heap_allocate [OF d]) (use al sub split in auto)
  have bits: "BITTEST (BITCLEAR (BITSET ?m ?x) ?y) n = BITTEST (BITSET (BITCLEAR ?m ?y) ?x) n" for n
  proof -
    have "?x < poolBlocks s" "?y < poolBlocks s" "?x \<noteq> ?y" using bb(2) p by linarith+
    then have "?x div 8 < length ?m" "?y div 8 < length ?m" "?x \<noteq> ?y" using heap_okD(9) [OF ok] by simp_all
    then show ?thesis by (cases "n = ?x"; cases "n = ?y") simp_all
  qed
  show ?thesis by (rule heap_ok_bits [OF both]) (use bits in simp_all)
qed

lemma shrink_fills:
  assumes pool: "pool_ok s L A" and c: "(b, k) \<in> A" and j: "j < k"
  shows "\<exists>t L'. toFree (b + 2 ^ j) (b + 2 ^ k) False (s\<lparr>bmap := BITCLEAR (BITSET (bmap s) (b + 2 ^ j - 1)) (b + 2 ^ k - 1)\<rparr>) =
      Some t \<and> shrunk s L A b k j t L'"
proof -
  let ?M = "all_cells (free_set L \<union> A)" and ?A = "insert (b, j) (A - {(b, k)})"
  let ?s = "s\<lparr>bmap := BITCLEAR (BITSET (bmap s) (b + 2 ^ j - 1)) (b + 2 ^ k - 1)\<rparr>"
  have bytes: "freeBytes s = 4096 * card (all_cells (free_set L))" and ok: "heap_ok s L A ?M"
    using pool unfolding pool_ok_def by auto
  note shr = heap_shrink [OF assms] and bb = block_bounds [OF ok c] and split = pool_split [OF pool c]
  have p: "(2 :: nat) ^ j < 2 ^ k" "0 < (2 :: nat) ^ j" using j by simp_all
  have sub: "cells (b, j) \<subseteq> cells (b, k)" using j by (intro cells_mono) simp
  have range: "{b + 2 ^ j ..< b + 2 ^ k} = cells (b, k) - cells (b, j)" by (auto simp: in_cells)
  have U: "all_cells (free_set L \<union> ?A) = all_cells (free_set L \<union> (A - {(b, k)})) \<union> cells (b, j)" by auto
  obtain N t L' where t: "toFree (b + 2 ^ j) (b + 2 ^ k) False ?s = Some t"
    and filled: "filled ?s L ?A ?M (b + 2 ^ j) (b + 2 ^ k) N t L'"
  proof (rule toFree_ok [OF shr])
    show "b + 2 ^ k \<le> poolBlocks ?s" using bb(2) by simp
    show "b + 2 ^ j \<le> b + 2 ^ k" using p by simp
    show "{b + 2 ^ j ..< b + 2 ^ k} \<subseteq> ?M" unfolding range split(2) by blast
    show "{b + 2 ^ j ..< b + 2 ^ k} \<inter> all_cells (free_set L \<union> ?A) = {}" unfolding range U using split(1) by blast
  qed
  have f: "free_set L' = free_set L \<union> N" "all_cells N = cells (b, k) - cells (b, j)" "heap_ok t L' ?A ?M" "kept ?s t"
    "same_in (- (all_cells (free_set L) \<union> (cells (b, k) - cells (b, j)))) (mem ?s) (mem t)"
    "\<forall>(z, i) \<in> N. i = 12 \<or> \<not> fits (b + 2 ^ k) z (Suc i)"
    using filled unfolding filled_def range by simp_all
  have "pool_ok t L' ?A"
  proof (rule pool_ok_final [OF filled])
    show "all_cells (free_set L \<union> ?A) \<union> {b + 2 ^ j ..< b + 2 ^ k} = ?M" unfolding range U split(2) using sub by blast
    show "{b + 2 ^ j ..< b + 2 ^ k} \<inter> all_cells (free_set L) = {}" unfolding range using split(1) by auto
  qed (use bytes p in simp_all)
  moreover have "coalesced L'" if "coalesced L"
  proof (rule coalesced_filled [OF that])
    show "cells (b, k) \<inter> all_cells (free_set L) = {}" using split(1) by auto
    show "all_cells N = {b + 2 ^ j ..< b + 2 ^ k}" using f(2) range by simp
    show "\<forall>(x, j) \<in> N. 2 ^ j dvd x" using heap_okD(6) [OF f(3)] unfolding f(1) aligned_def by auto
  qed (use f(1,6) bb(7) p in simp_all)
  ultimately have "shrunk s L A b k j t L'"
    using f unfolding shrunk_def by (simp add: kept_def)
  then show ?thesis using t by blast
qed

text \<open>A request that fits the block: it is cut down to its class, or left as it is.\<close>

lemma Realloc_fits:
  assumes pool: "pool_ok s L A" and c: "(b, k) \<in> A" and nz: "poolStart s + 4096 * b \<noteq> 0"
    and sz: "sz \<noteq> 0" "sz \<le> 4096 * 2 ^ k"
  shows "\<exists>j t L'. class_for sz j \<and> j \<le> k \<and> Realloc (poolStart s + 4096 * b) sz s =
      Some (kIOReturnSuccess, Some (poolStart s + 4096 * b), t) \<and> (if j = k then t = s \<and> L' = L else shrunk s L A b k j t L')"
proof -
  let ?p = "poolStart s + 4096 * b"
  have ok: "heap_ok s L A (all_cells (free_set L \<union> A))" using pool unfolding pool_ok_def by simp
  note bb = block_bounds [OF ok c] and size = BuddyAllocSize_ok [OF ok c]
  have k12: "(2 :: nat) ^ k \<le> 2 ^ 12" by (rule power_increasing) (use bb(1) in simp_all)
  then have "sz \<le> 4096 * 2 ^ 12" using sz(2) by linarith
  from can_bits_class [OF this, of 0] obtain j where j: "can_bits sz 12 = 12 + j" "class_for sz j" by auto
  have jk: "j \<le> k"
  proof (rule ccontr)
    assume "\<not> j \<le> k"
    then have "(2 :: nat) ^ k \<le> 2 ^ (j - 1)" "j \<noteq> 0" by (auto intro: power_increasing)
    moreover from this j(2) have "4096 * 2 ^ (j - 1) < sz" unfolding class_for_def by simp
    ultimately show False using sz(2) by linarith
  qed
  have pow: "(2 :: nat) ^ (k + 12) = 4096 * 2 ^ k" by (simp add: power_add)
  have start: "Realloc ?p sz s = (if j \<ge> k then Some (kIOReturnSuccess, Some ?p, s) else do {
      let s = s\<lparr>bmap := BITSET (bmap s) (sub32 (add32 b (shl32 1 j)) 1)\<rparr>;
      let s = s\<lparr>bmap := BITCLEAR (bmap s) (sub32 (add32 b (shl32 1 k)) 1)\<rparr>;
      s \<leftarrow> toFree (add32 b (shl32 1 j)) (add32 b (shl32 1 k)) False s;
      Some (kIOReturnSuccess, Some ?p, s)})"
    using sz nz bb(3) by (simp add: Realloc_def size Let_def pow j(1)) auto
  show ?thesis
  proof (cases "j = k")
    case True
    then show ?thesis using j(2) unfolding start by (intro exI [of _ j]) auto
  next
    case False
    then have jk: "j < k" using jk by simp
    have "(2 :: nat) ^ j < 2 ^ k" "0 < (2 :: nat) ^ j" "poolBlocks s < 1048576"
      using jk heap_okD(1) [OF ok] by simp_all
    then have small: "b + 2 ^ j < 4294967296" "1 \<le> b + 2 ^ j" using bb(2) by linarith+
    obtain t L' where t: "toFree (b + 2 ^ j) (b + 2 ^ k) False
        (s\<lparr>bmap := BITCLEAR (BITSET (bmap s) (b + 2 ^ j - 1)) (b + 2 ^ k - 1)\<rparr>) = Some t" "shrunk s L A b k j t L'"
      using shrink_fills [OF pool c jk] by blast
    have j1: "shl32 1 j = 2 ^ j" "add32 b (2 ^ j) = b + 2 ^ j" "sub32 (b + 2 ^ j) 1 = b + 2 ^ j - 1"
      using jk bb(1) shl32_one [of j] add32_small [OF small(1)] sub32_small [OF small(2,1)] by simp_all
    have "Realloc ?p sz s = Some (kIOReturnSuccess, Some ?p, t)"
      unfolding start bb(4-6) j1 Let_def using jk t(1) by simp
    then show ?thesis using j(2) jk t(2) by (intro exI [of _ j] exI [of _ t] exI [of _ L']) simp
  qed
qed

text \<open>A larger request: a new block, the contents copied, the old block freed.\<close>

definition moved :: "pool \<Rightarrow> (nat \<Rightarrow> nat list) \<Rightarrow> block set \<Rightarrow> nat \<Rightarrow> nat \<Rightarrow> nat \<Rightarrow> nat \<Rightarrow> pool \<Rightarrow> (nat \<Rightarrow> nat list) \<Rightarrow> bool" where
  "moved s L A b k d j t L' \<longleftrightarrow> pool_ok t L' (insert (d, j) A - {(b, k)}) \<and> kept s t \<and>
     cells (d, j) \<subseteq> all_cells (free_set L) \<and>
     all_cells (free_set L') = all_cells (free_set L) - cells (d, j) \<union> cells (b, k) \<and>
     (\<forall>i < 1024 * 2 ^ k. mem t (1024 * d + i) = mem s (1024 * b + i)) \<and>
     same_in (- (all_cells (free_set L) \<union> cells (b, k))) (mem s) (mem t) \<and> (coalesced L \<longrightarrow> coalesced L')"

lemma dwords_of_block: "i < 1024 * 2 ^ k \<Longrightarrow> (1024 * b + i) div 1024 \<in> cells (b, k)"
  by (auto simp: in_cells less_mult_imp_div_less)

lemma copy_same:
  assumes "2 ^ k \<le> (2 :: nat) ^ j"
  shows "same_in (- cells (d, j)) (mem s) (mem (memcpy_dwords (1024 * d) src (1024 * 2 ^ k) s))"
  unfolding same_in_def
proof (intro allI impI)
  fix i assume i: "i div 1024 \<in> - cells (d, j)"
  have "\<not> (1024 * d \<le> i \<and> i < 1024 * d + 1024 * 2 ^ k)"
  proof
    assume r: "1024 * d \<le> i \<and> i < 1024 * d + 1024 * 2 ^ k"
    then have "d \<le> i div 1024" "i div 1024 < d + 2 ^ k" by (auto simp: less_eq_div_iff_mult_less_eq div_less_iff_less_mult)
    then show False using i assms by (simp add: in_cells)
  qed
  then show "mem (memcpy_dwords (1024 * d) src (1024 * 2 ^ k) s) i = mem s i" by (auto simp: memcpy_dwords_def)
qed

lemma moved_freed:
  assumes ok: "heap_ok s L A M" and c: "(b, k) \<in> A"
    and t: "pool_ok t L' (insert (d, j) A)" "cells (d, j) \<subseteq> all_cells (free_set L)" "kept s t"
      "all_cells (free_set L') = all_cells (free_set L) - cells (d, j)"
      "same_in (- all_cells (free_set L)) (mem s) (mem t)" "coalesced L \<longrightarrow> coalesced L'"
    and kj: "2 ^ k \<le> (2 :: nat) ^ j"
    and v: "freed (memcpy_dwords (1024 * d) (1024 * b) (1024 * 2 ^ k) t) L' (insert (d, j) A) (b, k) v L''"
  shows "moved s L A b k d j v L''"
proof -
  let ?u = "memcpy_dwords (1024 * d) (1024 * b) (1024 * 2 ^ k) t"
  have f: "pool_ok v L'' (insert (d, j) A - {(b, k)})" "kept ?u v" "coalesced L' \<longrightarrow> coalesced L''"
    "same_in (- (all_cells (free_set L') \<union> cells (b, k))) (mem ?u) (mem v)"
    "all_cells (free_set L'') = all_cells (free_set L) - cells (d, j) \<union> cells (b, k)"
    using v t(4) unfolding freed_def by simp_all
  have "cells (b, k) \<subseteq> all_cells A" using c unfolding all_cells_def by blast
  then have apart: "cells (b, k) \<inter> all_cells (free_set L) = {}" using all_cells_disjoint [OF ok] by blast
  have "mem v (1024 * d + i) = mem s (1024 * b + i)" if i: "i < 1024 * 2 ^ k" for i
  proof -
    have "i < 1024 * 2 ^ j" using i kj by linarith
    then have "(1024 * d + i) div 1024 \<in> cells (d, j)" by (rule dwords_of_block)
    then have "mem v (1024 * d + i) = mem ?u (1024 * d + i)" using f(4) t(2,4) apart unfolding same_in_def by blast
    also have "\<dots> = mem t (1024 * b + i)" using i by (simp add: memcpy_dwords_def)
    also have "\<dots> = mem s (1024 * b + i)"
      using t(5) dwords_of_block [OF i, of b] apart unfolding same_in_def by blast
    finally show ?thesis .
  qed
  moreover have "same_in (- (all_cells (free_set L) \<union> cells (b, k))) (mem s) (mem v)"
  proof (rule same_in_trans, rule same_in_trans)
    let ?C = "- (all_cells (free_set L) \<union> cells (b, k))"
    show "same_in ?C (mem s) (mem t)" by (rule same_in_mono [OF t(5)]) blast
    show "same_in ?C (mem t) (mem ?u)" by (rule same_in_mono [OF copy_same [OF kj]]) (use t(2) in blast)
    show "same_in ?C (mem ?u) (mem v)" by (rule same_in_mono [OF f(4)]) (use t(4) in blast)
  qed
  moreover have "kept s v" using t(3) f(2) by (simp add: kept_def memcpy_dwords_def)
  ultimately show ?thesis using f(1,3,5) t(2,6) unfolding moved_def by blast
qed

lemma Realloc_moves:
  assumes pool: "pool_ok s L A" and c: "(b, k) \<in> A" and nz: "poolStart s \<noteq> 0"
    and sz: "4096 * 2 ^ k < sz" "sz \<le> 4096 * 2 ^ 12"
  shows "(\<exists>j d t L'. class_for sz j \<and> Realloc (poolStart s + 4096 * b) sz s = Some (kIOReturnSuccess, Some (poolStart s + 4096 * d), t) \<and>
      moved s L A b k d j t L') \<or>
    (\<exists>j. class_for sz j \<and> \<not> (\<exists>x \<in> free_set L. j \<le> snd x) \<and>
      Realloc (poolStart s + 4096 * b) sz s = Some (kIOReturnNoMemory, None, s))"
proof -
  let ?p = "poolStart s + 4096 * b"
  have ok: "heap_ok s L A (all_cells (free_set L \<union> A))" using pool unfolding pool_ok_def by simp
  note size = BuddyAllocSize_ok [OF ok c]
  have pow: "(2 :: nat) ^ (k + 12) = 4096 * 2 ^ k" by (simp add: power_add)
  obtain j where j: "class_for sz j" "pool_Malloc sz True s = BuddyMalloc j True s"
    using pool_Malloc_class [OF sz(2)] by metis
  have start: "Realloc ?p sz s = do {
      (error, newPtr, s) \<leftarrow> BuddyMalloc j True s;
      if error \<noteq> kIOReturnSuccess then Some (error, newPtr, s)
      else let
        s = memcpy_dwords ((the newPtr - poolStart s) div 4) ((?p - poolStart s) div 4) (2 ^ (k + 12) div 4) s;
        (error, s) = pool_Free ?p s;
        s = (if error \<noteq> kIOReturnSuccess then snd (pool_Free (the newPtr) s) else s)
      in Some (error, newPtr, s)}"
    using sz nz by (simp add: Realloc_def size Let_def pow j(2))
  have "j < 13" using j(1) by (simp add: class_for_def)
  from BuddyMalloc_cases [OF pool this] show ?thesis
  proof (elim disjE conjE exE)
    fix d t L'
    assume run: "BuddyMalloc j True s = Some (kIOReturnSuccess, Some (poolStart s + 4096 * d), t)"
      and all: "allocated s L A (d, j) t L'"
    have t: "pool_ok t L' (insert (d, j) A)" "cells (d, j) \<subseteq> all_cells (free_set L)" "kept s t"
      "all_cells (free_set L') = all_cells (free_set L) - cells (d, j)"
      "same_in (- all_cells (free_set L)) (mem s) (mem t)" "coalesced L \<longrightarrow> coalesced L'"
      using all unfolding allocated_def by simp_all
    let ?u = "memcpy_dwords (1024 * d) (1024 * b) (1024 * 2 ^ k) t"
    have "sz \<le> 4096 * 2 ^ j" using j(1) by (simp add: class_for_def)
    then have kj: "2 ^ k \<le> (2 :: nat) ^ j" using sz(1) by linarith
    note copy = copy_same [OF kj, of d t "1024 * b"]
    have u: "pool_ok ?u L' (insert (d, j) A)"
      by (rule pool_ok_same [OF t(1) same_in_mono [OF copy]]) (use t(4) in \<open>auto simp: memcpy_dwords_def\<close>)
    have "poolStart ?u = poolStart s" using t(3) by (simp add: memcpy_dwords_def kept_def)
    then obtain v L'' where v: "pool_Free ?p ?u = (kIOReturnSuccess, v)" "freed ?u L' (insert (d, j) A) (b, k) v L''"
      using pool_Free_ok [OF u, of b k] c nz by auto
    have "Realloc ?p sz s = Some (kIOReturnSuccess, Some (poolStart s + 4096 * d), v)"
      using t(3) v(1) unfolding start run kept_def by (simp add: pow Let_def)
    moreover have "moved s L A b k d j v L''"
      by (rule moved_freed [OF ok c t kj v(2)])
    ultimately show ?thesis using j(1) by blast
  qed (use start j(1) in auto)
qed

end
