(* ===== verification/VramPool.thy ===== *)
theory VramPool
  imports BuddyFree
begin

text \<open>
  The video memory as the driver uses it (\<^verbatim>\<open>AC/VMsvga2Accel.cpp\<close>): \<open>setupAllocator\<close> hands the memory
  to the buddy allocator; \<open>VRAMMalloc\<close>, \<open>VRAMRealloc\<close> and \<open>VRAMFree\<close> serve the surfaces.  The locale
  \<open>shared_heap\<close> states what the surfaces rely on, and is interpreted on these calls.
\<close>

section \<open>The driver's calls\<close>

text \<open>
  The part of the \<^verbatim>\<open>VMsvga2Accel\<close> object that these calls use: the kernel mapping of the video
  memory (its address) and the allocator.  Pointers are addresses, 0 the null pointer.
\<close>

record vram =
  kernel_map :: "nat option"
  allocator :: "pool option"

abbreviation (input) SVGA_FB_MAX_TRACEABLE_SIZE :: nat where "SVGA_FB_MAX_TRACEABLE_SIZE \<equiv> 0x1000000"

text \<open>
  \<open>setupAllocator\<close>: \<open>length\<close> is the length of the memory range of the device if it has one, \<open>vram_size\<close>
  what the device reports, \<open>mapping\<close> the address at which the kernel maps it if it does.  \<open>front\<close> is
  \<open>HaveFrontBuffer\<close>; \<open>can_malloc\<close> says whether the system grants the memory for the bit map.  \<open>None\<close> is
  an allocator call that does not return.
\<close>

definition setupAllocator :: "nat option \<Rightarrow> nat \<Rightarrow> nat option \<Rightarrow> bool \<Rightarrow> bool \<Rightarrow> vram \<Rightarrow> (ioreturn \<times> vram) option" where
  "setupAllocator vram_length vram_size mapping front can_malloc v =
    (if kernel_map v \<noteq> None then Some (kIOReturnSuccess, v)
     else case vram_length of None \<Rightarrow> Some (kIOReturnInternalError, v)
     | Some s \<Rightarrow>
         let s = (if vram_size < s then vram_size else s);
             v = v\<lparr>kernel_map := mapping\<rparr>
         in case mapping of None \<Rightarrow> Some (kIOReturnInternalError, v)
         | Some p \<Rightarrow>
             let s = s div 4096 * 4096
             in if p = 0 \<or> s = 0 then Some (kIOReturnNoMemory, v\<lparr>kernel_map := None\<rparr>)
             else let (rc, a) = pool_Init can_malloc p s (the (allocator v)); v = v\<lparr>allocator := Some a\<rparr>
             in if rc \<noteq> kIOReturnSuccess then Some (rc, v\<lparr>kernel_map := None\<rparr>)
             else do {
               (rc, a, reserve, s) \<leftarrow>
                 (if SVGA_FB_MAX_TRACEABLE_SIZE < s then do {
                    (rc, a) \<leftarrow> Release SVGA_FB_MAX_TRACEABLE_SIZE s a;
                    Some (rc, a, 0, SVGA_FB_MAX_TRACEABLE_SIZE)
                  }
                  else Some (rc, a, SVGA_FB_MAX_TRACEABLE_SIZE, s));
               if rc \<noteq> kIOReturnSuccess then Some (rc, v\<lparr>allocator := Some a, kernel_map := None\<rparr>)
               else do {
                 (rc, a) \<leftarrow>
                   (if front then do {
                      (rc, a) \<leftarrow> Release 0 s a;
                      Some (if rc \<noteq> kIOReturnSuccess \<and> reserve = 0 then kIOReturnSuccess else rc, a)
                    }
                    else Some (rc, a));
                 if rc \<noteq> kIOReturnSuccess then Some (rc, v\<lparr>allocator := Some a, kernel_map := None\<rparr>)
                 else Some (rc, v\<lparr>allocator := Some a\<rparr>)
               }
             })"

definition VRAMMalloc :: "nat \<Rightarrow> vram \<Rightarrow> (nat \<times> vram) option" where
  "VRAMMalloc bytes v =
    (case allocator v of None \<Rightarrow> Some (0, v)
     | Some s \<Rightarrow> do {
         (rc, p, s) \<leftarrow> pool_Malloc bytes True s;
         Some (case p of None \<Rightarrow> 0 | Some p \<Rightarrow> p, v\<lparr>allocator := Some s\<rparr>)
       })"

definition VRAMRealloc :: "nat \<Rightarrow> nat \<Rightarrow> vram \<Rightarrow> (nat \<times> vram) option" where
  "VRAMRealloc ptr bytes v =
    (case allocator v of None \<Rightarrow> Some (0, v)
     | Some s \<Rightarrow> do {
         (rc, p, s) \<leftarrow> Realloc ptr bytes s;
         Some (case p of None \<Rightarrow> 0 | Some p \<Rightarrow> p, v\<lparr>allocator := Some s\<rparr>)
       })"

definition VRAMFree :: "nat \<Rightarrow> vram \<Rightarrow> vram" where
  "VRAMFree ptr v =
    (case allocator v of None \<Rightarrow> v
     | Some s \<Rightarrow> (let (rc, s) = pool_Free ptr s in v\<lparr>allocator := Some s\<rparr>))"

section \<open>What the driver holds\<close>

text \<open>\<open>H\<close> maps the addresses the driver holds to the sizes it asked for; \<open>R\<close> are the cells of the pool.\<close>

definition blocks_of :: "nat \<Rightarrow> (nat \<rightharpoonup> nat) \<Rightarrow> block set" where
  "blocks_of a H = {(b, k). \<exists>n. H (a + 4096 * b) = Some n \<and> class_for n k}"

definition vram_inv :: "nat set \<Rightarrow> vram \<Rightarrow> (nat \<rightharpoonup> nat) \<Rightarrow> bool" where
  "vram_inv R v H \<longleftrightarrow> (\<exists>s L. allocator v = Some s \<and> poolStart s \<noteq> 0 \<and>
     (\<forall>p n. H p = Some n \<longrightarrow> n \<le> 4096 * 2 ^ 12 \<and> (\<exists>b. p = poolStart s + 4096 * b)) \<and>
     pool_ok s L (blocks_of (poolStart s) H) \<and> coalesced L \<and>
     all_cells (free_set L \<union> blocks_of (poolStart s) H) = R)"

text \<open>The dword at an address.\<close>

definition vram_read :: "vram \<Rightarrow> nat \<Rightarrow> nat" where
  "vram_read v a = mem (the (allocator v)) ((a - poolStart (the (allocator v))) div 4)"

lemma class_for_unique: "class_for n j \<Longrightarrow> class_for n k \<Longrightarrow> j = k"
proof (rule ccontr)
  have no: False if "class_for n i" "class_for n l" "i < l" for i l
  proof -
    have "(2 :: nat) ^ i \<le> 2 ^ (l - 1)" by (rule power_increasing) (use that(3) in simp_all)
    moreover have "n \<le> 4096 * 2 ^ i" "4096 * 2 ^ (l - 1) < n" using that unfolding class_for_def by auto
    ultimately show False by linarith
  qed
  assume "class_for n j" "class_for n k" "j \<noteq> k"
  then show False using no [of j k] no [of k j] by linarith
qed

lemma class_for_ex: "n \<le> 4096 * 2 ^ 12 \<Longrightarrow> \<exists>k. class_for n k"
  using malloc_bits_ok [of n 0] unfolding class_for_def by auto

lemma blocks_of_add:
  assumes "H (a + 4096 * b) = None" and "class_for n k"
  shows "blocks_of a (H(a + 4096 * b \<mapsto> n)) = insert (b, k) (blocks_of a H)"
  using assms class_for_unique by (auto simp: blocks_of_def split: if_splits)

lemma blocks_of_remove:
  assumes "H (a + 4096 * b) = Some n" and "class_for n k"
  shows "blocks_of a (H(a + 4096 * b := None)) = blocks_of a H - {(b, k)}"
  using assms class_for_unique by (auto simp: blocks_of_def split: if_splits)

lemma vram_inv_block:
  assumes "vram_inv R v H" and "H p = Some n" and "allocator v = Some s"
  obtains b k where "p = poolStart s + 4096 * b" and "class_for n k" and "(b, k) \<in> blocks_of (poolStart s) H"
proof -
  obtain b where b: "p = poolStart s + 4096 * b" "n \<le> 4096 * 2 ^ 12"
    using assms unfolding vram_inv_def by fastforce
  obtain k where k: "class_for n k" using class_for_ex [OF b(2)] by blast
  then have "(b, k) \<in> blocks_of (poolStart s) H" using assms(2) b(1) by (auto simp: blocks_of_def)
  then show ?thesis using that b(1) k by blast
qed

lemma vram_dword:
  assumes "p = poolStart s + 4096 * b" and "class_for n k" and "a \<in> {p ..< p + n}"
  shows "(a - poolStart s) div 4 div 1024 \<in> cells (b, k)"
proof -
  have "n \<le> 4096 * 2 ^ k" using assms(2) by (simp add: class_for_def)
  then have "4096 * b \<le> a - poolStart s" "a - poolStart s < 4096 * (b + 2 ^ k)" using assms by auto
  then have "(a - poolStart s) div 4096 \<in> cells (b, k)"
    unfolding in_cells by (simp add: less_eq_div_iff_mult_less_eq div_less_iff_less_mult mult.commute)
  then show ?thesis by (simp add: div_mult2_eq [symmetric])
qed

text \<open>Held ranges do not overlap.\<close>

lemma vram_separate:
  assumes inv: "vram_inv R v H" and p: "H p = Some n" and q: "H q = Some m" and ne: "p \<noteq> q"
  shows "{p ..< p + n} \<inter> {q ..< q + m} = {}"
proof -
  obtain s L where s: "allocator v = Some s" "pool_ok s L (blocks_of (poolStart s) H)"
    using inv unfolding vram_inv_def by blast
  obtain b k where b: "p = poolStart s + 4096 * b" "class_for n k" "(b, k) \<in> blocks_of (poolStart s) H"
    using vram_inv_block [OF inv p s(1)] by blast
  obtain c j where c: "q = poolStart s + 4096 * c" "class_for m j" "(c, j) \<in> blocks_of (poolStart s) H"
    using vram_inv_block [OF inv q s(1)] by blast
  have "heap_ok s L (blocks_of (poolStart s) H) (all_cells (free_set L \<union> blocks_of (poolStart s) H))"
    using s(2) unfolding pool_ok_def by blast
  from heap_okD(7) [OF this, of "(b, k)" "(c, j)"] have "cells (b, k) \<inter> cells (c, j) = {}"
    using b(1,3) c(1,3) ne by auto
  then show ?thesis using vram_dword [OF b(1,2)] vram_dword [OF c(1,2)] by blast
qed

text \<open>Everything the driver holds, \<open>p\<close> excepted, keeps its contents.\<close>

definition vram_kept :: "nat \<Rightarrow> (nat \<rightharpoonup> nat) \<Rightarrow> vram \<Rightarrow> vram \<Rightarrow> bool" where
  "vram_kept p H v w \<longleftrightarrow> (\<forall>q m a. H q = Some m \<longrightarrow> q \<noteq> p \<longrightarrow> a \<in> {q ..< q + m} \<longrightarrow> vram_read w a = vram_read v a)"

lemma vram_kept_refl [simp]: "vram_kept p H v v"
  by (simp add: vram_kept_def)

lemma vram_kept_same:
  assumes inv: "vram_inv R v H" and s: "allocator v = Some s" "allocator w = Some t" and kept: "kept s t"
    and pool: "pool_ok s L (blocks_of (poolStart s) H)"
    and same: "same_in (- (all_cells (free_set L) \<union> D)) (mem s) (mem t)"
    and D: "\<And>b k. (b, k) \<in> blocks_of (poolStart s) H \<Longrightarrow> poolStart s + 4096 * b \<noteq> p \<Longrightarrow> cells (b, k) \<inter> D = {}"
  shows "vram_kept p H v w"
  unfolding vram_kept_def
proof (intro allI impI)
  fix q m a assume q: "H q = Some m" "q \<noteq> p" "a \<in> {q ..< q + m}"
  obtain b k where b: "q = poolStart s + 4096 * b" "class_for m k" "(b, k) \<in> blocks_of (poolStart s) H"
    using vram_inv_block [OF inv q(1) s(1)] by blast
  have "heap_ok s L (blocks_of (poolStart s) H) (all_cells (free_set L \<union> blocks_of (poolStart s) H))"
    using pool unfolding pool_ok_def by blast
  from all_cells_disjoint [OF this] have "cells (b, k) \<inter> all_cells (free_set L) = {}"
    using b(3) unfolding all_cells_def by blast
  moreover have "cells (b, k) \<inter> D = {}" using D [OF b(3)] q(2) b(1) by simp
  ultimately have "(a - poolStart s) div 4 div 1024 \<in> - (all_cells (free_set L) \<union> D)"
    using vram_dword [OF b(1,2) q(3)] by blast
  then show "vram_read w a = vram_read v a"
    using same s kept unfolding vram_read_def same_in_def kept_def by simp
qed

lemma pool_Malloc_large:
  assumes "4096 * 2 ^ 12 < bytes"
  obtains r where "pool_Malloc bytes True s = Some (r, None, s)" and "r \<noteq> kIOReturnSuccess"
proof -
  have "malloc_bits bytes (4096 * 2 ^ k) k = Inl kIOReturnNoResources \<or> malloc_bits bytes (4096 * 2 ^ k) k = Inr 13"
    if "k \<le> 13" for k
    using that
  proof (induction "13 - k" arbitrary: k)
    case 0
    then show ?case by (subst malloc_bits.simps, subst (2) malloc_bits.simps) simp
  next
    case (Suc n)
    then have k: "k < 13" by simp
    have less: "4096 * 2 ^ k < bytes" using pow_le_12 [OF k] assms by simp
    have next_sz: "4096 * 2 ^ k * 2 mod 2 ^ 64 = (4096 * 2 ^ Suc k :: nat)" using pow_le_12 [OF k] by simp
    have pos: "(4096 * 2 ^ Suc k :: nat) \<noteq> 0" by simp
    have "malloc_bits bytes (4096 * 2 ^ k) k = malloc_bits bytes (4096 * 2 ^ Suc k) (Suc k)"
      using less k pos next_sz by (subst malloc_bits.simps) (simp only: Let_def next_sz if_True not_le [symmetric], simp)
    then show ?case using Suc.hyps(1) [of "Suc k"] Suc.hyps(2) k by simp
  qed
  from this [of 0] have "malloc_bits bytes (2 ^ 12) 0 = Inl kIOReturnNoResources \<or> malloc_bits bytes (2 ^ 12) 0 = Inr 13" by simp
  moreover have "find_list (freeList s) 13 = 13" by (subst find_list.simps) simp
  then have "BuddyMalloc 13 True s = Some (kIOReturnNoMemory, None, s)" by (simp add: BuddyMalloc_def Let_def)
  ultimately show ?thesis using that unfolding pool_Malloc_def by auto
qed

text \<open>The law of \<open>VRAMMalloc\<close>.\<close>

definition alloc_law :: "nat set \<Rightarrow> nat \<Rightarrow> vram \<Rightarrow> (nat \<rightharpoonup> nat) \<Rightarrow> nat \<Rightarrow> vram \<Rightarrow> bool" where
  "alloc_law R n v H p w \<longleftrightarrow> p = 0 \<and> w = v \<or>
     p \<noteq> 0 \<and> H p = None \<and> vram_inv R w (H(p \<mapsto> n)) \<and> vram_kept 0 H v w"

lemma vram_inv_null: "vram_inv R v H \<Longrightarrow> H 0 = None"
proof (rule ccontr)
  assume inv: "vram_inv R v H" and "H 0 \<noteq> None"
  then obtain n where "H 0 = Some n" by blast
  moreover obtain s where "allocator v = Some s" "poolStart s \<noteq> 0" using inv unfolding vram_inv_def by blast
  ultimately show False using vram_inv_block [OF inv] by (metis add_is_0)
qed

lemma vram_invI:
  assumes "allocator w = Some t" and "poolStart t \<noteq> 0" and "pool_ok t L A" and "coalesced L"
    and "all_cells (free_set L \<union> A) = R" and "blocks_of (poolStart t) H = A"
    and "\<And>p n. H p = Some n \<Longrightarrow> n \<le> 4096 * 2 ^ 12 \<and> (\<exists>b. p = poolStart t + 4096 * b)"
  shows "vram_inv R w H"
  using assms unfolding vram_inv_def by blast

lemma new_not_held:
  assumes inv: "vram_inv R v H" and s: "allocator v = Some s" and pool: "pool_ok s L (blocks_of (poolStart s) H)"
    and d: "cells (d, j) \<subseteq> all_cells (free_set L)"
  shows "H (poolStart s + 4096 * d) = None"
proof (rule ccontr)
  assume "H (poolStart s + 4096 * d) \<noteq> None"
  then obtain m where m: "H (poolStart s + 4096 * d) = Some m" by blast
  obtain b i where "poolStart s + 4096 * d = poolStart s + 4096 * b" "(b, i) \<in> blocks_of (poolStart s) H"
    using vram_inv_block [OF inv m s] by blast
  then have "(d, i) \<in> blocks_of (poolStart s) H" by simp
  then have "d \<in> all_cells (blocks_of (poolStart s) H)" using start_in_cells [of d i] unfolding all_cells_def by blast
  moreover have "d \<in> all_cells (free_set L)" using d start_in_cells [of d j] by blast
  moreover have "heap_ok s L (blocks_of (poolStart s) H) (all_cells (free_set L \<union> blocks_of (poolStart s) H))"
    using pool unfolding pool_ok_def by blast
  ultimately show False using all_cells_disjoint by blast
qed

lemma VRAMMalloc_law:
  assumes inv: "vram_inv R v H"
  shows "\<exists>p w. VRAMMalloc n v = Some (p, w) \<and> alloc_law R n v H p w"
proof -
  obtain s L where s: "allocator v = Some s" "poolStart s \<noteq> 0" and co: "coalesced L"
    and H: "\<And>p n. H p = Some n \<Longrightarrow> n \<le> 4096 * 2 ^ 12 \<and> (\<exists>b. p = poolStart s + 4096 * b)"
    and pool: "pool_ok s L (blocks_of (poolStart s) H)"
    and R: "all_cells (free_set L \<union> blocks_of (poolStart s) H) = R"
    using inv unfolding vram_inv_def by blast
  let ?A = "blocks_of (poolStart s) H"
  have same: "v\<lparr>allocator := Some s\<rparr> = v" using s(1) by (cases v) simp
  show ?thesis
  proof (cases "n \<le> 4096 * 2 ^ 12")
    case False
    then obtain r where "pool_Malloc n True s = Some (r, None, s)" using pool_Malloc_large [of n s] by auto
    then show ?thesis using s(1) same by (simp add: VRAMMalloc_def alloc_law_def)
  next
    case True
    obtain k where k: "class_for n k" "pool_Malloc n True s = BuddyMalloc k True s" using pool_Malloc_class [OF True] by metis
    have "k < 13" using k(1) by (simp add: class_for_def)
    from BuddyMalloc_cases [OF pool this] show ?thesis
    proof (elim disjE conjE exE)
      fix b t L'
      assume run: "BuddyMalloc k True s = Some (kIOReturnSuccess, Some (poolStart s + 4096 * b), t)"
        and all: "allocated s L ?A (b, k) t L'"
      let ?p = "poolStart s + 4096 * b" and ?w = "v\<lparr>allocator := Some t\<rparr>"
      have t: "pool_ok t L' (insert (b, k) ?A)" "cells (b, k) \<subseteq> all_cells (free_set L)" "kept s t" "coalesced L'"
        "all_cells (free_set L') = all_cells (free_set L) - cells (b, k)"
        "same_in (- all_cells (free_set L)) (mem s) (mem t)"
        using all co unfolding allocated_def by simp_all
      have new: "H ?p = None" by (rule new_not_held [OF inv s(1) pool t(2)])
      have start: "poolStart t = poolStart s" using t(3) by (simp add: kept_def)
      have "vram_inv R ?w (H(?p \<mapsto> n))"
      proof (rule vram_invI [OF _ _ t(1) t(4)])
        show "all_cells (free_set L' \<union> insert (b, k) ?A) = R"
          using R t(2) unfolding all_cells_simps t(5) by blast
        show "blocks_of (poolStart t) (H(?p \<mapsto> n)) = insert (b, k) ?A"
          unfolding start by (rule blocks_of_add [where H = H, OF new k(1)])
        show "m \<le> 4096 * 2 ^ 12 \<and> (\<exists>b. q = poolStart t + 4096 * b)" if "(H(?p \<mapsto> n)) q = Some m" for q m
          using that H [of q m] True unfolding start by (auto split: if_splits)
      qed (use s(2) start in simp_all)
      moreover have "vram_kept 0 H v ?w"
        by (rule vram_kept_same [OF inv s(1) _ t(3) pool, where D = "{}"]) (use t(6) in simp_all)
      moreover have "VRAMMalloc n v = Some (?p, ?w)" using s(1) by (simp add: VRAMMalloc_def k(2) run)
      ultimately show ?thesis using new s(2) unfolding alloc_law_def by auto
    next
      assume "BuddyMalloc k True s = Some (kIOReturnNoMemory, None, s)"
      then show ?thesis using s(1) same by (simp add: VRAMMalloc_def k(2) alloc_law_def)
    qed
  qed
qed

text \<open>The laws of \<open>VRAMFree\<close> and \<open>VRAMRealloc\<close>.\<close>

lemma vram_inv_pool:
  assumes "vram_inv R v H"
  obtains s L where "allocator v = Some s" and "poolStart s \<noteq> 0" and "coalesced L"
    and "pool_ok s L (blocks_of (poolStart s) H)" and "all_cells (free_set L \<union> blocks_of (poolStart s) H) = R"
    and "\<And>p n. H p = Some n \<Longrightarrow> n \<le> 4096 * 2 ^ 12 \<and> (\<exists>b. p = poolStart s + 4096 * b)"
  using assms unfolding vram_inv_def by blast

lemma pool_apart:
  assumes pool: "pool_ok s L A" and c: "c \<in> A" "d \<in> A" "c \<noteq> d"
  shows "cells c \<inter> cells d = {}"
proof -
  have "heap_ok s L A (all_cells (free_set L \<union> A))" using pool unfolding pool_ok_def by blast
  from heap_okD(7) [OF this, of c d] show ?thesis using c by blast
qed

lemma VRAMFree_null: "VRAMFree 0 v = v"
  by (cases v) (simp add: VRAMFree_def pool_Free_def split: option.split)

lemma freed_law:
  assumes inv: "vram_inv R v H" and p: "H p = Some n" and s: "allocator v = Some s"
  shows "\<exists>t. pool_Free p s = (kIOReturnSuccess, t) \<and> vram_inv R (v\<lparr>allocator := Some t\<rparr>) (H(p := None)) \<and>
    vram_kept p H v (v\<lparr>allocator := Some t\<rparr>)"
proof -
  obtain L where s0: "poolStart s \<noteq> 0" and co: "coalesced L"
    and H: "\<And>p n. H p = Some n \<Longrightarrow> n \<le> 4096 * 2 ^ 12 \<and> (\<exists>b. p = poolStart s + 4096 * b)"
    and pool: "pool_ok s L (blocks_of (poolStart s) H)"
    and R: "all_cells (free_set L \<union> blocks_of (poolStart s) H) = R"
    using vram_inv_pool [OF inv] s by (metis option.inject)
  let ?A = "blocks_of (poolStart s) H"
  obtain b k where b: "p = poolStart s + 4096 * b" "class_for n k" "(b, k) \<in> ?A"
    using vram_inv_block [OF inv p s] by blast
  obtain t L' where t: "pool_Free p s = (kIOReturnSuccess, t)" "freed s L ?A (b, k) t L'"
    using pool_Free_ok [OF pool b(3)] s0 unfolding b(1) by auto
  have f: "pool_ok t L' (?A - {(b, k)})" "coalesced L'" "kept s t"
    "all_cells (free_set L') = all_cells (free_set L) \<union> cells (b, k)"
    "same_in (- (all_cells (free_set L) \<union> cells (b, k))) (mem s) (mem t)"
    using t(2) co unfolding freed_def by simp_all
  have start: "poolStart t = poolStart s" using f(3) by (simp add: kept_def)
  let ?w = "v\<lparr>allocator := Some t\<rparr>"
  have "vram_inv R ?w (H(p := None))"
  proof (rule vram_invI [OF _ _ f(1,2)])
    show "blocks_of (poolStart t) (H(p := None)) = ?A - {(b, k)}"
      unfolding start b(1) by (rule blocks_of_remove [where H = H, OF _ b(2)]) (use p b(1) in simp)
    have "all_cells ?A = all_cells (?A - {(b, k)}) \<union> cells (b, k)" using b(3) unfolding all_cells_def by blast
    then show "all_cells (free_set L' \<union> (?A - {(b, k)})) = R" using R f(4) by auto
    show "m \<le> 4096 * 2 ^ 12 \<and> (\<exists>b. q = poolStart t + 4096 * b)" if "(H(p := None)) q = Some m" for q m
      using that H [of q m] unfolding start by (simp split: if_splits)
  qed (use s0 start in simp_all)
  moreover have "vram_kept p H v ?w"
    by (rule vram_kept_same [OF inv s _ f(3) pool f(5)]) (use pool_apart [OF pool _ b(3)] b(1) in auto)
  ultimately show ?thesis using t(1) by blast
qed

lemma VRAMFree_law:
  assumes inv: "vram_inv R v H" and p: "p = 0 \<or> p \<in> dom H"
  shows "vram_inv R (VRAMFree p v) (H(p := None)) \<and> vram_kept p H v (VRAMFree p v)"
proof (cases "p = 0")
  case True
  then have "H(p := None) = H" using vram_inv_null [OF inv] by auto
  then show ?thesis using inv True by (simp add: VRAMFree_null)
next
  case False
  then obtain n where n: "H p = Some n" using p by auto
  obtain s where s: "allocator v = Some s" using vram_inv_pool [OF inv] by blast
  from freed_law [OF inv n s] show ?thesis using s by (auto simp: VRAMFree_def)
qed

text \<open>The block of \<open>n0\<close> bytes at \<open>p\<close> becomes one of \<open>n\<close> bytes at \<open>q\<close>, keeping what both sizes hold.\<close>

definition resize_law :: "nat set \<Rightarrow> nat \<Rightarrow> nat \<Rightarrow> vram \<Rightarrow> (nat \<rightharpoonup> nat) \<Rightarrow> nat \<Rightarrow> vram \<Rightarrow> bool" where
  "resize_law R p n v H q w \<longleftrightarrow>
     (if n = 0 then q = 0 \<and> vram_inv R w (H(p := None)) \<and> vram_kept p H v w
      else q = 0 \<and> w = v \<or>
        q \<noteq> 0 \<and> (q = p \<or> H q = None) \<and> vram_inv R w (H(p := None, q \<mapsto> n)) \<and> vram_kept p H v w \<and>
        (\<forall>n0. H p = Some n0 \<longrightarrow> (\<forall>i < min n n0. vram_read w (q + i) = vram_read v (p + i))))"

lemma resize_in_place:
  assumes inv: "vram_inv R v H" and p: "H p = Some n0" "p = poolStart s + 4096 * b" "(b, k) \<in> blocks_of (poolStart s) H"
    and s: "allocator v = Some s" and pool: "pool_ok s L (blocks_of (poolStart s) H)" and co: "coalesced L"
    and R: "all_cells (free_set L \<union> blocks_of (poolStart s) H) = R"
    and H: "\<And>p n. H p = Some n \<Longrightarrow> n \<le> 4096 * 2 ^ 12 \<and> (\<exists>b. p = poolStart s + 4096 * b)"
    and k: "class_for n0 k" and j: "class_for n j" "j \<le> k" "n \<noteq> 0"
    and t: "if j = k then t = s \<and> L' = L else shrunk s L (blocks_of (poolStart s) H) b k j t L'" and s0: "poolStart s \<noteq> 0"
  shows "resize_law R p n v H p (v\<lparr>allocator := Some t\<rparr>)"
proof -
  let ?A = "blocks_of (poolStart s) H" and ?w = "v\<lparr>allocator := Some t\<rparr>"
  let ?D = "cells (b, k) - cells (b, j)"
  have sub: "cells (b, j) \<subseteq> cells (b, k)" using j(2) by (rule cells_mono)
  have f: "pool_ok t L' (insert (b, j) (?A - {(b, k)}))" "coalesced L'" "kept s t"
    "all_cells (free_set L') = all_cells (free_set L) \<union> ?D"
    "same_in (- (all_cells (free_set L) \<union> ?D)) (mem s) (mem t)"
    using t pool co p(3) by (cases "j = k"; simp add: shrunk_def insert_absorb)+
  have start: "poolStart t = poolStart s" using f(3) by (simp add: kept_def)
  have ok: "heap_ok s L ?A (all_cells (free_set L \<union> ?A))" using pool unfolding pool_ok_def by blast
  have blocks: "blocks_of (poolStart s) (H(p := None, p \<mapsto> n)) = insert (b, j) (?A - {(b, k)})"
    using blocks_of_add [of "H(p := None)" "poolStart s" b n j] blocks_of_remove [of H "poolStart s" b n0 k] p(1) k j(1)
    unfolding p(2) by simp
  have "vram_inv R ?w (H(p := None, p \<mapsto> n))"
  proof (rule vram_invI [OF _ _ f(1,2)])
    show "blocks_of (poolStart t) (H(p := None, p \<mapsto> n)) = insert (b, j) (?A - {(b, k)})" unfolding start by (rule blocks)
    have "all_cells ?A = all_cells (?A - {(b, k)}) \<union> cells (b, k)" using p(3) unfolding all_cells_def by blast
    then show "all_cells (free_set L' \<union> insert (b, j) (?A - {(b, k)})) = R"
      using R sub unfolding all_cells_simps f(4) by blast
    have "(2 :: nat) ^ j \<le> 2 ^ 12" by (rule power_increasing) (use j(1) in \<open>simp_all add: class_for_def\<close>)
    then have "n \<le> 4096 * 2 ^ 12" using j(1) unfolding class_for_def by linarith
    then show "m \<le> 4096 * 2 ^ 12 \<and> (\<exists>b. q = poolStart t + 4096 * b)" if "(H(p := None, p \<mapsto> n)) q = Some m" for q m
      using that H [of q m] p(2) unfolding start by (auto split: if_splits)
  qed (use s0 start in simp_all)
  moreover have "vram_kept p H v ?w"
    by (rule vram_kept_same [OF inv s _ f(3) pool f(5)]) (use pool_apart [OF pool _ p(3)] p(2) in auto)
  moreover have "vram_read ?w (p + i) = vram_read v (p + i)" if i: "i < n" for i
  proof -
    have "(p + i - poolStart s) div 4 div 1024 \<in> cells (b, j)" by (rule vram_dword [OF p(2) j(1)]) (use i in simp)
    moreover have "cells (b, j) \<inter> all_cells (free_set L) = {}"
      using all_cells_disjoint [OF ok] p(3) sub unfolding all_cells_def by blast
    ultimately have "(p + i - poolStart s) div 4 div 1024 \<in> - (all_cells (free_set L) \<union> ?D)" by blast
    then show ?thesis using f(5) s start unfolding vram_read_def same_in_def by simp
  qed
  ultimately show ?thesis using j(3) s0 p(2) unfolding resize_law_def by simp
qed

lemma resize_moved:
  assumes inv: "vram_inv R v H" and p: "H p = Some n0" "p = poolStart s + 4096 * b" "(b, k) \<in> blocks_of (poolStart s) H"
    and s: "allocator v = Some s" and pool: "pool_ok s L (blocks_of (poolStart s) H)" and co: "coalesced L"
    and R: "all_cells (free_set L \<union> blocks_of (poolStart s) H) = R"
    and H: "\<And>p n. H p = Some n \<Longrightarrow> n \<le> 4096 * 2 ^ 12 \<and> (\<exists>b. p = poolStart s + 4096 * b)"
    and k: "class_for n0 k" and j: "class_for n j" "n \<noteq> 0" "n \<le> 4096 * 2 ^ 12"
    and t: "moved s L (blocks_of (poolStart s) H) b k d j t L'" and s0: "poolStart s \<noteq> 0"
  shows "resize_law R p n v H (poolStart s + 4096 * d) (v\<lparr>allocator := Some t\<rparr>)"
proof -
  let ?A = "blocks_of (poolStart s) H" and ?w = "v\<lparr>allocator := Some t\<rparr>" and ?q = "poolStart s + 4096 * d"
  have f: "pool_ok t L' (insert (d, j) ?A - {(b, k)})" "coalesced L'" "kept s t" "cells (d, j) \<subseteq> all_cells (free_set L)"
    "\<And>i. i < 1024 * 2 ^ k \<Longrightarrow> mem t (1024 * d + i) = mem s (1024 * b + i)"
    "same_in (- (all_cells (free_set L) \<union> cells (b, k))) (mem s) (mem t)"
    "all_cells (free_set L') = all_cells (free_set L) - cells (d, j) \<union> cells (b, k)"
    using t co unfolding moved_def by simp_all
  have start: "poolStart t = poolStart s" using f(3) by (simp add: kept_def)
  have new: "H ?q = None" by (rule new_not_held [OF inv s pool f(4)])
  then have ne: "?q \<noteq> p" using p(1) by auto
  then have ins: "insert (d, j) ?A - {(b, k)} = insert (d, j) (?A - {(b, k)})" using p(2) by auto
  have "blocks_of (poolStart s) (H(p := None, ?q \<mapsto> n)) = insert (d, j) (?A - {(b, k)})"
    using blocks_of_add [of "H(p := None)" "poolStart s" d n j] blocks_of_remove [of H "poolStart s" b n0 k] p(1) k j(1) new
    unfolding p(2) by simp
  with ins have blocks: "blocks_of (poolStart t) (H(p := None, ?q \<mapsto> n)) = insert (d, j) ?A - {(b, k)}"
    unfolding start by simp
  have "vram_inv R ?w (H(p := None, ?q \<mapsto> n))"
  proof (rule vram_invI [OF _ _ f(1,2) _ blocks])
    show "m \<le> 4096 * 2 ^ 12 \<and> (\<exists>b. x = poolStart t + 4096 * b)" if "(H(p := None, ?q \<mapsto> n)) x = Some m" for x m
      using that H [of x m] j(3) unfolding start by (auto split: if_splits)
    have "all_cells ?A = all_cells (?A - {(b, k)}) \<union> cells (b, k)" using p(3) unfolding all_cells_def by blast
    then show "all_cells (free_set L' \<union> (insert (d, j) ?A - {(b, k)})) = R"
      using R f(4) unfolding ins all_cells_simps f(7) by blast
  qed (use s0 start in simp_all)
  moreover have "vram_kept p H v ?w"
    by (rule vram_kept_same [OF inv s _ f(3) pool f(6)]) (use pool_apart [OF pool _ p(3)] p(2) in auto)
  moreover have "vram_read ?w (?q + i) = vram_read v (p + i)" if i: "i < n0" for i
  proof -
    have "n0 \<le> 4096 * 2 ^ k" using k by (simp add: class_for_def)
    then have "i div 4 < 1024 * 2 ^ k" using i by (simp add: div_less_iff_less_mult)
    then have "mem t (1024 * d + i div 4) = mem s (1024 * b + i div 4)" by (rule f(5))
    moreover have "(4096 * x + i) div 4 = 1024 * x + i div 4" for x by simp
    ultimately show ?thesis using s start p(2) unfolding vram_read_def by simp
  qed
  ultimately show ?thesis using j(2) s0 p(1,2) new unfolding resize_law_def by simp
qed

lemma VRAMRealloc_law:
  assumes inv: "vram_inv R v H" and p: "p = 0 \<or> p \<in> dom H"
  shows "\<exists>q w. VRAMRealloc p n v = Some (q, w) \<and> resize_law R p n v H q w"
proof -
  obtain s L where s: "allocator v = Some s" "poolStart s \<noteq> 0" and co: "coalesced L"
    and pool: "pool_ok s L (blocks_of (poolStart s) H)" and R: "all_cells (free_set L \<union> blocks_of (poolStart s) H) = R"
    and H: "\<And>p n. H p = Some n \<Longrightarrow> n \<le> 4096 * 2 ^ 12 \<and> (\<exists>b. p = poolStart s + 4096 * b)"
    using vram_inv_pool [OF inv] by metis
  have null: "H 0 = None" by (rule vram_inv_null [OF inv])
  have same: "v\<lparr>allocator := Some s\<rparr> = v" using s(1) by (cases v) simp
  consider "n = 0" | "n \<noteq> 0" "p = 0" | n0 where "n \<noteq> 0" "p \<noteq> 0" "H p = Some n0" using p by auto
  then show ?thesis
  proof cases
    case 1
    have "VRAMRealloc p n v = Some (0, VRAMFree p v)"
      using s(1) by (simp add: 1 VRAMRealloc_def VRAMFree_def Realloc_def split: prod.split)
    then show ?thesis using VRAMFree_law [OF inv p] 1 by (simp add: resize_law_def)
  next
    case 2
    have "VRAMRealloc p n v = VRAMMalloc n v" using 2 s(1) by (simp add: VRAMRealloc_def VRAMMalloc_def Realloc_def)
    moreover obtain q w where "VRAMMalloc n v = Some (q, w)" "alloc_law R n v H q w" using VRAMMalloc_law [OF inv] by blast
    moreover from this(2) have "resize_law R p n v H q w"
      using 2 null by (auto simp: alloc_law_def resize_law_def fun_upd_idem)
    ultimately show ?thesis by metis
  next
    case 3
    obtain b k where b: "p = poolStart s + 4096 * b" "class_for n0 k" "(b, k) \<in> blocks_of (poolStart s) H"
      using vram_inv_block [OF inv 3(3) s(1)] by blast
    have ok: "heap_ok s L (blocks_of (poolStart s) H) (all_cells (free_set L \<union> blocks_of (poolStart s) H))"
      using pool unfolding pool_ok_def by blast
    have run: "VRAMRealloc p n v = Some (q, v\<lparr>allocator := Some t\<rparr>)"
      if "Realloc p n s = Some (r, a, t)" "q = (case a of None \<Rightarrow> 0 | Some q \<Rightarrow> q)" for q r a t
      using that s(1) by (simp add: VRAMRealloc_def)
    consider "n \<le> 4096 * 2 ^ k" | "4096 * 2 ^ k < n" "n \<le> 4096 * 2 ^ 12" | "4096 * 2 ^ 12 < n" by linarith
    then show ?thesis
    proof cases
      case small: 1
      obtain j t L' where "class_for n j" "j \<le> k" "Realloc p n s = Some (kIOReturnSuccess, Some p, t)"
        "if j = k then t = s \<and> L' = L else shrunk s L (blocks_of (poolStart s) H) b k j t L'"
        using Realloc_fits [OF pool b(3) _ 3(1) small] 3(2) unfolding b(1) by blast
      then show ?thesis
        using run resize_in_place [OF inv 3(3) b(1,3) s(1) pool co R H b(2) _ _ 3(1) _ s(2)] by (metis option.simps(5))
    next
      case grow: 2
      from Realloc_moves [OF pool b(3) s(2) grow] show ?thesis
      proof (elim disjE exE conjE)
        fix j d t L'
        assume "class_for n j" "Realloc (poolStart s + 4096 * b) n s = Some (kIOReturnSuccess, Some (poolStart s + 4096 * d), t)"
          "moved s L (blocks_of (poolStart s) H) b k d j t L'"
        then show ?thesis
          using run resize_moved [OF inv 3(3) b(1,3) s(1) pool co R H b(2) _ 3(1) grow(2) _ s(2)] unfolding b(1)
          by (metis option.simps(5))
      next
        assume "Realloc (poolStart s + 4096 * b) n s = Some (kIOReturnNoMemory, None, s)"
        then have "VRAMRealloc p n v = Some (0, v)" using run [of kIOReturnNoMemory None s 0] same unfolding b(1) by simp
        then show ?thesis using 3(1) by (simp add: resize_law_def)
      qed
    next
      case large: 3
      obtain r where r: "pool_Malloc n True s = Some (r, None, s)" "r \<noteq> kIOReturnSuccess" using pool_Malloc_large [OF large] .
      have "k < 13" using b(2) by (simp add: class_for_def)
      then have "2 ^ (k + 12) < n" using large pow_le_12 [of k] by (simp add: power_add)
      then have "Realloc p n s = Some (r, None, s)"
        using 3 r BuddyAllocSize_ok [OF ok b(3)] unfolding b(1) by (simp add: Realloc_def Let_def)
      then have "VRAMRealloc p n v = Some (0, v)" using run [of r None s 0] same by simp
      then show ?thesis using 3(1) by (simp add: resize_law_def)
    qed
  qed
qed

section \<open>Setting up\<close>

lemma vram_inv_initial:
  assumes "pool_ok a L {}" and "coalesced L" and "poolStart a \<noteq> 0" and "allocator w = Some a" and "all_cells (free_set L) = R"
  shows "vram_inv R w Map.empty"
  using assms unfolding vram_inv_def by (auto simp: blocks_of_def)

lemma setupAllocator_ok:
  assumes v: "kernel_map v = None" "allocator v = Some a0"
    and p: "p \<noteq> 0" "p mod 4096 = 0" and size: "blocks = min len vram_size div 4096" "blocks \<noteq> 0" "blocks < 2 ^ 20"
  shows "\<exists>w. setupAllocator (Some len) vram_size (Some p) front True v = Some (kIOReturnSuccess, w) \<and> kernel_map w = Some p \<and>
    vram_inv {(if front then 0 else 4096) ..< blocks} w Map.empty"
proof -
  let ?L = "\<lambda>_ :: nat. [] :: nat list"
  have empty: "free_set ?L = {}" "coalesced ?L" by (simp_all add: free_set_def coalesced_def)
  have s: "(if vram_size < len then vram_size else len) = min len vram_size" by (simp add: min_def)
  have bytes: "blocks * 4096 < 2 ^ 32" using size(3) by simp
  obtain a where a: "pool_Init True p (blocks * 4096) a0 = (kIOReturnSuccess, a)" "pool_ok a ?L {}" "poolStart a = p"
    "poolBlocks a = blocks"
    by (rule pool_Init_ok [OF p(2) bytes, of a0]) auto
  have start: "setupAllocator (Some len) vram_size (Some p) front True v = (let b = a in do {
      (rc, a, reserve, s) \<leftarrow>
        (if 4096 < blocks then do {
           (rc, a) \<leftarrow> Release (4096 * 4096) (4096 * blocks) a;
           Some (rc, a, 0, 4096 * 4096)
         }
         else Some (kIOReturnSuccess, a, SVGA_FB_MAX_TRACEABLE_SIZE, 4096 * blocks));
      if rc \<noteq> kIOReturnSuccess then Some (rc, v\<lparr>kernel_map := Some p, allocator := Some b, allocator := Some a, kernel_map := None\<rparr>)
      else do {
        (rc, a) \<leftarrow>
          (if front then do {
             (rc, a) \<leftarrow> Release (0) s a;
             Some (if rc \<noteq> kIOReturnSuccess \<and> reserve = 0 then kIOReturnSuccess else rc, a)
           }
           else Some (rc, a));
        if rc \<noteq> kIOReturnSuccess then Some (rc, v\<lparr>kernel_map := Some p, allocator := Some b, allocator := Some a, kernel_map := None\<rparr>)
        else Some (rc, v\<lparr>kernel_map := Some p, allocator := Some b, allocator := Some a\<rparr>)
      }})"
    using v p size(2) a(1) unfolding setupAllocator_def option.case s Let_def size(1) [symmetric]
    by (simp add: mult.commute Let_def)
  show ?thesis
  proof (cases "4096 < blocks")
    case large: True
    obtain t L where t: "Release (4096 * 4096) (4096 * blocks) a = Some (kIOReturnSuccess, t)" "released a ?L {} 4096 blocks t L"
      using Release_ok [OF a(2), of 4096 blocks] large a(4) empty(1) by auto
    then have L: "pool_ok t L {}" "all_cells (free_set L) = {4096 ..< blocks}" "coalesced L" "kept a t"
      using empty unfolding released_def by simp_all
    show ?thesis
    proof (cases front)
      case False
      have "vram_inv {4096 ..< blocks} (v\<lparr>kernel_map := Some p, allocator := Some t\<rparr>) Map.empty"
        by (rule vram_inv_initial [OF L(1,3) _ _ L(2)]) (use L(4) a(3) p in \<open>simp_all add: kept_def\<close>)
      then show ?thesis using False large t(1) unfolding start by (simp add: Let_def)
    next
      case True
      have "\<exists>u K. Release 0 (4096 * 4096) t = Some (kIOReturnSuccess, u) \<and> released t L {} 0 4096 u K"
        using Release_ok [OF L(1), of 0 4096] large a(4) L(2,4) by (auto simp: kept_def)
      then obtain u K where u: "Release (0) (4096 * 4096) t = Some (kIOReturnSuccess, u)" "released t L {} 0 4096 u K" by blast
      then have K: "pool_ok u K {}" "coalesced K" "kept t u" "all_cells (free_set K) = {4096 ..< blocks} \<union> {0 ..< 4096}"
        using L(2,3) unfolding released_def by simp_all
      have "vram_inv {0 ..< blocks} (v\<lparr>kernel_map := Some p, allocator := Some u\<rparr>) Map.empty"
      proof (rule vram_inv_initial [OF K(1,2)])
        show "poolStart u \<noteq> 0" using K(3) L(4) a(3) p by (simp add: kept_def)
        show "all_cells (free_set K) = {0 ..< blocks}" unfolding K(4) using large by auto
      qed simp
      then show ?thesis using True large t(1) u(1) unfolding start by (simp add: Let_def)
    qed
  next
    case small: False
    show ?thesis
    proof (cases front)
      case False
      have "vram_inv {4096 ..< blocks} (v\<lparr>kernel_map := Some p, allocator := Some a\<rparr>) Map.empty"
        by (rule vram_inv_initial [OF a(2) empty(2)]) (use small a(3) p empty in simp_all)
      then show ?thesis using False small unfolding start by (simp add: Let_def)
    next
      case True
      have "\<exists>u K. Release (0) (4096 * blocks) a = Some (kIOReturnSuccess, u) \<and> released a ?L {} 0 blocks u K"
        using Release_ok [OF a(2), of 0 blocks] size(2) a(4) empty by simp
      then obtain u K where u: "Release (0) (4096 * blocks) a = Some (kIOReturnSuccess, u)" "released a ?L {} 0 blocks u K" by blast
      then have K: "pool_ok u K {}" "coalesced K" "kept a u" "all_cells (free_set K) = {0 ..< blocks}"
        using empty unfolding released_def by simp_all
      have "vram_inv {0 ..< blocks} (v\<lparr>kernel_map := Some p, allocator := Some u\<rparr>) Map.empty"
        by (rule vram_inv_initial [OF K(1,2)]) (use K(3,4) a(3) p in \<open>auto simp: kept_def\<close>)
      then show ?thesis using True small u(1) unfolding start by (simp add: Let_def)
    qed
  qed
qed

section \<open>Clients that share a heap\<close>

text \<open>
  The interface the surfaces use: each holds at most one block of the shared heap, resizes it and
  releases it.  \<open>H\<close> maps addresses to sizes; 0 is the null pointer.
\<close>

locale shared_heap =
  fixes inv :: "'s \<Rightarrow> (nat \<rightharpoonup> nat) \<Rightarrow> bool"
    and resize :: "nat \<Rightarrow> nat \<Rightarrow> 's \<Rightarrow> (nat \<times> 's) option"
    and release :: "nat \<Rightarrow> 's \<Rightarrow> 's"
    and contents :: "'s \<Rightarrow> nat \<Rightarrow> nat"
  assumes null: "inv s H \<Longrightarrow> H 0 = None"
    and separate: "inv s H \<Longrightarrow> H p = Some n \<Longrightarrow> H q = Some m \<Longrightarrow> p \<noteq> q \<Longrightarrow> {p ..< p + n} \<inter> {q ..< q + m} = {}"
    and resize: "inv s H \<Longrightarrow> p = 0 \<or> p \<in> dom H \<Longrightarrow> \<exists>q t. resize p n s = Some (q, t) \<and>
      (q = 0 \<and> (inv t H \<or> inv t (H(p := None))) \<or> q \<noteq> 0 \<and> (q = p \<or> H q = None) \<and> inv t (H(p := None, q \<mapsto> n))) \<and>
      (\<forall>x m a. H x = Some m \<longrightarrow> x \<noteq> p \<longrightarrow> a \<in> {x ..< x + m} \<longrightarrow> contents t a = contents s a)"
    and release: "inv s H \<Longrightarrow> p = 0 \<or> p \<in> dom H \<Longrightarrow> inv (release p s) (H(p := None)) \<and>
      (\<forall>x m a. H x = Some m \<longrightarrow> x \<noteq> p \<longrightarrow> a \<in> {x ..< x + m} \<longrightarrow> contents (release p s) a = contents s a)"

text \<open>
  Requests of the clients, numbered \<open>i\<close>; the table holds each client's pointer and size.
\<close>

datatype backing_request = Resize_backing nat nat | Release_backing nat

fun client_of :: "backing_request \<Rightarrow> nat" where
  "client_of (Resize_backing i n) = i"
| "client_of (Release_backing i) = i"

fun serve_backings :: "(nat \<Rightarrow> nat \<Rightarrow> 's \<Rightarrow> (nat \<times> 's) option) \<Rightarrow> (nat \<Rightarrow> 's \<Rightarrow> 's) \<Rightarrow> backing_request list \<Rightarrow>
    's \<Rightarrow> (nat \<Rightarrow> nat \<times> nat) \<Rightarrow> ('s \<times> (nat \<Rightarrow> nat \<times> nat)) option" where
  "serve_backings rs rl [] s T = Some (s, T)"
| "serve_backings rs rl (Resize_backing i n # r) s T =
    do { (q, s) \<leftarrow> rs (fst (T i)) n s; serve_backings rs rl r s (T(i := (q, n))) }"
| "serve_backings rs rl (Release_backing i # r) s T =
    serve_backings rs rl r (rl (fst (T i)) s) (T(i := (0, 0)))"

text \<open>Each client's block is held with the client's size, and no two clients have the same block.\<close>

definition table_ok :: "(nat \<Rightarrow> nat \<times> nat) \<Rightarrow> (nat \<rightharpoonup> nat) \<Rightarrow> bool" where
  "table_ok T H \<longleftrightarrow> (\<forall>i. fst (T i) = 0 \<or> H (fst (T i)) = Some (snd (T i))) \<and>
     (\<forall>i j. i \<noteq> j \<longrightarrow> fst (T i) \<noteq> 0 \<longrightarrow> fst (T i) \<noteq> fst (T j))"

lemma table_okD:
  "table_ok T H \<Longrightarrow> fst (T i) = 0 \<or> H (fst (T i)) = Some (snd (T i))"
  "table_ok T H \<Longrightarrow> i \<noteq> j \<Longrightarrow> fst (T i) \<noteq> 0 \<Longrightarrow> fst (T i) \<noteq> fst (T j)"
  by (simp_all add: table_ok_def)

lemma table_ok_step:
  assumes ok: "table_ok T H" and step: "fst q = 0 \<and> (H' = H \<or> H' = H(fst (T i) := None)) \<or>
    fst q \<noteq> 0 \<and> (fst q = fst (T i) \<or> H (fst q) = None) \<and> H' = H(fst (T i) := None, fst q \<mapsto> snd q)"
  shows "table_ok (T(i := q)) H'"
  unfolding table_ok_def
proof (intro conjI allI impI)
  have others: "H' (fst (T j)) = Some (snd (T j))" "fst (T j) \<noteq> fst (T i)" "fst (T j) \<noteq> fst q"
    if "j \<noteq> i" "fst (T j) \<noteq> 0" for j
  proof -
    have j: "H (fst (T j)) = Some (snd (T j))" using table_okD(1) [OF ok] that(2) by metis
    show ne: "fst (T j) \<noteq> fst (T i)" using table_okD(2) [OF ok that] .
    then show neq: "fst (T j) \<noteq> fst q" using step that(2) j by (metis option.distinct(1))
    show "H' (fst (T j)) = Some (snd (T j))" using step ne neq j by auto
  qed
  show "fst ((T(i := q)) j) = 0 \<or> H' (fst ((T(i := q)) j)) = Some (snd ((T(i := q)) j))" for j
    using step others [of j] by (cases "j = i") auto
  fix k j :: nat
  assume "k \<noteq> j" "fst ((T(i := q)) k) \<noteq> 0"
  then show "fst ((T(i := q)) k) \<noteq> fst ((T(i := q)) j)"
    using others [of j] others [of k] table_okD(2) [OF ok, of k j] by (cases "k = i"; cases "j = i") auto
qed

context shared_heap begin

text \<open>Requests of other clients neither move nor change a client's block.\<close>

lemma serve_step:
  assumes inv: "inv s H" and ok: "table_ok T H"
  shows "\<exists>q t H'. serve_backings resize release (x # r) s T = serve_backings resize release r t (T(client_of x := q)) \<and>
      inv t H' \<and> table_ok (T(client_of x := q)) H' \<and>
      (\<forall>y m. H y = Some m \<longrightarrow> y \<noteq> fst (T (client_of x)) \<longrightarrow> H' y = Some m \<and> (\<forall>a \<in> {y ..< y + m}. contents t a = contents s a))"
proof (cases x)
  case (Resize_backing i n)
  have "fst (T i) = 0 \<or> fst (T i) \<in> dom H" using table_okD(1) [OF ok, of i] by auto
  from resize [OF inv this, of n] obtain q t where q: "resize (fst (T i)) n s = Some (q, t)"
    and alt: "q = 0 \<and> (inv t H \<or> inv t (H(fst (T i) := None))) \<or>
      q \<noteq> 0 \<and> (q = fst (T i) \<or> H q = None) \<and> inv t (H(fst (T i) := None, q \<mapsto> n))"
    and same: "\<forall>x m a. H x = Some m \<longrightarrow> x \<noteq> fst (T i) \<longrightarrow> a \<in> {x ..< x + m} \<longrightarrow> contents t a = contents s a"
    by blast
  have run: "serve_backings resize release (x # r) s T = serve_backings resize release r t (T(i := (q, n)))"
    using q by (simp add: Resize_backing)
  have i: "client_of x = i" by (simp add: Resize_backing)
  from alt obtain H' where inv': "inv t H'" and H': "fst (q, n) = 0 \<and> (H' = H \<or> H' = H(fst (T i) := None)) \<or>
      fst (q, n) \<noteq> 0 \<and> (fst (q, n) = fst (T i) \<or> H (fst (q, n)) = None) \<and> H' = H(fst (T i) := None, fst (q, n) \<mapsto> snd (q, n))"
    by auto
  have kept: "\<forall>y m. H y = Some m \<longrightarrow> y \<noteq> fst (T i) \<longrightarrow> H' y = Some m \<and> (\<forall>a \<in> {y ..< y + m}. contents t a = contents s a)"
    using H' same by (auto simp: fun_upd_def)
  show ?thesis unfolding i
    by (rule exI [of _ "(q, n)"], rule exI [of _ t], rule exI [of _ H']) (intro conjI run inv' table_ok_step [OF ok H'] kept)
next
  case (Release_backing i)
  have "fst (T i) = 0 \<or> fst (T i) \<in> dom H" using table_okD(1) [OF ok, of i] by auto
  from release [OF inv this]
  have H': "inv (release (fst (T i)) s) (H(fst (T i) := None))"
    and same: "\<forall>x m a. H x = Some m \<longrightarrow> x \<noteq> fst (T i) \<longrightarrow> a \<in> {x ..< x + m} \<longrightarrow> contents (release (fst (T i)) s) a = contents s a"
    by blast+
  have run: "serve_backings resize release (x # r) s T = serve_backings resize release r (release (fst (T i)) s) (T(i := (0, 0)))"
    and i: "client_of x = i"
    by (simp_all add: Release_backing)
  have kept: "\<forall>y m. H y = Some m \<longrightarrow> y \<noteq> fst (T i) \<longrightarrow>
      (H(fst (T i) := None)) y = Some m \<and> (\<forall>a \<in> {y ..< y + m}. contents (release (fst (T i)) s) a = contents s a)"
    using same by auto
  have "table_ok (T(i := (0, 0))) (H(fst (T i) := None))" by (rule table_ok_step [OF ok]) simp
  then show ?thesis unfolding i
    by (intro exI [of _ "(0, 0)"] exI [of _ "release (fst (T i)) s"] exI [of _ "H(fst (T i) := None)"] conjI run H' kept)
qed

lemma serve_isolates:
  assumes "inv s H" and "table_ok T H"
  shows "\<exists>t U K. serve_backings resize release r s T = Some (t, U) \<and> inv t K \<and> table_ok U K \<and>
    (\<forall>i. i \<notin> client_of ` set r \<longrightarrow> fst (T i) \<noteq> 0 \<longrightarrow> U i = T i \<and>
      (\<forall>a \<in> {fst (T i) ..< fst (T i) + snd (T i)}. contents t a = contents s a))"
  using assms
proof (induction r arbitrary: s T H)
  case Nil
  then show ?case by auto
next
  case (Cons x r)
  obtain q t H' where run: "serve_backings resize release (x # r) s T = serve_backings resize release r t (T(client_of x := q))"
    and inv: "inv t H'" and ok: "table_ok (T(client_of x := q)) H'"
    and kept: "\<And>y m. H y = Some m \<Longrightarrow> y \<noteq> fst (T (client_of x)) \<Longrightarrow>
      H' y = Some m \<and> (\<forall>a \<in> {y ..< y + m}. contents t a = contents s a)"
    using serve_step [OF Cons.prems] by metis
  from Cons.IH [OF inv ok] obtain u U K where u: "serve_backings resize release r t (T(client_of x := q)) = Some (u, U)"
      "inv u K" "table_ok U K"
    and keep: "\<And>i. i \<notin> client_of ` set r \<Longrightarrow> fst ((T(client_of x := q)) i) \<noteq> 0 \<Longrightarrow> U i = (T(client_of x := q)) i \<and>
      (\<forall>a \<in> {fst ((T(client_of x := q)) i) ..< fst ((T(client_of x := q)) i) + snd ((T(client_of x := q)) i)}.
        contents u a = contents t a)"
    by metis
  have "U i = T i \<and> (\<forall>a \<in> {fst (T i) ..< fst (T i) + snd (T i)}. contents u a = contents s a)"
    if i: "i \<notin> client_of ` set (x # r)" "fst (T i) \<noteq> 0" for i
  proof -
    have "fst (T i) \<noteq> fst (T (client_of x))" using table_okD(2) [OF Cons.prems(2), of i] i by auto
    then show ?thesis using keep [of i] i kept table_okD(1) [OF Cons.prems(2), of i] by auto
  qed
  then show ?case using run u by (intro exI conjI) auto
qed

lemma clients_separate:
  assumes "inv s H" and "table_ok T H" and "i \<noteq> j" and "fst (T i) \<noteq> 0" and "fst (T j) \<noteq> 0"
  shows "{fst (T i) ..< fst (T i) + snd (T i)} \<inter> {fst (T j) ..< fst (T j) + snd (T j)} = {}"
  using separate [OF assms(1)] table_okD [OF assms(2)] assms(3-5) by metis

end

interpretation video_memory: shared_heap "vram_inv R" VRAMRealloc VRAMFree vram_read for R
proof unfold_locales
  fix s H p n q m
  show "vram_inv R s H \<Longrightarrow> H 0 = None" by (rule vram_inv_null)
  show "vram_inv R s H \<Longrightarrow> H p = Some n \<Longrightarrow> H q = Some m \<Longrightarrow> p \<noteq> q \<Longrightarrow> {p ..< p + n} \<inter> {q ..< q + m} = {}"
    by (rule vram_separate)
  show "\<exists>q t. VRAMRealloc p n s = Some (q, t) \<and>
      (q = 0 \<and> (vram_inv R t H \<or> vram_inv R t (H(p := None))) \<or>
       q \<noteq> 0 \<and> (q = p \<or> H q = None) \<and> vram_inv R t (H(p := None, q \<mapsto> n))) \<and>
      (\<forall>x m a. H x = Some m \<longrightarrow> x \<noteq> p \<longrightarrow> a \<in> {x ..< x + m} \<longrightarrow> vram_read t a = vram_read s a)"
    if hyp: "vram_inv R s H" "p = 0 \<or> p \<in> dom H"
  proof -
    obtain q w where "VRAMRealloc p n s = Some (q, w)" "resize_law R p n s H q w" using VRAMRealloc_law [OF hyp] by blast
    then show ?thesis using hyp(1) unfolding resize_law_def vram_kept_def by (auto split: if_splits)
  qed
  show "vram_inv R (VRAMFree p s) (H(p := None)) \<and>
      (\<forall>x m a. H x = Some m \<longrightarrow> x \<noteq> p \<longrightarrow> a \<in> {x ..< x + m} \<longrightarrow> vram_read (VRAMFree p s) a = vram_read s a)"
    if "vram_inv R s H" "p = 0 \<or> p \<in> dom H"
    using VRAMFree_law [OF that] unfolding vram_kept_def by blast
qed

section \<open>Properties\<close>

text \<open>A concrete set-up for the witnesses: sixteen cells at address \<open>2 ^ 16\<close>, all handed to the pool.\<close>

definition sample_pool :: pool where
  "sample_pool = \<lparr>poolStart = 0, poolBlocks = 0, freeList = [], has_map = False, bmap = [], freeBytes = 0, mem = \<lambda>_. 0\<rparr>"

definition sample_vram :: vram where
  "sample_vram = \<lparr>kernel_map = None, allocator = Some sample_pool\<rparr>"

lemma sample_fields: "kernel_map sample_vram = None" "allocator sample_vram = Some sample_pool"
  by (simp_all add: sample_vram_def)

lemma sample_started:
  obtains w where "setupAllocator (Some 65536) 65536 (Some 65536) True True sample_vram = Some (kIOReturnSuccess, w)"
    and "vram_inv {0 ..< 16} w Map.empty"
proof -
  have "\<exists>w. setupAllocator (Some 65536) 65536 (Some 65536) True True sample_vram = Some (kIOReturnSuccess, w) \<and>
      kernel_map w = Some 65536 \<and> vram_inv {(if True then 0 else 4096) ..< 16} w Map.empty"
    by (rule setupAllocator_ok [OF sample_fields]) simp_all
  then show ?thesis using that by (simp only: if_True) blast
qed

lemma table_ok_start: "table_ok (\<lambda>_. (0, 0)) H"
  by (simp add: table_ok_def)

lemma VRAMMalloc_iff:
  assumes inv: "vram_inv R v H" and k: "class_for n k"
  defines "start \<equiv> poolStart (the (allocator v))"
  shows "\<exists>p w. VRAMMalloc n v = Some (p, w) \<and>
    (p \<noteq> 0 \<longleftrightarrow> (\<exists>b. 2 ^ k dvd b \<and> cells (b, k) \<subseteq> R - all_cells (blocks_of start H)))"
proof -
  obtain s L where s: "allocator v = Some s" "poolStart s \<noteq> 0" and co: "coalesced L"
    and pool: "pool_ok s L (blocks_of (poolStart s) H)" and R: "all_cells (free_set L \<union> blocks_of (poolStart s) H) = R"
    using vram_inv_pool [OF inv] by metis
  have ok: "heap_ok s L (blocks_of (poolStart s) H) (all_cells (free_set L \<union> blocks_of (poolStart s) H))"
    using pool unfolding pool_ok_def by blast
  have free: "R - all_cells (blocks_of start H) = all_cells (free_set L)"
    using R all_cells_disjoint [OF ok] s(1) unfolding start_def by auto
  have k13: "k < 13" and "n \<le> 4096 * 2 ^ k" using k by (simp_all add: class_for_def)
  then have n: "n \<le> 4096 * 2 ^ 12" using pow_le_12 [OF k13] by simp
  obtain j where "class_for n j" "pool_Malloc n True s = BuddyMalloc j True s" using pool_Malloc_class [OF n] by metis
  then have run: "pool_Malloc n True s = BuddyMalloc k True s" using class_for_unique [OF k] by metis
  from BuddyMalloc_cases [OF pool k13] show ?thesis
  proof (elim disjE conjE exE)
    fix b t L'
    assume "BuddyMalloc k True s = Some (kIOReturnSuccess, Some (poolStart s + 4096 * b), t)"
      and "allocated s L (blocks_of (poolStart s) H) (b, k) t L'"
    then have "2 ^ k dvd b" "cells (b, k) \<subseteq> all_cells (free_set L)" unfolding allocated_def aligned_def by simp_all
    then show ?thesis
      using \<open>BuddyMalloc k True s = _\<close> s run unfolding free by (auto simp: VRAMMalloc_def)
  next
    assume none: "\<not> (\<exists>c \<in> free_set L. k \<le> snd c)" and "BuddyMalloc k True s = Some (kIOReturnNoMemory, None, s)"
    then show ?thesis
      using coalesced_large [OF ok co k13] s run unfolding free by (auto simp: VRAMMalloc_def)
  qed
qed

lemma sample_malloc:
  assumes v: "vram_inv {0 ..< 16} v Map.empty" and k: "class_for n k" "k \<le> 4"
  obtains p w where "VRAMMalloc n v = Some (p, w)" and "p \<noteq> 0" and "vram_inv {0 ..< 16} w [p \<mapsto> n]"
proof -
  obtain p w where p: "VRAMMalloc n v = Some (p, w)"
    "p \<noteq> 0 \<longleftrightarrow> (\<exists>b. 2 ^ k dvd b \<and> cells (b, k) \<subseteq> {0 ..< 16} - all_cells (blocks_of (poolStart (the (allocator v))) Map.empty))"
    using VRAMMalloc_iff [OF v k(1)] by blast
  have "(2 :: nat) ^ k \<le> 2 ^ 4" by (rule power_increasing) (use k(2) in simp_all)
  then have "2 ^ k dvd (0 :: nat) \<and> cells (0, k) \<subseteq> {0 ..< 16} - all_cells (blocks_of (poolStart (the (allocator v))) Map.empty)"
    by (auto simp: cells_def blocks_of_def)
  then have "p \<noteq> 0" using p(2) by blast
  moreover from this have "vram_inv {0 ..< 16} w [p \<mapsto> n]"
    using VRAMMalloc_law [OF v, of n] p(1) unfolding alloc_law_def by auto
  ultimately show ?thesis using that p(1) by blast
qed

text \<open>C28: The video memory is shared safely: from any state the driver can be in,
  whatever sequence of resize and release requests the surfaces make, every call returns, the pool keeps its
  invariant, no two surfaces hold overlapping memory, and the backing of a surface that takes no part keeps
  its place and its contents.\<close>

theorem backings_isolated:
  assumes "vram_inv R v H" and "table_ok T H"
  shows "\<exists>w U. serve_backings VRAMRealloc VRAMFree rs v T = Some (w, U) \<and> (\<exists>K. vram_inv R w K \<and> table_ok U K) \<and>
    (\<forall>i j. i \<noteq> j \<and> fst (U i) \<noteq> 0 \<and> fst (U j) \<noteq> 0 \<longrightarrow>
      {fst (U i) ..< fst (U i) + snd (U i)} \<inter> {fst (U j) ..< fst (U j) + snd (U j)} = {}) \<and>
    (\<forall>i. i \<notin> client_of ` set rs \<and> fst (T i) \<noteq> 0 \<longrightarrow> U i = T i \<and>
      (\<forall>a \<in> {fst (T i) ..< fst (T i) + snd (T i)}. vram_read w a = vram_read v a))"
proof -
  obtain w U K where "serve_backings VRAMRealloc VRAMFree rs v T = Some (w, U)" "vram_inv R w K" "table_ok U K"
    "\<forall>i. i \<notin> client_of ` set rs \<longrightarrow> fst (T i) \<noteq> 0 \<longrightarrow> U i = T i \<and>
      (\<forall>a \<in> {fst (T i) ..< fst (T i) + snd (T i)}. vram_read w a = vram_read v a)"
    using video_memory.serve_isolates [OF assms] by blast
  then show ?thesis using video_memory.clients_separate by blast
qed

theorem backings_isolated_witness:
  "\<exists>v w U. setupAllocator (Some 65536) 65536 (Some 65536) True True sample_vram = Some (kIOReturnSuccess, v) \<and>
    serve_backings VRAMRealloc VRAMFree [Resize_backing 1 5000, Resize_backing 2 9000, Resize_backing 1 20000] v (\<lambda>_. (0, 0)) = Some (w, U) \<and>
    (fst (U 1) \<noteq> 0 \<and> fst (U 2) \<noteq> 0 \<longrightarrow>
      {fst (U 1) ..< fst (U 1) + snd (U 1)} \<inter> {fst (U 2) ..< fst (U 2) + snd (U 2)} = {})"
proof -
  obtain v where v: "setupAllocator (Some 65536) 65536 (Some 65536) True True sample_vram = Some (kIOReturnSuccess, v)"
    "vram_inv {0 ..< 16} v Map.empty" by (rule sample_started)
  from backings_isolated [OF v(2) table_ok_start, of "[Resize_backing 1 5000, Resize_backing 2 9000, Resize_backing 1 20000]"]
  obtain w U where "serve_backings VRAMRealloc VRAMFree [Resize_backing 1 5000, Resize_backing 2 9000, Resize_backing 1 20000]
      v (\<lambda>_. (0, 0)) = Some (w, U)"
    "\<forall>i j. i \<noteq> j \<and> fst (U i) \<noteq> 0 \<and> fst (U j) \<noteq> 0 \<longrightarrow>
      {fst (U i) ..< fst (U i) + snd (U i)} \<inter> {fst (U j) ..< fst (U j) + snd (U j)} = {}" by blast
  moreover from this(2) have "fst (U 1) \<noteq> 0 \<and> fst (U 2) \<noteq> 0 \<longrightarrow>
      {fst (U 1) ..< fst (U 1) + snd (U 1)} \<inter> {fst (U 2) ..< fst (U 2) + snd (U 2)} = {}"
    by (elim allE [of _ 1] allE [of _ 2]) simp
  ultimately show ?thesis using v(1) by blast
qed

text \<open>Setting up maps the video memory and hands exactly the right part of it to the
  allocator: everything when there is a separate front buffer, else what lies beyond the part that can be traced.\<close>

theorem setupAllocator_ready:
  assumes "kernel_map v = None" and "allocator v = Some a" and "p \<noteq> 0" and "p mod 4096 = 0"
    and "n = min len vram_size div 4096" and "n \<noteq> 0" and "n < 2 ^ 20"
  shows "\<exists>w. setupAllocator (Some len) vram_size (Some p) front True v = Some (kIOReturnSuccess, w) \<and> kernel_map w = Some p \<and>
    vram_inv {(if front then 0 else 4096) ..< n} w Map.empty"
  by (rule setupAllocator_ok [OF assms])

theorem setupAllocator_ready_witness:
  "\<exists>w. setupAllocator (Some 65536) 70000 (Some 65536) True True sample_vram = Some (kIOReturnSuccess, w) \<and> kernel_map w = Some 65536 \<and>
    vram_inv {0 ..< 16} w Map.empty"
proof -
  have "\<exists>w. setupAllocator (Some 65536) 70000 (Some 65536) True True sample_vram = Some (kIOReturnSuccess, w) \<and>
      kernel_map w = Some 65536 \<and> vram_inv {(if True then 0 else 4096) ..< 16} w Map.empty"
    by (rule setupAllocator_ready [OF sample_fields]) simp_all
  then show ?thesis by (simp only: if_True)
qed

text \<open>C29: Allocation is complete: a request of up to 16M succeeds exactly when some aligned
  run of cells of its size class is free; fragmentation by unmerged buddies never makes it fail.\<close>

theorem VRAMMalloc_complete:
  assumes "vram_inv R v H" and "class_for n k"
  shows "\<exists>p w. VRAMMalloc n v = Some (p, w) \<and>
    (p \<noteq> 0 \<longleftrightarrow> (\<exists>b. 2 ^ k dvd b \<and> cells (b, k) \<subseteq> R - all_cells (blocks_of (poolStart (the (allocator v))) H)))"
  by (rule VRAMMalloc_iff [OF assms])

theorem VRAMMalloc_complete_witness:
  "\<exists>v p w. setupAllocator (Some 65536) 65536 (Some 65536) True True sample_vram = Some (kIOReturnSuccess, v) \<and>
    VRAMMalloc 20000 v = Some (p, w) \<and> p \<noteq> 0"
proof -
  obtain v where v: "setupAllocator (Some 65536) 65536 (Some 65536) True True sample_vram = Some (kIOReturnSuccess, v)"
    "vram_inv {0 ..< 16} v Map.empty" by (rule sample_started)
  have "class_for 20000 3" by (simp add: class_for_def)
  from VRAMMalloc_complete [OF v(2) this] obtain p w where "VRAMMalloc 20000 v = Some (p, w)"
    "p \<noteq> 0 \<longleftrightarrow> (\<exists>b. 2 ^ 3 dvd b \<and> cells (b, 3) \<subseteq> {0 ..< 16} - all_cells (blocks_of (poolStart (the (allocator v))) Map.empty))"
    by blast
  moreover have "2 ^ 3 dvd (0 :: nat) \<and> cells (0, 3) \<subseteq> {0 ..< 16} - all_cells (blocks_of (poolStart (the (allocator v))) Map.empty)"
    by (auto simp: cells_def blocks_of_def)
  ultimately show ?thesis using v(1) by blast
qed

text \<open>C30: Reallocation either fails and changes nothing or gives a block that begins with
  the data of the old one, in place or moved, and leaves the blocks of others alone.\<close>

theorem VRAMRealloc_keeps_data:
  assumes "vram_inv R v H" and "H p = Some m" and "n \<noteq> 0"
  shows "\<exists>q w. VRAMRealloc p n v = Some (q, w) \<and> (q = 0 \<and> w = v \<or>
    q \<noteq> 0 \<and> (q = p \<or> H q = None) \<and> vram_inv R w (H(p := None, q \<mapsto> n)) \<and>
    (\<forall>i < min n m. vram_read w (q + i) = vram_read v (p + i)) \<and>
    (\<forall>x l a. H x = Some l \<and> x \<noteq> p \<and> a \<in> {x ..< x + l} \<longrightarrow> vram_read w a = vram_read v a))"
proof -
  have "p = 0 \<or> p \<in> dom H" using assms(2) by auto
  from VRAMRealloc_law [OF assms(1) this, of n] show ?thesis
    using assms(2,3) unfolding resize_law_def vram_kept_def by fastforce
qed

theorem VRAMRealloc_keeps_data_witness:
  "\<exists>v H p q w. vram_inv {0 ..< 16} v H \<and> H p = Some 5000 \<and> VRAMRealloc p 3000 v = Some (q, w) \<and>
    (q = 0 \<and> w = v \<or> (\<forall>i < 3000. vram_read w (q + i) = vram_read v (p + i)))"
proof -
  obtain v0 where v0: "vram_inv {0 ..< 16} v0 Map.empty" by (rule sample_started)
  have "class_for 5000 1" by (simp add: class_for_def)
  moreover have "1 \<le> (4 :: nat)" by simp
  ultimately obtain p v where v: "vram_inv {0 ..< 16} v [p \<mapsto> 5000]" using sample_malloc [OF v0] by blast
  have p: "[p \<mapsto> 5000] p = Some 5000" by simp
  have "(3000 :: nat) \<noteq> 0" by simp
  from VRAMRealloc_keeps_data [OF v p this] obtain q w where "VRAMRealloc p 3000 v = Some (q, w)"
    "q = 0 \<and> w = v \<or> (\<forall>i < min 3000 5000. vram_read w (q + i) = vram_read v (p + i))" by blast
  moreover have "min 3000 5000 = (3000 :: nat)" by simp
  ultimately show ?thesis using v p by metis
qed

text \<open>C32: The books balance: in every state the driver can be in the allocator's own consistency
  check passes, and the free bytes it reports are exactly those of the pool that no one holds.\<close>

theorem vram_accounts:
  assumes "vram_inv R v H"
  shows "\<exists>s. allocator v = Some s \<and> fst (Check s) = kIOReturnSuccess \<and>
    Available True s = (kIOReturnSuccess, Some (4096 * card (R - all_cells (blocks_of (poolStart s) H))))"
proof -
  obtain s L where s: "allocator v = Some s" and pool: "pool_ok s L (blocks_of (poolStart s) H)"
    and R: "all_cells (free_set L \<union> blocks_of (poolStart s) H) = R"
    using vram_inv_pool [OF assms] by metis
  have ok: "heap_ok s L (blocks_of (poolStart s) H) (all_cells (free_set L \<union> blocks_of (poolStart s) H))"
    using pool unfolding pool_ok_def by blast
  have "R - all_cells (blocks_of (poolStart s) H) = all_cells (free_set L)"
    using R all_cells_disjoint [OF ok] by auto
  then show ?thesis using s Check_ok [OF pool] pool by (simp add: Available_def pool_ok_def)
qed

theorem vram_accounts_witness:
  "\<exists>v s. setupAllocator (Some 65536) 65536 (Some 65536) True True sample_vram = Some (kIOReturnSuccess, v) \<and>
    allocator v = Some s \<and> fst (Check s) = kIOReturnSuccess \<and> Available True s = (kIOReturnSuccess, Some 65536)"
proof -
  obtain v where v: "setupAllocator (Some 65536) 65536 (Some 65536) True True sample_vram = Some (kIOReturnSuccess, v)"
    "vram_inv {0 ..< 16} v Map.empty" by (rule sample_started)
  have "blocks_of a Map.empty = {}" for a by (simp add: blocks_of_def)
  then show ?thesis using vram_accounts [OF v(2)] v(1) by auto
qed

lemma sample_block:
  obtains s L b where "pool_ok s L {(b, 1)}" and "coalesced L" and "poolStart s \<noteq> 0"
    and "all_cells (free_set L) \<union> cells (b, 1) = {0 ..< 16}"
proof -
  obtain v0 where v0: "vram_inv {0 ..< 16} v0 Map.empty" by (rule sample_started)
  have k: "class_for 5000 1" by (simp add: class_for_def)
  moreover have "1 \<le> (4 :: nat)" by simp
  ultimately obtain p v where v: "vram_inv {0 ..< 16} v [p \<mapsto> 5000]" using sample_malloc [OF v0] by blast
  from vram_inv_pool [OF v] obtain s L where s: "poolStart s \<noteq> 0" "coalesced L" "pool_ok s L (blocks_of (poolStart s) [p \<mapsto> 5000])"
    "all_cells (free_set L \<union> blocks_of (poolStart s) [p \<mapsto> 5000]) = {0 ..< 16}"
    and p: "\<exists>b. p = poolStart s + 4096 * b"
    by (metis fun_upd_same)
  then obtain b where b: "p = poolStart s + 4096 * b" by blast
  have "blocks_of (poolStart s) Map.empty = {}" by (simp add: blocks_of_def)
  then have "blocks_of (poolStart s) [p \<mapsto> 5000] = {(b, 1)}"
    using blocks_of_add [of Map.empty "poolStart s" b, OF _ k] unfolding b by simp
  then show ?thesis using that [of s L b] s by (simp add: Un_commute)
qed

text \<open>C31: Freeing gives the block back whole and merged: afterwards the free cells are the old ones
  and the block's, no two free buddies stand side by side if none did before, and the rest of the memory and the other
  blocks are as they were.\<close>

theorem Free_merges:
  assumes "pool_ok s L A" and "(b, k) \<in> A" and "poolStart s \<noteq> 0" and "coalesced L"
  shows "\<exists>t L'. pool_Free (poolStart s + 4096 * b) s = (kIOReturnSuccess, t) \<and> pool_ok t L' (A - {(b, k)}) \<and>
    all_cells (free_set L') = all_cells (free_set L) \<union> cells (b, k) \<and> coalesced L' \<and>
    same_in (- (all_cells (free_set L) \<union> cells (b, k))) (mem s) (mem t)"
  using pool_Free_ok [OF assms(1,2)] assms(3,4) unfolding freed_def by auto

theorem Free_merges_witness:
  "\<exists>s L b t L'. pool_ok s L {(b, 1)} \<and> all_cells (free_set L) \<union> cells (b, 1) = {0 ..< 16} \<and>
    pool_Free (poolStart s + 4096 * b) s = (kIOReturnSuccess, t) \<and> pool_ok t L' {} \<and> all_cells (free_set L') = {0 ..< 16}"
proof -
  obtain s L b where s: "pool_ok s L {(b, 1)}" "coalesced L" "poolStart s \<noteq> 0" "all_cells (free_set L) \<union> cells (b, 1) = {0 ..< 16}"
    by (rule sample_block)
  from Free_merges [OF s(1) _ s(3,2), of b 1] obtain t L' where
    "pool_Free (poolStart s + 4096 * b) s = (kIOReturnSuccess, t)" "pool_ok t L' ({(b, 1)} - {(b, 1)})"
    "all_cells (free_set L') = all_cells (free_set L) \<union> cells (b, 1)" by auto
  then show ?thesis using s(1,4) by (metis Diff_cancel)
qed

text \<open>C33: Handing memory over terminates: \<open>toFree\<close> returns for every range of the pool, and covers
  it exactly with free blocks each as large as alignment and the end of the range allow.\<close>

theorem toFree_covers:
  assumes "heap_ok s L A M" and "past \<le> poolBlocks s" and "i \<le> past" and "{i ..< past} \<subseteq> M"
    and "{i ..< past} \<inter> all_cells (free_set L \<union> A) = {}"
  shows "\<exists>N t L'. toFree i past False s = Some t \<and> heap_ok t L' A M \<and> free_set L' = free_set L \<union> N \<and>
    all_cells N = {i ..< past} \<and> (\<forall>(x, j) \<in> N. 2 ^ j dvd x \<and> x + 2 ^ j \<le> past \<and> (j = 12 \<or> \<not> fits past x (Suc j)))"
proof -
  obtain N t L' where t: "toFree i past False s = Some t" and f: "filled s L A M i past N t L'"
    by (rule toFree_ok [OF assms])
  then have N: "heap_ok t L' A M" "free_set L' = free_set L \<union> N" "all_cells N = {i ..< past}"
    "\<forall>(x, j) \<in> N. j = 12 \<or> \<not> fits past x (Suc j)"
    unfolding filled_def by simp_all
  have "2 ^ j dvd x \<and> x + 2 ^ j \<le> past" if "(x, j) \<in> N" for x j
  proof
    show "2 ^ j dvd x" using heap_okD(6) [OF N(1), of "(x, j)"] that N(2) by (simp add: aligned_def)
    have "x + 2 ^ j - 1 < past" using last_in_cells [of "(x, j)"] that N(3) unfolding all_cells_def by auto
    then show "x + 2 ^ j \<le> past" by linarith
  qed
  then show ?thesis using t N by (intro exI conjI) auto
qed

theorem toFree_covers_witness:
  "\<exists>s N t L'. toFree 3 16 False s = Some t \<and> free_set L' = N \<and> all_cells N = {3 ..< 16}"
proof -
  obtain s where s: "pool_ok s (\<lambda>_. []) {}" "poolBlocks s = 16"
    by (rule pool_Init_ok [of 4096 65536 sample_pool]) simp_all
  have empty: "free_set (\<lambda>_. []) = {}" by (simp add: free_set_def)
  have "heap_ok s (\<lambda>_. []) {} (all_cells (free_set (\<lambda>_. []) \<union> {}))" using s(1) unfolding pool_ok_def by blast
  from heap_extend(2) [OF this, of 3 16] s(2) empty
  have "heap_ok (s\<lparr>bmap := clearAll (bmap s) 3 16\<rparr>) (\<lambda>_. []) {} {3 ..< 16}" by simp
  from toFree_covers [OF this, of 16 3] s(2) empty show ?thesis by auto
qed

end
