(* ===== verification/AccelIds.thy ===== *)
theory AccelIds
  imports Prelude
begin

text \<open>
  The ID allocators of the accelerator (\<^verbatim>\<open>VMsvga2Accel.cpp\<close>): the bit scanners
  \<open>log_2_32\<close>, \<open>log_2_64\<close>, \<open>find_bit_in_array32/64\<close> and \<open>mask_array64\<close>, and the
  four allocators built on them, for surface, context, video stream and GMR
  numbers.  A set bit is a number in use.  Surface and context numbers that do not
  fit the bit masks are counted upwards and never reused (\<open>unmanaged\<close>).

  The interface the rest of the driver relies on is the locale \<open>id_allocator\<close>; each
  allocator interprets it.
\<close>

section \<open>Bit scanners\<close>

definition log_2_32 :: "u32 \<Rightarrow> int" where
  "log_2_32 x0 =
    (let y0 = 0;
         (y1, x1) = (if x0 AND 0xFFFF0000 \<noteq> 0 then (y0 OR 16, drop_bit 16 x0) else (y0, x0));
         (y2, x2) = (if x1 AND 0xFF00 \<noteq> 0 then (y1 OR 8, drop_bit 8 x1) else (y1, x1));
         (y3, x3) = (if x2 AND 0xF0 \<noteq> 0 then (y2 OR 4, drop_bit 4 x2) else (y2, x2));
         (y4, x4) = (if x3 AND 0xC \<noteq> 0 then (y3 OR 2, drop_bit 2 x3) else (y3, x3));
         (y5, x5) = (if x4 AND 0x2 \<noteq> 0 then (y4 OR 1, drop_bit 1 x4) else (y4, x4))
     in if x5 AND 1 = 0 then - 1 else y5)"

definition log_2_64 :: "u64 \<Rightarrow> int" where
  "log_2_64 x0 =
    (let y0 = 0;
         (y1, x1) = (if x0 AND 0xFFFFFFFF00000000 \<noteq> 0 then (y0 OR 32, drop_bit 32 x0) else (y0, x0))
     in y1 OR log_2_32 (ucast x1))"

text \<open>
  The scan loop of \<open>find_bit_in_array32\<close> and \<open>find_bit_in_array64\<close>, which differ in
  the entry width and the logarithm: the result and the updated array.
\<close>

fun find_bit_loop :: "('w::len word \<Rightarrow> int) \<Rightarrow> int \<Rightarrow> int \<Rightarrow> 'w word list \<Rightarrow> u32 \<times> 'w word list" where
  "find_bit_loop lg width i [] = (- 1, [])"
| "find_bit_loop lg width i (w # array) =
    (let x = NOT w AND (w + 1)
     in if x = 0 then (let (r, array') = find_bit_loop lg width (i + width) array in (r, w # array'))
        else (word_of_int (i + lg x), (w OR x) # array))"

definition find_bit_in_array32 :: "u32 list \<Rightarrow> u32 \<times> u32 list" where
  "find_bit_in_array32 array = find_bit_loop log_2_32 32 0 array"

definition find_bit_in_array64 :: "u64 list \<Rightarrow> u32 \<times> u64 list" where
  "find_bit_in_array64 array = find_bit_loop log_2_64 64 0 array"

text \<open>\<^verbatim>\<open>array[i >> 6] |= 1ULL << (i & 63)\<close>\<close>

definition or_bit_at :: "nat \<Rightarrow> u64 list \<Rightarrow> u64 list" where
  "or_bit_at i array = array[i div 64 := array ! (i div 64) OR push_bit (i mod 64) 1]"

definition mask_array64 :: "u64 list \<Rightarrow> nat \<Rightarrow> nat \<Rightarrow> u64 list" where
  "mask_array64 array mask_start mask_end =
    (let firstFull = (mask_start + 63) div 64 * 64;
         pastFull = mask_end div 64 * 64;
         past = (if mask_end \<ge> firstFull then firstFull else mask_end);
         array = fold or_bit_at [mask_start..<past] array;
         array = (if pastFull > firstFull
                  then fold (\<lambda>i a. a[i := - 1])
                         [firstFull div 64..<firstFull div 64 + (pastFull - firstFull) div 64] array
                  else array);
         pastFull = (if pastFull < past then past else pastFull)
     in fold or_bit_at [pastFull..<mask_end] array)"

section \<open>Correctness of the scanners\<close>

text \<open>The numbers marked in an array of masks.\<close>

definition marked :: "'w::len word list \<Rightarrow> nat set" where
  "marked array = {j. j div LENGTH('w) < length array \<and> bit (array ! (j div LENGTH('w))) (j mod LENGTH('w))}"

lemma log_2_32_exp: "n < 32 \<Longrightarrow> log_2_32 (push_bit n 1) = int n"
proof -
  assume "n < 32"
  then have "n \<in> set [0..<32]" by simp
  moreover have "\<forall>n \<in> set [0..<32]. log_2_32 (push_bit n 1) = int n"
    by (simp add: upt_rec log_2_32_def)
  ultimately show ?thesis by blast
qed

lemma log_2_64_exp: "n < 64 \<Longrightarrow> log_2_64 (push_bit n 1) = int n"
proof -
  assume "n < 64"
  then have "n \<in> set [0..<64]" by simp
  moreover have "\<forall>n \<in> set [0..<64]. log_2_64 (push_bit n 1) = int n"
    by (simp add: upt_rec log_2_64_def log_2_32_def)
  ultimately show ?thesis by blast
qed

lemma find_bit_loop_full:
  "\<forall>w \<in> set array. w = - 1 \<Longrightarrow> find_bit_loop lg width i array = (- 1, array)"
  by (induction array arbitrary: i) (auto simp: Let_def)

lemma find_bit_loop_found:
  fixes array :: "'w::len word list"
  assumes "\<exists>w \<in> set array. w \<noteq> - 1"
    and lg: "\<And>n. n < LENGTH('w) \<Longrightarrow> lg (push_bit n 1) = int n"
  obtains k n where "k < length array" and "n < LENGTH('w)" and "\<forall>j<k. array ! j = - 1"
    and "\<not> bit (array ! k) n"
    and "find_bit_loop lg (int LENGTH('w)) i array =
           (word_of_int (i + int (k * LENGTH('w) + n)), array[k := array ! k OR push_bit n 1])"
    and "\<forall>j<n. bit (array ! k) j"
  using assms(1)
proof (induction array arbitrary: i thesis)
  case Nil
  then show ?case by simp
next
  case (Cons w array)
  show ?case
  proof (cases "w = - 1")
    case True
    with Cons.prems(2) obtain k n where kn: "k < length array" "n < LENGTH('w)"
      "\<forall>j<k. array ! j = - 1" "\<not> bit (array ! k) n"
      "find_bit_loop lg (int LENGTH('w)) (i + int LENGTH('w)) array =
         (word_of_int (i + int LENGTH('w) + int (k * LENGTH('w) + n)), array[k := array ! k OR push_bit n 1])"
      "\<forall>j<n. bit (array ! k) j"
      using Cons.IH [of "i + int LENGTH('w)"] by auto
    show ?thesis
    proof (rule Cons.prems(1) [of "Suc k" n])
      show "\<forall>j<Suc k. (w # array) ! j = - 1"
        using kn(3) True by (auto simp: nth_Cons split: nat.split)
    qed (use kn True in \<open>auto simp: algebra_simps\<close>)
  next
    case False
    then obtain n where n: "n < LENGTH('w)" "\<not> bit w n" "\<And>j. j < n \<Longrightarrow> bit w j"
      by (rule exists_clear_bit) blast
    have x: "NOT w AND (w + 1) = push_bit n 1" by (rule lowest_clear_bit) (fact n)+
    have "push_bit n (1 :: 'w word) \<noteq> 0"
      using n(1) by (simp add: push_bit_eq_mult)
    then show ?thesis
      by (intro Cons.prems(1) [of 0 n]) (use n x lg in \<open>auto simp: Let_def\<close>)
  qed
qed

lemma marked_update:
  fixes array :: "'w::len word list"
  assumes "k < length array" and "n < LENGTH('w)"
  shows "marked (array[k := array ! k OR push_bit n 1]) = insert (k * LENGTH('w) + n) (marked array)"
    and "marked (array[k := array ! k AND NOT (push_bit n 1)]) = marked array - {k * LENGTH('w) + n}"
proof -
  have *: "j div LENGTH('w) = k \<and> j mod LENGTH('w) = n \<longleftrightarrow> j = k * LENGTH('w) + n" for j
    using assms(2) div_mult_mod_eq [of j "LENGTH('w)"] by auto
  show "marked (array[k := array ! k OR push_bit n 1]) = insert (k * LENGTH('w) + n) (marked array)"
    using assms by (auto simp: marked_def nth_list_update bit_simps * [symmetric])
  show "marked (array[k := array ! k AND NOT (push_bit n 1)]) = marked array - {k * LENGTH('w) + n}"
    using assms by (auto simp: marked_def nth_list_update bit_simps * [symmetric])
qed


lemma length_or_bit_at [simp]: "length (or_bit_at i array) = length array"
  by (simp add: or_bit_at_def)

lemma length_fold_or_bit_at [simp]: "length (fold or_bit_at is array) = length array"
  by (induction "is" arbitrary: array) auto

lemma length_fold_fill [simp]: "length (fold (\<lambda>i a. a[i := v]) is array) = length array"
  by (induction "is" arbitrary: array) auto

lemma length_mask_array64 [simp]: "length (mask_array64 array a b) = length array"
  by (simp add: mask_array64_def Let_def)

lemma marked_or_bit_at: "j < 64 * length array \<Longrightarrow> marked (or_bit_at j array) = insert j (marked array)"
  using marked_update(1) [of "j div 64" array "j mod 64"]
  by (simp add: or_bit_at_def less_mult_imp_div_less mult.commute)

lemma marked_fold_or_bit_at:
  "\<forall>j \<in> set is. j < 64 * length array \<Longrightarrow> marked (fold or_bit_at is array) = marked array \<union> set is"
  by (induction "is" arbitrary: array) (auto simp: marked_or_bit_at)

lemma marked_fill:
  fixes array :: "u64 list"
  assumes "k < length array"
  shows "marked (array[k := - 1]) = marked array \<union> {64 * k..<64 * Suc k}"
proof -
  have "{j. j div 64 = k} = {64 * k..<64 * Suc k}"
    by auto
  moreover have "marked (array[k := - 1]) = marked array \<union> {j. j div 64 = k}"
    using assms by (auto simp: marked_def nth_list_update)
  ultimately show ?thesis by (simp del: mult_Suc_right)
qed

lemma marked_fold_fill:
  "m \<le> n \<Longrightarrow> n \<le> length array \<Longrightarrow>
    marked (fold (\<lambda>i a. a[i := - 1 :: u64]) [m..<n] array) = marked array \<union> {64 * m..<64 * n}"
proof (induction n)
  case 0
  then show ?case by simp
next
  case (Suc n)
  show ?case
  proof (cases "m = Suc n")
    case True
    then show ?thesis by simp
  next
    case False
    then have "{64 * m..<64 * n} \<union> {64 * n..<64 * Suc n} = {64 * m..<64 * Suc n}"
      using Suc.prems by (intro ivl_disj_un_two(3)) auto
    with False Suc.prems Suc.IH show ?thesis
      by (simp add: upt_Suc_append marked_fill Un_assoc del: mult_Suc_right)
  qed
qed

lemma marked_mask_array64:
  assumes "mask_end \<le> 64 * length array"
  shows "marked (mask_array64 array mask_start mask_end) = marked array \<union> {mask_start..<mask_end}"
proof -
  define ff where "ff = (mask_start + 63) div 64 * 64"
  define pf where "pf = mask_end div 64 * 64"
  define past where "past = (if mask_end \<ge> ff then ff else mask_end)"
  define a1 where "a1 = fold or_bit_at [mask_start..<past] array"
  define a2 where "a2 = (if pf > ff then fold (\<lambda>i a. a[i := - 1]) [ff div 64..<ff div 64 + (pf - ff) div 64] a1 else a1)"
  define pf2 where "pf2 = (if pf < past then past else pf)"
  have eq: "mask_array64 array mask_start mask_end = fold or_bit_at [pf2..<mask_end] a2"
    by (simp add: mask_array64_def Let_def a1_def a2_def pf2_def past_def ff_def pf_def)
  have bounds: "pf \<le> mask_end" "mask_start \<le> ff" "past \<le> mask_end" "pf2 \<le> mask_end" "past \<le> pf2"
    by (auto simp: pf_def ff_def past_def pf2_def)
  have len: "length a1 = length array" "length a2 = length array"
    by (simp_all add: a1_def a2_def)
  have m1: "marked a1 = marked array \<union> {mask_start..<past}"
    unfolding a1_def using bounds assms by (subst marked_fold_or_bit_at) auto
  have m2: "marked a2 = marked a1 \<union> {ff..<pf}"
  proof (cases "pf > ff")
    case True
    then have "ff div 64 + (pf - ff) div 64 = mask_end div 64" "64 * (ff div 64) = ff"
      by (simp_all add: ff_def pf_def diff_mult_distrib [symmetric])
    with True show ?thesis
      unfolding a2_def using assms len(1) by (simp add: marked_fold_fill ff_def pf_def mult.commute)
  next
    case False
    then show ?thesis by (simp add: a2_def)
  qed
  have "marked (mask_array64 array mask_start mask_end) = marked a2 \<union> {pf2..<mask_end}"
    unfolding eq using bounds assms len by (subst marked_fold_or_bit_at) auto
  moreover have "{mask_start..<past} \<union> {ff..<pf} \<union> {pf2..<mask_end} = {mask_start..<mask_end}"
    using bounds by (auto simp: past_def pf2_def split: if_splits)
  ultimately show ?thesis unfolding m1 m2 by blast
qed

section \<open>The allocators\<close>

text \<open>
  The ID fields of \<^verbatim>\<open>VMsvga2Accel\<close>.  Every operation below runs between
  \<^verbatim>\<open>lockAccel\<close> and \<^verbatim>\<open>unlockAccel\<close>, so it is one atomic step.  The two \<open>idx\<close> fields
  never exceed the number of mask entries and are kept as naturals.
\<close>

record accel_ids =
  m_surface_id_mask :: "u64 list"
  m_context_id_mask :: u64
  m_gmr_id_mask :: "u64 list"
  m_surface_ids_unmanaged :: u32
  m_context_ids_unmanaged :: u32
  m_surface_id_idx :: nat
  m_gmr_id_idx :: nat
  m_stream_id_mask :: u32

text \<open>
  A new object's fields are zero; \<open>start\<close> then marks the GMR numbers the device does
  not have: \<^verbatim>\<open>mask_array64(&m_gmr_id_mask[0], m_svga->getMaxGMRIDs(), 8U * sizeof m_gmr_id_mask)\<close>.
\<close>

definition accel_ids_init :: accel_ids where
  "accel_ids_init =
     \<lparr>m_surface_id_mask = replicate 4 0, m_context_id_mask = 0, m_gmr_id_mask = replicate 2 0,
      m_surface_ids_unmanaged = 0, m_context_ids_unmanaged = 0, m_surface_id_idx = 0,
      m_gmr_id_idx = 0, m_stream_id_mask = 0\<rparr>"

definition accel_ids_start :: "u32 \<Rightarrow> accel_ids \<Rightarrow> accel_ids" where
  "accel_ids_start max_gmr_ids s =
     s\<lparr>m_gmr_id_mask := mask_array64 (m_gmr_id_mask s) (unat max_gmr_ids) 128\<rparr>"

definition AllocSurfaceID :: "accel_ids \<Rightarrow> u32 \<times> accel_ids" where
  "AllocSurfaceID s =
    (let num_entries = 4;
         idx = m_surface_id_idx s;
         (r, tail) = find_bit_in_array64 (take (num_entries - idx) (drop idx (m_surface_id_mask s)));
         s = s\<lparr>m_surface_id_mask := take idx (m_surface_id_mask s) @ tail\<rparr>
     in if r <s 0
        then (push_bit 6 (of_nat num_entries) + m_surface_ids_unmanaged s,
              s\<lparr>m_surface_ids_unmanaged := m_surface_ids_unmanaged s + 1, m_surface_id_idx := num_entries\<rparr>)
        else (let t = unat (drop_bit 6 r)
              in (r + push_bit 6 (of_nat idx), s\<lparr>m_surface_id_idx := idx + t\<rparr>)))"

definition FreeSurfaceID :: "u32 \<Rightarrow> accel_ids \<Rightarrow> accel_ids" where
  "FreeSurfaceID sid s =
    (let r = unat (drop_bit 6 sid); num_entries = 4
     in if r \<ge> num_entries then s
        else s\<lparr>m_surface_id_mask := (m_surface_id_mask s)
                 [r := m_surface_id_mask s ! r AND NOT (push_bit (unat (sid AND 63)) 1)],
               m_surface_id_idx := (if r < m_surface_id_idx s then r else m_surface_id_idx s)\<rparr>)"

definition AllocContextID :: "accel_ids \<Rightarrow> u32 \<times> accel_ids" where
  "AllocContextID s =
    (let (r, masks) = find_bit_in_array64 [m_context_id_mask s];
         s = s\<lparr>m_context_id_mask := hd masks\<rparr>
     in if r <s 0
        then (64 + m_context_ids_unmanaged s, s\<lparr>m_context_ids_unmanaged := m_context_ids_unmanaged s + 1\<rparr>)
        else (r, s))"

definition FreeContextID :: "u32 \<Rightarrow> accel_ids \<Rightarrow> accel_ids" where
  "FreeContextID cid s =
    (if cid \<ge> 64 then s
     else s\<lparr>m_context_id_mask := m_context_id_mask s AND NOT (push_bit (unat cid) 1)\<rparr>)"

definition AllocStreamID :: "accel_ids \<Rightarrow> u32 \<times> accel_ids" where
  "AllocStreamID s =
    (let (r, masks) = find_bit_in_array32 [m_stream_id_mask s]
     in (r, s\<lparr>m_stream_id_mask := hd masks\<rparr>))"

definition FreeStreamID :: "u32 \<Rightarrow> accel_ids \<Rightarrow> accel_ids" where
  "FreeStreamID streamId s =
    (if streamId \<ge> 32 then s
     else s\<lparr>m_stream_id_mask := m_stream_id_mask s AND NOT (push_bit (unat streamId) 1)\<rparr>)"

definition AllocGMRID :: "accel_ids \<Rightarrow> u32 \<times> accel_ids" where
  "AllocGMRID s =
    (let num_entries = 2;
         idx = m_gmr_id_idx s;
         (r, tail) = find_bit_in_array64 (take (num_entries - idx) (drop idx (m_gmr_id_mask s)));
         s = s\<lparr>m_gmr_id_mask := take idx (m_gmr_id_mask s) @ tail\<rparr>
     in if r <s 0 then (r, s\<lparr>m_gmr_id_idx := num_entries\<rparr>)
        else (let t = unat (drop_bit 6 r)
              in (r + push_bit 6 (of_nat idx), s\<lparr>m_gmr_id_idx := idx + t\<rparr>)))"

definition FreeGMRID :: "u32 \<Rightarrow> accel_ids \<Rightarrow> accel_ids" where
  "FreeGMRID gmrId s =
    (let r = unat (drop_bit 6 gmrId); num_entries = 2
     in if r \<ge> num_entries then s
        else s\<lparr>m_gmr_id_mask := (m_gmr_id_mask s)
                 [r := m_gmr_id_mask s ! r AND NOT (push_bit (unat (gmrId AND 63)) 1)],
               m_gmr_id_idx := (if r < m_gmr_id_idx s then r else m_gmr_id_idx s)\<rparr>)"

section \<open>The interface of an ID allocator\<close>

text \<open>
  What a client of an allocator uses: \<open>alloc\<close> and \<open>free\<close>, the set of numbers in use, and
  the laws.  A result with the sign bit set reports exhaustion.  \<open>room n s\<close> says that \<open>n\<close>
  more calls cannot make the allocator's own counter wrap around; \<open>recycled r\<close> that
  \<open>free r\<close> makes \<open>r\<close> available again.
\<close>

locale id_allocator =
  fixes alloc :: "'s \<Rightarrow> u32 \<times> 's"
    and free :: "u32 \<Rightarrow> 's \<Rightarrow> 's"
    and used :: "'s \<Rightarrow> nat set"
    and inv :: "'s \<Rightarrow> bool"
    and room :: "nat \<Rightarrow> 's \<Rightarrow> bool"
    and recycled :: "u32 \<Rightarrow> bool"
  assumes alloc_inv: "inv s \<Longrightarrow> inv (snd (alloc s))"
    and alloc_room: "inv s \<Longrightarrow> room (Suc n) s \<Longrightarrow> room n (snd (alloc s))"
    and room_less: "room (Suc n) s \<Longrightarrow> room n s"
    and alloc_fresh: "inv s \<Longrightarrow> room (Suc n) s \<Longrightarrow> 0 \<le>s fst (alloc s) \<Longrightarrow>
          unat (fst (alloc s)) \<notin> used s \<and> used (snd (alloc s)) = insert (unat (fst (alloc s))) (used s)"
    and alloc_exhausted: "inv s \<Longrightarrow> room (Suc n) s \<Longrightarrow> fst (alloc s) <s 0 \<Longrightarrow> used (snd (alloc s)) = used s"
    and free_inv: "inv s \<Longrightarrow> inv (free r s)"
    and free_room: "room n (free r s) = room n s"
    and free_used: "inv s \<Longrightarrow> used (free r s) = (if recycled r then used s - {unat r} else used s)"

text \<open>
  A history of requests against an allocator, with the numbers currently held by clients:
  a client gives back only what it holds.
\<close>

datatype id_request = Acquire | Give_back u32

fun serve :: "('s \<Rightarrow> u32 \<times> 's) \<Rightarrow> (u32 \<Rightarrow> 's \<Rightarrow> 's) \<Rightarrow> id_request list \<Rightarrow> u32 list \<times> 's \<Rightarrow> u32 list \<times> 's" where
  "serve alloc free [] (held, s) = (held, s)"
| "serve alloc free (Acquire # rs) (held, s) =
     (let (r, s') = alloc s in serve alloc free rs (if r <s 0 then held else r # held, s'))"
| "serve alloc free (Give_back r # rs) (held, s) =
     serve alloc free rs (if r \<in> set held then (remove1 r held, free r s) else (held, s))"

context id_allocator
begin

text \<open>
  No number is held twice, held numbers count as used, and the numbers of \<open>reserved\<close>,
  which were in use before, are never handed out.
\<close>

definition held_inv :: "nat set \<Rightarrow> u32 list \<Rightarrow> 's \<Rightarrow> bool" where
  "held_inv reserved held s \<longleftrightarrow> inv s \<and> distinct held \<and> unat ` set held \<subseteq> used s \<and>
     reserved \<subseteq> used s \<and> unat ` set held \<inter> reserved = {}"

lemma held_inv_alloc:
  assumes "held_inv reserved held s" and "room (Suc n) s" and "alloc s = (r, t)"
  shows "held_inv reserved (if r <s 0 then held else r # held) t"
  using assms alloc_inv [of s] alloc_fresh [of s n] alloc_exhausted [of s n]
  by (auto simp: held_inv_def signed.not_less)

lemma held_inv_free:
  assumes "held_inv reserved held s" and "r \<in> set held"
  shows "held_inv reserved (remove1 r held) (free r s)"
  using assms free_inv [of s r] free_used [of s r]
  by (auto simp: held_inv_def word_unat_eq_iff distinct_remove1)

lemma serve_held_inv:
  "held_inv reserved held s \<Longrightarrow> room (length rs) s \<Longrightarrow>
    serve alloc free rs (held, s) = (held', s') \<Longrightarrow> held_inv reserved held' s'"
proof (induction rs arbitrary: held s)
  case Nil
  then show ?case by simp
next
  case (Cons q rs)
  note IH = Cons.IH and prems = Cons.prems
  show ?case
  proof (cases q)
    case Acquire
    obtain r t where rt: "alloc s = (r, t)" by fastforce
    define h where "h = (if r <s 0 then held else r # held)"
    have "held_inv reserved h t"
      using prems(1,2) rt unfolding h_def by (intro held_inv_alloc [where n = "length rs"]) simp_all
    moreover have "room (length rs) t"
      using alloc_room [of s "length rs"] prems(1,2) rt by (simp add: held_inv_def)
    moreover have "serve alloc free rs (h, t) = (held', s')"
      using prems(3) Acquire rt by (simp add: h_def)
    ultimately show ?thesis by (rule IH)
  next
    case (Give_back r)
    then show ?thesis
      using prems room_less IH [OF held_inv_free, of held s r] IH [of held s]
      by (auto simp: free_room split: if_splits)
  qed
qed

end

section \<open>The allocators implement the interface\<close>

lemma find_bit_in_array64_cases:
  obtains (full) "\<forall>w \<in> set array. w = - 1" and "find_bit_in_array64 array = (- 1, array)"
  | (found) k n where "k < length array" and "n < 64" and "\<forall>j<k. array ! j = - 1" and "\<not> bit (array ! k) n"
      and "find_bit_in_array64 array = (of_nat (64 * k + n), array[k := array ! k OR push_bit n 1])"
      and "\<forall>j<n. bit (array ! k) j"
proof (cases "\<forall>w \<in> set array. w = - 1")
  case True
  then show thesis using full find_bit_loop_full unfolding find_bit_in_array64_def by blast
next
  case False
  then have "\<exists>w \<in> set array. w \<noteq> - 1" by blast
  then show thesis
  proof (rule find_bit_loop_found [where lg = log_2_64 and i = 0])
    fix k n
    assume "k < length array" "n < LENGTH(64)" "\<forall>j<k. array ! j = - 1" "\<not> bit (array ! k) n"
      "find_bit_loop log_2_64 (int LENGTH(64)) 0 array =
         (word_of_int (0 + int (k * LENGTH(64) + n)), array[k := array ! k OR push_bit n 1])"
      "\<forall>j<n. bit (array ! k) j"
    then show thesis
      by (intro found [of k n]) (simp_all add: find_bit_in_array64_def mult.commute)
  qed (rule log_2_64_exp, simp)
qed

text \<open>The scan of a pool from a start index below which every entry is full.\<close>

lemma scan_from_idx:
  assumes len: "length masks \<le> 4" and idx: "idx \<le> length masks" and full: "\<forall>j<idx. masks ! j = - 1"
    and scan: "find_bit_in_array64 (take (length masks - idx) (drop idx masks)) = (r, tail)"
  obtains (exhausted) "r = - 1" and "\<forall>w \<in> set masks. w = - 1" and "take idx masks @ tail = masks"
  | (number) k n where "k < length masks" and "idx \<le> k" and "n < 64" and "\<forall>j<k. masks ! j = - 1"
      and "\<not> bit (masks ! k) n" and "r = of_nat (64 * (k - idx) + n)"
      and "take idx masks @ tail = masks[k := masks ! k OR push_bit n 1]"
      and "\<forall>j<n. bit (masks ! k) j"
proof (cases "drop idx masks" rule: find_bit_in_array64_cases)
  case full
  have "\<forall>w \<in> set masks. w = - 1"
  proof
    fix w assume "w \<in> set masks"
    then have "w \<in> set (take idx masks) \<or> w \<in> set (drop idx masks)"
      by (metis Un_iff append_take_drop_id set_append)
    then show "w = - 1"
    proof
      assume "w \<in> set (take idx masks)"
      then show "w = - 1" using assms(3) idx by (auto simp: in_set_conv_nth)
    next
      assume "w \<in> set (drop idx masks)"
      then show "w = - 1" using full(1) by blast
    qed
  qed
  moreover have "r = - 1" "tail = drop idx masks" using full(2) scan by simp_all
  ultimately show thesis using exhausted by simp
next
  case (found k n)
  let ?k = "idx + k"
  have k: "?k < length masks" using found(1) by simp
  have "\<forall>j<?k. masks ! j = - 1"
  proof (intro allI impI)
    fix j assume "j < ?k"
    then show "masks ! j = - 1"
      using full found(3) k by (cases "j < idx") (auto dest: spec [of _ "j - idx"])
  qed
  moreover have "masks[?k := v] = take idx masks @ (drop idx masks)[k := v]" for v
  proof -
    have "masks[?k := v] = (take idx masks @ drop idx masks)[?k := v]" by simp
    also have "\<dots> = take idx masks @ (drop idx masks)[k := v]"
      using idx by (simp only: list_update_append) simp
    finally show ?thesis .
  qed
  ultimately show thesis
    using number [of ?k n] found k scan by simp
qed

lemma minus_one_negative: "(- 1 :: u32) <s 0"
  by (simp add: word_sless_alt)

lemma accel_ids_same [simp]:
  "s\<lparr>m_surface_id_mask := m_surface_id_mask s\<rparr> = s"
  "s\<lparr>m_gmr_id_mask := m_gmr_id_mask s\<rparr> = s"
  "s\<lparr>m_context_id_mask := m_context_id_mask s\<rparr> = s"
  "s\<lparr>m_stream_id_mask := m_stream_id_mask s\<rparr> = s"
  by simp_all

lemma not_marked_iff: "k < length masks \<Longrightarrow> n < 64 \<Longrightarrow>
  64 * k + n \<in> marked (masks :: u64 list) \<longleftrightarrow> bit (masks ! k) n"
  by (simp add: marked_def)

text \<open>The number an allocator returns for bit \<open>n\<close> of entry \<open>k\<close>, and the entry it was found in.\<close>

lemma scan_number:
  assumes "k < 4" and "idx \<le> k" and "n < 64" and "r = (of_nat (64 * (k - idx) + n) :: u32)"
  shows "unat (r + push_bit 6 (of_nat idx)) = 64 * k + n" and "unat (drop_bit 6 r) = k - idx"
    and "\<not> r <s 0" and "\<not> r + push_bit 6 (of_nat idx) <s 0"
proof -
  have "r + push_bit 6 (of_nat idx) = of_nat (64 * (k - idx) + n + 64 * idx)"
    by (simp add: assms(4) push_bit_eq_mult)
  also have "64 * (k - idx) + n + 64 * idx = 64 * k + n"
    using assms(2) by simp
  finally have sum: "r + push_bit 6 (of_nat idx) = of_nat (64 * k + n)" .
  show num: "unat (r + push_bit 6 (of_nat idx)) = 64 * k + n"
    unfolding sum by (rule unat_of_nat_small) (use assms in simp)
  have r: "unat r = 64 * (k - idx) + n"
    unfolding assms(4) by (rule unat_of_nat_small) (use assms in simp)
  then show "unat (drop_bit 6 r) = k - idx"
    unfolding unat_drop_bit_eq r using assms(3) by (simp add: drop_bit_eq_div)
  show "\<not> r <s 0" "\<not> r + push_bit 6 (of_nat idx) <s 0"
    using r num assms by (simp_all add: sless_zero_iff)
qed

subsection \<open>Surface numbers\<close>

definition surface_inv :: "accel_ids \<Rightarrow> bool" where
  "surface_inv s \<longleftrightarrow> length (m_surface_id_mask s) = 4 \<and> m_surface_id_idx s \<le> 4 \<and>
     (\<forall>j < m_surface_id_idx s. m_surface_id_mask s ! j = - 1)"

definition surface_ids_used :: "accel_ids \<Rightarrow> nat set" where
  "surface_ids_used s = marked (m_surface_id_mask s) \<union> {256..<256 + unat (m_surface_ids_unmanaged s)}"

text \<open>How many unmanaged numbers are left before they would look negative.\<close>

definition surface_budget :: "accel_ids \<Rightarrow> nat" where
  "surface_budget s = 2147483648 - 256 - unat (m_surface_ids_unmanaged s)"

lemma marked_bound: "j \<in> marked (masks :: u64 list) \<Longrightarrow> j < 64 * length masks"
  by (simp add: marked_def div_less_iff_less_mult mult.commute)

text \<open>The effect of \<open>AllocSurfaceID\<close>, case by case.\<close>

lemma AllocSurfaceID_cases:
  assumes "surface_inv s"
  obtains (unmanaged) "\<forall>w \<in> set (m_surface_id_mask s). w = - 1"
      and "AllocSurfaceID s = (256 + m_surface_ids_unmanaged s,
             s\<lparr>m_surface_ids_unmanaged := m_surface_ids_unmanaged s + 1, m_surface_id_idx := 4\<rparr>)"
  | (managed) r k n where "k < 4" and "m_surface_id_idx s \<le> k" and "n < 64"
      and "\<forall>j<k. m_surface_id_mask s ! j = - 1" and "\<not> bit (m_surface_id_mask s ! k) n"
      and "unat r = 64 * k + n" and "\<not> r <s 0"
      and "AllocSurfaceID s = (r, s\<lparr>m_surface_id_mask := (m_surface_id_mask s)
                                    [k := m_surface_id_mask s ! k OR push_bit n 1], m_surface_id_idx := k\<rparr>)"
proof -
  from assms have a: "length (m_surface_id_mask s) = 4" "m_surface_id_idx s \<le> 4"
    "\<forall>j < m_surface_id_idx s. m_surface_id_mask s ! j = - 1"
    by (auto simp: surface_inv_def)
  obtain r tail where scan: "find_bit_in_array64 (drop (m_surface_id_idx s) (m_surface_id_mask s)) = (r, tail)"
    by fastforce
  show thesis
  proof (rule scan_from_idx [of "m_surface_id_mask s" "m_surface_id_idx s" r tail])
    assume "r = - 1" "\<forall>w \<in> set (m_surface_id_mask s). w = - 1"
      "take (m_surface_id_idx s) (m_surface_id_mask s) @ tail = m_surface_id_mask s"
    then show thesis
      by (intro unmanaged) (simp_all add: AllocSurfaceID_def a scan Let_def minus_one_negative push_bit_eq_mult)
  next
    fix k n
    assume *: "k < length (m_surface_id_mask s)" "m_surface_id_idx s \<le> k" "n < 64"
      "\<forall>j<k. m_surface_id_mask s ! j = - 1" "\<not> bit (m_surface_id_mask s ! k) n"
      and r: "r = of_nat (64 * (k - m_surface_id_idx s) + n)"
      and tail: "take (m_surface_id_idx s) (m_surface_id_mask s) @ tail =
         (m_surface_id_mask s)[k := m_surface_id_mask s ! k OR push_bit n 1]"
    then have k: "k < 4" using a by simp
    note num = scan_number [OF k *(2,3) r]
    show thesis
      by (rule managed [of k n "r + push_bit 6 (of_nat (m_surface_id_idx s))"])
        (use * k num tail a in \<open>simp_all add: AllocSurfaceID_def scan Let_def del: push_bit_numeral_minus_1 push_bit_of_1\<close>)
  qed (use a scan in simp_all)
qed
lemma unat_and_63: "unat (w AND 63 :: u32) = unat w mod 64"
proof -
  have "w AND 63 = take_bit 6 w" by (simp add: take_bit_eq_mask mask_numeral)
  then have "unat (w AND 63) = take_bit 6 (unat w)" by (simp only: unsigned_take_bit_eq)
  then show ?thesis by (simp add: take_bit_eq_mod)
qed

lemma unat_shift_6: "unat (drop_bit 6 (w :: u32)) = unat w div 64"
  unfolding unat_drop_bit_eq by (simp add: drop_bit_eq_div)

lemma marked_free:
  "unat (w :: u32) div 64 < length (masks :: u64 list) \<Longrightarrow>
    marked (masks[unat w div 64 := masks ! (unat w div 64) AND NOT (push_bit (unat w mod 64) 1)]) =
      marked masks - {unat w}"
  using marked_update(2) [of "unat w div 64" masks "unat w mod 64"] by simp

lemma full_below_free:
  "\<forall>j<idx. masks ! j = - 1 \<Longrightarrow> r < length masks \<Longrightarrow>
    \<forall>j < (if r < idx then r else idx). (masks[r := v]) ! j = (- 1 :: u64)"
  by (auto simp: nth_list_update)

lemma full_nth: "\<forall>w \<in> set masks. w = - 1 \<Longrightarrow> j < length masks \<Longrightarrow> masks ! j = (- 1 :: u64)"
  by (simp add: all_set_conv_all_nth)

lemma full_all_marked:
  "\<forall>w \<in> set masks. w = - 1 \<Longrightarrow> marked (masks :: u64 list) = {..<64 * length masks}"
  by (auto simp: marked_def div_less_iff_less_mult [symmetric] mult.commute full_nth)

lemma scanned_marked:
  assumes "k < length masks" and "n < 64" and "\<forall>j<k. masks ! j = - 1" and "\<forall>j<n. bit (masks ! k) j"
    and "j < 64 * k + n"
  shows "j \<in> marked (masks :: u64 list)"
proof (cases "j < 64 * k")
  case True
  then have "j div 64 < k" by (simp add: div_less_iff_less_mult mult.commute)
  then show ?thesis using assms by (simp add: marked_def)
next
  case False
  then obtain i where "j = 64 * k + i" "i < n"
    using assms(5) by (metis le_add_diff_inverse linorder_not_less nat_add_left_cancel_less)
  then show ?thesis using assms not_marked_iff [of k masks i] by simp
qed

lemma surface_inv_Alloc: "surface_inv s \<Longrightarrow> surface_inv (snd (AllocSurfaceID s))"
  by (rule AllocSurfaceID_cases [of s]) (auto simp: surface_inv_def)

lemma surface_budget_Alloc:
  "surface_inv s \<Longrightarrow> surface_budget s \<le> Suc (surface_budget (snd (AllocSurfaceID s)))"
  by (rule AllocSurfaceID_cases [of s])
    (auto simp: surface_budget_def unat_word_ariths)

lemma unmanaged_sum:
  assumes "0 < surface_budget s"
  shows "unat (256 + m_surface_ids_unmanaged s) = 256 + unat (m_surface_ids_unmanaged s)"
    and "unat (m_surface_ids_unmanaged s + 1) = Suc (unat (m_surface_ids_unmanaged s))"
    and "\<not> 256 + m_surface_ids_unmanaged s <s 0"
  using assms by (simp_all add: surface_budget_def sless_zero_iff unat_word_ariths)

lemma surface_fresh:
  assumes "surface_inv s" and "0 < surface_budget s"
  shows "unat (fst (AllocSurfaceID s)) \<notin> surface_ids_used s \<and>
    surface_ids_used (snd (AllocSurfaceID s)) = insert (unat (fst (AllocSurfaceID s))) (surface_ids_used s) \<and>
    \<not> fst (AllocSurfaceID s) <s 0"
proof (rule AllocSurfaceID_cases [OF assms(1)])
  have len: "length (m_surface_id_mask s) = 4" using assms(1) by (simp add: surface_inv_def)
  assume alloc: "AllocSurfaceID s = (256 + m_surface_ids_unmanaged s,
             s\<lparr>m_surface_ids_unmanaged := m_surface_ids_unmanaged s + 1, m_surface_id_idx := 4\<rparr>)"
  show ?thesis
    unfolding alloc using unmanaged_sum [OF assms(2)] marked_bound [of _ "m_surface_id_mask s"] len
    by (force simp: surface_ids_used_def)
next
  have len: "length (m_surface_id_mask s) = 4" using assms(1) by (simp add: surface_inv_def)
  fix r k n
  assume kn: "k < 4" "n < 64" "\<not> bit (m_surface_id_mask s ! k) n" "unat r = 64 * k + n" "\<not> r <s 0"
    and alloc: "AllocSurfaceID s = (r, s\<lparr>m_surface_id_mask := (m_surface_id_mask s)
                                    [k := m_surface_id_mask s ! k OR push_bit n 1], m_surface_id_idx := k\<rparr>)"
  show ?thesis
    unfolding alloc surface_ids_used_def
    using kn len not_marked_iff [of k "m_surface_id_mask s" n] marked_update(1) [of k "m_surface_id_mask s" n]
    by (simp add: mult.commute del: push_bit_of_1)
qed

lemma surface_free:
  assumes "surface_inv s"
  shows "surface_inv (FreeSurfaceID r s)"
    and "surface_ids_used (FreeSurfaceID r s) =
           (if r < 256 then surface_ids_used s - {unat r} else surface_ids_used s)"
  using assms full_below_free [of "m_surface_id_idx s" "m_surface_id_mask s" "unat r div 64"]
    marked_free [of r "m_surface_id_mask s"]
  by (auto simp: surface_inv_def surface_ids_used_def FreeSurfaceID_def Let_def
      unat_and_63 unat_shift_6 word_less_nat_alt div_less_iff_less_mult)

lemma surface_budget_free: "surface_budget (FreeSurfaceID r s) = surface_budget s"
  by (simp add: surface_budget_def FreeSurfaceID_def Let_def)

interpretation surface_ids: id_allocator AllocSurfaceID FreeSurfaceID surface_ids_used surface_inv
    "\<lambda>n s. n \<le> surface_budget s" "\<lambda>r. r < 256"
proof unfold_locales
  fix s :: accel_ids and n :: nat
  assume "surface_inv s" and "Suc n \<le> surface_budget s"
  then show "n \<le> surface_budget (snd (AllocSurfaceID s))"
    using surface_budget_Alloc [of s] by simp
qed (use surface_fresh in \<open>auto simp: surface_inv_Alloc surface_free surface_budget_free\<close>)

subsection \<open>GMR numbers\<close>

definition gmr_inv :: "accel_ids \<Rightarrow> bool" where
  "gmr_inv s \<longleftrightarrow> length (m_gmr_id_mask s) = 2 \<and> m_gmr_id_idx s \<le> 2 \<and>
     (\<forall>j < m_gmr_id_idx s. m_gmr_id_mask s ! j = - 1)"

definition gmr_ids_used :: "accel_ids \<Rightarrow> nat set" where
  "gmr_ids_used s = marked (m_gmr_id_mask s)"

lemma AllocGMRID_cases:
  assumes "gmr_inv s"
  obtains (exhausted) "\<forall>w \<in> set (m_gmr_id_mask s). w = - 1"
      and "AllocGMRID s = (- 1, s\<lparr>m_gmr_id_idx := 2\<rparr>)"
  | (number) r k n where "k < 2" and "m_gmr_id_idx s \<le> k" and "n < 64"
      and "\<forall>j<k. m_gmr_id_mask s ! j = - 1" and "\<not> bit (m_gmr_id_mask s ! k) n"
      and "unat r = 64 * k + n" and "\<not> r <s 0"
      and "AllocGMRID s = (r, s\<lparr>m_gmr_id_mask := (m_gmr_id_mask s)
                                    [k := m_gmr_id_mask s ! k OR push_bit n 1], m_gmr_id_idx := k\<rparr>)"
      and "\<forall>j<n. bit (m_gmr_id_mask s ! k) j"
proof -
  from assms have a: "length (m_gmr_id_mask s) = 2" "m_gmr_id_idx s \<le> 2"
    "\<forall>j < m_gmr_id_idx s. m_gmr_id_mask s ! j = - 1"
    by (auto simp: gmr_inv_def)
  obtain r tail where scan: "find_bit_in_array64 (drop (m_gmr_id_idx s) (m_gmr_id_mask s)) = (r, tail)"
    by fastforce
  show thesis
  proof (rule scan_from_idx [of "m_gmr_id_mask s" "m_gmr_id_idx s" r tail])
    assume "r = - 1" "\<forall>w \<in> set (m_gmr_id_mask s). w = - 1"
      "take (m_gmr_id_idx s) (m_gmr_id_mask s) @ tail = m_gmr_id_mask s"
    then show thesis
      by (intro exhausted) (simp_all add: AllocGMRID_def a scan Let_def minus_one_negative)
  next
    fix k n
    assume *: "k < length (m_gmr_id_mask s)" "m_gmr_id_idx s \<le> k" "n < 64"
      "\<forall>j<k. m_gmr_id_mask s ! j = - 1" "\<not> bit (m_gmr_id_mask s ! k) n"
      and r: "r = of_nat (64 * (k - m_gmr_id_idx s) + n)"
      and tail: "take (m_gmr_id_idx s) (m_gmr_id_mask s) @ tail =
         (m_gmr_id_mask s)[k := m_gmr_id_mask s ! k OR push_bit n 1]"
      and low: "\<forall>j<n. bit (m_gmr_id_mask s ! k) j"
    then have k: "k < 2" "k < 4" using a by simp_all
    note num = scan_number [OF k(2) *(2,3) r]
    show thesis
      by (rule number [of k n "r + push_bit 6 (of_nat (m_gmr_id_idx s))"])
        (use * k num tail a low in \<open>simp_all add: AllocGMRID_def scan Let_def del: push_bit_of_1\<close>)
  qed (use a scan in simp_all)
qed

lemma gmr_Alloc:
  assumes "gmr_inv s"
  shows "gmr_inv (snd (AllocGMRID s))"
    and "\<not> fst (AllocGMRID s) <s 0 \<Longrightarrow> unat (fst (AllocGMRID s)) \<notin> gmr_ids_used s \<and>
      gmr_ids_used (snd (AllocGMRID s)) = insert (unat (fst (AllocGMRID s))) (gmr_ids_used s) \<and>
      unat (fst (AllocGMRID s)) < 128"
    and "fst (AllocGMRID s) <s 0 \<Longrightarrow> gmr_ids_used (snd (AllocGMRID s)) = gmr_ids_used s \<and>
      gmr_ids_used s = {..<128}"
proof -
  have len: "length (m_gmr_id_mask s) = 2" using assms by (simp add: gmr_inv_def)
  show "gmr_inv (snd (AllocGMRID s))"
    using assms by (rule AllocGMRID_cases) (use assms in \<open>auto simp: gmr_inv_def full_nth\<close>)
  show "\<not> fst (AllocGMRID s) <s 0 \<Longrightarrow> unat (fst (AllocGMRID s)) \<notin> gmr_ids_used s \<and>
      gmr_ids_used (snd (AllocGMRID s)) = insert (unat (fst (AllocGMRID s))) (gmr_ids_used s) \<and>
      unat (fst (AllocGMRID s)) < 128"
    using assms
  proof (rule AllocGMRID_cases)
    fix r k n
    assume kn: "k < 2" "n < 64" "\<not> bit (m_gmr_id_mask s ! k) n" "unat r = 64 * k + n"
      and alloc: "AllocGMRID s = (r, s\<lparr>m_gmr_id_mask := (m_gmr_id_mask s)
                                    [k := m_gmr_id_mask s ! k OR push_bit n 1], m_gmr_id_idx := k\<rparr>)"
    show ?thesis
      unfolding alloc gmr_ids_used_def
      using kn len not_marked_iff [of k "m_gmr_id_mask s" n] marked_update(1) [of k "m_gmr_id_mask s" n]
      by (simp add: mult.commute del: push_bit_of_1)
  qed (simp add: minus_one_negative)
  show "fst (AllocGMRID s) <s 0 \<Longrightarrow> gmr_ids_used (snd (AllocGMRID s)) = gmr_ids_used s \<and>
      gmr_ids_used s = {..<128}"
    using assms
    by (rule AllocGMRID_cases) (simp_all add: gmr_ids_used_def full_all_marked len)
qed

lemma gmr_free:
  assumes "gmr_inv s"
  shows "gmr_inv (FreeGMRID r s)"
    and "gmr_ids_used (FreeGMRID r s) = (if r < 128 then gmr_ids_used s - {unat r} else gmr_ids_used s)"
  using assms full_below_free [of "m_gmr_id_idx s" "m_gmr_id_mask s" "unat r div 64"]
    marked_free [of r "m_gmr_id_mask s"]
  by (auto simp: gmr_inv_def gmr_ids_used_def FreeGMRID_def Let_def
      unat_and_63 unat_shift_6 word_less_nat_alt div_less_iff_less_mult)

interpretation gmr_ids: id_allocator AllocGMRID FreeGMRID gmr_ids_used gmr_inv "\<lambda>_ _. True" "\<lambda>r. r < 128"
  by unfold_locales
    (simp_all add: gmr_Alloc gmr_free signed.not_less [symmetric] del: word_less_no split del: if_split)

subsection \<open>Context and stream numbers\<close>

definition context_ids_used :: "accel_ids \<Rightarrow> nat set" where
  "context_ids_used s = {j. j < 64 \<and> bit (m_context_id_mask s) j}
     \<union> {64..<64 + unat (m_context_ids_unmanaged s)}"

definition context_budget :: "accel_ids \<Rightarrow> nat" where
  "context_budget s = 2147483648 - 64 - unat (m_context_ids_unmanaged s)"

lemma AllocContextID_cases:
  obtains (unmanaged) "m_context_id_mask s = - 1"
      and "AllocContextID s = (64 + m_context_ids_unmanaged s,
             s\<lparr>m_context_ids_unmanaged := m_context_ids_unmanaged s + 1\<rparr>)"
  | (managed) n where "n < 64" and "\<not> bit (m_context_id_mask s) n"
      and "AllocContextID s = (of_nat n, s\<lparr>m_context_id_mask := m_context_id_mask s OR push_bit n 1\<rparr>)"
proof (cases "[m_context_id_mask s]" rule: find_bit_in_array64_cases)
  case full
  then show thesis
    by (intro unmanaged) (simp_all add: AllocContextID_def minus_one_negative)
next
  case (found k n)
  then have "k = 0" "\<not> (of_nat n :: u32) <s 0"
    by (simp_all add: sless_zero_iff unat_of_nat)
  then show thesis
    using found by (intro managed [of n]) (simp_all add: AllocContextID_def Let_def del: push_bit_of_1)
qed

lemma context_alloc:
  assumes "0 < context_budget s"
  shows "unat (fst (AllocContextID s)) \<notin> context_ids_used s \<and>
    context_ids_used (snd (AllocContextID s)) = insert (unat (fst (AllocContextID s))) (context_ids_used s) \<and>
    \<not> fst (AllocContextID s) <s 0"
proof (cases s rule: AllocContextID_cases)
  case unmanaged
  have "unat (64 + m_context_ids_unmanaged s) = 64 + unat (m_context_ids_unmanaged s)"
    "unat (m_context_ids_unmanaged s + 1) = Suc (unat (m_context_ids_unmanaged s))"
    "\<not> 64 + m_context_ids_unmanaged s <s 0"
    using assms by (simp_all add: context_budget_def sless_zero_iff unat_word_ariths)
  then show ?thesis unfolding unmanaged(2) by (auto simp: context_ids_used_def)
next
  case (managed n)
  have "unat (of_nat n :: u32) = n" "\<not> (of_nat n :: u32) <s 0"
    using managed(1) by (simp_all add: sless_zero_iff unat_of_nat)
  then show ?thesis
    unfolding managed(3) using managed(1,2) by (auto simp: context_ids_used_def bit_simps)
qed

lemma context_budget_alloc: "context_budget s \<le> Suc (context_budget (snd (AllocContextID s)))"
  by (cases s rule: AllocContextID_cases) (auto simp: context_budget_def unat_word_ariths)

lemma context_free:
  "context_ids_used (FreeContextID r s) =
     (if r < 64 then context_ids_used s - {unat r} else context_ids_used s)"
  by (auto simp: context_ids_used_def FreeContextID_def bit_simps word_le_nat_alt word_less_nat_alt)

lemma context_budget_free: "context_budget (FreeContextID r s) = context_budget s"
  by (simp add: context_budget_def FreeContextID_def)

interpretation context_ids: id_allocator AllocContextID FreeContextID context_ids_used "\<lambda>_. True"
    "\<lambda>n s. n \<le> context_budget s" "\<lambda>r. r < 64"
proof unfold_locales
  fix s :: accel_ids and n :: nat
  assume "Suc n \<le> context_budget s"
  then show "n \<le> context_budget (snd (AllocContextID s))"
    using context_budget_alloc [of s] by simp
qed (use context_alloc in \<open>auto simp: context_free context_budget_free\<close>)

lemma find_bit_in_array32_cases:
  obtains (full) "\<forall>w \<in> set array. w = - 1" and "find_bit_in_array32 array = (- 1, array)"
  | (found) k n where "k < length array" and "n < 32" and "\<forall>j<k. array ! j = - 1" and "\<not> bit (array ! k) n"
      and "find_bit_in_array32 array = (of_nat (32 * k + n), array[k := array ! k OR push_bit n 1])"
proof (cases "\<forall>w \<in> set array. w = - 1")
  case True
  then show thesis using full find_bit_loop_full unfolding find_bit_in_array32_def by blast
next
  case False
  then have "\<exists>w \<in> set array. w \<noteq> - 1" by blast
  then show thesis
  proof (rule find_bit_loop_found [where lg = log_2_32 and i = 0])
    fix k n
    assume "k < length array" "n < LENGTH(32)" "\<forall>j<k. array ! j = - 1" "\<not> bit (array ! k) n"
      "find_bit_loop log_2_32 (int LENGTH(32)) 0 array =
         (word_of_int (0 + int (k * LENGTH(32) + n)), array[k := array ! k OR push_bit n 1])"
    then show thesis
      by (intro found [of k n]) (simp_all add: find_bit_in_array32_def mult.commute)
  qed (rule log_2_32_exp, simp)
qed

definition stream_ids_used :: "accel_ids \<Rightarrow> nat set" where
  "stream_ids_used s = {j. j < 32 \<and> bit (m_stream_id_mask s) j}"

lemma AllocStreamID_cases:
  obtains (exhausted) "m_stream_id_mask s = - 1" and "AllocStreamID s = (- 1, s)"
  | (number) n where "n < 32" and "\<not> bit (m_stream_id_mask s) n"
      and "AllocStreamID s = (of_nat n, s\<lparr>m_stream_id_mask := m_stream_id_mask s OR push_bit n 1\<rparr>)"
proof (cases "[m_stream_id_mask s]" rule: find_bit_in_array32_cases)
  case full
  then show thesis by (intro exhausted) (simp_all add: AllocStreamID_def)
next
  case (found k n)
  then have "k = 0" by simp
  with found show thesis
    by (intro number [of n]) (simp_all add: AllocStreamID_def del: push_bit_of_1)
qed

lemma stream_alloc:
  "\<not> fst (AllocStreamID s) <s 0 \<Longrightarrow> unat (fst (AllocStreamID s)) \<notin> stream_ids_used s \<and>
     stream_ids_used (snd (AllocStreamID s)) = insert (unat (fst (AllocStreamID s))) (stream_ids_used s)"
proof (cases s rule: AllocStreamID_cases)
  case (number n)
  have "unat (of_nat n :: u32) = n"
    using number(1) by (simp add: unat_of_nat)
  then show ?thesis
    unfolding number(3) using number(1,2) by (auto simp: stream_ids_used_def bit_simps)
qed (simp add: minus_one_negative)

lemma stream_alloc_full:
  "fst (AllocStreamID s) <s 0 \<Longrightarrow> stream_ids_used (snd (AllocStreamID s)) = stream_ids_used s \<and>
     stream_ids_used s = {..<32}"
proof (cases s rule: AllocStreamID_cases)
  case (number n)
  moreover have "\<not> (of_nat n :: u32) <s 0"
    using number(1) by (simp add: sless_zero_iff unat_of_nat)
  moreover assume "fst (AllocStreamID s) <s 0"
  ultimately show ?thesis by simp
qed (auto simp: stream_ids_used_def)

lemma stream_free:
  "stream_ids_used (FreeStreamID r s) =
     (if r < 32 then stream_ids_used s - {unat r} else stream_ids_used s)"
  by (auto simp: stream_ids_used_def FreeStreamID_def bit_simps word_le_nat_alt word_less_nat_alt)

interpretation stream_ids: id_allocator AllocStreamID FreeStreamID stream_ids_used "\<lambda>_. True"
    "\<lambda>_ _. True" "\<lambda>r. r < 32"
  by unfold_locales
    (simp_all add: stream_alloc stream_alloc_full stream_free signed.not_less [symmetric] del: word_less_no split del: if_split)

section \<open>Properties\<close>

text \<open>The state \<open>start\<close> leaves satisfies the invariants of both multi-word pools.\<close>

lemma surface_inv_start: "surface_inv (accel_ids_start n accel_ids_init)"
  by (simp add: surface_inv_def accel_ids_start_def accel_ids_init_def)

lemma gmr_inv_start: "gmr_inv (accel_ids_start n accel_ids_init)"
  by (simp add: gmr_inv_def accel_ids_start_def accel_ids_init_def)

lemma marked_zero [simp]: "marked (replicate n (0 :: 'w::len word)) = {}"
  by (auto simp: marked_def)

lemma gmr_ids_used_start: "gmr_ids_used (accel_ids_start n accel_ids_init) = {unat n..<128}"
  by (simp add: gmr_ids_used_def accel_ids_start_def accel_ids_init_def marked_mask_array64)

lemma surface_budget_start: "surface_budget (accel_ids_start n accel_ids_init) = 2147483392"
  by (simp add: surface_budget_def accel_ids_start_def accel_ids_init_def)

lemma gmr_ids_used_bound: "gmr_inv s \<Longrightarrow> gmr_ids_used s \<subseteq> {..<128}"
  using marked_bound [of _ "m_gmr_id_mask s"] by (auto simp: gmr_ids_used_def gmr_inv_def)

text \<open>C38: over any history of surface number requests after \<open>start\<close>, shorter than the range of
  the unmanaged counter, no number is held by two clients at once, and every held number is
  recorded as in use, also after the 256 mask bits are exhausted and the counter takes over.\<close>

theorem surface_ids_never_shared:
  assumes "serve AllocSurfaceID FreeSurfaceID requests ([], accel_ids_start max_gmr_ids accel_ids_init) = (held, s)"
    and "length requests \<le> 2147483392"
  shows "distinct held \<and> unat ` set held \<subseteq> surface_ids_used s"
proof -
  have "surface_ids.held_inv {} [] (accel_ids_start max_gmr_ids accel_ids_init)"
    by (simp add: surface_ids.held_inv_def surface_inv_start)
  from surface_ids.serve_held_inv [OF this _ assms(1)] assms(2) show ?thesis
    by (simp add: surface_budget_start surface_ids.held_inv_def)
qed

lemma surface_ids_never_shared_witness:
  "\<exists>held s. serve AllocSurfaceID FreeSurfaceID [Acquire, Acquire, Give_back 0, Acquire, Acquire]
      ([], accel_ids_start 100 accel_ids_init) = (held, s) \<and>
    distinct held \<and> unat ` set held \<subseteq> surface_ids_used s"
proof -
  obtain held s where *: "serve AllocSurfaceID FreeSurfaceID [Acquire, Acquire, Give_back 0, Acquire, Acquire]
      ([], accel_ids_start 100 accel_ids_init) = (held, s)"
    by fastforce
  with surface_ids_never_shared [OF *] show ?thesis by simp
qed

text \<open>The GMR numbers handed out after \<open>start\<close> are pairwise distinct and all below the
  number of GMRs the device reports and below the capacity of the mask, over any history of
  requests.\<close>

theorem gmr_ids_in_device_range:
  assumes "serve AllocGMRID FreeGMRID requests ([], accel_ids_start max_gmr_ids accel_ids_init) = (held, s)"
  shows "distinct held \<and> (\<forall>r \<in> set held. unat r < min (unat max_gmr_ids) 128)"
proof -
  have "gmr_ids.held_inv {unat max_gmr_ids..<128} [] (accel_ids_start max_gmr_ids accel_ids_init)"
    by (simp add: gmr_ids.held_inv_def gmr_inv_start gmr_ids_used_start)
  from gmr_ids.serve_held_inv [OF this _ assms] have "gmr_ids.held_inv {unat max_gmr_ids..<128} held s"
    by simp
  then have *: "distinct held" "unat ` set held \<subseteq> {..<128}" "unat ` set held \<inter> {unat max_gmr_ids..<128} = {}"
    using gmr_ids_used_bound [of s] by (auto simp: gmr_ids.held_inv_def)
  have "unat r < min (unat max_gmr_ids) 128" if "r \<in> set held" for r
  proof -
    have "unat r \<in> unat ` set held" using that by blast
    with *(2,3) have "unat r < 128" "unat r \<notin> {unat max_gmr_ids..<128}" by blast+
    then show ?thesis by auto
  qed
  with *(1) show ?thesis by blast
qed

lemma gmr_ids_in_device_range_witness:
  "\<exists>held s. serve AllocGMRID FreeGMRID [Acquire, Acquire, Give_back 1, Acquire, Acquire]
      ([], accel_ids_start 2 accel_ids_init) = (held, s) \<and>
    distinct held \<and> (\<forall>r \<in> set held. unat r < min (unat (2 :: u32)) 128)"
proof -
  obtain held s where *: "serve AllocGMRID FreeGMRID [Acquire, Acquire, Give_back 1, Acquire, Acquire]
      ([], accel_ids_start 2 accel_ids_init) = (held, s)"
    by fastforce
  with gmr_ids_in_device_range [OF *] show ?thesis by blast
qed

text \<open>\<open>AllocGMRID\<close> reports exhaustion when all 128 numbers are in use, and otherwise
  hands out the lowest number that is not in use, whatever the start index it keeps.\<close>

theorem AllocGMRID_lowest:
  assumes "gmr_inv s"
  shows "if gmr_ids_used s = {..<128} then fst (AllocGMRID s) = - 1
         else \<not> fst (AllocGMRID s) <s 0 \<and> unat (fst (AllocGMRID s)) = (LEAST j. j \<notin> gmr_ids_used s)"
  using assms
proof (rule AllocGMRID_cases)
  have len: "length (m_gmr_id_mask s) = 2" using assms by (simp add: gmr_inv_def)
  {
    assume full: "\<forall>w \<in> set (m_gmr_id_mask s). w = - 1"
      and alloc: "AllocGMRID s = (- 1, s\<lparr>m_gmr_id_idx := 2\<rparr>)"
    show ?thesis
      using full_all_marked [OF full] by (simp add: alloc gmr_ids_used_def len)
  }
  fix r k n
  assume kn: "k < 2" "n < 64" "\<forall>j<k. m_gmr_id_mask s ! j = - 1" "\<not> bit (m_gmr_id_mask s ! k) n"
      "unat r = 64 * k + n" "\<not> r <s 0" "\<forall>j<n. bit (m_gmr_id_mask s ! k) j"
    and alloc: "AllocGMRID s = (r, s\<lparr>m_gmr_id_mask := (m_gmr_id_mask s)
                                    [k := m_gmr_id_mask s ! k OR push_bit n 1], m_gmr_id_idx := k\<rparr>)"
  have free: "64 * k + n \<notin> gmr_ids_used s" "64 * k + n < 128"
    using kn len not_marked_iff [of k "m_gmr_id_mask s" n] by (simp_all add: gmr_ids_used_def)
  have "j \<in> gmr_ids_used s" if "j < 64 * k + n" for j
    using that kn len scanned_marked [of k "m_gmr_id_mask s" n j] by (simp add: gmr_ids_used_def)
  then have "(LEAST j. j \<notin> gmr_ids_used s) = 64 * k + n"
    using free by (intro Least_equality) (auto simp: not_less [symmetric])
  moreover have "gmr_ids_used s \<noteq> {..<128}" using free by blast
  ultimately show ?thesis using kn by (simp add: alloc)
qed

lemma AllocGMRID_lowest_witness:
  "let s = accel_ids_start 64 accel_ids_init in
   if gmr_ids_used s = {..<128} then fst (AllocGMRID s) = - 1
   else \<not> fst (AllocGMRID s) <s 0 \<and> unat (fst (AllocGMRID s)) = (LEAST j. j \<notin> gmr_ids_used s)"
  unfolding Let_def by (rule AllocGMRID_lowest [OF gmr_inv_start])

text \<open>\<open>mask_array64\<close>, which fills whole words where it can and single bits at both ends,
  marks exactly the numbers from \<open>mask_start\<close> up to \<open>mask_end\<close>, for all ranges that end within
  the array, word-aligned or not, inside one word or across several.\<close>

theorem mask_array64_marks_range:
  assumes "mask_end \<le> 64 * length array"
  shows "marked (mask_array64 array mask_start mask_end) = marked array \<union> {mask_start..<mask_end}"
  using assms by (rule marked_mask_array64)

lemma mask_array64_marks_range_witness:
  "marked (mask_array64 [0, 0, 5] 3 130) = marked [0, 0, 5 :: u64] \<union> {3..<130}"
  by (rule mask_array64_marks_range) simp

end
