(* ===== verification/Framebuffer.thy ===== *)
theory Framebuffer
  imports SvgaDevice
begin

text \<open>
  The framebuffer driver (\<^verbatim>\<open>FB/VMsvga2.cpp\<close>, \<^verbatim>\<open>FB/modes.cpp\<close>): the mode table, the mode and
  attribute queries of IOKit's framebuffer family, mode setting, EDID injection, the custom-resolution
  protocol with the window server, and the refresh timer.

  Logging and registry properties are left out.  The base class \<^verbatim>\<open>IOFramebuffer\<close> is not part of the
  sources: what its methods return is a parameter.  Locks are held around device accesses only, so an
  operation is one step.  Timers are the delay of the pending call, if one is pending.
\<close>

section \<open>The mode table\<close>

record display_mode =
  width :: u32
  height :: u32
  flags :: u32

text \<open>\<^verbatim>\<open>kDisplayModeValidFlag\<close>, \<^verbatim>\<open>kDisplayModeSafeFlag\<close>, \<^verbatim>\<open>kDisplayModeDefaultFlag\<close>.\<close>

abbreviation (input) kDisplayModeValidFlag :: u32 where "kDisplayModeValidFlag \<equiv> 1"
abbreviation (input) kDisplayModeSafeFlag :: u32 where "kDisplayModeSafeFlag \<equiv> 2"
abbreviation (input) kDisplayModeDefaultFlag :: u32 where "kDisplayModeDefaultFlag \<equiv> 4"
abbreviation (input) CUSTOM_MODE_ID :: int where "CUSTOM_MODE_ID \<equiv> 1"
abbreviation (input) NUM_DISPLAY_MODES :: int where "NUM_DISPLAY_MODES \<equiv> 26"

definition safe_mode :: "u32 \<times> u32 \<Rightarrow> display_mode" where
  "safe_mode m = \<lparr>width = fst m, height = snd m, flags = kDisplayModeValidFlag OR kDisplayModeSafeFlag\<rparr>"

definition modeList :: "display_mode list" where
  "modeList = map safe_mode [(800, 600), (800, 600)] @
    [\<lparr>width = 1024, height = 768, flags = kDisplayModeValidFlag OR kDisplayModeSafeFlag OR kDisplayModeDefaultFlag\<rparr>] @
    map safe_mode [(1152, 720), (1152, 864), (1152, 900), (1280, 720), (1280, 768), (1280, 800), (1280, 960),
      (1280, 1024), (1366, 768), (1376, 1032), (1400, 1050), (1440, 900), (1600, 900), (1600, 1200), (1680, 1050),
      (1920, 1080), (1920, 1200), (1920, 1440), (2048, 1152), (2048, 1536), (2360, 1770), (2560, 1440), (2560, 1600)]"

section \<open>State\<close>

text \<open>\<open>m_intr\<close>: the target, reference and procedure of the connect interrupt, zero for null.\<close>

record fb =
  dev :: svga
  m_vram :: "nat option"
  m_modes :: "int list"
  m_display_mode :: int
  m_depth_mode :: int
  m_restore_call :: bool
  restore_timer :: "nat option"
  m_custom_switch :: u32
  m_custom_mode_switched :: bool
  m_intr :: "nat \<times> nat \<times> nat"
  m_iolock :: bool
  m_cursor_image :: bool
  m_hotspot_x :: u32
  m_hotspot_y :: u32
  m_intr_enabled :: bool
  m_accel_updates :: bool
  m_refresh_call :: bool
  refresh_timer :: "u32 option"
  m_refresh_quantum_ms :: u32
  customMode :: display_mode
  m_edid_size :: u32
  m_edid :: "u8 list option"
  vmw_options_fb :: u32
  intr_calls :: "(nat \<times> nat) list"

text \<open>\<open>m_modes\<close> holds the active modes only, so its length is \<^verbatim>\<open>m_num_active_modes\<close>.\<close>

abbreviation (input) VMW_OPTION_FB_FIFO_INIT :: u32 where "VMW_OPTION_FB_FIFO_INIT \<equiv> 1"
abbreviation (input) VMW_OPTION_FB_REFRESH_TIMER :: u32 where "VMW_OPTION_FB_REFRESH_TIMER \<equiv> 2"
abbreviation (input) VMW_OPTION_FB_ACCEL :: u32 where "VMW_OPTION_FB_ACCEL \<equiv> 4"
abbreviation (input) VMW_OPTION_FB_CURSOR_BYPASS_2 :: u32 where "VMW_OPTION_FB_CURSOR_BYPASS_2 \<equiv> 8"
abbreviation (input) VMW_OPTION_FB_REG_DUMP :: u32 where "VMW_OPTION_FB_REG_DUMP \<equiv> 16"

definition checkOptionFB :: "u32 \<Rightarrow> fb \<Rightarrow> bool" where
  "checkOptionFB opt s \<longleftrightarrow> vmw_options_fb s AND opt \<noteq> 0"

section \<open>Refresh timer\<close>

definition scheduleRefreshTimer :: "u32 \<Rightarrow> fb \<Rightarrow> fb" where
  "scheduleRefreshTimer milliSeconds s = (if m_refresh_call s then s\<lparr>refresh_timer := Some milliSeconds\<rparr> else s)"

definition cancelRefreshTimer :: "fb \<Rightarrow> fb" where
  "cancelRefreshTimer s = (if m_refresh_call s then s\<lparr>refresh_timer := None\<rparr> else s)"

definition setupRefreshTimer :: "bool \<Rightarrow> fb \<Rightarrow> fb" where
  "setupRefreshTimer allocated s = s\<lparr>m_refresh_call := allocated\<rparr>"

definition deleteRefreshTimer :: "fb \<Rightarrow> fb" where
  "deleteRefreshTimer s = (if m_refresh_call s then s\<lparr>m_refresh_call := False\<rparr> else s)"

text \<open>The timer's action: the pending call has been taken off when it runs.\<close>

definition refreshTimerAction :: "host \<Rightarrow> fb \<Rightarrow> fb option" where
  "refreshTimerAction h s = do {
     let s = s\<lparr>refresh_timer := None\<rparr>;
     (_, d) \<leftarrow> UpdateFullscreen h (dev s);
     let s = s\<lparr>dev := RingDoorBell h d\<rparr>;
     Some (if \<not> m_accel_updates s then scheduleRefreshTimer (m_refresh_quantum_ms s) s else s)
   }"

section \<open>Modes\<close>

definition FindDepthMode :: "int \<Rightarrow> u32" where
  "FindDepthMode depth = (if depth \<noteq> 0 then 0 else 32)"

definition GetDisplayMode :: "int \<Rightarrow> fb \<Rightarrow> display_mode option" where
  "GetDisplayMode displayMode s =
    (if displayMode = CUSTOM_MODE_ID then Some (customMode s)
     else if displayMode \<ge> 1 \<and> displayMode \<le> NUM_DISPLAY_MODES then Some (modeList ! nat (displayMode - 1))
     else None)"

definition IOSelectToString :: "u32 \<Rightarrow> u8 list" where
  "IOSelectToString io_select =
    [ucast (drop_bit 24 io_select), ucast (drop_bit 16 io_select), ucast (drop_bit 8 io_select), ucast io_select, 0]"

fun detect_mode :: "u32 \<Rightarrow> u32 \<Rightarrow> display_mode list \<Rightarrow> int \<Rightarrow> int \<Rightarrow> int \<Rightarrow> int" where
  "detect_mode w h [] i tableDefault defaultMode = (if tableDefault \<noteq> 0 then tableDefault else defaultMode)"
| "detect_mode w h (m # ms) i tableDefault defaultMode =
    (if w = width m \<and> h = height m then i + 1
     else detect_mode w h ms (i + 1) (if flags m AND kDisplayModeDefaultFlag \<noteq> 0 then i + 1 else tableDefault) defaultMode)"

definition TryDetectCurrentDisplayMode :: "int \<Rightarrow> fb \<Rightarrow> int" where
  "TryDetectCurrentDisplayMode defaultMode s = detect_mode (m_width (dev s)) (m_height (dev s)) (tl modeList) 1 0 defaultMode"

definition getCurrentDisplayMode :: "fb \<Rightarrow> int \<times> int" where
  "getCurrentDisplayMode s = (m_display_mode s, m_depth_mode s)"

definition getDisplayModes :: "fb \<Rightarrow> int list" where
  "getDisplayModes s = (if m_custom_switch s \<noteq> 0 then [CUSTOM_MODE_ID] else m_modes s)"

definition getDisplayModeCount :: "fb \<Rightarrow> nat" where
  "getDisplayModeCount s = (if m_custom_switch s \<noteq> 0 then 1 else length (m_modes s))"

record mode_information =
  maxDepthIndex :: nat
  nominalWidth :: u32
  nominalHeight :: u32
  refreshRate :: u32
  info_flags :: u32

definition getInformationForDisplayMode :: "int \<Rightarrow> fb \<Rightarrow> ioreturn + mode_information" where
  "getInformationForDisplayMode displayMode s =
    (case GetDisplayMode displayMode s of None \<Rightarrow> Inl kIOReturnBadArgument
     | Some dme \<Rightarrow> Inr \<lparr>maxDepthIndex = 0, nominalWidth = width dme, nominalHeight = height dme,
         refreshRate = push_bit 16 60, info_flags = flags dme\<rparr>)"

record pixel_information =
  activeWidth :: u32
  activeHeight :: u32
  pixel_flags :: u32
  componentMasks :: "u32 list"
  bitsPerPixel :: u32
  componentCount :: u32
  bitsPerComponent :: u32
  bytesPerRow :: u32

text \<open>\<open>system_aperture\<close> says whether the aperture asked for is \<^verbatim>\<open>kIOFBSystemAperture\<close>.\<close>

definition getPixelInformation :: "int \<Rightarrow> int \<Rightarrow> bool \<Rightarrow> fb \<Rightarrow> ioreturn + pixel_information" where
  "getPixelInformation displayMode depth system_aperture s =
    (if \<not> system_aperture then Inl kIOReturnUnsupportedMode
     else if depth \<noteq> 0 then Inl kIOReturnBadArgument
     else case GetDisplayMode displayMode s of None \<Rightarrow> Inl kIOReturnBadArgument
     | Some dme \<Rightarrow> Inr \<lparr>activeWidth = width dme, activeHeight = height dme, pixel_flags = flags dme,
         componentMasks = [0xFF0000, 0x00FF00, 0x0000FF], bitsPerPixel = 32, componentCount = 3, bitsPerComponent = 8,
         bytesPerRow = push_bit 2 ((width dme + 7) AND NOT 7)\<rparr>)"

definition setDisplayMode :: "host \<Rightarrow> int \<Rightarrow> int \<Rightarrow> fb \<Rightarrow> (ioreturn \<times> fb) option" where
  "setDisplayMode h displayMode depth s =
    (if depth \<noteq> 0 then Some (kIOReturnBadArgument, s)
     else case GetDisplayMode displayMode s of None \<Rightarrow> Some (kIOReturnBadArgument, s)
     | Some dme \<Rightarrow>
         if m_custom_mode_switched s then
           let s = (if width (customMode s) = width dme \<and> height (customMode s) = height dme
                    then s\<lparr>m_custom_mode_switched := False\<rparr> else s)
           in Some (kIOReturnSuccess, s\<lparr>m_display_mode := displayMode, m_depth_mode := 0\<rparr>)
         else do {
           let s = (if \<not> m_accel_updates s then cancelRefreshTimer s else s);
           d \<leftarrow> SetMode h (width dme) (height dme) 32 (dev s);
           let d = (if checkOptionFB VMW_OPTION_FB_REG_DUMP s then snd (RegDump h d) else d);
           let s = s\<lparr>dev := d, m_display_mode := displayMode, m_depth_mode := 0\<rparr>;
           Some (kIOReturnSuccess, if \<not> m_accel_updates s then scheduleRefreshTimer 200 s else s)
         })"

section \<open>Memory ranges\<close>

text \<open>
  \<open>withSubRange\<close> is IOKit's: the subrange at an offset, of a length, of a range, if there is one.
  Ranges are offset and length.
\<close>

definition getVRAMRange :: "(nat \<times> nat \<Rightarrow> nat \<Rightarrow> nat \<Rightarrow> (nat \<times> nat) option) \<Rightarrow> fb \<Rightarrow> (nat \<times> nat) option" where
  "getVRAMRange withSubRange s =
    (case m_vram s of None \<Rightarrow> None
     | Some len \<Rightarrow> if unat (m_vram_size (dev s)) \<ge> len then Some (0, len)
                  else withSubRange (0, len) 0 (unat (m_vram_size (dev s))))"

definition getApertureRange :: "(nat \<times> nat \<Rightarrow> nat \<Rightarrow> nat \<Rightarrow> (nat \<times> nat) option) \<Rightarrow> bool \<Rightarrow> fb \<Rightarrow> (nat \<times> nat) option" where
  "getApertureRange withSubRange system_aperture s =
    (if \<not> system_aperture then None
     else case m_vram s of None \<Rightarrow> None
     | Some len \<Rightarrow> withSubRange (0, len) (unat (m_fb_offset (dev s))) (unat (m_fb_size (dev s))))"

section \<open>Cursor\<close>

definition setCursorState :: "host \<Rightarrow> u32 \<Rightarrow> u32 \<Rightarrow> bool \<Rightarrow> fb \<Rightarrow> ioreturn \<times> fb" where
  "setCursorState h x y visible s =
    (if \<not> checkOptionFB VMW_OPTION_FB_FIFO_INIT s then (kIOReturnUnsupported, s)
     else let x = x + m_hotspot_x s;
              x = (if x <s 0 then 0 else x);
              y = y + m_hotspot_y s;
              y = (if y <s 0 then 0 else y)
     in (kIOReturnSuccess,
         s\<lparr>dev := svga_setCursorState h (checkOptionFB VMW_OPTION_FB_CURSOR_BYPASS_2 s) x y visible (dev s)\<rparr>))"

definition premultiply :: "u32 \<Rightarrow> u32" where
  "premultiply pixel =
    (let alpha = drop_bit 24 pixel
     in if alpha = 0 \<or> (ucast alpha :: u8) = 255 then pixel
        else let b = (pixel AND 0xFF) * alpha div 255;
                 g = (drop_bit 8 pixel AND 0xFF) * alpha div 255;
                 r = (drop_bit 16 pixel AND 0xFF) * alpha div 255
        in (pixel AND 0xFF000000) OR push_bit 16 r OR push_bit 8 g OR b)"

text \<open>The pixels in front of the pointer; \<^verbatim>\<open>width * height\<close> is a 32-bit product.\<close>

definition ConvertAlphaCursor :: "u32 list \<Rightarrow> u32 \<Rightarrow> u32 \<Rightarrow> u32 list" where
  "ConvertAlphaCursor cursor w h =
    map premultiply (take (unat (w * h)) cursor) @ drop (unat (w * h)) cursor"

section \<open>Interrupts and attributes\<close>

text \<open>\<open>ours\<close>: the reference is \<^verbatim>\<open>&m_intr\<close>.\<close>

definition setInterruptState :: "bool \<Rightarrow> u32 \<Rightarrow> fb \<Rightarrow> ioreturn \<times> fb" where
  "setInterruptState ours state s =
    (if \<not> ours then (kIOReturnBadArgument, s) else (kIOReturnSuccess, s\<lparr>m_intr_enabled := (state \<noteq> 0)\<rparr>))"

definition unregisterInterrupt :: "bool \<Rightarrow> fb \<Rightarrow> ioreturn \<times> fb" where
  "unregisterInterrupt ours s =
    (if \<not> ours then (kIOReturnBadArgument, s)
     else (kIOReturnSuccess, s\<lparr>m_intr := (0, 0, 0), m_intr_enabled := False\<rparr>))"

datatype interrupt_type = kIOFBMCCSInterruptType | kIOFBConnectInterruptType | Other_interrupt u32

definition registerForInterruptType :: "ioreturn \<Rightarrow> interrupt_type \<Rightarrow> nat \<Rightarrow> nat \<Rightarrow> nat \<Rightarrow> fb \<Rightarrow> ioreturn \<times> fb" where
  "registerForInterruptType super interruptType proc' target ref s =
    (if interruptType = kIOFBMCCSInterruptType then (super, s)
     else if interruptType \<noteq> kIOFBConnectInterruptType then (kIOReturnUnsupported, s)
     else (kIOReturnSuccess, s\<lparr>m_intr := (target, ref, proc'), m_intr_enabled := True\<rparr>))"

datatype fb_attribute = kIOHardwareCursorAttribute | kIOCapturedAttribute | Other_attribute u32

datatype connection_attribute =
    kConnectionSupportsAppleSense | kConnectionDisplayParameterCount | kConnectionSupportsLLDDCSense
  | kConnectionDisplayParameters | kConnectionPower | kConnectionPostWake | kConnectionChanged
  | kConnectionEnable | kConnectionFlags | kConnectionSupportsHLDDCSense | kConnectionProbe | Other_connection u32

text \<open>\<open>super\<close> is what the base class answers: the status and the value stored, if one is.\<close>

definition getAttribute :: "ioreturn \<times> nat option \<Rightarrow> fb_attribute \<Rightarrow> fb \<Rightarrow> ioreturn \<times> nat option" where
  "getAttribute super attribute s =
    (if attribute = kIOHardwareCursorAttribute
     then (kIOReturnSuccess, Some (if checkOptionFB VMW_OPTION_FB_FIFO_INIT s then 1 else 0))
     else super)"

definition getAttributeForConnection :: "ioreturn \<times> nat option \<Rightarrow> connection_attribute \<Rightarrow> fb \<Rightarrow> ioreturn \<times> nat option" where
  "getAttributeForConnection super attribute s =
    (if attribute \<in> {kConnectionSupportsAppleSense, kConnectionDisplayParameterCount, kConnectionSupportsLLDDCSense,
          kConnectionDisplayParameters, kConnectionPower, kConnectionPostWake} then (kIOReturnUnsupported, None)
     else if attribute = kConnectionChanged then (kIOReturnSuccess, None)
     else if attribute = kConnectionEnable then (kIOReturnSuccess, Some 1)
     else if attribute = kConnectionFlags then (kIOReturnSuccess, Some 0)
     else if attribute = kConnectionSupportsHLDDCSense
       then (if m_edid s \<noteq> None then kIOReturnSuccess else kIOReturnUnsupported, None)
     else super)"

definition setAttributeForConnection :: "ioreturn \<Rightarrow> connection_attribute \<Rightarrow> ioreturn" where
  "setAttributeForConnection super attribute =
    (if attribute = kConnectionFlags then kIOReturnSuccess
     else if attribute = kConnectionProbe then kIOReturnSuccess
     else super)"

section \<open>EDID injection\<close>

text \<open>
  \<open>out\<close>: the caller's length if data and length pointers are given.  The result is the block copied, or
  \<open>None\<close> inside when the copy would read beyond the buffer; the outer \<open>None\<close> passes to the base class.
\<close>

definition getDDCBlock :: "int \<Rightarrow> u32 \<Rightarrow> bool \<Rightarrow> nat option \<Rightarrow> fb \<Rightarrow> u8 list option option" where
  "getDDCBlock connectIndex blockNumber type_edid out s =
    (let oneBlock = (128 :: u32)
     in case m_edid s of None \<Rightarrow> None
     | Some edid \<Rightarrow>
         if connectIndex = 0 \<and> blockNumber \<noteq> 0 \<and> blockNumber * oneBlock \<le> m_edid_size s \<and> type_edid \<and>
            (case out of None \<Rightarrow> False | Some length' \<Rightarrow> length' \<ge> unat oneBlock)
         then let i = unat ((blockNumber - 1) * oneBlock)
              in Some (if i + unat oneBlock \<le> length edid then Some (take (unat oneBlock) (drop i edid)) else None)
         else None)"

definition hasDDCConnect :: "bool \<Rightarrow> int \<Rightarrow> fb \<Rightarrow> bool" where
  "hasDDCConnect super connectIndex s = (if connectIndex = 0 \<and> m_edid s \<noteq> None then True else super)"

section \<open>Custom modes\<close>

definition CustomSwitchStepSet :: "u32 \<Rightarrow> fb \<Rightarrow> fb" where
  "CustomSwitchStepSet value s = s\<lparr>m_custom_switch := value\<rparr>"

text \<open>The wait: \<open>others\<close> is what other threads do while this one is blocked.\<close>

partial_function (option) CustomSwitchStepWait :: "(fb \<Rightarrow> fb) \<Rightarrow> u32 \<Rightarrow> fb \<Rightarrow> fb option" where
  "CustomSwitchStepWait others value s =
    (if m_custom_switch s \<noteq> value then CustomSwitchStepWait others value (others s) else Some s)"

declare CustomSwitchStepWait.simps [code]

text \<open>\<open>intr_calls\<close> records the calls of the registered procedure.\<close>

definition EmitConnectChangedEvent :: "fb \<Rightarrow> fb" where
  "EmitConnectChangedEvent s =
    (let (target, ref, proc') = m_intr s
     in if proc' = 0 \<or> \<not> m_intr_enabled s then s else s\<lparr>intr_calls := intr_calls s @ [(target, ref)]\<rparr>)"

text \<open>The slot of the first active mode whose size differs from that of \<open>dme1\<close>.\<close>

fun find_other_size :: "fb \<Rightarrow> display_mode \<Rightarrow> int list \<Rightarrow> nat \<Rightarrow> nat option" where
  "find_other_size s dme1 [] i = None"
| "find_other_size s dme1 (m # ms) i =
    (case GetDisplayMode m s of None \<Rightarrow> find_other_size s dme1 ms (i + 1)
     | Some dme2 \<Rightarrow> if width dme2 \<noteq> width dme1 \<or> height dme2 \<noteq> height dme1 then Some i
                   else find_other_size s dme1 ms (i + 1))"

definition RestoreAllModes :: "fb \<Rightarrow> fb" where
  "RestoreAllModes s =
    (let s = s\<lparr>restore_timer := None\<rparr>
     in if m_custom_switch s \<noteq> 2 then s
     else case GetDisplayMode CUSTOM_MODE_ID s of None \<Rightarrow> s
     | Some dme1 \<Rightarrow> case find_other_size s dme1 (m_modes s) 0 of None \<Rightarrow> s
       | Some i \<Rightarrow>
           let t = m_modes s ! 0;
               s = s\<lparr>m_modes := (m_modes s)[0 := m_modes s ! i, i := t]\<rparr>;
               s = s\<lparr>m_custom_mode_switched := True\<rparr>;
               s = CustomSwitchStepSet 0 s
           in EmitConnectChangedEvent s)"

definition setAttribute :: "ioreturn \<Rightarrow> nat \<Rightarrow> fb_attribute \<Rightarrow> nat \<Rightarrow> fb \<Rightarrow> ioreturn \<times> fb" where
  "setAttribute super version_major attribute value s =
    (if attribute = kIOCapturedAttribute \<and> value = 0 \<and> m_custom_switch s = 1 \<and> m_display_mode s = CUSTOM_MODE_ID
     then (super, CustomSwitchStepSet (if version_major \<ge> 13 then 0 else 2) s)
     else (super, s))"

record custom_mode_data =
  cmd_flags :: u32
  cmd_width :: u32
  cmd_height :: u32

text \<open>\<open>inSize\<close> and \<open>outSize\<close> in bytes; \<^verbatim>\<open>sizeof(CustomModeData)\<close> is 12.\<close>

definition clamp_size :: "u32 \<Rightarrow> u32 \<Rightarrow> u32 \<Rightarrow> u32" where
  "clamp_size low high w = (if w < low then low else if w > high then high else w)"

definition CustomMode :: "(fb \<Rightarrow> fb) \<Rightarrow> nat \<Rightarrow> custom_mode_data option \<Rightarrow> bool \<Rightarrow> nat \<Rightarrow> nat option \<Rightarrow> fb \<Rightarrow>
    (ioreturn \<times> custom_mode_data option \<times> fb) option" where
  "CustomMode others version_major inData has_outData inSize outSize s =
    (if \<not> m_restore_call s then Some (kIOReturnUnsupported, None, s)
     else case inData of None \<Rightarrow> Some (kIOReturnBadArgument, None, s)
     | Some inData \<Rightarrow>
         if inSize < 12 then Some (kIOReturnBadArgument, None, s)
         else if \<not> has_outData then Some (kIOReturnBadArgument, None, s)
         else if (case outSize of None \<Rightarrow> True | Some n \<Rightarrow> n < 12) then Some (kIOReturnBadArgument, None, s)
         else case GetDisplayMode (m_display_mode s) s of None \<Rightarrow> Some (kIOReturnUnsupported, None, s)
         | Some dme1 \<Rightarrow> do {
             s \<leftarrow>
               (if cmd_flags inData AND 1 \<noteq> 0 then
                  let w = clamp_size 800 (m_max_width (dev s)) (cmd_width inData);
                      h = clamp_size 600 (m_max_height (dev s)) (cmd_height inData)
                  in if w = width dme1 \<and> h = height dme1 then Some s
                     else let s = s\<lparr>customMode := (customMode s)\<lparr>width := w, height := h\<rparr>\<rparr>;
                              s = CustomSwitchStepSet 1 s;
                              s = EmitConnectChangedEvent s
                     in if version_major \<ge> 13 then CustomSwitchStepWait others 0 s
                        else do {
                          s \<leftarrow> CustomSwitchStepWait others 2 s;
                          Some (s\<lparr>restore_timer := Some 2000\<rparr>)
                        }
                else Some s);
             case GetDisplayMode (m_display_mode s) s of None \<Rightarrow> Some (kIOReturnUnsupported, None, s)
             | Some dme1 \<Rightarrow> Some (kIOReturnSuccess,
                 Some \<lparr>cmd_flags = cmd_flags inData, cmd_width = width dme1, cmd_height = height dme1\<rparr>, s)
           })"

section \<open>Bring-up and teardown\<close>

definition fb_Cleanup :: "fb \<Rightarrow> fb" where
  "fb_Cleanup s =
    (let s = cancelRefreshTimer s;
         s = (if m_restore_call s then s\<lparr>restore_timer := None\<rparr> else s);
         s = deleteRefreshTimer s;
         s = s\<lparr>dev := svga_Cleanup (dev s)\<rparr>;
         s = (if m_restore_call s then s\<lparr>m_restore_call := False\<rparr> else s);
         s = (if m_cursor_image s then s\<lparr>m_cursor_image := False\<rparr> else s);
         s = (if m_edid s \<noteq> None then s\<lparr>m_edid_size := 0, m_edid := None\<rparr> else s)
     in if m_iolock s then s\<lparr>m_iolock := False\<rparr> else s)"

text \<open>What the boot arguments, the registry and the system provide at start.\<close>

record fb_setup =
  is_pci :: bool
  super_start :: bool
  boot_options :: "u32 option"
  boot_fps :: "u32 option"
  edid_property :: "u8 list"
  edid_malloc :: bool
  pci_device :: pci
  vram_range :: "nat option"
  restore_alloc :: bool
  refresh_alloc :: bool
  lock_alloc :: bool

text \<open>The options and the refresh interval.\<close>

definition start_options :: "fb_setup \<Rightarrow> fb \<Rightarrow> fb" where
  "start_options p s =
    (let s = s\<lparr>vmw_options_fb := VMW_OPTION_FB_FIFO_INIT OR VMW_OPTION_FB_REFRESH_TIMER OR VMW_OPTION_FB_ACCEL OR
               VMW_OPTION_FB_CURSOR_BYPASS_2\<rparr>;
         s = (case boot_options p of None \<Rightarrow> s | Some arg \<Rightarrow> s\<lparr>vmw_options_fb := arg\<rparr>);
         s = s\<lparr>m_refresh_quantum_ms := 50\<rparr>
     in case boot_fps p of None \<Rightarrow> s
        | Some arg \<Rightarrow> if arg \<noteq> 0 \<and> arg \<le> 100 then s\<lparr>m_refresh_quantum_ms := 1000 div arg\<rparr> else s)"

definition start_edid :: "fb_setup \<Rightarrow> fb \<Rightarrow> fb" where
  "start_edid p s =
    (let max_w = length (edid_property p)
     in if max_w \<noteq> 0 \<and> max_w \<le> 256 then
          let n = (max_w + 127) div 128 * 128
          in if edid_malloc p then s\<lparr>m_edid_size := of_nat n, m_edid := Some (edid_property p @ replicate (n - max_w) 0)\<rparr>
             else s\<lparr>m_edid_size := 0, m_edid := None\<rparr>
        else s)"

definition active_modes :: "u32 \<Rightarrow> u32 \<Rightarrow> int list" where
  "active_modes max_w max_h =
    map (\<lambda>i. int i + 1) (filter (\<lambda>i. width (modeList ! i) \<le> max_w \<and> height (modeList ! i) \<le> max_h) [0..<26])"

text \<open>The register dump and the set-up of the FIFO, with the refresh timer for devices without traces.\<close>

definition start_dump :: "host \<Rightarrow> fb \<Rightarrow> fb" where
  "start_dump h s = (if checkOptionFB VMW_OPTION_FB_REG_DUMP s then s\<lparr>dev := snd (RegDump h (dev s))\<rparr> else s)"

definition start_fifo :: "host \<Rightarrow> fb_setup \<Rightarrow> fb \<Rightarrow> bool \<times> fb" where
  "start_fifo h p s =
    (if checkOptionFB VMW_OPTION_FB_FIFO_INIT s then
       let (ok, d) = FIFOInit h (dev s); s = s\<lparr>dev := d\<rparr>
       in if \<not> ok then (False, s)
          else (True, if \<not> HasCapability SVGA_CAP_TRACES (dev s) \<and> checkOptionFB VMW_OPTION_FB_REFRESH_TIMER s
                      then setupRefreshTimer (refresh_alloc p) s else s)
     else (True, s))"

definition fb_start :: "host \<Rightarrow> fb_setup \<Rightarrow> fb \<Rightarrow> bool \<times> fb" where
  "fb_start h p s =
    (if \<not> is_pci p then (False, s)
     else if \<not> super_start p then (False, s)
     else let
       s = start_edid p (start_options p s);
       s = s\<lparr>m_restore_call := False, m_iolock := False, m_cursor_image := False, m_refresh_call := False,
             m_intr_enabled := False, m_accel_updates := False, m_vram := vram_range p\<rparr>;
       (started, d) = svga_Start h (pci_device p) (svga_Init (dev s));
       s = s\<lparr>dev := d\<rparr>
     in if \<not> started then (False, fb_Cleanup s)
     else let
       s = (start_dump h s)\<lparr>customMode := modeList ! 0\<rparr>;
       s = s\<lparr>m_modes := active_modes (m_max_width (dev s)) (m_max_height (dev s))\<rparr>
     in if length (m_modes s) \<le> 2 then (False, fb_Cleanup s)
     else let
       s = s\<lparr>m_restore_call := restore_alloc p, m_custom_switch := 0, m_custom_mode_switched := False\<rparr>;
       (ready, s) = start_fifo h p s
     in if \<not> ready then (False, fb_Cleanup s)
     else let s = s\<lparr>m_iolock := lock_alloc p\<rparr>
     in if \<not> lock_alloc p then (False, fb_Cleanup s)
     else let s = s\<lparr>m_display_mode := TryDetectCurrentDisplayMode 3 s, m_depth_mode := 0\<rparr>
     in (True, scheduleRefreshTimer 1000 s))"

definition fb_stop :: "fb \<Rightarrow> fb" where
  "fb_stop s = fb_Cleanup s"

section \<open>For the accelerator\<close>

definition supportsAccel :: "fb \<Rightarrow> bool" where
  "supportsAccel s \<longleftrightarrow> checkOptionFB VMW_OPTION_FB_FIFO_INIT s \<and> checkOptionFB VMW_OPTION_FB_ACCEL s"

definition useAccelUpdates :: "host \<Rightarrow> bool \<Rightarrow> fb \<Rightarrow> fb option" where
  "useAccelUpdates h state s =
    (if state = m_accel_updates s then Some s
     else let s = s\<lparr>m_accel_updates := state\<rparr>
     in if state then
          let s = cancelRefreshTimer s
          in Some (if HasCapability SVGA_CAP_TRACES (dev s) then s\<lparr>dev := WriteReg h SVGA_REG_TRACES 0 (dev s)\<rparr> else s)
        else
          let s = scheduleRefreshTimer 200 s
          in if HasCapability SVGA_CAP_TRACES (dev s) then do {
               (_, d) \<leftarrow> UpdateFullscreen h (WriteReg h SVGA_REG_TRACES 1 (dev s));
               Some (s\<lparr>dev := RingDoorBell h d\<rparr>)
             }
             else Some s)"

end
