(* ===== verification/FramebufferProofs.thy ===== *)
theory FramebufferProofs
  imports Framebuffer
begin

text \<open>
  What the framebuffer driver keeps and guarantees: the invariant of its mode table and its refresh timer
  over every run of its operations (\<open>fb_run\<close>), start as all or nothing, the agreement of the mode queries
  with the mode set, the EDID blocks, the custom-size handshake and the conversion of cursor images.
\<close>

section \<open>What the device operations leave alone\<close>

definition limits :: "svga \<Rightarrow> u32 \<times> u32" where
  "limits d = (m_max_width d, m_max_height d)"

lemma limits_ports [simp]:
  "limits (poll h d) = limits d" "limits (WriteReg h i v d) = limits d" "limits (snd (ReadReg h i d)) = limits d"
  by (simp_all add: limits_def poll_def WriteReg_def ReadReg_def Let_def)

lemma limits_upd [simp]:
  "limits (d\<lparr>m_fifo := m\<rparr>) = limits d" "limits (d\<lparr>m_bounce := b\<rparr>) = limits d"
  "limits (d\<lparr>m_using_bounce_buffer := u\<rparr>) = limits d" "limits (d\<lparr>m_reserved_size := n\<rparr>) = limits d"
  by (simp_all add: limits_def)

lemma wait_busy_limits:
  assumes "wait_busy h d = Some e"
  shows "limits e = limits d"
proof (rule wait_busy.raw_induct [OF _ assms, where P = "\<lambda>h d e. limits e = limits d"])
  fix f h d e
  assume IH: "\<And>h d e. f h d = Some e \<Longrightarrow> limits e = limits d"
    and run: "(let (busy, d) = ReadReg h SVGA_REG_BUSY d in if busy \<noteq> 0 then f h d else Some d) = Some e"
  then show "limits e = limits d"
    using limits_ports(3) [of h SVGA_REG_BUSY d] by (cases "ReadReg h SVGA_REG_BUSY d") (auto split: if_splits)
qed

lemma FIFOReserve_loop_limits:
  assumes "FIFOReserve_loop h max' min' next_cmd r bytes d = Some res"
  shows "limits (snd res) = limits d"
proof (rule FIFOReserve_loop.raw_induct [OF _ assms, where P = "\<lambda>h max' min' next_cmd r bytes d res. limits (snd res) = limits d"])
  fix loop h max' min' next_cmd r bytes d res
  assume IH: "\<And>h max' min' next_cmd r bytes d res. loop h max' min' next_cmd r bytes d = Some res \<Longrightarrow> limits (snd res) = limits d"
    and run: "(let d = poll h d; stop = m_fifo d SVGA_FIFO_STOP; bounce = (Bounce_at 0, d\<lparr>m_using_bounce_buffer := True\<rparr>)
      in case reserve_decide max' min' next_cmd stop bytes of
         Reserve_in_place \<Rightarrow>
           if r \<or> bytes \<le> 4
           then Some (Fifo_at (unat next_cmd div 4), d\<lparr>m_using_bounce_buffer := False,
                m_fifo := if r then (m_fifo d)(SVGA_FIFO_RESERVED := word_of_nat bytes) else m_fifo d\<rparr>)
           else Some bounce
         | Need_bounce \<Rightarrow> Some bounce
         | Fifo_full \<Rightarrow> loop h max' min' next_cmd r bytes (FIFOFull h d)) = Some res"
  have "limits (FIFOFull h (poll h d)) = limits d" by (simp add: FIFOFull_def)
  then show "limits (snd res) = limits d"
    using run IH by (auto simp: Let_def split: reserve_decision.splits if_splits)
qed

lemma put_limits [simp]: "limits (put p i v d) = limits d"
  by (cases p) simp_all

lemma puts_limits [simp]: "limits (puts p ws d) = limits d"
  by (induction ws arbitrary: d) (auto simp: puts_def split: prod.split)

lemma FIFOCommit_limits [simp]: "limits (FIFOCommit n d) = limits d"
  by (simp add: FIFOCommit_def Let_def)

lemma FIFOReserveCmd_limits:
  assumes "FIFOReserveCmd h c n d = Some (p, e)"
  shows "limits e = limits d"
  using assms FIFOReserve_loop_limits
  by (fastforce simp: FIFOReserveCmd_def FIFOReserve_def Let_def bind_eq_Some_conv split: if_splits option.splits)

lemma UpdateFullscreen_limits:
  assumes "UpdateFullscreen h d = Some (r, e)"
  shows "limits e = limits d"
  using assms FIFOReserveCmd_limits
  by (auto simp: UpdateFullscreen_def UpdateFramebuffer_def commit_cmd_def FIFOCommitAll_def bind_eq_Some_conv split: option.splits)

lemma RingDoorBell_limits [simp]: "limits (RingDoorBell h d) = limits d"
  by (simp add: RingDoorBell_def Let_def)

lemma SetMode_limits:
  assumes "SetMode h w l bpp d = Some e"
  shows "limits e = limits d"
proof -
  obtain d1 where "wait_busy h (WriteReg h SVGA_REG_SYNC 1 d) = Some d1"
    using assms by (auto simp: SetMode_def SyncFIFO_def bind_eq_Some_conv)
  moreover have "limits e = limits d1"
    using assms calculation by (auto simp: SetMode_def SyncFIFO_def Let_def split_def limits_def WriteReg_def ReadReg_def poll_def)
  ultimately show ?thesis using wait_busy_limits by fastforce
qed

lemma RegDump_limits [simp]: "limits (snd (RegDump h d)) = limits d"
proof -
  have "limits (snd (fold (\<lambda>i (regs, d). let (v, d) = ReadReg h (of_nat i) d in (regs @ [v], d)) is (rs, d))) = limits d" for "is" rs
    by (induction "is" arbitrary: rs d) (simp_all add: split_def Let_def)
  then show ?thesis unfolding RegDump_def .
qed

section \<open>The invariant\<close>

definition mode_fits :: "u32 \<times> u32 \<Rightarrow> display_mode \<Rightarrow> bool" where
  "mode_fits l m \<longleftrightarrow> 800 \<le> width m \<and> width m \<le> fst l \<and> 600 \<le> height m \<and> height m \<le> snd l"

definition fitting_modes :: "u32 \<times> u32 \<Rightarrow> int set" where
  "fitting_modes l = set (active_modes (fst l) (snd l))"

text \<open>
  The offered modes are, each once, the table entries that fit the screen; the custom mode fits too,
  whatever its size has become.
\<close>

definition modes_ok :: "fb \<Rightarrow> bool" where
  "modes_ok s \<longleftrightarrow> distinct (m_modes s) \<and> 2 < length (m_modes s) \<and> set (m_modes s) = fitting_modes (limits (dev s)) \<and>
     (\<forall>m \<in> set (m_modes s). \<exists>dme. GetDisplayMode m s = Some dme \<and> mode_fits (limits (dev s)) dme) \<and>
     GetDisplayMode (m_display_mode s) s \<noteq> None \<and> m_depth_mode s = 0"

text \<open>Exactly one of the accelerator and the timer drives the screen updates.\<close>

definition refresh_ok :: "fb \<Rightarrow> bool" where
  "refresh_ok s \<longleftrightarrow> (refresh_timer s \<noteq> None \<longleftrightarrow> m_refresh_call s \<and> \<not> m_accel_updates s)"

definition fb_ok :: "fb \<Rightarrow> bool" where
  "fb_ok s \<longleftrightarrow> modes_ok s \<and> refresh_ok s"

lemma fb_ok_cong:
  assumes "fb_ok s" and "m_modes t = m_modes s" and "m_display_mode t = m_display_mode s" and "m_depth_mode t = m_depth_mode s"
    and "customMode t = customMode s" and "limits (dev t) = limits (dev s)"
    and "refresh_timer t = refresh_timer s" and "m_refresh_call t = m_refresh_call s" and "m_accel_updates t = m_accel_updates s"
  shows "fb_ok t"
proof -
  have "GetDisplayMode m t = GetDisplayMode m s" for m
    unfolding GetDisplayMode_def assms(5) ..
  then show ?thesis
    using assms(1) unfolding fb_ok_def modes_ok_def refresh_ok_def assms(2-4,6-9) by simp
qed

lemma FIFOInit_limits [simp]: "limits (snd (FIFOInit h d)) = limits d"
  by (simp add: FIFOInit_def Let_def)

lemma cursor_limits [simp]: "limits (svga_setCursorState h b x y v d) = limits d"
  by (simp add: svga_setCursorState_def cursor_bypass_3_def Let_def)

section \<open>The mode table\<close>

lemma length_modeList [simp]: "length modeList = 26"
  by (simp add: modeList_def)

lemma modeList_nth:
  assumes "i < 26"
  shows "800 \<le> width (modeList ! i) \<and> 600 \<le> height (modeList ! i) \<and> flags (modeList ! i) AND 3 = 3"
proof -
  have "list_all (\<lambda>m. 800 \<le> width m \<and> 600 \<le> height m \<and> flags m AND 3 = 3) modeList" by code_simp
  then show ?thesis using assms by (simp add: list_all_length)
qed

lemma GetDisplayMode_table:
  "GetDisplayMode m s = (if m = 1 then Some (customMode s) else if 1 \<le> m \<and> m \<le> 26 then Some (modeList ! nat (m - 1)) else None)"
  by (simp add: GetDisplayMode_def)

lemma detect_mode_bounds:
  "0 \<le> i \<Longrightarrow> 1 \<le> def \<and> def \<le> n \<Longrightarrow> tab = 0 \<or> 1 \<le> tab \<and> tab \<le> n \<Longrightarrow> i + int (length ms) \<le> n \<Longrightarrow>
     1 \<le> detect_mode w h ms i tab def \<and> detect_mode w h ms i tab def \<le> n"
  by (induction w h ms i tab "def" rule: detect_mode.induct) auto

lemma TryDetect_range: "1 \<le> TryDetectCurrentDisplayMode 3 s \<and> TryDetectCurrentDisplayMode 3 s \<le> 26"
  unfolding TryDetectCurrentDisplayMode_def by (rule detect_mode_bounds) auto

lemma active_modes_set:
  "m \<in> set (active_modes w h) \<longleftrightarrow> 1 \<le> m \<and> m \<le> 26 \<and> width (modeList ! nat (m - 1)) \<le> w \<and> height (modeList ! nat (m - 1)) \<le> h"
proof -
  have "m \<in> set (active_modes w h) \<longleftrightarrow>
      (\<exists>i < 26. m = int i + 1 \<and> width (modeList ! i) \<le> w \<and> height (modeList ! i) \<le> h)"
    unfolding active_modes_def by auto
  also have "\<dots> \<longleftrightarrow> 1 \<le> m \<and> m \<le> 26 \<and> width (modeList ! nat (m - 1)) \<le> w \<and> height (modeList ! nat (m - 1)) \<le> h"
    by (auto intro!: exI [of _ "nat (m - 1)"])
  finally show ?thesis .
qed

lemma active_modes_distinct: "distinct (active_modes w h)"
  by (simp add: active_modes_def distinct_map inj_on_def)

lemma modeList_0: "modeList ! 0 = \<lparr>width = 800, height = 600, flags = 3\<rparr>"
  by (simp add: modeList_def safe_mode_def)


lemma mode_fits_bounds: "mode_fits (w, h) dme \<Longrightarrow> 800 \<le> w \<and> 600 \<le> h"
  by (auto simp: mode_fits_def intro: order_trans)

lemma modes_ok_limits:
  assumes "modes_ok s"
  shows "800 \<le> m_max_width (dev s)" "600 \<le> m_max_height (dev s)"
proof -
  from assms have "m_modes s \<noteq> []" unfolding modes_ok_def by auto
  then obtain m where "m \<in> set (m_modes s)" by (cases "m_modes s") auto
  with assms obtain dme where "mode_fits (limits (dev s)) dme" unfolding modes_ok_def by blast
  then show "800 \<le> m_max_width (dev s)" "600 \<le> m_max_height (dev s)"
    using mode_fits_bounds unfolding limits_def by blast+
qed

lemma clamp_size_bounds: "low \<le> high \<Longrightarrow> low \<le> clamp_size low high w \<and> clamp_size low high w \<le> high"
  by (auto simp: clamp_size_def)

section \<open>Every operation keeps the invariant\<close>

lemma setDisplayMode_ok:
  assumes ok: "fb_ok s" and run: "setDisplayMode h m dep s = Some (r, t)"
  shows "fb_ok t"
proof (cases "dep \<noteq> 0 \<or> GetDisplayMode m s = None")
  case True
  then have "t = s" using run by (auto simp: setDisplayMode_def split: option.splits)
  then show ?thesis using ok by simp
next
  case False
  then obtain dme where dme: "GetDisplayMode m s = Some dme" and dep: "dep = 0" by auto
  let ?g = "\<lambda>s. (m_modes s, customMode s, limits (dev s), m_depth_mode s, m_accel_updates s, m_refresh_call s)"
  have facts: "?g t = ?g s \<and> (m_display_mode t = m_display_mode s \<or> m_display_mode t = m)"
  proof (cases "m_custom_mode_switched s")
    case True
    then show ?thesis using run dme dep ok by (auto simp: setDisplayMode_def Let_def fb_ok_def modes_ok_def split: if_splits)
  next
    case False
    obtain d where d: "SetMode h (width dme) (height dme) 32 (dev s) = Some d"
      using run False dme dep by (auto simp: setDisplayMode_def Let_def bind_eq_Some_conv cancelRefreshTimer_def split: if_splits)
    with SetMode_limits have "limits d = limits (dev s)" by blast
    then show ?thesis using run False dme dep d ok
      by (auto simp: setDisplayMode_def Let_def cancelRefreshTimer_def scheduleRefreshTimer_def fb_ok_def modes_ok_def split: if_splits)
  qed
  have same: "GetDisplayMode k t = GetDisplayMode k s" for k
    using facts unfolding GetDisplayMode_def by simp
  have "refresh_ok t"
    using run dme dep ok by (auto simp: setDisplayMode_def Let_def bind_eq_Some_conv cancelRefreshTimer_def scheduleRefreshTimer_def
        fb_ok_def refresh_ok_def split: if_splits)
  moreover have "modes_ok t"
    using ok facts dme unfolding fb_ok_def modes_ok_def same by auto
  ultimately show ?thesis unfolding fb_ok_def by simp
qed

lemma CustomSwitchStepSet_ok: "fb_ok s \<Longrightarrow> fb_ok (CustomSwitchStepSet v s)"
  by (erule fb_ok_cong) (simp_all add: CustomSwitchStepSet_def)

lemma EmitConnectChangedEvent_ok: "fb_ok s \<Longrightarrow> fb_ok (EmitConnectChangedEvent s)"
  by (erule fb_ok_cong) (simp_all add: EmitConnectChangedEvent_def split: prod.split)

lemma CustomSwitchStepWait_ok:
  assumes "CustomSwitchStepWait others v s = Some t" and others: "\<And>x. fb_ok x \<Longrightarrow> fb_ok (others x)" and "fb_ok s"
  shows "fb_ok t"
proof -
  have "(\<forall>x. fb_ok x \<longrightarrow> fb_ok (others x)) \<longrightarrow> fb_ok s \<longrightarrow> fb_ok t \<and> m_custom_switch t = v"
  proof (rule CustomSwitchStepWait.raw_induct [OF _ assms(1),
        where P = "\<lambda>others v s t. (\<forall>x. fb_ok x \<longrightarrow> fb_ok (others x)) \<longrightarrow> fb_ok s \<longrightarrow> fb_ok t \<and> m_custom_switch t = v"])
    fix f others v s t
    assume "\<And>others v s t. f others v s = Some t \<Longrightarrow>
        (\<forall>x. fb_ok x \<longrightarrow> fb_ok (others x)) \<longrightarrow> fb_ok s \<longrightarrow> fb_ok t \<and> m_custom_switch t = v"
      and "(if m_custom_switch s \<noteq> v then f others v (others s) else Some s) = Some t"
    then show "(\<forall>x. fb_ok x \<longrightarrow> fb_ok (others x)) \<longrightarrow> fb_ok s \<longrightarrow> fb_ok t \<and> m_custom_switch t = v"
      by (auto split: if_splits)
  qed
  then show ?thesis using others \<open>fb_ok s\<close> by blast
qed

lemma set_customMode_ok:
  assumes ok: "fb_ok s"
  shows "fb_ok (s\<lparr>customMode := (customMode s)\<lparr>width := clamp_size 800 (m_max_width (dev s)) a,
           height := clamp_size 600 (m_max_height (dev s)) b\<rparr>\<rparr>)" (is "fb_ok ?t")
proof -
  have m: "modes_ok s" and r: "refresh_ok ?t" using ok unfolding fb_ok_def refresh_ok_def by simp_all
  have fits: "mode_fits (limits (dev s)) (customMode ?t)"
    using clamp_size_bounds [OF modes_ok_limits(1) [OF m]] clamp_size_bounds [OF modes_ok_limits(2) [OF m]]
    by (simp add: mode_fits_def limits_def)
  have "\<exists>dme. GetDisplayMode k ?t = Some dme \<and> mode_fits (limits (dev s)) dme" if "k \<in> set (m_modes s)" for k
  proof (cases "k = 1")
    case True
    then show ?thesis using fits unfolding GetDisplayMode_def by simp
  next
    case False
    then have "GetDisplayMode k ?t = GetDisplayMode k s" unfolding GetDisplayMode_def by simp
    then show ?thesis using m that unfolding modes_ok_def by simp
  qed
  moreover have "GetDisplayMode (m_display_mode s) ?t \<noteq> None"
    using m unfolding modes_ok_def GetDisplayMode_def by (simp split: if_splits)
  ultimately have "modes_ok ?t" using m unfolding modes_ok_def by simp
  then show ?thesis using r unfolding fb_ok_def ..
qed

lemma find_other_size_bounds:
  "find_other_size s dme1 ms i = Some j \<Longrightarrow> i \<le> j \<and> j < i + length ms \<and>
     (\<exists>dme2. GetDisplayMode (ms ! (j - i)) s = Some dme2 \<and> (width dme2 \<noteq> width dme1 \<or> height dme2 \<noteq> height dme1))"
proof (induction s dme1 ms i rule: find_other_size.induct)
  case (2 s dme1 m ms i)
  show ?case
  proof (cases "j = i")
    case True
    then show ?thesis using 2 by (auto split: option.splits if_splits)
  next
    case False
    then have run: "find_other_size s dme1 ms (i + 1) = Some j" using 2(3) by (auto split: option.splits if_splits)
    have "i + 1 \<le> j \<and> j < i + 1 + length ms \<and>
       (\<exists>dme2. GetDisplayMode (ms ! (j - (i + 1))) s = Some dme2 \<and> (width dme2 \<noteq> width dme1 \<or> height dme2 \<noteq> height dme1))"
    proof (cases "GetDisplayMode m s")
      case None
      then show ?thesis by (rule 2(1) [OF _ run])
    next
      case (Some dme2)
      then have "\<not> (width dme2 \<noteq> width dme1 \<or> height dme2 \<noteq> height dme1)" using False 2(3) by (auto split: if_splits)
      then show ?thesis by (rule 2(2) [OF Some _ run])
    qed
    moreover from this have "j - i = Suc (j - (i + 1))" by auto
    ultimately show ?thesis by auto
  qed
qed simp

lemma find_other_size_timer: "find_other_size (s\<lparr>restore_timer := None\<rparr>) d ms k = find_other_size s d ms k"
  by (induction s d ms k rule: find_other_size.induct) (auto simp: GetDisplayMode_def split: option.splits)

lemma RestoreAllModes_cases:
  "RestoreAllModes s = s\<lparr>restore_timer := None\<rparr> \<or>
   (m_custom_switch s = 2 \<and> (\<exists>i < length (m_modes s). find_other_size s (customMode s) (m_modes s) 0 = Some i \<and>
     RestoreAllModes s = EmitConnectChangedEvent (CustomSwitchStepSet 0 (s\<lparr>restore_timer := None,
       m_modes := (m_modes s)[0 := m_modes s ! i, i := m_modes s ! 0], m_custom_mode_switched := True\<rparr>))))"
  using find_other_size_bounds [of s "customMode s" "m_modes s" 0]
  by (auto simp: RestoreAllModes_def Let_def find_other_size_timer GetDisplayMode_def split: option.splits)

lemma swap_modes_ok:
  assumes ok: "fb_ok s" and i: "i < length (m_modes s)"
  shows "fb_ok (s\<lparr>restore_timer := None, m_modes := (m_modes s)[0 := m_modes s ! i, i := m_modes s ! 0], m_custom_mode_switched := b\<rparr>)"
    (is "fb_ok ?t")
proof -
  have len: "0 < length (m_modes s)" using i by auto
  have "set (m_modes ?t) = set (m_modes s)" "distinct (m_modes ?t) = distinct (m_modes s)"
    using set_swap [OF len i] distinct_swap [OF len i] by simp_all
  moreover have "GetDisplayMode k ?t = GetDisplayMode k s" for k by (simp add: GetDisplayMode_def)
  ultimately have "modes_ok ?t" using ok unfolding fb_ok_def modes_ok_def by auto
  then show ?thesis using ok unfolding fb_ok_def refresh_ok_def by simp
qed

lemma RestoreAllModes_ok:
  assumes "fb_ok s" shows "fb_ok (RestoreAllModes s)"
proof -
  have "fb_ok (s\<lparr>restore_timer := None\<rparr>)" using assms by (rule fb_ok_cong) simp_all
  moreover have "fb_ok (EmitConnectChangedEvent (CustomSwitchStepSet 0 (s\<lparr>restore_timer := None,
       m_modes := (m_modes s)[0 := m_modes s ! i, i := m_modes s ! 0], m_custom_mode_switched := True\<rparr>)))"
    if "i < length (m_modes s)" for i
    by (intro EmitConnectChangedEvent_ok CustomSwitchStepSet_ok swap_modes_ok assms that)
  ultimately show ?thesis using RestoreAllModes_cases [of s] by auto
qed

lemma refreshTimerAction_ok:
  assumes ok: "fb_ok s" and pend: "refresh_timer s \<noteq> None" and run: "refreshTimerAction h s = Some t"
  shows "fb_ok t \<and> refresh_timer t = Some (m_refresh_quantum_ms s)"
proof -
  obtain r d where d: "UpdateFullscreen h (dev s) = Some (r, d)"
    using run by (auto simp: refreshTimerAction_def bind_eq_Some_conv)
  have drive: "m_refresh_call s" "\<not> m_accel_updates s" using ok pend unfolding fb_ok_def refresh_ok_def by auto
  then have t: "t = s\<lparr>refresh_timer := Some (m_refresh_quantum_ms s), dev := RingDoorBell h d\<rparr>"
    using run d by (auto simp: refreshTimerAction_def Let_def scheduleRefreshTimer_def)
  have same: "GetDisplayMode k t = GetDisplayMode k s" for k unfolding t by (simp add: GetDisplayMode_def)
  have "modes_ok t"
    using ok UpdateFullscreen_limits [OF d] unfolding fb_ok_def modes_ok_def same unfolding t by simp
  then show ?thesis using drive unfolding t fb_ok_def refresh_ok_def by simp
qed

lemma fb_ok_timer:
  assumes "fb_ok s" and "m_modes t = m_modes s" and "m_display_mode t = m_display_mode s" and "m_depth_mode t = m_depth_mode s"
    and "customMode t = customMode s" and "limits (dev t) = limits (dev s)" and "refresh_ok t"
  shows "fb_ok t"
proof -
  have "GetDisplayMode m t = GetDisplayMode m s" for m
    unfolding GetDisplayMode_def assms(5) ..
  then show ?thesis
    using assms(1,7) unfolding fb_ok_def modes_ok_def assms(2-4,6) by simp
qed

lemma useAccelUpdates_ok:
  assumes ok: "fb_ok s" and run: "useAccelUpdates h st s = Some t"
  shows "fb_ok t \<and> m_accel_updates t = st"
proof -
  have r: "refresh_ok s" using ok unfolding fb_ok_def ..
  have lim: "limits d = limits (dev s)" if "UpdateFullscreen h (WriteReg h SVGA_REG_TRACES 1 (dev s)) = Some (x, d)" for x d
    using UpdateFullscreen_limits [OF that] by simp
  have "fb_ok t"
  proof (rule fb_ok_timer [OF ok])
    show "m_modes t = m_modes s" "m_display_mode t = m_display_mode s" "m_depth_mode t = m_depth_mode s"
      "customMode t = customMode s" "limits (dev t) = limits (dev s)"
      using run lim by (auto simp: useAccelUpdates_def Let_def bind_eq_Some_conv cancelRefreshTimer_def scheduleRefreshTimer_def split: if_splits)
    show "refresh_ok t"
      using run r by (auto simp: refresh_ok_def useAccelUpdates_def Let_def bind_eq_Some_conv cancelRefreshTimer_def scheduleRefreshTimer_def split: if_splits)
  qed
  moreover have "m_accel_updates t = st"
    using run by (auto simp: useAccelUpdates_def Let_def bind_eq_Some_conv cancelRefreshTimer_def scheduleRefreshTimer_def split: if_splits)
  ultimately show ?thesis ..
qed

lemma setAttribute_ok: "fb_ok s \<Longrightarrow> fb_ok (snd (setAttribute sp v a x s))"
  by (auto simp: setAttribute_def intro: CustomSwitchStepSet_ok)

lemma interrupts_ok:
  assumes "fb_ok s"
  shows "fb_ok (snd (setInterruptState b st s))" "fb_ok (snd (unregisterInterrupt b s))"
    "fb_ok (snd (registerForInterruptType sp ty p tg rf s))" "fb_ok (snd (setCursorState h x y v s))"
  by (rule fb_ok_cong [OF assms]; simp add: setInterruptState_def unregisterInterrupt_def registerForInterruptType_def
      setCursorState_def Let_def)+

lemma CustomMode_ok:
  assumes ok: "fb_ok s" and others: "\<And>x. fb_ok x \<Longrightarrow> fb_ok (others x)"
    and run: "CustomMode others v inData ho n m s = Some (r, out, t)"
  shows "fb_ok t"
proof (cases "t = s")
  case False
  then obtain data dme1 where data: "inData = Some data" "GetDisplayMode (m_display_mode s) s = Some dme1"
      and flag: "cmd_flags data AND 1 \<noteq> 0"
    using run by (auto simp: CustomMode_def Let_def bind_eq_Some_conv split: if_splits option.splits)
  let ?w = "clamp_size 800 (m_max_width (dev s)) (cmd_width data)" and ?h = "clamp_size 600 (m_max_height (dev s)) (cmd_height data)"
  let ?s = "EmitConnectChangedEvent (CustomSwitchStepSet 1 (s\<lparr>customMode := (customMode s)\<lparr>width := ?w, height := ?h\<rparr>\<rparr>))"
  have mid: "fb_ok ?s" by (intro EmitConnectChangedEvent_ok CustomSwitchStepSet_ok set_customMode_ok ok)
  have fin: "fb_ok (u\<lparr>restore_timer := x\<rparr>)" if "fb_ok u" for u x using that by (rule fb_ok_cong) simp_all
  show ?thesis
  proof (cases "13 \<le> v")
    case True
    then have "CustomSwitchStepWait others 0 ?s = Some t"
      using run data flag False by (auto simp: CustomMode_def Let_def bind_eq_Some_conv split: if_splits option.splits)
    then show ?thesis by (rule CustomSwitchStepWait_ok [OF _ others mid])
  next
    case False
    then obtain u where u: "CustomSwitchStepWait others 2 ?s = Some u" "t = u\<lparr>restore_timer := Some 2000\<rparr>"
      using run data flag \<open>t \<noteq> s\<close> by (auto simp: CustomMode_def Let_def bind_eq_Some_conv split: if_splits option.splits)
    have "fb_ok u" by (rule CustomSwitchStepWait_ok [OF u(1) others mid])
    then show ?thesis unfolding u(2) by (rule fin)
  qed
qed (use ok in simp)

section \<open>Bring-up\<close>

text \<open>The object is allocated zeroed, so no timer is pending when it starts.\<close>

definition fb_fresh :: "fb \<Rightarrow> bool" where
  "fb_fresh s \<longleftrightarrow> refresh_timer s = None \<and> restore_timer s = None"

definition fb_released :: "fb \<Rightarrow> bool" where
  "fb_released s \<longleftrightarrow> \<not> m_has_provider (dev s) \<and> \<not> m_mapped (dev s) \<and> \<not> m_has_bounce_buffer (dev s) \<and>
     \<not> m_restore_call s \<and> \<not> m_refresh_call s \<and> \<not> m_cursor_image s \<and> \<not> m_iolock s \<and> m_edid s = None \<and>
     restore_timer s = None \<and> refresh_timer s = None"

lemma fb_Cleanup_released:
  assumes "m_restore_call s \<or> restore_timer s = None" and "m_refresh_call s \<or> refresh_timer s = None"
  shows "fb_released (fb_Cleanup s)"
  using assms by (auto simp: fb_released_def fb_Cleanup_def cancelRefreshTimer_def deleteRefreshTimer_def svga_Cleanup_def Let_def)

lemma start_pre:
  "refresh_timer (start_edid p (start_options p s)) = refresh_timer s"
  "restore_timer (start_edid p (start_options p s)) = restore_timer s"
  by (simp_all add: start_edid_def start_options_def Let_def split: option.split)

lemma start_fifo_keeps:
  assumes "start_fifo h p s = (b, t)"
  shows "limits (dev t) = limits (dev s)" "m_modes t = m_modes s" "customMode t = customMode s"
    "m_accel_updates t = m_accel_updates s" "m_custom_switch t = m_custom_switch s" "refresh_timer t = refresh_timer s"
    "restore_timer t = restore_timer s"
proof -
  have "limits d = limits (dev s)" if "FIFOInit h (dev s) = (x, d)" for x d
    using FIFOInit_limits [of h "dev s"] unfolding that by simp
  then show "limits (dev t) = limits (dev s)" "m_modes t = m_modes s" "customMode t = customMode s"
    "m_accel_updates t = m_accel_updates s" "m_custom_switch t = m_custom_switch s" "refresh_timer t = refresh_timer s"
    "restore_timer t = restore_timer s"
    using assms by (auto simp: start_fifo_def setupRefreshTimer_def Let_def split: prod.splits if_splits)
qed

lemma start_fifo_timers:
  "start_fifo h p s = (b, t) \<Longrightarrow> restore_timer t = restore_timer s \<and> refresh_timer t = refresh_timer s"
  by (simp add: start_fifo_keeps)

lemma start_dump_keeps:
  "refresh_timer (start_dump h s) = refresh_timer s" "restore_timer (start_dump h s) = restore_timer s"
  by (simp_all add: start_dump_def)

lemma fb_start_False:
  assumes "is_pci p" and "super_start p" and "fb_fresh s" and "fb_start h p s = (False, t)"
  shows "fb_released t"
proof -
  obtain u where "t = fb_Cleanup u" "restore_timer u = None" "refresh_timer u = None"
    using assms by (auto simp: fb_start_def Let_def fb_fresh_def start_pre start_dump_keeps dest!: start_fifo_timers split: prod.splits if_splits)
  then show ?thesis using fb_Cleanup_released by blast
qed

lemma limits_started:
  assumes "n = length (active_modes w h)" and "2 < n"
  shows "\<forall>m \<in> set (active_modes w h). \<exists>dme. GetDisplayMode m (s\<lparr>customMode := modeList ! 0\<rparr>) = Some dme \<and> mode_fits (w, h) dme"
proof
  fix m assume m: "m \<in> set (active_modes w h)"
  then have r: "1 \<le> m" "m \<le> 26" "width (modeList ! nat (m - 1)) \<le> w" "height (modeList ! nat (m - 1)) \<le> h"
    unfolding active_modes_set by auto
  then have "nat (m - 1) < 26" by auto
  from modeList_nth [OF this] r
  have "GetDisplayMode m (s\<lparr>customMode := modeList ! 0\<rparr>) = Some (modeList ! nat (m - 1)) \<and> mode_fits (w, h) (modeList ! nat (m - 1))"
    by (auto simp: GetDisplayMode_def mode_fits_def)
  then show "\<exists>dme. GetDisplayMode m (s\<lparr>customMode := modeList ! 0\<rparr>) = Some dme \<and> mode_fits (w, h) dme" by blast
qed

text \<open>What a start that succeeds leaves.\<close>

lemma fb_start_True:
  assumes "fb_start h p s = (True, t)"
  obtains w l where "limits (dev t) = (w, l)" "m_modes t = active_modes w l" "2 < length (active_modes w l)"
    "customMode t = modeList ! 0" "1 \<le> m_display_mode t" "m_display_mode t \<le> 26" "m_depth_mode t = 0" "\<not> m_accel_updates t"
    "m_iolock t" "m_custom_switch t = 0" "refresh_timer t = (if m_refresh_call t then Some 1000 else refresh_timer s)"
proof -
  let ?s = "(start_edid p (start_options p s))\<lparr>m_restore_call := False, m_iolock := False, m_cursor_image := False,
     m_refresh_call := False, m_intr_enabled := False, m_accel_updates := False, m_vram := vram_range p\<rparr>"
  obtain d0 where start: "svga_Start h (pci_device p) (svga_Init (dev ?s)) = (True, d0)"
    using assms by (auto simp: fb_start_def Let_def split: prod.splits if_splits)
  define s1 where "s1 = start_dump h (?s\<lparr>dev := d0\<rparr>)"
  define s2 where "s2 = s1\<lparr>customMode := modeList ! 0, m_modes := active_modes (m_max_width (dev s1)) (m_max_height (dev s1)),
     m_restore_call := restore_alloc p, m_custom_switch := 0, m_custom_mode_switched := False\<rparr>"
  obtain s3 where s3: "start_fifo h p s2 = (True, s3)"
    using assms start unfolding s2_def s1_def by (auto simp: fb_start_def Let_def split: prod.splits if_splits)
  define s4 where "s4 = s3\<lparr>m_iolock := True\<rparr>"
  have run: "2 < length (m_modes s2)"
      "t = scheduleRefreshTimer 1000 (s4\<lparr>m_display_mode := TryDetectCurrentDisplayMode 3 s4, m_depth_mode := 0\<rparr>)"
    using assms start s3 unfolding s4_def s2_def s1_def
    by (auto simp: fb_start_def Let_def split: prod.splits if_splits)
  note 3 = start_fifo_keeps [OF s3]
  have 1: "\<not> m_accel_updates s1" "refresh_timer s1 = refresh_timer s" unfolding s1_def by (simp_all add: start_pre start_dump_def)
  have lim: "limits (dev s2) = (m_max_width (dev s1), m_max_height (dev s1))" unfolding s2_def limits_def by simp
  show thesis
    by (rule that [of "m_max_width (dev s1)" "m_max_height (dev s1)"])
      (use run 3 1 lim TryDetect_range [of s4] in \<open>simp_all add: s4_def s2_def scheduleRefreshTimer_def\<close>)
qed

lemma fb_start_ok:
  assumes run: "fb_start h p s = (True, t)" and fresh: "fb_fresh s"
  shows "fb_ok t"
proof -
  obtain w l where t: "limits (dev t) = (w, l)" "m_modes t = active_modes w l" "2 < length (active_modes w l)"
    "customMode t = modeList ! 0" "1 \<le> m_display_mode t" "m_display_mode t \<le> 26" "m_depth_mode t = 0" "\<not> m_accel_updates t"
    "m_iolock t" "m_custom_switch t = 0" "refresh_timer t = (if m_refresh_call t then Some 1000 else refresh_timer s)"
    using run by (rule fb_start_True)
  have same: "t\<lparr>customMode := modeList ! 0\<rparr> = t" using t(4) by simp
  have "\<forall>m \<in> set (active_modes w l). \<exists>dme. GetDisplayMode m t = Some dme \<and> mode_fits (w, l) dme"
    using limits_started [OF refl t(3), of t] unfolding same .
  moreover have "GetDisplayMode (m_display_mode t) t \<noteq> None" using t(5,6) by (simp add: GetDisplayMode_def)
  ultimately have "modes_ok t"
    unfolding modes_ok_def fitting_modes_def t(1) fst_conv snd_conv using t(2,3,7) active_modes_distinct by simp
  moreover have "refresh_ok t" using t(8,11) fresh unfolding refresh_ok_def fb_fresh_def by simp
  ultimately show ?thesis unfolding fb_ok_def by simp
qed

section \<open>Runs of the driver\<close>

text \<open>
  What can happen between start and stop, in any order and from any thread.  While \<open>CustomMode\<close> waits,
  the other threads go on: \<open>others\<close> may be any run.
\<close>

inductive fb_step :: "fb \<Rightarrow> fb \<Rightarrow> bool" and fb_run :: "fb \<Rightarrow> fb \<Rightarrow> bool" where
  step_mode: "setDisplayMode h m dep s = Some (r, t) \<Longrightarrow> fb_step s t"
| step_attribute: "fb_step s (snd (setAttribute sp v a x s))"
| step_custom: "(\<And>x. fb_run x (others x)) \<Longrightarrow> CustomMode others v inData ho n m s = Some (r, out, t) \<Longrightarrow> fb_step s t"
| step_restore: "restore_timer s \<noteq> None \<Longrightarrow> fb_step s (RestoreAllModes s)"
| step_refresh: "refresh_timer s \<noteq> None \<Longrightarrow> refreshTimerAction h s = Some t \<Longrightarrow> fb_step s t"
| step_accel: "useAccelUpdates h st s = Some t \<Longrightarrow> fb_step s t"
| step_interrupt: "fb_step s (snd (setInterruptState b st s))"
| step_unregister: "fb_step s (snd (unregisterInterrupt b s))"
| step_register: "fb_step s (snd (registerForInterruptType sp ty pr tg rf s))"
| step_cursor: "fb_step s (snd (setCursorState h x y v s))"
| run_nil: "fb_run s s"
| run_step: "fb_run s t \<Longrightarrow> fb_step t u \<Longrightarrow> fb_run s u"

lemma fb_step_run_ok:
  "fb_step s t \<Longrightarrow> fb_ok s \<longrightarrow> fb_ok t" "fb_run s t \<Longrightarrow> fb_ok s \<longrightarrow> fb_ok t"
proof (induction rule: fb_step_fb_run.inducts)
  case step_mode
  then show ?case using setDisplayMode_ok by blast
next
  case step_custom
  then show ?case using CustomMode_ok by blast
next
  case step_refresh
  then show ?case using refreshTimerAction_ok by blast
next
  case step_accel
  then show ?case using useAccelUpdates_ok by blast
qed (simp_all add: setAttribute_ok RestoreAllModes_ok interrupts_ok)

section \<open>Example instances\<close>

text \<open>A device with a 2560 by 1600 screen and no traces, and a plain boot.\<close>

definition screen_host :: host where
  "screen_host = \<lparr>h_reg = (\<lambda>t log i. if i = SVGA_REG_ID then SVGA_ID_2 else if i = SVGA_REG_MAX_WIDTH then 2560
      else if i = SVGA_REG_MAX_HEIGHT then 1600 else if i = SVGA_REG_MEM_SIZE then 0x200000 else 0),
     h_step = (\<lambda>t log m. m)\<rparr>"

definition plain_setup :: fb_setup where
  "plain_setup = \<lparr>is_pci = True, super_start = True, boot_options = None, boot_fps = Some 25, edid_property = replicate 128 7,
     edid_malloc = True, pci_device = \<lparr>has_bar0 = True, has_bar2 = True, can_map = True, can_malloc = True\<rparr>,
     vram_range = Some 0x8000000, restore_alloc = True, refresh_alloc = True, lock_alloc = True\<rparr>"

definition fb_new :: fb where
  "fb_new = \<lparr>dev = svga_new, m_vram = None, m_modes = [], m_display_mode = 0, m_depth_mode = 0, m_restore_call = False,
     restore_timer = None, m_custom_switch = 0, m_custom_mode_switched = False, m_intr = (0, 0, 0), m_iolock = False,
     m_cursor_image = False, m_hotspot_x = 0, m_hotspot_y = 0, m_intr_enabled = False, m_accel_updates = False,
     m_refresh_call = False, refresh_timer = None, m_refresh_quantum_ms = 0, customMode = \<lparr>width = 0, height = 0, flags = 0\<rparr>,
     m_edid_size = 0, m_edid = None, vmw_options_fb = 0, intr_calls = []\<rparr>"

definition fb_up :: fb where
  "fb_up = snd (fb_start screen_host plain_setup fb_new)"

lemma modes_2560: "active_modes 2560 1600 = remove1 24 [1..26]"
  by code_simp

definition screen_reg :: "u32 \<Rightarrow> u32" where
  "screen_reg i = h_reg screen_host 0 [] i"

lemma screen_read:
  assumes "\<And>e. m_max_width e = m_max_width d \<Longrightarrow> m_max_height e = m_max_height d \<Longrightarrow> m_capabilities e = m_capabilities d \<Longrightarrow>
    R (F (screen_reg i) e)"
  shows "R (let (v, e) = ReadReg screen_host i d in F v e)"
  using assms by (simp add: ReadReg_def poll_def Let_def screen_reg_def screen_host_def)

lemma screen_write:
  assumes "\<And>e. m_max_width e = m_max_width d \<Longrightarrow> m_max_height e = m_max_height d \<Longrightarrow> m_capabilities e = m_capabilities d \<Longrightarrow> R (F e)"
  shows "R (let e = WriteReg screen_host i v d in F e)"
  using assms by (simp add: WriteReg_def poll_def Let_def)

lemma screen_let: "R (F d) \<Longrightarrow> R (let e = d in F e)"
  by simp

definition screen_seen :: "svga \<Rightarrow> bool" where
  "screen_seen d \<longleftrightarrow> m_max_width d = 2560 \<and> m_max_height d = 1600 \<and> m_capabilities d = 0"

lemma screen_fields: "m_capabilities d = 0 \<Longrightarrow> screen_seen (Start_read_fields screen_host d)"
  unfolding Start_read_fields_def
  by (rule screen_read [where R = screen_seen] screen_let [where R = screen_seen])+
    (simp add: screen_seen_def HasCapability_def screen_reg_def screen_host_def)

definition screen_up :: "bool \<times> svga \<Rightarrow> bool" where
  "screen_up r \<longleftrightarrow> fst r \<and> screen_seen (snd r)"

lemma screen_host_start:
  obtains d where "svga_Start screen_host \<lparr>has_bar0 = True, has_bar2 = True, can_map = True, can_malloc = True\<rparr> e = (True, d)"
    and "m_max_width d = 2560" and "m_max_height d = 1600" and "m_capabilities d = 0"
proof -
  have "screen_up (svga_Start screen_host \<lparr>has_bar0 = True, has_bar2 = True, can_map = True, can_malloc = True\<rparr> e)"
    unfolding svga_Start_def
    by (simp only: pci.simps simp_thms if_False not_True_eq_False,
        (rule screen_read [where R = screen_up] screen_write [where R = screen_up] screen_let [where R = screen_up])+,
        subst if_not_P, simp add: screen_reg_def screen_host_def,
        (rule screen_read [where R = screen_up] screen_write [where R = screen_up] screen_let [where R = screen_up])+,
        insert screen_fields, simp add: screen_up_def screen_seen_def HasCapability_def screen_reg_def screen_host_def)
  then show thesis using that unfolding screen_seen_def screen_up_def by (metis prod.collapse)
qed

lemma fb_up_started: "fb_start screen_host plain_setup fb_new = (True, fb_up)" 
proof -
  obtain d where d: "svga_Start screen_host \<lparr>has_bar0 = True, has_bar2 = True, can_map = True, can_malloc = True\<rparr>
      (svga_Init svga_new) = (True, d)" "m_max_width d = 2560" "m_max_height d = 1600" "m_capabilities d = 0"
    by (rule screen_host_start)
  have "\<not> length (remove1 24 [1..26 :: int]) \<le> 2" by code_simp
  then have "fst (fb_start screen_host plain_setup fb_new)"
    by (simp add: fb_start_def plain_setup_def start_edid_def start_options_def fb_new_def d start_dump_def checkOptionFB_def
       modes_2560 start_fifo_def FIFOInit_def Let_def)
  then show ?thesis unfolding fb_up_def by (metis prod.collapse)
qed

section \<open>Handshake with the window server\<close>

lemma CustomSwitchStepWait_after:
  assumes "m_custom_switch ((others ^^ n) s) = v" and "\<And>k. k < n \<Longrightarrow> m_custom_switch ((others ^^ k) s) \<noteq> v"
  shows "CustomSwitchStepWait others v s = Some ((others ^^ n) s)"
  using assms
proof (induction n arbitrary: s)
  case 0
  then show ?case by (subst CustomSwitchStepWait.simps) simp
next
  case (Suc n)
  have ne: "m_custom_switch s \<noteq> v" using Suc.prems(2) [of 0] by simp
  have "CustomSwitchStepWait others v (others s) = Some ((others ^^ n) (others s))"
  proof (rule Suc.IH)
    show "m_custom_switch ((others ^^ n) (others s)) = v" using Suc.prems(1) by (simp add: funpow_swap1)
    show "m_custom_switch ((others ^^ k) (others s)) \<noteq> v" if "k < n" for k
      using Suc.prems(2) [of "Suc k"] that by (simp add: funpow_swap1)
  qed
  then show ?case using ne by (subst CustomSwitchStepWait.simps) (simp add: funpow_swap1)
qed

lemma CustomSwitchStepWait_Some:
  assumes "CustomSwitchStepWait others v s = Some t"
  shows "\<exists>n. t = (others ^^ n) s \<and> m_custom_switch t = v \<and> (\<forall>k < n. m_custom_switch ((others ^^ k) s) \<noteq> v)"
proof (rule CustomSwitchStepWait.raw_induct [OF _ assms,
      where P = "\<lambda>others v s t. \<exists>n. t = (others ^^ n) s \<and> m_custom_switch t = v \<and> (\<forall>k < n. m_custom_switch ((others ^^ k) s) \<noteq> v)"])
  fix f others v s t
  assume IH: "\<And>others v s t. f others v s = Some t \<Longrightarrow>
      \<exists>n. t = (others ^^ n) s \<and> m_custom_switch t = v \<and> (\<forall>k < n. m_custom_switch ((others ^^ k) s) \<noteq> v)"
    and run: "(if m_custom_switch s \<noteq> v then f others v (others s) else Some s) = Some t"
  show "\<exists>n. t = (others ^^ n) s \<and> m_custom_switch t = v \<and> (\<forall>k < n. m_custom_switch ((others ^^ k) s) \<noteq> v)"
  proof (cases "m_custom_switch s = v")
    case True
    then show ?thesis using run by (intro exI [of _ 0]) simp
  next
    case False
    then obtain n where n: "t = (others ^^ n) (others s)" "m_custom_switch t = v"
        "\<forall>k < n. m_custom_switch ((others ^^ k) (others s)) \<noteq> v"
      using IH [of others v "others s" t] run by auto
    have "\<forall>k < Suc n. m_custom_switch ((others ^^ k) s) \<noteq> v"
      using n(3) False by (auto simp: less_Suc_eq_0_disj funpow_swap1)
    then show ?thesis using n by (intro exI [of _ "Suc n"]) (simp add: funpow_swap1)
  qed
qed

text \<open>The state in which \<open>CustomMode\<close> starts to wait.\<close>

definition custom_asked :: "u32 \<Rightarrow> u32 \<Rightarrow> fb \<Rightarrow> fb" where
  "custom_asked w h s = EmitConnectChangedEvent (CustomSwitchStepSet 1 (s\<lparr>customMode := (customMode s)\<lparr>width := w, height := h\<rparr>\<rparr>))"

lemma custom_asked_ok:
  "fb_ok s \<Longrightarrow> fb_ok (custom_asked (clamp_size 800 (m_max_width (dev s)) a) (clamp_size 600 (m_max_height (dev s)) b) s)"
  unfolding custom_asked_def by (intro EmitConnectChangedEvent_ok CustomSwitchStepSet_ok set_customMode_ok)

lemma custom_asked_fields [simp]:
  "m_custom_switch (custom_asked w h s) = 1" "customMode (custom_asked w h s) = (customMode s)\<lparr>width := w, height := h\<rparr>"
  "m_display_mode (custom_asked w h s) = m_display_mode s" "limits (dev (custom_asked w h s)) = limits (dev s)"
  by (simp_all add: custom_asked_def EmitConnectChangedEvent_def CustomSwitchStepSet_def split: prod.split)

lemma funpow_ok: "(\<And>x. fb_ok x \<Longrightarrow> fb_ok (others x)) \<Longrightarrow> fb_ok s \<Longrightarrow> fb_ok ((others ^^ n) s)"
  by (induction n) simp_all

text \<open>The call, up to the wait, when it asks for a size that is not the current one.\<close>

lemma CustomMode_asks:
  assumes "m_restore_call s" and "12 \<le> n" and "12 \<le> k" and "cmd_flags data AND 1 \<noteq> 0" and "13 \<le> v"
    and "GetDisplayMode (m_display_mode s) s = Some dme"
    and "clamp_size 800 (m_max_width (dev s)) (cmd_width data) \<noteq> width dme \<or> clamp_size 600 (m_max_height (dev s)) (cmd_height data) \<noteq> height dme"
    and "CustomSwitchStepWait others 0 (custom_asked (clamp_size 800 (m_max_width (dev s)) (cmd_width data))
          (clamp_size 600 (m_max_height (dev s)) (cmd_height data)) s) = Some t"
    and "GetDisplayMode (m_display_mode t) t = Some dme2"
  shows "CustomMode others v (Some data) True n (Some k) s =
    Some (kIOReturnSuccess, Some \<lparr>cmd_flags = cmd_flags data, cmd_width = width dme2, cmd_height = height dme2\<rparr>, t)"
  using assms unfolding custom_asked_def by (auto simp: CustomMode_def Let_def)

section \<open>Offered modes\<close>

lemma fb_run_offers:
  assumes "fb_start h p s = (True, s0)" and "fb_fresh s" and "fb_run s0 t" and "m \<in> set (m_modes t)"
  shows "\<exists>dme. GetDisplayMode m t = Some dme \<and> mode_fits (limits (dev t)) dme"
  using fb_step_run_ok(2) [OF assms(3)] fb_start_ok [OF assms(1,2)] assms(4) unfolding fb_ok_def modes_ok_def by blast

text \<open>The rows hold the pixels.\<close>

lemma row_bytes:
  fixes w :: u32
  assumes "w \<le> 0x10000000"
  shows "unat (push_bit 2 ((w + 7) AND NOT 7)) = 32 * ((unat w + 7) div 8)"
proof -
  have w: "unat w \<le> 0x10000000" using assms by (simp add: word_le_nat_alt)
  then have s: "unat (w + 7) = unat w + 7" by (subst unat_add_lem [THEN iffD1]) auto
  have "(w + 7) AND NOT 7 = push_bit 3 (drop_bit 3 (w + 7))"
  proof -
    have seven: "(7 :: u32) = mask 3" by (simp add: mask_eq_exp_minus_1)
    show ?thesis
      unfolding seven by (rule bit_word_eqI) (auto simp: bit_simps not_less)
  qed
  then have "unat (push_bit 2 ((w + 7) AND NOT 7)) = unat (push_bit 5 (drop_bit 3 (w + 7)))" by simp
  also have "\<dots> = 32 * ((unat w + 7) div 8)"
    using w s by (simp add: unat_word_ariths(2) unat_div push_bit_eq_mult drop_bit_eq_div)
  finally show ?thesis .
qed

section \<open>Properties\<close>


lemma fb_new_fresh: "fb_fresh fb_new"
  by (simp add: fb_fresh_def fb_new_def)



text \<open>C37: \<open>start\<close> is all or nothing: once the base class has started, it either succeeds, holding the lock, with
  the current mode in the table and the offered modes ready, or fails with the device, the timers, the lock and
  the EDID released.\<close>

theorem fb_start_all_or_nothing:
  assumes "is_pci p" and "super_start p" and "fb_fresh s"
  shows "case fb_start h p s of (ok, t) \<Rightarrow>
    if ok then m_iolock t \<and> 2 < getDisplayModeCount t \<and> getDisplayModes t = active_modes (m_max_width (dev t)) (m_max_height (dev t)) \<and>
      1 \<le> m_display_mode t \<and> m_display_mode t \<le> NUM_DISPLAY_MODES \<and>
      GetDisplayMode CUSTOM_MODE_ID t = Some \<lparr>width = 800, height = 600, flags = 3\<rparr>
    else fb_released t"
proof -
  obtain ok t where run: "fb_start h p s = (ok, t)" by (cases "fb_start h p s")
  show ?thesis
  proof (cases ok)
    case True
    then have "fb_start h p s = (True, t)" using run by simp
    then obtain w l where t: "limits (dev t) = (w, l)" "m_modes t = active_modes w l" "2 < length (active_modes w l)"
        "customMode t = modeList ! 0" "1 \<le> m_display_mode t" "m_display_mode t \<le> 26" "m_iolock t" "m_custom_switch t = 0"
      by (rule fb_start_True)
    then have "m_max_width (dev t) = w" "m_max_height (dev t) = l" by (simp_all add: limits_def)
    then show ?thesis
      using t run True by (simp add: getDisplayModeCount_def getDisplayModes_def GetDisplayMode_def modeList_0)
  next
    case False
    then show ?thesis using fb_start_False [OF assms] run by simp
  qed
qed

lemma fb_start_all_or_nothing_witness:
  "case fb_start screen_host (plain_setup\<lparr>lock_alloc := False\<rparr>) fb_new of (ok, t) \<Rightarrow>
    if ok then m_iolock t \<and> 2 < getDisplayModeCount t \<and> getDisplayModes t = active_modes (m_max_width (dev t)) (m_max_height (dev t)) \<and>
      1 \<le> m_display_mode t \<and> m_display_mode t \<le> NUM_DISPLAY_MODES \<and>
      GetDisplayMode CUSTOM_MODE_ID t = Some \<lparr>width = 800, height = 600, flags = 3\<rparr>
    else fb_released t"
  by (rule fb_start_all_or_nothing [OF _ _ fb_new_fresh]) (simp_all add: plain_setup_def)

text \<open>C36: for a mode that exists, the mode and pixel descriptions and the mode set agree: both descriptions give the
  same size, the rows are the smallest multiple of 32 bytes that holds the pixels, and \<open>setDisplayMode\<close>, outside
  a custom switch, succeeds, makes it the current mode and programs exactly that size at 32 bits.\<close>

theorem setDisplayMode_agrees:
  assumes "host_settles h" and "getInformationForDisplayMode m s = Inr i" and "nominalWidth i \<le> 0x10000000"
    and "\<not> m_custom_mode_switched s" and "\<not> checkOptionFB VMW_OPTION_FB_REG_DUMP s"
  shows "\<exists>px t. getPixelInformation m 0 True s = Inr px \<and> activeWidth px = nominalWidth i \<and> activeHeight px = nominalHeight i \<and>
    unat (bytesPerRow px) = 32 * ((unat (nominalWidth i) + 7) div 8) \<and>
    setDisplayMode h m 0 s = Some (kIOReturnSuccess, t) \<and> getCurrentDisplayMode t = (m, 0) \<and>
    m_width (dev t) = nominalWidth i \<and> m_height (dev t) = nominalHeight i \<and>
    io_log (dev t) = io_log (dev s) @ [(SVGA_REG_SYNC, 1), (SVGA_REG_WIDTH, nominalWidth i),
      (SVGA_REG_HEIGHT, nominalHeight i), (SVGA_REG_BITS_PER_PIXEL, 32), (SVGA_REG_ENABLE, 1)]"
proof -
  obtain dme where dme: "GetDisplayMode m s = Some dme" "nominalWidth i = width dme" "nominalHeight i = height dme"
    using assms(2) by (auto simp: getInformationForDisplayMode_def split: option.splits)
  obtain e where e: "SetMode h (width dme) (height dme) 32 (dev s) = Some e" "m_width e = width dme" "m_height e = height dme"
      "io_log e = io_log (dev s) @ [(SVGA_REG_SYNC, 1), (SVGA_REG_WIDTH, width dme), (SVGA_REG_HEIGHT, height dme),
         (SVGA_REG_BITS_PER_PIXEL, 32), (SVGA_REG_ENABLE, 1)]"
    using SetMode_returns [OF assms(1)] by blast
  have cancel: "dev (cancelRefreshTimer s) = dev s" "checkOptionFB 16 (cancelRefreshTimer s) = checkOptionFB 16 s"
    "m_accel_updates (cancelRefreshTimer s) = m_accel_updates s"
    by (simp_all add: cancelRefreshTimer_def checkOptionFB_def)
  define u where "u = (if \<not> m_accel_updates s then cancelRefreshTimer s else s)\<lparr>dev := e, m_display_mode := m, m_depth_mode := 0\<rparr>"
  define t where "t = (if \<not> m_accel_updates s then scheduleRefreshTimer 200 u else u)"
  have "setDisplayMode h m 0 s = Some (kIOReturnSuccess, t)"
    using assms(4,5) dme e(1) by (simp add: setDisplayMode_def Let_def cancel t_def u_def)
  moreover have "dev t = e" "getCurrentDisplayMode t = (m, 0)"
    by (simp_all add: t_def u_def scheduleRefreshTimer_def getCurrentDisplayMode_def)
  moreover have "\<exists>px. getPixelInformation m 0 True s = Inr px \<and> activeWidth px = width dme \<and> activeHeight px = height dme \<and>
      unat (bytesPerRow px) = 32 * ((unat (width dme) + 7) div 8)"
    using dme assms(3) row_bytes by (simp add: getPixelInformation_def)
  ultimately show ?thesis using e dme(2,3) by auto
qed

lemma setDisplayMode_agrees_witness:
  "\<exists>px t. getPixelInformation 19 0 True fb_new = Inr px \<and> activeWidth px = 1920 \<and> activeHeight px = 1080 \<and>
    setDisplayMode drain_host 19 0 fb_new = Some (kIOReturnSuccess, t) \<and> getCurrentDisplayMode t = (19, 0)"
  using setDisplayMode_agrees [OF drain_host_settles, of 19 fb_new
      "\<lparr>maxDepthIndex = 0, nominalWidth = 1920, nominalHeight = 1080, refreshRate = push_bit 16 60, info_flags = 3\<rparr>"]
  by (auto simp: getInformationForDisplayMode_def GetDisplayMode_def modeList_def safe_mode_def fb_new_def checkOptionFB_def)

section \<open>Cursor pixels\<close>

definition channel :: "nat \<Rightarrow> u32 \<Rightarrow> nat" where
  "channel k pixel = unat (drop_bit (8 * k) pixel AND 0xFF)"

lemma mask_8: "(0xFF :: u32) = mask 8"
  by (simp add: mask_eq_exp_minus_1)

lemma channel_small: "channel k p < 256"
proof -
  have "drop_bit (8 * k) p AND 0xFF < (2 :: u32) ^ 8" unfolding mask_8 by (rule and_mask_less') simp
  then show ?thesis by (simp add: channel_def word_less_nat_alt)
qed

lemma bit_byte:
  fixes b :: u32
  assumes "b < 256" and "bit b n"
  shows "n < 8"
proof (rule ccontr)
  assume "\<not> n < 8"
  then have "(2 :: nat) ^ 8 \<le> 2 ^ n" by (intro power_increasing) auto
  then have "unat b < 2 ^ n" using assms(1) by (simp add: word_less_nat_alt)
  moreover have "bit (unat b) n" using assms(2) by (simp add: bit_unsigned_iff)
  ultimately show False by (simp add: bit_iff_odd)
qed

text \<open>Four bytes put together.\<close>

lemma channel_pack:
  fixes p r g b :: u32
  assumes "r < 256" and "g < 256" and "b < 256"
  defines "x \<equiv> (p AND 0xFF000000) OR push_bit 16 r OR push_bit 8 g OR b"
  shows "channel 0 x = unat b" "channel 1 x = unat g" "channel 2 x = unat r" "channel 3 x = channel 3 p"
proof -
  have top: "(0xFF000000 :: u32) = push_bit 24 (mask 8)" by (simp add: mask_eq_exp_minus_1)
  have bits: "bit r n \<Longrightarrow> n < 8" "bit g n \<Longrightarrow> n < 8" "bit b n \<Longrightarrow> n < 8" for n
    using bit_byte assms(1-3) by blast+
  have "drop_bit 0 x AND 0xFF = b" "drop_bit 8 x AND 0xFF = g" "drop_bit 16 x AND 0xFF = r"
    "drop_bit 24 x AND 0xFF = drop_bit 24 p AND 0xFF"
    unfolding x_def mask_8 top by (rule bit_word_eqI; auto simp: bit_simps dest: bits)+
  then show "channel 0 x = unat b" "channel 1 x = unat g" "channel 2 x = unat r" "channel 3 x = channel 3 p"
    by (simp_all add: channel_def)
qed

lemma scaled_channel:
  fixes a :: u32
  assumes "unat a < 256"
  shows "unat ((drop_bit (8 * k) p AND 0xFF) * a div 255) = channel k p * unat a div 255"
    and "(drop_bit (8 * k) p AND 0xFF) * a div 255 < 256"
proof -
  have le: "channel k p * unat a \<le> 255 * 255"
    using channel_small [of k p] assms by (intro mult_mono) auto
  have e: "unat ((drop_bit (8 * k) p AND 0xFF) * a) = channel k p * unat a"
    using le unfolding channel_def by (subst unat_mult_lem [THEN iffD1]) auto
  then show u: "unat ((drop_bit (8 * k) p AND 0xFF) * a div 255) = channel k p * unat a div 255"
    by (simp add: unat_div)
  have "channel k p * unat a div 255 \<le> 255 * 255 div 255" using le by (rule div_le_mono)
  then show "(drop_bit (8 * k) p AND 0xFF) * a div 255 < 256" using u by (simp add: word_less_nat_alt)
qed

lemma alpha_channel: "drop_bit 24 p = drop_bit (8 * 3) p AND (0xFF :: u32)"
  unfolding mask_8 by (rule bit_word_eqI) (auto simp: bit_simps dest: bit_imp_le_length)

lemma premultiply_channels:
  assumes "channel 3 p \<noteq> 0"
  shows "k < 3 \<Longrightarrow> channel k (premultiply p) = channel k p * channel 3 p div 255"
    and "channel 3 (premultiply p) = channel 3 p"
proof -
  define a where "a = drop_bit 24 p"
  have ua: "unat a = channel 3 p" unfolding a_def alpha_channel channel_def ..
  have a256: "unat a < 256" unfolding ua by (rule channel_small)
  have "unat (ucast a :: u8) = unat a" using a256 by (simp add: unsigned_ucast_eq take_bit_eq_mod)
  then have byte: "(ucast a :: u8) = 255 \<longleftrightarrow> unat a = 255" by (simp add: word_unat_eq_iff)
  have "(k < 3 \<longrightarrow> channel k (premultiply p) = channel k p * channel 3 p div 255) \<and> channel 3 (premultiply p) = channel 3 p"
  proof (cases "unat a = 255")
    case True
    then have "(ucast a :: u8) = 255" using byte by simp
    then have "premultiply p = p" by (simp add: premultiply_def a_def)
    then show ?thesis using True ua by simp
  next
    case False
    then have "(ucast a :: u8) \<noteq> 255" using byte by simp
    moreover have "a \<noteq> 0" using assms ua by auto
    ultimately have p: "premultiply p = (p AND 0xFF000000) OR push_bit 16 ((drop_bit (8 * 2) p AND 0xFF) * a div 255) OR
        push_bit 8 ((drop_bit (8 * 1) p AND 0xFF) * a div 255) OR ((drop_bit (8 * 0) p AND 0xFF) * a div 255)"
      by (simp add: premultiply_def a_def Let_def)
    note c = channel_pack [of "(drop_bit (8 * 2) p AND 0xFF) * a div 255" "(drop_bit (8 * 1) p AND 0xFF) * a div 255"
        "(drop_bit (8 * 0) p AND 0xFF) * a div 255" p, OF scaled_channel(2) [OF a256] scaled_channel(2) [OF a256] scaled_channel(2) [OF a256],
        folded p, unfolded scaled_channel(1) [OF a256] ua]
    have "k < 3 \<Longrightarrow> k = 0 \<or> k = 1 \<or> k = 2" by auto
    then show ?thesis using c by auto
  qed
  then show "k < 3 \<Longrightarrow> channel k (premultiply p) = channel k p * channel 3 p div 255"
    and "channel 3 (premultiply p) = channel 3 p" by blast+
qed

text \<open>converting a cursor image multiplies the colours of its visible pixels by their alpha, keeps alpha, and so
  leaves no colour above its alpha; pixels beyond the image are not touched.\<close>

theorem ConvertAlphaCursor_premultiplies:
  assumes "i < length cursor"
  shows "length (ConvertAlphaCursor cursor w h) = length cursor \<and>
    (if i < unat (w * h) \<and> channel 3 (cursor ! i) \<noteq> 0
     then channel 3 (ConvertAlphaCursor cursor w h ! i) = channel 3 (cursor ! i) \<and>
       (\<forall>k<3. channel k (ConvertAlphaCursor cursor w h ! i) = channel k (cursor ! i) * channel 3 (cursor ! i) div 255 \<and>
         channel k (ConvertAlphaCursor cursor w h ! i) \<le> channel 3 (cursor ! i))
     else ConvertAlphaCursor cursor w h ! i = cursor ! i)"
proof -
  have at: "ConvertAlphaCursor cursor w h ! i = (if i < unat (w * h) then premultiply (cursor ! i) else cursor ! i)"
    using assms by (simp add: ConvertAlphaCursor_def nth_append min_def)
  have same: "premultiply (cursor ! i) = cursor ! i" if "channel 3 (cursor ! i) = 0"
  proof -
    have "drop_bit 24 (cursor ! i) = 0" using that unfolding channel_def alpha_channel [symmetric] by (simp add: unat_eq_0)
    then show ?thesis by (simp add: premultiply_def)
  qed
  have le: "channel k (cursor ! i) * channel 3 (cursor ! i) div 255 \<le> channel 3 (cursor ! i)" for k
    using div_le_mono [OF mult_le_mono1, of "channel k (cursor ! i)" 255 "channel 3 (cursor ! i)" 255] channel_small [of k "cursor ! i"] by simp
  have "length (ConvertAlphaCursor cursor w h) = length cursor" by (simp add: ConvertAlphaCursor_def)
  then show ?thesis using at same le premultiply_channels [of "cursor ! i"] by auto
qed

lemma ConvertAlphaCursor_premultiplies_witness:
  "channel 0 (ConvertAlphaCursor [0x80FF0010, 0xFF123456] 1 2 ! 0) = 8"
proof -
  have c: "channel 3 0x80FF0010 = 128" "channel 0 0x80FF0010 = 16" by (simp_all add: channel_def)
  show ?thesis using ConvertAlphaCursor_premultiplies [of 0 "[0x80FF0010, 0xFF123456]" 1 2] c by simp
qed

section \<open>EDID blocks\<close>

lemma start_edid_holds:
  assumes "edid_property p \<noteq> []" and "length (edid_property p) \<le> 256" and "edid_malloc p"
  defines "n \<equiv> (length (edid_property p) + 127) div 128"
  shows "m_edid (start_edid p s) = Some (edid_property p @ replicate (n * 128 - length (edid_property p)) 0)"
    and "m_edid_size (start_edid p s) = of_nat (n * 128)"
    and "length (edid_property p) \<le> n * 128" and "1 \<le> n" and "n \<le> 2"
proof -
  have "0 < length (edid_property p)" using assms(1) by simp
  then show "length (edid_property p) \<le> n * 128" "1 \<le> n" "n \<le> 2"
    using assms(2) unfolding n_def by linarith+
  show "m_edid (start_edid p s) = Some (edid_property p @ replicate (n * 128 - length (edid_property p)) 0)"
    "m_edid_size (start_edid p s) = of_nat (n * 128)"
    using assms(1-3) by (simp_all add: start_edid_def n_def Let_def)
qed

lemma unat_block:
  assumes "b < (0x2000000 :: u32)"
  shows "unat (b * 128) = unat b * 128"
  using assms by (subst unat_mult_lem [THEN iffD1]) (auto simp: word_less_nat_alt)

lemma padded_block:
  assumes "length e \<le> n" and "k + 128 \<le> n"
  shows "take 128 (drop k (e @ replicate (n - length e) 0)) = take 128 (drop k e @ replicate 128 0)"
proof (rule nth_equalityI)
  show "length (take 128 (drop k (e @ replicate (n - length e) 0))) = length (take 128 (drop k e @ replicate 128 0))"
    using assms by simp
  show "take 128 (drop k (e @ replicate (n - length e) 0)) ! i = take 128 (drop k e @ replicate 128 0) ! i"
    if "i < length (take 128 (drop k (e @ replicate (n - length e) 0)))" for i
    using assms that by (auto simp: nth_append)
qed

text \<open>after a start with an EDID of up to 256 bytes, the DDC query serves exactly its blocks, numbered from one,
  each zero-padded to 128 bytes, and leaves every other block number below 33554432 to the base class.\<close>

theorem getDDCBlock_serves:
  assumes "edid_property p \<noteq> []" and "length (edid_property p) \<le> 256" and "edid_malloc p"
    and "128 \<le> len" and "blockNumber < 0x2000000"
  shows "getDDCBlock 0 blockNumber True (Some len) (start_edid p s) =
    (if 1 \<le> unat blockNumber \<and> unat blockNumber \<le> (length (edid_property p) + 127) div 128
     then Some (Some (take 128 (drop (128 * (unat blockNumber - 1)) (edid_property p) @ replicate 128 0)))
     else None)"
proof -
  define n where "n = (length (edid_property p) + 127) div 128"
  note e = start_edid_holds [OF assms(1-3), folded n_def]
  have size: "unat (of_nat (n * 128) :: u32) = n * 128"
  proof -
    have "n = 1 \<or> n = 2" using e(4,5) by linarith
    then show ?thesis by auto
  qed
  have guard: "blockNumber * 128 \<le> m_edid_size (start_edid p s) \<longleftrightarrow> unat blockNumber \<le> n"
    unfolding e(2) word_le_nat_alt size unat_block [OF assms(5)] by simp
  show ?thesis
  proof (cases "blockNumber \<noteq> 0 \<and> unat blockNumber \<le> n")
    case True
    then have one: "1 \<le> unat blockNumber" by (simp add: Suc_le_eq unat_gt_0)
    have "blockNumber - 1 < 0x2000000" using assms(5) True by (simp add: word_less_nat_alt unat_minus_one)
    then have i: "unat ((blockNumber - 1) * 128) = 128 * (unat blockNumber - 1)"
      unfolding unat_block [OF \<open>blockNumber - 1 < 0x2000000\<close>] using True by (simp add: unat_minus_one)
    then have i': "unat (blockNumber * 128 - 128) = 128 * (unat blockNumber - Suc 0)" by simp
    have "128 * (unat blockNumber - 1) + 128 \<le> n * 128" using True one by (cases "unat blockNumber") auto
    then show ?thesis
      using True one assms(4) guard e(1,3) padded_block [OF e(3)]
      by (simp add: getDDCBlock_def Let_def i' n_def [symmetric])
  next
    case False
    then have "\<not> (1 \<le> unat blockNumber \<and> unat blockNumber \<le> n)" by (auto simp: Suc_le_eq unat_gt_0)
    then show ?thesis using False guard e(1) unfolding n_def by (auto simp: getDDCBlock_def Let_def)
  qed
qed

lemma getDDCBlock_serves_witness:
  "getDDCBlock 0 2 True (Some 128) (start_edid (plain_setup\<lparr>edid_property := replicate 130 7\<rparr>) fb_new) =
    Some (Some (take 128 (drop 128 (replicate 130 7) @ replicate 128 0)))"
  using getDDCBlock_serves [where p = "plain_setup\<lparr>edid_property := replicate 130 7\<rparr>" and s = fb_new and len = 128 and blockNumber = 2]
  by (simp add: plain_setup_def)

text \<open>C40: block number 33554432 passes the bound check, whose 32-bit product wraps to zero, and the copy then reads
  far beyond the EDID buffer.\<close>

theorem getDDCBlock_wraps:
  assumes "edid_property p \<noteq> []" and "length (edid_property p) \<le> 256" and "edid_malloc p" and "128 \<le> len"
  shows "getDDCBlock 0 0x2000000 True (Some len) (start_edid p s) = Some None"
proof -
  have "(0x2000000 * 128 :: u32) = 0" by code_simp
  then have "(4294967296 :: u32) = 0" by simp
  then have "(4294967296 :: u32) \<le> x" for x by (simp only: word_zero_le)
  then show ?thesis
    using start_edid_holds(1,2) [OF assms(1-3), of s] start_edid_holds(3-5) [OF assms(1-3)] assms(2,4) by (simp add: getDDCBlock_def Let_def)
qed

lemma getDDCBlock_wraps_witness:
  "getDDCBlock 0 0x2000000 True (Some 128) (start_edid plain_setup fb_new) = Some None"
  by (rule getDDCBlock_wraps) (simp_all add: plain_setup_def)

section \<open>Custom sizes\<close>

text \<open>The wait for the window server returns exactly when the other threads at some point set the awaited step, and
  then at the first such moment.\<close>

theorem CustomSwitchStepWait_returns:
  "(CustomSwitchStepWait others v s \<noteq> None) = (\<exists>n. m_custom_switch ((others ^^ n) s) = v) \<and>
   (CustomSwitchStepWait others v s = Some t) =
     (\<exists>n. t = (others ^^ n) s \<and> m_custom_switch t = v \<and> v \<notin> (\<lambda>k. m_custom_switch ((others ^^ k) s)) ` {..<n})"
proof -
  have early: "v \<notin> (\<lambda>k. m_custom_switch ((others ^^ k) s)) ` {..<n} \<longleftrightarrow> (\<forall>k. k < n \<longrightarrow> m_custom_switch ((others ^^ k) s) \<noteq> v)" for n
    by auto
  have some: "CustomSwitchStepWait others v s = Some ((others ^^ n) s)"
    if "m_custom_switch ((others ^^ n) s) = v" "\<forall>k. k < n \<longrightarrow> m_custom_switch ((others ^^ k) s) \<noteq> v" for n
    using that by (intro CustomSwitchStepWait_after) auto
  have "\<exists>u. CustomSwitchStepWait others v s = Some u" if ex: "\<exists>n. m_custom_switch ((others ^^ n) s) = v"
    using some [of "LEAST n. m_custom_switch ((others ^^ n) s) = v"] LeastI_ex [OF ex] not_less_Least by blast
  moreover have "\<exists>n. t = (others ^^ n) s \<and> m_custom_switch t = v \<and> (\<forall>k. k < n \<longrightarrow> m_custom_switch ((others ^^ k) s) \<noteq> v)"
    if "CustomSwitchStepWait others v s = Some t" for t using CustomSwitchStepWait_Some [OF that] .
  ultimately show ?thesis using some unfolding early by (metis not_Some_eq)
qed

text \<open>C35: a custom-size request in a consistent state, on a system whose window server ends the switch, returns; it has
  offered the custom mode alone while it waited, the custom mode then has the requested size clamped to what the
  screen can show, and the caller is told the size of the mode that is current in the end.\<close>

theorem CustomMode_resizes:
  assumes "fb_ok s" and "m_restore_call s" and "12 \<le> inSize" and "12 \<le> outSize" and "cmd_flags data AND 1 \<noteq> 0" and "13 \<le> v"
    and "GetDisplayMode (m_display_mode s) s = Some dme"
    and "w = clamp_size 800 (m_max_width (dev s)) (cmd_width data)" and "h = clamp_size 600 (m_max_height (dev s)) (cmd_height data)"
    and "w \<noteq> width dme \<or> h \<noteq> height dme"
    and "\<And>x. fb_ok x \<Longrightarrow> fb_ok (others x)"
    and "m_custom_switch ((others ^^ n) (custom_asked w h s)) = 0"
  shows "800 \<le> w \<and> w \<le> m_max_width (dev s) \<and> 600 \<le> h \<and> h \<le> m_max_height (dev s) \<and>
    getDisplayModes (custom_asked w h s) = [CUSTOM_MODE_ID] \<and>
    (\<exists>i. getInformationForDisplayMode CUSTOM_MODE_ID (custom_asked w h s) = Inr i \<and> nominalWidth i = w \<and> nominalHeight i = h) \<and>
    (\<exists>t info. CustomMode others v (Some data) True inSize (Some outSize) s =
        Some (kIOReturnSuccess, Some \<lparr>cmd_flags = cmd_flags data, cmd_width = nominalWidth info, cmd_height = nominalHeight info\<rparr>, t) \<and>
      m_custom_switch t = 0 \<and> getInformationForDisplayMode (m_display_mode t) t = Inr info \<and>
      (\<exists>k \<le> n. t = (others ^^ k) (custom_asked w h s)))"
proof -
  let ?a = "custom_asked w h s"
  have modes: "modes_ok s" using assms(1) unfolding fb_ok_def ..
  have bounds: "800 \<le> w \<and> w \<le> m_max_width (dev s) \<and> 600 \<le> h \<and> h \<le> m_max_height (dev s)"
    using clamp_size_bounds [OF modes_ok_limits(1) [OF modes]] clamp_size_bounds [OF modes_ok_limits(2) [OF modes]]
    unfolding assms(8,9) by blast
  define k where "k = (LEAST n. m_custom_switch ((others ^^ n) ?a) = 0)"
  have k: "m_custom_switch ((others ^^ k) ?a) = 0" "k \<le> n"
    unfolding k_def using assms(12) by (rule LeastI, rule Least_le)
  have wait: "CustomSwitchStepWait others 0 ?a = Some ((others ^^ k) ?a)"
    by (rule CustomSwitchStepWait_after [OF k(1)]) (use not_less_Least in \<open>auto simp: k_def\<close>)
  have "fb_ok ((others ^^ k) ?a)"
    using funpow_ok [OF assms(11) custom_asked_ok [OF assms(1)]] unfolding assms(8,9) .
  then obtain dme2 where dme2: "GetDisplayMode (m_display_mode ((others ^^ k) ?a)) ((others ^^ k) ?a) = Some dme2"
    unfolding fb_ok_def modes_ok_def by blast
  note run = CustomMode_asks [OF assms(2-7), of others, folded assms(8,9), OF assms(10) wait dme2]
  have "\<exists>info. getInformationForDisplayMode (m_display_mode ((others ^^ k) ?a)) ((others ^^ k) ?a) = Inr info \<and>
      nominalWidth info = width dme2 \<and> nominalHeight info = height dme2"
    by (simp add: getInformationForDisplayMode_def dme2)
  then have last: "\<exists>t info. CustomMode others v (Some data) True inSize (Some outSize) s =
        Some (kIOReturnSuccess, Some \<lparr>cmd_flags = cmd_flags data, cmd_width = nominalWidth info, cmd_height = nominalHeight info\<rparr>, t) \<and>
      m_custom_switch t = 0 \<and> getInformationForDisplayMode (m_display_mode t) t = Inr info \<and>
      (\<exists>k \<le> n. t = (others ^^ k) ?a)"
    using run k by metis
  have "getDisplayModes ?a = [CUSTOM_MODE_ID]" by (simp add: getDisplayModes_def)
  moreover have "\<exists>i. getInformationForDisplayMode CUSTOM_MODE_ID ?a = Inr i \<and> nominalWidth i = w \<and> nominalHeight i = h"
    by (simp add: getInformationForDisplayMode_def GetDisplayMode_def)
  ultimately show ?thesis using bounds last by blast
qed

text \<open>Ending an old-style custom switch moves a mode whose size differs from the custom one to the front, so that the
  window server must switch; the offered modes stay the same, each once, and the listener is notified.\<close>

theorem RestoreAllModes_switches:
  assumes "fb_ok s" and "m_custom_switch s = 2" and "m_intr_enabled s" and "m_intr s = (target, ref, pr)" and "pr \<noteq> 0"
    and "m \<in> set (m_modes s)" and "GetDisplayMode m s = Some dme" and "width dme \<noteq> width (customMode s) \<or> height dme \<noteq> height (customMode s)"
  shows "\<exists>t first. t = RestoreAllModes s \<and> getDisplayModes t = m_modes t \<and> set (m_modes t) = set (m_modes s) \<and> distinct (m_modes t) \<and>
    GetDisplayMode (hd (m_modes t)) t = Some first \<and> (width first \<noteq> width (customMode t) \<or> height first \<noteq> height (customMode t)) \<and>
    intr_calls t = intr_calls s @ [(target, ref)]"
proof -
  have other: "\<exists>i. find_other_size s (customMode s) ms k = Some i" if "m \<in> set ms" for ms k
    using that assms(7,8)
    by (induction s "customMode s" ms k rule: find_other_size.induct) (auto split: option.split)
  obtain i where i: "find_other_size s (customMode s) (m_modes s) 0 = Some i" using other [OF assms(6)] by blast
  obtain first where f: "i < length (m_modes s)" "GetDisplayMode (m_modes s ! i) s = Some first"
      "width first \<noteq> width (customMode s) \<or> height first \<noteq> height (customMode s)"
    using find_other_size_bounds [OF i] by auto
  have len: "0 < length (m_modes s)" using f(1) by auto
  let ?ms = "(m_modes s)[0 := m_modes s ! i, i := m_modes s ! 0]"
  have t: "RestoreAllModes s = s\<lparr>restore_timer := None, m_modes := ?ms, m_custom_mode_switched := True, m_custom_switch := 0,
      intr_calls := intr_calls s @ [(target, ref)]\<rparr>"
    using i assms(2-5) by (simp add: RestoreAllModes_def Let_def find_other_size_timer GetDisplayMode_def
        CustomSwitchStepSet_def EmitConnectChangedEvent_def)
  have "hd ?ms = m_modes s ! i" using f(1) by (cases "m_modes s"; cases i) auto
  moreover have "set ?ms = set (m_modes s)" "distinct ?ms"
    using set_swap [OF len f(1)] distinct_swap [OF len f(1)] assms(1) unfolding fb_ok_def modes_ok_def by simp_all
  moreover have "GetDisplayMode k (RestoreAllModes s) = GetDisplayMode k s" for k
    unfolding t by (simp add: GetDisplayMode_def)
  moreover have "m_modes (RestoreAllModes s) = ?ms" "customMode (RestoreAllModes s) = customMode s"
    "intr_calls (RestoreAllModes s) = intr_calls s @ [(target, ref)]" "m_custom_switch (RestoreAllModes s) = 0"
    unfolding t by simp_all
  ultimately show ?thesis
    using f(2,3) by (intro exI [of _ "RestoreAllModes s"] exI [of _ first]) (simp add: getDisplayModes_def)
qed

lemma fb_up_ok: "fb_ok fb_up"
  by (rule fb_start_ok [OF fb_up_started fb_new_fresh])

lemma fb_up_fields:
  "limits (dev fb_up) = (2560, 1600)" "m_modes fb_up = active_modes 2560 1600" "customMode fb_up = modeList ! 0" "m_restore_call fb_up"
proof -
  obtain d where d: "svga_Start screen_host \<lparr>has_bar0 = True, has_bar2 = True, can_map = True, can_malloc = True\<rparr>
      (svga_Init svga_new) = (True, d)" "m_max_width d = 2560" "m_max_height d = 1600" "m_capabilities d = 0"
    by (rule screen_host_start)
  have "\<not> length (remove1 24 [1..26 :: int]) \<le> 2" by code_simp
  then show "limits (dev fb_up) = (2560, 1600)" "m_modes fb_up = active_modes 2560 1600" "customMode fb_up = modeList ! 0" "m_restore_call fb_up"
    by (simp_all add: fb_up_def limits_def fb_start_def plain_setup_def start_edid_def start_options_def fb_new_def d start_dump_def
       checkOptionFB_def modes_2560 start_fifo_def FIFOInit_def WriteReg_def poll_def scheduleRefreshTimer_def setupRefreshTimer_def Let_def)
qed

lemma fb_up_custom:
  "fb_ok (fb_up\<lparr>m_display_mode := 1, m_depth_mode := 0\<rparr>)" "GetDisplayMode 1 fb_up = Some (modeList ! 0)"
proof -
  have "m_depth_mode fb_up = 0" using fb_up_ok unfolding fb_ok_def modes_ok_def by blast
  moreover have same: "GetDisplayMode k (fb_up\<lparr>m_display_mode := 1, m_depth_mode := 0\<rparr>) = GetDisplayMode k fb_up" "GetDisplayMode 1 fb_up \<noteq> None" for k
    by (simp_all add: GetDisplayMode_def)
  ultimately show "fb_ok (fb_up\<lparr>m_display_mode := 1, m_depth_mode := 0\<rparr>)"
    using fb_up_ok same by (simp add: fb_ok_def modes_ok_def refresh_ok_def)
  show "GetDisplayMode 1 fb_up = Some (modeList ! 0)" by (simp add: GetDisplayMode_def fb_up_fields)
qed

lemma CustomMode_resizes_witness:
  "\<exists>t (info :: mode_information). CustomMode (\<lambda>x. x\<lparr>m_custom_switch := 0\<rparr>) 17 (Some \<lparr>cmd_flags = 1, cmd_width = 1111, cmd_height = 9999\<rparr>) True 12 (Some 12)
      (fb_up\<lparr>m_display_mode := 1, m_depth_mode := 0\<rparr>) =
    Some (kIOReturnSuccess, Some \<lparr>cmd_flags = 1, cmd_width = nominalWidth info, cmd_height = nominalHeight info\<rparr>, t)"
proof -
  let ?s = "fb_up\<lparr>m_display_mode := 1, m_depth_mode := 0\<rparr>" and ?others = "\<lambda>x :: fb. x\<lparr>m_custom_switch := 0\<rparr>"
  have lim: "m_max_width (dev fb_up) = 2560" "m_max_height (dev fb_up) = 1600" using fb_up_fields(1) by (simp_all add: limits_def)
  have others: "fb_ok (?others x)" if "fb_ok x" for x using that by (rule fb_ok_cong) simp_all
  have "m_restore_call ?s" "(12 :: nat) \<le> 12" "cmd_flags \<lparr>cmd_flags = 1, cmd_width = 1111, cmd_height = 9999\<rparr> AND 1 \<noteq> 0" "13 \<le> (17 :: nat)"
    "GetDisplayMode (m_display_mode ?s) ?s = Some (modeList ! 0)" "1111 \<noteq> width (modeList ! 0) \<or> 1600 \<noteq> height (modeList ! 0)"
    "1111 = clamp_size 800 (m_max_width (dev ?s)) (cmd_width \<lparr>cmd_flags = 1, cmd_width = 1111, cmd_height = 9999\<rparr>)"
    "1600 = clamp_size 600 (m_max_height (dev ?s)) (cmd_height \<lparr>cmd_flags = 1, cmd_width = 1111, cmd_height = 9999\<rparr>)"
    "m_custom_switch ((?others ^^ 1) (custom_asked 1111 1600 ?s)) = 0"
    using fb_up_fields lim by (simp_all add: GetDisplayMode_def modeList_0 clamp_size_def)
  note res = CustomMode_resizes [OF fb_up_custom(1) this(1) this(2) this(2) this(3,4,5) this(7,8,6) others this(9)]
  have "(w \<and> x \<and> y \<and> z \<and> a \<and> b \<and> (\<exists>t info. P t info \<and> Q t info)) \<Longrightarrow> \<exists>t info. P t info"
    for w x y z a b and P Q :: "fb \<Rightarrow> mode_information \<Rightarrow> bool" by blast
  from this [OF res] show ?thesis by simp
qed

lemma RestoreAllModes_switches_witness:
  "\<exists>t first. t = RestoreAllModes (fb_up\<lparr>m_custom_switch := 2, m_intr := (1, 2, 3), m_intr_enabled := True\<rparr>) \<and>
    GetDisplayMode (hd (m_modes t)) t = Some first \<and> (width first \<noteq> width (customMode t) \<or> height first \<noteq> height (customMode t))"
proof -
  let ?s = "fb_up\<lparr>m_custom_switch := 2, m_intr := (1, 2, 3), m_intr_enabled := True\<rparr>"
  have "fb_ok ?s" by (rule fb_ok_cong [OF fb_up_ok]) simp_all
  moreover have "m_custom_switch ?s = 2" "m_intr_enabled ?s" "m_intr ?s = (1, 2, 3)" "(3 :: nat) \<noteq> 0" by simp_all
  moreover have "3 \<in> set (m_modes ?s)" by (simp add: fb_up_fields modes_2560)
  moreover have "GetDisplayMode 3 ?s = Some (modeList ! 2)" by (simp add: GetDisplayMode_def)
  moreover have "width (modeList ! 2) \<noteq> width (customMode ?s) \<or> height (modeList ! 2) \<noteq> height (customMode ?s)"
    by (simp add: fb_up_fields modeList_def safe_mode_def)
  ultimately show ?thesis by (rule RestoreAllModes_switches [THEN exE]) blast
qed

end
