(* ===== verification/Accelerator.thy ===== *)
theory Accelerator
  imports CommandStream VramPool AccelIds FramebufferProofs
begin

text \<open>
  The accelerator (\<^verbatim>\<open>AC/VMsvga2Accel.cpp\<close>, \<^verbatim>\<open>AC/FenceTracker.h\<close>): bring-up, user clients, the requests of
  the 2D context and of the surfaces, the primary screen, the shared master surface and the video calls.
  It drives the device of the framebuffer driver (\<open>Framebuffer\<close>) through the command writers, and owns the
  identifiers (\<open>AccelIds\<close>) and the video memory pool (\<open>VramPool\<close>).

  \<^verbatim>\<open>lockDevice\<close> and \<^verbatim>\<open>unlockDevice\<close> make the calls between them one step.  Registry properties and
  logging are left out; what IOKit provides is a parameter.  A call answers \<open>None\<close> when it does not return:
  a wait for the host that never ends, or a null framebuffer that the source dereferences unchecked.
\<close>

section \<open>Regions\<close>

type_synonym i16 = "16 word"

record bounds =
  r_x :: i16
  r_y :: i16
  r_w :: i16
  r_h :: i16

text \<open>\<^verbatim>\<open>IOAccelDeviceRegion\<close>: \<^verbatim>\<open>num_rects\<close> is the length of the array.\<close>

record region =
  bounding :: bounds
  rects :: "bounds list"

abbreviation (input) num_rects :: "region option \<Rightarrow> nat" where
  "num_rects rgn \<equiv> (case rgn of None \<Rightarrow> 0 | Some r \<Rightarrow> length (rects r))"

definition IOACCEL_SIZEOF_DEVICE_REGION :: "region \<Rightarrow> nat" where
  "IOACCEL_SIZEOF_DEVICE_REGION rgn = 12 + 8 * length (rects rgn)"

definition set_region :: "u32 \<Rightarrow> u32 \<Rightarrow> u32 \<Rightarrow> u32 \<Rightarrow> region" where
  "set_region x y w h =
    (let b = \<lparr>r_x = ucast x, r_y = ucast y, r_w = ucast w, r_h = ucast h\<rparr> in \<lparr>bounding = b, rects = [b]\<rparr>)"

text \<open>\<^verbatim>\<open>int16_t\<close> values are promoted to \<^verbatim>\<open>int\<close>; \<open>delta\<close> is \<open>(0, 0)\<close> for a null pointer.\<close>

abbreviation (input) int_of :: "i16 \<Rightarrow> u32" where "int_of \<equiv> scast"

definition convert_rect :: "bounds \<Rightarrow> u32 \<times> u32 \<Rightarrow> signed_rect" where
  "convert_rect src_rect delta =
    (let left = int_of (r_x src_rect) + fst delta;
         right = left + int_of (r_w src_rect);
         top = int_of (r_y src_rect) + snd delta;
         bottom = top + int_of (r_h src_rect)
     in SVGASignedRect left top right bottom)"

definition GMR_VRAM :: u32 where
  "GMR_VRAM = - 2"

section \<open>Fence tracker\<close>

record fence_tracker =
  counter :: nat
  fences :: "u32 list"

definition tracker_init :: "nat \<Rightarrow> fence_tracker" where
  "tracker_init n = \<lparr>counter = 0, fences = replicate n 0\<rparr>"

definition tracker_before :: "fence_tracker \<Rightarrow> u32" where
  "tracker_before t = fences t ! counter t"

definition tracker_after :: "u32 \<Rightarrow> fence_tracker \<Rightarrow> fence_tracker" where
  "tracker_after fence t =
    (let t = t\<lparr>fences := (fences t)[counter t := fence], counter := counter t + 1\<rparr>
     in if counter t = length (fences t) then t\<lparr>counter := 0\<rparr> else t)"

abbreviation (input) AUTO_SYNC_PRESENT_FENCE_COUNT :: nat where "AUTO_SYNC_PRESENT_FENCE_COUNT \<equiv> 2"

section \<open>State\<close>

text \<open>
  \<open>m_framebuffer\<close> holds the framebuffer object, whose \<open>dev\<close> is \<^verbatim>\<open>m_svga\<close>; tasks are numbers, 0 for none;
  \<open>m_master_surface_retain_count\<close> is an \<^verbatim>\<open>int\<close>.
\<close>

record accel =
  m_framebuffer :: "fb option"
  accel_vram :: vram
  accel_ids :: accel_ids
  ac_iolock :: bool
  m_updating_ga :: nat
  m_log_level_ac :: u32
  m_log_level_ga :: u32
  m_log_level_gld :: u32
  m_options_ga :: u32
  bHaveSVGA3D :: bool
  bHaveScreenObject :: bool
  m_master_surface_retain_count :: u32
  m_master_surface_id :: u32
  m_blitbug_result :: ioreturn
  m_primary_screen :: "u32 \<times> u32"
  m_present_tracker :: fence_tracker
  vmw_options_ac :: u32

abbreviation (input) VMW_OPTION_AC_SURFACE_CONNECT :: u32 where "VMW_OPTION_AC_SURFACE_CONNECT \<equiv> 0x0001"
abbreviation (input) VMW_OPTION_AC_2D_CONTEXT :: u32 where "VMW_OPTION_AC_2D_CONTEXT \<equiv> 0x0002"
abbreviation (input) VMW_OPTION_AC_GL_CONTEXT :: u32 where "VMW_OPTION_AC_GL_CONTEXT \<equiv> 0x0004"
abbreviation (input) VMW_OPTION_AC_DVD_CONTEXT :: u32 where "VMW_OPTION_AC_DVD_CONTEXT \<equiv> 0x0008"
abbreviation (input) VMW_OPTION_AC_SVGA3D :: u32 where "VMW_OPTION_AC_SVGA3D \<equiv> 0x0010"
abbreviation (input) VMW_OPTION_AC_NO_YUV :: u32 where "VMW_OPTION_AC_NO_YUV \<equiv> 0x0020"
abbreviation (input) VMW_OPTION_AC_DIRECT_BLIT :: u32 where "VMW_OPTION_AC_DIRECT_BLIT \<equiv> 0x0040"
abbreviation (input) VMW_OPTION_AC_NO_SCREEN_OBJECT :: u32 where "VMW_OPTION_AC_NO_SCREEN_OBJECT \<equiv> 0x0080"
abbreviation (input) VMW_OPTION_AC_QE :: u32 where "VMW_OPTION_AC_QE \<equiv> 0x0100"
abbreviation (input) VMW_OPTION_AC_PACKED_BACKING :: u32 where "VMW_OPTION_AC_PACKED_BACKING \<equiv> 0x0200"
abbreviation (input) VMW_OPTION_AC_REGION_BOUNDS_COPY :: u32 where "VMW_OPTION_AC_REGION_BOUNDS_COPY \<equiv> 0x0400"

abbreviation (input) SVGA_ID_INVALID :: u32 where "SVGA_ID_INVALID \<equiv> - 1"

definition checkOptionAC :: "u32 \<Rightarrow> accel \<Rightarrow> bool" where
  "checkOptionAC opt s \<longleftrightarrow> vmw_options_ac s AND opt \<noteq> 0"

definition HaveFrontBuffer :: "accel \<Rightarrow> bool" where
  "HaveFrontBuffer s \<longleftrightarrow> bHaveScreenObject s \<or> bHaveSVGA3D s"

text \<open>What is done with the device between \<^verbatim>\<open>lockDevice\<close> and \<^verbatim>\<open>unlockDevice\<close>.\<close>

definition with_device :: "(svga \<Rightarrow> ('a \<times> svga) option) \<Rightarrow> accel \<Rightarrow> ('a \<times> accel) option" where
  "with_device f s =
    (case m_framebuffer s of None \<Rightarrow> None
     | Some b \<Rightarrow> do {
         (r, d) \<leftarrow> f (dev b);
         Some (r, s\<lparr>m_framebuffer := Some (b\<lparr>dev := d\<rparr>)\<rparr>)
       })"

definition HaveGLBaseline :: "accel \<Rightarrow> bool" where
  "HaveGLBaseline s \<longleftrightarrow>
    (case m_framebuffer s of None \<Rightarrow> False | Some b \<Rightarrow> bHaveSVGA3D s \<and> HasCapability SVGA_CAP_GMR (dev b))"

section \<open>Bring-up\<close>

definition initPrimaryScreen :: "accel \<Rightarrow> accel" where
  "initPrimaryScreen s = s\<lparr>m_primary_screen := (- 1, - 1)\<rparr>"

definition cleanupPrimaryScreen :: "accel \<Rightarrow> accel" where
  "cleanupPrimaryScreen s = s\<lparr>m_primary_screen := (- 1, - 1)\<rparr>"

definition accel_Cleanup :: "accel \<Rightarrow> accel" where
  "accel_Cleanup s =
    (let s = s\<lparr>bHaveSVGA3D := False\<rparr>;
         s = (if bHaveScreenObject s then (cleanupPrimaryScreen s)\<lparr>bHaveScreenObject := False\<rparr> else s);
         s = s\<lparr>accel_vram := (accel_vram s)\<lparr>allocator := None\<rparr>\<rparr>;
         s = s\<lparr>accel_vram := (accel_vram s)\<lparr>kernel_map := None\<rparr>\<rparr>;
         s = s\<lparr>m_framebuffer := None\<rparr>
     in s\<lparr>ac_iolock := False\<rparr>)"

text \<open>\<open>boot\<close>: the boot arguments.\<close>

definition processOptions :: "(string \<Rightarrow> u32 option) \<Rightarrow> accel \<Rightarrow> accel" where
  "processOptions boot s =
    (let s = s\<lparr>vmw_options_ac := VMW_OPTION_AC_2D_CONTEXT OR VMW_OPTION_AC_SURFACE_CONNECT\<rparr>;
         s = (case boot ''vmw_options_ac'' of None \<Rightarrow> s | Some arg \<Rightarrow> s\<lparr>vmw_options_ac := arg\<rparr>);
         flag = (\<lambda>name opt (s :: accel). if boot name \<noteq> None then s\<lparr>vmw_options_ac := vmw_options_ac s OR opt\<rparr> else s);
         s = flag ''-svga3d'' VMW_OPTION_AC_SVGA3D s;
         s = flag ''-vmw_no_yuv'' VMW_OPTION_AC_NO_YUV s;
         s = flag ''-vmw_direct_blit'' VMW_OPTION_AC_DIRECT_BLIT s;
         s = flag ''-vmw_no_screen_object'' VMW_OPTION_AC_NO_SCREEN_OBJECT s;
         s = flag ''-vmw_gl'' VMW_OPTION_AC_GL_CONTEXT s;
         s = flag ''-vmw_qe'' VMW_OPTION_AC_QE s;
         s = (if checkOptionAC VMW_OPTION_AC_QE s then s\<lparr>vmw_options_ac := vmw_options_ac s OR VMW_OPTION_AC_GL_CONTEXT\<rparr> else s);
         s = (case boot ''vmw_options_ga'' of None \<Rightarrow> s | Some arg \<Rightarrow> s\<lparr>m_options_ga := arg\<rparr>);
         s = (case boot ''vmw_log_ac'' of None \<Rightarrow> s | Some arg \<Rightarrow> s\<lparr>m_log_level_ac := arg\<rparr>);
         s = (case boot ''vmw_log_ga'' of None \<Rightarrow> s | Some arg \<Rightarrow> s\<lparr>m_log_level_ga := arg\<rparr>)
     in case boot ''vmw_log_gld'' of None \<Rightarrow> s | Some arg \<Rightarrow> s\<lparr>m_log_level_gld := arg\<rparr>)"

text \<open>The first client of the provider that is a framebuffer (\<open>Some\<close>) and supports acceleration.\<close>

fun find_accel_fb :: "fb option list \<Rightarrow> fb option" where
  "find_accel_fb [] = None"
| "find_accel_fb (None # cs) = find_accel_fb cs"
| "find_accel_fb (Some b # cs) = (if \<not> supportsAccel b then find_accel_fb cs else Some b)"

text \<open>\<open>clients\<close>: \<open>None\<close> without a provider, \<open>Some None\<close> without an iterator.\<close>

definition findFramebuffer :: "fb option list option option \<Rightarrow> accel \<Rightarrow> ioreturn \<times> accel" where
  "findFramebuffer clients s =
    (case clients of None \<Rightarrow> (kIOReturnNotReady, s)
     | Some None \<Rightarrow> (kIOReturnNotFound, s)
     | Some (Some cs) \<Rightarrow>
         (case find_accel_fb cs of None \<Rightarrow> (kIOReturnNotFound, s)
          | Some b \<Rightarrow> (kIOReturnSuccess, s\<lparr>m_framebuffer := Some b\<rparr>)))"

definition accel_init :: "u32 \<Rightarrow> bool \<Rightarrow> accel \<Rightarrow> bool \<times> accel" where
  "accel_init logging_level super_init s =
    (if \<not> super_init then (False, s)
     else (True, initPrimaryScreen (s\<lparr>m_log_level_ac := logging_level, m_log_level_ga := - 1, m_log_level_gld := - 1,
       m_master_surface_id := SVGA_ID_INVALID, m_blitbug_result := kIOReturnNotFound,
       m_present_tracker := tracker_init AUTO_SYNC_PRESENT_FENCE_COUNT\<rparr>)))"

record accel_setup =
  ac_is_pci :: bool
  ac_super_start :: bool
  ac_boot :: "string \<Rightarrow> u32 option"
  ac_clients :: "fb option list option option"
  ac_lock_alloc :: bool
  ac_allocator :: "pool option"

text \<open>The features: screen objects, SVGA3D, and the OpenGL clients only on a device that can serve them.\<close>

definition start_features :: "accel \<Rightarrow> accel" where
  "start_features s =
    (let d = map_option dev (m_framebuffer s);
         s = (if \<not> checkOptionAC VMW_OPTION_AC_NO_SCREEN_OBJECT s \<and> SVGAScreen_Init d
              then s\<lparr>bHaveScreenObject := True\<rparr> else s);
         s = (if (bHaveScreenObject s \<or> checkOptionAC (VMW_OPTION_AC_SVGA3D OR VMW_OPTION_AC_GL_CONTEXT) s) \<and> fst (SVGA3D_Init d)
              then s\<lparr>bHaveSVGA3D := True\<rparr> else s)
     in if checkOptionAC VMW_OPTION_AC_GL_CONTEXT s \<and> \<not> HaveGLBaseline s
        then s\<lparr>vmw_options_ac := vmw_options_ac s AND NOT (VMW_OPTION_AC_GL_CONTEXT OR VMW_OPTION_AC_QE)\<rparr> else s)"

definition accel_start :: "accel_setup \<Rightarrow> accel \<Rightarrow> bool \<times> accel" where
  "accel_start p s =
    (if \<not> ac_is_pci p then (False, s)
     else if \<not> ac_super_start p then (False, s)
     else let s = processOptions (ac_boot p) s; (r, s) = findFramebuffer (ac_clients p) s
     in if r \<noteq> kIOReturnSuccess then (False, accel_Cleanup s)
     else let s = s\<lparr>ac_iolock := ac_lock_alloc p\<rparr>
     in if \<not> ac_iolock s then (False, accel_Cleanup s)
     else let s = s\<lparr>accel_vram := (accel_vram s)\<lparr>allocator := ac_allocator p\<rparr>\<rparr>
     in if ac_allocator p = None then (False, accel_Cleanup s)
     else let s = start_features s
     in (True, s\<lparr>accel_ids := accel_ids_start (case m_framebuffer s of None \<Rightarrow> 0 | Some b \<Rightarrow> m_max_gmr_ids (dev b)) (accel_ids s)\<rparr>))"

definition accel_stop :: "accel \<Rightarrow> accel" where
  "accel_stop s = accel_Cleanup s"

section \<open>Waiting for the device\<close>

definition accel_SyncFIFO :: "host \<Rightarrow> accel \<Rightarrow> (ioreturn \<times> accel) option" where
  "accel_SyncFIFO h s =
    (if m_framebuffer s = None then Some (kIOReturnNoDevice, s)
     else do {
       (_, s) \<leftarrow> with_device (\<lambda>d. map_option (Pair ()) (SyncFIFO h d)) s;
       Some (kIOReturnSuccess, s)
     })"

definition accel_RingDoorBell :: "host \<Rightarrow> accel \<Rightarrow> (ioreturn \<times> accel) option" where
  "accel_RingDoorBell h s =
    (if m_framebuffer s = None then Some (kIOReturnNoDevice, s)
     else do {
       (_, s) \<leftarrow> with_device (\<lambda>d. Some ((), RingDoorBell h d)) s;
       Some (kIOReturnSuccess, s)
     })"

definition accel_SyncToFence :: "host \<Rightarrow> u32 \<Rightarrow> accel \<Rightarrow> (ioreturn \<times> accel) option" where
  "accel_SyncToFence h fence s =
    (if m_framebuffer s = None then Some (kIOReturnNoDevice, s)
     else do {
       (_, s) \<leftarrow> with_device (\<lambda>d. map_option (Pair ()) (SyncToFence h fence d)) s;
       Some (kIOReturnSuccess, s)
     })"

section \<open>Requests of the 2D context\<close>

definition accel_useAccelUpdates :: "host \<Rightarrow> bool \<Rightarrow> nat \<Rightarrow> accel \<Rightarrow> (ioreturn \<times> accel) option" where
  "accel_useAccelUpdates h state owningTask s =
    (if m_updating_ga s \<noteq> 0 \<and> m_updating_ga s \<noteq> owningTask then Some (kIOReturnSuccess, s)
     else case m_framebuffer s of None \<Rightarrow> Some (kIOReturnNoDevice, s)
     | Some b \<Rightarrow> do {
         let s = s\<lparr>m_updating_ga := (if state then owningTask else 0)\<rparr>;
         b \<leftarrow> useAccelUpdates h state b;
         Some (kIOReturnSuccess, s\<lparr>m_framebuffer := Some b\<rparr>)
       })"

text \<open>The loops that stop at the first call that fails; \<open>rc\<close> is the variable the result is taken from.\<close>

fun until_failure :: "('a \<Rightarrow> svga \<Rightarrow> (bool \<times> svga) option) \<Rightarrow> 'a list \<Rightarrow> bool \<Rightarrow> svga \<Rightarrow> (bool \<times> svga) option" where
  "until_failure f [] rc d = Some (rc, d)"
| "until_failure f (x # xs) rc d = do {
     (rc, d) \<leftarrow> f x d;
     if \<not> rc then Some (rc, d) else until_failure f xs rc d
   }"

text \<open>
  \<open>undefined_rc\<close> is the value of the uninitialised \<^verbatim>\<open>rc\<close>, which \<open>CopyRegion\<close> returns for a region
  without rectangles.  \<open>region_size\<close> is the size the caller gave.
\<close>

definition copy_rect_of :: "u32 \<Rightarrow> u32 \<Rightarrow> bounds \<Rightarrow> u32 list" where
  "copy_rect_of destX destY rect = [int_of (r_x rect), int_of (r_y rect), destX, destY, int_of (r_w rect), int_of (r_h rect)]"

definition CopyRegion :: "host \<Rightarrow> bool \<Rightarrow> u32 \<Rightarrow> u32 \<Rightarrow> region option \<Rightarrow> nat \<Rightarrow> accel \<Rightarrow> (ioreturn \<times> accel) option" where
  "CopyRegion h undefined_rc destX destY rgn region_size s =
    (case rgn of None \<Rightarrow> Some (kIOReturnBadArgument, s)
     | Some r \<Rightarrow>
         if region_size < IOACCEL_SIZEOF_DEVICE_REGION r then Some (kIOReturnBadArgument, s)
         else if HaveFrontBuffer s then Some (kIOReturnSuccess, s)
         else if m_framebuffer s = None then Some (kIOReturnNoDevice, s)
         else do {
           (rc, s) \<leftarrow>
             (if checkOptionAC VMW_OPTION_AC_REGION_BOUNDS_COPY s
              then with_device (RectCopy h (copy_rect_of destX destY (bounding r))) s
              else let deltaX = destX - int_of (r_x (bounding r)); deltaY = destY - int_of (r_y (bounding r))
                in with_device (until_failure
                     (\<lambda>rect. RectCopy h (copy_rect_of (int_of (r_x rect) + deltaX) (int_of (r_y rect) + deltaY) rect))
                     (rects r) undefined_rc) s);
           Some (if rc then kIOReturnSuccess else kIOReturnNoMemory, s)
         })"

text \<open>\<^verbatim>\<open>IOBlitCopyRectangle\<close>: source, destination and size, six \<^verbatim>\<open>SInt32\<close>.\<close>

record blit_copy_rect =
  sourceX :: u32
  sourceY :: u32
  dest_x :: u32
  dest_y :: u32
  blit_w :: u32
  blit_h :: u32

definition blit_copy_dwords :: "blit_copy_rect \<Rightarrow> u32 list" where
  "blit_copy_dwords r = [sourceX r, sourceY r, dest_x r, dest_y r, blit_w r, blit_h r]"

fun copy_each :: "(blit_copy_rect \<Rightarrow> accel \<Rightarrow> (ioreturn \<times> accel) option) \<Rightarrow> blit_copy_rect list \<Rightarrow> ioreturn \<Rightarrow> accel \<Rightarrow>
    (ioreturn \<times> accel) option" where
  "copy_each f [] rv s = Some (rv, s)"
| "copy_each f (r # rs) rv s = do {
     (rv, s) \<leftarrow> f r s;
     if rv \<noteq> kIOReturnSuccess then Some (rv, s) else copy_each f rs rv s
   }"

text \<open>\<^verbatim>\<open>sizeof tmpRegion\<close> is 20, that of one rectangle.\<close>

definition accel_RectCopy :: "host \<Rightarrow> bool \<Rightarrow> blit_copy_rect list option \<Rightarrow> accel \<Rightarrow> (ioreturn \<times> accel) option" where
  "accel_RectCopy h undefined_rc copyRects s =
    (case copyRects of None \<Rightarrow> Some (kIOReturnBadArgument, s)
     | Some rs \<Rightarrow>
         if rs = [] then Some (kIOReturnBadArgument, s)
         else if HaveFrontBuffer s then
           copy_each (\<lambda>r. CopyRegion h undefined_rc (dest_x r) (dest_y r)
               (Some (set_region (sourceX r) (sourceY r) (blit_w r) (blit_h r))) 20) rs kIOReturnSuccess s
         else if m_framebuffer s = None then Some (kIOReturnNoDevice, s)
         else do {
           (rc, s) \<leftarrow> with_device (until_failure (\<lambda>r. RectCopy h (blit_copy_dwords r)) rs undefined_rc) s;
           Some (if rc then kIOReturnSuccess else kIOReturnNoMemory, s)
         })"

text \<open>The rectangles of \<open>RectFill\<close> are four dwords each.\<close>

definition accel_RectFill :: "host \<Rightarrow> bool \<Rightarrow> u32 \<Rightarrow> u32 list list option \<Rightarrow> accel \<Rightarrow> (ioreturn \<times> accel) option" where
  "accel_RectFill h undefined_rc color rs s =
    (case rs of None \<Rightarrow> Some (kIOReturnBadArgument, s)
     | Some rs \<Rightarrow>
         if rs = [] then Some (kIOReturnBadArgument, s)
         else if m_framebuffer s = None then Some (kIOReturnNoDevice, s)
         else do {
           (rc, s) \<leftarrow> with_device (until_failure (RectFill h color) rs undefined_rc) s;
           Some (if rc then kIOReturnSuccess else kIOReturnNoMemory, s)
         })"

definition UpdateFramebufferAutoRing :: "host \<Rightarrow> u32 list option \<Rightarrow> accel \<Rightarrow> (ioreturn \<times> accel) option" where
  "UpdateFramebufferAutoRing h rect s =
    (case rect of None \<Rightarrow> Some (kIOReturnBadArgument, s)
     | Some r \<Rightarrow>
         if HaveFrontBuffer s then Some (kIOReturnSuccess, s)
         else if m_framebuffer s = None then Some (kIOReturnNoDevice, s)
         else do {
           (_, s) \<leftarrow> with_device (\<lambda>d. do { (_, d) \<leftarrow> UpdateFramebuffer2 h r d; Some ((), RingDoorBell h d) }) s;
           Some (kIOReturnSuccess, s)
         })"

section \<open>Requests of the surfaces and the 3D contexts\<close>

text \<open>The call of a command writer whose outcome the accelerator does not report.\<close>

definition issue :: "(svga \<Rightarrow> (bool \<times> svga) option) \<Rightarrow> accel \<Rightarrow> (ioreturn \<times> accel) option" where
  "issue f s =
    (if \<not> bHaveSVGA3D s then Some (kIOReturnNoDevice, s)
     else do { (_, s) \<leftarrow> with_device f s; Some (kIOReturnSuccess, s) })"

record extra_info =
  mem_offset_in_gmr :: u64
  mem_pitch :: u64
  srcDeltaX :: u32
  srcDeltaY :: u32
  dstDeltaX :: u32
  dstDeltaY :: u32
  mem_gmr_id :: u32

definition createSurface :: "host \<Rightarrow> u32 \<Rightarrow> u32 \<Rightarrow> u32 \<Rightarrow> u32 \<Rightarrow> u32 \<Rightarrow> accel \<Rightarrow> (ioreturn \<times> accel) option" where
  "createSurface h sid surfaceFlags surfaceFormat w ht =
    issue (\<lambda>d. commit_cmd (BeginDefineSurface h sid surfaceFlags surfaceFormat 1 d)
      (\<lambda>(faces, mipSizes) d. puts mipSizes [(0, w), (1, ht), (2, 1)] (puts faces [(0, 1)] d)))"

definition destroySurface :: "host \<Rightarrow> u32 \<Rightarrow> accel \<Rightarrow> (ioreturn \<times> accel) option" where
  "destroySurface h sid = issue (DestroySurface h sid)"

text \<open>The stores into the copy boxes, \<^verbatim>\<open>{x, y, z, w, h, d, srcx, srcy, srcz}\<close>, and the copy rectangles.\<close>

definition copy_box_stores :: "extra_info \<Rightarrow> nat \<Rightarrow> bounds \<Rightarrow> (nat \<times> u32) list" where
  "copy_box_stores extra i src =
    [(9 * i + 6, int_of (r_x src) + srcDeltaX extra), (9 * i + 7, int_of (r_y src) + srcDeltaY extra),
     (9 * i + 0, int_of (r_x src) + dstDeltaX extra), (9 * i + 1, int_of (r_y src) + dstDeltaY extra),
     (9 * i + 3, int_of (r_w src)), (9 * i + 4, int_of (r_h src)), (9 * i + 5, 1)]"

definition copy_rect_stores :: "extra_info \<Rightarrow> nat \<Rightarrow> bounds \<Rightarrow> (nat \<times> u32) list" where
  "copy_rect_stores extra i src =
    [(6 * i + 4, int_of (r_x src) + srcDeltaX extra), (6 * i + 5, int_of (r_y src) + srcDeltaY extra),
     (6 * i + 0, int_of (r_x src) + dstDeltaX extra), (6 * i + 1, int_of (r_y src) + dstDeltaY extra),
     (6 * i + 2, int_of (r_w src)), (6 * i + 3, int_of (r_h src))]"

definition rect_stores :: "nat \<Rightarrow> bounds \<Rightarrow> (nat \<times> u32) list" where
  "rect_stores i src =
    [(4 * i + 0, int_of (r_x src)), (4 * i + 1, int_of (r_y src)), (4 * i + 2, int_of (r_w src)), (4 * i + 3, int_of (r_h src))]"

fun each_rect :: "(nat \<Rightarrow> bounds \<Rightarrow> (nat \<times> u32) list) \<Rightarrow> nat \<Rightarrow> bounds list \<Rightarrow> (nat \<times> u32) list" where
  "each_rect f i [] = []"
| "each_rect f i (src # srcs) = f i src @ each_rect f (i + 1) srcs"

abbreviation (input) rects_of :: "region option \<Rightarrow> bounds list" where
  "rects_of rgn \<equiv> (case rgn of None \<Rightarrow> [] | Some r \<Rightarrow> rects r)"

text \<open>\<^verbatim>\<open>*fence = m_svga->InsertFence()\<close>, if the caller asks for a fence.\<close>

definition insert_fence_if :: "host \<Rightarrow> bool \<Rightarrow> (bool \<times> svga) option \<Rightarrow> (u32 option \<times> svga) option" where
  "insert_fence_if h want r = do {
     (ok, d) \<leftarrow> r;
     if ok \<and> want then do { (f, d) \<leftarrow> InsertFence h d; Some (Some f, d) } else Some (None, d)
   }"

definition guest_image_of :: "extra_info \<Rightarrow> guest_image" where
  "guest_image_of extra =
    SVGA3dGuestImage (SVGAGuestPtr (mem_gmr_id extra) (ucast (mem_offset_in_gmr extra))) (ucast (mem_pitch extra))"

definition surfaceDMA2D :: "host \<Rightarrow> u32 \<Rightarrow> u32 \<Rightarrow> region option \<Rightarrow> extra_info option \<Rightarrow> bool \<Rightarrow> accel \<Rightarrow>
    ((ioreturn \<times> u32 option) \<times> accel) option" where
  "surfaceDMA2D h sid transfer rgn extra want s =
    (case extra of None \<Rightarrow> Some ((kIOReturnBadArgument, None), s)
     | Some extra \<Rightarrow>
         if \<not> bHaveSVGA3D s then Some ((kIOReturnNoDevice, None), s)
         else do {
           (f, s) \<leftarrow> with_device (\<lambda>d. insert_fence_if h want
             (commit_cmd (BeginSurfaceDMA h (guest_image_of extra) (SVGA3dSurfaceImageId sid 0 0) transfer (num_rects rgn) d)
               (\<lambda>copyBoxes. puts copyBoxes (each_rect (copy_box_stores extra) 0 (rects_of rgn))))) s;
           Some ((kIOReturnSuccess, f), s)
         })"

definition surfaceCopy :: "host \<Rightarrow> u32 \<Rightarrow> u32 \<Rightarrow> region option \<Rightarrow> extra_info option \<Rightarrow> accel \<Rightarrow> (ioreturn \<times> accel) option" where
  "surfaceCopy h src_sid dst_sid rgn extra s =
    (case extra of None \<Rightarrow> Some (kIOReturnBadArgument, s)
     | Some extra \<Rightarrow>
         issue (\<lambda>d. commit_cmd (BeginSurfaceCopy h (SVGA3dSurfaceImageId src_sid 0 0) (SVGA3dSurfaceImageId dst_sid 0 0) (num_rects rgn) d)
           (\<lambda>copyBoxes. puts copyBoxes (each_rect (copy_box_stores extra) 0 (rects_of rgn)))) s)"

definition box_of :: "bounds \<Rightarrow> box3d" where
  "box_of r = SVGA3dBox (int_of (r_x r)) (int_of (r_y r)) 0 (int_of (r_w r)) (int_of (r_h r)) 1"

definition surfaceStretch :: "host \<Rightarrow> u32 \<Rightarrow> u32 \<Rightarrow> u32 \<Rightarrow> bounds \<Rightarrow> bounds \<Rightarrow> accel \<Rightarrow> (ioreturn \<times> accel) option" where
  "surfaceStretch h src_sid dst_sid mode src_rect dest_rect =
    issue (SurfaceStretchBlt h (SVGA3dSurfaceImageId src_sid 0 0) (SVGA3dSurfaceImageId dst_sid 0 0)
      (box_of src_rect) (box_of dest_rect) mode)"

definition surfacePresentAutoSync :: "host \<Rightarrow> u32 \<Rightarrow> region option \<Rightarrow> extra_info option \<Rightarrow> accel \<Rightarrow> (ioreturn \<times> accel) option" where
  "surfacePresentAutoSync h sid rgn extra s =
    (case extra of None \<Rightarrow> Some (kIOReturnBadArgument, s)
     | Some extra \<Rightarrow>
         if \<not> bHaveSVGA3D s then Some (kIOReturnNoDevice, s)
         else do {
           (f, s) \<leftarrow> with_device (\<lambda>d. do {
             d \<leftarrow> SyncToFence h (tracker_before (m_present_tracker s)) d;
             insert_fence_if h True (commit_cmd (BeginPresent h sid (num_rects rgn) d)
               (\<lambda>copyRects. puts copyRects (each_rect (copy_rect_stores extra) 0 (rects_of rgn))))
           }) s;
           Some (kIOReturnSuccess, case f of None \<Rightarrow> s | Some f \<Rightarrow> s\<lparr>m_present_tracker := tracker_after f (m_present_tracker s)\<rparr>)
         })"

definition surfacePresentReadback :: "host \<Rightarrow> region option \<Rightarrow> accel \<Rightarrow> (ioreturn \<times> accel) option" where
  "surfacePresentReadback h rgn =
    issue (\<lambda>d. commit_cmd (BeginPresentReadback h (num_rects rgn) d) (\<lambda>rs. puts rs (each_rect rect_stores 0 (rects_of rgn))))"

definition setRenderTarget :: "host \<Rightarrow> u32 \<Rightarrow> u32 \<Rightarrow> u32 \<Rightarrow> accel \<Rightarrow> (ioreturn \<times> accel) option" where
  "setRenderTarget h cid rtype sid = issue (SetRenderTarget h cid rtype (SVGA3dSurfaceImageId sid 0 0))"

definition clear_targets :: "host \<Rightarrow> u32 \<Rightarrow> u32 \<Rightarrow> region option \<Rightarrow> u32 \<Rightarrow> u32 \<Rightarrow> u32 \<Rightarrow> accel \<Rightarrow> (ioreturn \<times> accel) option" where
  "clear_targets h cid clear_flags rgn color depth stencil =
    issue (\<lambda>d. commit_cmd (BeginClear h cid clear_flags color depth stencil (num_rects rgn) d)
      (\<lambda>rs. puts rs (each_rect rect_stores 0 (rects_of rgn))))"

definition createContext :: "host \<Rightarrow> u32 \<Rightarrow> accel \<Rightarrow> (ioreturn \<times> accel) option" where
  "createContext h cid = issue (DefineContext h cid)"

definition destroyContext :: "host \<Rightarrow> u32 \<Rightarrow> accel \<Rightarrow> (ioreturn \<times> accel) option" where
  "destroyContext h cid = issue (DestroyContext h cid)"

text \<open>Arrays of structures are dwords: 9 a vertex declaration, 7 a range, 3 a texture state, 2 a render state.\<close>

definition drawPrimitives :: "host \<Rightarrow> u32 \<Rightarrow> nat \<Rightarrow> nat \<Rightarrow> u32 list \<Rightarrow> u32 list \<Rightarrow> accel \<Rightarrow> (ioreturn \<times> accel) option" where
  "drawPrimitives h cid numVertexDecls numRanges decls ranges =
    issue (\<lambda>d. commit_cmd (BeginDrawPrimitives h cid numVertexDecls numRanges d)
      (\<lambda>(ds, rs) d. put_dwords rs 0 (take (7 * numRanges) ranges) (put_dwords ds 0 (take (9 * numVertexDecls) decls) d)))"

definition setTextureState :: "host \<Rightarrow> u32 \<Rightarrow> nat \<Rightarrow> u32 list \<Rightarrow> accel \<Rightarrow> (ioreturn \<times> accel) option" where
  "setTextureState h cid numStates states =
    issue (\<lambda>d. commit_cmd (BeginSetTextureState h cid numStates d) (\<lambda>st. put_dwords st 0 (take (3 * numStates) states)))"

definition setRenderState :: "host \<Rightarrow> u32 \<Rightarrow> nat \<Rightarrow> u32 list \<Rightarrow> accel \<Rightarrow> (ioreturn \<times> accel) option" where
  "setRenderState h cid numStates states =
    issue (\<lambda>d. commit_cmd (BeginSetRenderState h cid numStates d) (\<lambda>st. put_dwords st 0 (take (2 * numStates) states)))"

record extra_info_ex =
  ex_offset_in_gmr :: u64
  ex_pitch :: u64
  ex_limit :: u64
  ex_gmr_id :: u32
  ex_suffix_flags :: u32

definition surfaceDMA3DEx :: "host \<Rightarrow> image_id \<Rightarrow> u32 \<Rightarrow> u32 list option \<Rightarrow> extra_info_ex option \<Rightarrow> bool \<Rightarrow> accel \<Rightarrow>
    ((ioreturn \<times> u32 option) \<times> accel) option" where
  "surfaceDMA3DEx h hostImage transfer copyBox extra want s =
    (case (extra, copyBox) of (Some extra, Some copyBox) \<Rightarrow>
         if \<not> bHaveSVGA3D s then Some ((kIOReturnNoDevice, None), s)
         else do {
           (f, s) \<leftarrow> with_device (\<lambda>d. insert_fence_if h want
             (commit_cmd (BeginSurfaceDMAwithSuffix h
                 (SVGA3dGuestImage (SVGAGuestPtr (ex_gmr_id extra) (ucast (ex_offset_in_gmr extra))) (ucast (ex_pitch extra)))
                 hostImage transfer 1 (ucast (ex_limit extra)) (ex_suffix_flags extra) d)
               (\<lambda>copyBoxes. put_dwords copyBoxes 0 (take 9 copyBox)))) s;
           Some ((kIOReturnSuccess, f), s)
         }
     | _ \<Rightarrow> Some ((kIOReturnBadArgument, None), s))"

section \<open>Screens\<close>

text \<open>\<^verbatim>\<open>SVGAScreenObject\<close>: size, identifier, flags, width, height, root, backing store and clone count.\<close>

definition createPrimaryScreen :: "host \<Rightarrow> u32 \<Rightarrow> u32 \<Rightarrow> accel \<Rightarrow> (ioreturn \<times> accel) option" where
  "createPrimaryScreen h w ht s =
    (if \<not> bHaveScreenObject s then Some (kIOReturnNoDevice, s)
     else if w = fst (m_primary_screen s) \<and> ht = snd (m_primary_screen s) then Some (kIOReturnSuccess, s)
     else do {
       (_, s) \<leftarrow> with_device (DefineScreen h [44, 0, 3, w, ht, 0, 0, GMR_VRAM, 0, (w * 4 + 7) AND - 8, 0]) s;
       Some (kIOReturnSuccess, s\<lparr>m_primary_screen := (w, ht)\<rparr>)
     })"

text \<open>The calls of a loop whose outcomes are ignored.\<close>

fun issue_each :: "('a \<Rightarrow> svga \<Rightarrow> (bool \<times> svga) option) \<Rightarrow> 'a list \<Rightarrow> svga \<Rightarrow> svga option" where
  "issue_each f [] d = Some d"
| "issue_each f (x # xs) d = do { (_, d) \<leftarrow> f x d; issue_each f xs d }"

definition guest_ptr_of :: "extra_info \<Rightarrow> guest_ptr" where
  "guest_ptr_of extra = SVGAGuestPtr (mem_gmr_id extra) (ucast (mem_offset_in_gmr extra))"

definition shifted_point :: "bounds \<Rightarrow> u32 \<times> u32 \<Rightarrow> signed_point" where
  "shifted_point src delta = SVGASignedPoint (int_of (r_x src) + fst delta) (int_of (r_y src) + snd delta)"

definition fence_if :: "host \<Rightarrow> bool \<Rightarrow> svga \<Rightarrow> (u32 option \<times> svga) option" where
  "fence_if h want d = (if want then do { (f, d) \<leftarrow> InsertFence h d; Some (Some f, d) } else Some (None, d))"

definition blitFromScreen :: "host \<Rightarrow> u32 \<Rightarrow> region option \<Rightarrow> extra_info option \<Rightarrow> bool \<Rightarrow> accel \<Rightarrow>
    ((ioreturn \<times> u32 option) \<times> accel) option" where
  "blitFromScreen h srcScreenId rgn extra want s =
    (case extra of None \<Rightarrow> Some ((kIOReturnBadArgument, None), s)
     | Some extra \<Rightarrow>
         if \<not> bHaveScreenObject s then Some ((kIOReturnNoDevice, None), s)
         else do {
           (f, s) \<leftarrow> with_device (\<lambda>d. do {
             (_, d) \<leftarrow> DefineGMRFB h (guest_ptr_of extra) (ucast (mem_pitch extra)) 0x1820 d;
             d \<leftarrow> issue_each (\<lambda>src. BlitToGMRFB h (shifted_point src (dstDeltaX extra, dstDeltaY extra))
               (convert_rect src (srcDeltaX extra, srcDeltaY extra)) srcScreenId) (rects_of rgn) d;
             fence_if h want d
           }) s;
           Some ((kIOReturnSuccess, f), s)
         })"

definition blitToScreen :: "host \<Rightarrow> u32 \<Rightarrow> region option \<Rightarrow> extra_info option \<Rightarrow> bool \<Rightarrow> accel \<Rightarrow>
    ((ioreturn \<times> u32 option) \<times> accel) option" where
  "blitToScreen h destScreenId rgn extra want s =
    (case extra of None \<Rightarrow> Some ((kIOReturnBadArgument, None), s)
     | Some extra \<Rightarrow>
         if \<not> bHaveScreenObject s then Some ((kIOReturnNoDevice, None), s)
         else do {
           (f, s) \<leftarrow> with_device (\<lambda>d. do {
             (_, d) \<leftarrow> DefineGMRFB h (guest_ptr_of extra) (ucast (mem_pitch extra)) 0x1820 d;
             d \<leftarrow> issue_each (\<lambda>src. BlitFromGMRFB h (shifted_point src (srcDeltaX extra, srcDeltaY extra))
               (convert_rect src (dstDeltaX extra, dstDeltaY extra)) destScreenId) (rects_of rgn) d;
             (f, d) \<leftarrow> fence_if h want d;
             Some (f, RingDoorBell h d)
           }) s;
           Some ((kIOReturnSuccess, f), s)
         })"

fun signed_rect_left_top :: "signed_rect \<Rightarrow> u32 \<times> u32" where
  "signed_rect_left_top (SVGASignedRect l t r b) = (l, t)"

definition clip_stores :: "u32 \<times> u32 \<Rightarrow> nat \<Rightarrow> bounds \<Rightarrow> (nat \<times> u32) list" where
  "clip_stores shift i src = field (4 * i) (signed_rect_dwords (convert_rect src shift))"

text \<open>The region is dereferenced unchecked: without one the call faults.\<close>

definition blitSurfaceToScreen :: "host \<Rightarrow> u32 \<Rightarrow> u32 \<Rightarrow> bounds \<Rightarrow> region option \<Rightarrow> accel \<Rightarrow> (ioreturn \<times> accel) option" where
  "blitSurfaceToScreen h src_sid destScreenId src_rect dest_region s =
    (if \<not> bHaveScreenObject s then Some (kIOReturnNoDevice, s)
     else case dest_region of None \<Rightarrow> None
     | Some rgn \<Rightarrow>
         let destRect = convert_rect (bounding rgn) (0, 0);
             shift = (- fst (signed_rect_left_top destRect), - snd (signed_rect_left_top destRect))
         in do {
           (_, s) \<leftarrow> with_device (\<lambda>d. do {
             (ok, d) \<leftarrow> commit_cmd (BeginBlitSurfaceToScreen h (SVGA3dSurfaceImageId src_sid 0 0) (convert_rect src_rect (0, 0))
                 destScreenId destRect (length (rects rgn)) d)
               (\<lambda>clipRects. puts clipRects (each_rect (clip_stores shift) 0 (rects rgn)));
             Some ((), if ok then RingDoorBell h d else d)
           }) s;
           Some (kIOReturnSuccess, s)
         })"

definition isPrimaryScreenActive :: "accel \<Rightarrow> bool" where
  "isPrimaryScreenActive s \<longleftrightarrow> bHaveScreenObject s \<and> 0 <s fst (m_primary_screen s) \<and> 0 <s snd (m_primary_screen s)"

section \<open>The master surface\<close>

definition createMasterSurface :: "host \<Rightarrow> u32 \<Rightarrow> u32 \<Rightarrow> accel \<Rightarrow> (bool \<times> accel) option" where
  "createMasterSurface h w ht s =
    (let (sid, i) = AllocSurfaceID (accel_ids s);
         s = s\<lparr>accel_ids := i, m_master_surface_id := sid\<rparr>
     in do {
       (rc, s) \<leftarrow> createSurface h sid 0 1 w ht s;
       Some (rc = kIOReturnSuccess,
         if rc \<noteq> kIOReturnSuccess
         then s\<lparr>accel_ids := FreeSurfaceID (m_master_surface_id s) (accel_ids s), m_master_surface_id := SVGA_ID_INVALID\<rparr> else s)
     })"

definition destroyMasterSurface :: "host \<Rightarrow> accel \<Rightarrow> accel option" where
  "destroyMasterSurface h s =
    (if m_master_surface_id s <s 0 then Some s
     else do {
       (_, s) \<leftarrow> destroySurface h (m_master_surface_id s) s;
       Some (s\<lparr>accel_ids := FreeSurfaceID (m_master_surface_id s) (accel_ids s), m_master_surface_id := SVGA_ID_INVALID\<rparr>)
     })"

definition retainMasterSurface :: "host \<Rightarrow> accel \<Rightarrow> (bool \<times> accel) option" where
  "retainMasterSurface h s =
    (if \<not> bHaveSVGA3D s then Some (False, s)
     else let v = m_master_surface_retain_count s; s = s\<lparr>m_master_surface_retain_count := v + 1\<rparr>
     in if v = 0 then
          case m_framebuffer s of None \<Rightarrow> None
          | Some b \<Rightarrow> do {
              (rc, s) \<leftarrow> createMasterSurface h (m_width (dev b)) (m_height (dev b)) s;
              Some (rc, if \<not> rc then s\<lparr>m_master_surface_retain_count := 0\<rparr> else s)
            }
        else Some (True, s))"

definition releaseMasterSurface :: "host \<Rightarrow> accel \<Rightarrow> accel option" where
  "releaseMasterSurface h s =
    (if \<not> bHaveSVGA3D s then Some s
     else let v = m_master_surface_retain_count s; s = s\<lparr>m_master_surface_retain_count := v - 1\<rparr>
     in if v \<le>s 0 then Some (s\<lparr>m_master_surface_retain_count := 0\<rparr>)
        else if v = 1 then destroyMasterSurface h s else Some s)"

section \<open>Queries\<close>

record screen_info =
  info_x :: u32
  info_y :: u32
  info_w :: u32
  info_h :: u32
  client_addr :: nat
  client_row_bytes :: u32

text \<open>The surfaces ask once \<open>setupAllocator\<close> has mapped the memory; 0 stands for a missing mapping's address.\<close>

definition getScreenInfo :: "bool \<Rightarrow> accel \<Rightarrow> ioreturn \<times> screen_info option" where
  "getScreenInfo has_info s =
    (if \<not> has_info then (kIOReturnBadArgument, None)
     else case m_framebuffer s of None \<Rightarrow> (kIOReturnNoDevice, None)
     | Some b \<Rightarrow> (kIOReturnSuccess, Some \<lparr>info_x = m_fb_offset (dev b), info_y = m_fb_size (dev b), info_w = m_width (dev b),
         info_h = m_height (dev b), client_addr = (case kernel_map (accel_vram s) of None \<Rightarrow> 0 | Some a \<Rightarrow> a),
         client_row_bytes = m_pitch (dev b)\<rparr>))"

text \<open>\<open>map_length\<close>: the length of the kernel mapping.\<close>

definition getVRAMSize :: "u32 \<Rightarrow> accel \<Rightarrow> u32" where
  "getVRAMSize map_length s =
    (case m_framebuffer s of Some b \<Rightarrow> m_vram_size (dev b)
     | None \<Rightarrow> if kernel_map (accel_vram s) \<noteq> None then map_length else 134217728)"

definition offsetInVRAM :: "u64 \<Rightarrow> accel \<Rightarrow> u64" where
  "offsetInVRAM vram_ptr s = (case kernel_map (accel_vram s) of None \<Rightarrow> 0 | Some a \<Rightarrow> vram_ptr - of_nat a)"

text \<open>The clients answer in turn; the last whose identifier matches is found.\<close>

definition findSurfaceForID :: "u32 \<Rightarrow> (u32 option \<times> 'c) list \<Rightarrow> 'c option" where
  "findSurfaceForID surface_id clients =
    fold (\<lambda>(wid, c) found. if wid = Some surface_id then Some c else found) clients None"

section \<open>Video\<close>

definition accel_VideoSetRegsInRange :: "host \<Rightarrow> u32 \<Rightarrow> (nat \<Rightarrow> u32) option \<Rightarrow> u32 \<Rightarrow> u32 \<Rightarrow> bool \<Rightarrow> accel \<Rightarrow>
    ((ioreturn \<times> u32 option) \<times> accel) option" where
  "accel_VideoSetRegsInRange h streamId regs regMin regMax want s =
    (if m_framebuffer s = None then Some ((kIOReturnNoDevice, None), s)
     else do {
       (f, s) \<leftarrow> with_device (\<lambda>d. do {
         d \<leftarrow> (case regs of None \<Rightarrow> Some d | Some r \<Rightarrow> map_option snd (VideoSetRegsInRange h streamId r regMin regMax d));
         (_, d) \<leftarrow> VideoFlush h streamId d;
         (f, d) \<leftarrow> fence_if h want d;
         Some (f, RingDoorBell h d)
       }) s;
       Some ((kIOReturnSuccess, f), s)
     })"

definition accel_VideoSetReg :: "host \<Rightarrow> u32 \<Rightarrow> u32 \<Rightarrow> u32 \<Rightarrow> bool \<Rightarrow> accel \<Rightarrow> ((ioreturn \<times> u32 option) \<times> accel) option" where
  "accel_VideoSetReg h streamId registerId value want s =
    (if m_framebuffer s = None then Some ((kIOReturnNoDevice, None), s)
     else do {
       (f, s) \<leftarrow> with_device (\<lambda>d. do {
         (_, d) \<leftarrow> VideoSetReg h streamId registerId value d;
         (_, d) \<leftarrow> VideoFlush h streamId d;
         (f, d) \<leftarrow> fence_if h want d;
         Some (f, RingDoorBell h d)
       }) s;
       Some ((kIOReturnSuccess, f), s)
     })"

section \<open>User clients\<close>

datatype client_kind = Surface_client | GL_context | Context_2d | DVD_context | Device_client | OCD_context

text \<open>
  \<open>allocator_ready\<close> is the call of \<open>setupAllocator\<close>; \<open>created\<close>, \<open>attached\<close> and \<open>started\<close> say whether the
  client's constructor, \<^verbatim>\<open>attach\<close> and \<^verbatim>\<open>start\<close> succeed.  The 64-bit build is for OS 10.6 or later.
\<close>

definition client_kind_of :: "(vram \<Rightarrow> (ioreturn \<times> vram) option) \<Rightarrow> nat \<Rightarrow> nat \<Rightarrow> accel \<Rightarrow>
    ((ioreturn + client_kind) \<times> accel) option" where
  "client_kind_of allocator_ready owningTask type s =
    (if type = 0 then
       if \<not> checkOptionAC VMW_OPTION_AC_SURFACE_CONNECT s then Some (Inl kIOReturnUnsupported, s)
       else if m_updating_ga s \<noteq> 0 \<and> m_updating_ga s \<noteq> owningTask then Some (Inl kIOReturnNotPrivileged, s)
       else do {
         (rc, v) \<leftarrow> allocator_ready (accel_vram s);
         let s = s\<lparr>accel_vram := v\<rparr>;
         Some (if rc \<noteq> kIOReturnSuccess then Inl kIOReturnNoMemory else Inr Surface_client, s)
       }
     else Some (
       if type = 1 then if \<not> checkOptionAC VMW_OPTION_AC_GL_CONTEXT s then Inl kIOReturnUnsupported else Inr GL_context
       else if type = 2 then if \<not> checkOptionAC VMW_OPTION_AC_2D_CONTEXT s then Inl kIOReturnUnsupported else Inr Context_2d
       else if type = 3 then if \<not> checkOptionAC VMW_OPTION_AC_DVD_CONTEXT s then Inl kIOReturnUnsupported else Inr DVD_context
       else if type = 4 then if \<not> checkOptionAC VMW_OPTION_AC_GL_CONTEXT s then Inl kIOReturnUnsupported else Inr Device_client
       else if type = 5 then if \<not> checkOptionAC VMW_OPTION_AC_GL_CONTEXT s then Inl kIOReturnUnsupported else Inr OCD_context
       else Inl kIOReturnUnsupported, s))"

definition newUserClient :: "(vram \<Rightarrow> (ioreturn \<times> vram) option) \<Rightarrow> bool \<Rightarrow> bool \<Rightarrow> bool \<Rightarrow> nat \<Rightarrow> nat \<Rightarrow> bool \<Rightarrow> accel \<Rightarrow>
    ((ioreturn \<times> client_kind option) \<times> accel) option" where
  "newUserClient allocator_ready created attached started owningTask type has_handler s =
    (if \<not> has_handler then Some ((kIOReturnBadArgument, None), s)
     else if m_framebuffer s = None then Some ((kIOReturnNoDevice, None), s)
     else do {
       (k, s) \<leftarrow> client_kind_of allocator_ready owningTask type s;
       Some (case k of Inl r \<Rightarrow> (r, None)
         | Inr kind \<Rightarrow>
             if \<not> created then (kIOReturnNoResources, None)
             else if \<not> attached then (kIOReturnInternalError, None)
             else if \<not> started then (kIOReturnInternalError, None)
             else (kIOReturnSuccess, Some kind), s)
     })"

section \<open>Blits by the CPU\<close>

text \<open>
  Kernel memory is a map from addresses to bytes.  Addresses are \<^verbatim>\<open>IOVirtualAddress\<close>, 64 bits, and the
  sums below wrap as in the source: \<open>int\<close> coordinates are converted to \<^verbatim>\<open>unsigned\<close> by the product with the
  32-bit pitch, and the column offset is an \<open>int\<close>.
\<close>

record blit_image =
  image_pitch :: u32
  image_limit :: u32

definition blit_addr :: "u64 \<Rightarrow> blit_image \<Rightarrow> u32 \<times> u32 \<Rightarrow> u32 \<Rightarrow> bounds \<Rightarrow> u64" where
  "blit_addr base img delta bytes_per_pixel rect =
    base + ucast ((int_of (r_y rect) + snd delta) * image_pitch img) +
      scast ((int_of (r_x rect) + fst delta) * bytes_per_pixel)"

text \<open>\<^verbatim>\<open>memcpy\<close> of \<open>l\<close> bytes that do not overlap.\<close>

definition memcpy :: "u64 \<Rightarrow> u64 \<Rightarrow> nat \<Rightarrow> (u64 \<Rightarrow> u8) \<Rightarrow> (u64 \<Rightarrow> u8)" where
  "memcpy dst src l m = (\<lambda>a. if unat (a - dst) < l then m (src + (a - dst)) else m a)"

text \<open>The rows of one rectangle, \<open>n\<close> left; a row out of bounds is skipped without moving on.\<close>

fun blit_rows :: "u64 \<times> u64 \<Rightarrow> u64 \<times> u64 \<Rightarrow> u32 \<times> u32 \<Rightarrow> nat \<Rightarrow> nat \<Rightarrow> u64 \<Rightarrow> u64 \<Rightarrow> (u64 \<Rightarrow> u8) \<Rightarrow> (u64 \<Rightarrow> u8)" where
  "blit_rows dst src pitches l 0 addr1 addr2 m = m"
| "blit_rows dst src pitches l (Suc n) addr1 addr2 m =
    (if addr1 < fst dst \<or> addr1 + of_nat l > snd dst \<or> addr2 < fst src \<or> addr2 + of_nat l > snd src
     then blit_rows dst src pitches l n addr1 addr2 m
     else blit_rows dst src pitches l n (addr1 + ucast (fst pitches)) (addr2 + ucast (snd pitches)) (memcpy addr1 addr2 l m))"

definition blit_rect :: "u64 \<Rightarrow> blit_image \<Rightarrow> u32 \<times> u32 \<Rightarrow> u64 \<Rightarrow> blit_image \<Rightarrow> u32 \<times> u32 \<Rightarrow> u8 \<Rightarrow> bounds \<Rightarrow> (u64 \<Rightarrow> u8) \<Rightarrow> (u64 \<Rightarrow> u8)" where
  "blit_rect dst_base dst_image dst_delta src_base src_image src_delta bytes_per_pixel rect m =
    (if r_w rect \<le>s 0 \<or> r_h rect \<le>s 0 then m
     else blit_rows (dst_base, dst_base + ucast (image_limit dst_image)) (src_base, src_base + ucast (image_limit src_image))
       (image_pitch dst_image, image_pitch src_image) (unat (r_w rect) * unat bytes_per_pixel) (unat (r_h rect))
       (blit_addr dst_base dst_image dst_delta (ucast bytes_per_pixel) rect)
       (blit_addr src_base src_image src_delta (ucast bytes_per_pixel) rect) m)"

definition genericBlitCopy :: "u64 \<Rightarrow> blit_image option \<Rightarrow> (u32 \<times> u32) option \<Rightarrow> u64 \<Rightarrow> blit_image option \<Rightarrow> (u32 \<times> u32) option \<Rightarrow>
    region option \<Rightarrow> u8 \<Rightarrow> (u64 \<Rightarrow> u8) \<Rightarrow> ioreturn \<times> (u64 \<Rightarrow> u8)" where
  "genericBlitCopy dst_base dst_image dst_delta src_base src_image src_delta rgn bytes_per_pixel m =
    (case (dst_image, dst_delta, src_image, src_delta) of
       (Some di, Some dd, Some si, Some sd) \<Rightarrow>
         if dst_base = 0 \<or> src_base = 0 then (kIOReturnBadArgument, m)
         else (kIOReturnSuccess, fold (blit_rect dst_base di dd src_base si sd bytes_per_pixel) (rects_of rgn) m)
     | _ \<Rightarrow> (kIOReturnBadArgument, m))"

definition blitGFB :: "region option \<Rightarrow> extra_info option \<Rightarrow> u64 \<Rightarrow> u64 \<Rightarrow> bool \<Rightarrow> accel \<Rightarrow> (u64 \<Rightarrow> u8) \<Rightarrow> ioreturn \<times> (u64 \<Rightarrow> u8)" where
  "blitGFB rgn extra gmrPtr limitFromGmrPtr direction s m =
    (case (extra, m_framebuffer s, kernel_map (accel_vram s)) of
       (None, _) \<Rightarrow> (kIOReturnBadArgument, m)
     | (Some extra, Some b, Some base) \<Rightarrow>
         let gfb_base = of_nat base
         in if gmrPtr = 0 \<and> mem_gmr_id extra \<noteq> GMR_VRAM then (kIOReturnBadArgument, m)
         else let gmrPtr = (if gmrPtr = 0 then gfb_base else gmrPtr);
              gfb_base = gfb_base + ucast (m_fb_offset (dev b));
              gfb_image = \<lparr>image_pitch = m_pitch (dev b), image_limit = m_fb_size (dev b)\<rparr>;
              gmr_base = gmrPtr + mem_offset_in_gmr extra;
              gmr_image = \<lparr>image_pitch = ucast (mem_pitch extra), image_limit = ucast (limitFromGmrPtr - mem_offset_in_gmr extra)\<rparr>;
              gmr_delta = (dstDeltaX extra, dstDeltaY extra);
              gfb_delta = (srcDeltaX extra, srcDeltaY extra)
         in if direction
            then genericBlitCopy gfb_base (Some gfb_image) (Some gfb_delta) gmr_base (Some gmr_image) (Some gmr_delta) rgn 4 m
            else genericBlitCopy gmr_base (Some gmr_image) (Some gmr_delta) gfb_base (Some gfb_image) (Some gfb_delta) rgn 4 m
     | _ \<Rightarrow> (kIOReturnNotReady, m))"

end
