(* ===== verification/AcceleratorProofs.thy ===== *)
theory AcceleratorProofs
  imports Accelerator
begin

text \<open>
  What the accelerator of \<open>Accelerator\<close> does with the device: every request of the 2D and 3D clients puts its
  documented commands into the queue, the master surface is shared by reference count, the CPU blits stay
  inside their buffers and equal a copy pixel by pixel.
\<close>

section \<open>Stores rectangle by rectangle\<close>

text \<open>
  The stores of one item, relative to the item: \<open>st src\<close>, below \<open>m\<close>.  On an item that satisfies \<open>Q\<close>
  beforehand they leave \<open>body src\<close>.
\<close>

definition item_stores :: "nat \<Rightarrow> (nat \<Rightarrow> bounds \<Rightarrow> (nat \<times> u32) list) \<Rightarrow> (u32 \<Rightarrow> bool) \<Rightarrow> (bounds \<Rightarrow> u32 list) \<Rightarrow> bool" where
  "item_stores m f Q body \<longleftrightarrow> (\<exists>st. (\<forall>i src. f i src = map (\<lambda>(j, v). (m * i + j, v)) (st src)) \<and>
     (\<forall>src. \<forall>(j, v) \<in> set (st src). j < m) \<and>
     (\<forall>src x. length x = m \<longrightarrow> (\<forall>v \<in> set x. Q v) \<longrightarrow> fold (\<lambda>(i, v) c. c[i := v]) (st src) x = body src) \<and>
     (\<forall>src. length (body src) = m))"

lemma fold_each_rect:
  assumes "item_stores m f Q body" and "length c = m * length srcs" and "\<forall>v \<in> set c. Q v" and "length pre = m * i"
  shows "fold (\<lambda>(i, v) c. c[i := v]) (each_rect f i srcs) (pre @ c) = pre @ concat (map body srcs)"
  using assms(2-4)
proof (induction srcs arbitrary: i c pre)
  case Nil
  then show ?case by simp
next
  case (Cons src srcs)
  obtain st where st: "\<And>i src. f i src = map (\<lambda>(j, v). (m * i + j, v)) (st src)"
      "\<And>src. \<forall>(j, v) \<in> set (st src). j < m"
      "\<And>src x. length x = m \<Longrightarrow> \<forall>v \<in> set x. Q v \<Longrightarrow> fold (\<lambda>(i, v) c. c[i := v]) (st src) x = body src"
      "\<And>src. length (body src) = m"
    using assms(1) unfolding item_stores_def by blast
  let ?x = "take m c" and ?r = "drop m c"
  have c: "c = ?x @ ?r" "length ?x = m" "length ?r = m * length srcs" using Cons.prems(1) by simp_all
  have Q: "\<forall>v \<in> set ?x. Q v" "\<forall>v \<in> set ?r. Q v" using Cons.prems(2) by (meson in_set_takeD in_set_dropD)+
  have "fold (\<lambda>(i, v) c. c[i := v]) (f i src) (pre @ c) = fold (\<lambda>(i, v) c. c[i := v]) (f i src) ((pre @ ?x) @ ?r)"
    by simp
  also have "\<dots> = fold (\<lambda>(i, v) c. c[i := v]) (f i src) (pre @ ?x) @ ?r"
  proof -
    have "\<forall>(j, v) \<in> set (f i src). j < m * i + m" using st(2) [of src] unfolding st(1) by auto
    from fold_update_prefix [OF this, of "(pre @ ?x) @ ?r"] show ?thesis
      using Cons.prems(3) c(2) by simp
  qed
  also have "fold (\<lambda>(i, v) c. c[i := v]) (f i src) (pre @ ?x) = pre @ body src"
    unfolding st(1) using fold_update_shift [OF st(2), of "pre @ ?x" "m * i" src] st(3) [OF c(2) Q(1)] Cons.prems(3) c(2) by simp
  finally have step: "fold (\<lambda>(i, v) c. c[i := v]) (f i src) (pre @ c) = (pre @ body src) @ ?r" .
  have "length (pre @ body src) = m * (i + 1)" using Cons.prems(3) st(4) by simp
  from Cons.IH [OF c(3) Q(2) this] step show ?case by simp
qed

lemma each_rect_bounds:
  assumes "item_stores m f Q body" and "(j, v) \<in> set (each_rect f i srcs)"
  shows "j < m * (i + length srcs)"
  using assms(2)
proof (induction srcs arbitrary: i)
  case (Cons src srcs)
  show ?case
  proof (cases "(j, v) \<in> set (f i src)")
    case True
    then have "j < m * i + m" using assms(1) unfolding item_stores_def by fastforce
    also have "m * i + m \<le> m * (i + length (src # srcs))" by (simp add: algebra_simps)
    finally show ?thesis .
  next
    case False
    then show ?thesis using Cons.IH [of "i + 1"] Cons.prems by (simp add: algebra_simps)
  qed
qed simp

lemma item_stores_clear: "item_stores m f (\<lambda>_. True) body \<Longrightarrow> item_stores m f Q body"
  unfolding item_stores_def by blast

text \<open>A variable part that the loop fills, with or without the \<^verbatim>\<open>bzero\<close> before it.\<close>

lemma writes_each_rect:
  assumes "item_stores m f (\<lambda>_. True) body"
  shows "writes (\<lambda>p. puts p (each_rect f 0 srcs)) (m * length srcs) (concat (map body srcs))"
proof (rule writes_fields)
  show "\<forall>(i, v) \<in> set (each_rect f 0 srcs). i < m * length srcs" using each_rect_bounds [OF assms] by fastforce
  show "fold (\<lambda>(i, v) c. c[i := v]) (each_rect f 0 srcs) c = concat (map body srcs)" if "length c = m * length srcs" for c
    using fold_each_rect [OF assms that, of "[]" 0] by simp
qed


text \<open>The items.\<close>

definition copy_box_dwords :: "extra_info \<Rightarrow> bounds \<Rightarrow> u32 list" where
  "copy_box_dwords extra src =
    [int_of (r_x src) + dstDeltaX extra, int_of (r_y src) + dstDeltaY extra, 0, int_of (r_w src), int_of (r_h src), 1,
     int_of (r_x src) + srcDeltaX extra, int_of (r_y src) + srcDeltaY extra, 0]"

definition copy_rect_dwords :: "extra_info \<Rightarrow> bounds \<Rightarrow> u32 list" where
  "copy_rect_dwords extra src =
    [int_of (r_x src) + dstDeltaX extra, int_of (r_y src) + dstDeltaY extra, int_of (r_w src), int_of (r_h src),
     int_of (r_x src) + srcDeltaX extra, int_of (r_y src) + srcDeltaY extra]"

definition bounds_dwords :: "bounds \<Rightarrow> u32 list" where
  "bounds_dwords src = [int_of (r_x src), int_of (r_y src), int_of (r_w src), int_of (r_h src)]"

lemma list_of_9: "length x = 9 \<Longrightarrow> x = [x ! 0, x ! 1, x ! 2, x ! 3, x ! 4, x ! 5, x ! 6, x ! 7, x ! 8]"
  by (auto simp: list_eq_iff_nth_eq less_Suc_eq numeral_eq_Suc)


lemma copy_rect_item: "item_stores 6 (copy_rect_stores extra) (\<lambda>_. True) (copy_rect_dwords extra)"
  unfolding item_stores_def
proof (rule exI [where x = "\<lambda>src. copy_rect_stores extra 0 src"], intro conjI allI impI)
  fix src and x :: "u32 list" assume "length x = 6"
  then obtain a b c d e f where "x = [a, b, c, d, e, f]" by (auto simp: numeral_eq_Suc length_Suc_conv)
  then show "fold (\<lambda>(i, v) c. c[i := v]) (copy_rect_stores extra 0 src) x = copy_rect_dwords extra src"
    by (simp add: copy_rect_stores_def copy_rect_dwords_def numeral_eq_Suc)
qed (auto simp: copy_rect_stores_def copy_rect_dwords_def)


lemma convert_rect_dwords:
  "signed_rect_dwords (convert_rect src shift) =
    [int_of (r_x src) + fst shift, int_of (r_y src) + snd shift, int_of (r_x src) + fst shift + int_of (r_w src),
     int_of (r_y src) + snd shift + int_of (r_h src)]"
  by (simp add: convert_rect_def Let_def)


section \<open>Every request puts its commands into the queue\<close>

text \<open>A command with an optional variable part, filled by whatever stores leave it as it should be.\<close>

lemma begin_fill_emits:
  assumes "host_serving h" and "fifo_ready d" and "fifo_fits d (2 + k + n)"
    and "field_seq 0 hs" and "length hs = k" and "writes fill n body" and "sz = 4 * (k + n)"
  shows "emits d (commit_cmd (begin_cmd (SVGA3D_FIFOReserve h cmd sz d) (\<lambda>cmd. puts cmd hs) (\<lambda>cmd. ptr_add cmd k)) fill)
    (cmd # of_nat (4 * (k + n)) # map snd hs @ body)"
  using SVGA3D_begin_emits [OF assms(1-5) _ assms(6,7), of "[]"] assms(7) by simp



lemma fits_size:
  assumes "fifo_fits d (2 + k + per * n)" and "K = 4 * k" and "P = 4 * per"
  shows "size_add K (size_mult P n) = 4 * (k + per * n)"
proof -
  have "size_add K (size_mult P n) = K + P * n"
    using assms by (intro size_small) (simp add: fifo_fits_def)
  then show ?thesis by (simp add: assms algebra_simps)
qed

lemma items_emits:
  assumes "host_serving h" and "fifo_ready d" and "fifo_fits d (2 + k + m * length rs)"
    and "field_seq 0 hs" and "length hs = k" and "item_stores m f (\<lambda>_. True) body" and "K = 4 * k" and "P = 4 * m"
  shows "emits d (commit_cmd (begin_cmd (SVGA3D_FIFOReserve h cmd (size_add K (size_mult P (length rs))) d)
      (\<lambda>cmd. puts cmd hs) (\<lambda>cmd. ptr_add cmd k)) (\<lambda>p. puts p (each_rect f 0 rs)))
    (cmd # of_nat (4 * (k + m * length rs)) # map snd hs @ concat (map body rs))"
  by (rule begin_fill_emits [OF assms(1-5) writes_each_rect [OF assms(6)] fits_size [OF assms(3,7,8)]])




lemma emits_Present:
  assumes "host_serving h" and "fifo_ready d" and "fifo_fits d (3 + 6 * length rs)"
  shows "emits d (commit_cmd (BeginPresent h sid (length rs) d) (\<lambda>p. puts p (each_rect (copy_rect_stores extra) 0 rs)))
    (encode (Cmd_begin (Present sid (length rs) (concat (map (copy_rect_dwords extra) rs)))))"
  using items_emits [OF assms(1,2) _ _ _ copy_rect_item, where k = 1 and K = 4 and P = 24 and rs = rs and hs = "field 0 [sid]"] assms(3)
  by (simp add: BeginPresent_def)




text \<open>A surface of one level: the caller's stores and the \<^verbatim>\<open>bzero\<close>s of \<open>BeginDefineSurface\<close> together.\<close>

lemma emits_Define:
  assumes "host_serving h" and "fifo_ready d" and "fifo_fits d 14"
  shows "emits d (commit_cmd (BeginDefineSurface h sid fl fmt 1 d)
      (\<lambda>(faces, mipSizes) d. puts mipSizes [(0, w), (1, ht), (2, 1)] (puts faces [(0, 1)] d)))
    (encode (Cmd_begin (Define_surface sid fl fmt [1, 0, 0, 0, 0, 0] 1 [w, ht, 1])))"
proof -
  let ?ws = "field 0 [sid] @ field 1 [fl] @ field 2 [fmt] @ zeros 3 6 @ zeros 9 3 @ [(3, 1)] @ [(9, w), (10, ht), (11, 1)]"
  have "writes (\<lambda>p. puts p ?ws) 12 [sid, fl, fmt, 1, 0, 0, 0, 0, 0, w, ht, 1]"
  proof (rule writes_fields)
    show "\<forall>(i, v) \<in> set ?ws. i < 12" by (auto simp: zeros_def field_def numeral_eq_Suc upt_conv_Cons)
    fix c :: "u32 list" assume "length c = 12"
    then obtain c0 c1 c2 c3 c4 c5 c6 c7 c8 c9 c10 c11 where "c = [c0, c1, c2, c3, c4, c5, c6, c7, c8, c9, c10, c11]"
      by (auto simp: numeral_eq_Suc length_Suc_conv)
    then show "fold (\<lambda>(i, v) c. c[i := v]) ?ws c = [sid, fl, fmt, 1, 0, 0, 0, 0, 0, w, ht, 1]"
      by (simp add: zeros_def field_def numeral_eq_Suc upt_conv_Cons)
  qed
  note SVGA3D_emits [OF assms(1,2) _ this, of 48 1040]
  moreover have "(\<lambda>p. puts p ?ws) = (\<lambda>p d. puts p [(9, w), (10, ht), (11, 1)] (puts p [(3, 1)] (puts p (zeros 9 3) (puts p (zeros 3 6)
      (puts p (field 2 [fmt]) (puts p (field 1 [fl]) (puts p (field 0 [sid]) d)))))))"
    by (simp only: fun_eq_iff puts_append simp_thms)
  moreover have "size_add 36 (size_mult 12 1) = 48" by (simp add: size_add_def size_mult_def)
  ultimately show ?thesis
    using assms(3) by (simp add: BeginDefineSurface_def commit_begin puts_append puts_ptr_add)
qed

section \<open>Requests and the commands they stand for\<close>



text \<open>
  What a client of the accelerator asks for, without a fence of its own; the rectangles of a request are those of
  its region.
\<close>

datatype accel_request =
    Create_surface u32 u32 u32 u32 u32
  | Destroy_surface_id u32
  | Dma_2d u32 u32 "region option" extra_info
  | Dma_3d_ex image_id u32 "u32 list" extra_info_ex
  | Copy_surface u32 u32 "region option" extra_info
  | Stretch_surface u32 u32 u32 bounds bounds
  | Readback_present "region option"
  | Render_target u32 u32 u32
  | Clear_targets u32 u32 "region option" u32 u32 u32
  | Create_context u32
  | Destroy_context_id u32
  | Draw u32 nat nat "u32 list" "u32 list"
  | Texture_state u32 nat "u32 list"
  | Render_state u32 nat "u32 list"
  | Blit_from_screen u32 "region option" extra_info
  | Blit_to_screen u32 "region option" extra_info
  | Surface_to_screen u32 u32 bounds region

fun serve_request :: "host \<Rightarrow> accel_request \<Rightarrow> accel \<Rightarrow> (ioreturn \<times> accel) option" where
  "serve_request h (Create_surface sid fl fmt w ht) s = createSurface h sid fl fmt w ht s"
| "serve_request h (Destroy_surface_id sid) s = destroySurface h sid s"
| "serve_request h (Dma_2d sid transfer rgn extra) s =
    map_option (\<lambda>((r, _), s). (r, s)) (surfaceDMA2D h sid transfer rgn (Some extra) False s)"
| "serve_request h (Dma_3d_ex i transfer copyBox extra) s =
    map_option (\<lambda>((r, _), s). (r, s)) (surfaceDMA3DEx h i transfer (Some copyBox) (Some extra) False s)"
| "serve_request h (Copy_surface a b rgn extra) s = surfaceCopy h a b rgn (Some extra) s"
| "serve_request h (Stretch_surface a b mode r1 r2) s = surfaceStretch h a b mode r1 r2 s"
| "serve_request h (Readback_present rgn) s = surfacePresentReadback h rgn s"
| "serve_request h (Render_target cid rtype sid) s = setRenderTarget h cid rtype sid s"
| "serve_request h (Clear_targets cid fl rgn color depth stencil) s = clear_targets h cid fl rgn color depth stencil s"
| "serve_request h (Create_context cid) s = createContext h cid s"
| "serve_request h (Destroy_context_id cid) s = destroyContext h cid s"
| "serve_request h (Draw cid n m decls ranges) s = drawPrimitives h cid n m decls ranges s"
| "serve_request h (Texture_state cid n states) s = setTextureState h cid n states s"
| "serve_request h (Render_state cid n states) s = setRenderState h cid n states s"
| "serve_request h (Blit_from_screen scr rgn extra) s =
    map_option (\<lambda>((r, _), s). (r, s)) (blitFromScreen h scr rgn (Some extra) False s)"
| "serve_request h (Blit_to_screen scr rgn extra) s =
    map_option (\<lambda>((r, _), s). (r, s)) (blitToScreen h scr rgn (Some extra) False s)"
| "serve_request h (Surface_to_screen sid scr src rgn) s = blitSurfaceToScreen h sid scr src (Some rgn) s"

abbreviation "first_image sid \<equiv> SVGA3dSurfaceImageId sid 0 0"

fun request_commands :: "accel_request \<Rightarrow> command list" where
  "request_commands (Create_surface sid fl fmt w ht) = [Cmd_begin (Define_surface sid fl fmt [1, 0, 0, 0, 0, 0] 1 [w, ht, 1])]"
| "request_commands (Destroy_surface_id sid) = [Cmd_3d (Destroy_surface sid)]"
| "request_commands (Dma_2d sid transfer rgn extra) =
    [Cmd_begin (Surface_dma (guest_image_of extra) (first_image sid) transfer (length (rects_of rgn))
       (concat (map (copy_box_dwords extra) (rects_of rgn))))]"
| "request_commands (Dma_3d_ex i transfer copyBox extra) =
    [Cmd_begin (Surface_dma_suffix (SVGA3dGuestImage (SVGAGuestPtr (ex_gmr_id extra) (ucast (ex_offset_in_gmr extra))) (ucast (ex_pitch extra)))
       i transfer (ucast (ex_limit extra)) (ex_suffix_flags extra) 1 (take 9 copyBox))]"
| "request_commands (Copy_surface a b rgn extra) =
    [Cmd_begin (Surface_copy (first_image a) (first_image b) (length (rects_of rgn)) (concat (map (copy_box_dwords extra) (rects_of rgn))))]"
| "request_commands (Stretch_surface a b mode r1 r2) =
    [Cmd_3d (Surface_stretch_blt (first_image a) (first_image b) (box_of r1) (box_of r2) mode)]"
| "request_commands (Readback_present rgn) = [Cmd_begin (Present_readback (length (rects_of rgn)) (concat (map bounds_dwords (rects_of rgn))))]"
| "request_commands (Render_target cid rtype sid) = [Cmd_3d (Set_render_target cid rtype (first_image sid))]"
| "request_commands (Clear_targets cid fl rgn color depth stencil) =
    [Cmd_begin (Clear cid fl color depth stencil (length (rects_of rgn)) (concat (map bounds_dwords (rects_of rgn))))]"
| "request_commands (Create_context cid) = [Cmd_3d (Define_context cid)]"
| "request_commands (Destroy_context_id cid) = [Cmd_3d (Destroy_context cid)]"
| "request_commands (Draw cid n m decls ranges) = [Cmd_begin (Draw_primitives cid n m (take (9 * n) decls) (take (7 * m) ranges))]"
| "request_commands (Texture_state cid n states) = [Cmd_begin (Set_texture_state cid n (take (3 * n) states))]"
| "request_commands (Render_state cid n states) = [Cmd_begin (Set_render_state cid n (take (2 * n) states))]"
| "request_commands (Blit_from_screen scr rgn extra) =
    Cmd_2d (Define_gmrfb (guest_ptr_of extra) (ucast (mem_pitch extra)) 0x1820) #
    map (\<lambda>src. Cmd_2d (Blit_to_gmrfb (shifted_point src (dstDeltaX extra, dstDeltaY extra))
       (convert_rect src (srcDeltaX extra, srcDeltaY extra)) scr)) (rects_of rgn)"
| "request_commands (Blit_to_screen scr rgn extra) =
    Cmd_2d (Define_gmrfb (guest_ptr_of extra) (ucast (mem_pitch extra)) 0x1820) #
    map (\<lambda>src. Cmd_2d (Blit_from_gmrfb (shifted_point src (srcDeltaX extra, srcDeltaY extra))
       (convert_rect src (dstDeltaX extra, dstDeltaY extra)) scr)) (rects_of rgn)"
| "request_commands (Surface_to_screen sid scr src rgn) =
    (let dest = convert_rect (bounding rgn) (0, 0);
         shift = (- fst (signed_rect_left_top dest), - snd (signed_rect_left_top dest))
     in [Cmd_begin (Blit_surface_to_screen (first_image sid) (convert_rect src (0, 0)) scr dest (length (rects rgn))
           (concat (map (\<lambda>r. signed_rect_dwords (convert_rect r shift)) (rects rgn))))])"

text \<open>The arrays a caller passes hold what it announces.\<close>

fun request_valid :: "accel_request \<Rightarrow> bool" where
  "request_valid (Dma_3d_ex i transfer copyBox extra) \<longleftrightarrow> 9 \<le> length copyBox"
| "request_valid (Draw cid n m decls ranges) \<longleftrightarrow> 9 * n \<le> length decls \<and> 7 * m \<le> length ranges"
| "request_valid (Texture_state cid n states) \<longleftrightarrow> 3 * n \<le> length states"
| "request_valid (Render_state cid n states) \<longleftrightarrow> 2 * n \<le> length states"
| "request_valid _ \<longleftrightarrow> True"

text \<open>
  The outcome \<open>r\<close> of a request from \<open>s\<close> is success, with \<open>stream\<close> appended to the queue of the device and
  nothing else changed; the host may have taken the front of the queue.
\<close>

definition accel_streams :: "accel \<Rightarrow> fb \<Rightarrow> (ioreturn \<times> accel) option \<Rightarrow> u32 list \<Rightarrow> bool" where
  "accel_streams s b r stream \<longleftrightarrow> (\<exists>e k. r = Some (kIOReturnSuccess, s\<lparr>m_framebuffer := Some (b\<lparr>dev := e\<rparr>)\<rparr>) \<and>
     fifo_ready e \<and> driver_fields e = driver_fields (dev b) \<and>
     fifo_queue (m_fifo e) = drop k (fifo_queue (m_fifo (dev b)) @ stream))"

lemma drop_front: "\<exists>j. drop k q @ c = drop j (q @ c)"
  by (rule exI [of _ "min k (length q)"]) (simp add: min_def)

lemma emits_streamed: "emits d r stream \<Longrightarrow> streamed d r stream"
  unfolding emits_def streamed_def using drop_front by metis

lemma issue_streams:
  assumes "bHaveSVGA3D s" and "m_framebuffer s = Some b" and "emits (dev b) (f (dev b)) stream"
  shows "accel_streams s b (issue f s) stream"
  using emits_streamed [OF assms(3)] assms(1,2)
  unfolding accel_streams_def streamed_def by (auto simp: issue_def with_device_def)







lemma emits_cong: "emits d r stream \<Longrightarrow> stream = stream' \<Longrightarrow> emits d r stream'"
  by simp




lemma drop_chain:
  assumes "q' = drop k (q @ a)" and "q'' = drop j (q' @ b)"
  shows "\<exists>i. q'' = drop i (q @ a @ b)"
proof -
  obtain m where "drop k (q @ a) @ b = drop m ((q @ a) @ b)" using drop_front by blast
  then show ?thesis using assms by (auto simp: drop_drop simp del: drop_append)
qed


text \<open>A concrete accelerator for the witnesses, with the features on and a data area of 25 dwords.\<close>

definition accel_sample :: accel where
  "accel_sample = \<lparr>m_framebuffer = Some (fb_new\<lparr>dev := small_svga 1200 1256 64\<rparr>), accel_vram = sample_vram,
     accel_ids = accel_ids_start 64 accel_ids_init, ac_iolock = True, m_updating_ga = 0, m_log_level_ac = 1,
     m_log_level_ga = - 1, m_log_level_gld = - 1, m_options_ga = 0, bHaveSVGA3D = True, bHaveScreenObject = True,
     m_master_surface_retain_count = 0, m_master_surface_id = SVGA_ID_INVALID, m_blitbug_result = kIOReturnNotFound,
     m_primary_screen = (- 1, - 1), m_present_tracker = tracker_init 2, vmw_options_ac = 3\<rparr>"

lemma accel_sample_ready:
  "m_framebuffer accel_sample = Some (fb_new\<lparr>dev := small_svga 1200 1256 64\<rparr>)" "bHaveSVGA3D accel_sample"
  "bHaveScreenObject accel_sample"
  by (simp_all add: accel_sample_def)



section \<open>The master surface\<close>

text \<open>
  What the clients ask for (\<open>True\<close> retains, \<open>False\<close> releases) and the commands it comes to: the surface of the
  size of the screen is made when the first client comes, destroyed when the last one goes.
\<close>

fun master_calls :: "host \<Rightarrow> bool list \<Rightarrow> accel \<Rightarrow> accel option" where
  "master_calls h [] s = Some s"
| "master_calls h (True # cs) s = do { (_, s) \<leftarrow> retainMasterSurface h s; master_calls h cs s }"
| "master_calls h (False # cs) s = do { s \<leftarrow> releaseMasterSurface h s; master_calls h cs s }"

record master =
  clients_of :: nat
  surface_of :: u32
  numbers_of :: accel_ids
  issued :: "command list"

fun master_step :: "u32 \<times> u32 \<Rightarrow> bool \<Rightarrow> master \<Rightarrow> master" where
  "master_step (w, ht) True a =
    (if clients_of a = 0
     then let (sid, ids) = AllocSurfaceID (numbers_of a)
       in \<lparr>clients_of = 1, surface_of = sid, numbers_of = ids,
           issued = issued a @ [Cmd_begin (Define_surface sid 0 1 [1, 0, 0, 0, 0, 0] 1 [w, ht, 1])]\<rparr>
     else a\<lparr>clients_of := clients_of a + 1\<rparr>)"
| "master_step (w, ht) False a =
    (if clients_of a = 1
     then \<lparr>clients_of = 0, surface_of = SVGA_ID_INVALID, numbers_of = FreeSurfaceID (surface_of a) (numbers_of a),
           issued = issued a @ [Cmd_3d (Destroy_surface (surface_of a))]\<rparr>
     else a\<lparr>clients_of := clients_of a - 1\<rparr>)"

text \<open>
  The accelerator and the abstract state agree: \<open>b\<close> is the framebuffer in the beginning, \<open>a\<close> what has been
  asked for since, \<open>n\<close> calls are still to come.
\<close>

definition master_rel :: "fb \<Rightarrow> nat \<Rightarrow> accel \<Rightarrow> master \<Rightarrow> accel \<Rightarrow> bool" where
  "master_rel b n s a t \<longleftrightarrow> (\<exists>e k. fifo_ready e \<and> driver_fields e = driver_fields (dev b) \<and>
     fifo_queue (m_fifo e) = drop k (fifo_queue (m_fifo (dev b)) @ concat (map encode (issued a))) \<and>
     t = s\<lparr>m_framebuffer := Some (b\<lparr>dev := e\<rparr>), m_master_surface_retain_count := of_nat (clients_of a),
           m_master_surface_id := surface_of a, accel_ids := numbers_of a\<rparr>) \<and>
   bHaveSVGA3D s \<and> fifo_fits (dev b) 14 \<and> clients_of a + n < 2 ^ 31 \<and> surface_inv (numbers_of a) \<and>
   n \<le> surface_budget (numbers_of a) \<and> (0 < clients_of a \<longrightarrow> \<not> surface_of a <s 0)"

lemma count_word:
  assumes "n < 2 ^ 31"
  shows "(of_nat n :: u32) = 0 \<longleftrightarrow> n = 0" and "(of_nat n :: u32) = 1 \<longleftrightarrow> n = 1" and "(of_nat n :: u32) \<le>s 0 \<longleftrightarrow> n = 0"
proof -
  have u: "unat (of_nat n :: u32) = n" using assms by (simp add: unsigned_of_nat take_bit_nat_eq_self)
  then show eq: "(of_nat n :: u32) = 0 \<longleftrightarrow> n = 0" "(of_nat n :: u32) = 1 \<longleftrightarrow> n = 1"
    by (simp_all only: word_unat_eq_iff unat_0 unat_1)
  have "\<not> of_nat n <s (0 :: u32)" using assms u by (simp add: sless_zero_iff)
  then show "(of_nat n :: u32) \<le>s 0 \<longleftrightarrow> n = 0"
    using eq(1) by (simp only: signed.le_less) blast
qed

lemma retain_step:
  assumes "host_serving h" and "master_rel b (Suc n) s a t"
  shows "\<exists>u. retainMasterSurface h t = Some (True, u) \<and>
    master_rel b n s (master_step (m_width (dev b), m_height (dev b)) True a) u"
proof -
  obtain e k where e: "fifo_ready e" "driver_fields e = driver_fields (dev b)"
      "fifo_queue (m_fifo e) = drop k (fifo_queue (m_fifo (dev b)) @ concat (map encode (issued a)))"
    and t: "t = s\<lparr>m_framebuffer := Some (b\<lparr>dev := e\<rparr>), m_master_surface_retain_count := of_nat (clients_of a),
           m_master_surface_id := surface_of a, accel_ids := numbers_of a\<rparr>"
    and r: "bHaveSVGA3D s" "fifo_fits (dev b) 14" "clients_of a + Suc n < 2 ^ 31" "surface_inv (numbers_of a)"
      "Suc n \<le> surface_budget (numbers_of a)" "0 < clients_of a \<longrightarrow> \<not> surface_of a <s 0"
    using assms(2) unfolding master_rel_def by - (elim exE conjE, rule that, assumption+)
  have size: "m_width e = m_width (dev b)" "m_height e = m_height (dev b)" using e(2) by (simp_all add: driver_fields_def)
  show ?thesis
  proof (cases "clients_of a = 0")
    case True
    obtain sid ids where alloc: "AllocSurfaceID (numbers_of a) = (sid, ids)" by fastforce
    let ?c = "Cmd_begin (Define_surface sid 0 1 [1, 0, 0, 0, 0, 0] 1 [m_width (dev b), m_height (dev b), 1])"
    have fits: "fifo_fits e 14" using r(2) driver_fields_fits [OF e(2)] by simp
    let ?t = "t\<lparr>m_master_surface_retain_count := 1, accel_ids := ids, m_master_surface_id := sid\<rparr>"
    have "accel_streams ?t (b\<lparr>dev := e\<rparr>) (createSurface h sid 0 1 (m_width e) (m_height e) ?t) (encode ?c)"
      unfolding createSurface_def using emits_Define [OF assms(1) e(1) fits] r(1)
      by (intro issue_streams) (simp_all add: t size)
    then obtain f j where f: "createSurface h sid 0 1 (m_width e) (m_height e) ?t =
          Some (kIOReturnSuccess, ?t\<lparr>m_framebuffer := Some (b\<lparr>dev := f\<rparr>)\<rparr>)" "fifo_ready f"
        "driver_fields f = driver_fields e" "fifo_queue (m_fifo f) = drop j (fifo_queue (m_fifo e) @ encode ?c)"
      unfolding accel_streams_def by auto
    have "retainMasterSurface h t = Some (True, ?t\<lparr>m_framebuffer := Some (b\<lparr>dev := f\<rparr>)\<rparr>)"
      using r(1) True f(1) alloc by (simp add: retainMasterSurface_def createMasterSurface_def t Let_def)
    moreover have "surface_inv ids" "n \<le> surface_budget ids" "\<not> sid <s 0"
      using surface_inv_Alloc [OF r(4)] surface_budget_Alloc [OF r(4)] surface_fresh [OF r(4)] r(5) alloc by auto
    moreover obtain i where "fifo_queue (m_fifo f) = drop i (fifo_queue (m_fifo (dev b)) @ concat (map encode (issued a)) @ encode ?c)"
      using drop_chain [OF e(3) f(4)] by blast
    ultimately show ?thesis
      using e(1,2) r(1,2,3) f(2,3) True alloc unfolding master_rel_def
      by (intro exI conjI) (assumption | simp add: t)+
  next
    case False
    have "of_nat (clients_of a) \<noteq> (0 :: u32)"
      using False r(3) count_word(1) [of "clients_of a"] by simp
    then have "retainMasterSurface h t = Some (True, t\<lparr>m_master_surface_retain_count := of_nat (clients_of a) + 1\<rparr>)"
      using r(1) by (simp add: retainMasterSurface_def t Let_def)
    then show ?thesis
      using e r False unfolding master_rel_def by (auto simp: t add.commute)
  qed
qed


lemma release_step:
  assumes "host_serving h" and "master_rel b (Suc n) s a t"
  shows "\<exists>u. releaseMasterSurface h t = Some u \<and> master_rel b n s (master_step (m_width (dev b), m_height (dev b)) False a) u"
proof -
  obtain e k where e: "fifo_ready e" "driver_fields e = driver_fields (dev b)"
      "fifo_queue (m_fifo e) = drop k (fifo_queue (m_fifo (dev b)) @ concat (map encode (issued a)))"
    and t: "t = s\<lparr>m_framebuffer := Some (b\<lparr>dev := e\<rparr>), m_master_surface_retain_count := of_nat (clients_of a),
           m_master_surface_id := surface_of a, accel_ids := numbers_of a\<rparr>"
    and r: "bHaveSVGA3D s" "fifo_fits (dev b) 14" "clients_of a + Suc n < 2 ^ 31" "surface_inv (numbers_of a)"
      "Suc n \<le> surface_budget (numbers_of a)" "0 < clients_of a \<longrightarrow> \<not> surface_of a <s 0"
    using assms(2) unfolding master_rel_def by - (elim exE conjE, rule that, assumption+)
  note count = count_word [of "clients_of a"]
  show ?thesis
  proof (cases "clients_of a = 1")
    case True
    let ?c = "Cmd_3d (Destroy_surface (surface_of a))"
    have fits: "fifo_fits e (length (encode ?c))" using r(2) driver_fields_fits [OF e(2), of 14] by (simp add: fifo_fits_def)
    let ?t = "t\<lparr>m_master_surface_retain_count := 0\<rparr>"
    have "accel_streams ?t (b\<lparr>dev := e\<rparr>) (destroySurface h (surface_of a) ?t) (encode ?c)"
      unfolding destroySurface_def using exec_emits [OF assms(1) e(1) fits] r(1)
      by (intro issue_streams) (simp_all add: t)
    then obtain f j where f: "destroySurface h (surface_of a) ?t =
          Some (kIOReturnSuccess, ?t\<lparr>m_framebuffer := Some (b\<lparr>dev := f\<rparr>)\<rparr>)" "fifo_ready f"
        "driver_fields f = driver_fields e" "fifo_queue (m_fifo f) = drop j (fifo_queue (m_fifo e) @ encode ?c)"
      unfolding accel_streams_def by auto
    have "releaseMasterSurface h t = Some (?t\<lparr>m_framebuffer := Some (b\<lparr>dev := f\<rparr>),
        accel_ids := FreeSurfaceID (surface_of a) (numbers_of a), m_master_surface_id := SVGA_ID_INVALID\<rparr>)"
      using r(1,6) True f(1) count_word(3) [of 1] by (simp add: releaseMasterSurface_def destroyMasterSurface_def t Let_def)
    moreover have "surface_inv (FreeSurfaceID (surface_of a) (numbers_of a))"
      "n \<le> surface_budget (FreeSurfaceID (surface_of a) (numbers_of a))"
      using surface_free [OF r(4)] surface_budget_free r(5) by auto
    moreover obtain i where "fifo_queue (m_fifo f) = drop i (fifo_queue (m_fifo (dev b)) @ concat (map encode (issued a)) @ encode ?c)"
      using drop_chain [OF e(3) f(4)] by blast
    ultimately show ?thesis
      using e(1,2) r(1,2,3) f(2,3) True unfolding master_rel_def
      by (intro exI conjI) (assumption | simp add: t)+
  next
    case False
    have "releaseMasterSurface h t = Some (t\<lparr>m_master_surface_retain_count := of_nat (clients_of a - 1)\<rparr>)"
      using r(1,3) False count by (cases "clients_of a") (simp_all add: releaseMasterSurface_def t Let_def)
    then show ?thesis
      using e r False unfolding master_rel_def by (auto simp: t)
  qed
qed

lemma master_calls_rel:
  "host_serving h \<Longrightarrow> master_rel b (length cs) s a t \<Longrightarrow>
    \<exists>u. master_calls h cs t = Some u \<and>
      master_rel b 0 s (fold (master_step (m_width (dev b), m_height (dev b))) cs a) u"
proof (induction cs arbitrary: a t)
  case Nil
  then show ?case by simp
next
  case (Cons c cs)
  show ?case
  proof (cases c)
    case True
    with retain_step [OF Cons.prems(1), of b "length cs" s a t] Cons.prems(2) obtain u where
      "retainMasterSurface h t = Some (True, u)"
      "master_rel b (length cs) s (master_step (m_width (dev b), m_height (dev b)) c a) u"
      by auto
    with Cons.IH [OF Cons.prems(1) this(2)] True show ?thesis by simp
  next
    case False
    with release_step [OF Cons.prems(1), of b "length cs" s a t] Cons.prems(2) obtain u where
      "releaseMasterSurface h t = Some u"
      "master_rel b (length cs) s (master_step (m_width (dev b), m_height (dev b)) c a) u"
      by auto
    with Cons.IH [OF Cons.prems(1) this(2)] False show ?thesis by simp
  qed
qed


text \<open>The surfaces that exist for the host after a stream of commands.\<close>

fun host_surface :: "command \<Rightarrow> u32 set \<Rightarrow> u32 set" where
  "host_surface (Cmd_begin (Define_surface sid _ _ _ _ _)) S = insert sid S"
| "host_surface (Cmd_3d (Destroy_surface sid)) S = S - {sid}"
| "host_surface _ S = S"

definition host_surfaces :: "command list \<Rightarrow> u32 set" where
  "host_surfaces cs = fold host_surface cs {}"

definition master_start :: "accel_ids \<Rightarrow> master" where
  "master_start ids = \<lparr>clients_of = 0, surface_of = SVGA_ID_INVALID, numbers_of = ids, issued = []\<rparr>"

lemma master_step_live:
  "host_surfaces (issued a) = (if clients_of a = 0 then {} else {surface_of a}) \<Longrightarrow>
   host_surfaces (issued (master_step p c a)) =
     (if clients_of (master_step p c a) = 0 then {} else {surface_of (master_step p c a)})"
  by (cases p; cases c) (auto simp: host_surfaces_def Let_def split: prod.splits if_splits)

lemma master_live:
  "host_surfaces (issued a) = (if clients_of a = 0 then {} else {surface_of a}) \<Longrightarrow>
   host_surfaces (issued (fold (master_step p) cs a)) =
     (if clients_of (fold (master_step p) cs a) = 0 then {} else {surface_of (fold (master_step p) cs a)})"
proof (induction cs arbitrary: a)
  case (Cons c cs)
  from Cons.IH [OF master_step_live [OF Cons.prems]] show ?case by simp
qed simp

text \<open>C20: The master surface is shared by counting its clients: over any history of retains and releases, in
  any number and order, the accelerator returns, keeps the count, and tells the host to make the surface, of the size of
  the screen, exactly when the first client comes and to destroy it exactly when the last one goes, under the
  number that was allocated for it, which is then free again; so the surface exists for the host just
  while there are clients.  Releases without a client have no effect.\<close>

theorem master_surface_shared:
  assumes "host_serving h" and "bHaveSVGA3D s" and "m_framebuffer s = Some b" and "fifo_ready (dev b)"
    and "fifo_fits (dev b) 14" and "m_master_surface_retain_count s = 0" and "m_master_surface_id s = SVGA_ID_INVALID"
    and "surface_inv (accel_ids s)" and "length cs < 2 ^ 31" and "length cs \<le> surface_budget (accel_ids s)"
  shows "let a = fold (master_step (m_width (dev b), m_height (dev b))) cs (master_start (accel_ids s)) in \<exists>e k. master_calls h cs s = Some (s\<lparr>m_framebuffer := Some (b\<lparr>dev := e\<rparr>),
       m_master_surface_retain_count := of_nat (clients_of a), m_master_surface_id := surface_of a,
       accel_ids := numbers_of a\<rparr>) \<and> fifo_ready e \<and> driver_fields e = driver_fields (dev b) \<and>
     fifo_queue (m_fifo e) = drop k (fifo_queue (m_fifo (dev b)) @ concat (map encode (issued a))) \<and>
     host_surfaces (issued a) = (if clients_of a = 0 then {} else {surface_of a})"
proof -
  let ?a = "fold (master_step (m_width (dev b), m_height (dev b))) cs (master_start (accel_ids s))"
  have "master_rel b (length cs) s (master_start (accel_ids s)) s"
    unfolding master_rel_def
    by (intro conjI exI [of _ "dev b"] exI [of _ 0]) (use assms(2-10) in \<open>simp_all add: master_start_def\<close>)
  from master_calls_rel [OF assms(1) this] obtain u where u: "master_calls h cs s = Some u" "master_rel b 0 s ?a u"
    by blast
  moreover have "host_surfaces (issued ?a) = (if clients_of ?a = 0 then {} else {surface_of ?a})"
    by (rule master_live) (simp add: master_start_def host_surfaces_def)
  ultimately show ?thesis unfolding master_rel_def Let_def by metis
qed

lemma master_surface_shared_witness:
  "\<exists>e k. master_calls drain_host [True, True, False, False, False, True] accel_sample =
       Some (accel_sample\<lparr>m_framebuffer := Some (fb_new\<lparr>dev := e\<rparr>), m_master_surface_retain_count := 1,
         m_master_surface_id := 0, accel_ids := snd (AllocSurfaceID (accel_ids_start 64 accel_ids_init))\<rparr>) \<and>
     fifo_queue (m_fifo e) = drop k (fifo_queue (m_fifo (small_svga 1200 1256 64)) @
       [1040, 48, 0, 0, 1, 1, 0, 0, 0, 0, 0, 0, 0, 1, 1041, 4, 0, 1040, 48, 0, 0, 1, 1, 0, 0, 0, 0, 0, 0, 0, 1])"
proof -
  let ?ids = "accel_ids_start 64 accel_ids_init"
  let ?a = "fold (master_step (0, 0)) [True, True, False, False, False, True] (master_start ?ids)"
  have alloc: "fst (AllocSurfaceID ?ids) = 0" "FreeSurfaceID 0 (snd (AllocSurfaceID ?ids)) = ?ids" by code_simp+
  then have a: "clients_of ?a = 1" "surface_of ?a = 0" "numbers_of ?a = snd (AllocSurfaceID ?ids)"
      "concat (map encode (issued ?a)) = [1040, 48, 0, 0, 1, 1, 0, 0, 0, 0, 0, 0, 0, 1, 1041, 4, 0, 1040, 48, 0, 0, 1, 1, 0, 0, 0, 0, 0, 0, 0, 1]"
    by (simp_all add: master_start_def case_prod_beta Let_def)
  have s: "accel_ids accel_sample = ?ids" "m_master_surface_retain_count accel_sample = 0"
      "m_master_surface_id accel_sample = SVGA_ID_INVALID"
    by (simp_all add: accel_sample_def)
  let ?b = "fb_new\<lparr>dev := small_svga 1200 1256 64\<rparr>"
  have b: "fifo_ready (dev ?b)" "fifo_fits (dev ?b) 14" "dev ?b = small_svga 1200 1256 64"
    by (simp_all add: fifo_fits_def small_svga_ready)
  have w: "m_width (small_svga 1200 1256 64) = 0" "m_height (small_svga 1200 1256 64) = 0"
    by (simp_all add: small_svga_def svga_new_def)
  have i: "surface_inv (accel_ids accel_sample)" "length [True, True, False, False, False, True] < 2 ^ 31"
      "length [True, True, False, False, False, True] \<le> surface_budget (accel_ids accel_sample)"
    by (simp_all add: s(1) surface_inv_start surface_budget_start)
  note shared = master_surface_shared [OF drain_host_serving accel_sample_ready(2,1) b(1,2) s(2,3) i]
  have "\<exists>e k. master_calls drain_host [True, True, False, False, False, True] accel_sample =
       Some (accel_sample\<lparr>m_framebuffer := Some (?b\<lparr>dev := e\<rparr>), m_master_surface_retain_count := of_nat (clients_of ?a),
         m_master_surface_id := surface_of ?a, accel_ids := numbers_of ?a\<rparr>) \<and> fifo_ready e \<and>
       driver_fields e = driver_fields (small_svga 1200 1256 64) \<and>
       fifo_queue (m_fifo e) = drop k (fifo_queue (m_fifo (small_svga 1200 1256 64)) @ concat (map encode (issued ?a))) \<and>
       host_surfaces (issued ?a) = (if clients_of ?a = 0 then {} else {surface_of ?a})"
    using shared unfolding s(1) b(3) w Let_def .
  then obtain e k where "master_calls drain_host [True, True, False, False, False, True] accel_sample =
       Some (accel_sample\<lparr>m_framebuffer := Some (?b\<lparr>dev := e\<rparr>), m_master_surface_retain_count := of_nat (clients_of ?a),
         m_master_surface_id := surface_of ?a, accel_ids := numbers_of ?a\<rparr>)"
      "fifo_queue (m_fifo e) = drop k (fifo_queue (m_fifo (small_svga 1200 1256 64)) @ concat (map encode (issued ?a)))"
    by blast
  then have "master_calls drain_host [True, True, False, False, False, True] accel_sample =
       Some (accel_sample\<lparr>m_framebuffer := Some (fb_new\<lparr>dev := e\<rparr>), m_master_surface_retain_count := 1,
         m_master_surface_id := 0, accel_ids := snd (AllocSurfaceID ?ids)\<rparr>)"
    unfolding a by simp
  with \<open>fifo_queue (m_fifo e) = _\<close> show ?thesis unfolding a by blast
qed

section \<open>Blits by the CPU\<close>

text \<open>Addresses far enough from both ends of the address space that no sum below wraps.\<close>

abbreviation (input) mid_range :: "u64 \<Rightarrow> bool" where
  "mid_range base \<equiv> 2 ^ 34 \<le> unat base \<and> unat base + 2 ^ 34 \<le> 2 ^ 64"

lemma unat_u64_add: "unat (a :: u64) + unat b < 2 ^ 64 \<Longrightarrow> unat (a + b) = unat a + unat b"
  by (simp add: unat_word_ariths)

lemma unat_of_nat_u64: "n < 2 ^ 64 \<Longrightarrow> unat (of_nat n :: u64) = n"
  by (simp add: unsigned_of_nat take_bit_nat_eq_self)

lemma unat_ucast_u64 [simp]: "unat (ucast (w :: u32) :: u64) = unat w"
  by (simp add: unsigned_ucast_eq take_bit_nat_eq_self less_trans [OF unsigned_less])

lemma unat_u32_bound: "unat (w :: u32) < 2 ^ 32"
  using unsigned_less [of w] by simp

text \<open>The bounds check lets a row pass only inside the buffer.\<close>

lemma blit_rows_outside:
  assumes "mid_range base" and "l < 2 ^ 32" and "unat addr1 \<le> unat base + 2 ^ 33"
    and "unat a < unat base \<or> unat base + unat (limit :: u32) \<le> unat a"
  shows "blit_rows (base, base + ucast limit) src (pitch, pitch2) l n addr1 addr2 m a = m a"
  using assms(3)
proof (induction n arbitrary: addr1 addr2 m)
  case (Suc n)
  let ?lim = "base + ucast limit"
  have lim: "unat ?lim = unat base + unat limit"
    using assms(1) unat_u32_bound [of limit] by (intro trans [OF unat_u64_add]) simp_all
  have l: "unat (of_nat l :: u64) = l" using assms(2) by (intro unat_of_nat_u64) simp
  have sum: "unat (addr1 + of_nat l) = unat addr1 + l"
    using assms(1,2) Suc.prems by (intro trans [OF unat_u64_add]) (simp_all add: l)
  show ?case
  proof (cases "addr1 < base \<or> addr1 + of_nat l > ?lim \<or> addr2 < fst src \<or> addr2 + of_nat l > snd src")
    case True
    then show ?thesis using Suc by simp
  next
    case False
    then have in_bounds: "unat base \<le> unat addr1" "unat addr1 + l \<le> unat base + unat limit"
      using lim sum by (simp_all add: word_less_nat_alt)
    then have "\<not> unat (a - addr1) < l"
      using assms(1,4) unat_u32_bound [of limit] by (auto simp: unat_sub_if_size word_size)
    then have "memcpy addr1 addr2 l m a = m a" by (simp add: memcpy_def)
    moreover have "unat (addr1 + ucast pitch) \<le> unat base + 2 ^ 33"
      using in_bounds assms(1) unat_u32_bound [of limit] unat_u32_bound [of pitch]
      by (subst unat_u64_add) simp_all
    ultimately show ?thesis using False Suc.IH by simp
  qed
qed simp


lemma uint_scast_sum:
  assumes "0 \<le> uint (base :: u64) + uint (a :: u32) + sint (b :: u32)" and "uint base + uint a + sint b < 2 ^ 64"
  shows "uint (base + ucast a + scast b) = uint base + uint a + sint b"
proof -
  have "base + ucast a + scast b = word_of_int (uint base + uint a + sint b)" by simp
  then show ?thesis using assms by (simp add: word_of_int_inverse take_bit_int_eq_self)
qed

lemma blit_addr_sum:
  assumes "mid_range base"
  shows "uint (blit_addr base img delta bpp rect) =
    uint base + uint ((int_of (r_y rect) + snd delta) * image_pitch img) + sint ((int_of (r_x rect) + fst delta) * bpp)"
  unfolding blit_addr_def
proof (rule uint_scast_sum)
  let ?a = "(int_of (r_y rect) + snd delta) * image_pitch img" and ?b = "(int_of (r_x rect) + fst delta) * bpp"
  from assms have "int (2 ^ 34) \<le> int (unat base)" "int (unat base + 2 ^ 34) \<le> int (2 ^ 64)"
    by (simp_all only: of_nat_le_iff)
  then have "2 ^ 34 \<le> uint base" "uint base + 2 ^ 34 \<le> 2 ^ 64" by simp_all
  moreover have "uint ?a < 2 ^ 32" "0 \<le> uint ?a" using uint_bounded [of ?a] by simp_all
  moreover have "sint ?b < 2 ^ 31" "- (2 ^ 31) \<le> sint ?b" using sint_lt [of ?b] sint_ge [of ?b] by simp_all
  moreover have "2 ^ 34 \<le> x \<Longrightarrow> x + 2 ^ 34 \<le> 2 ^ 64 \<Longrightarrow> y < 2 ^ 32 \<Longrightarrow> 0 \<le> y \<Longrightarrow> z < 2 ^ 31 \<Longrightarrow> - (2 ^ 31) \<le> z \<Longrightarrow>
      0 \<le> x + y + z \<and> x + y + z < 2 ^ 64" for x y z :: int by simp
  ultimately have "0 \<le> uint base + uint ?a + sint ?b \<and> uint base + uint ?a + sint ?b < 2 ^ 64" by blast
  then show "0 \<le> uint base + uint ?a + sint ?b" "uint base + uint ?a + sint ?b < 2 ^ 64" by blast+
qed

lemma blit_rect_outside:
  assumes "mid_range dst_base" and "unat a < unat dst_base \<or> unat dst_base + unat (image_limit di) \<le> unat a"
  shows "blit_rect dst_base di dd src_base si sd bpp rect m a = m a"
proof (cases "r_w rect \<le>s 0 \<or> r_h rect \<le>s 0")
  case False
  have "unat (r_w rect) < 2 ^ 16" "unat bpp < 2 ^ 8"
    using unsigned_less [of "r_w rect"] unsigned_less [of bpp] by simp_all
  then have l: "unat (r_w rect) * unat bpp < 2 ^ 32"
    using mult_strict_mono' [of "unat (r_w rect)" "2 ^ 16" "unat bpp" "2 ^ 8"] by simp
  let ?a = "(int_of (r_y rect) + snd dd) * image_pitch di" and ?b = "(int_of (r_x rect) + fst dd) * ucast bpp"
  have "uint ?a < 2 ^ 32" "sint ?b < 2 ^ 31" using uint_bounded [of ?a] sint_lt [of ?b] by simp_all
  then have "int (unat (blit_addr dst_base di dd (ucast bpp) rect)) \<le> int (unat dst_base + 2 ^ 33)"
    using blit_addr_sum [OF assms(1), of di dd "ucast bpp" rect] by simp
  then have "unat (blit_addr dst_base di dd (ucast bpp) rect) \<le> unat dst_base + 2 ^ 33"
    by (simp only: of_nat_le_iff)
  from blit_rows_outside [OF assms(1) l this assms(2)] show ?thesis
    using False by (simp add: blit_rect_def)
qed (simp add: blit_rect_def)

text \<open>
  The reference: \<open>n\<close> rows of \<open>l\<close> bytes from \<open>S\<close>, \<open>P2\<close> apart, appear from \<open>D\<close> on, \<open>P1\<close> apart, and nothing else
  changes.
\<close>

definition copy_rows :: "nat \<Rightarrow> nat \<Rightarrow> nat \<Rightarrow> nat \<Rightarrow> nat \<Rightarrow> nat \<Rightarrow> (u64 \<Rightarrow> u8) \<Rightarrow> (u64 \<Rightarrow> u8)" where
  "copy_rows D P1 S P2 l n m = (\<lambda>a. let i = unat a - D in
     if D \<le> unat a \<and> i div P1 < n \<and> i mod P1 < l then m (of_nat (S + (i div P1) * P2 + i mod P1)) else m a)"

lemma copy_rows_0: "copy_rows D P1 S P2 l 0 m = m"
  by (simp add: copy_rows_def Let_def)

lemma memcpy_at:
  assumes "unat dst + l \<le> 2 ^ 64"
  shows "memcpy dst src l m a = (if unat dst \<le> unat a \<and> unat a < unat dst + l then m (src + (a - dst)) else m a)"
proof -
  have "unat (a - dst) < l \<longleftrightarrow> unat dst \<le> unat a \<and> unat a < unat dst + l"
    using assms unsigned_less [of a] by (auto simp: unat_sub_if_size word_size)
  then show ?thesis by (simp add: memcpy_def)
qed

lemma copy_rows_step:
  assumes "0 < l" "l \<le> P1" "unat d + l \<le> 2 ^ 64" "D = unat d" "S = unat s"
    and "S + n * P2 + l \<le> 2 ^ 64" and "S + n * P2 + l \<le> D \<or> D + l \<le> S"
  shows "copy_rows (D + P1) P1 (S + P2) P2 l n (memcpy d s l m) = copy_rows D P1 S P2 l (Suc n) m"
proof
  fix a :: u64
  note cpy = memcpy_at [OF assms(3)]
  consider "unat a < D" | "D \<le> unat a" "unat a < D + P1" | "D + P1 \<le> unat a" by linarith
  then show "copy_rows (D + P1) P1 (S + P2) P2 l n (memcpy d s l m) a = copy_rows D P1 S P2 l (Suc n) m a"
  proof cases
    case 1
    then show ?thesis using assms by (simp add: copy_rows_def Let_def cpy)
  next
    case 2
    then have "s + (a - d) = of_nat (S + (unat a - D))"
      using assms(4,5) by (simp add: of_nat_diff)
    then show ?thesis using 2 assms by (auto simp: copy_rows_def Let_def cpy add_diff_eq)
  next
    case 3
    let ?i = "unat a - (D + P1)"
    have wrap: "x div P1 = Suc (y div P1) \<and> x mod P1 = y mod P1" if "x = y + P1" for x y
      using that assms(1,2) div_add_self2 [of P1 y] by simp
    have i: "(unat a - D) div P1 = Suc (?i div P1)" "(unat a - D) mod P1 = ?i mod P1" "D \<le> unat a"
      using wrap [of "unat a - D" ?i] 3 by simp_all
    have far: "\<not> (unat d \<le> unat a \<and> unat a < unat d + l)" using 3 assms(2,4) by simp
    show ?thesis
    proof (cases "?i div P1 < n \<and> ?i mod P1 < l")
      case True
      let ?t = "S + P2 + (?i div P1) * P2 + ?i mod P1"
      have "Suc (?i div P1) * P2 \<le> n * P2" using True by (intro mult_le_mono1) simp
      then have t: "?t < S + n * P2 + l" "S \<le> ?t" using True by (simp_all add: algebra_simps)
      then have "unat (of_nat ?t :: u64) = ?t" using assms(6) by (intro unat_of_nat_u64) simp
      then have "memcpy d s l m (of_nat ?t) = m (of_nat ?t)" using t assms(4,5,7) by (auto simp: cpy)
      then show ?thesis using True 3 i by (simp add: copy_rows_def Let_def algebra_simps)
    next
      case False
      then show ?thesis using 3 i far by (auto simp: copy_rows_def Let_def cpy)
    qed
  qed
qed

text \<open>What keeps the rows of a buffer inside it.\<close>

definition rows_within :: "u64 \<Rightarrow> u64 \<Rightarrow> nat \<Rightarrow> nat \<Rightarrow> u64 \<times> u64 \<Rightarrow> bool" where
  "rows_within addr pitch l n lim \<longleftrightarrow> (0 < n \<longrightarrow> unat (fst lim) \<le> unat addr \<and>
     unat addr + (n - 1) * unat pitch + l \<le> unat (snd lim))"

lemma rows_within_Suc:
  assumes "rows_within addr pitch l (Suc n) lim" and "unat (snd lim) + unat pitch < 2 ^ 64" 
  shows "unat (fst lim) \<le> unat addr" and "unat addr + n * unat pitch + l \<le> unat (snd lim)"
    and "unat (addr + pitch) = unat addr + unat pitch" and "rows_within (addr + pitch) pitch l n lim"
proof -
  show b: "unat (fst lim) \<le> unat addr" "unat addr + n * unat pitch + l \<le> unat (snd lim)"
    using assms(1) by (simp_all add: rows_within_def)
  then show s: "unat (addr + pitch) = unat addr + unat pitch"
    using assms(2) by (intro unat_u64_add) simp
  show "rows_within (addr + pitch) pitch l n lim"
    unfolding rows_within_def s using b by (cases n) auto
qed

lemma blit_rows_copy:
  assumes "0 < l" "l \<le> unat p1" "l < 2 ^ 32"
    and "unat (snd dst) + 2 ^ 32 < 2 ^ 64" "unat (snd src) + 2 ^ 32 < 2 ^ 64"
    and "unat (snd src) \<le> unat (fst dst) \<or> unat (snd dst) \<le> unat (fst src)"
    and "rows_within addr1 (ucast (p1 :: u32)) l n dst" "rows_within addr2 (ucast (p2 :: u32)) l n src"
  shows "blit_rows dst src (p1, p2) l n addr1 addr2 m = copy_rows (unat addr1) (unat p1) (unat addr2) (unat p2) l n m"
  using assms(7,8)
proof (induction n arbitrary: addr1 addr2 m)
  case 0
  show ?case by (simp add: copy_rows_0)
next
  case (Suc n)
  have p: "unat (snd dst) + unat p1 < 2 ^ 64" "unat (snd src) + unat p2 < 2 ^ 64"
    using assms(4,5) unat_u32_bound [of p1] unat_u32_bound [of p2] by simp_all
  note d = rows_within_Suc [OF Suc.prems(1), unfolded unat_ucast_u64, OF p(1)]
    and s = rows_within_Suc [OF Suc.prems(2), unfolded unat_ucast_u64, OF p(2)]
  have l: "unat (of_nat l :: u64) = l" using assms(3) by (intro unat_of_nat_u64) simp
  have sums: "unat (addr1 + of_nat l) = unat addr1 + l" "unat (addr2 + of_nat l) = unat addr2 + l"
    using d(2) s(2) assms(4,5) by (subst unat_u64_add; simp add: l)+
  have "\<not> (addr1 < fst dst \<or> addr1 + of_nat l > snd dst \<or> addr2 < fst src \<or> addr2 + of_nat l > snd src)"
    using d(1,2) s(1,2) sums by (auto simp: word_less_nat_alt)
  then have "blit_rows dst src (p1, p2) l (Suc n) addr1 addr2 m =
      blit_rows dst src (p1, p2) l n (addr1 + ucast p1) (addr2 + ucast p2) (memcpy addr1 addr2 l m)" by simp
  also have "\<dots> = copy_rows (unat addr1 + unat p1) (unat p1) (unat addr2 + unat p2) (unat p2) l n (memcpy addr1 addr2 l m)"
    using Suc.IH [OF d(4) s(4)] d(3) s(3) by simp
  also have "\<dots> = copy_rows (unat addr1) (unat p1) (unat addr2) (unat p2) l (Suc n) m"
    by (rule copy_rows_step) (use assms d(1,2) s(1,2) in auto)
  finally show ?case .
qed

text \<open>A rectangle, shifted by \<open>delta\<close>, that lies in the image, and where its first pixel is.\<close>

definition rect_in :: "blit_image \<Rightarrow> u32 \<times> u32 \<Rightarrow> u8 \<Rightarrow> bounds \<Rightarrow> bool" where
  "rect_in img delta bpp rect \<longleftrightarrow>
    (let X = sint (r_x rect) + sint (fst delta); Y = sint (r_y rect) + sint (snd delta);
         edge = (X + sint (r_w rect)) * uint bpp
     in 0 \<le> X \<and> 0 \<le> Y \<and> edge \<le> uint (image_pitch img) \<and>
        (Y + sint (r_h rect) - 1) * uint (image_pitch img) + edge \<le> uint (image_limit img))"

definition rect_start :: "u64 \<Rightarrow> blit_image \<Rightarrow> u32 \<times> u32 \<Rightarrow> u8 \<Rightarrow> bounds \<Rightarrow> nat" where
  "rect_start base img delta bpp rect =
    unat base + nat (sint (r_y rect) + sint (snd delta)) * unat (image_pitch img) +
      nat (sint (r_x rect) + sint (fst delta)) * unat bpp"

definition copy_rect :: "u64 \<Rightarrow> blit_image \<Rightarrow> u32 \<times> u32 \<Rightarrow> u64 \<Rightarrow> blit_image \<Rightarrow> u32 \<times> u32 \<Rightarrow> u8 \<Rightarrow> bounds \<Rightarrow> (u64 \<Rightarrow> u8) \<Rightarrow> (u64 \<Rightarrow> u8)" where
  "copy_rect dst_base di dd src_base si sd bpp rect =
    copy_rows (rect_start dst_base di dd bpp rect) (unat (image_pitch di)) (rect_start src_base si sd bpp rect)
      (unat (image_pitch si)) (nat (sint (r_w rect)) * unat bpp) (nat (sint (r_h rect)))"

lemma sint_pos_16:
  assumes "\<not> (w :: i16) \<le>s 0"
  shows "0 < sint w" and "nat (sint w) = unat w" and "int (unat w) = sint w"
proof -
  show p: "0 < sint w" using assms by (simp add: word_sle_eq)
  then have "uint w = sint w"
    using uint_sint [of w] sint_lt [of w] by (simp add: take_bit_int_eq_self)
  then show "int (unat w) = sint w" by simp
  then show "nat (sint w) = unat w" by (metis nat_int)
qed

lemma uint_product:
  assumes "0 \<le> (sint (a :: i16) + sint (b :: u32)) * uint (p :: u32)" and "(sint a + sint b) * uint p < 2 ^ 32"
  shows "uint ((scast a + b) * p) = (sint a + sint b) * uint p"
proof -
  have "(scast a + b) * p = word_of_int ((sint a + sint b) * uint p)" by simp
  then show ?thesis using assms by (simp add: word_of_int_inverse take_bit_int_eq_self)
qed

lemma sint_product:
  assumes "0 \<le> (sint (a :: i16) + sint (b :: u32)) * uint (p :: u8)" and "(sint a + sint b) * uint p < 2 ^ 31"
  shows "sint ((scast a + b) * (ucast p :: u32)) = (sint a + sint b) * uint p"
proof -
  have "(scast a + b) * (ucast p :: u32) = word_of_int ((sint a + sint b) * uint p)" by simp
  then show ?thesis using assms
    by (simp only: sint_sbintrunc') (simp add: signed_take_bit_int_eq_self)
qed

lemma blit_addr_in:
  assumes "mid_range base" and "rect_in img delta bpp rect" and "unat (image_limit img) < 2 ^ 31"
    and "\<not> r_w rect \<le>s 0" and "\<not> r_h rect \<le>s 0"
  shows "unat (blit_addr base img delta (ucast bpp) rect) = rect_start base img delta bpp rect"
    and "rect_start base img delta bpp rect + (nat (sint (r_h rect)) - 1) * unat (image_pitch img) +
      nat (sint (r_w rect)) * unat bpp \<le> unat base + unat (image_limit img)"
    and "nat (sint (r_w rect)) * unat bpp \<le> unat (image_pitch img)"
proof -
  let ?X = "sint (r_x rect) + sint (fst delta)" and ?Y = "sint (r_y rect) + sint (snd delta)"
  let ?w = "sint (r_w rect)" and ?h = "sint (r_h rect)" and ?b = "uint bpp" and ?p = "uint (image_pitch img)"
  note w = sint_pos_16 [OF assms(4)] and h = sint_pos_16 [OF assms(5)]
  have in': "0 \<le> ?X" "0 \<le> ?Y" "(?X + ?w) * ?b \<le> ?p" "(?Y + ?h - 1) * ?p + (?X + ?w) * ?b \<le> uint (image_limit img)"
    using assms(2) by (simp_all add: rect_in_def Let_def)
  have lim: "uint (image_limit img) < 2 ^ 31" proof -
    have "int (unat (image_limit img)) < int (2 ^ 31)" using assms(3) by (simp only: of_nat_less_iff)
    then show ?thesis by simp
  qed
  have parts: "0 \<le> ?Y * ?p" "0 \<le> ?X * ?b" "0 \<le> (?h - 1) * ?p" "0 \<le> ?w * ?b" using in'(1,2) w h by simp_all
  have sum: "?Y * ?p + ?X * ?b + (?h - 1) * ?p + ?w * ?b \<le> uint (image_limit img)"
    using in'(4) by (simp add: algebra_simps)
  have row: "?w * ?b \<le> ?p" using in'(3) parts(2) by (simp add: algebra_simps)
  have "uint (blit_addr base img delta (ucast bpp) rect) = uint base + ?Y * ?p + ?X * ?b"
    unfolding blit_addr_sum [OF assms(1)]
    using uint_product [of "r_y rect" "snd delta" "image_pitch img"] sint_product [of "r_x rect" "fst delta" bpp] parts sum lim
    by simp
  then have "int (unat (blit_addr base img delta (ucast bpp) rect)) = int (rect_start base img delta bpp rect)"
    using in' by (simp add: rect_start_def)
  then show "unat (blit_addr base img delta (ucast bpp) rect) = rect_start base img delta bpp rect" by (simp only: of_nat_eq_iff)
  have "int (rect_start base img delta bpp rect + (nat ?h - 1) * unat (image_pitch img) + nat ?w * unat bpp)
      \<le> int (unat base + unat (image_limit img))"
    using in' w h sum by (simp add: rect_start_def of_nat_diff nat_diff_distrib)
  then show "rect_start base img delta bpp rect + (nat ?h - 1) * unat (image_pitch img) + nat ?w * unat bpp
      \<le> unat base + unat (image_limit img)" by (simp only: of_nat_le_iff)
  have "int (nat ?w * unat bpp) \<le> int (unat (image_pitch img))" using row w by simp
  then show "nat ?w * unat bpp \<le> unat (image_pitch img)" by (simp only: of_nat_le_iff)
qed

lemma blit_rect_copies:
  assumes "mid_range dst_base" and "mid_range src_base"
    and "unat (image_limit di) < 2 ^ 31" and "unat (image_limit si) < 2 ^ 31"
    and "unat src_base + unat (image_limit si) \<le> unat dst_base \<or> unat dst_base + unat (image_limit di) \<le> unat src_base"
    and "0 < bpp" and "rect_in di dd bpp rect" and "rect_in si sd bpp rect"
    and "\<not> r_w rect \<le>s 0" and "\<not> r_h rect \<le>s 0"
  shows "blit_rect dst_base di dd src_base si sd bpp rect m = copy_rect dst_base di dd src_base si sd bpp rect m"
proof -
  note w = sint_pos_16 [OF assms(9)] and h = sint_pos_16 [OF assms(10)]
  note d = blit_addr_in [OF assms(1,7,3,9,10)] and s = blit_addr_in [OF assms(2,8,4,9,10)]
  let ?l = "unat (r_w rect) * unat bpp"
  have lim: "unat (dst_base + ucast (image_limit di)) = unat dst_base + unat (image_limit di)"
      "unat (src_base + ucast (image_limit si)) = unat src_base + unat (image_limit si)"
    using assms(1-4) by (subst unat_u64_add; simp)+
  have "0 < unat (r_w rect)" using w by simp
  moreover have "0 < unat bpp" using assms(6) by (simp add: word_less_nat_alt)
  ultimately have "0 < ?l" by simp
  have at: "rect_start dst_base di dd bpp rect \<ge> unat dst_base" "rect_start src_base si sd bpp rect \<ge> unat src_base"
    by (simp_all add: rect_start_def)
  have l: "?l \<le> unat (image_pitch di)" "?l < 2 ^ 32"
    using d(3) w(2) unat_u32_bound [of "image_pitch di"] by simp_all
  show ?thesis
    unfolding blit_rect_def copy_rect_def d(1) [symmetric] s(1) [symmetric] w(2) h(2)
    using assms(9,10) d(2) s(2) at
    by (simp only: simp_thms if_False)
      (rule blit_rows_copy [OF \<open>0 < ?l\<close> l], use assms(1-5) in \<open>simp_all add: lim rows_within_def d(1) s(1) w(2) h(2)\<close>)
qed

lemma fold_blit_outside:
  assumes "mid_range dst_base" and "unat a < unat dst_base \<or> unat dst_base + unat (image_limit di) \<le> unat a"
  shows "fold (blit_rect dst_base di dd src_base si sd bpp) rs m a = m a"
  by (induction rs arbitrary: m) (simp_all add: blit_rect_outside [OF assms])

lemma blit_rows_first_out:
  assumes "addr1 < fst dst \<or> addr1 + of_nat l > snd dst \<or> addr2 < fst src \<or> addr2 + of_nat l > snd src"
  shows "blit_rows dst src pitches l n addr1 addr2 m = m"
  using assms by (induction n) simp_all

text \<open>C21: The CPU blit never writes outside its destination: whatever the region, the shifts, the pitches, the size of a
  pixel and the source, negative and oversized rectangles included, every byte outside the destination image,
  which lies anywhere but in the lowest or highest 16 GB of the address space, keeps its value.\<close>

theorem genericBlitCopy_stays_inside:
  assumes "mid_range dst_base" and "unat a < unat dst_base \<or> unat dst_base + unat (image_limit di) \<le> unat a"
  shows "snd (genericBlitCopy dst_base (Some di) dd src_base si sd rgn bpp m) a = m a"
  using fold_blit_outside [OF assms] by (simp add: genericBlitCopy_def split: option.split)

lemma genericBlitCopy_stays_inside_witness:
  "snd (genericBlitCopy 0xFFFFFF8000000000 (Some \<lparr>image_pitch = 64, image_limit = 640\<rparr>) (Some (- 3, 7)) 0x7000000000
     (Some \<lparr>image_pitch = 128, image_limit = 1000\<rparr>) (Some (0, 0)) (Some (set_region 2 2 30 30)) 4 (\<lambda>_. 9)) 0xFFFFFF8000000280 = 9"
  by (rule trans [OF genericBlitCopy_stays_inside]) simp_all

text \<open>C22: Where every rectangle of the region lies in both images, the CPU blit is the copy pixel by pixel: byte
  \<open>i\<close> of row \<open>j\<close> of each rectangle arrives at the place the destination's pitch and shift give it, from the place the
  source's pitch and shift give it, rectangle after rectangle, and nothing else changes.  The images are
  disjoint, below 2 GB and not at the ends of the address space.\<close>

theorem genericBlitCopy_copies:
  assumes "mid_range dst_base" and "mid_range src_base"
    and "unat (image_limit di) < 2 ^ 31" and "unat (image_limit si) < 2 ^ 31"
    and "unat src_base + unat (image_limit si) \<le> unat dst_base \<or> unat dst_base + unat (image_limit di) \<le> unat src_base"
    and "0 < bpp"
    and "\<forall>rect \<in> set (rects rgn). \<not> r_w rect \<le>s 0 \<and> \<not> r_h rect \<le>s 0 \<and> rect_in di dd bpp rect \<and> rect_in si sd bpp rect"
  shows "genericBlitCopy dst_base (Some di) (Some dd) src_base (Some si) (Some sd) (Some rgn) bpp m =
    (kIOReturnSuccess, fold (copy_rect dst_base di dd src_base si sd bpp) (rects rgn) m)"
proof -
  have "fold (blit_rect dst_base di dd src_base si sd bpp) rs m = fold (copy_rect dst_base di dd src_base si sd bpp) rs m"
    if "set rs \<subseteq> set (rects rgn)" for rs
    using that
  proof (induction rs arbitrary: m)
    case (Cons r rs)
    then have "blit_rect dst_base di dd src_base si sd bpp r m = copy_rect dst_base di dd src_base si sd bpp r m"
      using assms(7) by (intro blit_rect_copies [OF assms(1-6)]) auto
    with Cons show ?case by simp
  qed simp
  moreover have "dst_base \<noteq> 0" "src_base \<noteq> 0" using assms(1,2) by auto
  ultimately show ?thesis by (simp add: genericBlitCopy_def)
qed

lemma genericBlitCopy_copies_witness:
  "genericBlitCopy 0xFFFFFF8000000000 (Some \<lparr>image_pitch = 64, image_limit = 640\<rparr>) (Some (1, 2)) 0x7000000000
     (Some \<lparr>image_pitch = 128, image_limit = 2000\<rparr>) (Some (0, - 1)) (Some (set_region 2 3 4 5)) 4 (\<lambda>a. ucast a) =
   (kIOReturnSuccess, copy_rows 0xFFFFFF800000014C 64 0x7000000108 128 16 5 (\<lambda>a. ucast a))"
proof -
  have "rects (set_region 2 3 4 5) = [\<lparr>r_x = 2, r_y = 3, r_w = 4, r_h = 5\<rparr>]" by (simp add: set_region_def Let_def)
  moreover have "rect_in \<lparr>image_pitch = 64, image_limit = 640\<rparr> (1, 2) 4 \<lparr>r_x = 2, r_y = 3, r_w = 4, r_h = 5\<rparr>"
      "rect_in \<lparr>image_pitch = 128, image_limit = 2000\<rparr> (0, - 1) 4 \<lparr>r_x = 2, r_y = 3, r_w = 4, r_h = 5\<rparr>"
      "\<not> (4 :: i16) \<le>s 0" "\<not> (5 :: i16) \<le>s 0"
    by code_simp+
  ultimately show ?thesis
    using genericBlitCopy_copies [of "0xFFFFFF8000000000" "0x7000000000" "\<lparr>image_pitch = 64, image_limit = 640\<rparr>"
        "\<lparr>image_pitch = 128, image_limit = 2000\<rparr>" 4 "set_region 2 3 4 5" "(1, 2)" "(0, - 1)" "\<lambda>a. ucast a"]
    by (simp add: copy_rect_def rect_start_def)
qed

text \<open>A first row above the image: the 32-bit product of its negative number and the pitch leads far beyond the end.\<close>

lemma blit_addr_above:
  assumes "mid_range base" and "- (2 ^ 31) \<le> (sint (r_y rect) + sint (snd delta)) * uint (image_pitch img)"
    and "(sint (r_y rect) + sint (snd delta)) * uint (image_pitch img) < 0"
    and "0 \<le> (sint (r_x rect) + sint (fst delta)) * uint (bpp :: u8)" and "(sint (r_x rect) + sint (fst delta)) * uint bpp < 2 ^ 31"
  shows "unat base + 2 ^ 31 \<le> unat (blit_addr base img delta (ucast bpp) rect)"
    and "unat (blit_addr base img delta (ucast bpp) rect) \<le> unat base + 2 ^ 33"
proof -
  let ?p = "(sint (r_y rect) + sint (snd delta)) * uint (image_pitch img)"
  have "(int_of (r_y rect) + snd delta) * image_pitch img = word_of_int (2 ^ 32 + ?p)" by simp
  then have "uint ((int_of (r_y rect) + snd delta) * image_pitch img) = take_bit LENGTH(32) (2 ^ 32 + ?p)"
    by (simp only: uint_word_of_int take_bit_eq_mod)
  also have "\<dots> = 2 ^ 32 + ?p" using assms(2,3) by (intro take_bit_int_eq_self) simp_all
  finally have "uint ((int_of (r_y rect) + snd delta) * image_pitch img) = 2 ^ 32 + ?p" .
  then have "uint (blit_addr base img delta (ucast bpp) rect) = uint base + (2 ^ 32 + ?p) + (sint (r_x rect) + sint (fst delta)) * uint bpp"
    unfolding blit_addr_sum [OF assms(1)] using sint_product [OF assms(4,5)] by simp
  then have "int (unat base + 2 ^ 31) \<le> int (unat (blit_addr base img delta (ucast bpp) rect))"
      "int (unat (blit_addr base img delta (ucast bpp) rect)) \<le> int (unat base + 2 ^ 33)"
    using assms(2-5) by simp_all
  then show "unat base + 2 ^ 31 \<le> unat (blit_addr base img delta (ucast bpp) rect)"
    "unat (blit_addr base img delta (ucast bpp) rect) \<le> unat base + 2 ^ 33" by (simp_all only: of_nat_le_iff)
qed

text \<open>C26: A rectangle that begins above the destination is not copied at all, not even the rows of it that lie in the
  destination: the loop skips the first row without moving on to the next, so it tests the same row again.\<close>

theorem genericBlitCopy_drops_clipped:
  assumes "mid_range dst_base" and "src_base \<noteq> 0" and "unat (image_limit di) < 2 ^ 31"
    and "\<forall>rect \<in> set (rects rgn).
       - (2 ^ 31) \<le> (sint (r_y rect) + sint (snd dd)) * uint (image_pitch di) \<and>
       (sint (r_y rect) + sint (snd dd)) * uint (image_pitch di) < 0 \<and>
       0 \<le> (sint (r_x rect) + sint (fst dd)) * uint bpp \<and> (sint (r_x rect) + sint (fst dd)) * uint bpp < 2 ^ 31"
  shows "genericBlitCopy dst_base (Some di) (Some dd) src_base (Some si) (Some sd) (Some rgn) bpp m = (kIOReturnSuccess, m)"
proof -
  have skip: "blit_rect dst_base di dd src_base si sd bpp rect m' = m'" if "rect \<in> set (rects rgn)" for rect m'
  proof -
    let ?a = "blit_addr dst_base di dd (ucast bpp) rect" and ?l = "unat (r_w rect) * unat bpp"
    have a: "unat dst_base + 2 ^ 31 \<le> unat ?a" "unat ?a \<le> unat dst_base + 2 ^ 33"
      using blit_addr_above [OF assms(1)] assms(4) that by blast+
    have "unat (r_w rect) < 2 ^ 16" "unat bpp < 2 ^ 8"
      using unsigned_less [of "r_w rect"] unsigned_less [of bpp] by simp_all
    then have "?l < 2 ^ 24" using mult_strict_mono' [of "unat (r_w rect)" "2 ^ 16" "unat bpp" "2 ^ 8"] by simp
    then have l: "unat (of_nat ?l :: u64) = ?l" by (intro unat_of_nat_u64) simp
    have "unat (?a + of_nat ?l) = unat ?a + ?l"
      using a assms(1) \<open>?l < 2 ^ 24\<close> by (subst unat_u64_add) (simp_all only: l, simp)
    moreover have "unat (dst_base + ucast (image_limit di)) = unat dst_base + unat (image_limit di)"
      using assms(1,3) by (subst unat_u64_add; simp)
    ultimately have "?a + of_nat ?l > dst_base + ucast (image_limit di)"
      using a assms(3) by (simp only: word_less_nat_alt)
    then show ?thesis by (simp add: blit_rect_def blit_rows_first_out)
  qed
  then have "fold (blit_rect dst_base di dd src_base si sd bpp) rs m = m" if "set rs \<subseteq> set (rects rgn)" for rs
    using that by (induction rs) simp_all
  moreover have "dst_base \<noteq> 0" using assms(1) by auto
  ultimately show ?thesis using assms(2) by (simp add: genericBlitCopy_def)
qed

lemma genericBlitCopy_drops_clipped_witness:
  "genericBlitCopy 0xFFFFFF8000000000 (Some \<lparr>image_pitch = 64, image_limit = 640\<rparr>) (Some (0, - 1)) 0x7000000000
     (Some \<lparr>image_pitch = 64, image_limit = 640\<rparr>) (Some (0, 0)) (Some (set_region 0 0 4 5)) 4 (\<lambda>a. ucast a) =
   (kIOReturnSuccess, \<lambda>a. ucast a)"
  by (rule genericBlitCopy_drops_clipped) (simp_all add: set_region_def Let_def)

section \<open>Requests that do not fit\<close>

lemma SVGA3D_refused:
  assumes "65528 < sz" and "sz < 2 ^ 63"
  shows "SVGA3D_FIFOReserve h cmd sz d = Some (None, d)"
  using assms by (simp add: SVGA3D_FIFOReserve_def FIFOReserve_def size_add_def Let_def)

lemma commit_refused: "commit_cmd (begin_cmd (Some (None, d)) init result) fill = Some (False, d)"
  by (simp add: commit_cmd_def begin_cmd_def)

lemma issue_refused:
  assumes "bHaveSVGA3D s" and "m_framebuffer s = Some b" and "f (dev b) = Some (False, dev b)"
  shows "issue f s = Some (kIOReturnSuccess, s)"
  using assms by (simp add: issue_def with_device_def)

text \<open>The counts of rectangles, states and primitives are \<^verbatim>\<open>uint32_t\<close> or \<^verbatim>\<open>size_t\<close> values of such.\<close>

fun request_count :: "accel_request \<Rightarrow> nat" where
  "request_count (Dma_2d sid transfer rgn extra) = length (rects_of rgn)"
| "request_count (Copy_surface a b rgn extra) = length (rects_of rgn)"
| "request_count (Readback_present rgn) = length (rects_of rgn)"
| "request_count (Clear_targets cid fl rgn color depth stencil) = length (rects_of rgn)"
| "request_count (Draw cid n m decls ranges) = n + m"
| "request_count (Texture_state cid n states) = n"
| "request_count (Render_state cid n states) = n"
| "request_count (Surface_to_screen sid scr src rgn) = length (rects rgn)"
| "request_count _ = 0"

lemma counted_size:
  assumes "n < 2 ^ 32" and "k \<le> 64" and "per \<le> 64"
  shows "size_add k (size_mult per n) = k + per * n" and "k + per * n < 2 ^ 63"
proof -
  have "per * n \<le> 64 * 2 ^ 32" using assms(1,3) by (intro mult_le_mono) simp_all
  then have "k + per * n < 2 ^ 62" using assms(2) by simp
  then show "size_add k (size_mult per n) = k + per * n" "k + per * n < 2 ^ 63" by (simp_all add: size_small)
qed

lemma oversized_dma: "65528 < 28 + 36 * n \<Longrightarrow> n < 2 ^ 32 \<Longrightarrow> commit_cmd (BeginSurfaceDMA h g i transfer n d) fill = Some (False, d)"
  by (simp add: BeginSurfaceDMA_def counted_size SVGA3D_refused commit_refused)

lemma oversized_copy: "65528 < 24 + 36 * n \<Longrightarrow> n < 2 ^ 32 \<Longrightarrow> commit_cmd (BeginSurfaceCopy h a b n d) fill = Some (False, d)"
  by (simp add: BeginSurfaceCopy_def counted_size SVGA3D_refused commit_refused)

lemma oversized_clear:
  "65528 < 20 + 16 * n \<Longrightarrow> n < 2 ^ 32 \<Longrightarrow> commit_cmd (BeginClear h cid fl color depth stencil n d) fill = Some (False, d)"
  by (simp add: BeginClear_def counted_size SVGA3D_refused commit_refused)

lemma oversized_readback:
  assumes "65528 < 16 * n" and "n < 2 ^ 32"
  shows "commit_cmd (BeginPresentReadback h n d) fill = Some (False, d)"
proof -
  have "size_mult 16 n = 16 * n" using assms(2) by (simp add: size_mult_def)
  then show ?thesis using assms by (simp add: BeginPresentReadback_def SVGA3D_refused commit_refused)
qed

lemma oversized_blit:
  "65528 < 48 + 16 * n \<Longrightarrow> n < 2 ^ 32 \<Longrightarrow> commit_cmd (BeginBlitSurfaceToScreen h i sr scr dr n d) fill = Some (False, d)"
  by (simp add: BeginBlitSurfaceToScreen_def counted_size SVGA3D_refused commit_refused)

lemma oversized_texture:
  "65528 < 4 + 12 * n \<Longrightarrow> n < 2 ^ 32 \<Longrightarrow> commit_cmd (BeginSetTextureState h cid n d) fill = Some (False, d)"
  by (simp add: BeginSetTextureState_def counted_size SVGA3D_refused commit_refused)

lemma oversized_render:
  "65528 < 4 + 8 * n \<Longrightarrow> n < 2 ^ 32 \<Longrightarrow> commit_cmd (BeginSetRenderState h cid n d) fill = Some (False, d)"
  by (simp add: BeginSetRenderState_def counted_size SVGA3D_refused commit_refused)

lemma oversized_draw:
  assumes "65528 < 12 + 36 * n + 28 * m" and "n + m < 2 ^ 32"
  shows "commit_cmd (BeginDrawPrimitives h cid n m d) fill = Some (False, d)"
proof -
  have "size_add (size_add 12 (size_mult 36 n)) (size_mult 28 m) = 12 + 36 * n + 28 * m" "12 + 36 * n + 28 * m < 2 ^ 63"
    using assms(2) counted_size [of n 12 36] by (simp_all add: size_small)
  with assms(1) show ?thesis by (simp add: BeginDrawPrimitives_def SVGA3D_refused commit_refused)
qed

lemmas request_lengths = length_concat o_def copy_box_dwords_def bounds_dwords_def sum_list_triv convert_rect_dwords

text \<open>C23: A request whose command is larger than the 64K a reservation allows, for a region of too many rectangles or
  for too many vertices or states, is dropped without a trace, and reported as a success.\<close>

theorem oversized_request_dropped:
  assumes "bHaveSVGA3D s" and "bHaveScreenObject s" and "m_framebuffer s = Some b"
    and "request_commands r = [c]" and "16384 < length (encode c)" and "request_count r < 2 ^ 32" and "request_valid r"
  shows "serve_request h r s = Some (kIOReturnSuccess, s)"
proof -
  have big: "16384 < length (encode (hd (request_commands r)))" using assms(4,5) by simp
  note refused = issue_refused [OF assms(1,3)]
  show ?thesis
  proof (cases r)
    case (Dma_2d sid transfer rgn extra)
    have "65528 < 28 + 36 * length (rects_of rgn)" "length (rects_of rgn) < 2 ^ 32"
      using big assms(6) by (simp_all add: Dma_2d request_lengths guest_image_of_def)
    from oversized_dma [OF this] show ?thesis using assms(1,3)
      by (cases rgn) (simp_all add: Dma_2d surfaceDMA2D_def with_device_def insert_fence_if_def)
  next
    case (Copy_surface a b' rgn extra)
    have "65528 < 24 + 36 * length (rects_of rgn)" "length (rects_of rgn) < 2 ^ 32"
      using big assms(6) by (simp_all add: Copy_surface request_lengths)
    from oversized_copy [OF this] show ?thesis by (cases rgn) (simp_all add: Copy_surface surfaceCopy_def refused)
  next
    case (Readback_present rgn)
    have "65528 < 16 * length (rects_of rgn)" "length (rects_of rgn) < 2 ^ 32"
      using big assms(6) by (simp_all add: Readback_present request_lengths)
    from oversized_readback [OF this] show ?thesis by (cases rgn) (simp_all add: Readback_present surfacePresentReadback_def refused)
  next
    case (Clear_targets cid fl rgn color depth stencil)
    have "65528 < 20 + 16 * length (rects_of rgn)" "length (rects_of rgn) < 2 ^ 32"
      using big assms(6) by (simp_all add: Clear_targets request_lengths)
    from oversized_clear [OF this] show ?thesis by (cases rgn) (simp_all add: Clear_targets clear_targets_def refused)
  next
    case (Draw cid n m decls ranges)
    have "65528 < 12 + 36 * n + 28 * m" "n + m < 2 ^ 32" using big assms(6,7) by (simp_all add: Draw)
    from oversized_draw [OF this] show ?thesis by (simp add: Draw drawPrimitives_def refused)
  next
    case (Texture_state cid n states)
    have "65528 < 4 + 12 * n" "n < 2 ^ 32" using big assms(6,7) by (simp_all add: Texture_state)
    from oversized_texture [OF this] show ?thesis by (simp add: Texture_state setTextureState_def refused)
  next
    case (Render_state cid n states)
    have "65528 < 4 + 8 * n" "n < 2 ^ 32" using big assms(6,7) by (simp_all add: Render_state)
    from oversized_render [OF this] show ?thesis by (simp add: Render_state setRenderState_def refused)
  next
    case (Surface_to_screen sid scr src rgn)
    have "65528 < 48 + 16 * length (rects rgn)" "length (rects rgn) < 2 ^ 32"
      using big assms(6) by (simp_all add: Surface_to_screen request_lengths Let_def)
    from oversized_blit [OF this] show ?thesis
      using assms(2,3) by (simp add: Surface_to_screen blitSurfaceToScreen_def with_device_def Let_def)
  qed (use big in simp_all)
qed

lemma oversized_request_dropped_witness:
  "serve_request drain_host (Texture_state 3 5462 (replicate 16386 0)) accel_sample = Some (kIOReturnSuccess, accel_sample)"
  by (rule oversized_request_dropped [OF accel_sample_ready(2,3,1), where c = "Cmd_begin (Set_texture_state 3 5462 (replicate 16386 0))"])
    simp_all

end
