(* ===== verification/GuestMemory.thy ===== *)
theory GuestMemory
  imports AcceleratorProofs
begin

text \<open>
  Guest memory regions: \<open>createGMR\<close>, \<open>createGMR2\<close> and their counterparts of \<^verbatim>\<open>AC/VMsvga2Accel.cpp\<close>, which tell
  the device the physical pages of a memory descriptor, and the transfer buffers of
  \<^verbatim>\<open>AC/VendorTransferBuffer.cpp\<close>, which hold a region and its number.

  Memory descriptors are IOKit's: what \<^verbatim>\<open>getPhysicalSegment\<close> answers is a parameter.  A page has 4096 bytes.
\<close>

section \<open>Operations\<close>

type_synonym segments = "u64 \<Rightarrow> u64 \<times> u64"

text \<open>
  \<open>md_segment offset\<close>: the physical address at \<open>offset\<close>, 0 at the end, and the bytes from there on that are
  contiguous.  \<open>md_prepare\<close> is what \<^verbatim>\<open>prepare\<close> answers, \<open>md_wired\<close> how often it has succeeded without a
  \<^verbatim>\<open>complete\<close> since.
\<close>

record memory_descriptor =
  md_segment :: segments
  md_length :: u64
  md_prepare :: ioreturn
  md_wired :: nat

text \<open>The memory for the table: \<open>helper_alloc\<close> its physical segments by its size in pages, if there is room for it.\<close>

record gmr_helper =
  helper_alloc :: "nat \<Rightarrow> segments option"
  helper_prepare :: ioreturn

abbreviation (input) SVGA_CAP_GMR2 :: u32 where "SVGA_CAP_GMR2 \<equiv> 0x00400000"

abbreviation (input) dpp :: nat where "dpp \<equiv> 511"
abbreviation (input) descriptors_of_page :: nat where "descriptors_of_page \<equiv> 512"

text \<open>The first pass: how many segments there are, unless a page number has more than 32 bits.\<close>

partial_function (option) count_segments :: "segments \<Rightarrow> u64 \<Rightarrow> nat \<Rightarrow> (ioreturn + nat) option" where
  "count_segments seg offset n =
    (let (phys_addr, len) = seg offset
     in if phys_addr = 0 then Some (Inr n)
        else if drop_bit 44 phys_addr \<noteq> 0 then Some (Inl kIOReturnUnsupported)
        else count_segments seg (offset + len) (n + 1))"

text \<open>
  The table of descriptors \<open>(ppn, numPages)\<close>, all zero in the beginning, and the variables of the second pass;
  \<open>helper_ptr\<close> is an index of the table.
\<close>

record gmr_fill =
  gmr_table :: "(u32 \<times> u32) list"
  helper_ptr :: nat
  in_page_count :: nat
  next_page :: nat
  helper_ppn :: u32
  helper_length :: u64

definition page_number :: "u64 \<Rightarrow> u32" where
  "page_number phys_addr = ucast (drop_bit 12 phys_addr)"

definition whole_pages :: "u64 \<Rightarrow> u64 \<Rightarrow> u64" where
  "whole_pages phys_addr len = (len + (phys_addr AND 4095) + 4095) AND - 4096"

text \<open>The link to the next page of the table, after a page is full; \<open>None\<close> when there is no next page.\<close>

definition next_helper_page :: "segments \<Rightarrow> nat \<Rightarrow> gmr_fill \<Rightarrow> gmr_fill option" where
  "next_helper_page hseg num_pages t =
    (let t' = (if 0 <s helper_length t then Some t
               else if next_page t < num_pages
               then let (phys, len) = hseg (push_bit 12 (of_nat (next_page t)))
                 in Some (t\<lparr>helper_ppn := page_number phys, helper_length := len\<rparr>)
               else None)
     in case t' of None \<Rightarrow> None
        | Some t \<Rightarrow> Some (t\<lparr>gmr_table := (gmr_table t)[helper_ptr t := (helper_ppn t, snd (gmr_table t ! helper_ptr t))],
            helper_ppn := helper_ppn t + 1, helper_length := helper_length t - 4096,
            helper_ptr := next_page t * descriptors_of_page, next_page := next_page t + 1, in_page_count := dpp\<rparr>))"

text \<open>The second pass.  A store beyond the table is a fault, \<open>None\<close>.\<close>

partial_function (option) fill_descriptors :: "segments \<Rightarrow> segments \<Rightarrow> nat \<Rightarrow> u64 \<Rightarrow> gmr_fill \<Rightarrow> gmr_fill option" where
  "fill_descriptors seg hseg num_pages offset t =
    (let (phys_addr, len) = seg offset
     in if phys_addr = 0 then Some t
        else if length (gmr_table t) \<le> helper_ptr t then None
        else let t = t\<lparr>gmr_table := (gmr_table t)[helper_ptr t := (page_number phys_addr, ucast (drop_bit 12 (whole_pages phys_addr len)))],
                       helper_ptr := helper_ptr t + 1, in_page_count := in_page_count t - 1\<rparr>
          in if in_page_count t \<noteq> 0 then fill_descriptors seg hseg num_pages (offset + len) t
             else case next_helper_page hseg num_pages t of
                 None \<Rightarrow> Some t
               | Some t \<Rightarrow> fill_descriptors seg hseg num_pages (offset + len) t)"

definition fill_start :: "segments \<Rightarrow> nat \<Rightarrow> gmr_fill" where
  "fill_start hseg num_pages =
    (let (phys, len) = hseg 0
     in \<lparr>gmr_table = replicate (num_pages * descriptors_of_page) (0, 0), helper_ptr = 0, in_page_count = dpp, next_page = 1,
         helper_ppn = page_number phys + 1, helper_length = len - 4096\<rparr>)"

text \<open>
  \<open>createGMR\<close> also gives the table as it is when the device reads it, at the write to the descriptor
  register; nothing is read later.
\<close>

definition createGMR :: "host \<Rightarrow> gmr_helper \<Rightarrow> u32 \<Rightarrow> memory_descriptor option \<Rightarrow> accel \<Rightarrow>
    ((ioreturn \<times> (u32 \<times> u32) list option) \<times> accel) option" where
  "createGMR h hm gmrId md s =
    (case (md, m_framebuffer s) of
       (None, _) \<Rightarrow> Some ((kIOReturnBadArgument, None), s)
     | (Some md, None) \<Rightarrow> Some ((kIOReturnNoDevice, None), s)
     | (Some md, Some b) \<Rightarrow>
         if \<not> HasCapability SVGA_CAP_GMR (dev b) then Some ((kIOReturnUnsupported, None), s)
         else do {
           counted \<leftarrow> count_segments (md_segment md) 0 0;
           case counted of
             Inl rc \<Rightarrow> Some ((rc, None), s)
           | Inr num_physical_ranges \<Rightarrow>
               if num_physical_ranges = 0 then Some ((kIOReturnBadArgument, None), s)
               else let num_pages = (num_physical_ranges + (dpp - 1)) div dpp
               in if num_physical_ranges + num_pages > unat (m_max_gmr_descriptor_length (dev b))
               then Some ((kIOReturnNoResources, None), s)
               else case helper_alloc hm num_pages of
                 None \<Rightarrow> Some ((kIOReturnNoResources, None), s)
               | Some hseg \<Rightarrow>
                   if helper_prepare hm \<noteq> kIOReturnSuccess then Some ((helper_prepare hm, None), s)
                   else do {
                     t \<leftarrow> fill_descriptors (md_segment md) hseg num_pages 0 (fill_start hseg num_pages);
                     (_, s) \<leftarrow> with_device (\<lambda>d. Some (defineGMR h gmrId (page_number (fst (hseg 0))) d)) s;
                     Some ((kIOReturnSuccess, Some (gmr_table t)), s)
                   }
         })"

text \<open>The page list of \<open>createGMR2\<close>: \<open>room\<close> entries are left; a store beyond the list is a fault.\<close>

fun store_pages :: "nat \<Rightarrow> u64 \<Rightarrow> nat \<Rightarrow> (nat \<times> u32 list) option" where
  "store_pages room ppn 0 = Some (room, [])"
| "store_pages 0 ppn (Suc n) = None"
| "store_pages (Suc room) ppn (Suc n) = do {
     (room, ps) \<leftarrow> store_pages room (ppn + 1) n;
     Some (room, ucast ppn # ps)
   }"

partial_function (option) list_pages :: "segments \<Rightarrow> u64 \<Rightarrow> nat \<Rightarrow> u32 list \<Rightarrow> (ioreturn + u32 list) option" where
  "list_pages seg offset room ps =
    (let (phys_addr, len) = seg offset
     in if phys_addr = 0 then Some (Inr ps)
        else if drop_bit 44 phys_addr \<noteq> 0 then Some (Inl kIOReturnUnsupported)
        else do {
          (room, qs) \<leftarrow> store_pages room (drop_bit 12 phys_addr)
            (unat (drop_bit 12 (len + (phys_addr AND 4095) + 4095)));
          list_pages seg (offset + len) room (ps @ qs)
        })"

text \<open>Entries that no segment fills keep what the allocated memory held, \<open>garbage\<close>.\<close>

definition createGMR2 :: "host \<Rightarrow> bool \<Rightarrow> (nat \<Rightarrow> u32) \<Rightarrow> u32 \<Rightarrow> memory_descriptor option \<Rightarrow> accel \<Rightarrow> (ioreturn \<times> accel) option" where
  "createGMR2 h malloc_ok garbage gmrId md s =
    (case (md, m_framebuffer s) of
       (None, _) \<Rightarrow> Some (kIOReturnBadArgument, s)
     | (Some md, None) \<Rightarrow> Some (kIOReturnNoDevice, s)
     | (Some md, Some b) \<Rightarrow>
         if \<not> HasCapability SVGA_CAP_GMR2 (dev b) then Some (kIOReturnUnsupported, s)
         else let num_pages = unat (drop_bit 12 (md_length md + 4096 - 1))
         in if num_pages = 0 then Some (kIOReturnBadArgument, s)
         else if num_pages > unat (m_max_gmr_pages (dev b)) then Some (kIOReturnUnsupported, s)
         else if \<not> malloc_ok then Some (kIOReturnNoMemory, s)
         else do {
           listed \<leftarrow> list_pages (md_segment md) 0 num_pages [];
           case listed of
             Inl rc \<Rightarrow> Some (rc, s)
           | Inr ps \<Rightarrow> do {
               (ok, s) \<leftarrow> with_device (\<lambda>d. do {
                 (ok, d) \<leftarrow> defineGMR2 h gmrId (of_nat num_pages) d;
                 if \<not> ok then Some (False, d)
                 else do {
                   (_, d) \<leftarrow> remapGMR2 h gmrId 0 0 (of_nat num_pages)
                     (Some (ps @ map garbage [length ps..<num_pages])) (4 * num_pages) d;
                   Some (True, d)
                 }
               }) s;
               Some (if ok then kIOReturnSuccess else kIOReturnDeviceError, s)
             }
         })"

definition destroyGMR :: "host \<Rightarrow> u32 \<Rightarrow> accel \<Rightarrow> (ioreturn \<times> accel) option" where
  "destroyGMR h gmrId s =
    (case m_framebuffer s of None \<Rightarrow> Some (kIOReturnNoDevice, s)
     | Some b \<Rightarrow>
         if \<not> HasCapability SVGA_CAP_GMR (dev b) then Some (kIOReturnUnsupported, s)
         else do {
           (_, s) \<leftarrow> with_device (\<lambda>d. Some (defineGMR h gmrId 0 d)) s;
           Some (kIOReturnSuccess, s)
         })"

definition destroyGMR2 :: "host \<Rightarrow> u32 \<Rightarrow> accel \<Rightarrow> (ioreturn \<times> accel) option" where
  "destroyGMR2 h gmrId s =
    (case m_framebuffer s of None \<Rightarrow> Some (kIOReturnNoDevice, s)
     | Some b \<Rightarrow>
         if \<not> HasCapability SVGA_CAP_GMR2 (dev b) then Some (kIOReturnUnsupported, s)
         else do {
           (_, s) \<leftarrow> with_device (defineGMR2 h gmrId 0) s;
           Some (kIOReturnSuccess, s)
         })"

section \<open>Transfer buffers\<close>

text \<open>\<^verbatim>\<open>VendorTransferBuffer\<close>, without the fields that only the vendor's format gives a meaning.\<close>

record transfer_buffer =
  gart_ptr :: u32
  tb_md :: "memory_descriptor option"
  gmr_id :: u32
  tb_fence :: u32

definition isIdValid :: "u32 \<Rightarrow> bool" where
  "isIdValid i \<longleftrightarrow> 0 \<le>s i"

definition buffer_init :: "transfer_buffer \<Rightarrow> transfer_buffer" where
  "buffer_init t = t\<lparr>gmr_id := SVGA_ID_INVALID\<rparr>"

text \<open>\<open>provider\<close> is \<open>None\<close> for a null pointer.\<close>

definition buffer_prepare :: "host \<Rightarrow> gmr_helper \<Rightarrow> transfer_buffer \<Rightarrow> accel option \<Rightarrow> (ioreturn \<times> transfer_buffer \<times> accel option) option" where
  "buffer_prepare h hm t provider =
    (case provider of None \<Rightarrow> Some (kIOReturnNotReady, t, provider)
     | Some s \<Rightarrow>
         if isIdValid (gmr_id t) then Some (kIOReturnSuccess, t, provider)
         else case tb_md t of None \<Rightarrow> Some (kIOReturnNotReady, t, provider)
         | Some md \<Rightarrow>
             let (i, ids) = AllocGMRID (accel_ids s); t = t\<lparr>gmr_id := i\<rparr>; s = s\<lparr>accel_ids := ids\<rparr>
             in if \<not> isIdValid i then Some (kIOReturnNoResources, t, Some s)
             else if md_prepare md \<noteq> kIOReturnSuccess
             then Some (md_prepare md, t\<lparr>gmr_id := SVGA_ID_INVALID\<rparr>, Some (s\<lparr>accel_ids := FreeGMRID i (accel_ids s)\<rparr>))
             else do {
               ((rc, _), s) \<leftarrow> createGMR h hm i (Some md) s;
               if rc = kIOReturnSuccess
               then Some (kIOReturnSuccess, t\<lparr>tb_md := Some (md\<lparr>md_wired := md_wired md + 1\<rparr>)\<rparr>, Some s)
               else Some (rc, t\<lparr>gmr_id := SVGA_ID_INVALID\<rparr>, Some (s\<lparr>accel_ids := FreeGMRID i (accel_ids s)\<rparr>))
             })"

definition buffer_sync :: "host \<Rightarrow> transfer_buffer \<Rightarrow> accel option \<Rightarrow> (transfer_buffer \<times> accel option) option" where
  "buffer_sync h t provider =
    (case provider of None \<Rightarrow> Some (t, provider)
     | Some s \<Rightarrow>
         if tb_fence t = 0 then Some (t, provider)
         else do {
           (_, s) \<leftarrow> accel_SyncToFence h (tb_fence t) s;
           Some (t\<lparr>tb_fence := 0\<rparr>, Some s)
         })"

definition buffer_complete :: "host \<Rightarrow> transfer_buffer \<Rightarrow> accel option \<Rightarrow> (transfer_buffer \<times> accel option) option" where
  "buffer_complete h t provider = do {
     (t, provider) \<leftarrow> buffer_sync h t provider;
     case provider of None \<Rightarrow> Some (t, provider)
     | Some s \<Rightarrow>
         if \<not> isIdValid (gmr_id t) then Some (t, provider)
         else do {
           (_, s) \<leftarrow> destroyGMR h (gmr_id t) s;
           let t = t\<lparr>tb_md := map_option (\<lambda>md. md\<lparr>md_wired := md_wired md - 1\<rparr>) (tb_md t)\<rparr>;
           Some (t\<lparr>gmr_id := SVGA_ID_INVALID\<rparr>, Some (s\<lparr>accel_ids := FreeGMRID (gmr_id t) (accel_ids s)\<rparr>))
         }
   }"

definition buffer_discard :: "transfer_buffer \<Rightarrow> transfer_buffer" where
  "buffer_discard t = t\<lparr>tb_md := None\<rparr>"

section \<open>What the device reads\<close>

text \<open>
  The walk the documentation of the device describes: from descriptor \<open>i\<close> of page \<open>p\<close>, where \<open>rd\<close> is the
  physical memory by page, the device collects pages until a zero descriptor, follows links, and never crosses a page
  boundary by itself.  It looks at no more than the given number of descriptors.
\<close>

fun device_walk :: "(u32 \<Rightarrow> (u32 \<times> u32) list) \<Rightarrow> nat \<Rightarrow> u32 \<Rightarrow> nat \<Rightarrow> u32 list option" where
  "device_walk rd 0 p i = None"
| "device_walk rd (Suc n) p i =
    (if length (rd p) \<le> i then None
     else let (ppn, numPages) = rd p ! i
       in if numPages = 0 then if ppn = 0 then Some [] else device_walk rd n ppn 0
          else map_option (append (map (\<lambda>k. ppn + of_nat k) [0..<unat numPages])) (device_walk rd n p (i + 1)))"

text \<open>The memory that is described, by its segments, and its pages.\<close>

fun describes :: "segments \<Rightarrow> u64 \<Rightarrow> (u64 \<times> u64) list \<Rightarrow> bool" where
  "describes seg offset [] \<longleftrightarrow> fst (seg offset) = 0"
| "describes seg offset ((p, l) # ss) \<longleftrightarrow> seg offset = (p, l) \<and> describes seg (offset + l) ss"

definition segment_ok :: "u64 \<times> u64 \<Rightarrow> bool" where
  "segment_ok s \<longleftrightarrow> 4096 \<le> unat (fst s) \<and> 0 < unat (snd s) \<and> unat (fst s) + unat (snd s) + 4096 \<le> 2 ^ 44"

definition segment_pages :: "u64 \<times> u64 \<Rightarrow> u32 list" where
  "segment_pages s = map of_nat [unat (fst s) div 4096..<(unat (fst s) + unat (snd s) + 4095) div 4096]"

text \<open>The memory of the table: page \<open>k\<close> is at the physical page \<open>pp k\<close>, in runs of contiguous pages.\<close>

definition contiguous :: "(nat \<Rightarrow> u32) \<Rightarrow> nat \<Rightarrow> nat \<Rightarrow> bool" where
  "contiguous pp k c \<longleftrightarrow> (\<forall>i\<le>c. pp (k + i) = pp k + of_nat i)"

definition helper_ok :: "segments \<Rightarrow> nat \<Rightarrow> (nat \<Rightarrow> u32) \<Rightarrow> bool" where
  "helper_ok hseg n pp \<longleftrightarrow> (\<forall>k<n. pp k \<noteq> 0 \<and> (\<exists>c. k + c < n \<and>
     hseg (push_bit 12 (of_nat k)) = (push_bit 12 (ucast (pp k)), of_nat (4096 * (c + 1))) \<and> contiguous pp k c))"

definition descriptor_of :: "u64 \<times> u64 \<Rightarrow> u32 \<times> u32" where
  "descriptor_of s = (page_number (fst s), ucast (drop_bit 12 (whole_pages (fst s) (snd s))))"

lemma count_segments_describes:
  "describes seg offset ss \<Longrightarrow> \<forall>s \<in> set ss. segment_ok s \<Longrightarrow> count_segments seg offset n = Some (Inr (n + length ss))"
proof (induction ss arbitrary: offset n)
  case Nil
  then show ?case by (cases "seg offset") (simp add: count_segments.simps)
next
  case (Cons s ss)
  obtain p l where s: "s = (p, l)" by fastforce
  have p: "4096 \<le> unat p" "unat p < 2 ^ 44" using Cons.prems(2) by (auto simp: segment_ok_def s)
  then have "p \<noteq> 0" by auto
  moreover have "unat (drop_bit 44 p) = 0" unfolding unat_drop_bit_eq using p(2) by (simp add: drop_bit_eq_div)
  then have "drop_bit 44 p = 0" by (simp add: word_unat_eq_iff)
  ultimately have "count_segments seg offset n = count_segments seg (offset + l) (n + 1)"
    using Cons.prems(1) by (subst count_segments.simps) (simp add: s)
  with Cons.IH [of "offset + l" "n + 1"] Cons.prems s show ?case by simp
qed

text \<open>A descriptor stands for the pages of its segment.\<close>

lemma drop_page_mask: "drop_bit 12 (w AND - 4096 :: u64) = drop_bit 12 w"
proof -
  have m: "- 4096 = (NOT (mask 12) :: u64)" by (simp add: mask_eq_exp_minus_1 not_eq_complement)
  show ?thesis
    unfolding m
    by (rule bit_eqI) (auto simp: bit_drop_bit_eq bit_and_iff bit_not_iff bit_mask_iff possible_bit_word dest: bit_imp_le_length
        simp del: drop_bit_and)
qed

lemma unat_drop_12: "unat (drop_bit 12 w) = unat (w :: u64) div 4096"
  unfolding unat_drop_bit_eq by (simp add: drop_bit_eq_div)

lemma unat_low_12: "unat (w AND 4095 :: u64) = unat w mod 4096"
proof -
  have "w AND 4095 = take_bit 12 w" by (simp add: take_bit_eq_mask mask_numeral)
  then have "unat (w AND 4095) = take_bit 12 (unat w)" by (simp only: unsigned_take_bit_eq)
  then show ?thesis by (simp add: take_bit_eq_mod)
qed

lemma unat_page_number: "unat p < 2 ^ 44 \<Longrightarrow> unat (page_number p) = unat p div 4096"
  by (simp add: page_number_def unsigned_ucast_eq unat_drop_12 take_bit_nat_eq_self)

lemma page_number_page: "page_number (push_bit 12 (ucast (p :: u32))) = p"
  unfolding page_number_def by (rule bit_eqI) (auto simp: bit_simps)

text \<open>The pages a segment touches, from its address and its length.\<close>

lemma segment_page_count:
  assumes "segment_ok (p, l)"
  shows "unat (drop_bit 12 (l + (p AND 4095) + 4095)) = (unat p + unat l + 4095) div 4096 - unat p div 4096"
    and "unat p div 4096 < (unat p + unat l + 4095) div 4096" and "(unat p + unat l + 4095) div 4096 < 2 ^ 32"
    and "unat (page_number p) = unat p div 4096" and "unat p div 4096 \<noteq> 0"
proof -
  have b: "4096 \<le> unat p" "0 < unat l" "unat p + unat l + 4096 \<le> 2 ^ 44"
    using assms by (simp_all add: segment_ok_def)
  have "unat (l + (p AND 4095) + 4095) = unat l + unat p mod 4096 + 4095"
    using b(3) mod_less_eq_dividend [of "unat p" 4096] by (subst unat_u64_add; (subst unat_u64_add)?; simp add: unat_low_12)
  then have "unat (drop_bit 12 (l + (p AND 4095) + 4095)) = (unat l + unat p mod 4096 + 4095) div 4096"
    by (simp only: unat_drop_12)
  also have "\<dots> = (unat p + unat l + 4095) div 4096 - unat p div 4096"
  proof -
    have "unat p + unat l + 4095 = unat l + unat p mod 4096 + 4095 + unat p div 4096 * 4096" by simp
    then have "(unat p + unat l + 4095) div 4096 = (unat l + unat p mod 4096 + 4095) div 4096 + unat p div 4096"
      by (simp only: div_mult_self1)
    then show ?thesis by simp
  qed
  finally show "unat (drop_bit 12 (l + (p AND 4095) + 4095)) = (unat p + unat l + 4095) div 4096 - unat p div 4096" .
  have "unat p div 4096 < (unat p + 4096) div 4096" by simp
  also have "\<dots> \<le> (unat p + unat l + 4095) div 4096" using b(2) by (intro div_le_mono) simp
  finally show "unat p div 4096 < (unat p + unat l + 4095) div 4096" .
  show "(unat p + unat l + 4095) div 4096 < 2 ^ 32" using b(3) by (simp add: div_less_iff_less_mult)
  show "unat (page_number p) = unat p div 4096" using b(2,3) by (intro unat_page_number) simp
  show "unat p div 4096 \<noteq> 0" using b(1) by (simp add: div_eq_0_iff)
qed

lemma descriptor_pages:
  assumes "segment_ok s" and "descriptor_of s = (ppn, numPages)"
  shows "numPages \<noteq> 0" and "map (\<lambda>k. ppn + of_nat k) [0..<unat numPages] = segment_pages s"
proof -
  obtain p l where s: "s = (p, l)" by fastforce
  note c = segment_page_count [OF assms(1) [unfolded s]]
  let ?a = "unat p div 4096" and ?b = "(unat p + unat l + 4095) div 4096"
  have "drop_bit 12 (whole_pages p l) = drop_bit 12 (l + (p AND 4095) + 4095)"
    unfolding whole_pages_def by (rule drop_page_mask)
  then have n: "unat numPages = ?b - ?a"
    using assms(2) c(1,3) by (auto simp: descriptor_of_def s unsigned_ucast_eq take_bit_nat_eq_self)
  with c(2) show "numPages \<noteq> 0" by auto
  have "ppn = of_nat ?a" using assms(2) c(4) by (auto simp: descriptor_of_def s) (metis of_nat_unat ucast_id)
  then have "map (\<lambda>k. ppn + of_nat k) [0..<?b - ?a] = map of_nat (map (\<lambda>k. k + ?a) [0..<?b - ?a])"
    by (simp add: add.commute)
  also have "map (\<lambda>k. k + ?a) [0..<?b - ?a] = [?a..<?b]" using c(2) by (simp add: map_add_upt)
  finally show "map (\<lambda>k. ppn + of_nat k) [0..<unat numPages] = segment_pages s"
    by (simp add: n segment_pages_def s)
qed

section \<open>The table\<close>

text \<open>
  Entry \<open>i\<close> of a table that holds the descriptors \<open>es\<close>, 511 to a page, with links to the next page in the first
  \<open>links\<close> pages.
\<close>

definition slot :: "(nat \<Rightarrow> u32) \<Rightarrow> (u32 \<times> u32) list \<Rightarrow> nat \<Rightarrow> nat \<Rightarrow> u32 \<times> u32" where
  "slot pp es links i =
    (if i mod 512 = 511 then if i div 512 < links then (pp (i div 512 + 1), 0) else (0, 0)
     else let j = 511 * (i div 512) + i mod 512 in if j < length es then es ! j else (0, 0))"

definition layout :: "(nat \<Rightarrow> u32) \<Rightarrow> (u32 \<times> u32) list \<Rightarrow> nat \<Rightarrow> nat \<Rightarrow> (u32 \<times> u32) list" where
  "layout pp es links n = map (slot pp es links) [0..<n * 512]"

definition place :: "nat \<Rightarrow> nat" where
  "place j = j div 511 * 512 + j mod 511"

lemma place_bound: "j < 511 * n \<Longrightarrow> place j < n * 512"
proof -
  assume "j < 511 * n"
  then have "j div 511 < n" by (simp add: div_less_iff_less_mult mult.commute)
  then have "Suc (j div 511) * 512 \<le> n * 512" by (intro mult_le_mono1) simp
  moreover have "j mod 511 < 511" by simp
  ultimately show ?thesis by (simp add: place_def)
qed

lemma layout_store:
  assumes "j = length es" and "j < 511 * n"
  shows "(layout pp es links n)[place j := e] = layout pp (es @ [e]) links n"
proof (rule nth_equalityI)
  fix i assume "i < length ((layout pp es links n)[place j := e])"
  then have i: "i < n * 512" by (simp add: layout_def)
  show "(layout pp es links n)[place j := e] ! i = layout pp (es @ [e]) links n ! i"
  proof (cases "i = place j")
    case True
    have "j mod 511 < 511" by simp
    then have "i mod 512 = j mod 511" "i div 512 = j div 511" and j: "j mod 511 \<noteq> 511" by (simp_all add: True place_def)
    then show ?thesis using True i assms j by (simp add: layout_def slot_def Let_def)
  next
    case False
    have "511 * (i div 512) + i mod 512 \<noteq> j" if "i mod 512 \<noteq> 511"
    proof
      assume j: "511 * (i div 512) + i mod 512 = j"
      have "i mod 512 < 511" using that mod_less_divisor [of 512 i] by linarith
      then have "j div 511 = i div 512" "j mod 511 = i mod 512" by (simp_all add: j [symmetric])
      then show False using False by (simp add: place_def)
    qed
    then show ?thesis using False i assms by (auto simp: layout_def slot_def Let_def nth_append)
  qed
qed (simp add: layout_def)

lemma layout_link:
  assumes "links < n"
  shows "(layout pp es links n)[links * 512 + 511 := (pp (links + 1), snd (layout pp es links n ! (links * 512 + 511)))] =
    layout pp es (links + 1) n"
proof (rule nth_equalityI)
  have l: "links * 512 + 511 < n * 512" using assms by simp
  fix i assume "i < length ((layout pp es links n)[links * 512 + 511 := (pp (links + 1), snd (layout pp es links n ! (links * 512 + 511)))])"
  then have i: "i < n * 512" by (simp add: layout_def)
  show "(layout pp es links n)[links * 512 + 511 := (pp (links + 1), snd (layout pp es links n ! (links * 512 + 511)))] ! i =
      layout pp es (links + 1) n ! i"
  proof (cases "i = links * 512 + 511")
    case True
    then have "i mod 512 = 511" "i div 512 = links" by simp_all
    then show ?thesis using True i by (simp add: layout_def slot_def)
  next
    case False
    have "i div 512 \<noteq> links" if "i mod 512 = 511"
      using that False div_mult_mod_eq [of i 512] by auto
    then show ?thesis using False i by (auto simp: layout_def slot_def less_Suc_eq)
  qed
qed (simp add: layout_def)

text \<open>
  The state of the second pass before the segment \<open>j\<close>; \<open>c\<close> pages after the current one are contiguous with it.
\<close>

definition filling :: "nat \<Rightarrow> (nat \<Rightarrow> u32) \<Rightarrow> (u32 \<times> u32) list \<Rightarrow> gmr_fill \<Rightarrow> bool" where
  "filling n pp es t \<longleftrightarrow> (let j = length es; k = j div 511 in
     gmr_table t = layout pp es k n \<and> helper_ptr t = place j \<and> in_page_count t = 511 - j mod 511 \<and> next_page t = k + 1 \<and>
     helper_ppn t = pp k + 1 \<and>
     (\<exists>c. k + c < n \<and> helper_length t = of_nat (4096 * c) \<and> contiguous pp k c))"

lemma positive_pages: "c < 2 ^ 40 \<Longrightarrow> 0 <s (of_nat (4096 * c) :: u64) \<longleftrightarrow> 0 < c"
proof -
  assume c: "c < 2 ^ 40"
  have "sint (of_nat (4096 * c) :: u64) = signed_take_bit 63 (int (4096 * c))" by (simp only: signed_of_nat) simp
  also have "\<dots> = int (4096 * c)" using c by (intro signed_take_bit_int_eq_self) simp_all
  finally show ?thesis by (simp only: word_sless_alt signed_0) simp
qed

lemma filling_start:
  assumes "helper_ok hseg n pp" and "0 < n"
  shows "filling n pp [] (fill_start hseg n)"
proof -
  obtain c where "0 + c < n" "hseg (push_bit 12 (of_nat 0)) = (push_bit 12 (ucast (pp 0)), of_nat (4096 * (c + 1)))"
    "contiguous pp 0 c" using assms unfolding helper_ok_def by blast
  then have c: "c < n" "hseg 0 = (push_bit 12 (ucast (pp 0)), of_nat (4096 * (c + 1)))" "contiguous pp 0 c" by simp_all
  have "layout pp [] 0 n = replicate (n * 512) (0, 0)"
  proof -
    have "slot pp [] 0 = (\<lambda>_. (0, 0))" by (simp add: fun_eq_iff slot_def Let_def)
    then show ?thesis by (simp add: layout_def map_replicate_const)
  qed
  with c show ?thesis
    by (auto simp: filling_def fill_start_def Let_def place_def page_number_page)
qed


text \<open>One segment: the store, then the link if the page is full and there is a next one.\<close>

definition stored :: "u32 \<times> u32 \<Rightarrow> gmr_fill \<Rightarrow> gmr_fill" where
  "stored e t = t\<lparr>gmr_table := (gmr_table t)[helper_ptr t := e], helper_ptr := helper_ptr t + 1, in_page_count := in_page_count t - 1\<rparr>"

lemma filling_stored:
  assumes "filling n pp es t" and "length es < 511 * n" and "length es mod 511 \<noteq> 510"
  shows "in_page_count (stored e t) \<noteq> 0" and "filling n pp (es @ [e]) (stored e t)"
proof -
  let ?j = "length es"
  have "?j mod 511 < 511" by simp
  then have j: "Suc ?j div 511 = ?j div 511" "Suc ?j mod 511 = Suc (?j mod 511)" "?j mod 511 < 510"
    using assms(3) by (simp_all add: mod_Suc div_Suc)
  have "place (Suc ?j) = place ?j + 1" by (simp add: place_def j)
  then show "filling n pp (es @ [e]) (stored e t)"
    using assms(1,2) layout_store [OF refl assms(2)] by (simp add: filling_def stored_def Let_def j)
  show "in_page_count (stored e t) \<noteq> 0" using assms(1) j(3) by (simp add: filling_def stored_def Let_def)
qed

lemma filling_full:
  assumes "filling n pp es t" and "length es < 511 * n" and "length es mod 511 = 510" and "helper_ok hseg n pp" and "n < 2 ^ 40"
  shows "in_page_count (stored e t) = 0"
    and "length es + 1 = 511 * n \<Longrightarrow> next_helper_page hseg n (stored e t) = None \<and>
           gmr_table (stored e t) = layout pp (es @ [e]) (n - 1) n"
    and "length es + 1 < 511 * n \<Longrightarrow> \<exists>t'. next_helper_page hseg n (stored e t) = Some t' \<and> filling n pp (es @ [e]) t'"
proof -
  let ?j = "length es" and ?k = "length es div 511" and ?t = "stored e t"
  obtain c where c: "?k + c < n" "helper_length t = of_nat (4096 * c)" "contiguous pp ?k c"
    using assms(1) unfolding filling_def Let_def by blast
  have t: "gmr_table t = layout pp es ?k n" "helper_ptr t = place ?j" "in_page_count t = 1" "next_page t = ?k + 1" "helper_ppn t = pp ?k + 1"
    using assms(1,3) by (simp_all add: filling_def Let_def)
  have j: "Suc ?j div 511 = Suc ?k" "Suc ?j mod 511 = 0" using assms(3) by (simp_all add: div_Suc mod_Suc)
  then have dvd: "?j + 1 = 511 * (?k + 1)" using div_mult_mod_eq [of "Suc ?j" 511] by simp
  have u: "gmr_table ?t = layout pp (es @ [e]) ?k n" "helper_ptr ?t = ?k * 512 + 511" "next_page ?t = ?k + 1" "helper_ppn ?t = pp ?k + 1"
      "helper_length ?t = of_nat (4096 * c)" "in_page_count ?t = 0"
    using t c(2) layout_store [OF refl assms(2), of pp ?k e] assms(3) by (simp_all add: stored_def place_def)
  show "in_page_count ?t = 0" by (rule u(6))
  have pos: "0 <s helper_length ?t \<longleftrightarrow> 0 < c" unfolding u(5) using c(1) assms(5) by (intro positive_pages) simp
  show "next_helper_page hseg n ?t = None \<and> gmr_table ?t = layout pp (es @ [e]) (n - 1) n" if "?j + 1 = 511 * n"
  proof -
    have "?k + 1 = n" using that dvd by simp
    then have "n - 1 = ?k" "c = 0" using c(1) by simp_all
    then show ?thesis using pos u(1,3) \<open>?k + 1 = n\<close> by (simp add: next_helper_page_def Let_def)
  qed
  show "\<exists>t'. next_helper_page hseg n ?t = Some t' \<and> filling n pp (es @ [e]) t'" if "?j + 1 < 511 * n"
  proof -
    have kn: "?k + 1 < n" using that dvd by simp
    obtain d where d: "?k + 1 + d < n" "hseg (push_bit 12 (of_nat (?k + 1))) = (push_bit 12 (ucast (pp (?k + 1))), of_nat (4096 * (d + 1)))"
        "contiguous pp (?k + 1) d" using assms(4) kn unfolding helper_ok_def by blast
    define u0 where "u0 = (if 0 < c then ?t else ?t\<lparr>helper_ppn := pp (?k + 1), helper_length := of_nat (4096 * (d + 1))\<rparr>)"
    have next0: "next_helper_page hseg n ?t = Some (u0\<lparr>gmr_table := (gmr_table u0)[helper_ptr u0 := (helper_ppn u0, snd (gmr_table u0 ! helper_ptr u0))],
            helper_ppn := helper_ppn u0 + 1, helper_length := helper_length u0 - 4096,
            helper_ptr := next_page u0 * 512, next_page := next_page u0 + 1, in_page_count := 511\<rparr>)"
      using pos kn d(2) u(3) by (simp add: next_helper_page_def u0_def page_number_page Let_def)
    define e0 where "e0 = (if 0 < c then c else d + 1)"
    have len: "helper_length u0 = of_nat (4096 * e0)" "0 < e0" "?k + e0 < n"
      using u(5) d(1) c(1) by (simp_all add: u0_def e0_def)
    have ppn: "helper_ppn u0 = pp (?k + 1)"
    proof (cases "0 < c")
      case True
      then have "pp (?k + 1) = pp ?k + of_nat 1" using c(3) unfolding contiguous_def by (metis Suc_leI One_nat_def)
      then show ?thesis using True u(4) by (simp add: u0_def)
    qed (simp add: u0_def)
    have run: "contiguous pp (?k + 1) (e0 - 1)"
    proof (cases "0 < c")
      case True
      have "pp (?k + 1 + i) = pp (?k + 1) + of_nat i" if "i \<le> c - 1" for i
      proof -
        have "1 + i \<le> c" "1 \<le> c" using that True by simp_all
        then have "pp (?k + (1 + i)) = pp ?k + of_nat (1 + i)" "pp (?k + 1) = pp ?k + of_nat 1"
          using c(3) unfolding contiguous_def by blast+
        then show ?thesis by (simp add: add.assoc)
      qed
      then show ?thesis using True by (simp add: contiguous_def e0_def)
    qed (use d(3) in \<open>simp add: e0_def\<close>)
    have "helper_length u0 - 4096 = of_nat (4096 * (e0 - 1))" using len(1,2) by (cases e0) simp_all
    moreover have "gmr_table u0 = layout pp (es @ [e]) ?k n" "helper_ptr u0 = ?k * 512 + 511" "next_page u0 = ?k + 1"
      using u by (simp_all add: u0_def)
    moreover have "?k + 1 + (e0 - 1) < n" using len(2,3) by simp
    ultimately show ?thesis
      using layout_link [of ?k n pp "es @ [e]"] kn ppn run j
      by (auto simp: next0 filling_def Let_def place_def)
  qed
qed

lemma fill_descriptors_layout:
  assumes "helper_ok hseg n pp" and "n < 2 ^ 40"
  shows "describes seg offset ss \<Longrightarrow> \<forall>s \<in> set ss. segment_ok s \<Longrightarrow> filling n pp es t \<Longrightarrow> length es < 511 * n \<Longrightarrow>
    511 * (n - 1) < length es + length ss \<Longrightarrow> length es + length ss \<le> 511 * n \<Longrightarrow>
    \<exists>t'. fill_descriptors seg hseg n offset t = Some t' \<and> gmr_table t' = layout pp (es @ map descriptor_of ss) (n - 1) n"
proof (induction ss arbitrary: offset es t)
  case Nil
  have "fill_descriptors seg hseg n offset t = Some t"
    using Nil.prems(1) by (subst fill_descriptors.simps) (auto simp: case_prod_beta)
  moreover have "length es div 511 = n - 1"
    using Nil.prems(4-6) by (intro div_nat_eqI) (simp_all add: mult.commute)
  ultimately show ?case using Nil.prems(3) by (simp add: filling_def Let_def)
next
  case (Cons s ss)
  obtain p l where s: "s = (p, l)" by fastforce
  have seg: "seg offset = (p, l)" "p \<noteq> 0" "describes seg (offset + l) ss"
    using Cons.prems(1,2) by (auto simp: s segment_ok_def)
  let ?e = "descriptor_of s" and ?t = "stored (descriptor_of s) t"
  have "length (gmr_table t) = n * 512" "helper_ptr t = place (length es)"
    using Cons.prems(3) by (simp_all add: filling_def layout_def Let_def)
  then have room: "\<not> length (gmr_table t) \<le> helper_ptr t" using place_bound [OF Cons.prems(4)] by simp
  have step: "fill_descriptors seg hseg n offset t =
      (if in_page_count ?t \<noteq> 0 then fill_descriptors seg hseg n (offset + l) ?t
       else case next_helper_page hseg n ?t of None \<Rightarrow> Some ?t | Some t \<Rightarrow> fill_descriptors seg hseg n (offset + l) t)"
    using seg room by (subst fill_descriptors.simps) (simp add: stored_def descriptor_of_def s Let_def cong: option.case_cong)
  have IH: "\<exists>t'. fill_descriptors seg hseg n (offset + l) u = Some t' \<and>
      gmr_table t' = layout pp (es @ map descriptor_of (s # ss)) (n - 1) n"
    if "filling n pp (es @ [?e]) u" "length es + 1 < 511 * n" for u
    using Cons.IH [OF seg(3) _ that(1)] Cons.prems(2,5,6) that(2) by simp
  show ?case
  proof (cases "length es mod 511 = 510")
    case False
    have "length es + 1 < 511 * n"
    proof -
      have "(length es + 1) mod 511 \<noteq> 0" using False by (simp add: mod_Suc)
      then have "length es + 1 \<noteq> 511 * n" by (metis mod_mult_self1_is_0)
      then show ?thesis using Cons.prems(4) by simp
    qed
    with filling_stored [OF Cons.prems(3,4) False] IH step show ?thesis by simp
  next
    case True
    note full = filling_full [OF Cons.prems(3,4) True assms, of ?e]
    show ?thesis
    proof (cases "length es + 1 = 511 * n")
      case True
      moreover have "length es + length ss + 1 \<le> 511 * n" using Cons.prems(6) by simp
      ultimately have "ss = []" by (simp only: length_0_conv [symmetric])
      with full(1,2) True step show ?thesis by simp
    next
      case False
      then have "length es + 1 < 511 * n" using Cons.prems(4) by simp
      with full(1,3) IH step show ?thesis by fastforce
    qed
  qed
qed

text \<open>The walk over such a table gives back the pages of all its descriptors.\<close>

definition table_in_memory :: "(u32 \<Rightarrow> (u32 \<times> u32) list) \<Rightarrow> (nat \<Rightarrow> u32) \<Rightarrow> nat \<Rightarrow> (u32 \<times> u32) list \<Rightarrow> bool" where
  "table_in_memory rd pp n table \<longleftrightarrow> (\<forall>k<n. rd (pp k) = map (\<lambda>i. table ! (k * 512 + i)) [0..<512])"

lemma layout_entry:
  assumes "k < n" and "i < 512"
  shows "layout pp es links n ! (k * 512 + i) = (if i = 511 then if k < links then (pp (k + 1), 0) else (0, 0)
    else if 511 * k + i < length es then es ! (511 * k + i) else (0, 0))"
proof -
  have "Suc k * 512 \<le> n * 512" using assms(1) by (intro mult_le_mono1) simp
  then have "k * 512 + i < n * 512" using assms(2) by simp
  moreover have "(k * 512 + i) mod 512 = i" "(k * 512 + i) div 512 = k" using assms(2) by simp_all
  ultimately show ?thesis by (simp add: layout_def slot_def Let_def)
qed

lemma device_walk_layout:
  assumes "table_in_memory rd pp n (layout pp (map descriptor_of ss) (n - 1) n)" and "\<forall>s \<in> set ss. segment_ok s"
    and "\<forall>k<n. pp k \<noteq> 0" and "length ss \<le> 511 * n"
  shows "k < n \<Longrightarrow> i < 512 \<Longrightarrow> 511 * k + i \<le> length ss \<Longrightarrow> length ss - (511 * k + i) + (n - k) \<le> f \<Longrightarrow>
    device_walk rd f (pp k) i = Some (concat (map segment_pages (drop (511 * k + i) ss)))"
proof (induction f arbitrary: k i)
  case 0
  then show ?case by simp
next
  case (Suc f)
  let ?j = "511 * k + i"
  have rd: "i < length (rd (pp k))" "rd (pp k) ! i = (if i = 511 then if k < n - 1 then (pp (k + 1), 0) else (0, 0)
      else if ?j < length ss then descriptor_of (ss ! ?j) else (0, 0))"
    using assms(1) Suc.prems(1,2) layout_entry [OF Suc.prems(1,2), of pp "map descriptor_of ss" "n - 1"]
    by (auto simp: table_in_memory_def)
  show ?case
  proof (cases "i = 511")
    case True
    show ?thesis
    proof (cases "k < n - 1")
      case True
      then have "pp (k + 1) \<noteq> 0" "k + 1 < n" using assms(3) by auto
      moreover have "?j = 511 * (k + 1) + 0" using \<open>i = 511\<close> by simp
      moreover have "device_walk rd f (pp (k + 1)) 0 = Some (concat (map segment_pages (drop (511 * (k + 1) + 0) ss)))"
        by (rule Suc.IH) (use \<open>k + 1 < n\<close> \<open>i = 511\<close> Suc.prems(3,4) in simp_all)
      ultimately show ?thesis using rd True \<open>i = 511\<close> by (simp add: add.commute)
    next
      case False
      then have "k = n - 1" using Suc.prems(1) by simp
      then have "length ss \<le> ?j" using assms(4) \<open>i = 511\<close> Suc.prems(1) by (simp add: right_diff_distrib')
      then show ?thesis using rd False \<open>i = 511\<close> by simp
    qed
  next
    case False
    show ?thesis
    proof (cases "?j < length ss")
      case True
      obtain ppn numPages where d: "descriptor_of (ss ! ?j) = (ppn, numPages)" by fastforce
      have ok: "segment_ok (ss ! ?j)" using assms(2) True by simp
      have "device_walk rd f (pp k) (i + 1) = Some (concat (map segment_pages (drop (511 * k + (i + 1)) ss)))"
        by (rule Suc.IH) (use False True Suc.prems in simp_all)
      moreover have "drop ?j ss = ss ! ?j # drop (511 * k + (i + 1)) ss" using True Cons_nth_drop_Suc [of ?j ss] by simp
      ultimately show ?thesis
        using rd False True descriptor_pages [OF ok d] by (simp add: d)
    qed (use rd False in simp)
  qed
qed


lemma createGMR_describes_layout:
  assumes "m_framebuffer s = Some b" and "HasCapability SVGA_CAP_GMR (dev b)"
    and "describes (md_segment md) 0 ss" and "\<forall>x \<in> set ss. segment_ok x" and "ss \<noteq> []"
    and "n = (length ss + 510) div 511" and "length ss + n \<le> unat (m_max_gmr_descriptor_length (dev b))"
    and "helper_alloc hm n = Some hseg" and "helper_prepare hm = kIOReturnSuccess" and "helper_ok hseg n pp"
  shows "\<exists>table. createGMR h hm gmrId (Some md) s =
      Some ((kIOReturnSuccess, Some table), s\<lparr>m_framebuffer := Some (b\<lparr>dev := snd (defineGMR h gmrId (pp 0) (dev b))\<rparr>)\<rparr>) \<and>
    (\<forall>rd. table_in_memory rd pp n table \<longrightarrow>
      device_walk rd (unat (m_max_gmr_descriptor_length (dev b))) (pp 0) 0 = Some (concat (map segment_pages ss)))"
proof -
  have len: "511 * (n - 1) < length ss" "length ss \<le> 511 * n" "0 < n"
    using assms(5,6) by (cases ss; simp; linarith)+
  have n: "n < 2 ^ 40" using assms(7) unat_u32_bound [of "m_max_gmr_descriptor_length (dev b)"] by simp
  have count: "count_segments (md_segment md) 0 0 = Some (Inr (length ss))"
    using count_segments_describes [OF assms(3,4), of 0] by simp
  obtain t where t: "fill_descriptors (md_segment md) hseg n 0 (fill_start hseg n) = Some t"
    "gmr_table t = layout pp (map descriptor_of ss) (n - 1) n"
    using fill_descriptors_layout [OF assms(10) n assms(3,4) filling_start [OF assms(10) len(3)]] len by auto
  have base: "page_number (fst (hseg 0)) = pp 0"
  proof -
    obtain c where "hseg (push_bit 12 (of_nat 0)) = (push_bit 12 (ucast (pp 0)), of_nat (4096 * (c + 1)))"
      using assms(10) len(3) unfolding helper_ok_def by blast
    then show ?thesis by (simp add: page_number_page)
  qed
  have "(length ss + (dpp - 1)) div dpp = n" using assms(6) by simp
  then have "createGMR h hm gmrId (Some md) s = Some ((kIOReturnSuccess, Some (gmr_table t)),
      s\<lparr>m_framebuffer := Some (b\<lparr>dev := snd (defineGMR h gmrId (pp 0) (dev b))\<rparr>)\<rparr>)"
    using assms(1,2,5,7,8,9) count t(1) base
    by (simp add: createGMR_def with_device_def not_less case_prod_beta)
  moreover have "device_walk rd (unat (m_max_gmr_descriptor_length (dev b))) (pp 0) 0 = Some (concat (map segment_pages ss))"
    if "table_in_memory rd pp n (gmr_table t)" for rd
    using device_walk_layout [OF that [unfolded t(2)] assms(4) _ len(2), of 0 0] assms(7,10) len(3)
    by (simp add: helper_ok_def)
  ultimately show ?thesis by blast
qed

text \<open>C5: \<open>createGMR\<close> tells the device exactly the pages of the memory: for every memory of any number of segments in any
  places, the table, built in pages of 511 descriptors and a link wherever the pages for it lie, is filled
  without a store beyond its end, and the device, reading it when the register is written as its documentation
  says, from the page it is given and never more descriptors than it accepts, collects the physical
  pages of the segments, in order, each segment rounded out to whole pages.\<close>

theorem createGMR_describes_memory:
  assumes "m_framebuffer s = Some b" and "HasCapability SVGA_CAP_GMR (dev b)"
    and "describes (md_segment md) 0 ss" and "\<forall>x \<in> set ss. segment_ok x" and "ss \<noteq> []"
    and "n = (length ss + 510) div 511" and "length ss + n \<le> unat (m_max_gmr_descriptor_length (dev b))"
    and "helper_alloc hm n = Some hseg" and "helper_prepare hm = kIOReturnSuccess" and "helper_ok hseg n pp"
  shows "\<exists>table. createGMR h hm gmrId (Some md) s =
      Some ((kIOReturnSuccess, Some table), s\<lparr>m_framebuffer := Some (b\<lparr>dev := snd (defineGMR h gmrId (pp 0) (dev b))\<rparr>)\<rparr>) \<and>
    (\<forall>rd. table_in_memory rd pp n table \<longrightarrow>
      device_walk rd (unat (m_max_gmr_descriptor_length (dev b))) (pp 0) 0 = Some (concat (map segment_pages ss)))"
  using assms by (rule createGMR_describes_layout)

lemma createGMR_describes_memory_witness:
  "\<exists>table d. createGMR drain_host \<lparr>helper_alloc = \<lambda>n. Some (\<lambda>_. (0x77000, 0x1000)), helper_prepare = kIOReturnSuccess\<rparr> 5
      (Some \<lparr>md_segment = \<lambda>off. if off = 0 then (0x5800, 0x1000) else if off = 0x1000 then (0x9000, 0x800) else (0, 0),
         md_length = 0x1800, md_prepare = kIOReturnSuccess, md_wired = 0\<rparr>)
      (accel_sample\<lparr>m_framebuffer := Some (fb_new\<lparr>dev := svga_new\<lparr>m_capabilities := SVGA_CAP_GMR, m_max_gmr_descriptor_length := 64\<rparr>\<rparr>)\<rparr>) =
      Some ((kIOReturnSuccess, Some table), accel_sample\<lparr>m_framebuffer := Some (fb_new\<lparr>dev := d\<rparr>)\<rparr>) \<and>
    (\<forall>rd. table_in_memory rd (\<lambda>_. 0x77) 1 table \<longrightarrow> device_walk rd 64 0x77 0 = Some [5, 6, 9])"
proof -
  let ?md = "\<lparr>md_segment = \<lambda>off. if off = 0 then (0x5800, 0x1000) else if off = 0x1000 then (0x9000, 0x800) else (0, 0),
      md_length = 0x1800, md_prepare = kIOReturnSuccess, md_wired = 0\<rparr>"
  have "describes (md_segment ?md) 0 [(0x5800, 0x1000), (0x9000, 0x800)]" by simp
  moreover have "\<forall>x \<in> set [(0x5800, 0x1000), (0x9000, 0x800)]. segment_ok x" by (simp add: segment_ok_def)
  moreover have "helper_ok (\<lambda>_. (0x77000, 0x1000)) 1 (\<lambda>_. 0x77)" by (simp add: helper_ok_def contiguous_def)
  moreover have "concat (map segment_pages [(0x5800, 0x1000), (0x9000, 0x800)]) = [5, 6, 9]"
    by (simp add: segment_pages_def upt_conv_Cons)
  ultimately show ?thesis
    using createGMR_describes_memory [of "accel_sample\<lparr>m_framebuffer := Some (fb_new\<lparr>dev := svga_new\<lparr>m_capabilities := SVGA_CAP_GMR,
        m_max_gmr_descriptor_length := 64\<rparr>\<rparr>)\<rparr>" "fb_new\<lparr>dev := svga_new\<lparr>m_capabilities := SVGA_CAP_GMR, m_max_gmr_descriptor_length := 64\<rparr>\<rparr>"
        ?md "[(0x5800, 0x1000), (0x9000, 0x800)]" 1 "\<lparr>helper_alloc = \<lambda>n. Some (\<lambda>_. (0x77000, 0x1000)), helper_prepare = kIOReturnSuccess\<rparr>"
        "\<lambda>_. (0x77000, 0x1000)" "\<lambda>_. 0x77" drain_host 5]
    by (simp add: HasCapability_def) blast
qed

section \<open>Regions by command\<close>

lemma store_pages_all:
  "n \<le> room \<Longrightarrow> store_pages room ppn n = Some (room - n, map (\<lambda>k. ucast (ppn + of_nat k)) [0..<n])"
proof (induction n arbitrary: room ppn)
  case (Suc n)
  then obtain r where r: "room = Suc r" by (cases room) simp_all
  have "map (\<lambda>k. ucast (ppn + 1 + of_nat k)) [0..<n] = map (\<lambda>k. ucast (ppn + of_nat k) :: u32) [1..<Suc n]"
    by (simp only: One_nat_def map_Suc_upt [symmetric] map_map o_def of_nat_Suc add.assoc)
  then show ?case using Suc r by (simp add: upt_conv_Cons del: upt_Suc)
qed simp

lemma ucast_of_nat_64: "(ucast (of_nat n :: u64) :: u32) = of_nat n"
  by (simp add: word_unat_eq_iff unsigned_ucast_eq unsigned_of_nat)

lemma segment_listed:
  assumes "segment_ok (p, l)" and "length (segment_pages (p, l)) \<le> room"
  shows "store_pages room (drop_bit 12 p) (unat (drop_bit 12 (l + (p AND 4095) + 4095))) =
    Some (room - length (segment_pages (p, l)), segment_pages (p, l))"
proof -
  note c = segment_page_count [OF assms(1)]
  let ?a = "unat p div 4096" and ?b = "(unat p + unat l + 4095) div 4096"
  have "drop_bit 12 p = of_nat ?a" by (metis of_nat_unat ucast_id unat_drop_12)
  then have "map (\<lambda>k. ucast (drop_bit 12 p + of_nat k) :: u32) [0..<?b - ?a] = map of_nat (map (\<lambda>k. k + ?a) [0..<?b - ?a])"
    by (simp add: ucast_of_nat_64 add.commute del: of_nat_add flip: of_nat_add)
  also have "map (\<lambda>k. k + ?a) [0..<?b - ?a] = [?a..<?b]" using c(2) by (simp add: map_add_upt)
  finally show ?thesis using assms(2) by (simp add: c(1) store_pages_all segment_pages_def)
qed

lemma list_pages_all:
  "describes seg offset ss \<Longrightarrow> \<forall>s \<in> set ss. segment_ok s \<Longrightarrow> length (concat (map segment_pages ss)) \<le> room \<Longrightarrow>
    list_pages seg offset room ps = Some (Inr (ps @ concat (map segment_pages ss)))"
proof (induction ss arbitrary: offset room ps)
  case Nil
  then show ?case by (subst list_pages.simps) (auto simp: case_prod_beta)
next
  case (Cons s ss)
  obtain p l where s: "s = (p, l)" by fastforce
  have p: "4096 \<le> unat p" "unat p < 2 ^ 44" using Cons.prems(2) by (auto simp: segment_ok_def s)
  have "unat (drop_bit 44 p) = 0" unfolding unat_drop_bit_eq using p(2) by (simp add: drop_bit_eq_div)
  then have z: "drop_bit 44 p = 0" "p \<noteq> 0" using p(1) by (auto simp: word_unat_eq_iff)
  have "list_pages seg offset room ps = list_pages seg (offset + l) (room - length (segment_pages (p, l))) (ps @ segment_pages (p, l))"
    using Cons.prems z segment_listed [of p l room] by (subst list_pages.simps) (simp add: s)
  also have "\<dots> = Some (Inr (ps @ concat (map segment_pages (s # ss))))"
    using Cons.IH [of "offset + l" "room - length (segment_pages (p, l))"] Cons.prems s by simp
  finally show ?case .
qed


text \<open>The two commands, or the first of them alone when the second does not fit a reservation.\<close>

definition page_count_of :: "memory_descriptor \<Rightarrow> nat" where
  "page_count_of md = unat (drop_bit 12 (md_length md + 4096 - 1))"

lemma remap_refused:
  assumes "16379 < n" and "n < 2 ^ 32"
  shows "remapGMR2 h gmrId 0 0 c (Some ps) (4 * n) d = Some (False, d)"
  using assms by (simp add: remapGMR2_def FIFOReserveCmd_def FIFOReserve_def size_add_def commit_cmd_def Let_def)

lemma createGMR2_lists:
  assumes "m_framebuffer s = Some b" and "HasCapability SVGA_CAP_GMR2 (dev b)"
    and "describes (md_segment md) 0 ss" and "\<forall>x \<in> set ss. segment_ok x" and "ss \<noteq> []"
    and "length (concat (map segment_pages ss)) = page_count_of md" and "page_count_of md \<le> unat (m_max_gmr_pages (dev b))"
  shows "createGMR2 h True garbage gmrId (Some md) s = do {
     (ok, s) \<leftarrow> with_device (\<lambda>d. do {
       (ok, d) \<leftarrow> defineGMR2 h gmrId (of_nat (page_count_of md)) d;
       if \<not> ok then Some (False, d)
       else do {
         (_, d) \<leftarrow> remapGMR2 h gmrId 0 0 (of_nat (page_count_of md)) (Some (concat (map segment_pages ss))) (4 * page_count_of md) d;
         Some (True, d)
       }
     }) s;
     Some (if ok then kIOReturnSuccess else kIOReturnDeviceError, s)
   }"
proof -
  obtain x xs where ss: "ss = x # xs" using assms(5) by (cases ss) auto
  obtain p l where "x = (p, l)" by fastforce
  then have "segment_pages x \<noteq> []" using assms(4) segment_page_count(2) [of p l] by (simp add: ss segment_pages_def)
  then have "0 < length (concat (map segment_pages ss))" by (simp add: ss)
  then have "0 < page_count_of md" using assms(6) by simp
  moreover have "list_pages (md_segment md) 0 (page_count_of md) [] = Some (Inr (concat (map segment_pages ss)))"
    using list_pages_all [OF assms(3,4), of "page_count_of md" "[]"] assms(6) by simp
  ultimately show ?thesis
    unfolding createGMR2_def page_count_of_def [symmetric] Let_def using assms(1,2,6,7) by (simp add: not_less cong del: if_weak_cong)
qed

text \<open>A device with such regions, for the witnesses.\<close>

definition gmr2_fb :: fb where
  "gmr2_fb = fb_new\<lparr>dev := (small_svga 1200 1256 64)\<lparr>m_capabilities := SVGA_CAP_GMR2, m_max_gmr_pages := 65536\<rparr>\<rparr>"

definition gmr2_sample :: accel where
  "gmr2_sample = accel_sample\<lparr>m_framebuffer := Some gmr2_fb\<rparr>"

lemma gmr2_sample_ready:
  "m_framebuffer gmr2_sample = Some gmr2_fb" "HasCapability SVGA_CAP_GMR2 (dev gmr2_fb)" "fifo_ready (dev gmr2_fb)"
  "m_max_gmr_pages (dev gmr2_fb) = 65536" "fifo_fits (dev gmr2_fb) 8" "fifo_fits (dev gmr2_fb) 3"
  using small_svga_ready [of 1200 1256 64]
  by (simp_all add: gmr2_sample_def gmr2_fb_def HasCapability_def fifo_ready_def fifo_fits_def)

text \<open>C24: \<open>createGMR2\<close>, where the memory begins at a page, sends the host the definition of the region, of as many pages as the
  memory has, followed by the command that maps to them exactly the memory's physical pages, in order, up
  to the 16379 pages for which the list fits a reservation.\<close>

theorem createGMR2_maps_memory:
  assumes "host_serving h" and "m_framebuffer s = Some b" and "HasCapability SVGA_CAP_GMR2 (dev b)" and "fifo_ready (dev b)"
    and "describes (md_segment md) 0 ss" and "\<forall>x \<in> set ss. segment_ok x" and "ss \<noteq> []"
    and "length (concat (map segment_pages ss)) = page_count_of md" and "page_count_of md \<le> unat (m_max_gmr_pages (dev b))"
    and "fifo_fits (dev b) (5 + page_count_of md)"
  shows "accel_streams s b (createGMR2 h True garbage gmrId (Some md) s)
     (encode (Cmd_2d (Define_gmr2 gmrId (of_nat (page_count_of md)))) @
      encode (Cmd_2d (Remap_gmr2 gmrId 0 0 (of_nat (page_count_of md)) (concat (map segment_pages ss)))))"
proof -
  let ?n = "page_count_of md" and ?ps = "concat (map segment_pages ss)"
  let ?cs = "[Cmd_2d (Define_gmr2 gmrId (of_nat ?n)), Cmd_2d (Remap_gmr2 gmrId 0 0 (of_nat ?n) ?ps)]"
  have "unat (of_nat ?n :: u32) = ?n"
    using assms(10) by (simp add: fifo_fits_def unsigned_of_nat take_bit_nat_eq_self)
  then have "\<forall>c \<in> set ?cs. valid c \<and> fifo_fits (dev b) (length (encode c))"
    using assms(8,10) by (simp add: remap_suffix_def fifo_fits_def del: length_concat)
  from exec_all_streams [OF assms(1,4) this] obtain e k where e: "exec_all h ?cs (dev b) = Some (True, e)" "fifo_ready e"
      "driver_fields e = driver_fields (dev b)" "fifo_queue (m_fifo e) = drop k (fifo_queue (m_fifo (dev b)) @ concat (map encode ?cs))"
    unfolding streamed_def by blast
  from e(1) obtain d where d: "defineGMR2 h gmrId (of_nat ?n) (dev b) = Some (True, d)"
      "remapGMR2 h gmrId 0 0 (of_nat ?n) (Some ?ps) (4 * ?n) d = Some (True, e)"
    using assms(8) by (auto split: bind_splits if_splits simp del: length_concat)
  have "createGMR2 h True garbage gmrId (Some md) s = Some (kIOReturnSuccess, s\<lparr>m_framebuffer := Some (b\<lparr>dev := e\<rparr>)\<rparr>)"
    unfolding createGMR2_lists [OF assms(2,3,5-9)] using assms(2) d by (simp add: with_device_def)
  with e(2-4) show ?thesis unfolding accel_streams_def by auto
qed

lemma createGMR2_maps_memory_witness:
  "accel_streams gmr2_sample gmr2_fb (createGMR2 drain_host True (\<lambda>_. 77) 5 (Some
      \<lparr>md_segment = \<lambda>off. if off = 0 then (0x5000, 0x1000) else if off = 0x1000 then (0x9000, 0x1800) else (0, 0),
         md_length = 0x2800, md_prepare = kIOReturnSuccess, md_wired = 0\<rparr>) gmr2_sample)
     [41, 5, 3, 42, 5, 0, 0, 3, 5, 9, 10]"
proof -
  let ?md = "\<lparr>md_segment = \<lambda>off. if off = 0 then (0x5000, 0x1000) else if off = 0x1000 then (0x9000, 0x1800) else (0, 0),
      md_length = 0x2800, md_prepare = kIOReturnSuccess, md_wired = 0\<rparr>"
  have "describes (md_segment ?md) 0 [(0x5000, 0x1000), (0x9000, 0x1800)]" by simp
  moreover have "\<forall>x \<in> set [(0x5000, 0x1000), (0x9000, 0x1800)]. segment_ok x" by (simp add: segment_ok_def)
  moreover have pages: "concat (map segment_pages [(0x5000, 0x1000), (0x9000, 0x1800)]) = [5, 9, 10]"
    by (simp add: segment_pages_def upt_conv_Cons)
  moreover have count: "page_count_of ?md = 3" unfolding page_count_of_def unat_drop_12 by simp
  moreover have "length (concat (map segment_pages [(0x5000, 0x1000), (0x9000, 0x1800)])) = page_count_of ?md"
    unfolding pages count by simp
  moreover have "page_count_of ?md \<le> unat (m_max_gmr_pages (dev gmr2_fb))" "fifo_fits (dev gmr2_fb) (5 + page_count_of ?md)"
    unfolding count gmr2_sample_ready using gmr2_sample_ready(5) by simp_all
  ultimately have "accel_streams gmr2_sample gmr2_fb (createGMR2 drain_host True (\<lambda>_. 77) 5 (Some ?md) gmr2_sample)
     (encode (Cmd_2d (Define_gmr2 5 (of_nat (page_count_of ?md)))) @
      encode (Cmd_2d (Remap_gmr2 5 0 0 (of_nat (page_count_of ?md)) (concat (map segment_pages [(0x5000, 0x1000), (0x9000, 0x1800)])))))"
    using createGMR2_maps_memory [OF drain_host_serving gmr2_sample_ready(1-3)] by blast
  then show ?thesis unfolding pages count by simp
qed

text \<open>C25: Above 16379 pages, just under 64 MB, \<open>createGMR2\<close> defines the region but maps no page to it, and still reports
  success: the command with the page list does not fit a reservation, and its failure is not looked at.\<close>

theorem createGMR2_large_unmapped:
  assumes "host_serving h" and "m_framebuffer s = Some b" and "HasCapability SVGA_CAP_GMR2 (dev b)" and "fifo_ready (dev b)"
    and "describes (md_segment md) 0 ss" and "\<forall>x \<in> set ss. segment_ok x" and "ss \<noteq> []"
    and "length (concat (map segment_pages ss)) = page_count_of md" and "page_count_of md \<le> unat (m_max_gmr_pages (dev b))"
    and "fifo_fits (dev b) 3" and "16379 < page_count_of md"
  shows "accel_streams s b (createGMR2 h True garbage gmrId (Some md) s)
     (encode (Cmd_2d (Define_gmr2 gmrId (of_nat (page_count_of md)))))"
proof -
  let ?n = "page_count_of md" and ?ps = "concat (map segment_pages ss)"
  have "emits (dev b) (exec h (Cmd_2d (Define_gmr2 gmrId (of_nat ?n))) (dev b)) (encode (Cmd_2d (Define_gmr2 gmrId (of_nat ?n))))"
    using assms(10) by (intro exec_emits [OF assms(1,4)]) (simp_all add: numeral_3_eq_3)
  from emits_streamed [OF this] obtain e k where e: "defineGMR2 h gmrId (of_nat ?n) (dev b) = Some (True, e)" "fifo_ready e"
      "driver_fields e = driver_fields (dev b)"
      "fifo_queue (m_fifo e) = drop k (fifo_queue (m_fifo (dev b)) @ encode (Cmd_2d (Define_gmr2 gmrId (of_nat ?n))))"
    unfolding streamed_def exec.simps exec_2d.simps by blast
  have "?n < 2 ^ 32" using assms(9) unat_u32_bound [of "m_max_gmr_pages (dev b)"] by simp
  note refused = remap_refused [OF assms(11) this, of h gmrId "of_nat ?n" ?ps]
  have "createGMR2 h True garbage gmrId (Some md) s = Some (kIOReturnSuccess, s\<lparr>m_framebuffer := Some (b\<lparr>dev := e\<rparr>)\<rparr>)"
    unfolding createGMR2_lists [OF assms(2,3,5-9)] using assms(2) e(1) refused by (simp add: with_device_def)
  with e(2-4) show ?thesis unfolding accel_streams_def by auto
qed

lemma createGMR2_large_unmapped_witness:
  "accel_streams gmr2_sample gmr2_fb (createGMR2 drain_host True (\<lambda>_. 77) 5 (Some
      \<lparr>md_segment = \<lambda>off. if off = 0 then (0x5000, 67092480) else (0, 0), md_length = 67092480,
         md_prepare = kIOReturnSuccess, md_wired = 0\<rparr>) gmr2_sample) [41, 5, 16380]"
proof -
  let ?md = "\<lparr>md_segment = \<lambda>off. if off = 0 then (0x5000, 67092480) else (0, 0), md_length = 67092480,
      md_prepare = kIOReturnSuccess, md_wired = 0\<rparr>"
  have count: "page_count_of ?md = 16380" unfolding page_count_of_def unat_drop_12 by simp
  have "describes (md_segment ?md) 0 [(0x5000, 67092480)]" by simp
  moreover have "\<forall>x \<in> set [(0x5000, 67092480)]. segment_ok x" by (simp add: segment_ok_def)
  moreover have "length (concat (map segment_pages [(0x5000, 67092480)])) = page_count_of ?md"
    unfolding count by (simp only: segment_pages_def list.map concat.simps append_Nil2 length_map length_upt fst_conv snd_conv) simp
  moreover have "page_count_of ?md \<le> unat (m_max_gmr_pages (dev gmr2_fb))" "16379 < page_count_of ?md"
    unfolding count gmr2_sample_ready by simp_all
  ultimately have "accel_streams gmr2_sample gmr2_fb (createGMR2 drain_host True (\<lambda>_. 77) 5 (Some ?md) gmr2_sample)
     (encode (Cmd_2d (Define_gmr2 5 (of_nat (page_count_of ?md)))))"
    using createGMR2_large_unmapped [OF drain_host_serving gmr2_sample_ready(1-3) _ _ _ _ _ gmr2_sample_ready(6)] by blast
  then show ?thesis unfolding count by simp
qed

section \<open>Transfer buffers share the region numbers\<close>

definition helper_provides :: "gmr_helper \<Rightarrow> bool" where
  "helper_provides hm \<longleftrightarrow> (\<forall>n hseg. helper_alloc hm n = Some hseg \<longrightarrow> (\<exists>pp. helper_ok hseg n pp))"

definition memory_ok :: "memory_descriptor \<Rightarrow> bool" where
  "memory_ok md \<longleftrightarrow> (\<exists>ss. describes (md_segment md) 0 ss \<and> (\<forall>x \<in> set ss. segment_ok x))"

lemma createGMR_returns:
  assumes "memory_ok md" and "helper_provides hm"
  shows "\<exists>rc table t. createGMR h hm i (Some md) s = Some ((rc, table), t) \<and> accel_ids t = accel_ids s"
proof -
  obtain ss where ss: "describes (md_segment md) 0 ss" "\<forall>x \<in> set ss. segment_ok x"
    using assms(1) unfolding memory_ok_def by blast
  have count: "count_segments (md_segment md) 0 0 = Some (Inr (length ss))"
    using count_segments_describes [OF ss, of 0] by simp
  show ?thesis
  proof (cases "m_framebuffer s")
    case (Some b)
    let ?n = "(length ss + 510) div 511"
    consider (refused) "\<exists>rc. createGMR h hm i (Some md) s = Some ((rc, None), s)"
      | (made) hseg where "HasCapability SVGA_CAP_GMR (dev b)" "ss \<noteq> []" "length ss + ?n \<le> unat (m_max_gmr_descriptor_length (dev b))"
          "helper_alloc hm ?n = Some hseg" "helper_prepare hm = kIOReturnSuccess"
      using Some count by (fastforce simp: createGMR_def Let_def not_less split: if_splits option.splits)
    then show ?thesis
    proof cases
      case made
      obtain pp where "helper_ok hseg ?n pp" using assms(2) made(4) unfolding helper_provides_def by blast
      from createGMR_describes_layout [OF Some made(1) ss made(2) refl made(3,4,5) this, of h i]
      show ?thesis by auto
    qed auto
  qed (simp add: createGMR_def)
qed


text \<open>Calls on the buffers of a list, by index; a call on a buffer that does not exist is none.\<close>

datatype buffer_call = Prepare nat gmr_helper | Complete nat

fun buffer_do :: "host \<Rightarrow> buffer_call \<Rightarrow> transfer_buffer list \<times> accel \<Rightarrow> (transfer_buffer list \<times> accel) option" where
  "buffer_do h (Prepare i hm) (bs, s) =
    (if length bs \<le> i then Some (bs, s)
     else do {
       (_, t, p) \<leftarrow> buffer_prepare h hm (bs ! i) (Some s);
       Some (bs[i := t], the p)
     })"
| "buffer_do h (Complete i) (bs, s) =
    (if length bs \<le> i then Some (bs, s)
     else do {
       (t, p) \<leftarrow> buffer_complete h (bs ! i) (Some s);
       Some (bs[i := t], the p)
     })"

fun buffer_calls :: "host \<Rightarrow> buffer_call list \<Rightarrow> transfer_buffer list \<times> accel \<Rightarrow> (transfer_buffer list \<times> accel) option" where
  "buffer_calls h [] st = Some st"
| "buffer_calls h (c # cs) st = do { st \<leftarrow> buffer_do h c st; buffer_calls h cs st }"

text \<open>The numbers the buffers hold.\<close>

definition held_ids :: "transfer_buffer list \<Rightarrow> nat set" where
  "held_ids bs = {unat (gmr_id (bs ! i)) | i. i < length bs \<and> isIdValid (gmr_id (bs ! i))}"

definition ids_distinct :: "transfer_buffer list \<Rightarrow> bool" where
  "ids_distinct bs \<longleftrightarrow> (\<forall>i j. i < length bs \<longrightarrow> j < length bs \<longrightarrow> i \<noteq> j \<longrightarrow> isIdValid (gmr_id (bs ! i)) \<longrightarrow> gmr_id (bs ! i) \<noteq> gmr_id (bs ! j))"

text \<open>Memory is wired just while the device knows it.\<close>

definition buffer_ok :: "transfer_buffer \<Rightarrow> bool" where
  "buffer_ok b \<longleftrightarrow> tb_fence b = 0 \<and> (isIdValid (gmr_id b) \<longrightarrow> tb_md b \<noteq> None) \<and>
     (\<forall>md. tb_md b = Some md \<longrightarrow> memory_ok md \<and> md_wired md = (if isIdValid (gmr_id b) then 1 else 0))"

definition buffers_ok :: "nat set \<Rightarrow> transfer_buffer list \<times> accel \<Rightarrow> bool" where
  "buffers_ok R st \<longleftrightarrow> (case st of (bs, s) \<Rightarrow> gmr_inv (accel_ids s) \<and> gmr_ids_used (accel_ids s) = R \<union> held_ids bs \<and>
     R \<inter> held_ids bs = {} \<and> held_ids bs \<subseteq> {..<128} \<and> ids_distinct bs \<and> (\<forall>b \<in> set bs. buffer_ok b))"

lemma held_ids_update:
  assumes "i < length bs" and "ids_distinct bs"
  shows "held_ids (bs[i := t]) = held_ids bs - (if isIdValid (gmr_id (bs ! i)) then {unat (gmr_id (bs ! i))} else {}) \<union>
    (if isIdValid (gmr_id t) then {unat (gmr_id t)} else {})"
proof -
  have other: "unat (gmr_id (bs ! j)) \<noteq> unat (gmr_id (bs ! i))" if "isIdValid (gmr_id (bs ! i))" "j < length bs" "j \<noteq> i" for j
    using assms that unfolding ids_distinct_def by (metis word_unat_eq_iff)
  show ?thesis
  proof (rule set_eqI)
    fix x
    have "x \<in> held_ids (bs[i := t]) \<longleftrightarrow> (isIdValid (gmr_id t) \<and> x = unat (gmr_id t)) \<or>
        (\<exists>j. j < length bs \<and> j \<noteq> i \<and> isIdValid (gmr_id (bs ! j)) \<and> x = unat (gmr_id (bs ! j)))"
      using assms(1) unfolding held_ids_def by (auto simp: nth_list_update)
    moreover have "x \<in> held_ids bs - (if isIdValid (gmr_id (bs ! i)) then {unat (gmr_id (bs ! i))} else {}) \<longleftrightarrow>
        (\<exists>j. j < length bs \<and> j \<noteq> i \<and> isIdValid (gmr_id (bs ! j)) \<and> x = unat (gmr_id (bs ! j)))"
      using assms(1) other unfolding held_ids_def by auto
    ultimately show "x \<in> held_ids (bs[i := t]) \<longleftrightarrow> x \<in> held_ids bs - (if isIdValid (gmr_id (bs ! i)) then {unat (gmr_id (bs ! i))} else {}) \<union>
        (if isIdValid (gmr_id t) then {unat (gmr_id t)} else {})" by auto
  qed
qed

lemma ids_distinct_update:
  assumes "ids_distinct bs" and "isIdValid (gmr_id t) \<Longrightarrow> unat (gmr_id t) \<notin> held_ids bs"
  shows "ids_distinct (bs[i := t])"
  unfolding ids_distinct_def
proof (intro allI impI)
  fix j k
  assume jk: "j < length (bs[i := t])" "k < length (bs[i := t])" "j \<noteq> k" "isIdValid (gmr_id (bs[i := t] ! j))"
  have new: "gmr_id (bs ! l) \<noteq> gmr_id t" if "l < length bs" "isIdValid (gmr_id t)" for l
    using assms(2) that unfolding held_ids_def by auto
  show "gmr_id (bs[i := t] ! j) \<noteq> gmr_id (bs[i := t] ! k)"
    using jk new assms(1) unfolding ids_distinct_def by (cases "j = i"; cases "k = i") (auto, metis)
qed


lemma buffers_ok_gain:
  assumes "buffers_ok R (bs, s)" and "i < length bs" and "\<not> isIdValid (gmr_id (bs ! i))" and "buffer_ok t"
    and "gmr_inv (accel_ids s')"
    and "gmr_ids_used (accel_ids s') = gmr_ids_used (accel_ids s) \<union> (if isIdValid (gmr_id t) then {unat (gmr_id t)} else {})"
    and "isIdValid (gmr_id t) \<Longrightarrow> unat (gmr_id t) \<notin> gmr_ids_used (accel_ids s) \<and> unat (gmr_id t) < 128"
  shows "buffers_ok R (bs[i := t], s')"
proof -
  have d: "ids_distinct bs" and used: "gmr_ids_used (accel_ids s) = R \<union> held_ids bs" using assms(1) by (simp_all add: buffers_ok_def)
  have held: "held_ids (bs[i := t]) = held_ids bs \<union> (if isIdValid (gmr_id t) then {unat (gmr_id t)} else {})"
    using held_ids_update [OF assms(2) d, of t] assms(3) by simp
  have "ids_distinct (bs[i := t])" using assms(7) used by (intro ids_distinct_update [OF d]) auto
  moreover have "\<forall>b \<in> set (bs[i := t]). buffer_ok b"
    using assms(1,4) set_update_subset_insert [of bs i t] by (auto simp: buffers_ok_def)
  ultimately show ?thesis
    using assms(1,5,6,7) used held by (auto simp: buffers_ok_def split: if_splits)
qed

lemma buffers_ok_lose:
  assumes "buffers_ok R (bs, s)" and "i < length bs" and "isIdValid (gmr_id (bs ! i))" and "buffer_ok t" and "\<not> isIdValid (gmr_id t)"
    and "accel_ids s' = FreeGMRID (gmr_id (bs ! i)) (accel_ids s)"
  shows "buffers_ok R (bs[i := t], s')"
proof -
  have d: "ids_distinct bs" and inv: "gmr_inv (accel_ids s)" using assms(1) by (simp_all add: buffers_ok_def)
  have held: "held_ids (bs[i := t]) = held_ids bs - {unat (gmr_id (bs ! i))}"
    using held_ids_update [OF assms(2) d, of t] assms(3,5) by simp
  have "unat (gmr_id (bs ! i)) \<in> held_ids bs" using assms(2,3) unfolding held_ids_def by blast
  then have i: "unat (gmr_id (bs ! i)) < 128" "unat (gmr_id (bs ! i)) \<notin> R" using assms(1) by (auto simp: buffers_ok_def)
  then have "gmr_id (bs ! i) < 128" by (simp add: word_less_nat_alt)
  then have free: "gmr_inv (accel_ids s')" "gmr_ids_used (accel_ids s') = gmr_ids_used (accel_ids s) - {unat (gmr_id (bs ! i))}"
    using gmr_free [OF inv, of "gmr_id (bs ! i)"] by (simp_all add: assms(6))
  have "ids_distinct (bs[i := t])" using assms(5) by (intro ids_distinct_update [OF d]) simp
  moreover have "\<forall>b \<in> set (bs[i := t]). buffer_ok b"
    using assms(1,4) set_update_subset_insert [of bs i t] by (auto simp: buffers_ok_def)
  ultimately show ?thesis
    using assms(1) i(2) free held by (auto simp: buffers_ok_def)
qed

lemma invalid_minus_one [simp]: "\<not> isIdValid (- 1)"
  by (simp add: isIdValid_def)

lemma prepare_ok:
  assumes "buffers_ok R (bs, s)" and "i < length bs" and "helper_provides hm"
  shows "\<exists>rc t s'. buffer_prepare h hm (bs ! i) (Some s) = Some (rc, t, Some s') \<and> buffers_ok R (bs[i := t], s')"
proof (cases "isIdValid (gmr_id (bs ! i)) \<or> tb_md (bs ! i) = None")
  case True
  then have "\<exists>rc. buffer_prepare h hm (bs ! i) (Some s) = Some (rc, bs ! i, Some s)"
    by (auto simp: buffer_prepare_def)
  then show ?thesis using assms(1) by auto
next
  case False
  then obtain md where b: "\<not> isIdValid (gmr_id (bs ! i))" "tb_md (bs ! i) = Some md" by auto
  have inv: "gmr_inv (accel_ids s)" and ok: "buffer_ok (bs ! i)" using assms(1,2) by (simp_all add: buffers_ok_def)
  then have md: "memory_ok md" "md_wired md = 0" "tb_fence (bs ! i) = 0" using b by (auto simp: buffer_ok_def)
  obtain g ids where alloc: "AllocGMRID (accel_ids s) = (g, ids)" by fastforce
  let ?s = "s\<lparr>accel_ids := ids\<rparr>"
  note a = gmr_Alloc [OF inv, unfolded alloc fst_conv snd_conv]
  have neg: "g <s 0 \<longleftrightarrow> \<not> isIdValid g" by (simp add: isIdValid_def signed.not_less [symmetric])
  have none: "buffer_ok ((bs ! i)\<lparr>gmr_id := j\<rparr>)" if "\<not> isIdValid j" for j
    using that md b(2) by (simp add: buffer_ok_def)
  have returned: "gmr_inv (FreeGMRID g ids)" "gmr_ids_used (FreeGMRID g ids) = gmr_ids_used (accel_ids s)" if "isIdValid g"
    using a(2) neg that gmr_free [OF a(1), of g] by (auto simp: word_less_nat_alt)
  consider (full) "\<not> isIdValid g" | (unwired) "isIdValid g" "md_prepare md \<noteq> kIOReturnSuccess" | (wired) "isIdValid g" "md_prepare md = kIOReturnSuccess"
    by blast
  then show ?thesis
  proof cases
    case full
    have "buffers_ok R (bs[i := (bs ! i)\<lparr>gmr_id := g\<rparr>], ?s)"
      using a(1,3) neg full none by (intro buffers_ok_gain [OF assms(1,2) b(1)]) simp_all
    then show ?thesis using b alloc full by (auto simp: buffer_prepare_def)
  next
    case unwired
    have "buffers_ok R (bs[i := (bs ! i)\<lparr>gmr_id := - 1\<rparr>], s\<lparr>accel_ids := FreeGMRID g ids\<rparr>)"
      using returned [OF unwired(1)] none by (intro buffers_ok_gain [OF assms(1,2) b(1)]) simp_all
    then show ?thesis using b alloc unwired by (auto simp: buffer_prepare_def)
  next
    case wired
    obtain rc table t where c: "createGMR h hm g (Some md) ?s = Some ((rc, table), t)" "accel_ids t = ids"
      using createGMR_returns [OF md(1) assms(3), of h g ?s] by auto
    show ?thesis
    proof (cases "rc = kIOReturnSuccess")
      case True
      let ?t = "(bs ! i)\<lparr>gmr_id := g, tb_md := Some (md\<lparr>md_wired := md_wired md + 1\<rparr>)\<rparr>"
      have "memory_ok (md\<lparr>md_wired := md_wired md + 1\<rparr>)" using md(1) by (simp add: memory_ok_def)
      then have "buffer_ok ?t" using md wired(1) by (simp add: buffer_ok_def)
      then have "buffers_ok R (bs[i := ?t], t)"
        using a(1,2) neg wired(1) c(2) by (intro buffers_ok_gain [OF assms(1,2) b(1)]) simp_all
      then show ?thesis using b alloc wired c(1) True by (auto simp: buffer_prepare_def)
    next
      case False
      have "buffers_ok R (bs[i := (bs ! i)\<lparr>gmr_id := - 1\<rparr>], t\<lparr>accel_ids := FreeGMRID g ids\<rparr>)"
        using returned [OF wired(1)] none by (intro buffers_ok_gain [OF assms(1,2) b(1)]) simp_all
      then show ?thesis using b alloc wired c False by (auto simp: buffer_prepare_def)
    qed
  qed
qed

lemma destroyGMR_returns: "\<exists>rc t. destroyGMR h i s = Some (rc, t) \<and> accel_ids t = accel_ids s"
  by (auto simp: destroyGMR_def with_device_def split: option.split prod.split)

lemma complete_ok:
  assumes "buffers_ok R (bs, s)" and "i < length bs"
  shows "\<exists>t s'. buffer_complete h (bs ! i) (Some s) = Some (t, Some s') \<and> buffers_ok R (bs[i := t], s')"
proof -
  have ok: "buffer_ok (bs ! i)" using assms by (simp add: buffers_ok_def)
  then have sync: "buffer_sync h (bs ! i) (Some s) = Some (bs ! i, Some s)" by (simp add: buffer_sync_def buffer_ok_def)
  show ?thesis
  proof (cases "isIdValid (gmr_id (bs ! i))")
    case True
    then obtain md where md: "tb_md (bs ! i) = Some md" "memory_ok md" "md_wired md = 1" "tb_fence (bs ! i) = 0"
      using ok by (auto simp: buffer_ok_def)
    obtain rc t where t: "destroyGMR h (gmr_id (bs ! i)) s = Some (rc, t)" "accel_ids t = accel_ids s"
      using destroyGMR_returns by blast
    let ?t = "(bs ! i)\<lparr>tb_md := Some (md\<lparr>md_wired := 0\<rparr>), gmr_id := - 1\<rparr>"
    have "memory_ok (md\<lparr>md_wired := 0\<rparr>)" using md(2) by (simp add: memory_ok_def)
    then have "buffer_ok ?t" using md by (simp add: buffer_ok_def)
    then have "buffers_ok R (bs[i := ?t], t\<lparr>accel_ids := FreeGMRID (gmr_id (bs ! i)) (accel_ids s)\<rparr>)"
      by (intro buffers_ok_lose [OF assms True]) simp_all
    then show ?thesis using True t md by (auto simp: buffer_complete_def sync)
  next
    case False
    then show ?thesis using assms by (auto simp: buffer_complete_def sync)
  qed
qed

fun helpers_ok :: "buffer_call \<Rightarrow> bool" where
  "helpers_ok (Prepare i hm) \<longleftrightarrow> helper_provides hm"
| "helpers_ok (Complete i) \<longleftrightarrow> True"

lemma buffer_calls_ok:
  "buffers_ok R (bs, s) \<Longrightarrow> \<forall>c \<in> set cs. helpers_ok c \<Longrightarrow> \<exists>bs' s'. buffer_calls h cs (bs, s) = Some (bs', s') \<and> buffers_ok R (bs', s')"
proof (induction cs arbitrary: bs s)
  case (Cons c cs)
  have "\<exists>bs' s'. buffer_do h c (bs, s) = Some (bs', s') \<and> buffers_ok R (bs', s')"
  proof (cases c)
    case (Prepare i hm)
    with prepare_ok [OF Cons.prems(1), of i hm h] Cons.prems show ?thesis by (cases "length bs \<le> i") (auto simp: not_le)
  next
    case (Complete i)
    with complete_ok [OF Cons.prems(1), of i h] Cons.prems show ?thesis by (cases "length bs \<le> i") (auto simp: not_le)
  qed
  with Cons.IH Cons.prems(2) show ?case by fastforce
qed simp


text \<open>C6: Transfer buffers never share a guest memory region and leak none: whatever sequence of \<open>prepare\<close> and
  \<open>complete\<close> calls, on any buffers, succeeding or failing at any point, runs after the start, every call
  returns, no two buffers hold the same number, every number is one the device has, the numbers marked
  as used are exactly those of the buffers and those the device does not have, and the memory of a buffer
  is wired once while the buffer holds a region and not at all otherwise.\<close>

theorem transfer_buffers_isolated:
  assumes "accel_ids s = accel_ids_start max_gmr_ids accel_ids_init" and "\<forall>c \<in> set cs. helpers_ok c"
    and "\<forall>b \<in> set bs. gmr_id b = SVGA_ID_INVALID \<and> tb_fence b = 0 \<and> (\<forall>md. tb_md b = Some md \<longrightarrow> memory_ok md \<and> md_wired md = 0)"
  shows "\<exists>bs' s'. buffer_calls h cs (bs, s) = Some (bs', s') \<and> ids_distinct bs' \<and>
    held_ids bs' \<subseteq> {..<min (unat max_gmr_ids) 128} \<and> gmr_ids_used (accel_ids s') = {unat max_gmr_ids..<128} \<union> held_ids bs' \<and>
    (\<forall>b \<in> set bs'. \<forall>md. tb_md b = Some md \<longrightarrow> md_wired md = (if isIdValid (gmr_id b) then 1 else 0))"
proof -
  have "gmr_id (bs ! i) = - 1" if "i < length bs" for i using assms(3) that by (metis nth_mem)
  then have none: "held_ids bs = {}" "ids_distinct bs"
    unfolding held_ids_def ids_distinct_def by auto
  have "buffers_ok {unat max_gmr_ids..<128} (bs, s)"
    using assms(3) by (auto simp: buffers_ok_def none assms(1) gmr_inv_start gmr_ids_used_start buffer_ok_def)
  from buffer_calls_ok [OF this assms(2), of h] obtain bs' s' where
    st: "buffer_calls h cs (bs, s) = Some (bs', s')" "buffers_ok {unat max_gmr_ids..<128} (bs', s')" by blast
  then have "held_ids bs' \<subseteq> {..<128}" "{unat max_gmr_ids..<128} \<inter> held_ids bs' = {}" by (simp_all add: buffers_ok_def)
  then have "x < min (unat max_gmr_ids) 128" if "x \<in> held_ids bs'" for x
  proof -
    have "x < 128" "x \<notin> {unat max_gmr_ids..<128}" using that \<open>held_ids bs' \<subseteq> {..<128}\<close> \<open>_ \<inter> held_ids bs' = {}\<close> by blast+
    then show ?thesis by simp
  qed
  then have "held_ids bs' \<subseteq> {..<min (unat max_gmr_ids) 128}" by blast
  with st show ?thesis by (auto simp: buffers_ok_def buffer_ok_def)
qed

lemma transfer_buffers_isolated_witness:
  "let md = \<lparr>md_segment = \<lambda>off. if off = 0 then (0x5000, 0x1000) else (0, 0), md_length = 0x1000,
       md_prepare = kIOReturnSuccess, md_wired = 0\<rparr>;
     hm = \<lparr>helper_alloc = \<lambda>n. if n = 1 then Some (\<lambda>_. (0x77000, 0x1000)) else None, helper_prepare = kIOReturnSuccess\<rparr>;
     b = \<lparr>gart_ptr = 0, tb_md = Some md, gmr_id = SVGA_ID_INVALID, tb_fence = 0\<rparr>
   in \<exists>bs' s'. buffer_calls drain_host [Prepare 0 hm, Prepare 1 hm, Complete 0, Prepare 2 hm] ([b, b, b], accel_sample) = Some (bs', s') \<and>
     ids_distinct bs' \<and> held_ids bs' \<subseteq> {..<min (unat (64 :: u32)) 128} \<and>
     gmr_ids_used (accel_ids s') = {unat (64 :: u32)..<128} \<union> held_ids bs' \<and>
     (\<forall>b \<in> set bs'. \<forall>md. tb_md b = Some md \<longrightarrow> md_wired md = (if isIdValid (gmr_id b) then 1 else 0))"
  unfolding Let_def
proof (rule transfer_buffers_isolated)
  let ?md = "\<lparr>md_segment = \<lambda>off. if off = 0 then (0x5000, 0x1000) else (0, 0), md_length = 0x1000,
       md_prepare = kIOReturnSuccess, md_wired = 0\<rparr>"
  have "describes (md_segment ?md) 0 [(0x5000, 0x1000)]" "\<forall>x \<in> set [(0x5000, 0x1000)]. segment_ok x"
    by (simp_all add: segment_ok_def)
  then have "memory_ok ?md" unfolding memory_ok_def by blast
  then show "\<forall>b \<in> set [\<lparr>gart_ptr = 0, tb_md = Some ?md, gmr_id = SVGA_ID_INVALID, tb_fence = 0\<rparr>, \<lparr>gart_ptr = 0, tb_md = Some ?md, gmr_id = SVGA_ID_INVALID, tb_fence = 0\<rparr>,
      \<lparr>gart_ptr = 0, tb_md = Some ?md, gmr_id = SVGA_ID_INVALID, tb_fence = 0\<rparr>].
      gmr_id b = SVGA_ID_INVALID \<and> tb_fence b = 0 \<and> (\<forall>md. tb_md b = Some md \<longrightarrow> memory_ok md \<and> md_wired md = 0)" by simp
  have "helper_ok (\<lambda>_. (0x77000, 0x1000)) 1 (\<lambda>_. 0x77)" by (simp add: helper_ok_def contiguous_def)
  then show "\<forall>c \<in> set [Prepare 0 \<lparr>helper_alloc = \<lambda>n. if n = 1 then Some (\<lambda>_. (0x77000, 0x1000)) else None, helper_prepare = kIOReturnSuccess\<rparr>,
      Prepare 1 \<lparr>helper_alloc = \<lambda>n. if n = 1 then Some (\<lambda>_. (0x77000, 0x1000)) else None, helper_prepare = kIOReturnSuccess\<rparr>, Complete 0,
      Prepare 2 \<lparr>helper_alloc = \<lambda>n. if n = 1 then Some (\<lambda>_. (0x77000, 0x1000)) else None, helper_prepare = kIOReturnSuccess\<rparr>]. helpers_ok c"
    by (auto simp: helper_provides_def)
qed (simp add: accel_sample_def)

end
