(* ===== verification/Surface.thy ===== *)
theory Surface
  imports GuestMemory
begin

text \<open>
  The surfaces (\<^verbatim>\<open>AC/UC/VMsvga2Surface.cpp\<close>): each window of the window server is a user client that keeps its
  pixels in a backing, video memory or a guest memory region, which it sends to the screen through the accelerator.

  An operation takes and returns the surface \<open>s\<close> and the accelerator \<open>a\<close>, and the kernel's memory \<open>m\<close> where the
  CPU copies pixels.  \<open>None\<close> is a call that does not return.  \<^verbatim>\<open>m_provider\<close> is set from \<^verbatim>\<open>start\<close> to
  \<^verbatim>\<open>clientClose\<close>; the calls that the source guards against a null provider look at \<open>has_provider\<close>, the others are
  not made without one.
\<close>

section \<open>What the kernel provides\<close>

text \<open>
  Mappings and the memory descriptors the surface asks for, as the kernel answers; a mapping is its address and
  length.  \<open>k_client_memory\<close> is \<^verbatim>\<open>withAddressRange\<close> for the owning task, \<open>k_buffer\<close> and \<open>k_trick\<close> the buffers by
  size, \<open>k_vram_map\<close> a mapping of video memory by task, offset and size, \<open>k_shape\<close> whether \<^verbatim>\<open>OSData\<close> takes the
  shape, \<open>k_info_size\<close> \<^verbatim>\<open>sizeof(IOAccelSurfaceInformation)\<close>, and \<open>k_readback i\<close> the pixel \<open>i\<close> that the host
  leaves in the buffer of \<open>detectBlitBug\<close>.
\<close>

record memory_map =
  map_address :: u64
  map_length :: u64

record kit =
  k_client_memory :: "u64 \<Rightarrow> u64 \<Rightarrow> nat \<Rightarrow> memory_descriptor option"
  k_buffer :: "u64 \<Rightarrow> memory_descriptor option"
  k_trick :: "u64 \<Rightarrow> memory_descriptor option"
  k_helper :: gmr_helper
  k_map :: "nat \<Rightarrow> memory_descriptor \<Rightarrow> memory_map option"
  k_kernel_map :: "memory_descriptor \<Rightarrow> memory_map option"
  k_vram_map :: "nat \<Rightarrow> u64 \<Rightarrow> u64 \<Rightarrow> memory_map option"
  k_shape :: bool
  k_info_size :: nat
  k_readback :: "nat \<Rightarrow> u32"

type_synonym memory = "u64 \<Rightarrow> u8"

section \<open>State\<close>

text \<open>
  \<^verbatim>\<open>IOAccelSurfaceScaling\<close>, of whose \<^verbatim>\<open>reserved\<close> the driver uses three: the size of the source rounded up to
  pages, its pitch, and the byte offset of the buffer within it.
\<close>

record scaling =
  sc_buffer :: bounds
  source_w :: i16
  source_h :: i16
  reserved0 :: u32
  reserved1 :: u32
  reserved2 :: u32

text \<open>\<open>bk_self\<close> is the address of the block of video memory, 0 if there is none.\<close>

record backing =
  bk_self :: nat
  bk_offset :: u64
  bk_size :: u64
  bk_map :: "nat \<Rightarrow> memory_map option"
  vtb :: transfer_buffer

record client_backing =
  cb_addr :: u64
  cb_rowbytes :: u64
  cb_size :: u64

text \<open>
  \<open>m_video_unit\<close> is the overlay unit as an array of dwords, by register number.  \<open>m_last_shape\<close> says that the
  object whose bytes \<open>m_last_region\<close> points at exists.
\<close>

record surface =
  surface_task :: nat
  has_provider :: bool
  bHaveID :: bool
  bHaveMasterSurface :: bool
  bVideoMode :: bool
  bDirectBlit :: bool
  bHaveScreen :: bool
  bSkipWriteLockOnce :: bool
  bIsLocked :: u8
  m_wID :: u32
  m_surfaceFormat :: u32
  m_bytes_per_pixel :: u32
  m_pixel_format :: u32
  m_backing :: backing
  m_client_backing :: client_backing
  m_last_shape :: bool
  m_last_region :: "region option"
  m_framebufferIndex :: u32
  m_scale :: scaling
  m_screenInfo :: screen_info
  m_stream_id :: u32
  m_video_format :: u32
  m_video_unit :: "nat \<Rightarrow> u32"

abbreviation (input) vmSurfaceLockRead :: nat where "vmSurfaceLockRead \<equiv> 0"
abbreviation (input) vmSurfaceLockWrite :: nat where "vmSurfaceLockWrite \<equiv> 1"
abbreviation (input) vmSurfaceLockContext :: nat where "vmSurfaceLockContext \<equiv> 2"

abbreviation (input) SVGA3D_X8R8G8B8 :: u32 where "SVGA3D_X8R8G8B8 \<equiv> 1"
abbreviation (input) SVGA3D_A8R8G8B8 :: u32 where "SVGA3D_A8R8G8B8 \<equiv> 2"
abbreviation (input) SVGA3D_X1R5G5B5 :: u32 where "SVGA3D_X1R5G5B5 \<equiv> 4"
abbreviation (input) SVGA3D_UYVY :: u32 where "SVGA3D_UYVY \<equiv> 42"
abbreviation (input) SVGA3D_YUY2 :: u32 where "SVGA3D_YUY2 \<equiv> 43"
abbreviation (input) SVGA3D_WRITE_HOST_VRAM :: u32 where "SVGA3D_WRITE_HOST_VRAM \<equiv> 1"
abbreviation (input) SVGA3D_READ_HOST_VRAM :: u32 where "SVGA3D_READ_HOST_VRAM \<equiv> 2"
abbreviation (input) SVGA3D_STRETCH_BLT_LINEAR :: u32 where "SVGA3D_STRETCH_BLT_LINEAR \<equiv> 1"

abbreviation (input) VMWARE_FOURCC_YUY2 :: u32 where "VMWARE_FOURCC_YUY2 \<equiv> 0x32595559"
abbreviation (input) VMWARE_FOURCC_UYVY :: u32 where "VMWARE_FOURCC_UYVY \<equiv> 0x59565955"

text \<open>Constants of the system's headers: the modes of a surface, the shape bits and the pixel formats.\<close>

abbreviation (input) kIOAccelSurfaceModeColorDepth1555 :: u32 where "kIOAccelSurfaceModeColorDepth1555 \<equiv> 3"
abbreviation (input) kIOAccelSurfaceModeColorDepth8888 :: u32 where "kIOAccelSurfaceModeColorDepth8888 \<equiv> 4"
abbreviation (input) kIOAccelSurfaceModeColorDepthYUV :: u32 where "kIOAccelSurfaceModeColorDepthYUV \<equiv> 6"
abbreviation (input) kIOAccelSurfaceModeColorDepthYUV2 :: u32 where "kIOAccelSurfaceModeColorDepthYUV2 \<equiv> 9"
abbreviation (input) kIOAccelSurfaceModeColorDepthBGRA32 :: u32 where "kIOAccelSurfaceModeColorDepthBGRA32 \<equiv> 10"
abbreviation (input) kIOAccelSurfaceModeColorDepthBits :: u32 where "kIOAccelSurfaceModeColorDepthBits \<equiv> 15"
abbreviation (input) kIOAccelSurfaceModeWindowedBit :: u32 where "kIOAccelSurfaceModeWindowedBit \<equiv> 32"
abbreviation (input) kIOAccelSurfaceShapeIdentityScaleBit :: u32 where "kIOAccelSurfaceShapeIdentityScaleBit \<equiv> 4"
abbreviation (input) kIOYUVSPixelFormat :: u32 where "kIOYUVSPixelFormat \<equiv> 0x79757673"
abbreviation (input) kIO2vuyPixelFormat :: u32 where "kIO2vuyPixelFormat \<equiv> 0x32767579"
abbreviation (input) kIO32BGRAPixelFormat :: u32 where "kIO32BGRAPixelFormat \<equiv> 0x42475241"

section \<open>Small functions\<close>

definition round_up_to_power2 :: "u32 \<Rightarrow> u32 \<Rightarrow> u32" where
  "round_up_to_power2 x p = (x + p - 1) AND - p"

definition page_residue :: "u64 \<Rightarrow> u64" where
  "page_residue addr = addr AND 4095"

definition isRegionEmpty :: "region option \<Rightarrow> bool" where
  "isRegionEmpty rgn =
    (case rgn of None \<Rightarrow> False
     | Some r \<Rightarrow> rects r \<noteq> [] \<and> (r_w (hd (rects r)) \<le>s 0 \<or> r_h (hd (rects r)) \<le>s 0))"

text \<open>The kernel's atomic bit operations on a byte, whose bits count from the top.\<close>

definition OSTestAndSet :: "nat \<Rightarrow> u8 \<Rightarrow> bool \<times> u8" where
  "OSTestAndSet n b = (b AND drop_bit n 128 \<noteq> 0, b OR drop_bit n 128)"

definition OSTestAndClear :: "nat \<Rightarrow> u8 \<Rightarrow> u8" where
  "OSTestAndClear n b = b AND NOT (drop_bit n 128)"

definition release_lock :: "nat \<Rightarrow> surface \<Rightarrow> surface" where
  "release_lock n s = s\<lparr>bIsLocked := OSTestAndClear n (bIsLocked s)\<rparr>"

definition haveFrontBuffer :: "surface \<Rightarrow> bool" where
  "haveFrontBuffer s \<longleftrightarrow> bHaveScreen s \<or> bHaveMasterSurface s"

definition isBackingValid :: "surface \<Rightarrow> bool" where
  "isBackingValid s \<longleftrightarrow> bk_self (m_backing s) \<noteq> 0 \<or> tb_md (vtb (m_backing s)) \<noteq> None"

definition classifyBacking :: "surface \<Rightarrow> nat" where
  "classifyBacking s =
    (if bk_self (m_backing s) \<noteq> 0 then 1
     else if tb_md (vtb (m_backing s)) \<noteq> None then if gart_ptr (vtb (m_backing s)) \<noteq> 0 then 2 else 1
     else 0)"

definition hasSourceGrown :: "surface \<Rightarrow> bool" where
  "hasSourceGrown s \<longleftrightarrow> ucast (reserved0 (m_scale s)) > bk_size (m_backing s)"

definition isSourceValid :: "surface \<Rightarrow> bool" where
  "isSourceValid s \<longleftrightarrow> 0 <s source_w (m_scale s) \<and> 0 <s source_h (m_scale s)"

definition isClientBackingValid :: "surface \<Rightarrow> bool" where
  "isClientBackingValid s \<longleftrightarrow> cb_addr (m_client_backing s) \<noteq> 0"

text \<open>Only called with a region; without one the source faults.\<close>

definition isIdentityScale :: "region \<Rightarrow> surface \<Rightarrow> bool" where
  "isIdentityScale last_region s \<longleftrightarrow>
    r_w (sc_buffer (m_scale s)) = r_w (bounding last_region) \<and> r_h (sc_buffer (m_scale s)) = r_h (bounding last_region)"

definition clearLastRegion :: "surface \<Rightarrow> surface" where
  "clearLastRegion s = (if m_last_region s \<noteq> None then s\<lparr>m_last_region := None, m_framebufferIndex := 0\<rparr> else s)"

record surface_information =
  si_address :: u64
  si_width :: u32
  si_height :: u32
  si_rowBytes :: u32
  si_pixelFormat :: u32
  si_colorTemperature :: u32

text \<open>\<open>None\<close>: the mapping whose address is asked for does not exist.\<close>

definition calculateSurfaceInformation :: "surface \<Rightarrow> surface_information option" where
  "calculateSurfaceInformation s = do {
     addr \<leftarrow> (if isClientBackingValid s then Some (cb_addr (m_client_backing s))
              else map_option map_address (bk_map (m_backing s) 0));
     Some \<lparr>si_address = addr + ucast (reserved2 (m_scale s)),
       si_width = scast (r_w (sc_buffer (m_scale s))), si_height = scast (r_h (sc_buffer (m_scale s))),
       si_rowBytes = reserved1 (m_scale s), si_pixelFormat = m_pixel_format s, si_colorTemperature = 0x1CCCC\<rparr>
   }"

definition calculateScaleParameters :: "bool \<Rightarrow> surface \<Rightarrow> surface" where
  "calculateScaleParameters bFromGFB s =
    (let sc = m_scale s;
         (size', pitch) =
           (if bFromGFB then (info_y (m_screenInfo s), client_row_bytes (m_screenInfo s))
            else if isClientBackingValid s
            then (ucast (cb_size (m_client_backing s) + page_residue (cb_addr (m_client_backing s))),
                  ucast (cb_rowbytes (m_client_backing s)))
            else let pitch = int_of (source_w sc) * m_bytes_per_pixel s in (int_of (source_h sc) * pitch, pitch))
     in s\<lparr>m_scale := sc\<lparr>reserved0 := round_up_to_power2 size' 4096, reserved1 := pitch,
          reserved2 := int_of (r_y (sc_buffer sc)) * pitch + int_of (r_x (sc_buffer sc)) * m_bytes_per_pixel s\<rparr>\<rparr>)"

text \<open>One side of a rectangle: its start and extent, the shift and the extent of the buffer; \<^verbatim>\<open>int\<close> and \<^verbatim>\<open>SInt16\<close> wrap.\<close>

definition clip_side :: "u32 \<Rightarrow> i16 \<Rightarrow> i16 \<times> i16 \<Rightarrow> i16 \<times> i16" where
  "clip_side delta limit = (\<lambda>(x, w).
     let x' = int_of x + delta;
         (x, w, x') = (if x' <s 0 then (ucast (- delta), ucast (int_of w + x'), 0) else (x, w, x'));
         w = (if int_of limit <s x' + int_of w then ucast (int_of limit - x') else w)
     in (x, if w <s 0 then 0 else w))"

definition clip_rect :: "u32 \<Rightarrow> u32 \<Rightarrow> bounds \<Rightarrow> bounds \<Rightarrow> bounds" where
  "clip_rect deltaX deltaY buf rect =
    (let (x, w) = clip_side deltaX (r_w buf) (r_x rect, r_w rect);
         (y, h) = clip_side deltaY (r_h buf) (r_y rect, r_h rect)
     in \<lparr>r_x = x, r_y = y, r_w = w, r_h = h\<rparr>)"

definition clipRegionToBuffer :: "region \<Rightarrow> u32 \<Rightarrow> u32 \<Rightarrow> surface \<Rightarrow> region" where
  "clipRegionToBuffer rgn deltaX deltaY s = rgn\<lparr>rects := map (clip_rect deltaX deltaY (sc_buffer (m_scale s))) (rects rgn)\<rparr>"

section \<open>The backing\<close>

text \<open>\<open>m_provider\<close> as the calls that check it see it, and the accelerator after such a call.\<close>

definition provider_of :: "surface \<Rightarrow> accel \<Rightarrow> accel option" where
  "provider_of s a = (if has_provider s then Some a else None)"

definition after_provider :: "accel option \<Rightarrow> accel \<Rightarrow> accel" where
  "after_provider p a = (case p of None \<Rightarrow> a | Some a \<Rightarrow> a)"

definition set_vtb :: "transfer_buffer \<Rightarrow> surface \<Rightarrow> surface" where
  "set_vtb t s = s\<lparr>m_backing := (m_backing s)\<lparr>vtb := t\<rparr>\<rparr>"

text \<open>The call stores a fence into \<^verbatim>\<open>m_backing.vtb.fence\<close>, if it got that far.\<close>

definition set_fence :: "u32 option \<Rightarrow> surface \<Rightarrow> surface" where
  "set_fence f s = (case f of None \<Rightarrow> s | Some f \<Rightarrow> set_vtb ((vtb (m_backing s))\<lparr>tb_fence := f\<rparr>) s)"

definition backing_none :: backing where
  "backing_none = \<lparr>bk_self = 0, bk_offset = 0, bk_size = 0, bk_map = (\<lambda>_. None),
     vtb = buffer_init \<lparr>gart_ptr = 0, tb_md = None, gmr_id = 0, tb_fence = 0\<rparr>\<rparr>"

definition complete_backing :: "host \<Rightarrow> surface \<Rightarrow> accel \<Rightarrow> (surface \<times> accel) option" where
  "complete_backing h s a = do {
     (t, p) \<leftarrow> buffer_complete h (vtb (m_backing s)) (provider_of s a);
     Some (set_vtb (buffer_discard t) s, after_provider p a)
   }"

definition releaseBackingMap :: "nat \<Rightarrow> surface \<Rightarrow> surface" where
  "releaseBackingMap i s =
    (if i \<ge> 2 then s else s\<lparr>m_backing := (m_backing s)\<lparr>bk_map := (bk_map (m_backing s))(i := None)\<rparr>\<rparr>)"

definition releaseBacking :: "host \<Rightarrow> surface \<Rightarrow> accel \<Rightarrow> (surface \<times> accel) option" where
  "releaseBacking h s a = do {
     (s, a) \<leftarrow> complete_backing h s a;
     let a = (if has_provider s \<and> bk_self (m_backing s) \<noteq> 0
              then a\<lparr>accel_vram := VRAMFree (bk_self (m_backing s)) (accel_vram a)\<rparr> else a);
     Some (s\<lparr>m_backing := backing_none\<rparr>, a)
   }"

text \<open>The descriptor becomes the backing if a region can be made of it; \<open>mark\<close> says whose memory it is.\<close>

definition prepare_backing :: "host \<Rightarrow> kit \<Rightarrow> memory_descriptor \<Rightarrow> u32 \<Rightarrow> surface \<Rightarrow> accel \<Rightarrow> (bool \<times> surface \<times> accel) option" where
  "prepare_backing h k md mark s a = do {
     (rc, t, p) \<leftarrow> buffer_prepare h (k_helper k) ((vtb (m_backing s))\<lparr>tb_md := Some md\<rparr>) (provider_of s a);
     let a = after_provider p a;
     Some (if rc \<noteq> kIOReturnSuccess then (False, set_vtb (t\<lparr>tb_md := None\<rparr>) s, a)
           else (True, set_vtb (t\<lparr>gart_ptr := mark, tb_fence := 0\<rparr>) s, a))
   }"

definition wrapClientBacking :: "host \<Rightarrow> kit \<Rightarrow> surface \<Rightarrow> accel \<Rightarrow> (bool \<times> surface \<times> accel) option" where
  "wrapClientBacking h k s a =
    (if classifyBacking s = 2 \<and> gart_ptr (vtb (m_backing s)) = 1 then Some (True, s, a)
     else do {
       (s, a) \<leftarrow> (if classifyBacking s = 0 then Some (s, a) else releaseBacking h s a);
       let addr = cb_addr (m_client_backing s);
       let s = s\<lparr>m_backing := (m_backing s)\<lparr>bk_offset := page_residue addr, bk_size := ucast (reserved0 (m_scale s))\<rparr>\<rparr>;
       case k_client_memory k (addr AND - 4096) (bk_size (m_backing s)) (surface_task s) of
         None \<Rightarrow> Some (False, s, a)
       | Some md \<Rightarrow> prepare_backing h k md 1 s a
     })"

definition allocGMRBacking :: "host \<Rightarrow> kit \<Rightarrow> surface \<Rightarrow> accel \<Rightarrow> (bool \<times> surface \<times> accel) option" where
  "allocGMRBacking h k s a =
    (case k_buffer k (bk_size (m_backing s)) of None \<Rightarrow> Some (False, s, a)
     | Some md \<Rightarrow> prepare_backing h k md 0 (s\<lparr>m_backing := (m_backing s)\<lparr>bk_offset := 0\<rparr>\<rparr>) a)"

text \<open>Without a provider, that is after the surface's client has closed, the allocator is called through a null pointer.\<close>

definition allocBacking :: "host \<Rightarrow> kit \<Rightarrow> surface \<Rightarrow> accel \<Rightarrow> (bool \<times> surface \<times> accel) option" where
  "allocBacking h k s a =
    (if cb_addr (m_client_backing s) \<noteq> 0 then wrapClientBacking h k s a
     else if classifyBacking s = 1 \<and> \<not> hasSourceGrown s then Some (True, s, a)
     else do {
       (s, a) \<leftarrow>
         (if classifyBacking s = 1 then complete_backing h (releaseBackingMap 1 (releaseBackingMap 0 s)) a
          else if classifyBacking s = 2 then releaseBacking h s a
          else Some (s, a));
       let n = ucast (reserved0 (m_scale s));
       (q, v) \<leftarrow> (if has_provider s then VRAMRealloc (bk_self (m_backing s)) (unat n) (accel_vram a) else None);
       let a = a\<lparr>accel_vram := v\<rparr>;
       let s = s\<lparr>m_backing := (m_backing s)\<lparr>bk_size := n, bk_self := q\<rparr>\<rparr>;
       if q = 0 then allocGMRBacking h k s a
       else Some (True, s\<lparr>m_backing := (m_backing s)\<lparr>bk_offset := of_nat q - of_nat (client_addr (m_screenInfo s)),
              vtb := (vtb (m_backing s))\<lparr>gmr_id := GMR_VRAM, tb_fence := 0\<rparr>\<rparr>\<rparr>, a)
     })"

text \<open>\<^verbatim>\<open>mapVRAMRangeForTask\<close> asks the kernel, which has the video memory's descriptor.\<close>

definition mapBacking :: "kit \<Rightarrow> nat \<Rightarrow> nat \<Rightarrow> surface \<Rightarrow> bool \<times> surface" where
  "mapBacking k for_task i s =
    (let b = m_backing s
     in if i \<ge> 2 then (False, s)
        else if bk_map b i \<noteq> None then (True, s)
        else let p = (if bk_self b \<noteq> 0 then k_vram_map k for_task (bk_offset b) (bk_size b)
                      else case tb_md (vtb b) of None \<Rightarrow> None | Some md \<Rightarrow> k_map k for_task md)
        in (p \<noteq> None, s\<lparr>m_backing := b\<lparr>bk_map := (bk_map b)(i := p)\<rparr>\<rparr>))"

text \<open>The address of the buffer in the kernel and the bytes from there on; the mapping made for it is released by the caller.\<close>

definition obtainKernelPtrs :: "kit \<Rightarrow> surface \<Rightarrow> ioreturn \<times> u64 \<times> u64" where
  "obtainKernelPtrs k s =
    (let b = m_backing s; off = ucast (reserved2 (m_scale s))
     in case tb_md (vtb b) of
       Some md \<Rightarrow>
         (case k_kernel_map k md of None \<Rightarrow> (kIOReturnError, 0, 0)
          | Some m \<Rightarrow> (kIOReturnSuccess, map_address m + (bk_offset b + off), map_length m - (bk_offset b + off)))
     | None \<Rightarrow>
         if bk_self b \<noteq> 0 then (kIOReturnSuccess, of_nat (bk_self b) + off, bk_size b - off)
         else (kIOReturnNotReady, 0, 0))"

section \<open>Output through the accelerator\<close>

text \<open>The stores of \<open>n\<close> dwords into a block of video memory.\<close>

definition vram_fill :: "nat \<Rightarrow> nat \<Rightarrow> nat \<Rightarrow> vram \<Rightarrow> vram" where
  "vram_fill ptr n x v =
    v\<lparr>allocator := map_option (\<lambda>s. fold (\<lambda>i. store ((ptr - poolStart s) div 4 + i) x) [0..<n] s) (allocator v)\<rparr>"

definition extra_none :: extra_info where
  "extra_none = \<lparr>mem_offset_in_gmr = 0, mem_pitch = 0, srcDeltaX = 0, srcDeltaY = 0, dstDeltaX = 0, dstDeltaY = 0, mem_gmr_id = 0\<rparr>"

text \<open>The exit of \<open>detectBlitBug\<close>: the buffer and the surface are given back.\<close>

definition blit_bug_exit :: "host \<Rightarrow> nat \<Rightarrow> ioreturn \<Rightarrow> accel \<Rightarrow> (ioreturn \<times> accel) option" where
  "blit_bug_exit h ptr rc a = do {
     let a = (if ptr \<noteq> 0 then a\<lparr>accel_vram := VRAMFree ptr (accel_vram a)\<rparr> else a);
     (_, a) \<leftarrow> destroySurface h 666 a;
     Some (rc, a)
   }"

definition detectBlitBug :: "host \<Rightarrow> kit \<Rightarrow> surface \<Rightarrow> accel \<Rightarrow> (ioreturn \<times> accel) option" where
  "detectBlitBug h k s a =
    (if \<not> has_provider s then Some (kIOReturnNotReady, a)
     else do {
       (rc, a) \<leftarrow> createSurface h 666 0 SVGA3D_X8R8G8B8 10 10 a;
       if rc \<noteq> kIOReturnSuccess then Some (kIOReturnError, a)
       else do {
         (ptr, v) \<leftarrow> VRAMMalloc 4096 (accel_vram a);
         let a = a\<lparr>accel_vram := v\<rparr>;
         if ptr = 0 then blit_bug_exit h ptr kIOReturnNoMemory a
         else do {
           let a = a\<lparr>accel_vram := vram_fill ptr 25 0xFF00 (accel_vram a)\<rparr>;
           let rgn = Some (set_region 0 0 5 5);
           let extra = extra_none\<lparr>mem_gmr_id := GMR_VRAM,
             mem_offset_in_gmr := of_nat ptr - of_nat (client_addr (m_screenInfo s)), mem_pitch := 20\<rparr>;
           ((rc, _), a) \<leftarrow> surfaceDMA2D h 666 SVGA3D_WRITE_HOST_VRAM rgn (Some (extra\<lparr>dstDeltaX := 5, dstDeltaY := 5\<rparr>)) False a;
           if rc \<noteq> kIOReturnSuccess then blit_bug_exit h ptr kIOReturnError a
           else do {
             ((rc, _), a) \<leftarrow> surfaceDMA2D h 666 SVGA3D_READ_HOST_VRAM rgn (Some extra) False a;
             if rc \<noteq> kIOReturnSuccess then blit_bug_exit h ptr kIOReturnError a
             else do {
               (_, a) \<leftarrow> accel_SyncFIFO h a;
               blit_bug_exit h ptr (if list_all (\<lambda>i. k_readback k i = 0xFF000000) [0..<25] then kIOReturnSuccess else kIOReturnUnsupported) a
             }
           }
         }
       }
     })"

definition Start3D :: "host \<Rightarrow> kit \<Rightarrow> surface \<Rightarrow> accel \<Rightarrow> (surface \<times> accel) option" where
  "Start3D h k s a =
    (let s = s\<lparr>bHaveScreen := bHaveScreenObject a\<rparr>
     in if \<not> has_provider s then None
     else if bHaveScreen s then Some (s, a)
     else do {
       (got, a) \<leftarrow> retainMasterSurface h a;
       let s = s\<lparr>bHaveMasterSurface := got\<rparr>;
       if \<not> got then Some (s, a)
       else if checkOptionAC VMW_OPTION_AC_DIRECT_BLIT a then Some (s\<lparr>bDirectBlit := True\<rparr>, a)
       else if m_blitbug_result a = kIOReturnNotFound then do {
         (rc, a) \<leftarrow> detectBlitBug h k s a;
         Some (s\<lparr>bDirectBlit := rc = kIOReturnSuccess\<rparr>, a\<lparr>m_blitbug_result := rc\<rparr>)
       }
       else Some (s\<lparr>bDirectBlit := m_blitbug_result a = kIOReturnSuccess\<rparr>, a)
     })"

definition Cleanup3D :: "host \<Rightarrow> surface \<Rightarrow> accel \<Rightarrow> (surface \<times> accel) option" where
  "Cleanup3D h s a =
    (if \<not> has_provider s \<or> \<not> haveFrontBuffer s then Some (s, a)
     else do {
       a \<leftarrow> (if bHaveMasterSurface s then releaseMasterSurface h a else Some a);
       Some (s\<lparr>bHaveMasterSurface := False, bHaveScreen := False\<rparr>, a)
     })"

text \<open>The description of the backing for the device, and the shift that takes screen coordinates to the buffer.\<close>

definition backing_extra :: "surface \<Rightarrow> extra_info" where
  "backing_extra s = extra_none\<lparr>mem_gmr_id := gmr_id (vtb (m_backing s)),
     mem_offset_in_gmr := bk_offset (m_backing s) + ucast (reserved2 (m_scale s)), mem_pitch := ucast (reserved1 (m_scale s))\<rparr>"

definition screen_shift :: "region \<Rightarrow> u32 \<times> u32" where
  "screen_shift rgn = (- int_of (r_x (bounding rgn)), - int_of (r_y (bounding rgn)))"

definition src_shifted :: "u32 \<times> u32 \<Rightarrow> extra_info \<Rightarrow> extra_info" where
  "src_shifted p e = e\<lparr>srcDeltaX := fst p, srcDeltaY := snd p\<rparr>"

definition DMAOutDirect :: "host \<Rightarrow> bool \<Rightarrow> surface \<Rightarrow> accel \<Rightarrow> (ioreturn \<times> surface \<times> accel) option" where
  "DMAOutDirect h withFence s a =
    (case m_last_region s of None \<Rightarrow> Some (kIOReturnNotReady, s, a)
     | Some rgn \<Rightarrow>
         if \<not> isBackingValid s then Some (kIOReturnNotReady, s, a)
         else do {
           ((rc, f), a) \<leftarrow> surfaceDMA2D h (m_master_surface_id a) SVGA3D_WRITE_HOST_VRAM (Some rgn)
             (Some (src_shifted (screen_shift rgn) (backing_extra s))) withFence a;
           Some (if rc \<noteq> kIOReturnSuccess then kIOReturnDMAError else kIOReturnSuccess, set_fence f s, a)
         })"

text \<open>An auxiliary surface of the host: its number and the surface, or neither; and its end.\<close>

definition new_aux :: "host \<Rightarrow> u32 \<Rightarrow> u32 \<Rightarrow> u32 \<Rightarrow> accel \<Rightarrow> (bool \<times> u32 \<times> accel) option" where
  "new_aux h format w ht a =
    (let (sid, i) = AllocSurfaceID (accel_ids a); a = a\<lparr>accel_ids := i\<rparr>
     in do {
       (rc, a) \<leftarrow> createSurface h sid 0 format w ht a;
       Some (rc = kIOReturnSuccess, sid,
         if rc \<noteq> kIOReturnSuccess then a\<lparr>accel_ids := FreeSurfaceID sid (accel_ids a)\<rparr> else a)
     })"

definition end_aux :: "host \<Rightarrow> u32 \<Rightarrow> accel \<Rightarrow> accel option" where
  "end_aux h sid a = do {
     (_, a) \<leftarrow> destroySurface h sid a;
     Some (a\<lparr>accel_ids := FreeSurfaceID sid (accel_ids a)\<rparr>)
   }"

definition buffer_w :: "surface \<Rightarrow> u32" where "buffer_w s = int_of (r_w (sc_buffer (m_scale s)))"
definition buffer_h :: "surface \<Rightarrow> u32" where "buffer_h s = int_of (r_h (sc_buffer (m_scale s)))"

definition DMAOutWithCopy :: "host \<Rightarrow> bool \<Rightarrow> surface \<Rightarrow> accel \<Rightarrow> (ioreturn \<times> surface \<times> accel) option" where
  "DMAOutWithCopy h withFence s a =
    (case m_last_region s of None \<Rightarrow> Some (kIOReturnNotReady, s, a)
     | Some rgn \<Rightarrow>
         if \<not> isBackingValid s then Some (kIOReturnNotReady, s, a)
         else let (deltaX, deltaY) = screen_shift rgn in do {
           (ok, sid, a) \<leftarrow> new_aux h (m_surfaceFormat s) (buffer_w s) (buffer_h s) a;
           if \<not> ok then Some (kIOReturnNoResources, s, a)
           else do {
             ((rc, f), a) \<leftarrow> surfaceDMA2D h sid SVGA3D_WRITE_HOST_VRAM (Some rgn)
               (Some ((src_shifted (deltaX, deltaY) (backing_extra s))\<lparr>dstDeltaX := deltaX, dstDeltaY := deltaY\<rparr>)) withFence a;
             let s = set_fence f s;
             if rc \<noteq> kIOReturnSuccess then do { a \<leftarrow> end_aux h sid a; Some (kIOReturnDMAError, s, a) }
             else do {
               (rc, a) \<leftarrow> surfaceCopy h sid (m_master_surface_id a) (Some rgn) (Some (src_shifted (deltaX, deltaY) extra_none)) a;
               a \<leftarrow> end_aux h sid a;
               Some (if rc \<noteq> kIOReturnSuccess then kIOReturnNotWritable else kIOReturnSuccess, s, a)
             }
           }
         })"

definition DMAOutStretchWithCopy :: "host \<Rightarrow> bool \<Rightarrow> surface \<Rightarrow> accel \<Rightarrow> (ioreturn \<times> surface \<times> accel) option" where
  "DMAOutStretchWithCopy h withFence s a =
    (case m_last_region s of None \<Rightarrow> Some (kIOReturnNotReady, s, a)
     | Some rgn \<Rightarrow>
         if \<not> isBackingValid s then Some (kIOReturnNotReady, s, a)
         else do {
           (ok, aux1, a) \<leftarrow> new_aux h (m_surfaceFormat s) (buffer_w s) (buffer_h s) a;
           if \<not> ok then Some (kIOReturnNoResources, s, a)
           else let tmpRegion = set_region 0 0 (buffer_w s) (buffer_h s) in do {
             ((rc, f), a) \<leftarrow> surfaceDMA2D h aux1 SVGA3D_WRITE_HOST_VRAM (Some tmpRegion) (Some (backing_extra s)) withFence a;
             let s = set_fence f s;
             if rc \<noteq> kIOReturnSuccess then do { a \<leftarrow> end_aux h aux1 a; Some (kIOReturnDMAError, s, a) }
             else let dest = (bounding rgn)\<lparr>r_x := 0, r_y := 0\<rparr> in do {
               (ok, aux0, a) \<leftarrow> new_aux h (m_surfaceFormat s) (int_of (r_w dest)) (int_of (r_h dest)) a;
               if \<not> ok then do { a \<leftarrow> end_aux h aux1 a; Some (kIOReturnNoResources, s, a) }
               else do {
                 (rc, a) \<leftarrow> surfaceStretch h aux1 aux0 SVGA3D_STRETCH_BLT_LINEAR (bounding tmpRegion) dest a;
                 a \<leftarrow> end_aux h aux1 a;
                 if rc \<noteq> kIOReturnSuccess then do { a \<leftarrow> end_aux h aux0 a; Some (kIOReturnNotWritable, s, a) }
                 else do {
                   (rc, a) \<leftarrow> surfaceCopy h aux0 (m_master_surface_id a) (Some rgn)
                     (Some (src_shifted (screen_shift rgn) extra_none)) a;
                   a \<leftarrow> end_aux h aux0 a;
                   Some (if rc \<noteq> kIOReturnSuccess then kIOReturnNotWritable else kIOReturnSuccess, s, a)
                 }
               }
             }
           }
         })"

definition doPresent :: "host \<Rightarrow> surface \<Rightarrow> accel \<Rightarrow> (ioreturn \<times> accel) option" where
  "doPresent h s a =
    (case m_last_region s of None \<Rightarrow> Some (kIOReturnNotReady, a)
     | Some rgn \<Rightarrow> do {
         (rc, a) \<leftarrow> surfacePresentAutoSync h (m_master_surface_id a) (Some rgn) (Some extra_none) a;
         Some (if rc \<noteq> kIOReturnSuccess then kIOReturnIOError else kIOReturnSuccess, a)
       })"

definition ScreenObjectOutDirect :: "host \<Rightarrow> bool \<Rightarrow> surface \<Rightarrow> accel \<Rightarrow> (ioreturn \<times> surface \<times> accel) option" where
  "ScreenObjectOutDirect h withFence s a =
    (case m_last_region s of None \<Rightarrow> Some (kIOReturnNotReady, s, a)
     | Some rgn \<Rightarrow>
         if \<not> isBackingValid s then Some (kIOReturnNotReady, s, a)
         else do {
           ((rc, f), a) \<leftarrow> blitToScreen h (m_framebufferIndex s) (Some rgn)
             (Some (src_shifted (screen_shift rgn) (backing_extra s))) withFence a;
           Some (if rc \<noteq> kIOReturnSuccess then kIOReturnDMAError else kIOReturnSuccess, set_fence f s, a)
         })"

definition ScreenObjectOutVia3D :: "host \<Rightarrow> bool \<Rightarrow> surface \<Rightarrow> accel \<Rightarrow> (ioreturn \<times> surface \<times> accel) option" where
  "ScreenObjectOutVia3D h withFence s a =
    (case m_last_region s of None \<Rightarrow> Some (kIOReturnNotReady, s, a)
     | Some rgn \<Rightarrow>
         if \<not> isBackingValid s then Some (kIOReturnNotReady, s, a)
         else do {
           (ok, sid, a) \<leftarrow> new_aux h (m_surfaceFormat s) (buffer_w s) (buffer_h s) a;
           if \<not> ok then Some (kIOReturnNoResources, s, a)
           else let tmpRegion = set_region 0 0 (buffer_w s) (buffer_h s) in do {
             ((rc, f), a) \<leftarrow> surfaceDMA2D h sid SVGA3D_WRITE_HOST_VRAM (Some tmpRegion) (Some (backing_extra s)) withFence a;
             let s = set_fence f s;
             if rc \<noteq> kIOReturnSuccess then do { a \<leftarrow> end_aux h sid a; Some (kIOReturnDMAError, s, a) }
             else do {
               (rc, a) \<leftarrow> blitSurfaceToScreen h sid (m_framebufferIndex s) (bounding tmpRegion) (Some rgn) a;
               a \<leftarrow> end_aux h sid a;
               Some (if rc \<noteq> kIOReturnSuccess then kIOReturnNotWritable else kIOReturnSuccess, s, a)
             }
           }
         })"

definition GFBOutDirect :: "host \<Rightarrow> kit \<Rightarrow> surface \<Rightarrow> accel \<Rightarrow> memory \<Rightarrow> (ioreturn \<times> accel \<times> memory) option" where
  "GFBOutDirect h k s a m =
    (case m_last_region s of None \<Rightarrow> Some (kIOReturnNotReady, a, m)
     | Some rgn \<Rightarrow>
         if \<not> isBackingValid s then Some (kIOReturnNotReady, a, m)
         else let (rc, base, limit) = obtainKernelPtrs k s
         in if rc \<noteq> kIOReturnSuccess then Some (rc, a, m)
         else let (rc, m) = blitGFB (Some rgn)
                (Some ((backing_extra s)\<lparr>mem_offset_in_gmr := 0, dstDeltaX := fst (screen_shift rgn), dstDeltaY := snd (screen_shift rgn)\<rparr>))
                base limit True a m
         in if rc \<noteq> kIOReturnSuccess then Some (kIOReturnDMAError, a, m)
         else do {
           (_, a) \<leftarrow> UpdateFramebufferAutoRing h (Some [int_of (r_x (bounding rgn)), int_of (r_y (bounding rgn)),
             int_of (r_w (bounding rgn)), int_of (r_h (bounding rgn))]) a;
           Some (kIOReturnSuccess, a, m)
         })"

section \<open>Video\<close>

text \<open>\<^verbatim>\<open>memset32\<close> of \<open>n\<close> dwords, little endian.\<close>

definition memset32 :: "u64 \<Rightarrow> u32 \<Rightarrow> nat \<Rightarrow> memory \<Rightarrow> memory" where
  "memset32 dst x n m = (\<lambda>p. if unat (p - dst) < 4 * n then ucast (drop_bit (8 * (unat (p - dst) mod 4)) x) else m p)"

definition clear_yuv_to_black :: "u64 \<Rightarrow> u64 \<Rightarrow> surface \<Rightarrow> memory \<Rightarrow> memory" where
  "clear_yuv_to_black buf n s m =
    (if m_video_format s = VMWARE_FOURCC_UYVY then memset32 buf 0x10801080 (unat n div 4) m
     else if m_video_format s = VMWARE_FOURCC_YUY2 then memset32 buf 0x80108010 (unat n div 4) m
     else m)"

definition setup_trick_buffer :: "kit \<Rightarrow> surface \<Rightarrow> memory \<Rightarrow> ioreturn \<times> surface \<times> memory" where
  "setup_trick_buffer k s m =
    (if \<not> isBackingValid s then (kIOReturnNotReady, s, m)
     else case k_trick k (bk_size (m_backing s)) of None \<Rightarrow> (kIOReturnNoMemory, s, m)
     | Some md \<Rightarrow>
         if md_prepare md \<noteq> kIOReturnSuccess then (kIOReturnNoMemory, s, m)
         else case k_kernel_map k md of None \<Rightarrow> (kIOReturnNoMemory, s, m)
         | Some p \<Rightarrow>
             let m = clear_yuv_to_black (map_address p) (bk_size (m_backing s)) s m;
                 s = releaseBackingMap 0 s;
                 b = m_backing s
             in (kIOReturnSuccess, s\<lparr>m_backing := b\<lparr>bk_map := (bk_map b)(0 := k_map k (surface_task s) md)\<rparr>\<rparr>, m))"

text \<open>The registers of the overlay unit.\<close>

abbreviation (input) SVGA_VIDEO_ENABLED :: nat where "SVGA_VIDEO_ENABLED \<equiv> 0"
abbreviation (input) SVGA_VIDEO_DATA_OFFSET :: nat where "SVGA_VIDEO_DATA_OFFSET \<equiv> 2"
abbreviation (input) SVGA_VIDEO_FORMAT :: nat where "SVGA_VIDEO_FORMAT \<equiv> 3"
abbreviation (input) SVGA_VIDEO_SIZE :: nat where "SVGA_VIDEO_SIZE \<equiv> 5"
abbreviation (input) SVGA_VIDEO_WIDTH :: nat where "SVGA_VIDEO_WIDTH \<equiv> 6"
abbreviation (input) SVGA_VIDEO_HEIGHT :: nat where "SVGA_VIDEO_HEIGHT \<equiv> 7"
abbreviation (input) SVGA_VIDEO_SRC_X :: nat where "SVGA_VIDEO_SRC_X \<equiv> 8"
abbreviation (input) SVGA_VIDEO_SRC_Y :: nat where "SVGA_VIDEO_SRC_Y \<equiv> 9"
abbreviation (input) SVGA_VIDEO_SRC_WIDTH :: nat where "SVGA_VIDEO_SRC_WIDTH \<equiv> 10"
abbreviation (input) SVGA_VIDEO_SRC_HEIGHT :: nat where "SVGA_VIDEO_SRC_HEIGHT \<equiv> 11"
abbreviation (input) SVGA_VIDEO_DST_X :: nat where "SVGA_VIDEO_DST_X \<equiv> 12"
abbreviation (input) SVGA_VIDEO_DST_Y :: nat where "SVGA_VIDEO_DST_Y \<equiv> 13"
abbreviation (input) SVGA_VIDEO_DST_WIDTH :: nat where "SVGA_VIDEO_DST_WIDTH \<equiv> 14"
abbreviation (input) SVGA_VIDEO_DST_HEIGHT :: nat where "SVGA_VIDEO_DST_HEIGHT \<equiv> 15"
abbreviation (input) SVGA_VIDEO_PITCH_1 :: nat where "SVGA_VIDEO_PITCH_1 \<equiv> 16"
abbreviation (input) SVGA_VIDEO_DATA_GMRID :: nat where "SVGA_VIDEO_DATA_GMRID \<equiv> 19"
abbreviation (input) SVGA_VIDEO_DST_SCREEN_ID :: nat where "SVGA_VIDEO_DST_SCREEN_ID \<equiv> 20"

definition setVideoDest :: "surface \<Rightarrow> bool \<times> surface" where
  "setVideoDest s =
    (case m_last_region s of None \<Rightarrow> (False, s)
     | Some rgn \<Rightarrow>
         if isRegionEmpty (Some rgn)
         then (True, s\<lparr>m_video_unit := (m_video_unit s)(SVGA_VIDEO_DST_X := 0, SVGA_VIDEO_DST_Y := 0, SVGA_VIDEO_DST_WIDTH := 0,
                SVGA_VIDEO_DST_HEIGHT := 0)\<rparr>)
         else let b = bounding rgn
         in (True, s\<lparr>m_video_unit := (m_video_unit s)(SVGA_VIDEO_DST_X := int_of (r_x b), SVGA_VIDEO_DST_Y := int_of (r_y b),
                SVGA_VIDEO_DST_WIDTH := int_of (r_w b), SVGA_VIDEO_DST_HEIGHT := int_of (r_h b))\<rparr>))"

definition setVideoRegs :: "surface \<Rightarrow> bool \<times> surface" where
  "setVideoRegs s =
    (if \<not> isBackingValid s then (False, s)
     else let sc = m_scale s; b = sc_buffer sc; height = int_of (source_h sc) in
       (True, s\<lparr>m_video_unit := (\<lambda>_. 0)(SVGA_VIDEO_DATA_OFFSET := ucast (bk_offset (m_backing s)),
          SVGA_VIDEO_FORMAT := m_video_format s, SVGA_VIDEO_WIDTH := int_of (source_w sc), SVGA_VIDEO_HEIGHT := height,
          SVGA_VIDEO_SRC_X := int_of (r_x b), SVGA_VIDEO_SRC_Y := int_of (r_y b),
          SVGA_VIDEO_SRC_WIDTH := int_of (r_w b), SVGA_VIDEO_SRC_HEIGHT := int_of (r_h b),
          SVGA_VIDEO_PITCH_1 := reserved1 sc, SVGA_VIDEO_SIZE := height * reserved1 sc,
          SVGA_VIDEO_DATA_GMRID := gmr_id (vtb (m_backing s)), SVGA_VIDEO_DST_SCREEN_ID := m_framebufferIndex s)\<rparr>))"

definition videoReshape :: "host \<Rightarrow> surface \<Rightarrow> accel \<Rightarrow> (surface \<times> accel) option" where
  "videoReshape h s a =
    (if \<not> bVideoMode s \<or> m_video_unit s SVGA_VIDEO_ENABLED = 0 then Some (s, a)
     else let (ok, s) = setVideoDest s
     in if \<not> ok then Some (s, a)
     else do {
       ((_, f), a) \<leftarrow> accel_VideoSetRegsInRange h (m_stream_id s) (Some (m_video_unit s)) (of_nat SVGA_VIDEO_DST_X)
         (of_nat SVGA_VIDEO_DST_HEIGHT) True a;
       Some (set_fence f s, a)
     })"

definition surface_video_off :: "host \<Rightarrow> surface \<Rightarrow> accel \<Rightarrow> (surface \<times> accel) option" where
  "surface_video_off h s a =
    (if \<not> bVideoMode s \<or> m_video_unit s SVGA_VIDEO_ENABLED = 0 then Some (s, a)
     else do {
       let s = s\<lparr>m_video_unit := (m_video_unit s)(SVGA_VIDEO_ENABLED := 0)\<rparr>;
       (_, a) \<leftarrow> accel_VideoSetReg h (m_stream_id s) (of_nat SVGA_VIDEO_ENABLED) 0 False a;
       let a = a\<lparr>accel_ids := FreeStreamID (m_stream_id s) (accel_ids a)\<rparr>;
       Some (s\<lparr>m_stream_id := SVGA_ID_INVALID\<rparr>, a)
     })"

definition surface_flush_video :: "host \<Rightarrow> surface \<Rightarrow> accel \<Rightarrow> (ioreturn \<times> surface \<times> accel) option" where
  "surface_flush_video h s a =
    (if \<not> bHaveID s \<or> m_last_region s = None \<or> \<not> isBackingValid s then Some (kIOReturnNotReady, s, a)
     else if \<not> bVideoMode s then Some (kIOReturnUnsupported, s, a)
     else if m_video_unit s SVGA_VIDEO_ENABLED \<noteq> 0 then do {
       ((rc, f), a) \<leftarrow> accel_VideoSetRegsInRange h (m_stream_id s) None 0 0 True a;
       Some (rc, set_fence f s, a)
     }
     else let (i, ids) = AllocStreamID (accel_ids a);
              a = a\<lparr>accel_ids := ids\<rparr>;
              s = s\<lparr>m_stream_id := i\<rparr>
     in if \<not> isIdValid i then Some (kIOReturnNoResources, s, a)
     else let s = snd (setVideoDest (snd (setVideoRegs s)));
              s = s\<lparr>m_video_unit := (m_video_unit s)(SVGA_VIDEO_ENABLED := 1)\<rparr>
     in do {
       ((rc, f), a) \<leftarrow> accel_VideoSetRegsInRange h i (Some (m_video_unit s)) (of_nat SVGA_VIDEO_ENABLED)
         (of_nat SVGA_VIDEO_DST_SCREEN_ID) True a;
       Some (rc, set_fence f s, a)
     })"

section \<open>Life of a surface\<close>

text \<open>The object as the kernel allocates it, all zero.\<close>

definition surface_zero :: surface where
  "surface_zero = \<lparr>surface_task = 0, has_provider = False, bHaveID = False, bHaveMasterSurface = False, bVideoMode = False,
     bDirectBlit = False, bHaveScreen = False, bSkipWriteLockOnce = False, bIsLocked = 0, m_wID = 0, m_surfaceFormat = 0,
     m_bytes_per_pixel = 0, m_pixel_format = 0,
     m_backing = \<lparr>bk_self = 0, bk_offset = 0, bk_size = 0, bk_map = (\<lambda>_. None), vtb = \<lparr>gart_ptr = 0, tb_md = None, gmr_id = 0, tb_fence = 0\<rparr>\<rparr>,
     m_client_backing = \<lparr>cb_addr = 0, cb_rowbytes = 0, cb_size = 0\<rparr>, m_last_shape = False, m_last_region = None,
     m_framebufferIndex = 0,
     m_scale = \<lparr>sc_buffer = \<lparr>r_x = 0, r_y = 0, r_w = 0, r_h = 0\<rparr>, source_w = 0, source_h = 0, reserved0 = 0, reserved1 = 0, reserved2 = 0\<rparr>,
     m_screenInfo = \<lparr>info_x = 0, info_y = 0, info_w = 0, info_h = 0, client_addr = 0, client_row_bytes = 0\<rparr>,
     m_stream_id = 0, m_video_format = 0, m_video_unit = (\<lambda>_. 0)\<rparr>"

definition surface_Init :: "surface \<Rightarrow> surface" where
  "surface_Init s = (set_vtb (buffer_init (vtb (m_backing s))) s)\<lparr>m_stream_id := SVGA_ID_INVALID\<rparr>"

definition surface_initWithTask :: "bool \<Rightarrow> nat \<Rightarrow> surface \<Rightarrow> bool \<times> surface" where
  "surface_initWithTask base_init owningTask s =
    (if \<not> base_init then (False, s) else (True, surface_Init (s\<lparr>surface_task := owningTask\<rparr>)))"

text \<open>\<open>is_accel\<close>: the provider is an accelerator; \<open>base_start\<close>: what the base class answers.\<close>

definition surface_start :: "host \<Rightarrow> kit \<Rightarrow> bool \<Rightarrow> bool \<Rightarrow> surface \<Rightarrow> accel \<Rightarrow> (bool \<times> surface \<times> accel) option" where
  "surface_start h k is_accel base_start s a =
    (let s = s\<lparr>has_provider := is_accel\<rparr>
     in if \<not> is_accel \<or> \<not> base_start then Some (False, s, a)
     else case getScreenInfo True a of
       (kIOReturnSuccess, Some info) \<Rightarrow> do {
         (s, a) \<leftarrow> Start3D h k (s\<lparr>m_screenInfo := info\<rparr>) a;
         Some (True, s, a)
       }
     | _ \<Rightarrow> Some (False, s, a))"

definition surface_Cleanup :: "host \<Rightarrow> surface \<Rightarrow> accel \<Rightarrow> (surface \<times> accel) option" where
  "surface_Cleanup h s a = do {
     (s, a) \<leftarrow> (if has_provider s then do { (s, a) \<leftarrow> Cleanup3D h s a; surface_video_off h s a } else Some (s, a));
     (s, a) \<leftarrow> releaseBacking h s a;
     Some ((clearLastRegion s)\<lparr>m_last_shape := False\<rparr>, a)
   }"

definition surface_clientClose :: "host \<Rightarrow> surface \<Rightarrow> accel \<Rightarrow> (ioreturn \<times> surface \<times> accel) option" where
  "surface_clientClose h s a = do {
     (s, a) \<leftarrow> surface_Cleanup h s a;
     Some (kIOReturnSuccess, s\<lparr>surface_task := 0, has_provider := False\<rparr>, a)
   }"

text \<open>The answer to \<^verbatim>\<open>kIOMessageFindSurface\<close> from the provider: the result, and whether the surface puts itself forward.\<close>

definition surface_message :: "u32 option \<Rightarrow> surface \<Rightarrow> ioreturn \<times> bool" where
  "surface_message cgsSurfaceID s =
    (case cgsSurfaceID of None \<Rightarrow> (kIOReturnBadArgument, False)
     | Some i \<Rightarrow> if \<not> bHaveID s then (kIOReturnNotReady, False) else (kIOReturnSuccess, i = m_wID s))"

section \<open>Locks\<close>

text \<open>\<open>infoSize\<close>: the size of the caller's information structure, if it gave one.\<close>

definition info_given :: "kit \<Rightarrow> nat option \<Rightarrow> bool" where
  "info_given k infoSize \<longleftrightarrow> (case infoSize of None \<Rightarrow> False | Some n \<Rightarrow> k_info_size k \<le> n)"

text \<open>Memory for the client: its own, or a backing that is mapped at index \<open>i\<close> for \<open>task\<close>.\<close>

definition back_and_map :: "host \<Rightarrow> kit \<Rightarrow> nat \<Rightarrow> nat \<Rightarrow> surface \<Rightarrow> accel \<Rightarrow> (bool \<times> surface \<times> accel) option" where
  "back_and_map h k task i s a = do {
     (ok, s, a) \<leftarrow> allocBacking h k s a;
     if \<not> ok then Some (False, s, a)
     else let (ok, s) = mapBacking k task i s in Some (ok, s, a)
   }"

text \<open>The second half of a read lock, once the lock bit is taken.\<close>

definition read_lock_memory :: "host \<Rightarrow> kit \<Rightarrow> surface \<Rightarrow> accel \<Rightarrow> ((ioreturn \<times> surface_information option) \<times> surface \<times> accel) option" where
  "read_lock_memory h k s a = do {
     (ok, s, a) \<leftarrow> (if isClientBackingValid s then Some (True, s, a) else back_and_map h k (surface_task s) 0 s a);
     if \<not> ok then Some ((kIOReturnNoMemory, None), release_lock vmSurfaceLockRead s, a)
     else do {
       info \<leftarrow> calculateSurfaceInformation s;
       Some ((kIOReturnSuccess, Some info), s, a)
     }
   }"

definition surface_read_lock_options :: "host \<Rightarrow> kit \<Rightarrow> nat option \<Rightarrow> surface \<Rightarrow> accel \<Rightarrow>
    ((ioreturn \<times> surface_information option) \<times> surface \<times> accel) option" where
  "surface_read_lock_options h k infoSize s a =
    (if \<not> info_given k infoSize then Some ((kIOReturnBadArgument, None), s, a)
     else if \<not> bHaveID s \<or> \<not> isSourceValid s then Some ((kIOReturnNotReady, None), s, a)
     else let (was, l) = OSTestAndSet vmSurfaceLockRead (bIsLocked s); s = s\<lparr>bIsLocked := l\<rparr>
     in if was then Some ((kIOReturnCannotLock, None), s, a) else read_lock_memory h k s a)"

definition surface_read_unlock_options :: "surface \<Rightarrow> ioreturn \<times> surface" where
  "surface_read_unlock_options s = (kIOReturnSuccess, release_lock vmSurfaceLockRead s)"

definition get_state :: "bool \<Rightarrow> ioreturn \<times> u32 option" where
  "get_state has_state = (kIOReturnSuccess, if has_state then Some 0 else None)"

text \<open>The second half of a write lock, once the lock bit is taken or skipped.\<close>

definition write_lock_memory :: "host \<Rightarrow> kit \<Rightarrow> surface \<Rightarrow> accel \<Rightarrow> ((ioreturn \<times> surface_information option) \<times> surface \<times> accel) option" where
  "write_lock_memory h k s a = do {
     (ok, s, a) \<leftarrow> (if isClientBackingValid s then Some (True, s, a) else back_and_map h k (surface_task s) 0 s a);
     if \<not> ok then Some ((kIOReturnNoMemory, None), release_lock vmSurfaceLockWrite s, a)
     else do {
       info \<leftarrow> calculateSurfaceInformation s;
       if reserved2 (m_scale s) \<noteq> 0 then Some ((kIOReturnSuccess, Some info), s, a)
       else do {
         (t, p) \<leftarrow> buffer_sync h (vtb (m_backing s)) (Some a);
         Some ((kIOReturnSuccess, Some info), set_vtb t s, after_provider p a)
       }
     }
   }"

definition surface_write_lock_options :: "host \<Rightarrow> kit \<Rightarrow> nat option \<Rightarrow> surface \<Rightarrow> accel \<Rightarrow>
    ((ioreturn \<times> surface_information option) \<times> surface \<times> accel) option" where
  "surface_write_lock_options h k infoSize s a =
    (if \<not> info_given k infoSize then Some ((kIOReturnBadArgument, None), s, a)
     else if \<not> bHaveID s \<or> \<not> isSourceValid s then Some ((kIOReturnNotReady, None), s, a)
     else if bSkipWriteLockOnce s then write_lock_memory h k (s\<lparr>bSkipWriteLockOnce := False\<rparr>) a
     else let (was, l) = OSTestAndSet vmSurfaceLockWrite (bIsLocked s); s = s\<lparr>bIsLocked := l\<rparr>
     in if was then Some ((kIOReturnCannotLock, None), s, a) else write_lock_memory h k s a)"

definition surface_write_unlock_options :: "surface \<Rightarrow> ioreturn \<times> surface" where
  "surface_write_unlock_options s = (kIOReturnSuccess, release_lock vmSurfaceLockWrite s)"

definition surface_read :: "surface \<Rightarrow> ioreturn" where
  "surface_read s = kIOReturnUnsupported"

definition surface_query_lock :: "surface \<Rightarrow> ioreturn" where
  "surface_query_lock s =
    (if bIsLocked s AND (drop_bit vmSurfaceLockRead 128 OR drop_bit vmSurfaceLockWrite 128) \<noteq> 0 then kIOReturnCannotLock
     else kIOReturnSuccess)"

text \<open>The second half of \<open>context_lock_memory\<close>.\<close>

definition context_lock_backing :: "host \<Rightarrow> kit \<Rightarrow> nat \<Rightarrow> surface \<Rightarrow> accel \<Rightarrow> memory \<Rightarrow>
    ((ioreturn \<times> (u64 \<times> u32) option) \<times> surface \<times> accel \<times> memory) option" where
  "context_lock_backing h k task s a m = do {
     (ok, s, a) \<leftarrow> back_and_map h k task 1 s a;
     if \<not> ok then Some ((kIOReturnNoMemory, None), release_lock vmSurfaceLockContext s, a, m)
     else do {
       let (s, m) = (if bVideoMode s \<and> (bHaveScreenObject a \<or> \<not> bHaveSVGA3D a)
                     then snd (setup_trick_buffer k s m) else (s, m));
       p \<leftarrow> bk_map (m_backing s) 1;
       Some ((kIOReturnSuccess, Some (map_address p, reserved1 (m_scale s))), s, a, m)
     }
   }"

definition context_lock_memory :: "host \<Rightarrow> kit \<Rightarrow> nat \<Rightarrow> bool \<Rightarrow> surface \<Rightarrow> accel \<Rightarrow> memory \<Rightarrow>
    ((ioreturn \<times> (u64 \<times> u32) option) \<times> surface \<times> accel \<times> memory) option" where
  "context_lock_memory h k task has_result s a m =
    (if \<not> has_result then Some ((kIOReturnBadArgument, None), s, a, m)
     else if \<not> bHaveID s \<or> \<not> isSourceValid s then Some ((kIOReturnNotReady, None), s, a, m)
     else let (was, l) = OSTestAndSet vmSurfaceLockContext (bIsLocked s); s = s\<lparr>bIsLocked := l\<rparr>
     in if was then Some ((kIOReturnCannotLock, None), s, a, m) else context_lock_backing h k task s a m)"

definition context_unlock_memory :: "surface \<Rightarrow> ioreturn \<times> u32 \<times> surface" where
  "context_unlock_memory s = (kIOReturnSuccess, 0, releaseBackingMap 1 (release_lock vmSurfaceLockContext s))"

section \<open>Identity, scale and shape\<close>

text \<open>The surface format, the bytes per pixel and the pixel format of a colour depth, if it is supported.\<close>

definition mode_formats :: "u32 \<Rightarrow> (u32 \<times> u32 \<times> u32) option" where
  "mode_formats depth =
    (if depth = kIOAccelSurfaceModeColorDepth1555 then Some (SVGA3D_X1R5G5B5, 2, kIOAccelSurfaceModeColorDepth1555)
     else if depth = kIOAccelSurfaceModeColorDepth8888 then Some (SVGA3D_X8R8G8B8, 4, kIOAccelSurfaceModeColorDepth8888)
     else if depth = kIOAccelSurfaceModeColorDepthBGRA32 then Some (SVGA3D_A8R8G8B8, 4, kIOAccelSurfaceModeColorDepth8888)
     else if depth = kIOAccelSurfaceModeColorDepthYUV then Some (SVGA3D_YUY2, 2, kIOYUVSPixelFormat)
     else if depth = kIOAccelSurfaceModeColorDepthYUV2 then Some (SVGA3D_UYVY, 2, kIO2vuyPixelFormat)
     else None)"

definition set_id_mode :: "host \<Rightarrow> u64 \<Rightarrow> u32 \<Rightarrow> surface \<Rightarrow> accel \<Rightarrow> (ioreturn \<times> surface \<times> accel) option" where
  "set_id_mode h wID modebits s a = do {
     (rc, a) \<leftarrow>
       (if wID = 1 then
          if \<not> haveFrontBuffer s then Some (kIOReturnUnsupported, a)
          else if bHaveScreen s then createPrimaryScreen h (info_w (m_screenInfo s)) (info_h (m_screenInfo s)) a
          else Some (kIOReturnSuccess, a)
        else Some (kIOReturnSuccess, a));
     if rc \<noteq> kIOReturnSuccess then Some (rc, s, a)
     else if modebits AND NOT (kIOAccelSurfaceModeColorDepthBits OR kIOAccelSurfaceModeWindowedBit) \<noteq> 0
     then Some (kIOReturnUnsupported, s, a)
     else if modebits AND kIOAccelSurfaceModeWindowedBit = 0 then Some (kIOReturnUnsupported, s, a)
     else case mode_formats (modebits AND kIOAccelSurfaceModeColorDepthBits) of
       None \<Rightarrow> Some (kIOReturnUnsupported, s, a)
     | Some (format, bytes, pixels) \<Rightarrow>
         Some (kIOReturnSuccess, s\<lparr>m_surfaceFormat := format, m_bytes_per_pixel := bytes, m_pixel_format := pixels,
           m_wID := ucast wID, bHaveID := True\<rparr>, a)
   }"

text \<open>\<open>scaling\<close>: the caller's structure, if it is given in full.\<close>

definition set_scale :: "scaling option \<Rightarrow> surface \<Rightarrow> ioreturn \<times> surface" where
  "set_scale sc s =
    (case sc of None \<Rightarrow> (kIOReturnBadArgument, s)
     | Some sc \<Rightarrow> (kIOReturnSuccess, calculateScaleParameters False (s\<lparr>m_scale := sc\<rparr>)))"

text \<open>
  The backing a client offers: its row length and size, checked or filled in from the shape; \<open>Inl\<close> refuses.
\<close>

definition accept_client_backing :: "u64 \<Rightarrow> u64 \<Rightarrow> u64 \<Rightarrow> region \<Rightarrow> surface \<Rightarrow> ioreturn + surface" where
  "accept_client_backing addr rowbytes backingLength rgn s =
    (let min_row_bytes = scast (r_w (bounding rgn)) * ucast (m_bytes_per_pixel s)
     in if 0 <s rowbytes \<and> rowbytes < min_row_bytes then Inl kIOReturnOverrun
        else let rowbytes = (if rowbytes \<le>s 0 then min_row_bytes else rowbytes);
                 min_size = scast (r_h (bounding rgn)) * rowbytes
        in if backingLength \<noteq> 0 \<and> backingLength < min_size then Inl kIOReturnOverrun
        else let s = s\<lparr>m_client_backing := \<lparr>cb_addr = addr, cb_rowbytes = rowbytes,
                         cb_size = (if backingLength = 0 then min_size else backingLength)\<rparr>\<rparr>
        in Inr (if gart_ptr (vtb (m_backing s)) \<noteq> 0 then set_vtb ((vtb (m_backing s))\<lparr>gart_ptr := 2\<rparr>) s else s))"

text \<open>The scale that the identity bit asks for.\<close>

definition identity_scale :: "region \<Rightarrow> accel \<Rightarrow> surface \<Rightarrow> surface" where
  "identity_scale rgn a s =
    (let b = bounding rgn
     in if m_wID s \<noteq> 1 \<or> checkOptionAC VMW_OPTION_AC_PACKED_BACKING a
        then calculateScaleParameters False (s\<lparr>m_scale := (m_scale s)\<lparr>source_w := r_w b, source_h := r_h b,
               sc_buffer := \<lparr>r_x = 0, r_y = 0, r_w = r_w b, r_h = r_h b\<rparr>\<rparr>\<rparr>)
        else calculateScaleParameters True (s\<lparr>m_scale := (m_scale s)\<lparr>sc_buffer := b,
               source_w := ucast (info_w (m_screenInfo s)), source_h := ucast (info_h (m_screenInfo s))\<rparr>\<rparr>))"

text \<open>The second half of \<open>set_shape_backing_length_ext\<close>: the region is kept, scaled to if asked, and shown if it is video.\<close>

definition adopt_shape :: "host \<Rightarrow> kit \<Rightarrow> u32 \<Rightarrow> u64 \<Rightarrow> region \<Rightarrow> surface \<Rightarrow> accel \<Rightarrow> (ioreturn \<times> surface \<times> accel) option" where
  "adopt_shape h k options framebufferIndex r s a =
    (if \<not> k_shape k
     then Some (kIOReturnNoMemory, s\<lparr>m_client_backing := \<lparr>cb_addr = 0, cb_rowbytes = 0, cb_size = 0\<rparr>\<rparr>, a)
     else let s = s\<lparr>m_last_shape := True, m_last_region := Some r, m_framebufferIndex := ucast framebufferIndex\<rparr>;
              s = (if options AND kIOAccelSurfaceShapeIdentityScaleBit \<noteq> 0 then identity_scale r a s else s)
     in do {
       (s, a) \<leftarrow> videoReshape h s a;
       Some (kIOReturnSuccess, if m_wID s = 1 \<and> options = 5 then s\<lparr>bSkipWriteLockOnce := True\<rparr> else s, a)
     })"

definition set_shape_backing_length_ext :: "host \<Rightarrow> kit \<Rightarrow> u32 \<Rightarrow> u64 \<Rightarrow> u64 \<Rightarrow> u64 \<Rightarrow> u64 \<Rightarrow> region option \<Rightarrow> nat \<Rightarrow>
    surface \<Rightarrow> accel \<Rightarrow> (ioreturn \<times> surface \<times> accel) option" where
  "set_shape_backing_length_ext h k options framebufferIndex addr rowbytes backingLength rgn rgnSize s a =
    (case rgn of None \<Rightarrow> Some (kIOReturnBadArgument, s, a)
     | Some r \<Rightarrow>
         if rgnSize < IOACCEL_SIZEOF_DEVICE_REGION r then Some (kIOReturnBadArgument, s, a)
         else if rgnSize > 4096 then Some (kIOReturnNoSpace, s, a)
         else let s = (clearLastRegion s)\<lparr>m_client_backing := \<lparr>cb_addr = 0, cb_rowbytes = 0, cb_size = 0\<rparr>\<rparr>
         in if \<not> bVideoMode s \<and> isRegionEmpty rgn then Some (kIOReturnSuccess, s, a)
         else if \<not> bHaveID s then Some (kIOReturnNotReady, s, a)
         else case (if addr = 0 then Inr s else accept_client_backing addr rowbytes backingLength r s) of
           Inl rc \<Rightarrow> Some (rc, s, a)
         | Inr s \<Rightarrow> adopt_shape h k options framebufferIndex r s a)"

definition set_shape_backing :: "host \<Rightarrow> kit \<Rightarrow> u32 \<Rightarrow> u64 \<Rightarrow> u64 \<Rightarrow> u64 \<Rightarrow> region option \<Rightarrow> nat \<Rightarrow> surface \<Rightarrow> accel \<Rightarrow>
    (ioreturn \<times> surface \<times> accel) option" where
  "set_shape_backing h k options framebufferIndex addr rowbytes rgn rgnSize =
    set_shape_backing_length_ext h k options framebufferIndex addr rowbytes 0 rgn rgnSize"

definition set_shape :: "host \<Rightarrow> kit \<Rightarrow> u32 \<Rightarrow> u64 \<Rightarrow> region option \<Rightarrow> nat \<Rightarrow> surface \<Rightarrow> accel \<Rightarrow> (ioreturn \<times> surface \<times> accel) option" where
  "set_shape h k options framebufferIndex rgn rgnSize =
    set_shape_backing_length_ext h k options framebufferIndex 0 (- 1) 0 rgn rgnSize"

definition set_shape_backing_length :: "host \<Rightarrow> kit \<Rightarrow> u32 \<Rightarrow> u64 \<Rightarrow> u64 \<Rightarrow> u64 \<Rightarrow> u64 \<Rightarrow> region option \<Rightarrow> surface \<Rightarrow> accel \<Rightarrow>
    (ioreturn \<times> surface \<times> accel) option" where
  "set_shape_backing_length h k options framebufferIndex addr rowbytes backingLength rgn =
    set_shape_backing_length_ext h k options framebufferIndex addr rowbytes backingLength rgn
      (case rgn of None \<Rightarrow> 0 | Some r \<Rightarrow> IOACCEL_SIZEOF_DEVICE_REGION r)"

section \<open>Flush\<close>

text \<open>\<open>DMA_type\<close>: how the pixels go to the screen, or why they cannot.\<close>

definition DMA_type :: "region \<Rightarrow> surface \<Rightarrow> accel \<Rightarrow> ioreturn + nat" where
  "DMA_type last_region s a =
    (if bHaveScreen s then
       if m_surfaceFormat s = SVGA3D_X8R8G8B8 \<and> isIdentityScale last_region s then Inr 3
       else if \<not> bHaveSVGA3D a then Inl kIOReturnUnsupported
       else Inr 4
     else if bHaveMasterSurface s then
       if \<not> isIdentityScale last_region s then Inr 2
       else if m_surfaceFormat s = SVGA3D_X8R8G8B8 \<and> bDirectBlit s then Inr 0
       else Inr 1
     else if m_surfaceFormat s \<noteq> SVGA3D_X8R8G8B8 \<or> \<not> isIdentityScale last_region s then Inl kIOReturnUnsupported
     else Inr 5)"

definition surface_flush :: "host \<Rightarrow> kit \<Rightarrow> surface \<Rightarrow> accel \<Rightarrow> memory \<Rightarrow> (ioreturn \<times> surface \<times> accel \<times> memory) option" where
  "surface_flush h k s a m =
    (case m_last_region s of None \<Rightarrow> Some (kIOReturnNotReady, s, a, m)
     | Some rgn \<Rightarrow>
         if \<not> bHaveID s \<or> \<not> isBackingValid s then Some (kIOReturnNotReady, s, a, m)
         else if bVideoMode s then Some (kIOReturnSuccess, s, a, m)
         else case DMA_type rgn s a of Inl rc \<Rightarrow> Some (rc, s, a, m)
         | Inr t \<Rightarrow> do {
             (rc, s, a, m) \<leftarrow>
               (if t = 5 then do { (rc, a, m) \<leftarrow> GFBOutDirect h k s a m; Some (rc, s, a, m) }
                else do {
                  (rc, s, a) \<leftarrow>
                    (if t = 0 then DMAOutDirect h True s a
                     else if t = 2 then DMAOutStretchWithCopy h True s a
                     else if t = 3 then ScreenObjectOutDirect h True s a
                     else if t = 4 then ScreenObjectOutVia3D h True s a
                     else DMAOutWithCopy h True s a);
                  Some (rc, s, a, m)
                });
             if rc \<noteq> kIOReturnSuccess then Some (rc, s, a, m)
             else if t \<le> 2 then do { (rc, a) \<leftarrow> doPresent h s a; Some (rc, s, a, m) }
             else Some (kIOReturnSuccess, s, a, m)
           })"

definition surface_control :: "u64 \<Rightarrow> ioreturn \<times> u32 option" where
  "surface_control selector =
    (if selector = 1 then (kIOReturnSuccess, None)
     else if selector = 4 then (kIOReturnSuccess, Some 1)
     else if selector = 5 then (kIOReturnSuccess, Some 1)
     else (kIOReturnBadArgument, None))"

section \<open>Calls of the 2D context\<close>

definition context_set_surface :: "host \<Rightarrow> kit \<Rightarrow> u32 \<Rightarrow> u32 \<Rightarrow> surface \<Rightarrow> accel \<Rightarrow> (ioreturn \<times> surface \<times> accel) option" where
  "context_set_surface h k vmware_pixel_format apple_pixel_format s a =
    (if vmware_pixel_format = 0 then do {
       (s, a) \<leftarrow> surface_video_off h s a;
       let s = s\<lparr>bVideoMode := False\<rparr>;
       let s = (if apple_pixel_format = kIO32BGRAPixelFormat
         then s\<lparr>m_surfaceFormat := SVGA3D_A8R8G8B8, m_bytes_per_pixel := 4, m_pixel_format := kIOAccelSurfaceModeColorDepth8888\<rparr> else s);
       (s, a) \<leftarrow> (if \<not> haveFrontBuffer s then Start3D h k s a else Some (s, a));
       Some (kIOReturnSuccess, s, a)
     }
     else if checkOptionAC VMW_OPTION_AC_NO_YUV a then Some (kIOReturnUnsupported, s, a)
     else do {
       let s = s\<lparr>bVideoMode := True, m_video_unit := (m_video_unit s)(SVGA_VIDEO_ENABLED := 0), m_video_format := vmware_pixel_format\<rparr>;
       let s = (if vmware_pixel_format = VMWARE_FOURCC_UYVY then s\<lparr>m_surfaceFormat := SVGA3D_UYVY\<rparr>
                else if vmware_pixel_format = VMWARE_FOURCC_YUY2 then s\<lparr>m_surfaceFormat := SVGA3D_YUY2\<rparr> else s);
       (s, a) \<leftarrow> Cleanup3D h (s\<lparr>m_bytes_per_pixel := 2, m_pixel_format := apple_pixel_format\<rparr>) a;
       Some (kIOReturnSuccess, s, a)
     })"

text \<open>\<open>fixed_source\<close>: the options have \<^verbatim>\<open>kIOBlitFixedSource\<close>.\<close>

definition context_scale_surface :: "bool \<Rightarrow> u32 \<Rightarrow> u32 \<Rightarrow> surface \<Rightarrow> ioreturn \<times> surface" where
  "context_scale_surface fixed_source w ht s =
    (if \<not> fixed_source then (kIOReturnSuccess, s)
     else (kIOReturnSuccess, calculateScaleParameters False (s\<lparr>m_scale := (m_scale s)\<lparr>source_w := ucast w, source_h := ucast ht,
       sc_buffer := \<lparr>r_x = 0, r_y = 0, r_w = ucast w, r_h = ucast ht\<rparr>\<rparr>\<rparr>)))"

text \<open>The shift that takes the region's position to the destination.\<close>

definition dest_shift :: "u32 \<Rightarrow> u32 \<Rightarrow> region \<Rightarrow> u32 \<times> u32" where
  "dest_shift destX destY rgn = (destX - int_of (r_x (bounding rgn)), destY - int_of (r_y (bounding rgn)))"

definition region_given :: "region option \<Rightarrow> nat \<Rightarrow> bool" where
  "region_given rgn regionSize \<longleftrightarrow> (case rgn of None \<Rightarrow> False | Some r \<Rightarrow> IOACCEL_SIZEOF_DEVICE_REGION r \<le> regionSize)"

definition copy_framebuffer_region_to_self :: "host \<Rightarrow> kit \<Rightarrow> u32 \<Rightarrow> u32 \<Rightarrow> u32 \<Rightarrow> region option \<Rightarrow> nat \<Rightarrow> surface \<Rightarrow> accel \<Rightarrow> memory \<Rightarrow>
    (ioreturn \<times> surface \<times> accel \<times> memory) option" where
  "copy_framebuffer_region_to_self h k framebufferIndex destX destY rgn regionSize s a m =
    (if \<not> region_given rgn regionSize then Some (kIOReturnBadArgument, s, a, m)
     else if \<not> bHaveID s \<or> \<not> isSourceValid s then Some (kIOReturnNotReady, s, a, m)
     else if bVideoMode s then Some (kIOReturnUnsupported, s, a, m)
     else if m_surfaceFormat s \<noteq> SVGA3D_X8R8G8B8 then Some (kIOReturnUnsupportedMode, s, a, m)
     else do {
       (ok, s, a) \<leftarrow> allocBacking h k s a;
       if \<not> ok then Some (kIOReturnNoMemory, s, a, m)
       else do {
         r \<leftarrow> rgn;
         let (dx, dy) = dest_shift destX destY r;
         let r = clipRegionToBuffer r dx dy s;
         let extra = (backing_extra s)\<lparr>dstDeltaX := dx, dstDeltaY := dy\<rparr>;
         if isPrimaryScreenActive a \<or> bHaveMasterSurface s then do {
           ((rc, f), a) \<leftarrow>
             (if isPrimaryScreenActive a then blitFromScreen h framebufferIndex (Some r) (Some extra) True a
              else surfaceDMA2D h (m_master_surface_id a) SVGA3D_READ_HOST_VRAM (Some r)
                (Some (extra\<lparr>srcDeltaX := dx, srcDeltaY := dy, dstDeltaX := 0, dstDeltaY := 0\<rparr>)) True a);
           let s = set_fence f s;
           if rc \<noteq> kIOReturnSuccess then Some (kIOReturnNotReadable, s, a, m)
           else do {
             (t, p) \<leftarrow> buffer_sync h (vtb (m_backing s)) (Some a);
             Some (kIOReturnSuccess, set_vtb t s, after_provider p a, m)
           }
         }
         else let (rc, base, limit) = obtainKernelPtrs k s
         in if rc \<noteq> kIOReturnSuccess then Some (rc, s, a, m)
         else let (rc, m) = blitGFB (Some r) (Some (extra\<lparr>mem_offset_in_gmr := 0\<rparr>)) base limit False a m
         in Some (rc, s, a, m)
       }
     })"

definition copy_self_region_to_framebuffer :: "region option \<Rightarrow> nat \<Rightarrow> ioreturn" where
  "copy_self_region_to_framebuffer rgn regionSize =
    (if \<not> region_given rgn regionSize then kIOReturnBadArgument else kIOReturnUnsupported)"

text \<open>
  \<open>source\<close> is the other surface as a function of this one, \<open>\<lambda>s. s\<close> if they are the same object.  Where the region has
  no rectangles its bounds take the place of the first, which lies behind a region of the size checked.
\<close>

definition copy_surface_region_to_self :: "host \<Rightarrow> kit \<Rightarrow> (surface \<Rightarrow> surface) option \<Rightarrow> u32 \<Rightarrow> u32 \<Rightarrow> region option \<Rightarrow> nat \<Rightarrow>
    surface \<Rightarrow> accel \<Rightarrow> memory \<Rightarrow> (ioreturn \<times> surface \<times> accel \<times> memory) option" where
  "copy_surface_region_to_self h k source destX destY rgn regionSize s a m =
    (case source of None \<Rightarrow> Some (kIOReturnBadArgument, s, a, m)
     | Some source \<Rightarrow>
         if \<not> region_given rgn regionSize then Some (kIOReturnBadArgument, s, a, m)
         else if \<not> bHaveID s \<or> \<not> isSourceValid s then Some (kIOReturnNotReady, s, a, m)
         else if \<not> bHaveID (source s) \<or> \<not> isBackingValid (source s) then Some (kIOReturnNotReady, s, a, m)
         else if m_surfaceFormat s \<noteq> m_surfaceFormat (source s) \<or> m_bytes_per_pixel s \<noteq> m_bytes_per_pixel (source s)
         then Some (kIOReturnUnsupported, s, a, m)
         else do {
           (ok, s, a) \<leftarrow> allocBacking h k s a;
           if \<not> ok then Some (kIOReturnNoMemory, s, a, m)
           else do {
             r \<leftarrow> rgn;
             let dst_delta = dest_shift destX destY r;
             let r = clipRegionToBuffer r (fst dst_delta) (snd dst_delta) s;
             let (rc, dst_base, dst_limit) = obtainKernelPtrs k s;
             if rc \<noteq> kIOReturnSuccess then Some (rc, s, a, m)
             else let (rc, src_base, src_limit) = obtainKernelPtrs k (source s)
             in if rc \<noteq> kIOReturnSuccess then Some (rc, s, a, m)
             else let r = (if rects r = [] then r\<lparr>rects := [bounding r]\<rparr> else r);
                      (rc, m) = genericBlitCopy
                        dst_base (Some \<lparr>image_pitch = reserved1 (m_scale s), image_limit = ucast dst_limit\<rparr>) (Some dst_delta)
                        src_base (Some \<lparr>image_pitch = reserved1 (m_scale (source s)), image_limit = ucast src_limit\<rparr>) (Some (0, 0))
                        (Some r) (ucast (m_bytes_per_pixel s)) m
             in Some (rc, s, a, m)
           }
         })"

end
