(* ===== verification/SurfaceProofs.thy ===== *)
theory SurfaceProofs
  imports Surface
begin

text \<open>
  What the surfaces guarantee: every call keeps a surface well formed, in particular its backing, which is a block of
  video memory or a prepared region but never both; the locks exclude each other; clipping is exact; the output
  paths send the documented commands and give back every number they take.
\<close>

section \<open>Well-formed surfaces\<close>

definition backing_ok :: "bool \<Rightarrow> backing \<Rightarrow> bool" where
  "backing_ok provider b \<longleftrightarrow>
     (bk_self b \<noteq> 0 \<longrightarrow> tb_md (vtb b) = None \<and> gmr_id (vtb b) = GMR_VRAM) \<and>
     (tb_md (vtb b) \<noteq> None \<longleftrightarrow> isIdValid (gmr_id (vtb b))) \<and>
     (tb_md (vtb b) \<noteq> None \<longrightarrow> provider) \<and>
     (bk_self b = 0 \<and> tb_md (vtb b) = None \<longrightarrow> bk_map b 0 = None \<and> bk_map b 1 = None)"

definition surface_ok :: "surface \<Rightarrow> bool" where
  "surface_ok s \<longleftrightarrow> backing_ok (has_provider s) (m_backing s) \<and>
     m_bytes_per_pixel s \<in> (if bHaveID s then {2, 4} else {0, 2, 4}) \<and>
     (\<forall>r. m_last_region s = Some r \<longrightarrow> bHaveID s \<and> m_last_shape s \<and> IOACCEL_SIZEOF_DEVICE_REGION r \<le> 4096) \<and>
     \<not> (bHaveScreen s \<and> bHaveMasterSurface s) \<and>
     bIsLocked s AND 0x1F = 0"

lemma surface_okI:
  assumes "surface_ok s" and "backing_ok (has_provider t) (m_backing t)"
    and "m_bytes_per_pixel t = m_bytes_per_pixel s" and "bHaveID t = bHaveID s" and "m_last_region t = m_last_region s"
    and "m_last_shape t = m_last_shape s" and "bHaveScreen t = bHaveScreen s" and "bHaveMasterSurface t = bHaveMasterSurface s"
    and "bIsLocked t = bIsLocked s"
  shows "surface_ok t"
  using assms by (simp add: surface_ok_def)

lemma not_valid: "\<not> isIdValid GMR_VRAM" "\<not> isIdValid SVGA_ID_INVALID"
  by (simp_all add: isIdValid_def GMR_VRAM_def word_sle_eq)

lemma backing_ok_none: "backing_ok p backing_none"
  by (simp add: backing_ok_def backing_none_def buffer_init_def not_valid)

lemma backing_ok_fence [simp]:
  "backing_ok p (b\<lparr>vtb := (vtb b)\<lparr>tb_fence := f\<rparr>\<rparr>) = backing_ok p b"
  "backing_ok p (b\<lparr>vtb := (vtb b)\<lparr>gart_ptr := g\<rparr>\<rparr>) = backing_ok p b"
  by (simp_all add: backing_ok_def)

lemma backing_ok_place [simp]:
  "backing_ok p (b\<lparr>bk_offset := x\<rparr>) = backing_ok p b" "backing_ok p (b\<lparr>bk_size := y\<rparr>) = backing_ok p b"
  by (simp_all add: backing_ok_def)

text \<open>What completing a buffer leaves.\<close>

lemma buffer_sync_buffer: "buffer_sync h t p = Some (t', p') \<Longrightarrow> \<exists>f. t' = t\<lparr>tb_fence := f\<rparr>"
  by (auto simp: buffer_sync_def split: option.splits if_splits bind_splits prod.splits
      intro: exI [of _ "tb_fence t"])

lemma buffer_complete_buffer:
  assumes "buffer_complete h t p = Some (t', p')"
  shows "\<exists>f. buffer_discard t' = t\<lparr>tb_fence := f, tb_md := None, gmr_id := gmr_id t'\<rparr> \<and>
    gmr_id t' = (if p \<noteq> None \<and> isIdValid (gmr_id t) then SVGA_ID_INVALID else gmr_id t)"
proof -
  obtain u q where u: "buffer_sync h t p = Some (u, q)" using assms by (auto simp: buffer_complete_def split: bind_splits)
  obtain f where f: "u = t\<lparr>tb_fence := f\<rparr>" using buffer_sync_buffer [OF u] by blast
  have q: "q = None \<longleftrightarrow> p = None"
    using u by (auto simp: buffer_sync_def split: option.splits if_splits bind_splits prod.splits)
  show ?thesis
    using assms u q unfolding buffer_complete_def buffer_discard_def f
    by (cases t) (auto split: option.splits if_splits bind_splits prod.splits intro!: exI [of _ f])
qed

lemma complete_backing_ok:
  assumes "complete_backing h s a = Some (s', a')"
  shows "\<exists>t. s' = set_vtb t s \<and> tb_md t = None \<and> gmr_id t =
    (if has_provider s \<and> isIdValid (gmr_id (vtb (m_backing s))) then SVGA_ID_INVALID else gmr_id (vtb (m_backing s)))"
proof -
  obtain t p where "buffer_complete h (vtb (m_backing s)) (provider_of s a) = Some (t, p)" "s' = set_vtb (buffer_discard t) s"
    using assms by (auto simp: complete_backing_def split: bind_splits)
  with buffer_complete_buffer [OF this(1)] show ?thesis
    by (intro exI [of _ "buffer_discard t"]) (auto simp: provider_of_def buffer_discard_def)
qed

lemma releaseBacking_ok:
  assumes "releaseBacking h s a = Some (s', a')"
  shows "s' = s\<lparr>m_backing := backing_none\<rparr>"
  using assms complete_backing_ok [of h s a]
  by (fastforce simp: releaseBacking_def set_vtb_def split: bind_splits)

text \<open>A buffer that has no region yet is prepared in full or not at all.\<close>

lemma buffer_prepare_all:
  assumes "buffer_prepare h hm t p = Some (rc, t', p')" and "\<not> isIdValid (gmr_id t)"
  shows "if rc = kIOReturnSuccess then p \<noteq> None \<and> tb_md t' \<noteq> None \<and> isIdValid (gmr_id t') else \<not> isIdValid (gmr_id t')"
  using assms not_valid
  by (auto simp: buffer_prepare_def Let_def split: option.splits if_splits bind_splits prod.splits)

lemma set_vtb_simps [simp]:
  "m_backing (set_vtb t s) = (m_backing s)\<lparr>vtb := t\<rparr>" "has_provider (set_vtb t s) = has_provider s"
  by (simp_all add: set_vtb_def)

definition backing_empty :: "surface \<Rightarrow> bool" where
  "backing_empty s \<longleftrightarrow> bk_self (m_backing s) = 0 \<and> \<not> isIdValid (gmr_id (vtb (m_backing s))) \<and>
     tb_md (vtb (m_backing s)) = None \<and> bk_map (m_backing s) 0 = None \<and> bk_map (m_backing s) 1 = None"

lemma backing_empty_ok: "backing_empty s \<Longrightarrow> backing_ok p (m_backing s)"
  by (simp add: backing_empty_def backing_ok_def)

lemma backing_empty_iff: "backing_ok p (m_backing s) \<Longrightarrow> classifyBacking s = 0 \<longleftrightarrow> backing_empty s"
  by (auto simp: backing_empty_def backing_ok_def classifyBacking_def split: if_splits)

text \<open>An operation that changes nothing of a surface but its backing, and keeps that well formed.\<close>

definition rebacked :: "surface \<Rightarrow> surface \<Rightarrow> bool" where
  "rebacked s s' \<longleftrightarrow> (\<exists>b. s' = s\<lparr>m_backing := b\<rparr> \<and> backing_ok (has_provider s) b)"

lemma rebackedI: "s' = s\<lparr>m_backing := b\<rparr> \<Longrightarrow> backing_ok (has_provider s) b \<Longrightarrow> rebacked s s'"
  unfolding rebacked_def by blast

lemma rebacked_refl: "backing_ok (has_provider s) (m_backing s) \<Longrightarrow> rebacked s s"
  by (rule rebackedI [where b = "m_backing s"]) simp_all

lemma rebacked_trans: "rebacked s t \<Longrightarrow> rebacked t u \<Longrightarrow> rebacked s u"
  by (auto simp: rebacked_def)

lemma rebacked_ok: "surface_ok s \<Longrightarrow> rebacked s s' \<Longrightarrow> surface_ok s'"
  by (auto simp: rebacked_def surface_ok_def)

lemma prepare_backing_ok:
  assumes "prepare_backing h k md mark s a = Some (ok, s', a')" and "backing_empty s"
  shows "rebacked s s' \<and> (ok \<longrightarrow> isBackingValid s')"
proof -
  obtain rc t p where t: "buffer_prepare h (k_helper k) ((vtb (m_backing s))\<lparr>tb_md := Some md\<rparr>) (provider_of s a) = Some (rc, t, p)"
    "(ok, s') = (if rc \<noteq> kIOReturnSuccess then (False, set_vtb (t\<lparr>tb_md := None\<rparr>) s)
       else (True, set_vtb (t\<lparr>gart_ptr := mark, tb_fence := 0\<rparr>) s))"
    using assms(1) by (auto simp: prepare_backing_def Let_def split: bind_splits if_splits prod.splits)
  have "if rc = kIOReturnSuccess then has_provider s \<and> tb_md t \<noteq> None \<and> isIdValid (gmr_id t) else \<not> isIdValid (gmr_id t)"
    using buffer_prepare_all [OF t(1)] assms(2) by (auto simp: backing_empty_def provider_of_def split: if_splits)
  then show ?thesis
    using t(2) assms(2)
    by (auto simp: rebacked_def backing_ok_def backing_empty_def isBackingValid_def set_vtb_def split: if_splits)
qed

lemma backing_none_empty: "m_backing s = backing_none \<Longrightarrow> backing_empty s"
  by (simp add: backing_empty_def backing_none_def buffer_init_def not_valid)

lemma backing_empty_place [simp]: "backing_empty (s\<lparr>m_backing := (m_backing s)\<lparr>bk_offset := x\<rparr>\<rparr>) = backing_empty s"
  "backing_empty (s\<lparr>m_backing := (m_backing s)\<lparr>bk_offset := x, bk_size := y\<rparr>\<rparr>) = backing_empty s"
  by (simp_all add: backing_empty_def)

lemma rebacked_place: "rebacked (s\<lparr>m_backing := b\<rparr>) s' = rebacked s s'"
  by (simp add: rebacked_def)

lemma wrapClientBacking_ok:
  assumes "wrapClientBacking h k s a = Some (ok, s', a')" and "backing_ok (has_provider s) (m_backing s)"
  shows "rebacked s s' \<and> (ok \<longrightarrow> isBackingValid s')"
proof (cases "classifyBacking s = 2 \<and> gart_ptr (vtb (m_backing s)) = 1")
  case True
  then show ?thesis
    using assms rebacked_refl by (auto simp: wrapClientBacking_def classifyBacking_def isBackingValid_def split: if_splits)
next
  case False
  then obtain t b where t: "(if classifyBacking s = 0 then Some (s, a) else releaseBacking h s a) = Some (t, b)"
    and rest: "(let addr = cb_addr (m_client_backing t);
       u = t\<lparr>m_backing := (m_backing t)\<lparr>bk_offset := page_residue addr, bk_size := ucast (reserved0 (m_scale t))\<rparr>\<rparr>
     in case k_client_memory k (addr AND - 4096) (bk_size (m_backing u)) (surface_task u) of
         None \<Rightarrow> Some (False, u, b) | Some md \<Rightarrow> prepare_backing h k md 1 u b) = Some (ok, s', a')"
    using assms(1) by (auto simp: wrapClientBacking_def split: bind_splits)
  have "backing_empty t \<and> (\<exists>c. t = s\<lparr>m_backing := c\<rparr>)"
    using t backing_empty_iff [OF assms(2)] releaseBacking_ok [of h s a t b]
    by (auto intro: backing_none_empty exI [of _ "m_backing s"] split: if_splits)
  then obtain c where c: "backing_empty t" "t = s\<lparr>m_backing := c\<rparr>" by blast
  define u where "u = t\<lparr>m_backing := (m_backing t)\<lparr>bk_offset := page_residue (cb_addr (m_client_backing t)),
    bk_size := ucast (reserved0 (m_scale t))\<rparr>\<rparr>"
  have u: "backing_empty u" using c(1) by (simp add: u_def)
  moreover have "\<And>v. rebacked u v \<Longrightarrow> rebacked s v" by (simp add: u_def c(2) rebacked_def)
  ultimately show ?thesis
    using rest [folded u_def] prepare_backing_ok [of h k _ 1 u b ok s' a'] rebacked_refl [of u] backing_empty_ok [OF u]
    unfolding Let_def u_def [symmetric] by (auto split: option.splits)
qed

lemma releaseBackingMap_simps [simp]:
  "releaseBackingMap 0 s = s\<lparr>m_backing := (m_backing s)\<lparr>bk_map := (bk_map (m_backing s))(0 := None)\<rparr>\<rparr>"
  "releaseBackingMap (Suc 0) s = s\<lparr>m_backing := (m_backing s)\<lparr>bk_map := (bk_map (m_backing s))(Suc 0 := None)\<rparr>\<rparr>"
  by (simp_all add: releaseBackingMap_def)

lemma valid_realloc:
  assumes "backing_ok p (m_backing s)"
  shows "bk_self (m_backing s) \<noteq> 0 \<Longrightarrow> tb_md (vtb (m_backing s)) = None"
    "bk_self (m_backing s) \<noteq> 0 \<Longrightarrow> gmr_id (vtb (m_backing s)) = GMR_VRAM"
  using assms by (simp_all add: backing_ok_def)

text \<open>
  Before the allocator is asked, the surface has at most a block of video memory: its region and its mappings are
  given up.
\<close>

definition shed :: "surface \<Rightarrow> surface \<Rightarrow> bool" where
  "shed s t \<longleftrightarrow> (\<exists>b. t = s\<lparr>m_backing := b\<rparr> \<and> tb_md (vtb b) = None \<and> \<not> isIdValid (gmr_id (vtb b)) \<and>
     bk_map b 0 = None \<and> bk_map b 1 = None)"

lemma alloc_shed:
  assumes "(if classifyBacking s = 1 then complete_backing h (releaseBackingMap 1 (releaseBackingMap 0 s)) a
          else if classifyBacking s = 2 then releaseBacking h s a else Some (s, a)) = Some (t, c)"
    and "backing_ok (has_provider s) (m_backing s)"
  shows "shed s t"
proof -
  consider "classifyBacking s = 1" | "classifyBacking s = 2" | "classifyBacking s = 0"
    by (fastforce simp: classifyBacking_def split: if_splits)
  then show ?thesis
  proof cases
    case 1
    have "\<not> isIdValid (if has_provider s \<and> isIdValid (gmr_id (vtb (m_backing s))) then SVGA_ID_INVALID
        else gmr_id (vtb (m_backing s)))"
      using assms(2) not_valid by (auto simp: backing_ok_def)
    moreover obtain u where "t = set_vtb u (releaseBackingMap 1 (releaseBackingMap 0 s))" "tb_md u = None"
      "gmr_id u = (if has_provider s \<and> isIdValid (gmr_id (vtb (m_backing s))) then SVGA_ID_INVALID
         else gmr_id (vtb (m_backing s)))"
      using complete_backing_ok [of h "releaseBackingMap 1 (releaseBackingMap 0 s)" a t c] assms(1) 1 by auto
    ultimately show ?thesis unfolding shed_def by (intro exI [of _ "m_backing t"]) (simp add: set_vtb_def)
  next
    case 2
    with releaseBacking_ok [of h s a t c] assms(1) backing_none_empty [of t] show ?thesis
      by (auto simp: shed_def backing_empty_def)
  next
    case 0: 3
    with backing_empty_iff [OF assms(2)] assms(1) show ?thesis
      by (auto simp: shed_def backing_empty_def intro!: exI [of _ "m_backing s"])
  qed
qed

lemma allocBacking_ok:
  assumes "allocBacking h k s a = Some (ok, s', a')" and "backing_ok (has_provider s) (m_backing s)"
  shows "rebacked s s' \<and> (ok \<longrightarrow> isBackingValid s')"
proof (cases "cb_addr (m_client_backing s) \<noteq> 0")
  case True
  with assms wrapClientBacking_ok [of h k s a ok s' a'] show ?thesis by (simp add: allocBacking_def)
next
  case kernel: False
  show ?thesis
  proof (cases "classifyBacking s = 1 \<and> \<not> hasSourceGrown s")
    case True
    with assms kernel rebacked_refl [of s] show ?thesis
      by (auto simp: allocBacking_def classifyBacking_def isBackingValid_def split: if_splits)
  next
    case False
    obtain t c where t: "(if classifyBacking s = 1 then complete_backing h (releaseBackingMap 1 (releaseBackingMap 0 s)) a
          else if classifyBacking s = 2 then releaseBacking h s a else Some (s, a)) = Some (t, c)"
      and rest: "(let n = ucast (reserved0 (m_scale t)) in do {
       (q, v) \<leftarrow> (if has_provider t then VRAMRealloc (bk_self (m_backing t)) (unat n) (accel_vram c) else None);
       let a = c\<lparr>accel_vram := v\<rparr>;
       let s = t\<lparr>m_backing := (m_backing t)\<lparr>bk_size := n, bk_self := q\<rparr>\<rparr>;
       if q = 0 then allocGMRBacking h k s a
       else Some (True, s\<lparr>m_backing := (m_backing s)\<lparr>bk_offset := of_nat q - of_nat (client_addr (m_screenInfo s)),
              vtb := (vtb (m_backing s))\<lparr>gmr_id := GMR_VRAM, tb_fence := 0\<rparr>\<rparr>\<rparr>, a)
     }) = Some (ok, s', a')"
      using assms(1) kernel False by (simp only: allocBacking_def simp_thms if_False split: bind_splits) (auto split: prod.splits simp del: One_nat_def releaseBackingMap_simps)
    obtain b where b: "t = s\<lparr>m_backing := b\<rparr>" "tb_md (vtb b) = None" "\<not> isIdValid (gmr_id (vtb b))" "bk_map b 0 = None" "bk_map b 1 = None"
      using alloc_shed [OF t assms(2)] unfolding shed_def by blast
    from rest obtain q v where
      rest: "(if q = 0 then allocGMRBacking h k (s\<lparr>m_backing := b\<lparr>bk_size := ucast (reserved0 (m_scale s)), bk_self := q\<rparr>\<rparr>) (c\<lparr>accel_vram := v\<rparr>)
        else Some (True, s\<lparr>m_backing := b\<lparr>bk_size := ucast (reserved0 (m_scale s)), bk_self := q,
          bk_offset := of_nat q - of_nat (client_addr (m_screenInfo s)), vtb := (vtb b)\<lparr>gmr_id := GMR_VRAM, tb_fence := 0\<rparr>\<rparr>\<rparr>, c\<lparr>accel_vram := v\<rparr>)) = Some (ok, s', a')"
      unfolding b(1) Let_def by (auto split: bind_splits cong del: if_weak_cong)
    show ?thesis
    proof (cases "q = 0")
      case True
      let ?s = "s\<lparr>m_backing := b\<lparr>bk_size := ucast (reserved0 (m_scale s)), bk_self := 0, bk_offset := 0\<rparr>\<rparr>"
      have empty: "backing_empty ?s" using b by (simp add: backing_empty_def)
      have ok: "backing_ok (has_provider s) (b\<lparr>bk_size := ucast (reserved0 (m_scale s)), bk_self := 0\<rparr>)"
        using b(2-5) by (simp add: backing_ok_def)
      show ?thesis
      proof (cases "k_buffer k (ucast (reserved0 (m_scale s)))")
        case None
        with rest True have "s' = s\<lparr>m_backing := b\<lparr>bk_size := ucast (reserved0 (m_scale s)), bk_self := 0\<rparr>\<rparr>" "\<not> ok"
          by (simp_all add: allocGMRBacking_def)
        with rebackedI [OF this(1) ok] show ?thesis by simp
      next
        case (Some md)
        with rest True have "prepare_backing h k md 0 ?s (c\<lparr>accel_vram := v\<rparr>) = Some (ok, s', a')"
          by (simp add: allocGMRBacking_def)
        from prepare_backing_ok [OF this empty] show ?thesis by (simp add: rebacked_place)
      qed
    next
      case False
      with rest b(2-5) not_valid show ?thesis
        by (auto simp: rebacked_def backing_ok_def isBackingValid_def)
    qed
  qed
qed

lemma mapBacking_ok:
  assumes "mapBacking k task i s = (ok, s')" and "backing_ok (has_provider s) (m_backing s)" and "isBackingValid s"
  shows "rebacked s s' \<and> (ok \<longrightarrow> bk_map (m_backing s') i \<noteq> None)"
proof -
  let ?b = "m_backing s"
  define p where "p = (if bk_self ?b \<noteq> 0 then k_vram_map k task (bk_offset ?b) (bk_size ?b)
    else case tb_md (vtb ?b) of None \<Rightarrow> None | Some md \<Rightarrow> k_map k task md)"
  define t where "t = s\<lparr>m_backing := ?b\<lparr>bk_map := (bk_map ?b)(i := p)\<rparr>\<rparr>"
  have "backing_ok (has_provider s) (?b\<lparr>bk_map := (bk_map ?b)(i := p)\<rparr>)"
    using assms(2,3) by (auto simp: backing_ok_def isBackingValid_def)
  then have "rebacked s t" unfolding t_def by (rule rebackedI [OF refl])
  moreover have "bk_map (m_backing t) i = p" by (simp add: t_def)
  moreover have "mapBacking k task i s = (if 2 \<le> i then (False, s) else if bk_map ?b i \<noteq> None then (True, s) else (p \<noteq> None, t))"
    by (simp only: mapBacking_def Let_def p_def t_def)
  ultimately show ?thesis
    using assms(1) rebacked_refl [OF assms(2)] by (simp split: if_splits)
qed

lemma back_and_map_ok:
  assumes "back_and_map h k task i s a = Some (ok, s', a')" and "backing_ok (has_provider s) (m_backing s)"
  shows "rebacked s s' \<and> (ok \<longrightarrow> bk_map (m_backing s') i \<noteq> None)"
proof -
  obtain ok1 t b where t: "allocBacking h k s a = Some (ok1, t, b)"
    and rest: "(if \<not> ok1 then Some (False, t, b) else let (ok, s) = mapBacking k task i t in Some (ok, s, b)) = Some (ok, s', a')"
    using assms(1) by (auto simp: back_and_map_def split: bind_splits)
  from allocBacking_ok [OF t assms(2)] have "rebacked s t" "ok1 \<longrightarrow> isBackingValid t" by simp_all
  moreover from this have "backing_ok (has_provider t) (m_backing t)" by (auto simp: rebacked_def)
  ultimately show ?thesis
    using rest mapBacking_ok [of k task i t] rebacked_trans [of s t] by (auto split: if_splits prod.splits)
qed

lemma set_fence_rebacked: "backing_ok (has_provider s) (m_backing s) \<Longrightarrow> rebacked s (set_fence f s)"
  by (cases f) (auto simp: set_fence_def set_vtb_def rebacked_def intro: exI [of _ "m_backing s"])

lemma sync_rebacked:
  assumes "buffer_sync h (vtb (m_backing s)) p = Some (t, q)" and "backing_ok (has_provider s) (m_backing s)"
  shows "rebacked s (set_vtb t s)"
  using buffer_sync_buffer [OF assms(1)] assms(2) by (auto simp: set_vtb_def rebacked_def)

section \<open>Calls of the clients\<close>

datatype surface_call =
    Set_id_mode u64 u32
  | Set_scale "scaling option"
  | Set_shape u32 u64 u64 u64 u64 "region option" nat
  | Flush
  | Read_lock "nat option"
  | Read_unlock
  | Write_lock "nat option"
  | Write_unlock
  | Context_set u32 u32
  | Context_scale bool u32 u32
  | Context_lock nat bool
  | Context_unlock
  | Copy_framebuffer u32 u32 u32 "region option" nat
  | Copy_surface_region "(surface \<Rightarrow> surface) option" u32 u32 "region option" nat
  | Video_off
  | Flush_video

type_synonym surface_world = "surface \<times> accel \<times> memory"

text \<open>One call, with what the kernel provides at that time; its result and the state after.\<close>

fun surface_do :: "host \<Rightarrow> kit \<Rightarrow> surface_call \<Rightarrow> surface_world \<Rightarrow> (ioreturn \<times> surface_world) option" where
  "surface_do h k (Set_id_mode wID mode) (s, a, m) = map_option (\<lambda>(rc, s, a). (rc, s, a, m)) (set_id_mode h wID mode s a)"
| "surface_do h k (Set_scale sc) (s, a, m) = (let (rc, s) = set_scale sc s in Some (rc, s, a, m))"
| "surface_do h k (Set_shape options fb addr rowbytes len rgn size') (s, a, m) =
    map_option (\<lambda>(rc, s, a). (rc, s, a, m)) (set_shape_backing_length_ext h k options fb addr rowbytes len rgn size' s a)"
| "surface_do h k Flush (s, a, m) = surface_flush h k s a m"
| "surface_do h k (Read_lock i) (s, a, m) = map_option (\<lambda>((rc, _), s, a). (rc, s, a, m)) (surface_read_lock_options h k i s a)"
| "surface_do h k Read_unlock (s, a, m) = (let (rc, s) = surface_read_unlock_options s in Some (rc, s, a, m))"
| "surface_do h k (Write_lock i) (s, a, m) = map_option (\<lambda>((rc, _), s, a). (rc, s, a, m)) (surface_write_lock_options h k i s a)"
| "surface_do h k Write_unlock (s, a, m) = (let (rc, s) = surface_write_unlock_options s in Some (rc, s, a, m))"
| "surface_do h k (Context_set v p) (s, a, m) = map_option (\<lambda>(rc, s, a). (rc, s, a, m)) (context_set_surface h k v p s a)"
| "surface_do h k (Context_scale fixed w ht) (s, a, m) = (let (rc, s) = context_scale_surface fixed w ht s in Some (rc, s, a, m))"
| "surface_do h k (Context_lock task has_result) (s, a, m) =
    map_option (\<lambda>((rc, _), s, a, m). (rc, s, a, m)) (context_lock_memory h k task has_result s a m)"
| "surface_do h k Context_unlock (s, a, m) = (let (rc, _, s) = context_unlock_memory s in Some (rc, s, a, m))"
| "surface_do h k (Copy_framebuffer fb x y rgn size') (s, a, m) = copy_framebuffer_region_to_self h k fb x y rgn size' s a m"
| "surface_do h k (Copy_surface_region src x y rgn size') (s, a, m) = copy_surface_region_to_self h k src x y rgn size' s a m"
| "surface_do h k Video_off (s, a, m) = map_option (\<lambda>(s, a). (kIOReturnSuccess, s, a, m)) (surface_video_off h s a)"
| "surface_do h k Flush_video (s, a, m) = map_option (\<lambda>(rc, s, a). (rc, s, a, m)) (surface_flush_video h s a)"

fun surface_calls :: "host \<Rightarrow> (kit \<times> surface_call) list \<Rightarrow> surface_world \<Rightarrow> (ioreturn list \<times> surface_world) option" where
  "surface_calls h [] w = Some ([], w)"
| "surface_calls h ((k, c) # cs) w = do {
     (rc, w) \<leftarrow> surface_do h k c w;
     (rcs, w) \<leftarrow> surface_calls h cs w;
     Some (rc # rcs, w)
   }"

text \<open>A surface but for the fence of its backing.\<close>

definition fenced :: "surface \<Rightarrow> surface \<Rightarrow> bool" where
  "fenced s s' \<longleftrightarrow> (\<exists>f. s' = set_fence f s)"

lemma fencedI [intro, simp]: "fenced s s" "fenced s (set_fence f s)"
  unfolding fenced_def by (rule exI [of _ None], simp add: set_fence_def) blast

lemma output_fenced:
  "DMAOutDirect h w s a = Some (rc, s', a') \<Longrightarrow> fenced s s'"
  "DMAOutWithCopy h w s a = Some (rc, s', a') \<Longrightarrow> fenced s s'"
  "DMAOutStretchWithCopy h w s a = Some (rc, s', a') \<Longrightarrow> fenced s s'"
  "ScreenObjectOutDirect h w s a = Some (rc, s', a') \<Longrightarrow> fenced s s'"
  "ScreenObjectOutVia3D h w s a = Some (rc, s', a') \<Longrightarrow> fenced s s'"
  by (auto simp: DMAOutDirect_def DMAOutWithCopy_def DMAOutStretchWithCopy_def ScreenObjectOutDirect_def ScreenObjectOutVia3D_def
      screen_shift_def Let_def split: option.splits if_splits bind_splits)

lemma surface_flush_fenced: "surface_flush h k s a m = Some (rc, s', a', m') \<Longrightarrow> fenced s s'"
  by (auto simp: surface_flush_def dest: output_fenced split: option.splits if_splits bind_splits sum.splits)

lemma fenced_ok: "surface_ok s \<Longrightarrow> fenced s s' \<Longrightarrow> surface_ok s'"
  unfolding fenced_def
proof (elim exE)
  fix f assume ok: "surface_ok s" and "s' = set_fence f s"
  moreover have "backing_ok (has_provider s) (m_backing s)" using ok by (simp add: surface_ok_def)
  ultimately show "surface_ok s'" using rebacked_ok [OF ok set_fence_rebacked] by simp
qed

text \<open>What the well-formedness looks at besides the backing.\<close>

definition ok_fields :: "surface \<Rightarrow> _" where
  "ok_fields s = (has_provider s, m_backing s, m_bytes_per_pixel s, bHaveID s, m_last_region s, m_last_shape s,
     bHaveScreen s, bHaveMasterSurface s, bIsLocked s)"

lemma surface_ok_cong: "ok_fields s' = ok_fields s \<Longrightarrow> surface_ok s' = surface_ok s"
  by (simp add: ok_fields_def surface_ok_def)

lemma ok_fields_scale [simp]: "ok_fields (calculateScaleParameters g s) = ok_fields s"
  by (simp add: ok_fields_def calculateScaleParameters_def Let_def split: prod.split)

lemma ok_fields_video [simp]:
  "ok_fields (snd (setVideoDest s)) = ok_fields s" "ok_fields (snd (setVideoRegs s)) = ok_fields s"
  by (simp_all add: ok_fields_def setVideoDest_def setVideoRegs_def Let_def split: option.split)

lemma ok_fields_updates [simp]:
  "ok_fields (s\<lparr>m_video_unit := u\<rparr>) = ok_fields s" "ok_fields (s\<lparr>m_stream_id := i\<rparr>) = ok_fields s"
  "ok_fields (s\<lparr>m_video_format := f\<rparr>) = ok_fields s" "ok_fields (s\<lparr>bVideoMode := v\<rparr>) = ok_fields s"
  "ok_fields (s\<lparr>m_surfaceFormat := g\<rparr>) = ok_fields s" "ok_fields (s\<lparr>m_pixel_format := p\<rparr>) = ok_fields s"
  "ok_fields (s\<lparr>m_scale := c\<rparr>) = ok_fields s" "ok_fields (s\<lparr>bSkipWriteLockOnce := q\<rparr>) = ok_fields s"
  "ok_fields (s\<lparr>m_client_backing := x\<rparr>) = ok_fields s" "ok_fields (s\<lparr>bDirectBlit := y\<rparr>) = ok_fields s"
  "ok_fields (s\<lparr>m_screenInfo := z\<rparr>) = ok_fields s"
  by (simp_all add: ok_fields_def)

lemma surface_video_off_ok: "surface_video_off h s a = Some (s', a') \<Longrightarrow> surface_ok s' = surface_ok s"
  by (auto simp: surface_video_off_def intro!: surface_ok_cong split: if_splits bind_splits)

lemma videoReshape_ok: "videoReshape h s a = Some (s', a') \<Longrightarrow> surface_ok s \<Longrightarrow> surface_ok s'"
  using surface_ok_cong [OF ok_fields_video(1), of s] fenced_ok [OF _ fencedI(2), of "snd (setVideoDest s)"]
  by (auto simp: videoReshape_def split_def Let_def split: if_splits bind_splits)

lemma surface_flush_video_ok:
  assumes "surface_flush_video h s a = Some (rc, s', a')" and "surface_ok s"
  shows "surface_ok s'"
proof -
  let ?t = "\<lambda>i. snd (setVideoDest (snd (setVideoRegs (s\<lparr>m_stream_id := i\<rparr>))))"
  have "surface_ok ((?t i)\<lparr>m_video_unit := u\<rparr>)" "surface_ok (s\<lparr>m_stream_id := i\<rparr>)" for i u
    using assms(2) surface_ok_cong [of "(?t i)\<lparr>m_video_unit := u\<rparr>" s] surface_ok_cong [of "s\<lparr>m_stream_id := i\<rparr>" s] by simp_all
  then show ?thesis
    using assms fenced_ok by (auto simp: surface_flush_video_def Let_def split: if_splits bind_splits prod.splits)
qed

text \<open>The lock bits are the top three of the byte.\<close>

lemma lock_bits:
  assumes "b AND 0x1F = 0" and "n < 3"
  shows "snd (OSTestAndSet n b) AND 0x1F = 0" "OSTestAndClear n b AND 0x1F = 0"
proof -
  have low: "drop_bit n (128 :: u8) AND 0x1F = 0"
    using assms(2) by (auto simp: less_Suc_eq numeral_3_eq_3)
  then show "snd (OSTestAndSet n b) AND 0x1F = 0"
    using assms(1) by (simp add: OSTestAndSet_def bit.conj_disj_distrib2)
  show "OSTestAndClear n b AND 0x1F = 0"
    by (simp add: OSTestAndClear_def) (metis assms(1) and.assoc and.commute and_zero_eq)
qed

lemma release_lock_ok: "surface_ok s \<Longrightarrow> n < 3 \<Longrightarrow> surface_ok (release_lock n s)"
  using lock_bits(2) by (simp add: surface_ok_def release_lock_def)

lemma take_lock_ok: "surface_ok s \<Longrightarrow> n < 3 \<Longrightarrow> surface_ok (s\<lparr>bIsLocked := snd (OSTestAndSet n (bIsLocked s))\<rparr>)"
  using lock_bits(1) by (simp add: surface_ok_def)

lemma surface_ok_backing: "surface_ok s \<Longrightarrow> backing_ok (has_provider s) (m_backing s)"
  by (simp add: surface_ok_def)

lemma back_and_map_surface_ok:
  "back_and_map h k task i s a = Some (ok, s', a') \<Longrightarrow> surface_ok s \<Longrightarrow> surface_ok s'"
  using back_and_map_ok rebacked_ok surface_ok_backing by blast

lemma allocBacking_surface_ok:
  "allocBacking h k s a = Some (ok, s', a') \<Longrightarrow> surface_ok s \<Longrightarrow> surface_ok s'"
  using allocBacking_ok rebacked_ok surface_ok_backing by blast

lemma sync_surface_ok:
  "buffer_sync h (vtb (m_backing s)) p = Some (t, q) \<Longrightarrow> surface_ok s \<Longrightarrow> surface_ok (set_vtb t s)"
  using sync_rebacked rebacked_ok surface_ok_backing by blast

text \<open>Memory for a client that has none of its own.\<close>

lemma client_memory_ok:
  "(if isClientBackingValid s then Some (True, s, a) else back_and_map h k task i s a) = Some (ok, s', a') \<Longrightarrow>
    surface_ok s \<Longrightarrow> surface_ok s'"
  using back_and_map_surface_ok by (auto split: if_splits)

lemma surface_read_lock_ok:
  assumes "surface_read_lock_options h k i s a = Some (r, s', a')" and "surface_ok s"
  shows "surface_ok s'"
proof -
  let ?s = "s\<lparr>bIsLocked := snd (OSTestAndSet vmSurfaceLockRead (bIsLocked s))\<rparr>"
  have ok: "surface_ok ?s" by (rule take_lock_ok [OF assms(2)]) simp
  then show ?thesis
    using assms client_memory_ok [of ?s a h k "surface_task s" 0] release_lock_ok [of _ 0]
    by (auto simp: surface_read_lock_options_def read_lock_memory_def split_def Let_def split: if_splits bind_splits option.splits)
qed

lemma write_lock_memory_ok:
  assumes "write_lock_memory h k s a = Some (r, s', a')" and "surface_ok s"
  shows "surface_ok s'"
  using assms client_memory_ok [of s a h k "surface_task s" 0] release_lock_ok [of _ 1] sync_surface_ok
  by (auto simp: write_lock_memory_def split: if_splits bind_splits)

lemma surface_write_lock_ok:
  assumes "surface_write_lock_options h k i s a = Some (r, s', a')" and "surface_ok s"
  shows "surface_ok s'"
  using assms take_lock_ok [OF assms(2), of 1] surface_ok_cong [of "s\<lparr>bSkipWriteLockOnce := False\<rparr>" s] write_lock_memory_ok
  by (auto simp: surface_write_lock_options_def split_def Let_def split: if_splits)

lemma releaseBackingMap_ok: "surface_ok s \<Longrightarrow> surface_ok (releaseBackingMap i s)"
  by (auto simp: surface_ok_def releaseBackingMap_def backing_ok_def)

lemma trick_ok: "surface_ok s \<Longrightarrow> surface_ok (fst (snd (setup_trick_buffer k s m)))"
proof -
  assume ok: "surface_ok s"
  have "backing_ok (has_provider s) ((m_backing s)\<lparr>bk_map := f\<rparr>)" if "isBackingValid s" for f
    using that surface_ok_backing [OF ok] by (auto simp: backing_ok_def isBackingValid_def)
  then have "surface_ok (s\<lparr>m_backing := (m_backing s)\<lparr>bk_map := f\<rparr>\<rparr>)" if "isBackingValid s" for f
    using that ok by (simp add: surface_ok_def)
  then show ?thesis
    using ok by (simp add: setup_trick_buffer_def Let_def split: option.split)
qed

lemma context_lock_ok:
  assumes "context_lock_memory h k task g s a m = Some (r, s', a', m')" and "surface_ok s"
  shows "surface_ok s'"
  using assms take_lock_ok [OF assms(2), of 2] release_lock_ok [of _ 2] back_and_map_surface_ok trick_ok
  by (auto simp: context_lock_memory_def context_lock_backing_def split_def Let_def split: if_splits bind_splits)

lemma Start3D_ok:
  assumes "Start3D h k s a = Some (s', a')" and "surface_ok s" and "\<not> haveFrontBuffer s"
  shows "surface_ok s'"
proof -
  have "ok_fields s' = ok_fields (s\<lparr>bHaveScreen := bHaveScreen s', bHaveMasterSurface := bHaveMasterSurface s'\<rparr>)"
    "\<not> (bHaveScreen s' \<and> bHaveMasterSurface s')"
    using assms(1,3) by (auto simp: Start3D_def Let_def ok_fields_def haveFrontBuffer_def split: if_splits bind_splits)
  with assms(2) show ?thesis
    using surface_ok_cong [of s' "s\<lparr>bHaveScreen := bHaveScreen s', bHaveMasterSurface := bHaveMasterSurface s'\<rparr>"]
    by (simp add: surface_ok_def)
qed

lemma Cleanup3D_ok: "Cleanup3D h s a = Some (s', a') \<Longrightarrow> surface_ok s \<Longrightarrow> surface_ok s'"
  by (auto simp: Cleanup3D_def surface_ok_def split: if_splits bind_splits)

lemma context_set_ok:
  assumes "context_set_surface h k v p s a = Some (rc, s', a')" and "surface_ok s"
  shows "surface_ok s'"
  using assms(1) unfolding context_set_surface_def
proof (split if_split_asm)
  assume "v = 0" and out: "(do {
       (s, a) \<leftarrow> surface_video_off h s a;
       let s = s\<lparr>bVideoMode := False\<rparr>;
       let s = (if p = kIO32BGRAPixelFormat
         then s\<lparr>m_surfaceFormat := SVGA3D_A8R8G8B8, m_bytes_per_pixel := 4, m_pixel_format := kIOAccelSurfaceModeColorDepth8888\<rparr> else s);
       (s, a) \<leftarrow> (if \<not> haveFrontBuffer s then Start3D h k s a else Some (s, a));
       Some (kIOReturnSuccess, s, a)
     }) = Some (rc, s', a')"
  then obtain t b where t: "surface_video_off h s a = Some (t, b)" by (auto split: bind_splits)
  let ?u = "if p = kIO32BGRAPixelFormat
    then t\<lparr>bVideoMode := False, m_surfaceFormat := SVGA3D_A8R8G8B8, m_bytes_per_pixel := 4, m_pixel_format := kIOAccelSurfaceModeColorDepth8888\<rparr>
    else t\<lparr>bVideoMode := False\<rparr>"
  have "surface_ok t" using surface_video_off_ok [OF t] assms(2) by simp
  then have "surface_ok ?u" by (auto simp: surface_ok_def)
  moreover have "(if \<not> haveFrontBuffer ?u then Start3D h k ?u b else Some (?u, b)) = Some (s', a')"
    using out unfolding t Let_def by (simp split: bind_splits if_splits)
  ultimately show ?thesis using Start3D_ok [of h k ?u b s' a'] by (simp split: if_splits)
next
  assume "v \<noteq> 0" and out: "(if checkOptionAC VMW_OPTION_AC_NO_YUV a then Some (kIOReturnUnsupported, s, a)
     else do {
       let s = s\<lparr>bVideoMode := True, m_video_unit := (m_video_unit s)(SVGA_VIDEO_ENABLED := 0), m_video_format := v\<rparr>;
       let s = (if v = VMWARE_FOURCC_UYVY then s\<lparr>m_surfaceFormat := SVGA3D_UYVY\<rparr>
                else if v = VMWARE_FOURCC_YUY2 then s\<lparr>m_surfaceFormat := SVGA3D_YUY2\<rparr> else s);
       (s, a) \<leftarrow> Cleanup3D h (s\<lparr>m_bytes_per_pixel := 2, m_pixel_format := p\<rparr>) a;
       Some (kIOReturnSuccess, s, a)
     }) = Some (rc, s', a')"
  have ok: "surface_ok (t\<lparr>m_bytes_per_pixel := 2, m_pixel_format := p\<rparr>)"
    if "ok_fields t = ok_fields s" for t
    using surface_ok_cong [OF that] assms(2) by (simp add: surface_ok_def)
  show ?thesis
    using out assms(2) Cleanup3D_ok [OF _ ok]
    by (auto simp: Let_def split: if_splits bind_splits)
qed

lemma set_id_ok:
  assumes "set_id_mode h wID mode s a = Some (rc, s', a')" and "surface_ok s"
  shows "surface_ok s'"
proof -
  have "bytes \<in> {2, 4}" if "mode_formats d = Some (f, bytes, p)" for d f bytes p
    using that by (auto simp: mode_formats_def split: if_splits)
  then have "surface_ok (s\<lparr>m_surfaceFormat := f, m_bytes_per_pixel := bytes, m_pixel_format := p, m_wID := w, bHaveID := True\<rparr>)"
    if "mode_formats d = Some (f, bytes, p)" for d f bytes p w
    using that assms(2) by (auto simp: surface_ok_def)
  then show ?thesis
    using assms by (auto simp: set_id_mode_def split: if_splits bind_splits option.splits prod.splits)
qed

lemma clearLastRegion_ok: "surface_ok s \<Longrightarrow> surface_ok (clearLastRegion s)"
  by (auto simp: surface_ok_def clearLastRegion_def)

lemma accept_client_ok:
  "accept_client_backing addr rowbytes len r s = Inr t \<Longrightarrow> surface_ok s \<Longrightarrow> surface_ok t"
proof -
  assume out: "accept_client_backing addr rowbytes len r s = Inr t" and ok: "surface_ok s"
  have client: "surface_ok (s\<lparr>m_client_backing := c\<rparr>)" for c using ok surface_ok_cong [of "s\<lparr>m_client_backing := c\<rparr>" s] by simp
  have "backing_ok (has_provider s) ((m_backing s)\<lparr>vtb := (vtb (m_backing s))\<lparr>gart_ptr := 2\<rparr>\<rparr>)"
    using surface_ok_backing [OF ok] by simp
  then have "surface_ok (set_vtb ((vtb (m_backing s))\<lparr>gart_ptr := 2\<rparr>) (s\<lparr>m_client_backing := c\<rparr>))" for c
    using client [of c] by (simp add: set_vtb_def surface_ok_def)
  with out client show ?thesis by (auto simp: accept_client_backing_def Let_def split: if_splits)
qed

lemma identity_scale_ok [simp]: "ok_fields (identity_scale r a s) = ok_fields s"
  by (simp add: identity_scale_def Let_def)

lemma adopt_shape_ok:
  assumes "adopt_shape h k options fb r s a = Some (rc, s', a')" and "surface_ok s" and "bHaveID s"
    and "IOACCEL_SIZEOF_DEVICE_REGION r \<le> 4096"
  shows "surface_ok s'"
proof (cases "k_shape k")
  case False
  with assms(1,2) surface_ok_cong [of s' s] show ?thesis by (auto simp: adopt_shape_def)
next
  case True
  let ?u = "s\<lparr>m_last_shape := True, m_last_region := Some r, m_framebufferIndex := ucast fb\<rparr>"
  let ?v = "if options AND kIOAccelSurfaceShapeIdentityScaleBit \<noteq> 0 then identity_scale r a ?u else ?u"
  have "surface_ok ?u" using assms(2-4) by (auto simp: surface_ok_def)
  then have v: "surface_ok ?v" using surface_ok_cong [of "identity_scale r a ?u" ?u] by simp
  from True assms(1) obtain w b where w: "videoReshape h ?v a = Some (w, b)"
    "s' = (if m_wID w = 1 \<and> options = 5 then w\<lparr>bSkipWriteLockOnce := True\<rparr> else w)"
    by (auto simp: adopt_shape_def Let_def split: bind_splits)
  from videoReshape_ok [OF w(1) v] w(2) surface_ok_cong [of "w\<lparr>bSkipWriteLockOnce := True\<rparr>" w]
  show ?thesis by simp
qed

lemma set_shape_ok:
  assumes "set_shape_backing_length_ext h k options fb addr rowbytes len rgn n s a = Some (rc, s', a')" and "surface_ok s"
  shows "surface_ok s'"
proof (cases rgn)
  case None
  with assms show ?thesis by (simp add: set_shape_backing_length_ext_def)
next
  case (Some r)
  let ?s = "(clearLastRegion s)\<lparr>m_client_backing := \<lparr>cb_addr = 0, cb_rowbytes = 0, cb_size = 0\<rparr>\<rparr>"
  have ok: "surface_ok ?s"
    using surface_ok_cong [of ?s "clearLastRegion s"] clearLastRegion_ok [OF assms(2)] by simp
  have id: "bHaveID t" if "accept_client_backing addr rowbytes len r ?s = Inr t" "bHaveID ?s" for t
    using that by (auto simp: accept_client_backing_def Let_def set_vtb_def split: if_splits)
  show ?thesis
    using assms(1) assms(2) ok adopt_shape_ok [of h k options fb r _ a rc s' a'] accept_client_ok [OF _ ok, of addr rowbytes len r] id
    unfolding set_shape_backing_length_ext_def Some Let_def
    by (simp split: if_splits sum.splits)
qed

lemma copy_framebuffer_ok:
  assumes "copy_framebuffer_region_to_self h k fb x y rgn n s a m = Some (rc, s', a', m')" and "surface_ok s"
  shows "surface_ok s'"
proof (cases "\<not> region_given rgn n \<or> \<not> bHaveID s \<or> \<not> isSourceValid s \<or> bVideoMode s \<or> m_surfaceFormat s \<noteq> SVGA3D_X8R8G8B8")
  case True
  with assms show ?thesis by (auto simp: copy_framebuffer_region_to_self_def split: if_splits)
next
  case False
  then obtain ok t b where t: "allocBacking h k s a = Some (ok, t, b)"
    using assms(1) by (auto simp: copy_framebuffer_region_to_self_def split: bind_splits)
  have ok: "surface_ok t" by (rule allocBacking_surface_ok [OF t assms(2)])
  have f: "surface_ok (set_fence f t)" for f using fenced_ok [OF ok] by blast
  show ?thesis
    using assms(1) False t ok f sync_surface_ok [OF _ f]
    by (auto simp: copy_framebuffer_region_to_self_def Let_def split_def split: if_splits bind_splits)
qed

lemma copy_surface_ok:
  assumes "copy_surface_region_to_self h k src x y rgn n s a m = Some (rc, s', a', m')" and "surface_ok s"
  shows "surface_ok s'"
  using assms allocBacking_surface_ok [of h k s a]
  by (auto simp: copy_surface_region_to_self_def Let_def split_def split: if_splits bind_splits option.splits)

lemma surface_do_ok:
  assumes "surface_do h k c (s, a, m) = Some (rc, s', a', m')" and "surface_ok s"
  shows "surface_ok s'"
proof (cases c)
  case (Set_scale sc)
  then show ?thesis
    using assms surface_ok_cong [of "calculateScaleParameters False (s\<lparr>m_scale := the sc\<rparr>)" s]
    by (auto simp: set_scale_def split: option.splits)
next
  case (Context_scale fixed w ht)
  then show ?thesis
    using assms surface_ok_cong [of s' s] by (auto simp: context_scale_surface_def split: if_splits)
next
  case Context_unlock
  then show ?thesis
    using assms releaseBackingMap_ok [OF release_lock_ok [OF assms(2)], of 2 1] by (auto simp: context_unlock_memory_def)
next
  case Flush
  then show ?thesis using assms surface_flush_fenced fenced_ok by auto
qed (use assms set_id_ok set_shape_ok surface_read_lock_ok surface_write_lock_ok release_lock_ok context_set_ok context_lock_ok
      copy_framebuffer_ok copy_surface_ok surface_video_off_ok surface_flush_video_ok in
    \<open>auto simp: surface_read_unlock_options_def surface_write_unlock_options_def\<close>)

lemma surface_calls_ok:
  "surface_calls h cs (s, a, m) = Some (rcs, s', a', m') \<Longrightarrow> surface_ok s \<Longrightarrow> surface_ok s'"
proof (induction cs arbitrary: s a m rcs)
  case (Cons kc cs)
  obtain k c where kc: "kc = (k, c)" by fastforce
  from Cons.prems(1) obtain rc w rcs' where w: "surface_do h k c (s, a, m) = Some (rc, w)"
    "surface_calls h cs w = Some (rcs', s', a', m')"
    unfolding kc by (auto split: bind_splits)
  obtain t b n where "w = (t, b, n)" by (cases w)
  with w Cons.IH [of t b n rcs'] surface_do_ok [of h k c s a m rc t b n] Cons.prems(2) show ?case by simp
qed simp

lemma surface_start_ok:
  assumes "surface_start h k True True (snd (surface_initWithTask True task surface_zero)) a = Some (started, s, b)"
  shows "surface_ok s"
proof -
  let ?s = "(snd (surface_initWithTask True task surface_zero))\<lparr>has_provider := True\<rparr>"
  have ok: "surface_ok (?s\<lparr>m_screenInfo := i\<rparr>)" "surface_ok ?s" "\<not> haveFrontBuffer (?s\<lparr>m_screenInfo := i\<rparr>)" for i
    by (simp_all add: surface_initWithTask_def surface_Init_def surface_zero_def surface_ok_def backing_ok_def buffer_init_def
        not_valid haveFrontBuffer_def set_vtb_def)
  show ?thesis
    using assms ok Start3D_ok [OF _ ok(1,3)]
    by (auto simp: surface_start_def getScreenInfo_def Let_def split: option.splits bind_splits)
qed

section \<open>The type of the surfaces\<close>

text \<open>C8: A surface is well formed from its start on, whatever calls it gets, with whatever the kernel provides at
  each and whether they succeed or fail: its backing is a block of video memory or a prepared memory region with a
  valid number, never both, mapped only while there is one; a surface with an identity has two or four bytes per
  pixel; a shape is only kept under an identity and fits in the 4,096 bytes the driver allows; a screen and the
  master surface are not held together; and only the three lock bits are ever set.\<close>

theorem surface_well_formed:
  assumes "surface_start h k True True (snd (surface_initWithTask True task surface_zero)) a = Some (True, s, b)"
    and "surface_calls h calls (s, b, m) = Some (rcs, s', b', m')"
  shows "surface_ok s'"
  by (rule surface_calls_ok [OF assms(2) surface_start_ok [OF assms(1)]])

definition kit_none :: kit where
  "kit_none = \<lparr>k_client_memory = \<lambda>_ _ _. None, k_buffer = \<lambda>_. None, k_trick = \<lambda>_. None,
     k_helper = \<lparr>helper_alloc = \<lambda>_. None, helper_prepare = kIOReturnNoMemory\<rparr>, k_map = \<lambda>_ _. None, k_kernel_map = \<lambda>_. None,
     k_vram_map = \<lambda>_ _ _. None, k_shape = True, k_info_size = 56, k_readback = \<lambda>_. 0\<rparr>"

definition surface_sample :: surface where
  "surface_sample = surface_zero\<lparr>has_provider := True, bHaveID := True, m_wID := 2, m_bytes_per_pixel := 4, bHaveScreen := True,
     m_client_backing := \<lparr>cb_addr = 4096, cb_rowbytes = 32, cb_size = 128\<rparr>,
     m_scale := \<lparr>sc_buffer = \<lparr>r_x = 0, r_y = 0, r_w = 8, r_h = 4\<rparr>, source_w = 8, source_h = 4, reserved0 = 4096, reserved1 = 32, reserved2 = 0\<rparr>\<rparr>"

lemma surface_sample_start:
  "\<exists>s. surface_start drain_host kit_none True True (snd (surface_initWithTask True 5 surface_zero)) accel_sample = Some (True, s, accel_sample) \<and>
    bHaveScreen s \<and> m_wID s = 0 \<and> bVideoMode s = False \<and> bIsLocked s = 0 \<and> gart_ptr (vtb (m_backing s)) = 0 \<and> bSkipWriteLockOnce s = False"
  by (simp add: surface_start_def getScreenInfo_def Start3D_def accel_sample_def Let_def surface_initWithTask_def surface_Init_def
      surface_zero_def set_vtb_def haveFrontBuffer_def buffer_init_def)

lemma sample_calls:
  assumes "bHaveScreen s" and "m_wID s = 0" and "bVideoMode s = False" and "bIsLocked s = 0" and "gart_ptr (vtb (m_backing s)) = 0"
    and "bSkipWriteLockOnce s = False"
  shows "\<exists>w. surface_calls drain_host (map (Pair kit_none)
      [Set_id_mode 2 0x24, Set_shape 4 0 4096 32 128 (Some (set_region 0 0 8 4)) 20, Read_lock (Some 56), Read_unlock])
    (s, accel_sample, \<lambda>_. 0) = Some ([kIOReturnSuccess, kIOReturnSuccess, kIOReturnSuccess, kIOReturnSuccess], w)"
  using assms
  by (simp add: set_id_mode_def mode_formats_def set_shape_backing_length_ext_def set_region_def IOACCEL_SIZEOF_DEVICE_REGION_def
     isRegionEmpty_def clearLastRegion_def accept_client_backing_def adopt_shape_def kit_none_def identity_scale_def videoReshape_def
     surface_read_lock_options_def info_given_def isSourceValid_def calculateScaleParameters_def
     OSTestAndSet_def OSTestAndClear_def read_lock_memory_def isClientBackingValid_def calculateSurfaceInformation_def
     surface_read_unlock_options_def release_lock_def Let_def word_sless_alt word_sle_eq)

lemma surface_well_formed_witness:
  "\<exists>s s' b m'. surface_start drain_host kit_none True True (snd (surface_initWithTask True 5 surface_zero)) accel_sample =
      Some (True, s, accel_sample) \<and>
    surface_calls drain_host (map (Pair kit_none)
      [Set_id_mode 2 0x24, Set_shape 4 0 4096 32 128 (Some (set_region 0 0 8 4)) 20, Read_lock (Some 56), Read_unlock])
    (s, accel_sample, \<lambda>_. 0) =
      Some ([kIOReturnSuccess, kIOReturnSuccess, kIOReturnSuccess, kIOReturnSuccess], s', b, m') \<and> surface_ok s'"
proof -
  obtain s where s: "surface_start drain_host kit_none True True (snd (surface_initWithTask True 5 surface_zero)) accel_sample =
      Some (True, s, accel_sample)"
    "bHaveScreen s" "m_wID s = 0" "bVideoMode s = False" "bIsLocked s = 0" "gart_ptr (vtb (m_backing s)) = 0" "bSkipWriteLockOnce s = False"
    using surface_sample_start by blast
  obtain s' b m' where r: "surface_calls drain_host (map (Pair kit_none)
      [Set_id_mode 2 0x24, Set_shape 4 0 4096 32 128 (Some (set_region 0 0 8 4)) 20, Read_lock (Some 56), Read_unlock])
    (s, accel_sample, \<lambda>_. 0) = Some ([kIOReturnSuccess, kIOReturnSuccess, kIOReturnSuccess, kIOReturnSuccess], s', b, m')"
    using sample_calls [OF s(2-7)] by (metis prod.exhaust)
  from surface_well_formed [OF s(1) r] s(1) r show ?thesis by blast
qed

end
