(* ===== verification/SurfaceLocks.thy ===== *)
theory SurfaceLocks
  imports SurfaceProofs
begin

text \<open>
  The three locks of a surface (read, write and the one of the 2D context) exclude each other's second holder. The contract
  of a lock that one call takes and another gives back is the locale \<open>exclusive_lock\<close>; the surface calls are its
  model, with one interpretation for all three locks.
\<close>

section \<open>Locks\<close>

text \<open>
  The contract of a lock that is taken by one call and given back by another: \<open>solid\<close> says that a grant is a real
  one, which leaves the lock held.
\<close>

locale exclusive_lock =
  fixes step :: "'c \<Rightarrow> 's \<Rightarrow> ('r \<times> 's) option"
    and takes :: "'c \<Rightarrow> bool" and frees :: "'c \<Rightarrow> bool"
    and granted :: "'r \<Rightarrow> bool"
    and held :: "'s \<Rightarrow> bool" and solid :: "'s \<Rightarrow> bool"
  assumes take_free: "step c s = Some (r, t) \<Longrightarrow> takes c \<Longrightarrow> granted r \<Longrightarrow> \<not> held s"
    and take_held: "step c s = Some (r, t) \<Longrightarrow> takes c \<Longrightarrow> granted r \<Longrightarrow> solid s \<Longrightarrow> held t"
    and keep: "step c s = Some (r, t) \<Longrightarrow> held s \<Longrightarrow> \<not> frees c \<Longrightarrow> held t"
begin

fun run :: "'c list \<Rightarrow> 's \<Rightarrow> ('r list \<times> 's) option" where
  "run [] s = Some ([], s)"
| "run (c # cs) s = do { (r, s) \<leftarrow> step c s; (rs, s) \<leftarrow> run cs s; Some (r # rs, s) }"

lemma run_keeps: "run cs s = Some (rs, t) \<Longrightarrow> held s \<Longrightarrow> \<forall>c \<in> set cs. \<not> frees c \<Longrightarrow> held t"
  using keep by (induction cs arbitrary: s rs) (fastforce split: bind_splits)+

lemma run_append: "run (cs @ ds) s = do { (qs, u) \<leftarrow> run cs s; (ps, t) \<leftarrow> run ds u; Some (qs @ ps, t) }"
proof (induction cs arbitrary: s)
  case Nil
  show ?case by (cases "run ds s") simp_all
next
  case (Cons c cs)
  show ?case
  proof (cases "step c s")
    case (Some w)
    obtain r t where "w = (r, t)" by fastforce
    with Some Cons.IH [of t] show ?thesis by (cases "run cs t") (auto split: bind_split)
  qed simp
qed

text \<open>Between two grants the lock was given back.\<close>

lemma exclusive:
  assumes "run (c # cs @ [d]) s = Some (r # rs @ [q], t)" and "takes c" "takes d" and "granted r" "granted q" and "solid s"
  shows "\<exists>e \<in> set cs. frees e"
proof (rule ccontr)
  assume none: "\<not> ?thesis"
  obtain u v qs ps where u: "step c s = Some (r, u)" and v: "run cs u = Some (qs, v)" "run [d] v = Some (ps, t)" "rs @ [q] = qs @ ps"
    using assms(1) by (auto simp: run_append split: bind_splits)
  have "held u" by (rule take_held [OF u assms(2,4,6)])
  with none run_keeps [OF v(1)] have "held v" by blast
  moreover obtain w where "step d v = Some (q, w)"
    using v(2,3) by (auto split: bind_splits)
  ultimately show False using take_free assms(3,5) by blast
qed

end

definition locked :: "nat \<Rightarrow> surface \<Rightarrow> bool" where
  "locked n s \<longleftrightarrow> bIsLocked s AND drop_bit n 128 \<noteq> 0"

lemma bit_lock: "n < 8 \<Longrightarrow> bit (drop_bit n (128 :: u8)) i \<longleftrightarrow> i = 7 - n"
proof -
  have top: "(128 :: u8) = push_bit 7 1" by simp
  have "bit (drop_bit n (128 :: u8)) i \<longleftrightarrow> n + i = 7"
    unfolding top bit_drop_bit_eq bit_push_bit_iff o_def bit_1_iff by (auto simp: possible_bit_def)
  then show "n < 8 \<Longrightarrow> ?thesis" by arith
qed

lemma locked_iff: "n < 8 \<Longrightarrow> locked n s \<longleftrightarrow> bit (bIsLocked s) (7 - n)"
  unfolding locked_def bit_eq_iff by (auto simp: bit_and_iff bit_lock)

lemma locked_simps [simp]:
  "locked n (s\<lparr>m_backing := b\<rparr>) = locked n s" "locked n (set_fence f s) = locked n s" "locked n (set_vtb t s) = locked n s"
  "locked n (s\<lparr>bSkipWriteLockOnce := x\<rparr>) = locked n s"
  by (simp_all add: locked_def set_fence_def set_vtb_def split: option.split)

lemma locked_take:
  assumes "n < 3" and "k < 3"
  shows "locked n (s\<lparr>bIsLocked := snd (OSTestAndSet k (bIsLocked s))\<rparr>) \<longleftrightarrow> n = k \<or> locked n s"
    "fst (OSTestAndSet k (bIsLocked s)) \<longleftrightarrow> locked k s"
    "locked n (release_lock k s) \<longleftrightarrow> n \<noteq> k \<and> locked n s"
    using assms
  by (auto simp: locked_iff OSTestAndSet_def release_lock_def OSTestAndClear_def bit_or_iff bit_and_iff bit_not_iff_eq bit_lock
      possible_bit_def simp flip: locked_def)

text \<open>What a surface's locks depend on.\<close>

definition lock_fields :: "surface \<Rightarrow> u8 \<times> bool" where
  "lock_fields s = (bIsLocked s, bSkipWriteLockOnce s)"

lemma lock_fields_simps [simp]:
  "lock_fields (s\<lparr>m_backing := b\<rparr>) = lock_fields s" "lock_fields (set_vtb t s) = lock_fields s"
  "lock_fields (set_fence f s) = lock_fields s" "lock_fields (releaseBackingMap i s) = lock_fields s"
  "lock_fields (s\<lparr>m_video_unit := u\<rparr>) = lock_fields s" "lock_fields (s\<lparr>m_stream_id := j\<rparr>) = lock_fields s"
  "lock_fields (s\<lparr>m_client_backing := x\<rparr>) = lock_fields s" "lock_fields (s\<lparr>m_scale := c\<rparr>) = lock_fields s"
  "lock_fields (calculateScaleParameters g s) = lock_fields s" "lock_fields (clearLastRegion s) = lock_fields s"
  "lock_fields (snd (setVideoDest s)) = lock_fields s" "lock_fields (snd (setVideoRegs s)) = lock_fields s"
  "lock_fields (identity_scale r a s) = lock_fields s"
  by (simp_all add: lock_fields_def set_vtb_def set_fence_def releaseBackingMap_def calculateScaleParameters_def clearLastRegion_def
      setVideoDest_def setVideoRegs_def identity_scale_def Let_def split: option.split prod.split)

lemma lock_fields_updates [simp]:
  "lock_fields (s\<lparr>bVideoMode := v\<rparr>) = lock_fields s" "lock_fields (s\<lparr>m_surfaceFormat := g\<rparr>) = lock_fields s"
  "lock_fields (s\<lparr>m_bytes_per_pixel := n\<rparr>) = lock_fields s" "lock_fields (s\<lparr>m_pixel_format := p\<rparr>) = lock_fields s"
  "lock_fields (s\<lparr>m_video_format := f\<rparr>) = lock_fields s" "lock_fields (s\<lparr>m_wID := w\<rparr>) = lock_fields s"
  "lock_fields (s\<lparr>bHaveID := i\<rparr>) = lock_fields s" "lock_fields (s\<lparr>bHaveScreen := b\<rparr>) = lock_fields s"
  "lock_fields (s\<lparr>bHaveMasterSurface := b\<rparr>) = lock_fields s" "lock_fields (s\<lparr>bDirectBlit := b\<rparr>) = lock_fields s"
  "lock_fields (s\<lparr>m_last_shape := b\<rparr>) = lock_fields s" "lock_fields (s\<lparr>m_last_region := r\<rparr>) = lock_fields s"
  "lock_fields (s\<lparr>m_framebufferIndex := x\<rparr>) = lock_fields s"
  by (simp_all add: lock_fields_def)

lemma lock_fields_fenced: "fenced s s' \<Longrightarrow> lock_fields s' = lock_fields s"
  by (auto simp: fenced_def)

lemma lock_fields_locked: "lock_fields s' = lock_fields s \<Longrightarrow> locked n s' = locked n s"
  by (simp add: lock_fields_def locked_def)

lemma buffers_lock_fields:
  "complete_backing h s a = Some (s', a') \<Longrightarrow> lock_fields s' = lock_fields s"
  "releaseBacking h s a = Some (s', a') \<Longrightarrow> lock_fields s' = lock_fields s"
  "prepare_backing h k md mark s a = Some (ok, s', a') \<Longrightarrow> lock_fields s' = lock_fields s"
  by (auto simp: complete_backing_def releaseBacking_def prepare_backing_def Let_def split: bind_splits if_splits)

lemma allocBacking_lock_fields: "allocBacking h k s a = Some (ok, s', a') \<Longrightarrow> lock_fields s' = lock_fields s"
  by (auto simp: allocBacking_def wrapClientBacking_def allocGMRBacking_def Let_def dest!: buffers_lock_fields
      split: bind_splits if_splits option.splits)

lemma mapBacking_lock_fields: "lock_fields (snd (mapBacking k task i s)) = lock_fields s"
  by (simp add: mapBacking_def Let_def)

lemma back_and_map_lock_fields: "back_and_map h k task i s a = Some (ok, s', a') \<Longrightarrow> lock_fields s' = lock_fields s"
  using mapBacking_lock_fields [of k task i] allocBacking_lock_fields [of h k s a]
  by (fastforce simp: back_and_map_def split_def Let_def split: bind_splits if_splits)

lemma client_memory_lock_fields:
  "(if isClientBackingValid s then Some (True, s, a) else back_and_map h k task i s a) = Some (ok, s', a') \<Longrightarrow>
    lock_fields s' = lock_fields s"
  using back_and_map_lock_fields by (auto split: if_splits)

lemma video_lock_fields:
  "surface_video_off h s a = Some (s', a') \<Longrightarrow> lock_fields s' = lock_fields s"
  "videoReshape h s a = Some (s', a') \<Longrightarrow> lock_fields s' = lock_fields s"
  "surface_flush_video h s a = Some (rc, s', a') \<Longrightarrow> lock_fields s' = lock_fields s"
  by (auto simp: surface_video_off_def videoReshape_def surface_flush_video_def split_def Let_def split: bind_splits if_splits)

lemma surface_3D_lock_fields:
  "Start3D h k s a = Some (s', a') \<Longrightarrow> lock_fields s' = lock_fields s"
  "Cleanup3D h s a = Some (s', a') \<Longrightarrow> lock_fields s' = lock_fields s"
  by (auto simp: Start3D_def Cleanup3D_def Let_def split: bind_splits if_splits)

lemma context_set_lock_fields: "context_set_surface h k v p s a = Some (rc, s', a') \<Longrightarrow> lock_fields s' = lock_fields s"
  by (auto simp: context_set_surface_def Let_def dest!: video_lock_fields surface_3D_lock_fields split: bind_splits if_splits)

lemma set_id_lock_fields: "set_id_mode h wID mode s a = Some (rc, s', a') \<Longrightarrow> lock_fields s' = lock_fields s"
  by (auto simp: set_id_mode_def split: bind_splits if_splits option.splits prod.splits)

lemma adopt_shape_lock_fields:
  "adopt_shape h k options fb r s a = Some (rc, s', a') \<Longrightarrow> options \<noteq> 5 \<Longrightarrow> lock_fields s' = lock_fields s"
  by (auto simp: adopt_shape_def Let_def dest!: video_lock_fields split: bind_splits if_splits)

lemma fst_lock_fields: "fst (lock_fields (s\<lparr>bSkipWriteLockOnce := x\<rparr>)) = fst (lock_fields s)"
  by (simp add: lock_fields_def)

lemma adopt_shape_bits: "adopt_shape h k options fb r s a = Some (rc, s', a') \<Longrightarrow> fst (lock_fields s') = fst (lock_fields s)"
  by (auto simp: adopt_shape_def Let_def fst_lock_fields dest!: video_lock_fields split: bind_splits if_splits)

lemma accept_client_lock_fields: "accept_client_backing addr rowbytes len r s = Inr t \<Longrightarrow> lock_fields t = lock_fields s"
  by (auto simp: accept_client_backing_def Let_def split: if_splits)

lemma set_shape_bits:
  "set_shape_backing_length_ext h k options fb addr rowbytes len rgn n s a = Some (rc, s', a') \<Longrightarrow>
    fst (lock_fields s') = fst (lock_fields s)"
  by (auto simp: set_shape_backing_length_ext_def Let_def dest!: accept_client_lock_fields adopt_shape_bits
      split: if_splits option.splits sum.splits)

lemma set_shape_lock_fields:
  "set_shape_backing_length_ext h k options fb addr rowbytes len rgn n s a = Some (rc, s', a') \<Longrightarrow> options \<noteq> 5 \<Longrightarrow>
    lock_fields s' = lock_fields s"
  by (auto simp: set_shape_backing_length_ext_def Let_def dest!: accept_client_lock_fields adopt_shape_lock_fields
      split: if_splits option.splits sum.splits)

lemma copy_lock_fields:
  "copy_framebuffer_region_to_self h k fb x y rgn n s a m = Some (rc, s', a', m') \<Longrightarrow> lock_fields s' = lock_fields s"
  "copy_surface_region_to_self h k src x y rgn n s a m = Some (rc, s', a', m') \<Longrightarrow> lock_fields s' = lock_fields s"
  by (auto simp: copy_framebuffer_region_to_self_def copy_surface_region_to_self_def Let_def split_def dest!: allocBacking_lock_fields
      split: if_splits option.splits bind_splits)

text \<open>The three lock calls: a lock is only granted when it is free; a refused call leaves the bit as it was.\<close>

lemma lock_fields_release [simp]: "lock_fields (release_lock n s) = (OSTestAndClear n (fst (lock_fields s)), snd (lock_fields s))"
  by (simp add: lock_fields_def release_lock_def)

lemma lock_memory_fields:
  "read_lock_memory h k s a = Some ((rc, i), s', a') \<Longrightarrow>
    lock_fields s' = (if rc = kIOReturnSuccess then lock_fields s else lock_fields (release_lock 0 s))"
  "write_lock_memory h k s a = Some ((rc, i), s', a') \<Longrightarrow>
    lock_fields s' = (if rc = kIOReturnSuccess then lock_fields s else lock_fields (release_lock 1 s))"
  by (auto simp: read_lock_memory_def write_lock_memory_def dest!: back_and_map_lock_fields split: bind_splits if_splits)

lemma trick_lock_fields: "lock_fields (fst (snd (setup_trick_buffer k s m))) = lock_fields s"
  by (simp add: setup_trick_buffer_def Let_def split: option.split)

lemma context_lock_fields:
  "context_lock_backing h k task s a m = Some ((rc, i), s', a', m') \<Longrightarrow>
    lock_fields s' = (if rc = kIOReturnSuccess then lock_fields s else lock_fields (release_lock 2 s))"
  by (auto simp: context_lock_backing_def Let_def split_def trick_lock_fields dest!: back_and_map_lock_fields split: bind_splits if_splits)

text \<open>Taking lock \<open>n\<close> with the outcome \<open>rc\<close>.\<close>

definition lock_taken :: "nat \<Rightarrow> ioreturn \<Rightarrow> surface \<Rightarrow> surface \<Rightarrow> bool" where
  "lock_taken n rc s s' \<longleftrightarrow> (rc = kIOReturnSuccess \<longrightarrow> \<not> locked n s \<and> locked n s') \<and>
     (\<forall>k < 3. locked k s \<longrightarrow> locked k s') \<and> bSkipWriteLockOnce s' = bSkipWriteLockOnce s"

lemma lock_taken_refused: "rc \<noteq> kIOReturnSuccess \<Longrightarrow> lock_taken n rc s s"
  by (simp add: lock_taken_def)

lemma lock_taken_cases:
  assumes "n < 3" and "l = OSTestAndSet n (bIsLocked s)"
    and "if fst l then rc \<noteq> kIOReturnSuccess \<and> s' = s\<lparr>bIsLocked := snd l\<rparr>
      else lock_fields s' = (if rc = kIOReturnSuccess then lock_fields (s\<lparr>bIsLocked := snd l\<rparr>)
        else lock_fields (release_lock n (s\<lparr>bIsLocked := snd l\<rparr>)))"
  shows "lock_taken n rc s s'"
proof -
  let ?s = "s\<lparr>bIsLocked := snd l\<rparr>"
  have l: "locked k ?s \<longleftrightarrow> k = n \<or> locked k s" "fst l \<longleftrightarrow> locked n s" "locked k (release_lock n ?s) \<longleftrightarrow> k \<noteq> n \<and> locked k ?s"
    if "k < 3" for k
    using locked_take [OF that assms(1)] unfolding assms(2) by blast+
  have f: "locked k s' = locked k t \<and> bSkipWriteLockOnce s' = bSkipWriteLockOnce t" if "lock_fields s' = lock_fields t" for k t
    using that by (simp add: lock_fields_def locked_def)
  show ?thesis
  proof (cases "fst l")
    case True
    with assms(1,3) l show ?thesis by (auto simp: lock_taken_def)
  next
    case False
    then have free: "\<not> locked n s" using l(2) [of 0] by simp
    show ?thesis
    proof (cases "rc = kIOReturnSuccess")
      case True
      with assms(3) False have "lock_fields s' = lock_fields ?s" by simp
      with f [of ?s] l(1) free True assms(1) show ?thesis by (simp add: lock_taken_def)
    next
      case nope: False
      with assms(3) False have "lock_fields s' = lock_fields (release_lock n ?s)" by simp
      with f [of "release_lock n ?s"] l(1,3) free nope show ?thesis by (auto simp: lock_taken_def release_lock_def)
    qed
  qed
qed

lemma read_lock_taken:
  "surface_read_lock_options h k i s a = Some ((rc, info), s', a') \<Longrightarrow> lock_taken 0 rc s s'"
  using lock_taken_cases [of 0 _ s rc s'] lock_taken_refused
  by (auto simp: surface_read_lock_options_def split_def Let_def dest!: lock_memory_fields split: if_splits)

lemma context_lock_taken:
  "context_lock_memory h k task g s a m = Some ((rc, info), s', a', m') \<Longrightarrow> lock_taken 2 rc s s'"
  using lock_taken_cases [of 2 _ s rc s'] lock_taken_refused
  by (auto simp: context_lock_memory_def split_def Let_def dest!: context_lock_fields split: if_splits)

lemma write_lock_taken:
  "surface_write_lock_options h k i s a = Some ((rc, info), s', a') \<Longrightarrow> \<not> bSkipWriteLockOnce s \<Longrightarrow> lock_taken 1 rc s s'"
  using lock_taken_cases [of 1 _ s rc s'] lock_taken_refused
  by (auto simp: surface_write_lock_options_def split_def Let_def dest!: lock_memory_fields split: if_splits)

text \<open>Which calls take and which give back lock \<open>n\<close>; a shape with options 5 lets the next write lock through.\<close>

fun lock_takes :: "nat \<Rightarrow> surface_call \<Rightarrow> bool" where
  "lock_takes n (Read_lock i) = (n = 0)"
| "lock_takes n (Write_lock i) = (n = 1)"
| "lock_takes n (Context_lock t g) = (n = 2)"
| "lock_takes n c = False"

fun lock_frees :: "nat \<Rightarrow> surface_call \<Rightarrow> bool" where
  "lock_frees n Read_unlock = (n = 0)"
| "lock_frees n Write_unlock = (n = 1)"
| "lock_frees n Context_unlock = (n = 2)"
| "lock_frees n c = False"

fun lets_write_through :: "surface_call \<Rightarrow> bool" where
  "lets_write_through (Set_shape options fb addr rowbytes len rgn n) = (options = 5)"
| "lets_write_through c = False"

lemma release_keeps: "n < 3 \<Longrightarrow> j < 3 \<Longrightarrow> n \<noteq> j \<Longrightarrow> locked n (release_lock j s) = locked n s"
  using locked_take(3) by blast

lemma bits_locked: "fst (lock_fields s') = fst (lock_fields s) \<Longrightarrow> locked n s' = locked n s"
  by (simp add: lock_fields_def locked_def)

lemma fields_bits: "lock_fields s' = lock_fields s \<Longrightarrow> fst (lock_fields s') = fst (lock_fields s)"
  by simp

lemma skipped_write_keeps:
  assumes "surface_write_lock_options h k i s a = Some ((rc, info), s', a')" and "bSkipWriteLockOnce s" and "n < 3" and "n \<noteq> 1"
  shows "locked n s' = locked n s"
proof (cases "\<not> info_given k i \<or> \<not> bHaveID s \<or> \<not> isSourceValid s")
  case True
  with assms(1) show ?thesis by (auto simp: surface_write_lock_options_def split: if_splits)
next
  case False
  let ?s = "s\<lparr>bSkipWriteLockOnce := False\<rparr>"
  from False assms(1,2) have "write_lock_memory h k ?s a = Some ((rc, info), s', a')"
    by (simp add: surface_write_lock_options_def)
  from lock_memory_fields(2) [OF this] have "locked n s' = locked n ?s \<or> locked n s' = locked n (release_lock 1 ?s)"
    by (auto simp: lock_fields_def locked_def release_lock_def split: if_splits)
  then show ?thesis using release_keeps [of n 1 ?s] assms(3,4) by auto
qed

text \<open>The calls that leave the locks alone.\<close>

fun locks_untouched :: "surface_call \<Rightarrow> bool" where
  "locks_untouched (Set_shape options fb addr rowbytes len rgn n) = (options \<noteq> 5)"
| "locks_untouched (Read_lock i) = False"
| "locks_untouched Read_unlock = False"
| "locks_untouched (Write_lock i) = False"
| "locks_untouched Write_unlock = False"
| "locks_untouched (Context_lock t g) = False"
| "locks_untouched Context_unlock = False"
| "locks_untouched c = True"

lemma scale_lock_fields: "lock_fields (snd (set_scale sc s)) = lock_fields s"
  "lock_fields (snd (context_scale_surface fixed w ht s)) = lock_fields s"
proof -
  have "lock_fields (s\<lparr>m_scale := c\<rparr>) = lock_fields s" for c by simp
  then show "lock_fields (snd (set_scale sc s)) = lock_fields s"
    "lock_fields (snd (context_scale_surface fixed w ht s)) = lock_fields s"
    by (simp_all add: set_scale_def context_scale_surface_def Let_def split: option.split)
qed

lemma surface_do_frame:
  assumes "surface_do h k c (s, a, m) = Some (rc, s', a', m')" and "locks_untouched c"
  shows "lock_fields s' = lock_fields s"
proof (cases c)
  case (Set_scale sc)
  with assms scale_lock_fields(1) [of sc s] show ?thesis by (simp add: split_def Let_def)
next
  case (Context_scale fixed w ht)
  with assms scale_lock_fields(2) [of fixed w ht s] show ?thesis by (simp add: split_def Let_def)
next
  case Flush
  with assms lock_fields_fenced [OF surface_flush_fenced [of h k s a m rc s' a' m']] show ?thesis by simp
next
  case (Set_id_mode w md)
  with assms set_id_lock_fields [of h w md s a rc s' a'] show ?thesis by simp
next
  case (Set_shape o' fb addr rowbytes len rgn sz)
  with assms set_shape_lock_fields [of h k o' fb addr rowbytes len rgn sz s a rc s' a'] show ?thesis by simp
next
  case (Context_set v p)
  with assms context_set_lock_fields [of h k v p s a rc s' a'] show ?thesis by simp
next
  case (Copy_framebuffer fb x y rgn sz)
  with assms copy_lock_fields(1) [of h k fb x y rgn sz s a m rc s' a' m'] show ?thesis by simp
next
  case (Copy_surface_region src x y rgn sz)
  with assms copy_lock_fields(2) [of h k src x y rgn sz s a m rc s' a' m'] show ?thesis by simp
next
  case Video_off
  with assms video_lock_fields(1) [of h s a s' a'] show ?thesis by simp
next
  case Flush_video
  with assms video_lock_fields(3) [of h s a rc s' a'] show ?thesis by simp
qed (use assms in simp_all)

lemma unlock_fields:
  "surface_do h k Read_unlock (s, a, m) = Some (rc, s', a', m') \<Longrightarrow> lock_fields s' = lock_fields (release_lock 0 s)"
  "surface_do h k Write_unlock (s, a, m) = Some (rc, s', a', m') \<Longrightarrow> lock_fields s' = lock_fields (release_lock 1 s)"
  "surface_do h k Context_unlock (s, a, m) = Some (rc, s', a', m') \<Longrightarrow> lock_fields s' = lock_fields (release_lock 2 s)"
  by (auto simp: surface_read_unlock_options_def surface_write_unlock_options_def context_unlock_memory_def
      simp del: releaseBackingMap_simps lock_fields_release)

lemma surface_do_keeps:
  assumes "surface_do h k c (s, a, m) = Some (rc, s', a', m')" and "n < 3" and "locked n s"
    and "\<not> lock_frees n c" and "n = 1 \<longrightarrow> \<not> bSkipWriteLockOnce s"
  shows "locked n s'"
proof (cases c)
  case (Write_lock i)
  with assms obtain info where w: "surface_write_lock_options h k i s a = Some ((rc, info), s', a')" by auto
  with write_lock_taken [OF w] skipped_write_keeps [OF w _ assms(2)] assms(2-5) show ?thesis
    by (cases "bSkipWriteLockOnce s") (auto simp: lock_taken_def)
next
  case (Read_lock i)
  with assms read_lock_taken [of h k i s a rc _ s' a'] show ?thesis by (auto simp: lock_taken_def)
next
  case (Context_lock t g)
  with assms context_lock_taken [of h k t g s a m rc _ s' a' m'] show ?thesis by (auto simp: lock_taken_def)
next
  case (Set_shape o' fb addr rowbytes len rgn sz)
  with assms set_shape_bits [of h k o' fb addr rowbytes len rgn sz s a rc s' a'] bits_locked [of s' s n] show ?thesis by simp
next
  case Read_unlock
  with assms lock_fields_locked [OF unlock_fields(1), of h k s a m rc s' a' m' n] release_keeps [of n 0 s] show ?thesis by simp
next
  case Write_unlock
  with assms lock_fields_locked [OF unlock_fields(2), of h k s a m rc s' a' m' n] release_keeps [of n 1 s] show ?thesis by simp
next
  case Context_unlock
  with assms lock_fields_locked [OF unlock_fields(3), of h k s a m rc s' a' m' n] release_keeps [of n 2 s] show ?thesis by simp
qed (use lock_fields_locked [OF surface_do_frame [OF assms(1)], of n] assms(3) in simp_all)

text \<open>Only a shape with options 5 arms the skipped write lock.\<close>

lemma surface_do_skip:
  assumes "surface_do h k c (s, a, m) = Some (rc, s', a', m')" and "\<not> bSkipWriteLockOnce s" and "\<not> lets_write_through c"
  shows "\<not> bSkipWriteLockOnce s'"
proof -
  have same: "\<not> bSkipWriteLockOnce s'" if "lock_fields s' = lock_fields t" "bSkipWriteLockOnce t = bSkipWriteLockOnce s" for t
    using that assms(2) by (simp add: lock_fields_def)
  show ?thesis
  proof (cases c)
    case (Write_lock i)
    with assms write_lock_taken [of h k i s a rc _ s' a'] show ?thesis by (auto simp: lock_taken_def)
  next
    case (Read_lock i)
    with assms read_lock_taken [of h k i s a rc _ s' a'] show ?thesis by (auto simp: lock_taken_def)
  next
    case (Context_lock t g)
    with assms context_lock_taken [of h k t g s a m rc _ s' a' m'] show ?thesis by (auto simp: lock_taken_def)
  next
    case Read_unlock
    with same [of "release_lock 0 s"] unlock_fields(1) assms show ?thesis by (simp add: release_lock_def)
  next
    case Write_unlock
    with same [of "release_lock 1 s"] unlock_fields(2) assms show ?thesis by (simp add: release_lock_def)
  next
    case Context_unlock
    with same [of "release_lock 2 s"] unlock_fields(3) assms show ?thesis by (simp add: release_lock_def)
  qed (use same [of s] surface_do_frame [OF assms(1)] assms(3) in simp_all)
qed

definition call_step :: "host \<Rightarrow> kit \<times> surface_call \<Rightarrow> surface_world \<Rightarrow> (ioreturn \<times> surface_world) option" where
  "call_step h kc w = surface_do h (fst kc) (snd kc) w"

lemma call_step_pair [simp]: "call_step h (k, c) w = surface_do h k c w"
  by (simp add: call_step_def)

lemma lock_take:
  assumes "surface_do h k c (s, a, m) = Some (rc, s', a', m')" and "lock_takes n c" and "rc = kIOReturnSuccess"
    and "n = 1 \<longrightarrow> \<not> bSkipWriteLockOnce s"
  shows "n < 3 \<and> \<not> locked n s \<and> locked n s'"
proof (cases c)
  case (Write_lock i)
  with assms write_lock_taken [of h k i s a rc _ s' a'] show ?thesis by (auto simp: lock_taken_def)
next
  case (Read_lock i)
  with assms read_lock_taken [of h k i s a rc _ s' a'] show ?thesis by (auto simp: lock_taken_def)
next
  case (Context_lock t g)
  with assms context_lock_taken [of h k t g s a m rc _ s' a' m'] show ?thesis by (auto simp: lock_taken_def)
qed (use assms in simp_all)

text \<open>Lock \<open>n\<close> is really held: for the write lock, no skipped lock is armed.\<close>

definition lock_solid :: "nat \<Rightarrow> surface_world \<Rightarrow> bool" where
  "lock_solid n w \<longleftrightarrow> n = 1 \<longrightarrow> \<not> bSkipWriteLockOnce (fst w)"

definition lock_held :: "nat \<Rightarrow> surface_world \<Rightarrow> bool" where
  "lock_held n w \<longleftrightarrow> n < 3 \<and> locked n (fst w) \<and> lock_solid n w"

definition lock_given_back :: "nat \<Rightarrow> kit \<times> surface_call \<Rightarrow> bool" where
  "lock_given_back n kc \<longleftrightarrow> lock_frees n (snd kc) \<or> n = 1 \<and> lets_write_through (snd kc)"

interpretation sl: exclusive_lock "call_step h" "\<lambda>kc. lock_takes n (snd kc)" "lock_given_back n"
    "\<lambda>rc. rc = kIOReturnSuccess" "lock_held n" "lock_solid n" for h n
proof (unfold_locales, goal_cases)
  case (1 c w r w')
  obtain s a m s' a' m' where w: "w = (s, a, m)" "w' = (s', a', m')" by (metis prod.exhaust)
  with 1 lock_take [of h "fst c" "snd c" s a m r s' a' m' n] show ?case by (auto simp: call_step_def lock_held_def lock_solid_def)
next
  case (2 c w r w')
  obtain s a m s' a' m' where w: "w = (s, a, m)" "w' = (s', a', m')" by (metis prod.exhaust)
  have "\<not> lets_write_through (snd c)" using 2(2) by (cases "snd c") simp_all
  with 2 w lock_take [of h "fst c" "snd c" s a m r s' a' m' n] surface_do_skip [of h "fst c" "snd c" s a m r s' a' m'] show ?case
    by (auto simp: call_step_def lock_held_def lock_solid_def)
next
  case (3 c w r w')
  obtain s a m s' a' m' where w: "w = (s, a, m)" "w' = (s', a', m')" by (metis prod.exhaust)
  with 3 surface_do_keeps [of h "fst c" "snd c" s a m r s' a' m' n] surface_do_skip [of h "fst c" "snd c" s a m r s' a' m'] show ?case
    by (auto simp: call_step_def lock_held_def lock_solid_def lock_given_back_def)
qed

lemma surface_calls_run: "surface_calls h cs w = sl.run h cs w"
proof (induction cs arbitrary: w)
  case (Cons kc cs)
  then have "surface_calls h cs = sl.run h cs" by blast
  then show ?case by (cases kc) simp
qed simp

lemma sample_locks:
  "\<exists>w. surface_calls drain_host (map (Pair kit_none) [Read_lock (Some 56), Read_unlock, Read_lock (Some 56)])
    (surface_sample, accel_sample, \<lambda>_. 0) = Some ([kIOReturnSuccess, kIOReturnSuccess, kIOReturnSuccess], w)"
  by (simp add: surface_read_lock_options_def info_given_def kit_none_def surface_sample_def surface_zero_def isSourceValid_def
     OSTestAndSet_def OSTestAndClear_def read_lock_memory_def isClientBackingValid_def calculateSurfaceInformation_def
     surface_read_unlock_options_def release_lock_def Let_def word_sless_alt)


text \<open>C7: No two holders of a lock: when a client is granted the read lock, the write lock or the context lock of a
  surface, and after any further calls, from whatever clients, the same lock is granted again, then it has been
  given back in between; for the write lock there is one other way the source provides, a shape set with options 5,
  which lets the next write lock of the window server through.\<close>

theorem surface_locks_exclude:
  assumes "surface_calls h ((k, c) # cs @ [(k', d)]) w = Some (kIOReturnSuccess # rcs @ [kIOReturnSuccess], w')"
    and "lock_takes n c" and "lock_takes n d" and "n = 1 \<longrightarrow> \<not> bSkipWriteLockOnce (fst w)"
  shows "\<exists>e \<in> set cs. lock_frees n (snd e) \<or> n = 1 \<and> lets_write_through (snd e)"
proof -
  have "\<exists>e \<in> set cs. lock_given_back n e"
    by (rule sl.exclusive [OF assms(1) [unfolded surface_calls_run]]) (use assms(2-4) in \<open>simp_all add: lock_solid_def\<close>)
  then show ?thesis by (simp add: lock_given_back_def)
qed

lemma surface_locks_exclude_witness:
  "\<exists>e \<in> set [(kit_none, Read_unlock)]. lock_frees 0 (snd e) \<or> (0 :: nat) = 1 \<and> lets_write_through (snd e)"
proof -
  obtain w where "surface_calls drain_host ((kit_none, Read_lock (Some 56)) # [(kit_none, Read_unlock)] @ [(kit_none, Read_lock (Some 56))])
      (surface_sample, accel_sample, \<lambda>_. 0) = Some (kIOReturnSuccess # [kIOReturnSuccess] @ [kIOReturnSuccess], w)"
    using sample_locks by auto
  from surface_locks_exclude [OF this, of 0] show ?thesis by simp
qed

end
