(* ===== verification/Context2D.thy ===== *)
theory Context2D
  imports SurfaceLocks
begin

text \<open>
  The 2D context (\<^verbatim>\<open>AC/UC/VMsvga22DContext.cpp\<close>), through which the acceleration plug-in of the window server draws: a
  user client that keeps a reference on the surface it draws to and passes its calls on to it or to the accelerator.

  Several contexts and surfaces live beside each other on one accelerator.  A surface object lives as long as its own
  client is open or a context refers to it; calling a method of an object that is gone has the outcome \<open>None\<close>, like
  every other fault.
\<close>

section \<open>Surfaces, references and contexts\<close>

text \<open>
  \<open>open_surfaces\<close> are the surfaces among the clients of the accelerator, in the order it asks them; \<open>holds\<close> counts the
  references the contexts have.
\<close>

record desk =
  surfaces :: "nat \<rightharpoonup> surface"
  open_surfaces :: "nat list"
  holds :: "nat \<Rightarrow> nat"
  desk_accel :: accel
  desk_memory :: memory

record context2d =
  td_task :: nat
  td_provider :: bool
  bTargetIsCGSSurface :: bool
  m_surface_client :: "nat option"
  td_framebufferIndex :: u32

definition retain_surface :: "nat \<Rightarrow> desk \<Rightarrow> desk" where
  "retain_surface i w = w\<lparr>holds := (holds w)(i := holds w i + 1)\<rparr>"

definition free_unused :: "nat \<Rightarrow> desk \<Rightarrow> desk" where
  "free_unused i w = (if holds w i = 0 \<and> i \<notin> set (open_surfaces w) then w\<lparr>surfaces := (surfaces w)(i := None)\<rparr> else w)"

definition release_surface :: "nat \<Rightarrow> desk \<Rightarrow> desk" where
  "release_surface i w = free_unused i (w\<lparr>holds := (holds w)(i := holds w i - 1)\<rparr>)"

text \<open>A call of a method of surface \<open>i\<close>.\<close>

definition on_surface :: "nat \<Rightarrow> (surface \<Rightarrow> accel \<Rightarrow> memory \<Rightarrow> ('r \<times> surface \<times> accel \<times> memory) option) \<Rightarrow> desk \<Rightarrow> ('r \<times> desk) option" where
  "on_surface i f w = do {
     s \<leftarrow> surfaces w i;
     (r, s, a, m) \<leftarrow> f s (desk_accel w) (desk_memory w);
     Some (r, w\<lparr>surfaces := (surfaces w)(i \<mapsto> s), desk_accel := a, desk_memory := m\<rparr>)
   }"

definition on_accel :: "(accel \<Rightarrow> ('r \<times> accel) option) \<Rightarrow> desk \<Rightarrow> ('r \<times> desk) option" where
  "on_accel f w = do { (r, a) \<leftarrow> f (desk_accel w); Some (r, w\<lparr>desk_accel := a\<rparr>) }"

text \<open>The accelerator asks its clients which has the identity.\<close>

definition find_surface :: "u32 \<Rightarrow> desk \<Rightarrow> nat option" where
  "find_surface wid w =
    findSurfaceForID wid
      (map (\<lambda>i. (case surfaces w i of None \<Rightarrow> None | Some s \<Rightarrow> if bHaveID s then Some (m_wID s) else None, i)) (open_surfaces w))"

definition td_initWithTask :: "bool \<Rightarrow> nat \<Rightarrow> context2d \<Rightarrow> bool \<times> context2d" where
  "td_initWithTask super owningTask c = (if \<not> super then (False, c) else (True, c\<lparr>td_task := owningTask\<rparr>))"

definition td_start :: "bool \<Rightarrow> bool \<Rightarrow> context2d \<Rightarrow> bool \<times> context2d" where
  "td_start is_accel super c =
    (let c = c\<lparr>td_provider := is_accel\<rparr> in if \<not> is_accel then (False, c) else (super, c))"

definition drop_surface :: "context2d \<Rightarrow> desk \<Rightarrow> context2d \<times> desk" where
  "drop_surface c w =
    (case m_surface_client c of None \<Rightarrow> (c, w) | Some i \<Rightarrow> (c\<lparr>m_surface_client := None\<rparr>, release_surface i w))"

definition td_clientClose :: "host \<Rightarrow> context2d \<Rightarrow> desk \<Rightarrow> (ioreturn \<times> context2d \<times> desk) option" where
  "td_clientClose h c w = do {
     let (c, w) = drop_surface c w;
     let c = c\<lparr>td_framebufferIndex := 0, bTargetIsCGSSurface := False\<rparr>;
     (_, w) \<leftarrow> (if td_provider c then on_accel (accel_useAccelUpdates h False (td_task c)) w else Some (kIOReturnSuccess, w));
     Some (kIOReturnSuccess, c\<lparr>td_task := 0, td_provider := False\<rparr>, w)
   }"

definition locateSurface :: "u32 \<Rightarrow> context2d \<Rightarrow> desk \<Rightarrow> ioreturn \<times> context2d \<times> desk" where
  "locateSurface surface_id c w =
    (if \<not> td_provider c then (kIOReturnNotReady, c, w)
     else case find_surface surface_id w of
       None \<Rightarrow> (kIOReturnNotFound, c\<lparr>m_surface_client := None\<rparr>, w)
     | Some i \<Rightarrow> (kIOReturnSuccess, c\<lparr>m_surface_client := Some i\<rparr>, retain_surface i w))"

section \<open>Drawing\<close>

definition td_useAccelUpdates :: "host \<Rightarrow> u64 \<Rightarrow> context2d \<Rightarrow> desk \<Rightarrow> (ioreturn \<times> desk) option" where
  "td_useAccelUpdates h state c w =
    (if \<not> td_provider c then Some (kIOReturnNotReady, w)
     else on_accel (accel_useAccelUpdates h (state \<noteq> 0) (td_task c)) w)"

definition td_RectCopy :: "host \<Rightarrow> bool \<Rightarrow> blit_copy_rect list option \<Rightarrow> context2d \<Rightarrow> desk \<Rightarrow> (ioreturn \<times> desk) option" where
  "td_RectCopy h undefined_rc copyRects c w =
    (if bTargetIsCGSSurface c then Some (kIOReturnUnsupported, w)
     else if \<not> td_provider c then Some (kIOReturnNotReady, w)
     else on_accel (accel_RectCopy h undefined_rc copyRects) w)"

definition td_RectFill :: "host \<Rightarrow> bool \<Rightarrow> u64 \<Rightarrow> u32 list list option \<Rightarrow> context2d \<Rightarrow> desk \<Rightarrow> (ioreturn \<times> desk) option" where
  "td_RectFill h undefined_rc color fills c w =
    (if bTargetIsCGSSurface c then Some (kIOReturnUnsupported, w)
     else if \<not> td_provider c then Some (kIOReturnNotReady, w)
     else on_accel (accel_RectFill h undefined_rc (ucast color) fills) w)"

text \<open>The copy from another surface, which may be the target itself; the reference is held during the call.\<close>

definition copy_from_surface :: "host \<Rightarrow> kit \<Rightarrow> nat \<Rightarrow> u32 \<Rightarrow> u32 \<Rightarrow> region option \<Rightarrow> nat \<Rightarrow> context2d \<Rightarrow> desk \<Rightarrow> (ioreturn \<times> desk) option" where
  "copy_from_surface h k source destX destY rgn regionSize c w = do {
     let w = retain_surface source w;
     src \<leftarrow> surfaces w source;
     (rc, w) \<leftarrow>
       (if bTargetIsCGSSurface c then
          (case m_surface_client c of None \<Rightarrow> None
           | Some i \<Rightarrow> on_surface i
               (copy_surface_region_to_self h k (Some (\<lambda>s. if source = i then s else src)) destX destY rgn regionSize) w)
        else Some (copy_self_region_to_framebuffer rgn regionSize, w));
     Some (rc, release_surface source w)
   }"

definition td_CopyRegion :: "host \<Rightarrow> kit \<Rightarrow> bool \<Rightarrow> u64 \<Rightarrow> u64 \<Rightarrow> u64 \<Rightarrow> region option \<Rightarrow> nat \<Rightarrow> context2d \<Rightarrow> desk \<Rightarrow> (ioreturn \<times> desk) option" where
  "td_CopyRegion h k undefined_rc source_surface_id destX destY rgn regionSize c w =
    (if \<not> region_given rgn regionSize then Some (kIOReturnBadArgument, w)
     else if \<not> td_provider c then Some (kIOReturnNotReady, w)
     else if bTargetIsCGSSurface c \<and> m_surface_client c = None then Some (kIOReturnNotReady, w)
     else let sid = (ucast source_surface_id :: u32); destX = ucast destX; destY = ucast destY
     in if sid \<noteq> 0 then
          (case find_surface sid w of None \<Rightarrow> Some (kIOReturnNotFound, w)
           | Some source \<Rightarrow> copy_from_surface h k source destX destY rgn regionSize c w)
        else if \<not> bTargetIsCGSSurface c then on_accel (CopyRegion h undefined_rc destX destY rgn regionSize) w
        else case m_surface_client c of None \<Rightarrow> None
        | Some i \<Rightarrow> on_surface i (copy_framebuffer_region_to_self h k (td_framebufferIndex c) destX destY rgn regionSize) w)"

section \<open>The target\<close>

text \<open>The pixel formats of the options, of the device and of the system.\<close>

definition context_formats :: "u64 \<Rightarrow> u32 \<times> u32" where
  "context_formats options =
    (if options AND 0x400 \<noteq> 0 then (VMWARE_FOURCC_UYVY, kIO2vuyPixelFormat)
     else if options AND 0x200 \<noteq> 0 then (VMWARE_FOURCC_YUY2, kIOYUVSPixelFormat)
     else if options AND 0x100 \<noteq> 0 then (0, kIO32BGRAPixelFormat)
     else (0, 0))"

text \<open>\<open>given\<close>: the caller has a place for the result, which is cleared.\<close>

definition td_set_surface :: "host \<Rightarrow> kit \<Rightarrow> u64 \<Rightarrow> u64 \<Rightarrow> bool \<Rightarrow> context2d \<Rightarrow> desk \<Rightarrow> (ioreturn \<times> context2d \<times> desk) option" where
  "td_set_surface h k surface_id options given c w =
    (if \<not> given then Some (kIOReturnBadArgument, c, w)
     else let (c, w) = drop_surface c w
     in if options AND 0x800 = 0
        then Some (kIOReturnSuccess, c\<lparr>bTargetIsCGSSurface := False, td_framebufferIndex := ucast surface_id\<rparr>, w)
        else let c = c\<lparr>bTargetIsCGSSurface := True\<rparr>;
                 (vmware_pixel_format, apple_pixel_format) = context_formats options;
                 (rc, c, w) = locateSurface (ucast surface_id) c w
        in if rc \<noteq> kIOReturnSuccess then Some (rc, c, w)
        else case m_surface_client c of None \<Rightarrow> None
        | Some i \<Rightarrow> do {
            (rc, w) \<leftarrow> on_surface i (\<lambda>s a m. do {
              (rc, s, a) \<leftarrow> context_set_surface h k vmware_pixel_format apple_pixel_format s a;
              Some (rc, s, a, m)
            }) w;
            Some (rc, c, w)
          })"

definition td_get_config :: "bool \<Rightarrow> context2d \<Rightarrow> desk \<Rightarrow> ioreturn \<times> (u32 \<times> u32) option" where
  "td_get_config given c w =
    (if \<not> given then (kIOReturnBadArgument, None)
     else (kIOReturnSuccess, Some (0, if td_provider c then m_log_level_ga (desk_accel w) else 0)))"

text \<open>The target surface, or why a call that needs one is refused.\<close>

definition target_surface :: "context2d \<Rightarrow> ioreturn + nat" where
  "target_surface c =
    (if \<not> bTargetIsCGSSurface c then Inl kIOReturnUnsupported
     else case m_surface_client c of None \<Rightarrow> Inl kIOReturnNotReady | Some i \<Rightarrow> Inr i)"

definition td_swap_surface :: "host \<Rightarrow> context2d \<Rightarrow> desk \<Rightarrow> (ioreturn \<times> desk) option" where
  "td_swap_surface h c w =
    (case target_surface c of Inl rc \<Rightarrow> Some (rc, w)
     | Inr i \<Rightarrow> do {
         (_, w) \<leftarrow> on_surface i (\<lambda>s a m. do { (rc, s, a) \<leftarrow> surface_flush_video h s a; Some (rc, s, a, m) }) w;
         Some (kIOReturnSuccess, w)
       })"

definition td_scale_surface :: "bool \<Rightarrow> u64 \<Rightarrow> u64 \<Rightarrow> context2d \<Rightarrow> desk \<Rightarrow> (ioreturn \<times> desk) option" where
  "td_scale_surface fixed_source w' ht c w =
    (case target_surface c of Inl rc \<Rightarrow> Some (rc, w)
     | Inr i \<Rightarrow> on_surface i (\<lambda>s a m. let (rc, s) = context_scale_surface fixed_source (ucast w') (ucast ht) s in Some (rc, s, a, m)) w)"

text \<open>\<open>out_size\<close>: the size of the caller's structure, if it gave one.\<close>

definition td_lock_memory :: "host \<Rightarrow> kit \<Rightarrow> nat option \<Rightarrow> context2d \<Rightarrow> desk \<Rightarrow> ((ioreturn \<times> (u64 \<times> u32) option) \<times> desk) option" where
  "td_lock_memory h k out_size c w =
    (if (case out_size of None \<Rightarrow> True | Some n \<Rightarrow> n < 16) then Some ((kIOReturnBadArgument, None), w)
     else case target_surface c of Inl rc \<Rightarrow> Some ((rc, None), w)
     | Inr i \<Rightarrow> on_surface i (context_lock_memory h k (td_task c) True) w)"

definition td_unlock_memory :: "context2d \<Rightarrow> desk \<Rightarrow> (ioreturn \<times> desk) option" where
  "td_unlock_memory c w =
    (case target_surface c of Inl rc \<Rightarrow> Some (rc, w)
     | Inr i \<Rightarrow> on_surface i (\<lambda>s a m. let (rc, _, s) = context_unlock_memory s in Some (rc, s, a, m)) w)"

definition td_finish :: "host \<Rightarrow> context2d \<Rightarrow> desk \<Rightarrow> (ioreturn \<times> desk) option" where
  "td_finish h c w = (if td_provider c then on_accel (accel_SyncFIFO h) w else Some (kIOReturnSuccess, w))"

text \<open>Sizes are in bytes; \<open>given\<close>: all pointers are; the result is the first word, or the words, written.\<close>

definition td_read_configs :: "bool \<Rightarrow> u32 \<Rightarrow> nat \<Rightarrow> nat \<Rightarrow> ioreturn \<times> u32 option" where
  "td_read_configs given x in_size out_size =
    (if \<not> given \<or> in_size < 4 \<or> out_size < 4 then (kIOReturnBadArgument, None)
     else (kIOReturnSuccess, Some (if x = 2 then 2 else 0)))"

definition td_read_config_Ex :: "bool \<Rightarrow> u32 \<Rightarrow> nat \<Rightarrow> nat \<Rightarrow> ioreturn \<times> u32 list option" where
  "td_read_config_Ex given x in_size out_size =
    (if \<not> given \<or> in_size < 8 then (kIOReturnBadArgument, None)
     else let out = replicate (out_size div 4) 0
     in if x = 144 then (if out_size < 8 then (kIOReturnBadArgument, Some out) else (kIOReturnSuccess, Some (out[1 := 0])))
        else if x = 288 then
          (if out_size < 12 then (kIOReturnBadArgument, Some out) else (kIOReturnSuccess, Some (out[0 := 64, 2 := 16])))
        else (kIOReturnUnsupported, Some out))"

section \<open>Life of the surfaces\<close>

text \<open>A new surface with number \<open>i\<close>, if its start succeeds; and the end of its own client.\<close>

definition open_surface :: "host \<Rightarrow> kit \<Rightarrow> nat \<Rightarrow> nat \<Rightarrow> desk \<Rightarrow> (bool \<times> desk) option" where
  "open_surface h k i task w = do {
     (ok, s, a) \<leftarrow> surface_start h k True True (snd (surface_initWithTask True task surface_zero)) (desk_accel w);
     let w = w\<lparr>desk_accel := a\<rparr>;
     Some (ok, if ok then w\<lparr>surfaces := (surfaces w)(i \<mapsto> s), open_surfaces := open_surfaces w @ [i]\<rparr> else w)
   }"

definition close_surface :: "host \<Rightarrow> nat \<Rightarrow> desk \<Rightarrow> (ioreturn \<times> desk) option" where
  "close_surface h i w = do {
     (rc, w) \<leftarrow> on_surface i (\<lambda>s a m. do { (rc, s, a) \<leftarrow> surface_clientClose h s a; Some (rc, s, a, m) }) w;
     Some (rc, free_unused i (w\<lparr>open_surfaces := removeAll i (open_surfaces w)\<rparr>))
   }"

end
