(* ===== verification/Context2DProofs.thy ===== *)
theory Context2DProofs
  imports Context2D
begin

text \<open>
  What the contexts and the surfaces on one accelerator guarantee each other: whatever the clients do and in
  whatever order, a context's target is alive and well formed, and an object is freed exactly when nobody refers to
  it.  The reference does not keep the surface usable, though, and a lock is not tied to the context that took it:
  the last section has the two ways this goes wrong.
\<close>

section \<open>References\<close>

text \<open>
  \<open>ts\<close> lists the targets of the contexts (and a reference a call holds for the time it runs): the counts are exact, and
  an object lives exactly as long as its client is open or someone refers to it.
\<close>

definition desk_ok :: "nat option list \<Rightarrow> desk \<Rightarrow> bool" where
  "desk_ok ts w \<longleftrightarrow> distinct (open_surfaces w) \<and>
     (\<forall>i. holds w i = count_list ts (Some i)) \<and>
     (\<forall>i. surfaces w i \<noteq> None \<longleftrightarrow> i \<in> set (open_surfaces w) \<or> 0 < holds w i) \<and>
     (\<forall>i s. surfaces w i = Some s \<longrightarrow> surface_ok s)"

lemma count_list_update:
  "j < length ts \<Longrightarrow> count_list (ts[j := y]) x + (if ts ! j = x then 1 else 0) = count_list ts x + (if y = x then 1 else 0)"
proof (induction ts arbitrary: j)
  case (Cons t ts)
  show ?case
  proof (cases j)
    case (Suc k)
    with Cons.IH [of k] Cons.prems show ?thesis by auto
  qed auto
qed simp

lemma on_accel_ok: "on_accel f w = Some (r, w') \<Longrightarrow> desk_ok ts w \<Longrightarrow> desk_ok ts w'"
  by (auto simp: on_accel_def desk_ok_def split: bind_splits)

lemma on_surface_ok:
  assumes "on_surface i f w = Some (r, w')" and "desk_ok ts w"
    and "\<And>s a m r' s' a' m'. f s a m = Some (r', s', a', m') \<Longrightarrow> surface_ok s \<Longrightarrow> surface_ok s'"
  shows "desk_ok ts w'"
proof -
  obtain s s' a' m' where s: "surfaces w i = Some s" "f s (desk_accel w) (desk_memory w) = Some (r, s', a', m')"
    "w' = w\<lparr>surfaces := (surfaces w)(i \<mapsto> s'), desk_accel := a', desk_memory := m'\<rparr>"
    using assms(1) by (auto simp: on_surface_def split: bind_splits)
  have "surface_ok s'" using assms(2,3) s(1,2) by (auto simp: desk_ok_def)
  then show ?thesis using assms(2) s(1) unfolding s(3) desk_ok_def by auto
qed

lemma retain_ok: "desk_ok ts w \<Longrightarrow> surfaces w i \<noteq> None \<Longrightarrow> desk_ok (Some i # ts) (retain_surface i w)"
  by (auto simp: desk_ok_def retain_surface_def)

lemma free_unused_ok:
  assumes "distinct (open_surfaces w)" and "\<And>x. holds w x = count_list ts (Some x)"
    and "\<And>x. x \<noteq> i \<Longrightarrow> surfaces w x \<noteq> None \<longleftrightarrow> x \<in> set (open_surfaces w) \<or> 0 < holds w x"
    and "surfaces w i \<noteq> None" and "\<And>x s. surfaces w x = Some s \<Longrightarrow> surface_ok s"
  shows "desk_ok ts (free_unused i w)"
proof -
  have "surfaces w x \<noteq> None \<longleftrightarrow> x \<in> set (open_surfaces w) \<or> 0 < holds w x" if "\<not> (holds w i = 0 \<and> i \<notin> set (open_surfaces w))" for x
    by (cases "x = i") (use assms(3,4) that in auto)
  then show ?thesis
    using assms(1,2,5) assms(3) unfolding desk_ok_def free_unused_def by (auto simp del: not_None_eq)
qed

lemma release_ok:
  assumes "desk_ok us w" and "\<And>x. count_list us (Some x) = count_list ts (Some x) + (if x = i then 1 else 0)"
  shows "desk_ok ts (release_surface i w)"
  unfolding release_surface_def
proof (rule free_unused_ok)
  have "0 < holds w i" using assms by (simp add: desk_ok_def)
  then show "surfaces (w\<lparr>holds := (holds w)(i := holds w i - 1)\<rparr>) i \<noteq> None" using assms(1) by (auto simp: desk_ok_def)
qed (use assms in \<open>auto simp: desk_ok_def\<close>)

lemma drop_surface_ok:
  assumes "drop_surface c w = (c', w')" and "desk_ok ts w" and "j < length ts" and "ts ! j = m_surface_client c"
  shows "desk_ok (ts[j := None]) w' \<and> m_surface_client c' = None"
proof (cases "m_surface_client c")
  case None
  then have "ts[j := None] = ts" using assms(4) by (metis list_update_id)
  with None assms show ?thesis by (simp add: drop_surface_def)
next
  case (Some i)
  have "count_list ts (Some x) = count_list (ts[j := None]) (Some x) + (if x = i then 1 else 0)" for x
    using count_list_update [OF assms(3), of None "Some x"] assms(4) Some by auto
  from release_ok [OF assms(2) this] show ?thesis using assms(1) Some by (auto simp: drop_surface_def)
qed

lemma find_surface_open: "find_surface wid w = Some i \<Longrightarrow> i \<in> set (open_surfaces w)"
proof -
  have "fold (\<lambda>(v, c) found. if v = Some wid then Some c else found) xs found = Some i \<Longrightarrow> found = Some i \<or> i \<in> snd ` set xs"
    for xs :: "(u32 option \<times> nat) list" and found
    by (induction xs arbitrary: found) (fastforce split: if_splits)+
  note f = this [where found = None]
  assume "find_surface wid w = Some i"
  from f [OF this [unfolded find_surface_def findSurfaceForID_def]] show ?thesis by auto
qed

lemma locate_ok:
  assumes "locateSurface wid c w = (rc, c', w')" and "desk_ok ts w" and "j < length ts" and "ts ! j = None" and "m_surface_client c = None"
  shows "desk_ok (ts[j := m_surface_client c']) w' \<and> (rc = kIOReturnSuccess \<longrightarrow> m_surface_client c' \<noteq> None)"
proof (cases "rc = kIOReturnSuccess")
  case False
  then have "m_surface_client c' = None \<and> w' = w"
    using assms(1,5) by (auto simp: locateSurface_def split: option.splits if_splits)
  moreover have "ts[j := None] = ts" using assms(4) by (metis list_update_id)
  ultimately show ?thesis using False assms(2) by simp
next
  case True
  with assms(1) obtain i where i: "find_surface wid w = Some i" "c' = c\<lparr>m_surface_client := Some i\<rparr>" "w' = retain_surface i w"
    by (auto simp: locateSurface_def split: option.splits if_splits)
  have "surfaces w i \<noteq> None" using find_surface_open [OF i(1)] assms(2) by (auto simp: desk_ok_def)
  with retain_ok [OF assms(2)] have "desk_ok (Some i # ts) (retain_surface i w)" by blast
  moreover have "count_list (ts[j := Some i]) (Some x) = count_list (Some i # ts) (Some x)" for x
    using count_list_update [OF assms(3), of "Some i" "Some x"] assms(4) by auto
  ultimately show ?thesis using i by (auto simp: desk_ok_def)
qed

lemma copy_from_ok:
  assumes "copy_from_surface h k source x y rgn n c w = Some (rc, w')" and "desk_ok ts w" and "surfaces w source \<noteq> None"
  shows "desk_ok ts w'"
proof -
  have r: "desk_ok (Some source # ts) (retain_surface source w)" by (rule retain_ok [OF assms(2,3)])
  have rel: "desk_ok (Some source # ts) u \<Longrightarrow> desk_ok ts (release_surface source u)" for u
    by (rule release_ok [where us = "Some source # ts"]) auto
  have "desk_ok (Some source # ts) u" if "on_surface i (copy_surface_region_to_self h k src x y rgn n) (retain_surface source w) = Some (rc, u)" for i src u
    by (rule on_surface_ok [OF that r]) (rule copy_surface_ok)
  with rel [OF this] rel [OF r] assms(1) show ?thesis
    by (auto simp: copy_from_surface_def Let_def simp del: not_None_eq split: bind_splits if_splits option.splits)
qed

lemma surface_clientClose_ok:
  assumes "surface_clientClose h s a = Some (rc, s', a')" and "surface_ok s"
  shows "surface_ok s'"
proof -
  have gone: "surface_ok (t\<lparr>m_last_shape := False, surface_task := 0, has_provider := False\<rparr>)" if "surface_ok t" "m_backing t = backing_none" "m_last_region t = None" for t
    using that backing_ok_none by (auto simp: surface_ok_def)
  obtain t b u where t: "(if has_provider s then do { (s, a) \<leftarrow> Cleanup3D h s a; surface_video_off h s a } else Some (s, a)) = Some (t, b)"
    "releaseBacking h t b = Some (u, a')"
    "s' = (clearLastRegion u)\<lparr>m_last_shape := False, surface_task := 0, has_provider := False\<rparr>"
    using assms(1) by (auto simp: surface_clientClose_def surface_Cleanup_def split: bind_splits)
  have "surface_ok t"
  proof (cases "has_provider s")
    case True
    with t(1) obtain r c where "Cleanup3D h s a = Some (r, c)" "surface_video_off h r c = Some (t, b)"
      by (auto split: bind_splits prod.splits)
    then show ?thesis using Cleanup3D_ok assms(2) surface_video_off_ok by blast
  qed (use t(1) assms(2) in simp)
  have u: "u = t\<lparr>m_backing := backing_none\<rparr>" by (rule releaseBacking_ok [OF t(2)])
  from \<open>surface_ok t\<close> have "surface_ok (clearLastRegion u)"
    unfolding u by (rule clearLastRegion_ok [OF rebacked_ok [OF _ rebackedI [OF refl backing_ok_none]]])
  moreover have "m_backing (clearLastRegion u) = backing_none" "m_last_region (clearLastRegion u) = None"
    by (simp_all add: u clearLastRegion_def)
  ultimately show ?thesis unfolding t(3) using gone [of "clearLastRegion u"] by simp
qed

section \<open>Runs\<close>

datatype td_call =
    Use_updates u64
  | Rect_copy bool "blit_copy_rect list option"
  | Rect_fill bool u64 "u32 list list option"
  | Copy_region bool u64 u64 u64 "region option" nat
  | Set_target u64 u64 bool
  | Swap
  | Scale bool u64 u64
  | Lock "nat option"
  | Unlock
  | Finish
  | Close

fun td_do :: "host \<Rightarrow> kit \<Rightarrow> td_call \<Rightarrow> context2d \<Rightarrow> desk \<Rightarrow> (ioreturn \<times> context2d \<times> desk) option" where
  "td_do h k (Use_updates state) c w = map_option (\<lambda>(rc, w). (rc, c, w)) (td_useAccelUpdates h state c w)"
| "td_do h k (Rect_copy u bs) c w = map_option (\<lambda>(rc, w). (rc, c, w)) (td_RectCopy h u bs c w)"
| "td_do h k (Rect_fill u color bs) c w = map_option (\<lambda>(rc, w). (rc, c, w)) (td_RectFill h u color bs c w)"
| "td_do h k (Copy_region u source x y rgn n) c w = map_option (\<lambda>(rc, w). (rc, c, w)) (td_CopyRegion h k u source x y rgn n c w)"
| "td_do h k (Set_target i options given) c w = td_set_surface h k i options given c w"
| "td_do h k Swap c w = map_option (\<lambda>(rc, w). (rc, c, w)) (td_swap_surface h c w)"
| "td_do h k (Scale fixed x y) c w = map_option (\<lambda>(rc, w). (rc, c, w)) (td_scale_surface fixed x y c w)"
| "td_do h k (Lock n) c w = map_option (\<lambda>((rc, _), w). (rc, c, w)) (td_lock_memory h k n c w)"
| "td_do h k Unlock c w = map_option (\<lambda>(rc, w). (rc, c, w)) (td_unlock_memory c w)"
| "td_do h k Finish c w = map_option (\<lambda>(rc, w). (rc, c, w)) (td_finish h c w)"
| "td_do h k Close c w = td_clientClose h c w"

text \<open>What happens on the desk: contexts come and are called, and so are surfaces, by their own clients.\<close>

datatype desk_event =
    New_context nat
  | Context nat td_call
  | Open_surface nat nat
  | Surface nat surface_call
  | Close_surface nat

type_synonym desk_state = "context2d list \<times> desk"

definition context2d_zero :: context2d where
  "context2d_zero = \<lparr>td_task = 0, td_provider = False, bTargetIsCGSSurface = False, m_surface_client = None, td_framebufferIndex = 0\<rparr>"

definition new_context :: "nat \<Rightarrow> context2d" where
  "new_context task = snd (td_start True True (snd (td_initWithTask True task context2d_zero)))"

text \<open>An event for a context or surface that is not there does not occur.\<close>

fun desk_step :: "host \<Rightarrow> kit \<Rightarrow> desk_event \<Rightarrow> desk_state \<Rightarrow> desk_state option" where
  "desk_step h k (New_context task) (cs, w) = Some (cs @ [new_context task], w)"
| "desk_step h k (Context j call) (cs, w) =
    (if j < length cs then do { (_, c, w) \<leftarrow> td_do h k call (cs ! j) w; Some (cs[j := c], w) } else Some (cs, w))"
| "desk_step h k (Open_surface i task) (cs, w) =
    (if surfaces w i = None then do { (_, w) \<leftarrow> open_surface h k i task w; Some (cs, w) } else Some (cs, w))"
| "desk_step h k (Surface i call) (cs, w) =
    (if i \<in> set (open_surfaces w)
     then do { (_, w) \<leftarrow> on_surface i (\<lambda>s a m. surface_do h k call (s, a, m)) w; Some (cs, w) } else Some (cs, w))"
| "desk_step h k (Close_surface i) (cs, w) =
    (if i \<in> set (open_surfaces w) then do { (_, w) \<leftarrow> close_surface h i w; Some (cs, w) } else Some (cs, w))"

fun desk_run :: "host \<Rightarrow> (kit \<times> desk_event) list \<Rightarrow> desk_state \<Rightarrow> desk_state option" where
  "desk_run h [] w = Some w"
| "desk_run h ((k, e) # es) w = do { w \<leftarrow> desk_step h k e w; desk_run h es w }"

definition desk_empty :: "accel \<Rightarrow> memory \<Rightarrow> desk" where
  "desk_empty a m = \<lparr>surfaces = Map.empty, open_surfaces = [], holds = (\<lambda>_. 0), desk_accel = a, desk_memory = m\<rparr>"

section \<open>Every step keeps the references\<close>

lemma surface_pure_ok:
  "context_scale_surface fixed x y s = (rc, s') \<Longrightarrow> surface_ok s \<Longrightarrow> surface_ok s'"
  "context_unlock_memory s = (rc, n, s') \<Longrightarrow> surface_ok s \<Longrightarrow> surface_ok s'"
  using surface_do_ok [of _ _ "Context_scale fixed x y" s _ _ rc s'] surface_do_ok [of _ _ "Context_unlock" s _ _ rc s']
  by auto

lemma drawing_ok:
  assumes "desk_ok ts w"
  shows "td_useAccelUpdates h state c w = Some (rc, w') \<Longrightarrow> desk_ok ts w'"
    "td_RectCopy h u bs c w = Some (rc, w') \<Longrightarrow> desk_ok ts w'"
    "td_RectFill h u color fs c w = Some (rc, w') \<Longrightarrow> desk_ok ts w'"
    "td_finish h c w = Some (rc, w') \<Longrightarrow> desk_ok ts w'"
  using assms on_accel_ok [OF _ assms]
  by (auto simp: td_useAccelUpdates_def td_RectCopy_def td_RectFill_def td_finish_def split: if_splits)

lemma copy_region_ok:
  assumes "td_CopyRegion h k u source x y rgn n c w = Some (rc, w')" and "desk_ok ts w"
  shows "desk_ok ts w'"
proof -
  have open_alive: "surfaces w i \<noteq> None" if "find_surface sid w = Some i" for i sid
    using find_surface_open [OF that] assms(2) by (auto simp: desk_ok_def)
  have framebuffer: "desk_ok ts v" if "on_surface i (copy_framebuffer_region_to_self h k fb dx dy r m) w = Some (q, v)" for i fb dx dy r m q v
    by (rule on_surface_ok [OF that assms(2)]) (rule copy_framebuffer_ok)
  show ?thesis
    using assms copy_from_ok [OF _ assms(2) open_alive] on_accel_ok [OF _ assms(2)] framebuffer
    by (auto simp: td_CopyRegion_def Let_def split: if_splits option.splits)
qed

lemma target_ok:
  assumes "desk_ok ts w"
  shows "td_swap_surface h c w = Some (rc, w') \<Longrightarrow> desk_ok ts w'"
    "td_scale_surface fixed x y c w = Some (rc, w') \<Longrightarrow> desk_ok ts w'"
    "td_lock_memory h k n c w = Some (r, w') \<Longrightarrow> desk_ok ts w'"
    "td_unlock_memory c w = Some (rc, w') \<Longrightarrow> desk_ok ts w'"
proof -
  have swap: "desk_ok ts v" if "on_surface i (\<lambda>s a m. do { (rc, s, a) \<leftarrow> surface_flush_video h s a; Some (rc, s, a, m) }) w = Some (q, v)" for i q v
    by (rule on_surface_ok [OF that assms]) (auto split: bind_splits dest: surface_flush_video_ok)
  have lock: "desk_ok ts v" if "on_surface i (context_lock_memory h k task True) w = Some (q, v)" for i q v task
    by (rule on_surface_ok [OF that assms]) (auto dest: context_lock_ok)
  have scale: "desk_ok ts v" if "on_surface i (\<lambda>s a m. let (rc, s) = context_scale_surface fixed x y s in Some (rc, s, a, m)) w = Some (q, v)" for i q v x y
    by (rule on_surface_ok [OF that assms]) (auto split: prod.splits dest: surface_pure_ok)
  have unlock: "desk_ok ts v" if "on_surface i (\<lambda>s a m. let (rc, _, s) = context_unlock_memory s in Some (rc, s, a, m)) w = Some (q, v)" for i q v
    by (rule on_surface_ok [OF that assms]) (auto split: prod.splits dest: surface_pure_ok)
  show "td_swap_surface h c w = Some (rc, w') \<Longrightarrow> desk_ok ts w'"
    using assms swap by (auto simp: td_swap_surface_def split: sum.splits bind_splits)
  show "td_scale_surface fixed x y c w = Some (rc, w') \<Longrightarrow> desk_ok ts w'"
    using assms scale by (auto simp: td_scale_surface_def split: sum.splits)
  show "td_lock_memory h k n c w = Some (r, w') \<Longrightarrow> desk_ok ts w'"
    using assms lock by (auto simp: td_lock_memory_def split: sum.splits if_splits)
  show "td_unlock_memory c w = Some (rc, w') \<Longrightarrow> desk_ok ts w'"
    using assms unlock by (auto simp: td_unlock_memory_def split: sum.splits)
qed

lemma set_target_ok:
  assumes "td_set_surface h k i options given c w = Some (rc, c', w')" and "desk_ok ts w" and "j < length ts"
    and "ts ! j = m_surface_client c"
  shows "desk_ok (ts[j := m_surface_client c']) w'"
proof (cases given)
  case False
  then show ?thesis using assms by (simp add: td_set_surface_def) (metis list_update_id)
next
  case True
  obtain d v where d: "drop_surface c w = (d, v)" by fastforce
  let ?us = "ts[j := None]"
  from drop_surface_ok [OF d assms(2-4)] have v: "desk_ok ?us v" "m_surface_client d = None" by auto
  let ?d = "d\<lparr>bTargetIsCGSSurface := True\<rparr>"
  obtain q e x where l: "locateSurface (ucast i) ?d v = (q, e, x)" by (metis prod.exhaust)
  have x: "desk_ok (ts[j := m_surface_client e]) x"
    using locate_ok [OF l v(1), of j] assms(3) v(2) by simp
  have set: "desk_ok (ts[j := m_surface_client e]) y"
    if "on_surface n (\<lambda>s a m. do { (rc, s, a) \<leftarrow> context_set_surface h k f p s a; Some (rc, s, a, m) }) x = Some (z, y)" for n f p z y
    by (rule on_surface_ok [OF that x]) (auto split: bind_splits dest: context_set_ok)
  show ?thesis
    using assms(1) True d l v x set
    by (auto simp: td_set_surface_def Let_def split: if_splits option.splits bind_splits prod.splits)
qed

lemma close_context_ok:
  assumes "td_clientClose h c w = Some (rc, c', w')" and "desk_ok ts w" and "j < length ts"
    and "ts ! j = m_surface_client c"
  shows "desk_ok (ts[j := m_surface_client c']) w'"
proof -
  obtain d v where d: "drop_surface c w = (d, v)" by fastforce
  from drop_surface_ok [OF d assms(2-4)] have v: "desk_ok (ts[j := None]) v" "m_surface_client d = None" by auto
  show ?thesis
    using assms(1) d v on_accel_ok [OF _ v(1)]
    by (auto simp: td_clientClose_def Let_def split: if_splits bind_splits)
qed

lemma td_keeps:
  assumes "td_do h k call c w = Some (rc, c', w')" and "desk_ok ts w" and "j < length ts" and "ts ! j = m_surface_client c"
  shows "desk_ok (ts[j := m_surface_client c']) w'"
proof -
  have same: "ts[j := m_surface_client c] = ts" using assms(4) by (metis list_update_id)
  show ?thesis
  proof (cases call)
    case Set_target
    then show ?thesis using assms set_target_ok by simp
  next
    case Close
    then show ?thesis using assms close_context_ok by simp
  qed (use assms(1) same drawing_ok [OF assms(2)] copy_region_ok [OF _ assms(2)] target_ok [OF assms(2)] in auto)
qed

text \<open>The references of the contexts.\<close>

lemma count_hold: "0 < count_list (map m_surface_client cs) (Some i) \<longleftrightarrow> (\<exists>c \<in> set cs. m_surface_client c = Some i)"
  by (induction cs) auto

lemma open_surface_ok:
  assumes "open_surface h k i task w = Some (ok, w')" and "desk_ok ts w" and "surfaces w i = None"
  shows "desk_ok ts w'"
proof -
  obtain s a where s: "surface_start h k True True (snd (surface_initWithTask True task surface_zero)) (desk_accel w) = Some (ok, s, a)"
    "w' = (let w = w\<lparr>desk_accel := a\<rparr> in if ok then w\<lparr>surfaces := (surfaces w)(i \<mapsto> s), open_surfaces := open_surfaces w @ [i]\<rparr> else w)"
    using assms(1) by (auto simp: open_surface_def Let_def split: bind_splits)
  have "i \<notin> set (open_surfaces w)" using assms(2,3) unfolding desk_ok_def by metis
  then show ?thesis using surface_start_ok [OF s(1)] assms(2,3) unfolding s(2) desk_ok_def Let_def by auto
qed

lemma close_surface_ok:
  assumes "close_surface h i w = Some (rc, w')" and "desk_ok ts w" and "i \<in> set (open_surfaces w)"
  shows "desk_ok ts w'"
proof -
  obtain v where v: "on_surface i (\<lambda>s a m. do { (rc, s, a) \<leftarrow> surface_clientClose h s a; Some (rc, s, a, m) }) w = Some (rc, v)"
    "w' = free_unused i (v\<lparr>open_surfaces := removeAll i (open_surfaces v)\<rparr>)"
    using assms(1) by (auto simp: close_surface_def split: bind_splits)
  have ok: "desk_ok ts v"
    by (rule on_surface_ok [OF v(1) assms(2)]) (auto split: bind_splits dest: surface_clientClose_ok)
  moreover have "i \<in> set (open_surfaces v)" using v(1) assms(3) by (auto simp: on_surface_def split: bind_splits)
  ultimately show ?thesis
    unfolding v(2) by (intro free_unused_ok) (auto simp: desk_ok_def distinct_removeAll)
qed

lemma desk_step_ok:
  assumes "desk_step h k e (cs, w) = Some (cs', w')" and "desk_ok (map m_surface_client cs) w"
  shows "desk_ok (map m_surface_client cs') w'"
proof (cases e)
  case (New_context task)
  with assms show ?thesis by (auto simp: new_context_def td_start_def td_initWithTask_def context2d_zero_def Let_def desk_ok_def)
next
  case (Context j call)
  then show ?thesis
    using assms td_keeps [of h k call "cs ! j" w _ _ w' "map m_surface_client cs" j]
    by (auto simp: map_update split: if_splits bind_splits)
next
  case (Open_surface i task)
  then show ?thesis using assms open_surface_ok by (auto split: if_splits bind_splits)
next
  case (Surface i call)
  have "desk_ok ts v" if "on_surface i (\<lambda>s a m. surface_do h k call (s, a, m)) w = Some (q, v)" "desk_ok ts w" for q v ts
    by (rule on_surface_ok [OF that]) (rule surface_do_ok)
  then show ?thesis using assms Surface by (auto split: if_splits bind_splits)
next
  case (Close_surface i)
  then show ?thesis using assms close_surface_ok by (auto split: if_splits bind_splits)
qed

lemma desk_run_ok:
  "desk_run h es (cs, w) = Some (cs', w') \<Longrightarrow> desk_ok (map m_surface_client cs) w \<Longrightarrow> desk_ok (map m_surface_client cs') w'"
proof (induction es arbitrary: cs w)
  case (Cons ke es)
  obtain k e where ke: "ke = (k, e)" by fastforce
  from Cons.prems(1) obtain ds v where "desk_step h k e (cs, w) = Some (ds, v)" "desk_run h es (ds, v) = Some (cs', w')"
    unfolding ke by (auto split: bind_splits)
  with Cons.IH desk_step_ok Cons.prems(2) show ?case by blast
qed simp

text \<open>C9: Whatever happens on the desk, contexts coming and closing, setting and changing their targets, drawing,
  copying, scaling and locking, and surfaces being opened, called by their own clients and closed, all of it with
  success or failure: a surface object is there exactly while its own client is open or some context has it as its
  target, so no context ever has a target that is freed and none is leaked; and every surface there is is well
  formed.\<close>

theorem contexts_hold_surfaces:
  assumes "desk_run h es ([], desk_empty a m) = Some (cs, w)"
  shows "((surfaces w i \<noteq> None) = (i \<in> set (open_surfaces w) \<or> (\<exists>c \<in> set cs. m_surface_client c = Some i))) \<and>
    (\<forall>s. surfaces w i = Some s \<longrightarrow> surface_ok s)"
proof -
  have "desk_ok (map m_surface_client cs) w"
    by (rule desk_run_ok [OF assms]) (simp add: desk_ok_def desk_empty_def)
  then show ?thesis unfolding count_hold [symmetric] desk_ok_def by auto
qed

definition desk_sample :: "(kit \<times> desk_event) list" where
  "desk_sample = map (Pair kit_none)
     [Open_surface 0 5, Surface 0 (Set_id_mode 2 0x24), New_context 7, Context 0 (Set_target 2 0x800 True), Close_surface 0]"

lemma desk_sample_run:
  "\<exists>w c. desk_run drain_host desk_sample ([], desk_empty accel_sample (\<lambda>_. 0)) = Some ([c], w) \<and>
     m_surface_client c = Some 0 \<and> open_surfaces w = []"
  by (simp add: desk_sample_def desk_empty_def open_surface_def surface_start_def getScreenInfo_def Start3D_def
      surface_initWithTask_def surface_Init_def surface_zero_def set_vtb_def haveFrontBuffer_def buffer_init_def on_surface_def
      set_id_mode_def mode_formats_def clearLastRegion_def new_context_def td_start_def td_initWithTask_def context2d_zero_def
      td_set_surface_def drop_surface_def locateSurface_def find_surface_def findSurfaceForID_def retain_surface_def
      context_formats_def context_set_surface_def surface_video_off_def close_surface_def surface_clientClose_def
      surface_Cleanup_def Cleanup3D_def releaseBacking_def complete_backing_def buffer_complete_def buffer_sync_def
      buffer_discard_def free_unused_def accel_sample_def provider_of_def not_valid Let_def)

lemma contexts_hold_surfaces_witness:
  "\<exists>w c s. desk_run drain_host desk_sample ([], desk_empty accel_sample (\<lambda>_. 0)) = Some ([c], w) \<and> open_surfaces w = [] \<and>
     surfaces w 0 = Some s \<and> surface_ok s"
proof -
  obtain w c where w: "desk_run drain_host desk_sample ([], desk_empty accel_sample (\<lambda>_. 0)) = Some ([c], w)"
    "m_surface_client c = Some 0" "open_surfaces w = []"
    using desk_sample_run by blast
  from contexts_hold_surfaces [OF w(1), of 0] w show ?thesis by auto
qed

section \<open>Faults\<close>

text \<open>What the end of a surface's client leaves of it.\<close>

lemma closed_surface:
  assumes "surface_clientClose h s a = Some (rc, s', a')"
  shows "m_backing s' = backing_none \<and> \<not> has_provider s' \<and> bHaveID s' = bHaveID s \<and> m_scale s' = m_scale s \<and>
    m_client_backing s' = m_client_backing s \<and> bIsLocked s' = bIsLocked s"
proof -
  have off: "m_scale t = m_scale r \<and> bHaveID t = bHaveID r \<and> m_client_backing t = m_client_backing r \<and> bIsLocked t = bIsLocked r"
    if "surface_video_off h r c = Some (t, b)" for r c t b
    using that by (auto simp: surface_video_off_def split: if_splits bind_splits)
  have clean: "m_scale t = m_scale r \<and> bHaveID t = bHaveID r \<and> m_client_backing t = m_client_backing r \<and> bIsLocked t = bIsLocked r"
    if "Cleanup3D h r c = Some (t, b)" for r c t b
    using that by (auto simp: Cleanup3D_def split: if_splits bind_splits)
  obtain t b u where t: "(if has_provider s then do { (s, a) \<leftarrow> Cleanup3D h s a; surface_video_off h s a } else Some (s, a)) = Some (t, b)"
    "releaseBacking h t b = Some (u, a')"
    "s' = (clearLastRegion u)\<lparr>m_last_shape := False, surface_task := 0, has_provider := False\<rparr>"
    using assms by (auto simp: surface_clientClose_def surface_Cleanup_def split: bind_splits)
  have "m_scale t = m_scale s \<and> bHaveID t = bHaveID s \<and> m_client_backing t = m_client_backing s \<and> bIsLocked t = bIsLocked s"
    using t(1) off clean by (auto split: if_splits bind_splits prod.splits)
  then show ?thesis using releaseBacking_ok [OF t(2)] by (simp add: t(3) clearLastRegion_def)
qed

lemma unprovided_lock_faults:
  assumes "m_backing s = backing_none" and "\<not> has_provider s" and "bHaveID s" and "isSourceValid s"
    and "cb_addr (m_client_backing s) = 0" and "\<not> locked vmSurfaceLockContext s"
  shows "context_lock_memory h k task True s a m = None"
  using assms locked_take(2) [of 2 2 s]
  by (simp add: context_lock_memory_def context_lock_backing_def back_and_map_def allocBacking_def classifyBacking_def backing_none_def
      buffer_init_def Let_def split_def)

text \<open>C18: A context that keeps its reference on a surface with a source but no memory of its client's, whose own client
  has closed, faults when it locks the memory: the surface has given up its provider, and asks it for video memory
  without looking.\<close>

theorem closed_surface_faults:
  assumes "close_surface h i w = Some (rc, w')" and "surfaces w i = Some s" and "0 < holds w i"
    and "bHaveID s" and "isSourceValid s" and "cb_addr (m_client_backing s) = 0" and "\<not> locked vmSurfaceLockContext s"
    and "bTargetIsCGSSurface c" and "m_surface_client c = Some i"
  shows "td_lock_memory h' k (Some 16) c w' = None"
proof -
  obtain s' a' where s': "surface_clientClose h s (desk_accel w) = Some (rc, s', a')" "surfaces w' i = Some s'"
    using assms(1,2,3) by (auto simp: close_surface_def on_surface_def free_unused_def split: bind_splits if_splits)
  note c = closed_surface [OF s'(1)]
  have "context_lock_memory h' k (td_task c) True s' a m = None" for a m
    by (rule unprovided_lock_faults) (use c assms(4-7) in \<open>auto simp: isSourceValid_def locked_def\<close>)
  then show ?thesis using assms(8,9) s'(2) by (simp add: td_lock_memory_def target_surface_def on_surface_def)
qed

lemma trick_frame: "\<exists>b. fst (snd (setup_trick_buffer k s m)) = s\<lparr>m_backing := b\<rparr>"
  by (rule exI [of _ "m_backing (fst (snd (setup_trick_buffer k s m)))"])
    (simp add: setup_trick_buffer_def Let_def split: option.split)

lemma context_lock_frame:
  assumes "context_lock_memory h k task True s a m = Some ((kIOReturnSuccess, r), s', a', m')" and "surface_ok s"
  shows "bHaveID s' \<and> isSourceValid s' \<and> locked vmSurfaceLockContext s'"
proof -
  let ?s = "s\<lparr>bIsLocked := snd (OSTestAndSet 2 (bIsLocked s))\<rparr>"
  have l: "bHaveID s" "isSourceValid s" "\<not> locked 2 s"
    and run: "context_lock_backing h k task ?s a m = Some ((kIOReturnSuccess, r), s', a', m')"
    using assms(1) locked_take(2) [of 2 2 s] by (auto simp: context_lock_memory_def split_def Let_def split: if_splits)
  obtain t b where t: "back_and_map h k task 1 ?s a = Some (True, t, b)"
    "s' = t \<or> s' = fst (snd (setup_trick_buffer k t m))"
    using run by (auto simp: context_lock_backing_def split_def Let_def split: if_splits bind_splits)
  have "rebacked ?s t" using back_and_map_ok [OF t(1)] assms(2) surface_ok_backing [OF assms(2)] by simp
  then have "\<exists>c. s' = ?s\<lparr>m_backing := c\<rparr>" using t(2) trick_frame [of k t m] by (auto simp: rebacked_def)
  then show ?thesis using l locked_take(1) [of 2 2 s] by (auto simp: isSourceValid_def)
qed

lemma close_context_surfaces:
  assumes "td_clientClose h c w = Some (rc, c', w')" and "surfaces w' i = Some s"
  shows "surfaces w i = Some s"
  using assms
  by (auto simp: td_clientClose_def drop_surface_def release_surface_def free_unused_def on_accel_def Let_def
      split: option.splits bind_splits if_splits)

text \<open>C19: A context that has locked the memory of its target and closes leaves the lock behind: as long as the surface is
  there, every other context that has it as its target is told that it cannot lock.\<close>

theorem context_lock_orphaned:
  assumes "surfaces w i = Some s" and "surface_ok s" and "m_surface_client c = Some i"
    and "td_lock_memory h k n c w = Some ((kIOReturnSuccess, r), w1)" and "td_clientClose h c w1 = Some (rc, c', w2)"
    and "surfaces w2 i = Some t" and "bTargetIsCGSSurface d" and "m_surface_client d = Some i"
  shows "\<exists>w3. td_lock_memory h' k' (Some 16) d w2 = Some ((kIOReturnCannotLock, None), w3)"
proof -
  obtain a m where "context_lock_memory h k (td_task c) True s (desk_accel w) (desk_memory w) = Some ((kIOReturnSuccess, r), t, a, m)"
    using assms(1,3,4) close_context_surfaces [OF assms(5,6)]
    by (auto simp: td_lock_memory_def target_surface_def on_surface_def split: if_splits bind_splits)
  from context_lock_frame [OF this assms(2)] show ?thesis
    using assms(6-8) locked_take(2) [of 2 2 t]
    by (auto simp: td_lock_memory_def target_surface_def on_surface_def context_lock_memory_def split_def Let_def)
qed

definition desk_of :: "surface \<Rightarrow> desk" where
  "desk_of s = \<lparr>surfaces = [0 \<mapsto> s], open_surfaces = [0], holds = (\<lambda>_. 0)(0 := 2), desk_accel = accel_sample\<lparr>m_updating_ga := 9\<rparr>, desk_memory = \<lambda>_. 0\<rparr>"

definition context_sample :: context2d where
  "context_sample = \<lparr>td_task = 7, td_provider = True, bTargetIsCGSSurface = True, m_surface_client = Some 0, td_framebufferIndex = 0\<rparr>"

definition kit_mapping :: kit where
  "kit_mapping = kit_none\<lparr>k_vram_map := \<lambda>_ _ _. Some \<lparr>map_address = 65536, map_length = 4096\<rparr>\<rparr>"

definition unbacked_sample :: surface where
  "unbacked_sample = surface_sample\<lparr>m_client_backing := \<lparr>cb_addr = 0, cb_rowbytes = 0, cb_size = 0\<rparr>, m_backing := backing_none\<rparr>"

definition backed_sample :: surface where
  "backed_sample = unbacked_sample\<lparr>m_backing := \<lparr>bk_self = 4096, bk_offset = 0, bk_size = 4096, bk_map = \<lambda>_. None,
     vtb = \<lparr>gart_ptr = 0, tb_md = None, gmr_id = GMR_VRAM, tb_fence = 0\<rparr>\<rparr>\<rparr>"

lemma closed_surface_faults_witness:
  "\<exists>rc w. close_surface drain_host 0 (desk_of unbacked_sample) = Some (rc, w) \<and>
     td_lock_memory drain_host kit_mapping (Some 16) context_sample w = None"
proof -
  have "\<exists>rc w. close_surface drain_host 0 (desk_of unbacked_sample) = Some (rc, w)"
    by (simp add: close_surface_def desk_of_def on_surface_def unbacked_sample_def surface_sample_def surface_zero_def surface_clientClose_def
      surface_Cleanup_def Cleanup3D_def haveFrontBuffer_def surface_video_off_def releaseBacking_def complete_backing_def
      buffer_complete_def buffer_sync_def not_valid provider_of_def Let_def split_def buffer_discard_def backing_none_def buffer_init_def)
  then obtain rc w where w: "close_surface drain_host 0 (desk_of unbacked_sample) = Some (rc, w)" by blast
  from closed_surface_faults [OF w, of unbacked_sample context_sample drain_host kit_mapping] w show ?thesis
    by (simp add: desk_of_def unbacked_sample_def surface_sample_def surface_zero_def context_sample_def isSourceValid_def locked_def word_sless_alt)
qed

lemma context_lock_orphaned_witness:
  "\<exists>r w1 rc c w2 w3. td_lock_memory drain_host kit_mapping (Some 16) context_sample (desk_of backed_sample) = Some ((kIOReturnSuccess, r), w1) \<and>
     td_clientClose drain_host context_sample w1 = Some (rc, c, w2) \<and>
     td_lock_memory drain_host kit_mapping (Some 16) context_sample w2 = Some ((kIOReturnCannotLock, None), w3)"
proof -
  have ok: "surface_ok backed_sample"
    by (simp add: surface_ok_def backing_ok_def not_valid backed_sample_def unbacked_sample_def surface_sample_def surface_zero_def)
  have "\<exists>r w1 rc c w2 t. td_lock_memory drain_host kit_mapping (Some 16) context_sample (desk_of backed_sample) = Some ((kIOReturnSuccess, r), w1) \<and>
     td_clientClose drain_host context_sample w1 = Some (rc, c, w2) \<and> surfaces w2 0 = Some t"
    by (simp add: td_lock_memory_def target_surface_def context_sample_def desk_of_def on_surface_def context_lock_memory_def context_lock_backing_def
       back_and_map_def allocBacking_def classifyBacking_def hasSourceGrown_def mapBacking_def kit_mapping_def kit_none_def
      backed_sample_def unbacked_sample_def surface_sample_def surface_zero_def isSourceValid_def OSTestAndSet_def word_sless_alt Let_def split_def
      td_clientClose_def drop_surface_def release_surface_def free_unused_def on_accel_def accel_useAccelUpdates_def accel_sample_def)
  then obtain r w1 rc c w2 t where w: "td_lock_memory drain_host kit_mapping (Some 16) context_sample (desk_of backed_sample) = Some ((kIOReturnSuccess, r), w1)"
     "td_clientClose drain_host context_sample w1 = Some (rc, c, w2)" "surfaces w2 0 = Some t" by blast
  have "surfaces (desk_of backed_sample) 0 = Some backed_sample" "m_surface_client context_sample = Some 0" "bTargetIsCGSSurface context_sample"
    by (simp_all add: desk_of_def context_sample_def)
  from context_lock_orphaned [OF this(1) ok this(2) w this(3,2)] w show ?thesis by blast
qed

end
