(* ===== verification/GraphicsPlugin.thy ===== *)
theory GraphicsPlugin
  imports Accelerator
begin

text \<open>
  The acceleration plug-in (\<^verbatim>\<open>GA/VMsvga2GA.cpp\<close>, \<^verbatim>\<open>GA/BlitHelper.c\<close>), which the window server loads to draw with the help
  of the accelerator: it opens a 2D context in the kernel and turns the calls of the CoreGraphics interface into calls
  of the context's methods.

  The kernel is a parameter: what the calls of IOKit answer, on a state \<open>'k\<close> of its own.  \<open>None\<close> is a fault, here the use
  of memory that is not allocated.
\<close>

section \<open>Calls of the kernel\<close>

datatype in_struct =
    No_struct
  | Words_in "u32 list"
  | Rects_in "blit_copy_rect list"
  | Fills_in "u32 list list"
  | Region_in region

datatype out_struct = No_out | Words_out "u32 list" | Quads_out "u64 list"

text \<open>The arguments of \<^verbatim>\<open>IOConnectCallMethod\<close> and what it gives back; the output sizes are in numbers and in bytes.\<close>

record request =
  rq_selector :: nat
  rq_scalars :: "u64 list"
  rq_struct :: in_struct
  rq_out_scalars :: nat
  rq_out_size :: nat

record reply =
  rp_rc :: ioreturn
  rp_scalars :: "u64 list"
  rp_struct :: out_struct

text \<open>
  The kernel's side: finding the accelerator of a service, with its handle and the index of the framebuffer; opening a
  connection; calling a method; closing the connection; releasing the accelerator.  Handles are not 0.
\<close>

record 'k services =
  sv_find :: "'k \<Rightarrow> (ioreturn \<times> nat \<times> u32) \<times> 'k"
  sv_open :: "nat \<Rightarrow> 'k \<Rightarrow> (ioreturn \<times> nat) \<times> 'k"
  sv_call :: "nat \<Rightarrow> request \<Rightarrow> 'k \<Rightarrow> (reply \<times> 'k) option"
  sv_close :: "nat \<Rightarrow> 'k \<Rightarrow> 'k option"
  sv_release :: "nat \<Rightarrow> 'k \<Rightarrow> 'k"

abbreviation (input) kIOVM2DSetSurface :: nat where "kIOVM2DSetSurface \<equiv> 0"
abbreviation (input) kIOVM2DGetConfig :: nat where "kIOVM2DGetConfig \<equiv> 1"
abbreviation (input) kIOVM2DSwapSurface :: nat where "kIOVM2DSwapSurface \<equiv> 3"
abbreviation (input) kIOVM2DScaleSurface :: nat where "kIOVM2DScaleSurface \<equiv> 4"
abbreviation (input) kIOVM2DLockMemory :: nat where "kIOVM2DLockMemory \<equiv> 5"
abbreviation (input) kIOVM2DUnlockMemory :: nat where "kIOVM2DUnlockMemory \<equiv> 6"
abbreviation (input) kIOVM2DFinish :: nat where "kIOVM2DFinish \<equiv> 7"
abbreviation (input) kIOVM2DDeleteImage :: nat where "kIOVM2DDeleteImage \<equiv> 11"
abbreviation (input) kIOVM2DWaitImage :: nat where "kIOVM2DWaitImage \<equiv> 12"
abbreviation (input) kIOVM2DSetMacrovision :: nat where "kIOVM2DSetMacrovision \<equiv> 15"
abbreviation (input) kIOVM2DReadConfigs :: nat where "kIOVM2DReadConfigs \<equiv> 16"
abbreviation (input) kIOVM2DReadConfigEx :: nat where "kIOVM2DReadConfigEx \<equiv> 17"
abbreviation (input) kIOVM2DCopyRegion :: nat where "kIOVM2DCopyRegion \<equiv> 20"
abbreviation (input) kIOVM2DUseAccelUpdates :: nat where "kIOVM2DUseAccelUpdates \<equiv> 21"
abbreviation (input) kIOVM2DRectCopy :: nat where "kIOVM2DRectCopy \<equiv> 22"
abbreviation (input) kIOVM2DRectFill :: nat where "kIOVM2DRectFill \<equiv> 23"
abbreviation (input) kIOVM2DUpdateFramebuffer :: nat where "kIOVM2DUpdateFramebuffer \<equiv> 24"

definition ga_useAccelUpdates :: "'k services \<Rightarrow> nat \<Rightarrow> bool \<Rightarrow> 'k \<Rightarrow> (reply \<times> 'k) option" where
  "ga_useAccelUpdates S ctx state =
    sv_call S ctx \<lparr>rq_selector = kIOVM2DUseAccelUpdates, rq_scalars = [if state then 1 else 0], rq_struct = No_struct,
      rq_out_scalars = 0, rq_out_size = 0\<rparr>"

definition ga_RectCopy :: "'k services \<Rightarrow> nat \<Rightarrow> blit_copy_rect list \<Rightarrow> 'k \<Rightarrow> (reply \<times> 'k) option" where
  "ga_RectCopy S ctx copyRects =
    sv_call S ctx \<lparr>rq_selector = kIOVM2DRectCopy, rq_scalars = [], rq_struct = Rects_in copyRects, rq_out_scalars = 0, rq_out_size = 0\<rparr>"

definition ga_RectFill :: "'k services \<Rightarrow> nat \<Rightarrow> u64 \<Rightarrow> u32 list list \<Rightarrow> 'k \<Rightarrow> (reply \<times> 'k) option" where
  "ga_RectFill S ctx color fills =
    sv_call S ctx \<lparr>rq_selector = kIOVM2DRectFill, rq_scalars = [color], rq_struct = Fills_in fills, rq_out_scalars = 0, rq_out_size = 0\<rparr>"

definition ga_UpdateFramebuffer :: "'k services \<Rightarrow> nat \<Rightarrow> u32 list \<Rightarrow> 'k \<Rightarrow> (reply \<times> 'k) option" where
  "ga_UpdateFramebuffer S ctx rect =
    sv_call S ctx \<lparr>rq_selector = kIOVM2DUpdateFramebuffer, rq_scalars = [], rq_struct = Words_in (take 4 rect), rq_out_scalars = 0, rq_out_size = 0\<rparr>"

definition ga_CopyRegion :: "'k services \<Rightarrow> nat \<Rightarrow> u64 \<Rightarrow> u64 \<Rightarrow> u64 \<Rightarrow> region \<Rightarrow> 'k \<Rightarrow> (reply \<times> 'k) option" where
  "ga_CopyRegion S ctx source_surface_id destX destY rgn =
    sv_call S ctx \<lparr>rq_selector = kIOVM2DCopyRegion, rq_scalars = [source_surface_id, destX, destY], rq_struct = Region_in rgn,
      rq_out_scalars = 0, rq_out_size = 0\<rparr>"

section \<open>State\<close>

record ga =
  ga_refCount :: u32
  ga_factoryID :: bool
  ga_context :: nat
  ga_accelerator :: nat
  ga_buffer :: "u32 list"
  ga_framebufferIndex :: u32
  ga_config_val_1 :: u32
  ga_surface :: nat
  ga_config_Ex_1 :: u32
  ga_config_Ex_2 :: u32
  ga_config_val_2 :: u32

text \<open>\<^verbatim>\<open>IOBlitSurface\<close>, which belongs to the client, and the plug-in's own \<^verbatim>\<open>SurfaceInfo\<close>, on the heap.\<close>

record blit_surface =
  bs_pixelFormat :: u32
  bs_width :: u32
  bs_height :: u32
  bs_rowBytes :: u32
  bs_accessFlags :: u32
  bs_interfaceRef :: nat

record surface_info =
  si_d0 :: "u32 option"
  si_addr :: u64
  si_cgsSurfaceID :: u64

text \<open>
  The plug-in in its process.  Pointers are numbers, 0 the null pointer; \<open>pl_ga\<close> is the instance, \<open>None\<close> once it is freed;
  \<open>pl_registered\<close> counts the instances the factory has.
\<close>

record 'k plugin =
  pl_ga :: "ga option"
  this_ga :: bool
  this_ga_ctx :: nat
  pl_registered :: nat
  pl_blits :: "nat \<Rightarrow> blit_surface"
  pl_infos :: "nat \<rightharpoonup> surface_info"
  pl_kernel :: 'k

definition set_ga :: "(ga \<Rightarrow> ga) \<Rightarrow> 'k plugin \<Rightarrow> 'k plugin" where
  "set_ga f p = p\<lparr>pl_ga := map_option f (pl_ga p)\<rparr>"

text \<open>A call on the connection of the instance.\<close>

definition ga_call :: "('k \<Rightarrow> (reply \<times> 'k) option) \<Rightarrow> 'k plugin \<Rightarrow> (reply \<times> 'k plugin) option" where
  "ga_call f p = do { (r, k) \<leftarrow> f (pl_kernel p); Some (r, p\<lparr>pl_kernel := k\<rparr>) }"

text \<open>A local variable the call fills, with what it holds when the call does not.\<close>

definition scalar_out :: "u64 \<Rightarrow> reply \<Rightarrow> u64" where
  "scalar_out stale r = (case rp_scalars r of [] \<Rightarrow> stale | v # _ \<Rightarrow> v)"

definition words_out :: "u32 list \<Rightarrow> reply \<Rightarrow> u32 list" where
  "words_out stale r = (case rp_struct r of Words_out vs \<Rightarrow> vs @ drop (length vs) stale | _ \<Rightarrow> stale)"

section \<open>The instance\<close>

text \<open>\<open>has_memory\<close>: there is memory for the instance; the interface table is a constant.\<close>

definition allocGAType :: "bool \<Rightarrow> bool \<Rightarrow> 'k plugin \<Rightarrow> bool \<times> 'k plugin" where
  "allocGAType has_memory factoryID p =
    (if \<not> has_memory then (False, p)
     else (True, p\<lparr>pl_ga := Some \<lparr>ga_refCount = 1, ga_factoryID = factoryID, ga_context = 0, ga_accelerator = 0, ga_buffer = replicate 11 0,
         ga_framebufferIndex = 0, ga_config_val_1 = 0, ga_surface = 0, ga_config_Ex_1 = 0, ga_config_Ex_2 = 0, ga_config_val_2 = 0\<rparr>,
       pl_registered := pl_registered p + (if factoryID then 1 else 0)\<rparr>))"

definition deallocGAType :: "'k plugin \<Rightarrow> 'k plugin option" where
  "deallocGAType p = do {
     g \<leftarrow> pl_ga p;
     Some (p\<lparr>pl_ga := None, pl_registered := pl_registered p - (if ga_factoryID g then 1 else 0)\<rparr>)
   }"

definition VMsvga2GAFactory :: "bool \<Rightarrow> bool \<Rightarrow> 'k plugin \<Rightarrow> bool \<times> 'k plugin" where
  "VMsvga2GAFactory has_memory is_accelerator_type p = (if is_accelerator_type then allocGAType has_memory True p else (False, p))"

text \<open>\<open>me\<close>: the pointer to the instance is not null.\<close>

definition vmAddRef :: "bool \<Rightarrow> 'k plugin \<Rightarrow> (u32 \<times> 'k plugin) option" where
  "vmAddRef me p =
    (if \<not> me then Some (0, p)
     else do { g \<leftarrow> pl_ga p; Some (ga_refCount g + 1, p\<lparr>pl_ga := Some (g\<lparr>ga_refCount := ga_refCount g + 1\<rparr>)\<rparr>) })"

definition vmRelease :: "bool \<Rightarrow> 'k plugin \<Rightarrow> (u32 \<times> 'k plugin) option" where
  "vmRelease me p =
    (if \<not> me then Some (0, p)
     else do {
       g \<leftarrow> pl_ga p;
       let n = ga_refCount g - 1;
       let p = p\<lparr>pl_ga := Some (g\<lparr>ga_refCount := n\<rparr>)\<rparr>;
       if n = 0 then do { p \<leftarrow> deallocGAType p; Some (0, p) } else Some (n, p)
     })"

text \<open>\<open>known\<close>: the interface is one of the three the plug-in has; the result says whether it gives out its pointer.\<close>

definition vmQueryInterface :: "bool \<Rightarrow> bool \<Rightarrow> 'k plugin \<Rightarrow> (bool \<times> 'k plugin) option" where
  "vmQueryInterface me known p =
    (if known then do { (_, p) \<leftarrow> vmAddRef me p; Some (True, p) } else Some (False, p))"

definition vmProbe :: "ioreturn \<times> nat" where
  "vmProbe = (kIOReturnSuccess, 2000)"

definition vmReset :: "bool \<Rightarrow> 'k plugin \<Rightarrow> ioreturn option" where
  "vmReset me p =
    (if \<not> me then Some kIOReturnBadArgument
     else do { g \<leftarrow> pl_ga p; Some (if ga_context g = 0 then kIOReturnNotReady else kIOReturnSuccess) })"

definition vmFlush :: ioreturn where
  "vmFlush = kIOReturnSuccess"

text \<open>The part of \<open>vmStart\<close> after the connection is opened, up to the first failure; \<open>stale\<close>: what the locals hold.\<close>

definition start_configs :: "'k services \<Rightarrow> u64 \<times> u32 \<Rightarrow> nat \<Rightarrow> 'k plugin \<Rightarrow> (ioreturn \<times> 'k plugin) option" where
  "start_configs S stale ctx p = do {
     (r, p) \<leftarrow> ga_call (sv_call S ctx \<lparr>rq_selector = kIOVM2DGetConfig, rq_scalars = [], rq_struct = No_struct, rq_out_scalars = 2,
       rq_out_size = 0\<rparr>) p;
     let p = set_ga (\<lambda>g. g\<lparr>ga_config_val_1 := ucast (scalar_out (fst stale) r)\<rparr>) p;
     if rp_rc r \<noteq> kIOReturnSuccess then Some (rp_rc r, p)
     else do {
       (r, p) \<leftarrow> ga_call (sv_call S ctx \<lparr>rq_selector = kIOVM2DReadConfigs, rq_scalars = [], rq_struct = Words_in [2], rq_out_scalars = 0,
         rq_out_size = 4\<rparr>) p;
       if rp_rc r \<noteq> kIOReturnSuccess then Some (rp_rc r, p)
       else do {
         let p = set_ga (\<lambda>g. g\<lparr>ga_config_val_2 := hd (words_out [snd stale] r)\<rparr>) p;
         rc \<leftarrow> vmReset True p;
         if rc \<noteq> kIOReturnSuccess then Some (rc, p)
         else do {
           (_, p) \<leftarrow> ga_call (ga_useAccelUpdates S ctx True) p;
           Some (rc, p)
         }
       }
     }
   }"

text \<open>The end of \<open>vmStart\<close>, with the label the failures jump to.\<close>

definition start_exit :: "'k services \<Rightarrow> nat \<Rightarrow> nat \<Rightarrow> ioreturn \<Rightarrow> 'k plugin \<Rightarrow> (ioreturn \<times> 'k plugin) option" where
  "start_exit S accelerator ctx rc p = do {
     p \<leftarrow> (if rc = kIOReturnSuccess then Some p
       else do {
         k \<leftarrow> (if ctx \<noteq> 0 then sv_close S ctx (pl_kernel p) else Some (pl_kernel p));
         Some (p\<lparr>pl_kernel := if accelerator \<noteq> 0 then sv_release S accelerator k else k\<rparr>)
       });
     g \<leftarrow> pl_ga p;
     Some (rc, p\<lparr>this_ga := True, this_ga_ctx := ga_context g\<rparr>)
   }"

definition vmStart :: "'k services \<Rightarrow> u64 \<times> u32 \<Rightarrow> bool \<Rightarrow> bool \<Rightarrow> 'k plugin \<Rightarrow> (ioreturn \<times> 'k plugin) option" where
  "vmStart S stale me service p =
    (if \<not> me \<or> \<not> service then Some (kIOReturnBadArgument, p)
     else do {
       _ \<leftarrow> pl_ga p;
       let ((rc, accelerator, fbIndex), k) = sv_find S (pl_kernel p);
       let p = p\<lparr>pl_kernel := k\<rparr>;
       if rc \<noteq> kIOReturnSuccess then Some (rc, p)
       else do {
         let p = set_ga (\<lambda>g. g\<lparr>ga_framebufferIndex := fbIndex\<rparr>) p;
         let ((rc, ctx), k) = sv_open S accelerator (pl_kernel p);
         let p = p\<lparr>pl_kernel := k\<rparr>;
         (rc, p) \<leftarrow> (if rc \<noteq> kIOReturnSuccess then Some (rc, p)
           else start_configs S stale ctx (set_ga (\<lambda>g. g\<lparr>ga_accelerator := accelerator, ga_context := ctx\<rparr>) p));
         start_exit S accelerator ctx rc p
       }
     })"

definition vmStop :: "'k services \<Rightarrow> bool \<Rightarrow> 'k plugin \<Rightarrow> (ioreturn \<times> 'k plugin) option" where
  "vmStop S me p =
    (if \<not> me then Some (kIOReturnBadArgument, p)
     else do {
       g \<leftarrow> pl_ga p;
       let p = p\<lparr>this_ga := False, this_ga_ctx := 0\<rparr>;
       if ga_accelerator g = 0 then Some (kIOReturnSuccess, p)
       else do {
         k \<leftarrow> (if ga_context g \<noteq> 0 then sv_close S (ga_context g) (pl_kernel p) else Some (pl_kernel p));
         Some (kIOReturnSuccess, p\<lparr>pl_kernel := sv_release S (ga_accelerator g) k,
           pl_ga := Some (g\<lparr>ga_accelerator := 0, ga_context := 0\<rparr>)\<rparr>)
       }
     })"

text \<open>The beginning most methods share.\<close>

definition ga_ready :: "bool \<Rightarrow> 'k plugin \<Rightarrow> (ioreturn + ga) option" where
  "ga_ready me p =
    (if \<not> me then Some (Inl kIOReturnBadArgument)
     else do { g \<leftarrow> pl_ga p; Some (if ga_context g = 0 then Inl kIOReturnNotReady else Inr g) })"

section \<open>Queries\<close>

text \<open>\<open>macrovision\<close>: the selector is \<^verbatim>\<open>'smvl'\<close>; the pointer to the capabilities is read as the new state.\<close>

definition vmGetCapabilities :: "'k services \<Rightarrow> bool \<Rightarrow> bool \<Rightarrow> u64 \<Rightarrow> 'k plugin \<Rightarrow> (ioreturn \<times> 'k plugin) option" where
  "vmGetCapabilities S me macrovision capabilities p =
    (if \<not> macrovision then Some (kIOReturnUnsupported, p)
     else do {
       g \<leftarrow> ga_ready me p;
       case g of Inl rc \<Rightarrow> Some (rc, p)
       | Inr g \<Rightarrow> do {
           (r, p) \<leftarrow> ga_call (sv_call S (ga_context g) \<lparr>rq_selector = kIOVM2DSetMacrovision, rq_scalars = [capabilities],
             rq_struct = No_struct, rq_out_scalars = 0, rq_out_size = 0\<rparr>) p;
           Some (rp_rc r, p)
         }
     })"

text \<open>\<open>flush\<close>: the options ask for the flush of host writes.\<close>

definition vmSynchronize :: "'k services \<Rightarrow> bool \<Rightarrow> bool \<Rightarrow> u32 \<Rightarrow> u32 \<Rightarrow> u32 \<Rightarrow> u32 \<Rightarrow> 'k plugin \<Rightarrow> (ioreturn \<times> 'k plugin) option" where
  "vmSynchronize S me flush x y w h p =
    (if \<not> flush then Some (kIOReturnSuccess, p)
     else do {
       g \<leftarrow> ga_ready me p;
       case g of Inl rc \<Rightarrow> Some (rc, p)
       | Inr g \<Rightarrow>
           if w \<le> x \<or> h \<le> y then Some (kIOReturnBadArgument, p)
           else do {
             (r, p) \<leftarrow> ga_call (ga_UpdateFramebuffer S (ga_context g) [x, y, w - x, h - y]) p;
             Some (rp_rc r, p)
           }
     })"

definition vmGetBeamPosition :: "ioreturn \<times> nat" where
  "vmGetBeamPosition = (kIOReturnSuccess, 0)"

section \<open>Surfaces\<close>

abbreviation (input) kIOUYVY422PixelFormat :: u32 where "kIOUYVY422PixelFormat \<equiv> 0x55595659"
abbreviation (input) ga_2vuyPixelFormat :: u32 where "ga_2vuyPixelFormat \<equiv> 0x32767579"
abbreviation (input) ga_YUVSPixelFormat :: u32 where "ga_YUVSPixelFormat \<equiv> 0x79757673"
abbreviation (input) ga_32BGRAPixelFormat :: u32 where "ga_32BGRAPixelFormat \<equiv> 0x42475241"

definition format_options :: "u32 \<Rightarrow> u32" where
  "format_options f =
    (if f = ga_2vuyPixelFormat \<or> f = kIOUYVY422PixelFormat then 0x400
     else if f = ga_YUVSPixelFormat then 0x200
     else if f = ga_32BGRAPixelFormat then 0x100
     else 0)"

text \<open>What the context is told: the surface and its format, or the framebuffer.\<close>

definition surface_target :: "u32 \<Rightarrow> nat \<Rightarrow> ga \<Rightarrow> 'k plugin \<Rightarrow> (ioreturn + u64 \<times> u64) option" where
  "surface_target options x g p =
    (if options AND 0x800 \<noteq> 0 then
       if x = 0 then None
       else let b = pl_blits p x
       in if bs_interfaceRef b = 0 then Some (Inl kIOReturnNotReady)
       else do {
         si \<leftarrow> pl_infos p (bs_interfaceRef b);
         Some (Inr (si_cgsSurfaceID si, ucast (options OR format_options (bs_pixelFormat b))))
       }
     else Some (Inr (ucast (ga_framebufferIndex g), 0)))"

text \<open>\<open>stale\<close>: the word of the input structure, and the words of the output structure, that nobody writes.\<close>

definition vmSetSurface :: "'k services \<Rightarrow> u32 \<times> u32 list \<Rightarrow> bool \<Rightarrow> u32 \<Rightarrow> nat \<Rightarrow> 'k plugin \<Rightarrow> (ioreturn \<times> 'k plugin) option" where
  "vmSetSurface S stale me options x p = do {
     g \<leftarrow> ga_ready me p;
     case g of Inl rc \<Rightarrow> Some (rc, p)
     | Inr g \<Rightarrow> do {
         t \<leftarrow> surface_target options x g p;
         case t of Inl rc \<Rightarrow> Some (rc, p)
         | Inr (i, o') \<Rightarrow> do {
             (r, p) \<leftarrow> ga_call (sv_call S (ga_context g) \<lparr>rq_selector = kIOVM2DSetSurface, rq_scalars = [i, o'], rq_struct = No_struct,
               rq_out_scalars = 0, rq_out_size = 44\<rparr>) p;
             let p = set_ga (\<lambda>g. g\<lparr>ga_buffer := words_out (ga_buffer g) r\<rparr>) p;
             if rp_rc r \<noteq> kIOReturnSuccess then Some (rp_rc r, p)
             else do {
               let p = set_ga (\<lambda>g. g\<lparr>ga_surface := (if i \<noteq> 0 \<and> o' \<noteq> 0 then x else 0)\<rparr>) p;
               (r, p) \<leftarrow> ga_call (sv_call S (ga_context g) \<lparr>rq_selector = kIOVM2DReadConfigEx, rq_scalars = [],
                 rq_struct = Words_in [288, fst stale], rq_out_scalars = 0, rq_out_size = 12\<rparr>) p;
               let out = words_out (snd stale) r;
               Some (rp_rc r,
                 if rp_rc r = kIOReturnSuccess then set_ga (\<lambda>g. g\<lparr>ga_config_Ex_1 := out ! 0, ga_config_Ex_2 := out ! 2\<rparr>) p
                 else set_ga (\<lambda>g. g\<lparr>ga_config_Ex_1 := 64, ga_config_Ex_2 := 16\<rparr>) p)
             }
           }
       }
   }"

text \<open>\<open>surface_destination\<close>: the options name a surface; the framebuffer's option is 0.\<close>

definition vmSetDestination :: "'k services \<Rightarrow> u32 \<times> u32 list \<Rightarrow> bool \<Rightarrow> bool \<Rightarrow> nat \<Rightarrow> 'k plugin \<Rightarrow> (ioreturn \<times> 'k plugin) option" where
  "vmSetDestination S stale me surface_destination x p = vmSetSurface S stale me (if surface_destination then 0x800 else 0) x p"

text \<open>The options of an allocation: a window of the window server, a fixed size, and the word itself.\<close>

record alloc_options =
  ao_HasCGSSurface :: bool
  ao_FixedSource :: bool
  ao_word :: u32

definition surface_too_large :: "u32 \<Rightarrow> blit_surface \<Rightarrow> bool" where
  "surface_too_large config_val_2 b \<longleftrightarrow>
    (let (max_w, max_h) = (if config_val_2 \<le> 79 then (2046, 2047) else (4096, 4096))
     in max_w <s bs_width b \<or> max_h <s bs_height b)"

definition set_blit :: "nat \<Rightarrow> (blit_surface \<Rightarrow> blit_surface) \<Rightarrow> 'k plugin \<Rightarrow> 'k plugin" where
  "set_blit x f p = p\<lparr>pl_blits := (pl_blits p)(x := f (pl_blits p x))\<rparr>"

text \<open>\<open>free\<close>; freeing what is not allocated is a fault.\<close>

definition free_info :: "nat \<Rightarrow> 'k plugin \<Rightarrow> 'k plugin option" where
  "free_info a p = (if pl_infos p a = None then None else Some (p\<lparr>pl_infos := (pl_infos p)(a := None)\<rparr>))"

text \<open>The target is set and its size, if it is fixed, before the surface is handed out.\<close>

definition attach_surface :: "'k services \<Rightarrow> u32 \<times> u32 list \<Rightarrow> alloc_options \<Rightarrow> nat \<Rightarrow> ga \<Rightarrow> 'k plugin \<Rightarrow> (ioreturn \<times> 'k plugin) option" where
  "attach_surface S stale options x g p = do {
     (rc, p) \<leftarrow> vmSetSurface S stale True 0x800 x p;
     if rc \<noteq> kIOReturnSuccess \<or> \<not> ao_FixedSource options then Some (rc, p)
     else do {
       (r, p) \<leftarrow> ga_call (sv_call S (ga_context g) \<lparr>rq_selector = kIOVM2DScaleSurface,
         rq_scalars = [ucast (ao_word options), scast (bs_width (pl_blits p x)), scast (bs_height (pl_blits p x))],
         rq_struct = No_struct, rq_out_scalars = 0, rq_out_size = 0\<rparr>) p;
       Some (rp_rc r, p)
     }
   }"

text \<open>\<open>a\<close>: the address of the new \<^verbatim>\<open>SurfaceInfo\<close>, 0 if there is no memory.\<close>

definition vmAllocateSurface :: "'k services \<Rightarrow> u32 \<times> u32 list \<Rightarrow> bool \<Rightarrow> nat \<Rightarrow> alloc_options \<Rightarrow> nat \<Rightarrow> u64 \<Rightarrow> 'k plugin \<Rightarrow>
    (ioreturn \<times> 'k plugin) option" where
  "vmAllocateSurface S stale me a options x cgsSurfaceID p =
    (if x = 0 then Some (kIOReturnBadArgument, p)
     else do {
       g \<leftarrow> ga_ready me p;
       case g of Inl rc \<Rightarrow> Some (rc, p)
       | Inr g \<Rightarrow>
           if ao_FixedSource options \<and> surface_too_large (ga_config_val_2 g) (pl_blits p x) then Some (kIOReturnUnsupported, p)
           else if a = 0 then Some (kIOReturnNoMemory, p)
           else do {
             let p = p\<lparr>pl_infos := (pl_infos p)(a \<mapsto> \<lparr>si_d0 = None, si_addr = 0, si_cgsSurfaceID = (if ao_HasCGSSurface options then cgsSurfaceID else 0)\<rparr>)\<rparr>;
             (rc, p) \<leftarrow> (if ao_HasCGSSurface options then attach_surface S stale options x g (set_blit x (\<lambda>b. b\<lparr>bs_interfaceRef := a\<rparr>) p)
               else Some (kIOReturnUnsupported, p));
             if rc = kIOReturnSuccess then Some (rc, set_blit x (\<lambda>b. b\<lparr>bs_interfaceRef := a\<rparr>) p)
             else do { p \<leftarrow> free_info a p; Some (rc, set_blit x (\<lambda>b. b\<lparr>bs_interfaceRef := 0\<rparr>) p) }
           }
     })"

text \<open>The beginning of the methods for a surface that is allocated: the instance and the \<^verbatim>\<open>SurfaceInfo\<close> with its address.\<close>

definition surface_ready :: "bool \<Rightarrow> nat \<Rightarrow> 'k plugin \<Rightarrow> (ioreturn + ga \<times> nat \<times> surface_info) option" where
  "surface_ready me x p =
    (if x = 0 then Some (Inl kIOReturnBadArgument)
     else do {
       g \<leftarrow> ga_ready me p;
       case g of Inl rc \<Rightarrow> Some (Inl rc)
       | Inr g \<Rightarrow>
           let a = bs_interfaceRef (pl_blits p x)
           in if a = 0 then Some (Inl kIOReturnNotReady) else do { si \<leftarrow> pl_infos p a; Some (Inr (g, a, si)) }
     })"

definition vmFreeSurface :: "'k services \<Rightarrow> u32 \<times> u32 list \<Rightarrow> bool \<Rightarrow> nat \<Rightarrow> 'k plugin \<Rightarrow> (ioreturn \<times> 'k plugin) option" where
  "vmFreeSurface S stale me x p = do {
     q \<leftarrow> surface_ready me x p;
     case q of Inl rc \<Rightarrow> Some (rc, p)
     | Inr (g, a, si) \<Rightarrow> do {
         (rc, p) \<leftarrow> (if ga_surface g \<noteq> 0
           then vmSetDestination S stale me False 0 (p\<lparr>pl_infos := (pl_infos p)(a \<mapsto> si\<lparr>si_cgsSurfaceID := 0\<rparr>)\<rparr>)
           else Some (kIOReturnSuccess, p));
         (rc, p) \<leftarrow> (case si_d0 si of None \<Rightarrow> Some (rc, p)
           | Some i \<Rightarrow> do {
               (r, p) \<leftarrow> ga_call (sv_call S (ga_context g) \<lparr>rq_selector = kIOVM2DDeleteImage, rq_scalars = [ucast i], rq_struct = No_struct,
                 rq_out_scalars = 0, rq_out_size = 0\<rparr>) p;
               Some (rp_rc r, p)
             });
         p \<leftarrow> free_info a p;
         Some (rc, set_blit x (\<lambda>b. b\<lparr>bs_interfaceRef := 0\<rparr>) p)
       }
   }"

text \<open>\<open>given\<close>: there is a place for the address, which is the second result.\<close>

definition vmLockSurface :: "'k services \<Rightarrow> u64 list \<Rightarrow> bool \<Rightarrow> u32 \<Rightarrow> nat \<Rightarrow> bool \<Rightarrow> 'k plugin \<Rightarrow> ((ioreturn \<times> u64 option) \<times> 'k plugin) option" where
  "vmLockSurface S stale me options x given p =
    (if \<not> given then Some ((kIOReturnBadArgument, None), p)
     else do {
       q \<leftarrow> surface_ready me x p;
       case q of Inl rc \<Rightarrow> Some ((rc, None), p)
       | Inr (g, a, si) \<Rightarrow>
           if si_addr si \<noteq> 0 then Some ((kIOReturnSuccess, Some (si_addr si)), p)
           else do {
             (r, p) \<leftarrow> ga_call (sv_call S (ga_context g) \<lparr>rq_selector = kIOVM2DLockMemory, rq_scalars = [ucast options], rq_struct = No_struct,
               rq_out_scalars = 0, rq_out_size = 16\<rparr>) p;
             if rp_rc r \<noteq> kIOReturnSuccess then Some ((rp_rc r, None), p)
             else let out = (case rp_struct r of Quads_out qs \<Rightarrow> qs @ drop (length qs) stale | _ \<Rightarrow> stale)
             in Some ((kIOReturnSuccess, Some (out ! 0)), set_blit x (\<lambda>b. b\<lparr>bs_rowBytes := ucast (out ! 1), bs_accessFlags := 2\<rparr>) p)
           }
     })"

text \<open>The second result is what the caller finds in \<^verbatim>\<open>swapFlags\<close> if it gave a place, \<open>None\<close> if nothing is stored there.\<close>

definition vmUnlockSurface :: "'k services \<Rightarrow> u64 \<Rightarrow> bool \<Rightarrow> u32 \<Rightarrow> nat \<Rightarrow> 'k plugin \<Rightarrow> ((ioreturn \<times> u32 option) \<times> 'k plugin) option" where
  "vmUnlockSurface S stale me options x p = do {
     q \<leftarrow> surface_ready me x p;
     case q of Inl rc \<Rightarrow> Some ((rc, None), p)
     | Inr (g, a, si) \<Rightarrow>
         if si_addr si \<noteq> 0 then Some ((kIOReturnSuccess, None), p)
         else do {
           (r, p) \<leftarrow> ga_call (sv_call S (ga_context g) \<lparr>rq_selector = kIOVM2DUnlockMemory, rq_scalars = [ucast options], rq_struct = No_struct,
             rq_out_scalars = 1, rq_out_size = 0\<rparr>) p;
           Some ((rp_rc r, Some (ucast (scalar_out stale r))), p)
         }
   }"

definition vmSwapSurface :: "'k services \<Rightarrow> u64 \<Rightarrow> bool \<Rightarrow> u32 \<Rightarrow> nat \<Rightarrow> 'k plugin \<Rightarrow> ((ioreturn \<times> u32 option) \<times> 'k plugin) option" where
  "vmSwapSurface S stale me options x p = do {
     q \<leftarrow> surface_ready me x p;
     case q of Inl rc \<Rightarrow> Some ((rc, None), p)
     | Inr (g, a, si) \<Rightarrow> do {
         (r, p) \<leftarrow> ga_call (sv_call S (ga_context g) \<lparr>rq_selector = kIOVM2DSwapSurface, rq_scalars = [ucast options], rq_struct = No_struct,
           rq_out_scalars = 1, rq_out_size = 0\<rparr>) p;
         Some ((rp_rc r, Some (ucast (scalar_out stale r))), p)
       }
   }"

definition vmWaitComplete :: "'k services \<Rightarrow> bool \<Rightarrow> u32 \<Rightarrow> 'k plugin \<Rightarrow> (ioreturn \<times> 'k plugin) option" where
  "vmWaitComplete S me options p = do {
     g \<leftarrow> ga_ready me p;
     case g of Inl rc \<Rightarrow> Some (rc, p)
     | Inr g \<Rightarrow> do {
         (r, p) \<leftarrow> ga_call (sv_call S (ga_context g) \<lparr>rq_selector = kIOVM2DFinish, rq_scalars = [ucast options], rq_struct = No_struct,
           rq_out_scalars = 0, rq_out_size = 0\<rparr>) p;
         Some (rp_rc r, p)
       }
   }"

definition vmWaitSurface :: "'k services \<Rightarrow> bool \<Rightarrow> nat \<Rightarrow> 'k plugin \<Rightarrow> (ioreturn \<times> 'k plugin) option" where
  "vmWaitSurface S me x p = do {
     q \<leftarrow> surface_ready me x p;
     case q of Inl rc \<Rightarrow> Some (rc, p)
     | Inr (g, a, si) \<Rightarrow>
         (case si_d0 si of None \<Rightarrow> Some (kIOReturnSuccess, p)
          | Some i \<Rightarrow> do {
              (r, p) \<leftarrow> ga_call (sv_call S (ga_context g) \<lparr>rq_selector = kIOVM2DWaitImage, rq_scalars = [ucast i], rq_struct = No_struct,
                rq_out_scalars = 0, rq_out_size = 0\<rparr>) p;
              Some (rp_rc r, p)
            })
   }"

section \<open>Blitters\<close>

text \<open>The verb of a blit and its source, as the masks of the interface take them from the words.\<close>

datatype blit_verb = Verb_rects | Verb_copy_rects | Verb_copy_region | Verb_other

datatype blit_source = Source_default | Source_framebuffer | Source_memory | Source_OOL_memory | Source_CGS_surface | Source_solid | Source_other

datatype blitter = Blit_fill | Blit_copy | Blit_mem_copy | Blit_copy_region

definition vmGetBlitter :: "blit_verb \<Rightarrow> blit_source \<Rightarrow> bool \<Rightarrow> ioreturn \<times> blitter option" where
  "vmGetBlitter verb source given =
    (if \<not> given then (kIOReturnBadArgument, None)
     else case (case verb of
         Verb_rects \<Rightarrow> if source = Source_solid then Some Blit_fill else None
       | Verb_copy_rects \<Rightarrow>
           if source \<in> {Source_default, Source_framebuffer} then Some Blit_copy
           else if source = Source_memory then Some Blit_mem_copy else None
       | Verb_copy_region \<Rightarrow> if source \<in> {Source_default, Source_framebuffer, Source_CGS_surface} then Some Blit_copy_region else None
       | Verb_other \<Rightarrow> None) of
         None \<Rightarrow> (kIOReturnUnsupported, None)
       | Some b \<Rightarrow> (kIOReturnSuccess, Some b))"

text \<open>\<open>copy\<close>: the operation is the plain copy; the rectangles, if there is an operation.\<close>

definition vmCopy :: "'k services \<Rightarrow> bool \<Rightarrow> bool \<Rightarrow> blit_copy_rect list option \<Rightarrow> 'k plugin \<Rightarrow> (ioreturn \<times> 'k plugin) option" where
  "vmCopy S me copy copy_rects p =
    (if \<not> copy then Some (kIOReturnUnsupported, p)
     else do {
       g \<leftarrow> ga_ready me p;
       case g of Inl rc \<Rightarrow> Some (rc, p)
       | Inr g \<Rightarrow>
           (case copy_rects of None \<Rightarrow> Some (kIOReturnBadArgument, p)
            | Some rs \<Rightarrow>
                if rs = [] then Some (kIOReturnBadArgument, p)
                else do { (r, p) \<leftarrow> ga_call (ga_RectCopy S (ga_context g) rs) p; Some (rp_rc r, p) })
     })"

definition vmFill :: "'k services \<Rightarrow> bool \<Rightarrow> bool \<Rightarrow> u64 \<Rightarrow> u32 list list option \<Rightarrow> 'k plugin \<Rightarrow> (ioreturn \<times> 'k plugin) option" where
  "vmFill S me copy color fills p =
    (if \<not> copy then Some (kIOReturnUnsupported, p)
     else do {
       g \<leftarrow> ga_ready me p;
       case g of Inl rc \<Rightarrow> Some (rc, p)
       | Inr g \<Rightarrow>
           (case fills of None \<Rightarrow> Some (kIOReturnBadArgument, p)
            | Some rs \<Rightarrow>
                if rs = [] then Some (kIOReturnBadArgument, p)
                else do { (r, p) \<leftarrow> ga_call (ga_RectFill S (ga_context g) color rs) p; Some (rp_rc r, p) })
     })"

text \<open>The operation has the destination and a region, or there is none.\<close>

definition vmCopyRegion :: "'k services \<Rightarrow> bool \<Rightarrow> bool \<Rightarrow> blit_source \<Rightarrow> u64 \<Rightarrow> (u32 \<times> u32 \<times> region option) option \<Rightarrow> 'k plugin \<Rightarrow>
    (ioreturn \<times> 'k plugin) option" where
  "vmCopyRegion S me type0 source_type source operation p =
    (if \<not> type0 then Some (kIOReturnUnsupported, p)
     else if source_type \<notin> {Source_default, Source_framebuffer, Source_CGS_surface} then Some (kIOReturnUnsupported, p)
     else let source = (if source_type = Source_CGS_surface then source else 0)
     in do {
       g \<leftarrow> ga_ready me p;
       case g of Inl rc \<Rightarrow> Some (rc, p)
       | Inr g \<Rightarrow>
           (case operation of
              Some (deltaX, deltaY, Some rgn) \<Rightarrow> do {
                (r, p) \<leftarrow> ga_call (ga_CopyRegion S (ga_context g) source (scast deltaX) (scast deltaY) rgn) p;
                Some (rp_rc r, p)
              }
            | _ \<Rightarrow> Some (kIOReturnBadArgument, p))
     })"

definition vmMemCopy :: ioreturn where
  "vmMemCopy = kIOReturnUnsupported"

end
