(* ===== verification/ContextService.thy ===== *)
theory ContextService
  imports Context2DProofs GraphicsPlugin
begin

text \<open>
  The 2D context as the kernel calls it (\<^verbatim>\<open>AC/UC/VMsvga22DContext.cpp\<close>, \<^verbatim>\<open>AC/UCMethods.h\<close>): the dispatch table with the
  shapes of the methods' arguments, the methods on the arguments of a call, and with them a kernel for the plug-in.
\<close>

section \<open>The dispatch table\<close>

datatype td_method =
    M_set_surface | M_get_config | M_get_surface_info1 | M_swap_surface | M_scale_surface | M_lock_memory | M_unlock_memory
  | M_finish | M_declare_image | M_create_image | M_create_transfer | M_delete_image | M_wait_image
  | M_set_surface_paging_options | M_set_surface_vsync_options | M_set_macrovision
  | M_read_configs | M_read_config_Ex | M_get_surface_info2 | M_kernel_printf
  | M_CopyRegion | M_useAccelUpdates | M_RectCopy | M_RectFill | M_UpdateFramebufferAutoRing

text \<open>What goes in and out; \<open>None\<close> is \<^verbatim>\<open>kIOUCVariableStructureSize\<close>.\<close>

datatype uc_shape =
    ScalarIScalarO nat nat
  | ScalarIStructO nat "nat option"
  | ScalarIStructI nat "nat option"
  | StructIStructO "nat option" "nat option"

definition iofbFuncsCache :: "(td_method \<times> uc_shape) list" where
  "iofbFuncsCache =
    [(M_set_surface, ScalarIStructO 2 None),
     (M_get_config, ScalarIScalarO 0 2),
     (M_get_surface_info1, ScalarIStructO 2 None),
     (M_swap_surface, ScalarIScalarO 1 1),
     (M_scale_surface, ScalarIScalarO 3 0),
     (M_lock_memory, ScalarIStructO 1 None),
     (M_unlock_memory, ScalarIScalarO 1 1),
     (M_finish, ScalarIScalarO 1 0),
     (M_declare_image, StructIStructO None None),
     (M_create_image, ScalarIStructO 2 None),
     (M_create_transfer, ScalarIStructO 2 None),
     (M_delete_image, ScalarIScalarO 1 0),
     (M_wait_image, ScalarIScalarO 1 0),
     (M_set_surface_paging_options, StructIStructO (Some 12) (Some 12)),
     (M_set_surface_vsync_options, StructIStructO (Some 12) (Some 12)),
     (M_set_macrovision, ScalarIScalarO 1 0),
     (M_read_configs, StructIStructO None None),
     (M_read_config_Ex, StructIStructO None None),
     (M_get_surface_info2, StructIStructO None None),
     (M_kernel_printf, ScalarIStructI 0 None),
     (M_CopyRegion, ScalarIStructI 3 None),
     (M_useAccelUpdates, ScalarIScalarO 1 0),
     (M_RectCopy, ScalarIStructI 0 None),
     (M_RectFill, ScalarIStructI 1 None),
     (M_UpdateFramebufferAutoRing, ScalarIStructI 0 (Some 16))]"

text \<open>The method a selector stands for; the last is a method of the accelerator, which there must be.\<close>

definition getTargetAndMethodForIndex :: "bool \<Rightarrow> nat \<Rightarrow> context2d \<Rightarrow> (td_method \<times> uc_shape) option" where
  "getTargetAndMethodForIndex has_target i c =
    (if \<not> has_target \<or> i \<ge> length iofbFuncsCache then None
     else if i = kIOVM2DUpdateFramebuffer \<and> \<not> td_provider c then None
     else Some (iofbFuncsCache ! i))"

text \<open>The sizes in bytes, and the check of a call against the shape that IOKit's dispatcher makes.\<close>

fun struct_size :: "in_struct \<Rightarrow> nat" where
  "struct_size No_struct = 0"
| "struct_size (Words_in ws) = 4 * length ws"
| "struct_size (Rects_in rs) = 24 * length rs"
| "struct_size (Fills_in fs) = 16 * length fs"
| "struct_size (Region_in r) = IOACCEL_SIZEOF_DEVICE_REGION r"

definition fits :: "nat option \<Rightarrow> nat \<Rightarrow> bool" where
  "fits expected n \<longleftrightarrow> (case expected of None \<Rightarrow> True | Some m \<Rightarrow> n = m)"

fun accepts :: "uc_shape \<Rightarrow> request \<Rightarrow> bool" where
  "accepts (ScalarIScalarO i o') rq \<longleftrightarrow> length (rq_scalars rq) = i \<and> rq_out_scalars rq = o' \<and> rq_struct rq = No_struct \<and> rq_out_size rq = 0"
| "accepts (ScalarIStructO i o') rq \<longleftrightarrow> length (rq_scalars rq) = i \<and> rq_struct rq = No_struct \<and> rq_out_scalars rq = 0 \<and> fits o' (rq_out_size rq)"
| "accepts (ScalarIStructI i n) rq \<longleftrightarrow> length (rq_scalars rq) = i \<and> rq_out_scalars rq = 0 \<and> rq_out_size rq = 0 \<and> fits n (struct_size (rq_struct rq))"
| "accepts (StructIStructO i o') rq \<longleftrightarrow> rq_scalars rq = [] \<and> rq_out_scalars rq = 0 \<and> fits i (struct_size (rq_struct rq)) \<and> fits o' (rq_out_size rq)"

section \<open>The methods\<close>

definition get_surface_info1 :: ioreturn where "get_surface_info1 = kIOReturnUnsupported"
definition declare_image :: ioreturn where "declare_image = kIOReturnUnsupported"
definition create_image :: ioreturn where "create_image = kIOReturnUnsupported"
definition create_transfer :: ioreturn where "create_transfer = kIOReturnUnsupported"
definition delete_image :: ioreturn where "delete_image = kIOReturnSuccess"
definition wait_image :: ioreturn where "wait_image = kIOReturnSuccess"
definition set_surface_paging_options :: ioreturn where "set_surface_paging_options = kIOReturnUnsupported"
definition set_surface_vsync_options :: ioreturn where "set_surface_vsync_options = kIOReturnUnsupported"
definition set_macrovision :: ioreturn where "set_macrovision = kIOReturnSuccess"
definition get_surface_info2 :: ioreturn where "get_surface_info2 = kIOReturnUnsupported"
definition kernel_printf :: ioreturn where "kernel_printf = kIOReturnSuccess"

type_synonym served = "(reply \<times> context2d \<times> desk) option"

definition answer :: "ioreturn \<Rightarrow> u64 list \<Rightarrow> out_struct \<Rightarrow> reply" where
  "answer rc vs out = \<lparr>rp_rc = rc, rp_scalars = (if rc = kIOReturnSuccess then vs else []), rp_struct = (if rc = kIOReturnSuccess then out else No_out)\<rparr>"

definition plain :: "context2d \<Rightarrow> (ioreturn \<times> desk) option \<Rightarrow> served" where
  "plain c r = map_option (\<lambda>(rc, w). (answer rc [] No_out, c, w)) r"

text \<open>
  The methods, with the places for the results that the dispatcher always gives; \<open>fixed\<close> is the option that scaling
  looks at.  The word for the swap flags is always cleared.
\<close>

definition serve_set_surface :: "host \<Rightarrow> kit \<Rightarrow> request \<Rightarrow> context2d \<Rightarrow> desk \<Rightarrow> served" where
  "serve_set_surface h k rq c w =
    map_option (\<lambda>(rc, c, w). (answer rc [] (Words_out (replicate (rq_out_size rq div 4) 0)), c, w))
      (td_set_surface h k (rq_scalars rq ! 0) (rq_scalars rq ! 1) True c w)"

definition serve_lock_memory :: "host \<Rightarrow> kit \<Rightarrow> request \<Rightarrow> context2d \<Rightarrow> desk \<Rightarrow> served" where
  "serve_lock_memory h k rq c w =
    map_option (\<lambda>((rc, r), w). (answer rc [] (case r of None \<Rightarrow> No_out | Some (addr, rowbytes) \<Rightarrow> Quads_out [addr, ucast rowbytes]), c, w))
      (td_lock_memory h k (Some (rq_out_size rq)) c w)"

definition serve_flags :: "context2d \<Rightarrow> (ioreturn \<times> desk) option \<Rightarrow> served" where
  "serve_flags c r = map_option (\<lambda>(rc, w). (answer rc [0] No_out, c, w)) r"

fun words_in :: "in_struct \<Rightarrow> u32 list" where
  "words_in (Words_in ws) = ws"
| "words_in _ = []"

text \<open>A region as the method sees it, with the bytes that were sent.\<close>

fun region_in :: "in_struct \<Rightarrow> region option" where
  "region_in (Region_in r) = Some r"
| "region_in _ = None"

fun rects_in :: "in_struct \<Rightarrow> blit_copy_rect list option" where
  "rects_in (Rects_in rs) = Some rs"
| "rects_in _ = None"

fun fills_in :: "in_struct \<Rightarrow> u32 list list option" where
  "fills_in (Fills_in rs) = Some rs"
| "fills_in _ = None"

definition serve_get_config :: "context2d \<Rightarrow> desk \<Rightarrow> served" where
  "serve_get_config c w =
    (let (rc, r) = td_get_config True c w
     in Some (answer rc (case r of None \<Rightarrow> [] | Some (x, y) \<Rightarrow> [ucast x, ucast y]) No_out, c, w))"

definition serve_read_configs :: "request \<Rightarrow> context2d \<Rightarrow> desk \<Rightarrow> served" where
  "serve_read_configs rq c w =
    (let (rc, r) = td_read_configs True (words_in (rq_struct rq) ! 0) (struct_size (rq_struct rq)) (rq_out_size rq)
     in Some (answer rc [] (case r of None \<Rightarrow> No_out | Some v \<Rightarrow> Words_out [v]), c, w))"

definition serve_read_config_Ex :: "request \<Rightarrow> context2d \<Rightarrow> desk \<Rightarrow> served" where
  "serve_read_config_Ex rq c w =
    (let (rc, r) = td_read_config_Ex True (words_in (rq_struct rq) ! 0) (struct_size (rq_struct rq)) (rq_out_size rq)
     in Some (answer rc [] (case r of None \<Rightarrow> No_out | Some vs \<Rightarrow> Words_out vs), c, w))"

fun serve :: "host \<Rightarrow> kit \<Rightarrow> bool \<Rightarrow> (u64 \<Rightarrow> bool) \<Rightarrow> td_method \<Rightarrow> request \<Rightarrow> context2d \<Rightarrow> desk \<Rightarrow> served" where
  "serve h k u fixed M_set_surface rq c w = serve_set_surface h k rq c w"
| "serve h k u fixed M_get_config rq c w = serve_get_config c w"
| "serve h k u fixed M_get_surface_info1 rq c w = plain c (Some (get_surface_info1, w))"
| "serve h k u fixed M_swap_surface rq c w = serve_flags c (td_swap_surface h c w)"
| "serve h k u fixed M_scale_surface rq c w =
    plain c (td_scale_surface (fixed (rq_scalars rq ! 0)) (rq_scalars rq ! 1) (rq_scalars rq ! 2) c w)"
| "serve h k u fixed M_lock_memory rq c w = serve_lock_memory h k rq c w"
| "serve h k u fixed M_unlock_memory rq c w = serve_flags c (td_unlock_memory c w)"
| "serve h k u fixed M_finish rq c w = plain c (td_finish h c w)"
| "serve h k u fixed M_declare_image rq c w = plain c (Some (declare_image, w))"
| "serve h k u fixed M_create_image rq c w = plain c (Some (create_image, w))"
| "serve h k u fixed M_create_transfer rq c w = plain c (Some (create_transfer, w))"
| "serve h k u fixed M_delete_image rq c w = plain c (Some (delete_image, w))"
| "serve h k u fixed M_wait_image rq c w = plain c (Some (wait_image, w))"
| "serve h k u fixed M_set_surface_paging_options rq c w = plain c (Some (set_surface_paging_options, w))"
| "serve h k u fixed M_set_surface_vsync_options rq c w = plain c (Some (set_surface_vsync_options, w))"
| "serve h k u fixed M_set_macrovision rq c w = plain c (Some (set_macrovision, w))"
| "serve h k u fixed M_read_configs rq c w = serve_read_configs rq c w"
| "serve h k u fixed M_read_config_Ex rq c w = serve_read_config_Ex rq c w"
| "serve h k u fixed M_get_surface_info2 rq c w = plain c (Some (get_surface_info2, w))"
| "serve h k u fixed M_kernel_printf rq c w = plain c (Some (kernel_printf, w))"
| "serve h k u fixed M_CopyRegion rq c w =
    plain c (td_CopyRegion h k u (rq_scalars rq ! 0) (rq_scalars rq ! 1) (rq_scalars rq ! 2) (region_in (rq_struct rq))
      (struct_size (rq_struct rq)) c w)"
| "serve h k u fixed M_useAccelUpdates rq c w = plain c (td_useAccelUpdates h (rq_scalars rq ! 0) c w)"
| "serve h k u fixed M_RectCopy rq c w = plain c (td_RectCopy h u (rects_in (rq_struct rq)) c w)"
| "serve h k u fixed M_RectFill rq c w = plain c (td_RectFill h u (rq_scalars rq ! 0) (fills_in (rq_struct rq)) c w)"
| "serve h k u fixed M_UpdateFramebufferAutoRing rq c w =
    plain c (on_accel (UpdateFramebufferAutoRing h (case words_in (rq_struct rq) of [] \<Rightarrow> None | ws \<Rightarrow> Some ws)) w)"

end
