(* ===== verification/PluginProofs.thy ===== *)
theory PluginProofs
  imports ContextService
begin

text \<open>
  The plug-in as a client of the 2D context: its calls have the shapes of the dispatch table, its memory is exactly
  that of the surfaces in use, and what locking gives on the real context.
\<close>

section \<open>Calls of the window server\<close>

datatype plugin_call =
    Ga_AddRef bool
  | Ga_Release bool
  | Ga_QueryInterface bool bool
  | Ga_Start "u64 \<times> u32" bool bool
  | Ga_Stop bool
  | Ga_Reset bool
  | Ga_GetCapabilities bool bool u64
  | Ga_Synchronize bool bool u32 u32 u32 u32
  | Ga_AllocateSurface "u32 \<times> u32 list" bool nat alloc_options nat u64
  | Ga_FreeSurface "u32 \<times> u32 list" bool nat
  | Ga_LockSurface "u64 list" bool u32 nat bool
  | Ga_UnlockSurface u64 bool u32 nat
  | Ga_SwapSurface u64 bool u32 nat
  | Ga_SetDestination "u32 \<times> u32 list" bool bool nat
  | Ga_SetSurface "u32 \<times> u32 list" bool u32 nat
  | Ga_WaitComplete bool u32
  | Ga_WaitSurface bool nat
  | Ga_Copy bool bool "blit_copy_rect list option"
  | Ga_Fill bool bool u64 "u32 list list option"
  | Ga_CopyRegion bool bool blit_source u64 "(u32 \<times> u32 \<times> region option) option"

fun ga_do :: "'k services \<Rightarrow> plugin_call \<Rightarrow> 'k plugin \<Rightarrow> (ioreturn \<times> 'k plugin) option" where
  "ga_do S (Ga_AddRef me) p = map_option (\<lambda>(_, p). (kIOReturnSuccess, p)) (vmAddRef me p)"
| "ga_do S (Ga_Release me) p = map_option (\<lambda>(_, p). (kIOReturnSuccess, p)) (vmRelease me p)"
| "ga_do S (Ga_QueryInterface me known) p = map_option (\<lambda>(_, p). (kIOReturnSuccess, p)) (vmQueryInterface me known p)"
| "ga_do S (Ga_Start stale me service) p = vmStart S stale me service p"
| "ga_do S (Ga_Stop me) p = vmStop S me p"
| "ga_do S (Ga_Reset me) p = map_option (\<lambda>rc. (rc, p)) (vmReset me p)"
| "ga_do S (Ga_GetCapabilities me macrovision caps) p = vmGetCapabilities S me macrovision caps p"
| "ga_do S (Ga_Synchronize me flush x y w h) p = vmSynchronize S me flush x y w h p"
| "ga_do S (Ga_AllocateSurface stale me a options x sid) p = vmAllocateSurface S stale me a options x sid p"
| "ga_do S (Ga_FreeSurface stale me x) p = vmFreeSurface S stale me x p"
| "ga_do S (Ga_LockSurface stale me options x given) p = map_option (\<lambda>((rc, _), p). (rc, p)) (vmLockSurface S stale me options x given p)"
| "ga_do S (Ga_UnlockSurface stale me options x) p = map_option (\<lambda>((rc, _), p). (rc, p)) (vmUnlockSurface S stale me options x p)"
| "ga_do S (Ga_SwapSurface stale me options x) p = map_option (\<lambda>((rc, _), p). (rc, p)) (vmSwapSurface S stale me options x p)"
| "ga_do S (Ga_SetDestination stale me surface_destination x) p = vmSetDestination S stale me surface_destination x p"
| "ga_do S (Ga_SetSurface stale me options x) p = vmSetSurface S stale me options x p"
| "ga_do S (Ga_WaitComplete me options) p = vmWaitComplete S me options p"
| "ga_do S (Ga_WaitSurface me x) p = vmWaitSurface S me x p"
| "ga_do S (Ga_Copy me copy rs) p = vmCopy S me copy rs p"
| "ga_do S (Ga_Fill me copy color rs) p = vmFill S me copy color rs p"
| "ga_do S (Ga_CopyRegion me type0 source_type source operation) p = vmCopyRegion S me type0 source_type source operation p"

section \<open>The calls have the right shapes\<close>

text \<open>A kernel that lets a call pass only if the dispatcher of the 2D context would; any other is a fault.\<close>

definition shaped :: "request \<Rightarrow> bool" where
  "shaped rq \<longleftrightarrow> rq_selector rq < length iofbFuncsCache \<and> accepts (snd (iofbFuncsCache ! rq_selector rq)) rq"

definition checked :: "'k services \<Rightarrow> 'k services" where
  "checked S = S\<lparr>sv_call := \<lambda>ctx rq k. if shaped rq then sv_call S ctx rq k else None\<rparr>"

lemma checked_simps [simp]:
  "sv_find (checked S) = sv_find S" "sv_open (checked S) = sv_open S" "sv_close (checked S) = sv_close S"
  "sv_release (checked S) = sv_release S" "shaped rq \<Longrightarrow> sv_call (checked S) ctx rq = sv_call S ctx rq"
  by (auto simp: checked_def)

lemma shapedI:
  "iofbFuncsCache ! i = (m, shape) \<Longrightarrow> i < 25 \<Longrightarrow> accepts shape \<lparr>rq_selector = i, rq_scalars = vs, rq_struct = s, rq_out_scalars = n, rq_out_size = z\<rparr> \<Longrightarrow>
    shaped \<lparr>rq_selector = i, rq_scalars = vs, rq_struct = s, rq_out_scalars = n, rq_out_size = z\<rparr>"
  by (simp add: shaped_def) (simp add: iofbFuncsCache_def)

lemma shaped_requests [simp]:
  "shaped \<lparr>rq_selector = 0, rq_scalars = [i, j], rq_struct = No_struct, rq_out_scalars = 0, rq_out_size = z\<rparr>"
  "shaped \<lparr>rq_selector = Suc 0, rq_scalars = [], rq_struct = No_struct, rq_out_scalars = 2, rq_out_size = 0\<rparr>"
  "shaped \<lparr>rq_selector = 3, rq_scalars = [i], rq_struct = No_struct, rq_out_scalars = Suc 0, rq_out_size = 0\<rparr>"
  "shaped \<lparr>rq_selector = 4, rq_scalars = [i, j, l], rq_struct = No_struct, rq_out_scalars = 0, rq_out_size = 0\<rparr>"
  "shaped \<lparr>rq_selector = 5, rq_scalars = [i], rq_struct = No_struct, rq_out_scalars = 0, rq_out_size = z\<rparr>"
  "shaped \<lparr>rq_selector = 6, rq_scalars = [i], rq_struct = No_struct, rq_out_scalars = Suc 0, rq_out_size = 0\<rparr>"
  "shaped \<lparr>rq_selector = 7, rq_scalars = [i], rq_struct = No_struct, rq_out_scalars = 0, rq_out_size = 0\<rparr>"
  "shaped \<lparr>rq_selector = 11, rq_scalars = [i], rq_struct = No_struct, rq_out_scalars = 0, rq_out_size = 0\<rparr>"
  "shaped \<lparr>rq_selector = 12, rq_scalars = [i], rq_struct = No_struct, rq_out_scalars = 0, rq_out_size = 0\<rparr>"
  "shaped \<lparr>rq_selector = 15, rq_scalars = [i], rq_struct = No_struct, rq_out_scalars = 0, rq_out_size = 0\<rparr>"
  "shaped \<lparr>rq_selector = 16, rq_scalars = [], rq_struct = Words_in ws, rq_out_scalars = 0, rq_out_size = z\<rparr>"
  "shaped \<lparr>rq_selector = 17, rq_scalars = [], rq_struct = Words_in ws, rq_out_scalars = 0, rq_out_size = z\<rparr>"
  "shaped \<lparr>rq_selector = 20, rq_scalars = [i, j, l], rq_struct = s, rq_out_scalars = 0, rq_out_size = 0\<rparr>"
  "shaped \<lparr>rq_selector = 21, rq_scalars = [i], rq_struct = No_struct, rq_out_scalars = 0, rq_out_size = 0\<rparr>"
  "shaped \<lparr>rq_selector = 22, rq_scalars = [], rq_struct = s, rq_out_scalars = 0, rq_out_size = 0\<rparr>"
  "shaped \<lparr>rq_selector = 23, rq_scalars = [i], rq_struct = s, rq_out_scalars = 0, rq_out_size = 0\<rparr>"
  "length ws = 4 \<Longrightarrow> shaped \<lparr>rq_selector = 24, rq_scalars = [], rq_struct = Words_in ws, rq_out_scalars = 0, rq_out_size = 0\<rparr>"
  by (simp_all add: shaped_def iofbFuncsCache_def fits_def)

lemma checked_helpers [simp]:
  "ga_useAccelUpdates (checked S) ctx state = ga_useAccelUpdates S ctx state" "ga_RectCopy (checked S) ctx rs = ga_RectCopy S ctx rs"
  "ga_RectFill (checked S) ctx color fs = ga_RectFill S ctx color fs"
  "ga_CopyRegion (checked S) ctx source x y rgn = ga_CopyRegion S ctx source x y rgn"
  "length ws = 4 \<Longrightarrow> ga_UpdateFramebuffer (checked S) ctx ws = ga_UpdateFramebuffer S ctx ws"
  by (simp_all add: ga_useAccelUpdates_def ga_RectCopy_def ga_RectFill_def ga_CopyRegion_def ga_UpdateFramebuffer_def)

lemmas full_congs = sum.case_cong option.case_cong if_cong

lemma checked_SetSurface [simp]: "vmSetSurface (checked S) stale me options x p = vmSetSurface S stale me options x p"
  by (simp add: vmSetSurface_def Let_def cong: full_congs)

text \<open>C14: Every call the plug-in makes, in every state and for every answer of the kernel, has the shape the dispatch table
  of the 2D context has for its selector: the number of scalars that go in and come out, and the sizes of the
  structures.  Against a kernel that faults on any other call, the plug-in behaves as against one that never looks.\<close>

theorem plugin_calls_shaped: "ga_do (checked S) call p = ga_do S call p"
  by (cases call)
    (simp_all add: vmStart_def start_configs_def start_exit_def vmStop_def vmGetCapabilities_def vmSynchronize_def vmAllocateSurface_def attach_surface_def
      vmFreeSurface_def vmSetDestination_def vmLockSurface_def vmUnlockSurface_def vmSwapSurface_def vmWaitComplete_def vmWaitSurface_def
      vmCopy_def vmFill_def vmCopyRegion_def Let_def cong: full_congs)

section \<open>The memory of the plug-in\<close>

text \<open>
  The blocks on the heap are exactly those the surfaces of the client refer to, each by one surface: nothing leaks,
  nothing dangles.
\<close>

definition heap_exact :: "'k plugin \<Rightarrow> bool" where
  "heap_exact p \<longleftrightarrow> (let ref = (\<lambda>x. bs_interfaceRef (pl_blits p x))
     in (\<forall>a. pl_infos p a \<noteq> None \<longleftrightarrow> a \<noteq> 0 \<and> (\<exists>x. ref x = a)) \<and> (\<forall>x y. ref x = ref y \<and> ref x \<noteq> 0 \<longrightarrow> x = y))"

text \<open>
  A client uses the instance while it has a reference, allocates only surfaces that are not allocated and names a
  surface where one is asked for; the heap gives out blocks that are free.
\<close>

fun client_ok :: "plugin_call \<Rightarrow> 'k plugin \<Rightarrow> bool" where
  "client_ok (Ga_AllocateSurface _ _ a _ x _) p \<longleftrightarrow> pl_ga p \<noteq> None \<and> bs_interfaceRef (pl_blits p x) = 0 \<and> pl_infos p a = None"
| "client_ok (Ga_SetDestination _ _ surface_destination x) p \<longleftrightarrow> pl_ga p \<noteq> None \<and> (surface_destination \<longrightarrow> x \<noteq> 0)"
| "client_ok (Ga_SetSurface _ _ options x) p \<longleftrightarrow> pl_ga p \<noteq> None \<and> (options AND 0x800 \<noteq> 0 \<longrightarrow> x \<noteq> 0)"
| "client_ok _ p \<longleftrightarrow> pl_ga p \<noteq> None"

text \<open>Calls such a client would not make do not occur.\<close>

fun ga_run :: "(('k services) \<times> plugin_call) list \<Rightarrow> 'k plugin \<Rightarrow> 'k plugin option" where
  "ga_run [] p = Some p"
| "ga_run ((S, c) # cs) p = (if client_ok c p then do { (_, p) \<leftarrow> ga_do S c p; ga_run cs p } else ga_run cs p)"

definition kernel_returns :: "'k services \<Rightarrow> bool" where
  "kernel_returns S \<longleftrightarrow> (\<forall>ctx rq k. sv_call S ctx rq k \<noteq> None) \<and> (\<forall>ctx k. sv_close S ctx k \<noteq> None)"

text \<open>A call that returns, in a state with a property.\<close>

definition runs :: "('a \<times> 'k plugin) option \<Rightarrow> ('k plugin \<Rightarrow> bool) \<Rightarrow> bool" where
  "runs m Q \<longleftrightarrow> (\<exists>v p. m = Some (v, p) \<and> Q p)"

lemma runs_Some [simp]: "runs (Some (v, p)) Q \<longleftrightarrow> Q p"
  by (simp add: runs_def)

lemma runs_bind: "runs m R \<Longrightarrow> (\<And>v p. R p \<Longrightarrow> runs (f v p) Q) \<Longrightarrow> runs (do { (v, p) \<leftarrow> m; f v p }) Q"
  by (auto simp: runs_def)

lemma runs_map [simp]: "runs (map_option (\<lambda>(v, p). (g v p, p)) m) Q \<longleftrightarrow> runs m Q"
  by (auto simp: runs_def)

lemma runs_mono: "runs m R \<Longrightarrow> (\<And>p. R p \<Longrightarrow> Q p) \<Longrightarrow> runs m Q"
  by (auto simp: runs_def)

text \<open>The same memory, and the instance is there.\<close>

definition same_memory :: "'k plugin \<Rightarrow> 'k plugin \<Rightarrow> bool" where
  "same_memory p q \<longleftrightarrow> pl_ga q \<noteq> None \<and> pl_infos q = pl_infos p \<and> (\<forall>x. bs_interfaceRef (pl_blits q x) = bs_interfaceRef (pl_blits p x))"

lemma set_ga_simps [simp]:
  "pl_kernel (set_ga f p) = pl_kernel p" "pl_blits (set_ga f p) = pl_blits p" "pl_infos (set_ga f p) = pl_infos p"
  by (simp_all add: set_ga_def)

lemma same_memory_simps [simp]:
  "same_memory p (set_ga f q) = same_memory p q" "same_memory p (q\<lparr>pl_kernel := k\<rparr>) = same_memory p q"
  "same_memory p (q\<lparr>this_ga := b\<rparr>) = same_memory p q" "same_memory p (q\<lparr>this_ga_ctx := i\<rparr>) = same_memory p q"
  "same_memory p (set_blit x (\<lambda>b. b\<lparr>bs_rowBytes := n, bs_accessFlags := m\<rparr>) q) = same_memory p q"
  by (auto simp: same_memory_def set_ga_def set_blit_def)

lemma same_memory_refl: "pl_ga p \<noteq> None \<Longrightarrow> same_memory p p"
  by (simp add: same_memory_def)

lemma same_memory_ok: "same_memory p q \<Longrightarrow> heap_exact p \<Longrightarrow> heap_exact q"
  by (simp add: same_memory_def heap_exact_def)

lemma runs_call:
  assumes "kernel_returns S" and "same_memory p q"
  shows "runs (ga_call (sv_call S ctx rq) q) (same_memory p)"
proof -
  obtain r k where "sv_call S ctx rq (pl_kernel q) = Some (r, k)" using assms(1) unfolding kernel_returns_def by (metis option.exhaust prod.exhaust)
  then show ?thesis using assms(2) by (simp add: ga_call_def)
qed

lemma runs_helpers:
  assumes "kernel_returns S" and "same_memory p q"
  shows "runs (ga_call (ga_useAccelUpdates S ctx state) q) (same_memory p)" "runs (ga_call (ga_RectCopy S ctx rs) q) (same_memory p)"
    "runs (ga_call (ga_RectFill S ctx color fs) q) (same_memory p)" "runs (ga_call (ga_CopyRegion S ctx source x y rgn) q) (same_memory p)"
    "runs (ga_call (ga_UpdateFramebuffer S ctx ws) q) (same_memory p)"
  unfolding ga_useAccelUpdates_def ga_RectCopy_def ga_RectFill_def ga_CopyRegion_def ga_UpdateFramebuffer_def
  by (rule runs_call [OF assms])+

lemma ready_cases:
  "pl_ga p \<noteq> None \<Longrightarrow> (\<exists>rc. ga_ready me p = Some (Inl rc)) \<or> (\<exists>g. pl_ga p = Some g \<and> ga_ready me p = Some (Inr g))"
  by (auto simp: ga_ready_def split: if_splits)

lemma surface_ready_cases:
  assumes "pl_ga p \<noteq> None" and "heap_exact p"
  shows "(\<exists>rc. surface_ready me x p = Some (Inl rc)) \<or>
    (\<exists>g a si. pl_ga p = Some g \<and> x \<noteq> 0 \<and> a = bs_interfaceRef (pl_blits p x) \<and> a \<noteq> 0 \<and> pl_infos p a = Some si \<and>
      surface_ready me x p = Some (Inr (g, a, si)))"
proof -
  have "pl_infos p a \<noteq> None" if "a = bs_interfaceRef (pl_blits p x)" "a \<noteq> 0" for a
    using assms(2) that unfolding heap_exact_def Let_def by blast
  then show ?thesis
    using ready_cases [OF assms(1), of me] by (cases "bs_interfaceRef (pl_blits p x) = 0") (auto simp: surface_ready_def Let_def)
qed

lemma set_surface_runs:
  assumes "kernel_returns S" and "same_memory p q"
    and "options AND 0x800 \<noteq> 0 \<Longrightarrow> x \<noteq> 0 \<and> (bs_interfaceRef (pl_blits p x) \<noteq> 0 \<longrightarrow> pl_infos p (bs_interfaceRef (pl_blits p x)) \<noteq> None)"
  shows "runs (vmSetSurface S stale me options x q) (same_memory p)"
proof -
  have "pl_ga q \<noteq> None" using assms(2) by (simp add: same_memory_def)
  from ready_cases [OF this, of me] show ?thesis
  proof (elim disjE exE conjE)
    fix g assume g: "pl_ga q = Some g" "ga_ready me q = Some (Inr g)"
    have "surface_target options x g q \<noteq> None"
      using assms(2,3) by (auto simp: surface_target_def same_memory_def Let_def)
    then consider (refused) rc where "surface_target options x g q = Some (Inl rc)"
      | (told) i o' where "surface_target options x g q = Some (Inr (i, o'))"
      by (metis option.exhaust sum.exhaust prod.exhaust)
    then show ?thesis
    proof cases
      case told
      with g assms(2) show ?thesis
        by (auto simp: vmSetSurface_def Let_def intro!: runs_bind [where R = "same_memory p"] runs_call [OF assms(1)])
    qed (use g assms(2) in \<open>simp add: vmSetSurface_def\<close>)
  qed (use assms(2) in \<open>simp add: vmSetSurface_def\<close>)
qed

lemma heap_exact_cong:
  "pl_infos q = pl_infos p \<Longrightarrow> (\<And>x. bs_interfaceRef (pl_blits q x) = bs_interfaceRef (pl_blits p x)) \<Longrightarrow> heap_exact p \<Longrightarrow> heap_exact q"
  by (simp add: heap_exact_def)

text \<open>A new block for a surface that has none, and the end of a block.\<close>

lemma heap_exact_fields:
  assumes "heap_exact p" and "pl_infos q a \<noteq> None \<longleftrightarrow> a \<noteq> 0" and "bs_interfaceRef (pl_blits q x) = a"
    and "\<forall>b. b \<noteq> a \<longrightarrow> (pl_infos q b \<noteq> None) = (pl_infos p b \<noteq> None)"
    and "\<forall>y. y \<noteq> x \<longrightarrow> bs_interfaceRef (pl_blits q y) = bs_interfaceRef (pl_blits p y)"
    and "bs_interfaceRef (pl_blits p x) = 0" and "pl_infos p a = None"
  shows "heap_exact q"
proof -
  let ?ref = "\<lambda>x. bs_interfaceRef (pl_blits p x)" and ?ref' = "\<lambda>x. bs_interfaceRef (pl_blits q x)"
  have old: "pl_infos p b \<noteq> None \<longleftrightarrow> b \<noteq> 0 \<and> (\<exists>y. ?ref y = b)" "?ref y = ?ref z \<Longrightarrow> ?ref y \<noteq> 0 \<Longrightarrow> y = z" for b y z
    using assms(1) unfolding heap_exact_def Let_def by blast+
  have unused: "?ref y \<noteq> a" if "a \<noteq> 0" for y using old(1) [of a] assms(7) that by blast
  have "pl_infos q b \<noteq> None \<longleftrightarrow> b \<noteq> 0 \<and> (\<exists>y. ?ref' y = b)" for b
  proof (cases "b = a")
    case True
    then show ?thesis using assms(2,3) by blast
  next
    case False
    have "(\<exists>y. ?ref' y = b) \<longleftrightarrow> (\<exists>y. ?ref y = b)" if "b \<noteq> 0"
      using False that assms(3,5,6) by metis
    then show ?thesis using old(1) [of b] assms(4) False by metis
  qed
  moreover have "y = z" if "?ref' y = ?ref' z" "?ref' y \<noteq> 0" for y z
    using that assms(3,5) old(2) [of y z] unused by metis
  ultimately show ?thesis unfolding heap_exact_def Let_def by blast
qed

lemma heap_exact_free:
  assumes "heap_exact p" and "bs_interfaceRef (pl_blits p x) = a" and "a \<noteq> 0" and "pl_infos q = (pl_infos p)(a := None)"
    and "\<forall>y. bs_interfaceRef (pl_blits q y) = (if y = x then 0 else bs_interfaceRef (pl_blits p y))"
  shows "heap_exact q"
proof -
  let ?ref = "\<lambda>x. bs_interfaceRef (pl_blits p x)"
  have old: "pl_infos p b \<noteq> None \<longleftrightarrow> b \<noteq> 0 \<and> (\<exists>y. ?ref y = b)" "?ref y = ?ref z \<Longrightarrow> ?ref y \<noteq> 0 \<Longrightarrow> y = z" for b y z
    using assms(1) unfolding heap_exact_def Let_def by blast+
  let ?ref' = "\<lambda>y. if y = x then 0 else ?ref y"
  have "pl_infos q b \<noteq> None \<longleftrightarrow> b \<noteq> 0 \<and> (\<exists>y. ?ref' y = b)" for b
  proof (cases "b = a")
    case True
    have "?ref' y \<noteq> a" for y using old(2) [of x y] assms(2,3) by auto
    then show ?thesis using True assms(4) by auto
  next
    case False
    then have "(\<exists>y. ?ref' y = b) \<longleftrightarrow> (\<exists>y. ?ref y = b)" if "b \<noteq> 0" using that assms(2) by metis
    then show ?thesis using False old(1) [of b] assms(4) by (metis fun_upd_other)
  qed
  then have "pl_infos q b \<noteq> None \<longleftrightarrow> b \<noteq> 0 \<and> (\<exists>y. bs_interfaceRef (pl_blits q y) = b)" for b using assms(5) by simp
  moreover have "y = z" if "bs_interfaceRef (pl_blits q y) = bs_interfaceRef (pl_blits q z)" "bs_interfaceRef (pl_blits q y) \<noteq> 0" for y z
    using that old(2) [of y z] assms(5) by (auto split: if_splits)
  ultimately show ?thesis unfolding heap_exact_def Let_def by blast
qed

lemma allocate_runs:
  assumes "kernel_returns S" and "heap_exact p" and "pl_ga p \<noteq> None" and "bs_interfaceRef (pl_blits p x) = 0" and "pl_infos p a = None"
  shows "runs (vmAllocateSurface S stale me a options x sid p) heap_exact"
proof (cases "\<exists>g. x \<noteq> 0 \<and> a \<noteq> 0 \<and> pl_ga p = Some g \<and> ga_ready me p = Some (Inr g) \<and>
    \<not> (ao_FixedSource options \<and> surface_too_large (ga_config_val_2 g) (pl_blits p x))")
  case False
  then show ?thesis
    using ready_cases [OF assms(3), of me] assms(2) by (auto simp: vmAllocateSurface_def)
next
  case True
  then obtain g where g: "x \<noteq> 0" "a \<noteq> 0" "ga_ready me p = Some (Inr g)"
    "\<not> (ao_FixedSource options \<and> surface_too_large (ga_config_val_2 g) (pl_blits p x))" by blast
  define p1 where "p1 = p\<lparr>pl_infos := (pl_infos p)(a \<mapsto> \<lparr>si_d0 = None, si_addr = 0,
    si_cgsSurfaceID = (if ao_HasCGSSurface options then sid else 0)\<rparr>)\<rparr>"
  define p2 where "p2 = set_blit x (\<lambda>b. b\<lparr>bs_interfaceRef := a\<rparr>) p1"
  have p2: "same_memory p2 p2" "pl_infos p2 a \<noteq> None" "bs_interfaceRef (pl_blits p2 x) = a"
    using assms(3) by (simp_all add: same_memory_def p2_def p1_def set_blit_def)
  have attach: "runs (attach_surface S stale options x g p2) (same_memory p2)"
    unfolding attach_surface_def
    by (rule runs_bind [OF set_surface_runs [OF assms(1) p2(1)]])
      (use g(1) p2(2,3) in \<open>auto intro!: runs_bind [where R = "same_memory p2"] runs_call [OF assms(1)]\<close>)
  have kept: "heap_exact (set_blit x (\<lambda>b. b\<lparr>bs_interfaceRef := a\<rparr>) q)" if "same_memory p2 q" for q
    by (rule heap_exact_fields [OF assms(2), where a = a and x = x])
      (use that assms(4,5) g(2) in \<open>auto simp: same_memory_def p2_def p1_def set_blit_def\<close>)
  have freed: "heap_exact (set_blit x (\<lambda>b. b\<lparr>bs_interfaceRef := 0\<rparr>) (q\<lparr>pl_infos := (pl_infos q)(a := None)\<rparr>))"
    if "same_memory p2 q \<or> q = p1" for q
  proof -
    have eq: "pl_infos q = (pl_infos p)(a \<mapsto> the (pl_infos p1 a))" "\<forall>y. y \<noteq> x \<longrightarrow> bs_interfaceRef (pl_blits q y) = bs_interfaceRef (pl_blits p y)"
      using that by (auto simp: same_memory_def p2_def p1_def set_blit_def)
    have "(pl_infos q)(a := None) = pl_infos p" unfolding eq(1) using assms(5) by (simp add: fun_upd_idem)
    moreover have "bs_interfaceRef (((pl_blits q)(x := (pl_blits q x)\<lparr>bs_interfaceRef := 0\<rparr>)) y) = bs_interfaceRef (pl_blits p y)" for y
      using eq(2) assms(4) by simp
    ultimately show ?thesis
      by (intro heap_exact_cong [OF _ _ assms(2)]) (auto simp: set_blit_def)
  qed
  have "runs (do { (rc, p) \<leftarrow> (if ao_HasCGSSurface options then attach_surface S stale options x g p2 else Some (kIOReturnUnsupported, p1));
      if rc = kIOReturnSuccess then Some (rc, set_blit x (\<lambda>b. b\<lparr>bs_interfaceRef := a\<rparr>) p)
      else do { p \<leftarrow> free_info a p; Some (rc, set_blit x (\<lambda>b. b\<lparr>bs_interfaceRef := 0\<rparr>) p) } }) heap_exact"
  proof (cases "ao_HasCGSSurface options")
    case True
    have "runs (if rc = kIOReturnSuccess then Some (rc, set_blit x (\<lambda>b. b\<lparr>bs_interfaceRef := a\<rparr>) q)
      else do { p \<leftarrow> free_info a q; Some (rc, set_blit x (\<lambda>b. b\<lparr>bs_interfaceRef := 0\<rparr>) p) }) heap_exact"
      if "same_memory p2 q" for q rc
    proof -
      have "pl_infos q a \<noteq> None" using that p2(2) by (simp add: same_memory_def)
      then show ?thesis using kept [OF that] freed [of q] that by (auto simp: free_info_def)
    qed
    from runs_bind [OF attach this] show ?thesis using True by simp
  next
    case False
    have "pl_infos p1 a \<noteq> None" by (simp add: p1_def)
    then show ?thesis using False freed by (auto simp: free_info_def)
  qed
  moreover have "(x = 0) = False" "(a = 0) = False" using g by simp_all
  moreover have "(ao_FixedSource options \<and> surface_too_large (ga_config_val_2 g) (pl_blits p x)) = False" using g(4) by simp
  ultimately show ?thesis
    unfolding p2_def p1_def by (simp only: vmAllocateSurface_def g(3) bind.simps sum.case if_False Let_def)
qed

lemma free_runs:
  assumes "kernel_returns S" and "heap_exact p" and "pl_ga p \<noteq> None"
  shows "runs (vmFreeSurface S stale me x p) heap_exact"
  using surface_ready_cases [OF assms(3,2), of me x]
proof (elim disjE exE conjE)
  fix g a si assume r: "pl_ga p = Some g" "x \<noteq> 0" "a = bs_interfaceRef (pl_blits p x)" "a \<noteq> 0" "pl_infos p a = Some si"
    "surface_ready me x p = Some (Inr (g, a, si))"
  define p1 where "p1 = p\<lparr>pl_infos := (pl_infos p)(a \<mapsto> si\<lparr>si_cgsSurfaceID := 0\<rparr>)\<rparr>"
  let ?like = "\<lambda>q. same_memory p q \<or> same_memory p1 q"
  have p1: "same_memory p1 p1" "same_memory p p" using assms(3) by (auto simp: same_memory_def p1_def)
  have first: "runs (if ga_surface g \<noteq> 0 then vmSetDestination S stale me False 0 p1 else Some (kIOReturnSuccess, p)) ?like"
    using runs_mono [OF set_surface_runs [OF assms(1) p1(1), of 0 0 stale me], of ?like] p1(2) by (simp add: vmSetDestination_def)
  have second: "runs (case si_d0 si of None \<Rightarrow> Some (rc, q) | Some i \<Rightarrow> do {
      (r, p) \<leftarrow> ga_call (sv_call S (ga_context g) (rq i)) q; Some (rp_rc r, p) }) ?like" if "?like q" for q rc rq
  proof (cases "si_d0 si")
    case (Some i)
    have "runs (ga_call (sv_call S (ga_context g) (rq i)) q) ?like"
      using that runs_mono [OF runs_call [OF assms(1)], of p q ?like] runs_mono [OF runs_call [OF assms(1)], of p1 q ?like] by blast
    then show ?thesis unfolding Some option.case by (rule runs_bind) simp
  qed (use that in simp)
  have third: "runs (do { p \<leftarrow> free_info a q; Some (rc, set_blit x (\<lambda>b. b\<lparr>bs_interfaceRef := 0\<rparr>) p) }) heap_exact" if "?like q" for q rc
  proof -
    have "pl_infos q a \<noteq> None" "(pl_infos q)(a := None) = (pl_infos p)(a := None)"
      using that r(5) by (auto simp: same_memory_def p1_def)
    moreover have "bs_interfaceRef (pl_blits q y) = bs_interfaceRef (pl_blits p y)" for y
      using that by (auto simp: same_memory_def p1_def)
    ultimately show ?thesis
      using heap_exact_free [OF assms(2) r(3) [symmetric] r(4), of "set_blit x (\<lambda>b. b\<lparr>bs_interfaceRef := 0\<rparr>) (q\<lparr>pl_infos := (pl_infos q)(a := None)\<rparr>)"]
      by (auto simp: free_info_def set_blit_def)
  qed
  show ?thesis
    unfolding vmFreeSurface_def r(6) bind.simps sum.case prod.case p1_def [symmetric]
    by (rule runs_bind [OF first], rule runs_bind [OF second], assumption, rule third)
qed (use assms(2) in \<open>simp add: vmFreeSurface_def\<close>)

text \<open>Everything else leaves the memory alone.\<close>

lemma runs_weaken: "runs m (same_memory p) \<Longrightarrow> heap_exact p \<Longrightarrow> runs m heap_exact"
  using same_memory_ok unfolding runs_def by blast

lemma close_returns: "kernel_returns S \<Longrightarrow> \<exists>k'. sv_close S ctx k = Some k'"
  unfolding kernel_returns_def by blast

lemma stop_runs:
  assumes "kernel_returns S" and "same_memory p q"
  shows "runs (vmStop S me q) (same_memory p)"
proof -
  obtain g where g: "pl_ga q = Some g" using assms(2) by (auto simp: same_memory_def)
  obtain k where "sv_close S (ga_context g) (pl_kernel q) = Some k" using close_returns [OF assms(1)] by blast
  then show ?thesis using assms(2) g by (auto simp: vmStop_def same_memory_def Let_def)
qed

lemma configs_runs:
  assumes "kernel_returns S" and "same_memory p q"
  shows "runs (start_configs S stale ctx q) (same_memory p)"
proof -
  have reset: "\<exists>rc. vmReset True q = Some rc" if "same_memory p q" for q using that by (auto simp: vmReset_def same_memory_def)
  have tail: "runs (do { rc \<leftarrow> vmReset True q; if rc \<noteq> kIOReturnSuccess then Some (rc, q)
      else do { (_, p) \<leftarrow> ga_call (ga_useAccelUpdates S ctx True) q; Some (rc, p) } }) (same_memory p)" if q: "same_memory p q" for q
    using reset [OF q] q by (auto intro!: runs_bind [where R = "same_memory p"] runs_helpers [OF assms(1)])
  show ?thesis
    unfolding start_configs_def
    by (rule runs_bind [OF runs_call [OF assms]])
      (auto simp: Let_def intro!: runs_bind [where R = "same_memory p"] runs_call [OF assms(1)] tail)
qed

text \<open>The end of \<open>vmStart\<close>: after a failure the connection is closed and the accelerator released.\<close>

lemma exit_runs:
  assumes "kernel_returns S" and "same_memory p q"
  shows "runs (start_exit S accelerator ctx rc q) (same_memory p)"
proof -
  obtain k where "sv_close S ctx (pl_kernel q) = Some k" using close_returns [OF assms(1)] by blast
  moreover obtain g where "pl_ga q = Some g" using assms(2) by (auto simp: same_memory_def)
  ultimately show ?thesis using assms(2) by (auto simp: start_exit_def same_memory_def)
qed

lemma start_runs:
  assumes "kernel_returns S" and "pl_ga p \<noteq> None"
  shows "runs (vmStart S stale me service p) (same_memory p)"
proof -
  have p: "same_memory p p" using assms(2) by (rule same_memory_refl)
  obtain g where g: "pl_ga p = Some g" using assms(2) by blast
  obtain rc acc fb k where f: "sv_find S (pl_kernel p) = ((rc, acc, fb), k)" by (metis prod.exhaust)
  obtain rc' ctx k' where o': "sv_open S acc k = ((rc', ctx), k')" by (metis prod.exhaust)
  let ?q = "(set_ga (\<lambda>g. g\<lparr>ga_framebufferIndex := fb\<rparr>) (p\<lparr>pl_kernel := k\<rparr>))\<lparr>pl_kernel := k'\<rparr>"
  have "runs (if rc' \<noteq> kIOReturnSuccess then Some (rc', ?q)
      else start_configs S stale ctx (set_ga (\<lambda>g. g\<lparr>ga_accelerator := acc, ga_context := ctx\<rparr>) ?q)) (same_memory p)"
    using configs_runs [OF assms(1)] p by simp
  then have "runs (do { (rc, p) \<leftarrow> (if rc' \<noteq> kIOReturnSuccess then Some (rc', ?q)
      else start_configs S stale ctx (set_ga (\<lambda>g. g\<lparr>ga_accelerator := acc, ga_context := ctx\<rparr>) ?q));
      start_exit S acc ctx rc p }) (same_memory p)"
    by (rule runs_bind [OF _ exit_runs [OF assms(1)]])
  then show ?thesis using p g f o' by (simp add: vmStart_def Let_def del: not_None_eq)
qed

lemma with_ready:
  assumes "pl_ga p \<noteq> None" and "\<And>g. runs (f g) (same_memory p)"
  shows "runs (do { g \<leftarrow> ga_ready me p; case g of Inl rc \<Rightarrow> Some (refused rc, p) | Inr g \<Rightarrow> f g }) (same_memory p)"
  using ready_cases [OF assms(1), of me] assms(2) same_memory_refl [OF assms(1)] by auto

lemma with_surface:
  assumes "pl_ga p \<noteq> None" and "heap_exact p" and "\<And>q. runs (f q) (same_memory p)"
  shows "runs (do { q \<leftarrow> surface_ready me x p; case q of Inl rc \<Rightarrow> Some (refused rc, p) | Inr q \<Rightarrow> f q }) (same_memory p)"
  using surface_ready_cases [OF assms(1,2), of me x] assms(3) same_memory_refl [OF assms(1)] by auto

lemma quiet_runs:
  assumes "kernel_returns S" and "pl_ga p \<noteq> None"
  shows "runs (vmGetCapabilities S me macrovision caps p) (same_memory p)" "runs (vmSynchronize S me flush x y w h p) (same_memory p)"
    "runs (vmWaitComplete S me options p) (same_memory p)" "runs (vmCopy S me copy rs p) (same_memory p)"
    "runs (vmFill S me copy color fs p) (same_memory p)" "runs (vmCopyRegion S me type0 source_type source operation p) (same_memory p)"
  using same_memory_refl [OF assms(2)]
  by (auto simp: vmGetCapabilities_def vmSynchronize_def vmWaitComplete_def vmCopy_def vmFill_def vmCopyRegion_def Let_def
      intro!: with_ready [OF assms(2), where refused = "\<lambda>rc. rc"] runs_bind [where R = "same_memory p"] runs_call [OF assms(1)] runs_helpers [OF assms(1)]
      split: option.split)

lemma surface_runs:
  assumes "kernel_returns S" and "pl_ga p \<noteq> None" and "heap_exact p"
  shows "runs (vmWaitSurface S me x p) (same_memory p)" "runs (vmSwapSurface S stale me options x p) (same_memory p)"
    "runs (vmUnlockSurface S stale me options x p) (same_memory p)" "runs (vmLockSurface S stales me options x given p) (same_memory p)"
proof -
  note p = same_memory_refl [OF assms(2)]
  note ws = with_surface [OF assms(2,3)] and rb = runs_bind [where R = "same_memory p"] and rc = runs_call [OF assms(1)]
  show "runs (vmWaitSurface S me x p) (same_memory p)"
    unfolding vmWaitSurface_def by (rule ws) (auto simp: p intro!: rb rc split: option.split prod.split)
  show "runs (vmSwapSurface S stale me options x p) (same_memory p)"
    unfolding vmSwapSurface_def by (rule ws) (auto simp: p intro!: rb rc split: prod.split)
  show "runs (vmUnlockSurface S stale me options x p) (same_memory p)"
    unfolding vmUnlockSurface_def by (rule ws) (auto simp: p intro!: rb rc split: prod.split)
  show "runs (vmLockSurface S stales me options x given p) (same_memory p)"
  proof (cases given)
    case True
    have "runs (do { q \<leftarrow> surface_ready me x p; case q of Inl rc \<Rightarrow> Some ((rc, None), p)
       | Inr (g, a, si) \<Rightarrow>
           if si_addr si \<noteq> 0 then Some ((kIOReturnSuccess, Some (si_addr si)), p)
           else do {
             (r, p) \<leftarrow> ga_call (sv_call S (ga_context g) \<lparr>rq_selector = kIOVM2DLockMemory, rq_scalars = [ucast options], rq_struct = No_struct,
               rq_out_scalars = 0, rq_out_size = 16\<rparr>) p;
             if rp_rc r \<noteq> kIOReturnSuccess then Some ((rp_rc r, None), p)
             else let out = (case rp_struct r of Quads_out qs \<Rightarrow> qs @ drop (length qs) stales | _ \<Rightarrow> stales)
             in Some ((kIOReturnSuccess, Some (out ! 0)), set_blit x (\<lambda>b. b\<lparr>bs_rowBytes := ucast (out ! 1), bs_accessFlags := 2\<rparr>) p)
           } }) (same_memory p)"
      by (rule ws) (auto simp: p Let_def intro!: rb rc split: prod.split)
    with True show ?thesis by (simp add: vmLockSurface_def)
  qed (simp add: vmLockSurface_def p)
qed

lemma call_runs:
  assumes "kernel_returns S" and "heap_exact p" and "client_ok c p"
  shows "runs (ga_do S c p) heap_exact"
proof -
  have ga: "pl_ga p \<noteq> None" using assms(3) by (cases c) auto
  note p = same_memory_refl [OF ga]
  note k = runs_weaken [OF _ assms(2)]
  show ?thesis
  proof (cases c)
    case (Ga_Release me)
    then show ?thesis using assms(2) ga by (auto simp: vmRelease_def deallocGAType_def Let_def heap_exact_def runs_def)
  next
    case (Ga_AllocateSurface stale me a options x sid)
    then show ?thesis using allocate_runs [OF assms(1,2)] assms(3) by simp
  next
    case (Ga_SetDestination stale me surface_destination x)
    have "bs_interfaceRef (pl_blits p x) \<noteq> 0 \<longrightarrow> pl_infos p (bs_interfaceRef (pl_blits p x)) \<noteq> None" for x
      using assms(2) unfolding heap_exact_def Let_def by blast
    then show ?thesis
      using Ga_SetDestination assms(3) k [OF set_surface_runs [OF assms(1) p, of "if surface_destination then 0x800 else 0" x stale me]]
      by (auto simp: vmSetDestination_def split: if_splits)
  next
    case (Ga_SetSurface stale me options x)
    have "bs_interfaceRef (pl_blits p x) \<noteq> 0 \<longrightarrow> pl_infos p (bs_interfaceRef (pl_blits p x)) \<noteq> None" for x
      using assms(2) unfolding heap_exact_def Let_def by blast
    then show ?thesis
      using Ga_SetSurface assms(3) k [OF set_surface_runs [OF assms(1) p, of options x stale me]] by auto
  next
    case (Ga_FreeSurface stale me x)
    then show ?thesis using free_runs [OF assms(1,2) ga] by simp
  next
    case (Ga_LockSurface stale me options x given)
    then show ?thesis using k [OF surface_runs(4) [OF assms(1) ga assms(2)]] by (simp add: split_def runs_def) blast
  next
    case (Ga_UnlockSurface stale me options x)
    then show ?thesis using k [OF surface_runs(3) [OF assms(1) ga assms(2)]] by (simp add: split_def runs_def) blast
  next
    case (Ga_SwapSurface stale me options x)
    then show ?thesis using k [OF surface_runs(2) [OF assms(1) ga assms(2)]] by (simp add: split_def runs_def) blast
  next
    case (Ga_Start stale me service)
    show ?thesis unfolding Ga_Start ga_do.simps by (rule k [OF start_runs [OF assms(1) ga]])
  next
    case (Ga_Stop me)
    show ?thesis unfolding Ga_Stop ga_do.simps by (rule k [OF stop_runs [OF assms(1) p]])
  next
    case (Ga_WaitSurface me x)
    show ?thesis unfolding Ga_WaitSurface ga_do.simps by (rule k [OF surface_runs(1) [OF assms(1) ga assms(2)]])
  next
    case (Ga_GetCapabilities me macrovision caps)
    show ?thesis unfolding Ga_GetCapabilities ga_do.simps by (rule k [OF quiet_runs(1) [OF assms(1) ga]])
  next
    case (Ga_Synchronize me flush x y w h)
    show ?thesis unfolding Ga_Synchronize ga_do.simps by (rule k [OF quiet_runs(2) [OF assms(1) ga]])
  next
    case (Ga_WaitComplete me options)
    show ?thesis unfolding Ga_WaitComplete ga_do.simps by (rule k [OF quiet_runs(3) [OF assms(1) ga]])
  next
    case (Ga_Copy me copy rs)
    show ?thesis unfolding Ga_Copy ga_do.simps by (rule k [OF quiet_runs(4) [OF assms(1) ga]])
  next
    case (Ga_Fill me copy color fs)
    show ?thesis unfolding Ga_Fill ga_do.simps by (rule k [OF quiet_runs(5) [OF assms(1) ga]])
  next
    case (Ga_CopyRegion me type0 source_type source operation)
    show ?thesis unfolding Ga_CopyRegion ga_do.simps by (rule k [OF quiet_runs(6) [OF assms(1) ga]])
  next
    case (Ga_AddRef me)
    then show ?thesis using assms(2) ga by (auto simp: vmAddRef_def heap_exact_def)
  next
    case (Ga_QueryInterface me known)
    then show ?thesis using assms(2) ga by (auto simp: vmQueryInterface_def vmAddRef_def heap_exact_def)
  next
    case (Ga_Reset me)
    then show ?thesis using assms(2) ga by (auto simp: vmReset_def)
  qed
qed

lemma run_exact: "\<forall>(S, c) \<in> set cs. kernel_returns S \<Longrightarrow> heap_exact p \<Longrightarrow> \<exists>q. ga_run cs p = Some q \<and> heap_exact q"
proof (induction cs arbitrary: p)
  case (Cons sc cs)
  obtain S c where sc: "sc = (S, c)" by fastforce
  show ?case
  proof (cases "client_ok c p")
    case True
    then obtain rc q where "ga_do S c p = Some (rc, q)" "heap_exact q"
      using call_runs [of S p c] Cons.prems sc by (auto simp: runs_def)
    then show ?thesis using Cons.IH [of q] Cons.prems(1) sc True by auto
  qed (use Cons sc in auto)
qed simp

text \<open>The plug-in when the factory has made the instance, with surfaces that nobody has allocated yet.\<close>

definition plugin_new :: "(nat \<Rightarrow> blit_surface) \<Rightarrow> 'k \<Rightarrow> 'k plugin" where
  "plugin_new b k = snd (VMsvga2GAFactory True True \<lparr>pl_ga = None, this_ga = False, this_ga_ctx = 0, pl_registered = 0,
     pl_blits = (\<lambda>x. (b x)\<lparr>bs_interfaceRef := 0\<rparr>), pl_infos = Map.empty, pl_kernel = k\<rparr>)"

text \<open>C15: The plug-in never uses or frees memory that is not allocated and never loses any: whatever a client calls that
  allocates only surfaces that are not allocated, names a surface where it must and stops when it has given back its
  reference, and whatever the kernel answers, success or failure of every kind, each call returns, and in the end the
  blocks on the heap are exactly those that the surfaces in use refer to, one each.\<close>

theorem plugin_memory_exact:
  assumes "\<forall>(S, c) \<in> set cs. kernel_returns S"
  shows "\<exists>q. ga_run cs (plugin_new b k) = Some q \<and> heap_exact q"
  by (rule run_exact [OF assms]) (auto simp: plugin_new_def VMsvga2GAFactory_def allocGAType_def heap_exact_def)

text \<open>A kernel that grants everything and logs what is closed.\<close>

definition generous :: "nat list services" where
  "generous = \<lparr>sv_find = \<lambda>k. ((kIOReturnSuccess, 5, 0), k), sv_open = \<lambda>_ k. ((kIOReturnSuccess, 7), k),
     sv_call = \<lambda>_ rq k. Some (\<lparr>rp_rc = kIOReturnSuccess, rp_scalars = [0, 0],
       rp_struct = (if rq_selector rq = 5 then Quads_out [4096, 64] else Words_out [0, 0, 0])\<rparr>, k),
     sv_close = \<lambda>ctx k. Some (ctx # k), sv_release = \<lambda>_ k. k\<rparr>"

definition busy_client :: "(nat list services \<times> plugin_call) list" where
  "busy_client = map (Pair generous)
     [Ga_Start (0, 0) True True, Ga_AllocateSurface (0, [0, 0, 0]) True 64 \<lparr>ao_HasCGSSurface = True, ao_FixedSource = False, ao_word = 0\<rparr> 8 2,
      Ga_LockSurface [0, 0] True 0 8 True, Ga_FreeSurface (0, [0, 0, 0]) True 8, Ga_Stop True, Ga_Release True]"

definition blank_surfaces :: "nat \<Rightarrow> blit_surface" where
  "blank_surfaces = (\<lambda>_. \<lparr>bs_pixelFormat = 0, bs_width = 0, bs_height = 0, bs_rowBytes = 0, bs_accessFlags = 0, bs_interfaceRef = 0\<rparr>)"

lemma plugin_memory_exact_witness:
  "\<exists>q. ga_run busy_client (plugin_new blank_surfaces []) = Some q \<and> heap_exact q \<and> pl_infos q 64 = None \<and> pl_kernel q = [7]"
proof -
  have "\<forall>(S, c) \<in> set busy_client. kernel_returns S" by (simp add: busy_client_def kernel_returns_def generous_def)
  from plugin_memory_exact [OF this, of blank_surfaces "[]"] obtain q where q: "ga_run busy_client (plugin_new blank_surfaces []) = Some q" "heap_exact q" by blast
  moreover have "pl_infos q 64 = None \<and> pl_kernel q = [7]"
    using q(1)
    by (simp add: busy_client_def plugin_new_def VMsvga2GAFactory_def allocGAType_def vmStart_def generous_def start_configs_def start_exit_def
        ga_call_def set_ga_def vmReset_def ga_useAccelUpdates_def Let_def scalar_out_def vmAllocateSurface_def ga_ready_def set_blit_def
        attach_surface_def vmSetSurface_def surface_target_def words_out_def vmLockSurface_def surface_ready_def vmFreeSurface_def
        vmSetDestination_def free_info_def vmStop_def vmRelease_def deallocGAType_def format_options_def blank_surfaces_def)
      auto
  ultimately show ?thesis by blast
qed

section \<open>A start that fails\<close>

lemma configs_handles:
  assumes "start_configs S stale ctx p = Some (rc, q)" and "pl_ga p = Some g"
  shows "\<exists>g'. pl_ga q = Some g' \<and> ga_context g' = ga_context g \<and> ga_accelerator g' = ga_accelerator g"
  using assms
  by (auto simp: start_configs_def ga_call_def set_ga_def ga_useAccelUpdates_def vmReset_def Let_def split: bind_splits if_splits)

text \<open>C17: A start that fails after the connection was opened closes it and releases the accelerator, but the instance keeps
  both handles: the stop that follows closes the same connection and releases the same accelerator a second time.\<close>

theorem failed_start_closed_twice:
  assumes "sv_find S (pl_kernel p) = ((kIOReturnSuccess, acc, fb), k1)" and "sv_open S acc k1 = ((kIOReturnSuccess, ctx), k2)"
    and "acc \<noteq> 0" and "ctx \<noteq> 0" and "vmStart S stale True True p = Some (rc, q)" and "rc \<noteq> kIOReturnSuccess"
    and "sv_close S ctx (pl_kernel q) = Some closed"
  shows "\<exists>k3 k4 r. sv_close S ctx k3 = Some k4 \<and> pl_kernel q = sv_release S acc k4 \<and>
    vmStop S True q = Some (kIOReturnSuccess, r) \<and> pl_kernel r = sv_release S acc closed"
proof -
  obtain g where g: "pl_ga p = Some g" using assms(5) by (auto simp: vmStart_def split: bind_splits)
  obtain m where m: "start_configs S stale ctx (p\<lparr>pl_kernel := k2, pl_ga := Some (g\<lparr>ga_framebufferIndex := fb, ga_accelerator := acc, ga_context := ctx\<rparr>)\<rparr>) = Some (rc, m)"
    "start_exit S acc ctx rc m = Some (rc, q)"
    using assms(1,2,5) g by (auto simp: vmStart_def Let_def set_ga_def start_exit_def split: bind_splits if_splits)
  from configs_handles [OF m(1)] obtain g' where g': "pl_ga m = Some g'" "ga_context g' = ctx" "ga_accelerator g' = acc" by auto
  obtain k4 where k4: "sv_close S ctx (pl_kernel m) = Some k4" "pl_kernel q = sv_release S acc k4" "pl_ga q = Some g'"
    using m(2) assms(3,4,6) g' by (auto simp: start_exit_def split: bind_splits)
  then show ?thesis using assms(3,4,7) g' by (auto simp: vmStop_def Let_def)
qed

lemma failed_start_closed_twice_witness:
  "\<exists>q r. vmStart (generous\<lparr>sv_call := \<lambda>_ _ k. Some (\<lparr>rp_rc = kIOReturnUnsupported, rp_scalars = [], rp_struct = No_out\<rparr>, k)\<rparr>) (0, 0) True True
      (plugin_new blank_surfaces []) = Some (kIOReturnUnsupported, q) \<and>
    pl_kernel q = [7] \<and>
    vmStop (generous\<lparr>sv_call := \<lambda>_ _ k. Some (\<lparr>rp_rc = kIOReturnUnsupported, rp_scalars = [], rp_struct = No_out\<rparr>, k)\<rparr>) True q =
      Some (kIOReturnSuccess, r) \<and> pl_kernel r = [7, 7]"
proof -
  let ?S = "generous\<lparr>sv_call := \<lambda>_ _ k. Some (\<lparr>rp_rc = kIOReturnUnsupported, rp_scalars = [], rp_struct = No_out\<rparr>, k)\<rparr>"
  have "\<exists>q. vmStart ?S (0, 0) True True (plugin_new blank_surfaces []) = Some (kIOReturnUnsupported, q) \<and> pl_kernel q = [7]"
    by (simp add: plugin_new_def VMsvga2GAFactory_def allocGAType_def vmStart_def generous_def start_configs_def start_exit_def ga_call_def
        set_ga_def Let_def)
  then obtain q where q: "vmStart ?S (0, 0) True True (plugin_new blank_surfaces []) = Some (kIOReturnUnsupported, q)" "pl_kernel q = [7]" by blast
  from failed_start_closed_twice [OF _ _ _ _ q(1), where acc = 5 and fb = 0 and ctx = 7 and closed = "[7, 7]"] q(2)
  obtain r where "vmStop ?S True q = Some (kIOReturnSuccess, r)" "pl_kernel r = [7, 7]"
    by (auto simp: generous_def plugin_new_def VMsvga2GAFactory_def allocGAType_def)
  with q show ?thesis by blast
qed

section \<open>The plug-in on the 2D context\<close>

text \<open>
  The kernel the plug-in has: one accelerator, and a connection to a 2D context among the surfaces of a desk.  A call is
  checked against the dispatch table and delivered; a call on a closed connection is refused.
\<close>

record connection =
  cn_context :: "context2d option"
  cn_desk :: desk

definition context_call :: "host \<Rightarrow> kit \<Rightarrow> bool \<Rightarrow> (u64 \<Rightarrow> bool) \<Rightarrow> request \<Rightarrow> connection \<Rightarrow> (reply \<times> connection) option" where
  "context_call h k u fixed rq n =
    (case cn_context n of None \<Rightarrow> Some (answer kIOReturnNotReady [] No_out, n)
     | Some c \<Rightarrow>
         (case getTargetAndMethodForIndex True (rq_selector rq) c of None \<Rightarrow> Some (answer kIOReturnUnsupported [] No_out, n)
          | Some (m, shape) \<Rightarrow>
              if \<not> accepts shape rq then Some (answer kIOReturnBadArgument [] No_out, n)
              else map_option (\<lambda>(r, c, w). (r, \<lparr>cn_context = Some c, cn_desk = w\<rparr>)) (serve h k u fixed m rq c (cn_desk n))))"

definition context_services :: "host \<Rightarrow> kit \<Rightarrow> bool \<Rightarrow> (u64 \<Rightarrow> bool) \<Rightarrow> nat \<Rightarrow> connection services" where
  "context_services h k u fixed task =
    \<lparr>sv_find = \<lambda>n. ((kIOReturnSuccess, 1, 0), n),
     sv_open = \<lambda>_ n. ((kIOReturnSuccess, 1), n\<lparr>cn_context := Some (new_context task)\<rparr>),
     sv_call = \<lambda>_. context_call h k u fixed,
     sv_close = \<lambda>_ n. (case cn_context n of None \<Rightarrow> Some n
       | Some c \<Rightarrow> map_option (\<lambda>(_, _, w). \<lparr>cn_context = None, cn_desk = w\<rparr>) (td_clientClose h c (cn_desk n))),
     sv_release = \<lambda>_ n. n\<rparr>"

text \<open>The identity of a surface, which only \<open>set_id_mode\<close> changes.\<close>

definition id_fields :: "surface \<Rightarrow> bool \<times> u32" where
  "id_fields s = (bHaveID s, m_wID s)"

lemma id_fields_simps [simp]:
  "id_fields (s\<lparr>m_backing := b\<rparr>) = id_fields s" "id_fields (set_vtb t s) = id_fields s"
  "id_fields (set_fence f s) = id_fields s" "id_fields (releaseBackingMap i s) = id_fields s"
  "id_fields (s\<lparr>m_video_unit := u\<rparr>) = id_fields s" "id_fields (s\<lparr>m_stream_id := j\<rparr>) = id_fields s"
  "id_fields (s\<lparr>m_scale := c\<rparr>) = id_fields s" "id_fields (calculateScaleParameters g s) = id_fields s"
  "id_fields (s\<lparr>bIsLocked := l\<rparr>) = id_fields s" "id_fields (release_lock n s) = id_fields s"
  "id_fields (s\<lparr>bVideoMode := v\<rparr>) = id_fields s" "id_fields (s\<lparr>m_surfaceFormat := g'\<rparr>) = id_fields s"
  "id_fields (s\<lparr>m_bytes_per_pixel := n'\<rparr>) = id_fields s" "id_fields (s\<lparr>m_pixel_format := p\<rparr>) = id_fields s"
  "id_fields (s\<lparr>m_video_format := f'\<rparr>) = id_fields s" "id_fields (s\<lparr>bHaveScreen := b'\<rparr>) = id_fields s"
  "id_fields (s\<lparr>bHaveMasterSurface := b'\<rparr>) = id_fields s" "id_fields (s\<lparr>bDirectBlit := b'\<rparr>) = id_fields s"
  by (simp_all add: id_fields_def set_vtb_def set_fence_def releaseBackingMap_def calculateScaleParameters_def release_lock_def Let_def
      split: option.split prod.split)

lemma backing_id_fields:
  "complete_backing h s a = Some (s', a') \<Longrightarrow> id_fields s' = id_fields s"
  "releaseBacking h s a = Some (s', a') \<Longrightarrow> id_fields s' = id_fields s"
  "prepare_backing h k md mark s a = Some (ok, s', a') \<Longrightarrow> id_fields s' = id_fields s"
  by (auto simp: complete_backing_def releaseBacking_def prepare_backing_def Let_def split: bind_splits if_splits)

lemma allocBacking_id_fields: "allocBacking h k s a = Some (ok, s', a') \<Longrightarrow> id_fields s' = id_fields s"
  by (auto simp: allocBacking_def wrapClientBacking_def allocGMRBacking_def Let_def dest!: backing_id_fields
      split: bind_splits if_splits option.splits)

lemma back_and_map_id_fields: "back_and_map h k task i s a = Some (ok, s', a') \<Longrightarrow> id_fields s' = id_fields s"
  using allocBacking_id_fields [of h k s a]
  by (fastforce simp: back_and_map_def mapBacking_def split_def Let_def split: bind_splits if_splits)

lemma video_id_fields: "surface_video_off h s a = Some (s', a') \<Longrightarrow> id_fields s' = id_fields s"
  by (auto simp: surface_video_off_def split_def Let_def split: bind_splits if_splits)

lemma surface_3D_id_fields:
  "Start3D h k s a = Some (s', a') \<Longrightarrow> id_fields s' = id_fields s"
  "Cleanup3D h s a = Some (s', a') \<Longrightarrow> id_fields s' = id_fields s"
  by (auto simp: Start3D_def Cleanup3D_def Let_def split: bind_splits if_splits)

lemma set_surface_id_fields: "context_set_surface h k v p s a = Some (rc, s', a') \<Longrightarrow> id_fields s' = id_fields s"
  by (auto simp: context_set_surface_def Let_def dest!: video_id_fields surface_3D_id_fields split: bind_splits if_splits)

lemma scale_id_fields: "context_scale_surface fixed x y s = (rc, s') \<Longrightarrow> id_fields s' = id_fields s"
  by (auto simp: context_scale_surface_def split: if_splits)

text \<open>The address a lock gives is that of the mapping of the locked surface.\<close>

lemma context_lock_address:
  assumes "context_lock_memory h k task True s a m = Some ((kIOReturnSuccess, Some (addr, row)), s', a', m')"
  shows "id_fields s' = id_fields s \<and> (\<exists>f. bk_map (m_backing s') 1 = Some f \<and> addr = map_address f)"
proof -
  let ?s = "s\<lparr>bIsLocked := snd (OSTestAndSet 2 (bIsLocked s))\<rparr>"
  have run: "context_lock_backing h k task ?s a m = Some ((kIOReturnSuccess, Some (addr, row)), s', a', m')"
    using assms by (auto simp: context_lock_memory_def split_def Let_def split: if_splits)
  obtain t b where t: "back_and_map h k task 1 ?s a = Some (True, t, b)"
    "s' = t \<or> s' = fst (snd (setup_trick_buffer k t m))" "\<exists>f. bk_map (m_backing s') 1 = Some f \<and> addr = map_address f"
    using run by (auto simp: context_lock_backing_def split_def Let_def split: if_splits bind_splits)
  have "id_fields s' = id_fields t" using t(2) trick_frame [of k t m] by auto
  then show ?thesis using back_and_map_id_fields [OF t(1)] t(3) by simp
qed

lemma find_surface_id:
  assumes "find_surface wid w = Some i"
  shows "\<exists>s. surfaces w i = Some s \<and> id_fields s = (True, wid)"
proof -
  have f: "fold (\<lambda>(v, c) found. if v = Some wid then Some c else found) xs found = Some i \<Longrightarrow> found = Some i \<or> (Some wid, i) \<in> set xs"
    for xs :: "(u32 option \<times> nat) list" and found
    by (induction xs arbitrary: found) (fastforce split: if_splits)+
  show ?thesis
    using f [OF assms [unfolded find_surface_def findSurfaceForID_def]] by (auto simp: id_fields_def split: option.splits if_splits)
qed

text \<open>The target of the context is a surface with the identity.\<close>

definition targets :: "u32 \<Rightarrow> connection \<Rightarrow> bool" where
  "targets wid n \<longleftrightarrow> (\<exists>c i s. cn_context n = Some c \<and> bTargetIsCGSSurface c \<and> m_surface_client c = Some i \<and>
     surfaces (cn_desk n) i = Some s \<and> id_fields s = (True, wid))"

lemma set_surface_targets:
  assumes "td_set_surface h k i options True c w = Some (kIOReturnSuccess, c', w')" and "options AND 0x800 \<noteq> 0"
  shows "targets (ucast i) \<lparr>cn_context = Some c', cn_desk = w'\<rparr>"
proof -
  obtain d v where d: "drop_surface c w = (d, v)" by fastforce
  let ?d = "d\<lparr>bTargetIsCGSSurface := True\<rparr>"
  obtain e x where l: "locateSurface (ucast i) ?d v = (kIOReturnSuccess, e, x)"
    and more: "m_surface_client e \<noteq> None"
    and run: "\<exists>j f p. m_surface_client e = Some j \<and> c' = e \<and> on_surface j (\<lambda>s a m. do { (rc, s, a) \<leftarrow> context_set_surface h k f p s a; Some (rc, s, a, m) }) x = Some (kIOReturnSuccess, w')"
    using assms d by (auto simp: td_set_surface_def Let_def split: if_splits option.splits bind_splits prod.splits)
  from l obtain j where j: "find_surface (ucast i) v = Some j" "e = ?d\<lparr>m_surface_client := Some j\<rparr>" "x = retain_surface j v"
    by (auto simp: locateSurface_def split: if_splits option.splits)
  obtain s where s: "surfaces v j = Some s" "id_fields s = (True, ucast i)" using find_surface_id [OF j(1)] by blast
  show ?thesis
    using run j(2,3) s set_surface_id_fields unfolding targets_def
    by (fastforce simp: on_surface_def retain_surface_def split: bind_splits)
qed

text \<open>The calls on the connection.\<close>

lemma table_simps [simp]:
  "length iofbFuncsCache = 25" "iofbFuncsCache ! 0 = (M_set_surface, ScalarIStructO 2 None)"
  "iofbFuncsCache ! 4 = (M_scale_surface, ScalarIScalarO 3 0)" "iofbFuncsCache ! 5 = (M_lock_memory, ScalarIStructO 1 None)"
  "iofbFuncsCache ! 17 = (M_read_config_Ex, StructIStructO None None)"
  by (simp_all add: iofbFuncsCache_def)

lemma answer_success [simp]: "rp_rc (answer rc vs out) = rc"
  by (simp add: answer_def)

lemma call_set_surface:
  assumes "context_call h k u fixed \<lparr>rq_selector = 0, rq_scalars = [i, o'], rq_struct = No_struct, rq_out_scalars = 0, rq_out_size = z\<rparr> n = Some (r, n')"
    and "rp_rc r = kIOReturnSuccess" and "o' AND 0x800 \<noteq> 0"
  shows "targets (ucast i) n'"
  using assms set_surface_targets
  by (auto simp: context_call_def getTargetAndMethodForIndex_def fits_def serve_set_surface_def split: option.splits)

lemma call_read_config:
  assumes "context_call h k u fixed \<lparr>rq_selector = 17, rq_scalars = [], rq_struct = Words_in ws, rq_out_scalars = 0, rq_out_size = z\<rparr> n = Some (r, n')"
  shows "n' = n"
  using assms
  by (auto simp: context_call_def getTargetAndMethodForIndex_def fits_def serve_read_config_Ex_def split_def Let_def split: option.splits)

lemma call_scale:
  assumes "context_call h k u fixed \<lparr>rq_selector = 4, rq_scalars = [i, x, y], rq_struct = No_struct, rq_out_scalars = 0, rq_out_size = 0\<rparr> n = Some (r, n')"
    and "targets wid n"
  shows "targets wid n'"
proof -
  obtain c j s where c: "cn_context n = Some c" "bTargetIsCGSSurface c" "m_surface_client c = Some j" "surfaces (cn_desk n) j = Some s"
    "id_fields s = (True, wid)"
    using assms(2) by (auto simp: targets_def)
  have "n' = \<lparr>cn_context = Some c, cn_desk = (cn_desk n)\<lparr>surfaces := (surfaces (cn_desk n))(j \<mapsto> snd (context_scale_surface (fixed i) (ucast x) (ucast y) s))\<rparr>\<rparr>"
    using assms(1) c
    by (auto simp: context_call_def getTargetAndMethodForIndex_def fits_def plain_def td_scale_surface_def target_surface_def on_surface_def Let_def split_def)
  then show ?thesis
    using c scale_id_fields [of "fixed i" "ucast x" "ucast y" s] by (cases "context_scale_surface (fixed i) (ucast x) (ucast y) s") (auto simp: targets_def)
qed

lemma call_lock:
  assumes "context_call h k u fixed \<lparr>rq_selector = 5, rq_scalars = [o'], rq_struct = No_struct, rq_out_scalars = 0, rq_out_size = 16\<rparr> n = Some (r, n')"
    and "targets wid n" and "rp_rc r = kIOReturnSuccess"
  shows "\<exists>i s f row. surfaces (cn_desk n') i = Some s \<and> id_fields s = (True, wid) \<and> bk_map (m_backing s) 1 = Some f \<and>
    rp_struct r = Quads_out [map_address f, row]"
proof -
  obtain c j s where c: "cn_context n = Some c" "bTargetIsCGSSurface c" "m_surface_client c = Some j" "surfaces (cn_desk n) j = Some s"
    "id_fields s = (True, wid)"
    using assms(2) by (auto simp: targets_def)
  obtain q t a m where l: "context_lock_memory h k (td_task c) True s (desk_accel (cn_desk n)) (desk_memory (cn_desk n)) = Some ((kIOReturnSuccess, q), t, a, m)"
    "surfaces (cn_desk n') j = Some t" "rp_struct r = (case q of None \<Rightarrow> No_out | Some (addr, rowbytes) \<Rightarrow> Quads_out [addr, ucast rowbytes])"
    using assms(1,3) c
    by (auto simp: context_call_def getTargetAndMethodForIndex_def fits_def serve_lock_memory_def td_lock_memory_def target_surface_def on_surface_def answer_def
        split: bind_splits)
  have "q \<noteq> None"
    using l(1) by (auto simp: context_lock_memory_def context_lock_backing_def split_def Let_def split: if_splits bind_splits)
  then obtain addr row where q: "q = Some (addr, row)" by fastforce
  from context_lock_address [OF l(1) [unfolded q]] c(5) l(2,3) q show ?thesis by auto
qed

lemma format_bits: "ucast (0x800 OR format_options f) AND (0x800 :: u64) \<noteq> 0"
  by (simp add: format_options_def)

lemma context_services_simps [simp]:
  "sv_call (context_services h k u fixed task) ctx = context_call h k u fixed"
  by (simp add: context_services_def)

text \<open>Setting a target, and an allocation, that succeed leave the window's surface as the target.\<close>

lemma set_surface_is_target:
  assumes "vmSetSurface (context_services h k u fixed task) stale True 0x800 x p = Some (kIOReturnSuccess, q)"
    and "x \<noteq> 0" and "pl_infos p (bs_interfaceRef (pl_blits p x)) = Some \<lparr>si_d0 = None, si_addr = 0, si_cgsSurfaceID = sid\<rparr>"
  shows "targets (ucast sid) (pl_kernel q)"
proof -
  obtain g where g: "pl_ga p = Some g" using assms(1) by (cases "pl_ga p") (auto simp: vmSetSurface_def ga_ready_def)
  let ?o = "ucast (0x800 OR format_options (bs_pixelFormat (pl_blits p x))) :: u64"
  obtain r n where c: "context_call h k u fixed \<lparr>rq_selector = 0, rq_scalars = [sid, ?o], rq_struct = No_struct, rq_out_scalars = 0, rq_out_size = 44\<rparr>
      (pl_kernel p) = Some (r, n)" "rp_rc r = kIOReturnSuccess"
    "\<exists>r' n'. context_call h k u fixed \<lparr>rq_selector = 17, rq_scalars = [], rq_struct = Words_in [288, fst stale], rq_out_scalars = 0, rq_out_size = 12\<rparr>
      n = Some (r', n') \<and> pl_kernel q = n'"
    using assms g
    by (auto simp: vmSetSurface_def ga_ready_def surface_target_def ga_call_def set_ga_def Let_def split: if_splits bind_splits option.splits)
  have "targets (ucast sid) n" using call_set_surface [OF c(1,2) format_bits] .
  then show ?thesis using c(3) call_read_config by blast
qed

lemma attach_is_target:
  assumes "attach_surface (context_services h k u fixed task) stale options x g p = Some (kIOReturnSuccess, q)"
    and "x \<noteq> 0" and "pl_infos p (bs_interfaceRef (pl_blits p x)) = Some \<lparr>si_d0 = None, si_addr = 0, si_cgsSurfaceID = sid\<rparr>"
  shows "targets (ucast sid) (pl_kernel q)"
proof -
  obtain rc v where v: "vmSetSurface (context_services h k u fixed task) stale True 0x800 x p = Some (rc, v)"
    using assms(1) by (auto simp: attach_surface_def split: bind_splits)
  then have rc: "rc = kIOReturnSuccess" using assms(1) by (auto simp: attach_surface_def split: if_splits bind_splits)
  have t: "targets (ucast sid) (pl_kernel v)" using set_surface_is_target [OF v [unfolded rc] assms(2,3)] .
  show ?thesis
    using assms(1) v rc t call_scale
    by (fastforce simp: attach_surface_def ga_call_def Let_def split: if_splits bind_splits)
qed

lemma ga_ready_error: "ga_ready me p = Some (Inl rc) \<Longrightarrow> rc \<noteq> kIOReturnSuccess"
  by (cases "pl_ga p") (auto simp: ga_ready_def split: if_splits)

lemma allocate_is_target:
  assumes "vmAllocateSurface (context_services h k u fixed task) stale me a options x sid p = Some (kIOReturnSuccess, q)"
  shows "targets (ucast sid) (pl_kernel q)"
proof -
  have x: "x \<noteq> 0" using assms by (cases "x = 0") (auto simp: vmAllocateSurface_def)
  then obtain g where g: "ga_ready me p = Some (Inr g)"
    using assms x ga_ready_error [of me p] by (cases "ga_ready me p") (auto simp: vmAllocateSurface_def split: sum.splits)
  let ?p = "set_blit x (\<lambda>b. b\<lparr>bs_interfaceRef := a\<rparr>)
    (p\<lparr>pl_infos := (pl_infos p)(a \<mapsto> \<lparr>si_d0 = None, si_addr = 0, si_cgsSurfaceID = sid\<rparr>)\<rparr>)"
  obtain v where v: "attach_surface (context_services h k u fixed task) stale options x g ?p = Some (kIOReturnSuccess, v)" "pl_kernel q = pl_kernel v"
    using assms x g
    by (auto simp: vmAllocateSurface_def set_blit_def free_info_def Let_def split: if_splits bind_splits)
  show ?thesis using attach_is_target [OF v(1) x] v(2) by (simp add: set_blit_def)
qed

text \<open>
  C99: Locking follows the last surface allocated, not the surface given: after an allocation for the window of identity \<open>sid\<close>
  has succeeded on a 2D context, a lock that succeeds for whatever surface \<open>y\<close> that is not mapped yet is given the address of
  the mapping of the window \<open>sid\<close>, even if \<open>y\<close> was allocated for another window.
\<close>

theorem lock_follows_last_surface:
  assumes "vmAllocateSurface (context_services h k u fixed task) stale me a options x sid p = Some (kIOReturnSuccess, q)"
    and "vmLockSurface (context_services h k u fixed task) junk me lf y True q = Some ((kIOReturnSuccess, Some addr), r)"
    and "pl_infos q (bs_interfaceRef (pl_blits q y)) = Some si" and "si_addr si = 0"
  shows "\<exists>i s f. surfaces (cn_desk (pl_kernel r)) i = Some s \<and> bHaveID s \<and> m_wID s = ucast sid \<and>
    bk_map (m_backing s) 1 = Some f \<and> addr = map_address f"
proof -
  obtain rp n where l: "context_call h k u fixed \<lparr>rq_selector = 5, rq_scalars = [ucast lf], rq_struct = No_struct, rq_out_scalars = 0, rq_out_size = 16\<rparr>
      (pl_kernel q) = Some (rp, n)" "rp_rc rp = kIOReturnSuccess" "pl_kernel r = n"
    "addr = (case rp_struct rp of Quads_out qs \<Rightarrow> qs @ drop (length qs) junk | _ \<Rightarrow> junk) ! 0"
    using assms(2-4)
    by (auto simp: vmLockSurface_def surface_ready_def ga_ready_def ga_call_def set_blit_def Let_def split: if_splits bind_splits option.splits)
  from call_lock [OF l(1) allocate_is_target [OF assms(1)] l(2)] l(3,4) show ?thesis
    by (fastforce simp: id_fields_def)
qed

text \<open>Surface 2 was allocated for window 6; surface 1 is allocated for window 5, the one that is open, and surface 2 is locked.\<close>

definition window_sample :: surface where
  "window_sample = backed_sample\<lparr>bHaveID := True, m_wID := 5, bHaveScreen := True\<rparr>"

definition plugin_sample :: "connection plugin" where
  "plugin_sample = (set_ga (\<lambda>g. g\<lparr>ga_context := 7\<rparr>)
     (set_blit 2 (\<lambda>b. b\<lparr>bs_interfaceRef := 128\<rparr>) (plugin_new blank_surfaces \<lparr>cn_context = Some context_sample, cn_desk = desk_of window_sample\<rparr>)))
     \<lparr>pl_infos := [128 \<mapsto> \<lparr>si_d0 = None, si_addr = 0, si_cgsSurfaceID = 6\<rparr>]\<rparr>"

abbreviation window_services :: "connection services" where
  "window_services \<equiv> context_services drain_host kit_mapping False (\<lambda>_. False) 7"

abbreviation "window_options \<equiv> \<lparr>ao_HasCGSSurface = True, ao_FixedSource = False, ao_word = 0x801\<rparr>"

lemma window_sample_run:
  "case vmAllocateSurface window_services (0, [0, 0, 0]) True 64 window_options 1 5 plugin_sample of None \<Rightarrow> False
   | Some (rc, q) \<Rightarrow> rc = kIOReturnSuccess \<and> map_option si_cgsSurfaceID (pl_infos q (bs_interfaceRef (pl_blits q 2))) = Some 6 \<and>
       map_option si_addr (pl_infos q (bs_interfaceRef (pl_blits q 2))) = Some 0 \<and>
       map_option fst (vmLockSurface window_services [0, 0] True 0 2 True q) = Some (kIOReturnSuccess, Some 65536)"
  by code_simp

lemma lock_follows_last_surface_witness:
  "\<exists>q r. vmAllocateSurface window_services (0, [0, 0, 0]) True 64 window_options 1 5 plugin_sample = Some (kIOReturnSuccess, q) \<and>
     map_option si_cgsSurfaceID (pl_infos q (bs_interfaceRef (pl_blits q 2))) = Some 6 \<and>
     vmLockSurface window_services [0, 0] True 0 2 True q = Some ((kIOReturnSuccess, Some 65536), r) \<and>
     (\<exists>i s f. surfaces (cn_desk (pl_kernel r)) i = Some s \<and> bHaveID s \<and> m_wID s = 5 \<and> bk_map (m_backing s) 1 = Some f \<and> map_address f = 65536)"
proof -
  obtain q si r where q: "vmAllocateSurface window_services (0, [0, 0, 0]) True 64 window_options 1 5 plugin_sample = Some (kIOReturnSuccess, q)"
    "pl_infos q (bs_interfaceRef (pl_blits q 2)) = Some si" "si_cgsSurfaceID si = 6" "si_addr si = 0"
    "vmLockSurface window_services [0, 0] True 0 2 True q = Some ((kIOReturnSuccess, Some 65536), r)"
    using window_sample_run by (auto split: option.splits)
  from lock_follows_last_surface [OF q(1,5,2,4)] q show ?thesis by auto
qed
end
