(* ===== verification/QemuDisplay.thy ===== *)
theory QemuDisplay
  imports Framebuffer
begin

text \<open>
  The kexts written for QEMU's display: \<^verbatim>\<open>QEMUDisplay\<close>, a framebuffer driver of its own,
  \<^verbatim>\<open>QEMUDisplayPatcher\<close>, which routes the methods of Apple's \<^verbatim>\<open>IONDRVFramebuffer\<close> to replacements, and
  \<^verbatim>\<open>QEMUHelper\<close>, which patches the registry of the framebuffer and the memory limits of some processes.

  What is not in the sources is a parameter: the original methods behind the hooks, the base class, the answers of
  the ports, the memory descriptors of IOKit and the process table.  Log output is left out.
\<close>

section \<open>Ports and the system management controller\<close>

text \<open>
  Port accesses and delays (in microseconds) in the order they happen; what a port answers may depend on all that
  came before.
\<close>

datatype port_event = Out u16 u32 | In u16 u32 | Delay nat

type_synonym port_device = "port_event list \<Rightarrow> u16 \<Rightarrow> u32"

definition inb :: "port_device \<Rightarrow> u16 \<Rightarrow> port_event list \<Rightarrow> u8 \<times> port_event list" where
  "inb d p t = (let v = ucast (d t p) in (v, t @ [In p (ucast v)]))"

definition outb :: "u16 \<Rightarrow> u8 \<Rightarrow> port_event list \<Rightarrow> port_event list" where
  "outb p v t = t @ [Out p (ucast v)]"

text \<open>The loop that waits for the controller, at most \<open>n\<close> times, and the one after a data byte.\<close>

fun smc_wait :: "port_device \<Rightarrow> nat \<Rightarrow> port_event list \<Rightarrow> port_event list" where
  "smc_wait d 0 t = t"
| "smc_wait d (Suc n) t =
    (let (v, t) = inb d 0x304 t
     in if v AND 4 \<noteq> 0 then t else smc_wait d n (t @ [Delay 100]))"

fun smc_wait_data :: "port_device \<Rightarrow> nat \<Rightarrow> port_event list \<Rightarrow> port_event list" where
  "smc_wait_data d 0 t = t"
| "smc_wait_data d (Suc n) t =
    (let (v, t) = inb d 0x304 t
     in if v AND 2 = 0 then t
        else let (v, t) = inb d 0x304 t
        in if v AND 4 \<noteq> 0 then t else smc_wait_data d n (t @ [Delay 100]))"

text \<open>\<open>key\<close> are the four letters; \<^verbatim>\<open>len\<close> is the length of the data.\<close>

definition smcWriteKey :: "port_device \<Rightarrow> u8 list \<Rightarrow> u8 list \<Rightarrow> port_event list \<Rightarrow> port_event list" where
  "smcWriteKey d key data t =
    (let t = smc_wait d 100 (outb 0x304 0x11 t);
         t = fold (\<lambda>k t. smc_wait d 100 (outb 0x300 k t)) key t;
         t = smc_wait d 100 (outb 0x300 (of_nat (length data)) t)
     in fold (\<lambda>b t. smc_wait_data d 100 (outb 0x300 b t)) data t)"

definition HE0N :: "u8 list" where "HE0N = [0x48, 0x45, 0x30, 0x4E]"
definition HE2N :: "u8 list" where "HE2N = [0x48, 0x45, 0x32, 0x4E]"

section \<open>Modes\<close>

record mode_info =
  mi_id :: u32
  mi_width :: u32
  mi_height :: u32
  mi_refresh :: u32

definition mode_at :: "nat \<Rightarrow> u32 \<times> u32 \<times> u32 \<times> u32 \<Rightarrow> mode_info" where
  "mode_at n m = (case m of (i, w, h, hz) \<Rightarrow> \<lparr>mi_id = i, mi_width = w, mi_height = h, mi_refresh = push_bit n hz\<rparr>)"

definition qd_modes :: "mode_info list" where
  "qd_modes = map (mode_at 16) [(1, 1920, 1080, 60), (2, 2560, 1440, 60), (3, 1280, 720, 60), (4, 1600, 900, 60),
     (5, 3840, 2160, 30)]"

definition qdp_modes :: "mode_info list" where
  "qdp_modes = map (mode_at 16) [(1, 1920, 1080, 60), (2, 2560, 1440, 60), (3, 5120, 2880, 60), (4, 3840, 2160, 60),
     (5, 3008, 1692, 60), (6, 2048, 1152, 60), (7, 1680, 945, 60), (8, 1280, 720, 60)]"

text \<open>The search all the methods have in common, from index \<open>i\<close> on.\<close>

fun find_mode :: "u32 \<Rightarrow> nat \<Rightarrow> mode_info list \<Rightarrow> (nat \<times> mode_info) option" where
  "find_mode mode i [] = None"
| "find_mode mode i (m # ms) = (if mi_id m = mode then Some (i, m) else find_mode mode (Suc i) ms)"

definition IO32BitDirectPixels :: string where
  "IO32BitDirectPixels = ''--------RRRRRRRRGGGGGGGGBBBBBBBB''"

record mode_pixels =
  mp_bytesPerRow :: u32
  mp_bitsPerPixel :: u32
  mp_direct :: bool
  mp_componentCount :: u32
  mp_bitsPerComponent :: u32
  mp_activeWidth :: u32
  mp_activeHeight :: u32
  mp_pixelFormat :: string

definition pixels_of :: "mode_info \<Rightarrow> mode_pixels" where
  "pixels_of m = \<lparr>mp_bytesPerRow = mi_width m * 4, mp_bitsPerPixel = 32, mp_direct = True, mp_componentCount = 3,
     mp_bitsPerComponent = 8, mp_activeWidth = mi_width m, mp_activeHeight = mi_height m, mp_pixelFormat = IO32BitDirectPixels\<rparr>"

text \<open>\<^verbatim>\<open>IOTimingInformation\<close>, cleared but for the fields written; the clock is a 64-bit product.\<close>

record mode_timing =
  ti_appleTimingID :: u32
  ti_detailed :: bool
  ti_horizontalActive :: u32
  ti_verticalActive :: u32
  ti_pixelClock :: u64

definition timing_of :: "mode_info \<Rightarrow> mode_timing" where
  "timing_of m = \<lparr>ti_appleTimingID = 0xFFFFFFFF, ti_detailed = True, ti_horizontalActive = mi_width m,
     ti_verticalActive = mi_height m, ti_pixelClock = ucast (mi_width m) * ucast (mi_height m) * 60\<rparr>"

definition timing_none :: mode_timing where
  "timing_none = \<lparr>ti_appleTimingID = 0, ti_detailed = False, ti_horizontalActive = 0, ti_verticalActive = 0, ti_pixelClock = 0\<rparr>"

text \<open>A range of device memory, and \<^verbatim>\<open>IODeviceMemory::withSubRange\<close>.\<close>

type_synonym mem_range = "nat \<times> nat"
type_synonym sub_range = "mem_range \<Rightarrow> nat \<Rightarrow> u64 \<Rightarrow> mem_range option"

definition fb_bytes :: "u32 \<Rightarrow> u32 \<Rightarrow> u64" where
  "fb_bytes w h = ucast w * ucast h * 4"

text \<open>Values of registry properties.\<close>

datatype property = Number nat nat | Bytes "u8 list" | Text string | Flag bool | Counts "(string \<times> u32) list"

type_synonym properties = "string \<rightharpoonup> property"

section \<open>Monitor descriptions\<close>

definition mos15_edid :: "u8 list" where
  "mos15_edid = [
    0, 0xff, 0xff, 0xff, 0xff, 0xff, 0xff, 0, 6, 0x10, 0xc3, 0x9c, 0, 0, 0, 0,
    1, 0x22, 1, 3, 0x80, 0x3c, 0x22, 0x78, 0xa, 0xee, 0x91, 0xa3, 0x54, 0x4c, 0x99, 0x26,
    0xf, 0x50, 0x54, 0x21, 8, 0, 0xd1, 0xc0, 0x81, 0xc0, 1, 1, 1, 1, 1, 1,
    1, 1, 1, 1, 1, 1, 2, 0x3a, 0x80, 0x18, 0x71, 0x38, 0x2d, 0x40, 0x58, 0x2c,
    0x45, 0, 6, 0x44, 0x21, 0, 0, 0x1e, 0, 0, 0, 0xfc, 0, 0x69, 0x4d, 0x61,
    0x63, 0xa, 0x20, 0x20, 0x20, 0x20, 0x20, 0x20, 0x20, 0x20, 0, 0, 0, 0xfd, 0, 0x38,
    0x4c, 0x1e, 0x51, 0x11, 0, 0, 0, 0, 0, 0, 0, 0, 0, 0, 0, 0xff,
    0, 0x4d, 0x4f, 0x53, 0x31, 0x35, 0x56, 0x4d, 0xa, 0x20, 0x20, 0x20, 0x20, 0x20, 0, 0x71]"

definition imac20_edid_block0 :: "u8 list" where
  "imac20_edid_block0 = [
    0, 0xff, 0xff, 0xff, 0xff, 0xff, 0xff, 0, 6, 0x10, 0x31, 0xae, 0x20, 0x33, 0x6a, 0x63,
    0x16, 0x1d, 1, 4, 0xb5, 0x3c, 0x22, 0x78, 0x20, 0xe, 0x21, 0xae, 0x52, 0x41, 0xb2, 0x26,
    0xe, 0x50, 0x54, 0, 0, 0, 1, 1, 1, 1, 1, 1, 1, 1, 1, 1,
    1, 1, 1, 1, 1, 1, 0x4d, 0xd0, 0, 0xa0, 0xf0, 0x70, 0x3e, 0x80, 0x30, 0x20,
    0x35, 0, 0x55, 0x50, 0x21, 0, 0, 0x1a, 0x56, 0x5e, 0, 0xa0, 0xa0, 0xa0, 0x29, 0x50,
    0x30, 0x20, 0x35, 0, 0x55, 0x50, 0x21, 0, 0, 0x1a, 0, 0, 0, 0xfc, 0, 0x69,
    0x4d, 0x61, 0x63, 0xa, 0x20, 0x20, 0x20, 0x20, 0x20, 0x20, 0x20, 0x20, 0, 0, 0, 0xff,
    0, 0x39, 0x38, 0x34, 0x44, 0x38, 0x43, 0x42, 0x32, 0x30, 0x33, 0x33, 0x32, 0x41, 1, 0xf1]"

definition imac20_edid_block1 :: "u8 list" where
  "imac20_edid_block1 = [
    2, 3, 0x1f, 0x80, 0x70, 0xfa, 0x10, 0, 0, 0x12, 0x76, 0x31, 0xfc, 0x78, 0xfb, 0xff,
    2, 0x10, 0x88, 0x62, 0xd3, 0x69, 0xfa, 0x10, 0, 0xfa, 0xf8, 0xf8, 0xfe, 0xff, 0xff, 0xcd,
    0x91, 0x80, 0xa0, 0xc0, 8, 0x34, 0x70, 0x30, 0x20, 0x35, 0, 0x55, 0x50, 0x21, 0, 0,
    0x1a, 0, 0, 0, 0, 0, 0, 0, 0, 0, 0, 0, 0, 0, 0, 0,
    0, 0, 0, 0, 0, 0, 0, 0, 0, 0, 0, 0, 0, 0, 0, 0,
    0, 0, 0, 0, 0, 0, 0, 0, 0, 0, 0, 0, 0, 0, 0, 0,
    0, 0, 0, 0, 0, 0, 0, 0, 0, 0, 0, 0, 0, 0, 0, 0,
    0, 0, 0, 0, 0, 0, 0, 0, 0, 0, 0, 0, 0, 0, 0, 0x44]"

definition iMacEDID :: "u8 list" where
  "iMacEDID = [
    0, 0xff, 0xff, 0xff, 0xff, 0xff, 0xff, 0, 6, 0x10, 0x34, 0xa0, 0, 0, 0, 0,
    0x30, 0x1e, 1, 4, 0xb5, 0x3c, 0x22, 0x78, 0x3a, 0xd6, 0x65, 0xa6, 0x56, 0x51, 0xa0, 0x26,
    0xd, 0x50, 0x54, 0, 0, 0, 1, 1, 1, 1, 1, 1, 1, 1, 1, 1,
    1, 1, 1, 1, 1, 1, 2, 0x3a, 0x80, 0x18, 0x71, 0x38, 0x2d, 0x40, 0x58, 0x2c,
    0x45, 0, 0xc0, 0x58, 0x21, 0, 0, 0x1e, 0, 0, 0, 0xfc, 0, 0x69, 0x4d, 0x61,
    0x63, 0xa, 0x20, 0x20, 0x20, 0x20, 0x20, 0x20, 0x20, 0x20, 0, 0, 0, 0xfd, 0, 0x30,
    0x3e, 0x1e, 0x64, 0x16, 0, 0, 0, 0, 0, 0, 0, 0, 0, 0, 0, 0,
    0, 0, 0, 0, 0, 0, 0, 0, 0, 0, 0, 0, 0, 0, 0, 0x68]"

section \<open>QEMUDisplay\<close>

text \<open>The connect interrupt is its procedure, target and reference, zero for null.\<close>

record qdisplay =
  qd_pciDevice :: bool
  qd_memory_enabled :: bool
  qd_io_enabled :: bool
  qd_ioMap :: bool
  qd_ioPort :: u16
  qd_connect :: "nat \<times> nat \<times> nat"
  qd_vramSize :: u32
  qd_maxWidth :: u32
  qd_maxHeight :: u32
  qd_currentWidth :: u32
  qd_currentHeight :: u32
  qd_properties :: properties
  qd_trace :: "port_event list"
  qd_power_state :: "nat option"

abbreviation (input) QD_REG_MAX_WIDTH :: u32 where "QD_REG_MAX_WIDTH \<equiv> 4"
abbreviation (input) QD_REG_MAX_HEIGHT :: u32 where "QD_REG_MAX_HEIGHT \<equiv> 5"
abbreviation (input) QD_REG_VRAM_SIZE :: u32 where "QD_REG_VRAM_SIZE \<equiv> 15"

definition qd_readReg :: "port_device \<Rightarrow> u32 \<Rightarrow> qdisplay \<Rightarrow> u32 \<times> qdisplay" where
  "qd_readReg d reg s =
    (let t = qd_trace s @ [Out (qd_ioPort s) reg]; v = d t (qd_ioPort s + 1)
     in (v, s\<lparr>qd_trace := t @ [In (qd_ioPort s + 1) v]\<rparr>))"

definition qd_writeReg :: "u32 \<Rightarrow> u32 \<Rightarrow> qdisplay \<Rightarrow> qdisplay" where
  "qd_writeReg reg v s = s\<lparr>qd_trace := qd_trace s @ [Out (qd_ioPort s) reg, Out (qd_ioPort s + 1) v]\<rparr>"

definition qd_initDevice :: "port_device \<Rightarrow> qdisplay \<Rightarrow> qdisplay" where
  "qd_initDevice d s =
    (let (v, s) = qd_readReg d QD_REG_VRAM_SIZE s;
         (w, s) = qd_readReg d QD_REG_MAX_WIDTH s;
         (h, s) = qd_readReg d QD_REG_MAX_HEIGHT s
     in s\<lparr>qd_vramSize := v, qd_maxWidth := w, qd_maxHeight := h, qd_currentWidth := 1920, qd_currentHeight := 1080\<rparr>)"

definition qd_init :: "bool \<Rightarrow> qdisplay \<Rightarrow> bool \<times> qdisplay" where
  "qd_init super s =
    (if \<not> super then (False, s)
     else (True, s\<lparr>qd_pciDevice := False, qd_ioMap := False, qd_ioPort := 0, qd_connect := (0, 0, 0)\<rparr>))"

definition set_property :: "string \<Rightarrow> property \<Rightarrow> qdisplay \<Rightarrow> qdisplay" where
  "set_property name v s = s\<lparr>qd_properties := (qd_properties s)(name \<mapsto> v)\<rparr>"

text \<open>
  \<open>provider_is_pci\<close>: the provider is a PCI device; \<open>bar0\<close> its first base address register; \<open>number\<close>: the number
  object could be allocated; \<open>super\<close>: what the base class answers.
\<close>

definition qd_start :: "port_device \<Rightarrow> bool \<Rightarrow> u32 \<Rightarrow> bool \<Rightarrow> bool \<Rightarrow> qdisplay \<Rightarrow> bool \<times> qdisplay" where
  "qd_start d provider_is_pci bar0 number super s =
    (let s = s\<lparr>qd_pciDevice := provider_is_pci\<rparr>
     in if \<not> provider_is_pci then (False, s)
        else let s = s\<lparr>qd_memory_enabled := True, qd_io_enabled := True, qd_ioPort := ucast (bar0 AND 0xFFFC)\<rparr>
        in if qd_ioPort s = 0 then (False, s)
        else let s = qd_initDevice d s;
                 s = (if number then set_property ''IOFBMemorySize'' (Number 64 (unat (qd_vramSize s))) s else s);
                 s = set_property ''IOFB0Hz'' (Flag True) s;
                 s = set_property ''IOFBGammaCount'' (Number 32 256) s;
                 s = set_property ''IOFBGammaWidth'' (Number 32 8) s
        in if \<not> super then (False, s)
        else (True, set_property ''IOFBConnectChange'' (Flag True) s))"

definition qd_stop :: "qdisplay \<Rightarrow> qdisplay" where
  "qd_stop s = (if qd_ioMap s then s\<lparr>qd_ioMap := False\<rparr> else s)"

text \<open>\<open>bar1\<close>: the memory of the second base address register, which holds the pixels.\<close>

definition qd_enableController :: "port_device \<Rightarrow> mem_range option \<Rightarrow> qdisplay \<Rightarrow> ioreturn \<times> qdisplay" where
  "qd_enableController d bar1 s =
    (let s = s\<lparr>qd_trace := smcWriteKey d HE2N [1] (smcWriteKey d HE0N [1] (qd_trace s))\<rparr>;
         s = (case bar1 of None \<Rightarrow> s | Some r \<Rightarrow> set_property ''IOFBMemorySize'' (Number 64 (snd r)) s)
     in (kIOReturnSuccess, s\<lparr>qd_power_state := Some 2\<rparr>))"

abbreviation (input) kConnectionCheckEnable :: connection_attribute where
  "kConnectionCheckEnable \<equiv> Other_connection 0x63656E61"

definition qd_getAttribute :: "ioreturn \<times> nat option \<Rightarrow> fb_attribute \<Rightarrow> ioreturn \<times> nat option" where
  "qd_getAttribute super attr = (if attr = kIOHardwareCursorAttribute then (kIOReturnSuccess, Some 0) else super)"

definition qd_getAttributeForConnection :: "ioreturn \<times> nat option \<Rightarrow> connection_attribute \<Rightarrow> ioreturn \<times> nat option" where
  "qd_getAttributeForConnection super attr =
    (if attr = kConnectionEnable \<or> attr = kConnectionCheckEnable then (kIOReturnSuccess, Some 1)
     else if attr = kConnectionFlags then (kIOReturnSuccess, Some 0)
     else if attr = kConnectionSupportsHLDDCSense \<or> attr = kConnectionSupportsAppleSense then (kIOReturnUnsupported, None)
     else super)"

definition qd_getApertureRange :: "sub_range \<Rightarrow> mem_range option \<Rightarrow> bool \<Rightarrow> qdisplay \<Rightarrow> mem_range option" where
  "qd_getApertureRange withSubRange bar1 system_aperture s =
    (if \<not> system_aperture then None
     else case bar1 of None \<Rightarrow> None
     | Some r \<Rightarrow> withSubRange r 0 (fb_bytes (qd_currentWidth s) (qd_currentHeight s)))"

definition qd_getDisplayModeCount :: "qdisplay \<Rightarrow> nat" where
  "qd_getDisplayModeCount s = length qd_modes"

definition qd_getDisplayModes :: "qdisplay \<Rightarrow> u32 list" where
  "qd_getDisplayModes s = map mi_id qd_modes"

definition qd_getInformationForDisplayMode :: "u32 \<Rightarrow> ioreturn + mode_information" where
  "qd_getInformationForDisplayMode mode =
    (case find_mode mode 0 qd_modes of None \<Rightarrow> Inl kIOReturnBadArgument
     | Some (i, m) \<Rightarrow> Inr \<lparr>maxDepthIndex = 0, nominalWidth = mi_width m, nominalHeight = mi_height m,
         refreshRate = mi_refresh m, info_flags = 0\<rparr>)"

definition qd_getPixelInformation :: "u32 \<Rightarrow> u32 \<Rightarrow> ioreturn + mode_pixels" where
  "qd_getPixelInformation mode depth =
    (if depth \<noteq> 0 then Inl kIOReturnBadArgument
     else case find_mode mode 0 qd_modes of None \<Rightarrow> Inl kIOReturnBadArgument | Some (i, m) \<Rightarrow> Inr (pixels_of m))"

definition qd_getCurrentDisplayMode :: "qdisplay \<Rightarrow> u32 \<times> u32" where
  "qd_getCurrentDisplayMode s = (1, 0)"

definition qd_setDisplayMode :: "u32 \<Rightarrow> qdisplay \<Rightarrow> ioreturn \<times> qdisplay" where
  "qd_setDisplayMode mode s =
    (case find_mode mode 0 qd_modes of None \<Rightarrow> (kIOReturnBadArgument, s)
     | Some (i, m) \<Rightarrow> (kIOReturnSuccess, s\<lparr>qd_currentWidth := mi_width m, qd_currentHeight := mi_height m\<rparr>))"

text \<open>The number is the four letters \<^verbatim>\<open>dci\<close> and a blank.\<close>

abbreviation (input) connect_interrupt :: u32 where "connect_interrupt \<equiv> 0x64636920"

definition qd_registerForInterruptType :: "u32 \<Rightarrow> nat \<Rightarrow> nat \<Rightarrow> nat \<Rightarrow> qdisplay \<Rightarrow> u64 \<times> ioreturn \<times> qdisplay" where
  "qd_registerForInterruptType type proc' target ref s =
    (ucast (type + 1), kIOReturnSuccess, if type = connect_interrupt then s\<lparr>qd_connect := (proc', target, ref)\<rparr> else s)"

text \<open>\<open>out\<close>: the caller's length, if data and length pointers are given; the bytes copied are the new length.\<close>

definition qd_getDDCBlock :: "u32 \<Rightarrow> u64 option \<Rightarrow> ioreturn \<times> u8 list option" where
  "qd_getDDCBlock blockNumber out =
    (case out of None \<Rightarrow> (kIOReturnBadArgument, None)
     | Some len \<Rightarrow>
         if blockNumber \<noteq> 1 then (kIOReturnBadArgument, None)
         else (kIOReturnSuccess, Some (take (unat (if len < 128 then len else 128)) mos15_edid)))"

text \<open>The information as it is left, also where the mode is refused.\<close>

definition qd_getTimingInfoForDisplayMode :: "u32 \<Rightarrow> ioreturn \<times> mode_timing" where
  "qd_getTimingInfoForDisplayMode mode =
    (case find_mode mode 0 qd_modes of None \<Rightarrow> (kIOReturnBadArgument, timing_none)
     | Some (i, m) \<Rightarrow> (kIOReturnSuccess, timing_of m))"

section \<open>QEMUDisplayPatcher\<close>

datatype qdp_hook =
    QDP_enableController | QDP_hasDDCConnect | QDP_getDDCBlock | QDP_setGammaTable | QDP_getVRAMRange
  | QDP_setAttributeForConnection | QDP_getApertureRange | QDP_getPixelFormats | QDP_getDisplayModeCount
  | QDP_getDisplayModes | QDP_getInformationForDisplayMode | QDP_getPixelInformation | QDP_getCurrentDisplayMode
  | QDP_setDisplayMode | QDP_getPixelFormatsForDisplayMode | QDP_getTimingInfoForDisplayMode | QDP_getConnectionCount
  | QDP_setupForCurrentConfig | QDP_getAttribute | QDP_getAttributeForConnection | QDP_registerForInterruptType
  | QDP_unregisterInterrupt | QDP_setInterruptState | QDP_connectFlags

definition qdp_hooks :: "qdp_hook list" where
  "qdp_hooks = [QDP_enableController, QDP_hasDDCConnect, QDP_getDDCBlock, QDP_setGammaTable, QDP_getVRAMRange,
     QDP_setAttributeForConnection, QDP_getApertureRange, QDP_getPixelFormats, QDP_getDisplayModeCount,
     QDP_getDisplayModes, QDP_getInformationForDisplayMode, QDP_getPixelInformation, QDP_getCurrentDisplayMode,
     QDP_setDisplayMode, QDP_getPixelFormatsForDisplayMode, QDP_getTimingInfoForDisplayMode, QDP_getConnectionCount,
     QDP_setupForCurrentConfig, QDP_getAttribute, QDP_getAttributeForConnection, QDP_registerForInterruptType,
     QDP_unregisterInterrupt, QDP_setInterruptState, QDP_connectFlags]"

lemma UNIV_qdp_hook: "UNIV = set qdp_hooks"
proof -
  have "h \<in> set qdp_hooks" for h by (cases h) (simp_all add: qdp_hooks_def)
  then show ?thesis by blast
qed

text \<open>The hooks in the order of the source's enumeration.\<close>

instantiation qdp_hook :: enum
begin

definition enum_qdp_hook :: "qdp_hook list" where
  "enum_qdp_hook = qdp_hooks"

definition enum_all_qdp_hook :: "(qdp_hook \<Rightarrow> bool) \<Rightarrow> bool" where
  "enum_all_qdp_hook P = list_all P qdp_hooks"

definition enum_ex_qdp_hook :: "(qdp_hook \<Rightarrow> bool) \<Rightarrow> bool" where
  "enum_ex_qdp_hook P = list_ex P qdp_hooks"

instance
proof
  show "(UNIV :: qdp_hook set) = set enum_class.enum" by (simp add: UNIV_qdp_hook enum_qdp_hook_def)
  show "distinct (enum_class.enum :: qdp_hook list)" by (simp add: enum_qdp_hook_def qdp_hooks_def)
  show "enum_class.enum_all P = Ball UNIV P" for P :: "qdp_hook \<Rightarrow> bool"
    by (simp add: UNIV_qdp_hook enum_all_qdp_hook_def list_all_iff)
  show "enum_class.enum_ex P = Bex UNIV P" for P :: "qdp_hook \<Rightarrow> bool"
    by (simp add: UNIV_qdp_hook enum_ex_qdp_hook_def list_ex_iff)
qed

end

definition gHookNames :: "string list" where
  "gHookNames = [''enableController'', ''hasDDCConnect'', ''getDDCBlock'', ''setGammaTable'', ''getVRAMRange'',
     ''setAttributeForConnection'', ''getApertureRange'', ''getPixelFormats'', ''getDisplayModeCount'',
     ''getDisplayModes'', ''getInformationForDisplayMode'', ''getPixelInformation'', ''getCurrentDisplayMode'',
     ''setDisplayMode'', ''getPixelFormatsForDisplayMode'', ''getTimingInfoForDisplayMode'', ''getConnectionCount'',
     ''setupForCurrentConfig'', ''getAttribute'', ''getAttributeForConnection'', ''registerForInterruptType'',
     ''unregisterInterrupt'', ''setInterruptState'', ''connectFlags'']"

text \<open>The routes: the method, the signature where it is overloaded, and the hook that replaces it.\<close>

definition qdp_routes :: "(string \<times> string option \<times> qdp_hook) list" where
  "qdp_routes = [
     (''enableController'', None, QDP_enableController),
     (''hasDDCConnect'', None, QDP_hasDDCConnect),
     (''getDDCBlock'', None, QDP_getDDCBlock),
     (''setGammaTable'', Some ''jjjPv'', QDP_setGammaTable),
     (''getVRAMRange'', None, QDP_getVRAMRange),
     (''setAttributeForConnection'', None, QDP_setAttributeForConnection),
     (''getApertureRange'', None, QDP_getApertureRange),
     (''getPixelFormats'', None, QDP_getPixelFormats),
     (''getDisplayModeCount'', None, QDP_getDisplayModeCount),
     (''getDisplayModes'', None, QDP_getDisplayModes),
     (''getInformationForDisplayMode'', None, QDP_getInformationForDisplayMode),
     (''getPixelInformation'', None, QDP_getPixelInformation),
     (''getCurrentDisplayMode'', None, QDP_getCurrentDisplayMode),
     (''setDisplayMode'', None, QDP_setDisplayMode),
     (''getPixelFormatsForDisplayMode'', None, QDP_getPixelFormatsForDisplayMode),
     (''getTimingInfoForDisplayMode'', None, QDP_getTimingInfoForDisplayMode),
     (''getConnectionCount'', None, QDP_getConnectionCount),
     (''setupForCurrentConfig'', None, QDP_setupForCurrentConfig),
     (''getAttribute'', None, QDP_getAttribute),
     (''getAttributeForConnection'', None, QDP_getAttributeForConnection),
     (''registerForInterruptType'', None, QDP_registerForInterruptType),
     (''unregisterInterrupt'', None, QDP_unregisterInterrupt),
     (''setInterruptState'', None, QDP_setInterruptState),
     (''connectFlags'', None, QDP_connectFlags)]"

text \<open>
  The variables of the kext, and what it did at the ports and to the registry entries of the framebuffer and of its
  PCI device.
\<close>

record qdp =
  gCurrentWidth :: u32
  gCurrentHeight :: u32
  gHookCounters :: "qdp_hook \<Rightarrow> u32"
  gModesQueriedMask :: u64
  gFramebuffer :: bool
  qdp_trace :: "port_event list"
  fb_properties :: properties
  pci_properties :: properties

definition qdp_loaded :: qdp where
  "qdp_loaded = \<lparr>gCurrentWidth = 1920, gCurrentHeight = 1080, gHookCounters = (\<lambda>_. 0), gModesQueriedMask = 0,
     gFramebuffer = False, qdp_trace = [], fb_properties = Map.empty, pci_properties = Map.empty\<rparr>"

text \<open>The framebuffer a hook is called for: whether its provider is a PCI device, and the memory of that.\<close>

record fb_service =
  fs_pci :: bool
  fs_bar1 :: "mem_range option"

text \<open>The original methods, where the routes found them.\<close>

record originals =
  orgEnableController :: "ioreturn option"
  orgGetVRAMRange :: "mem_range option option"
  orgGetApertureRange :: "(u32 \<Rightarrow> mem_range option) option"
  orgSetupForCurrentConfig :: "ioreturn option"
  orgGetAttribute :: "(fb_attribute \<Rightarrow> ioreturn \<times> nat option) option"
  orgGetAttributeForConnection :: "(u32 \<Rightarrow> connection_attribute \<Rightarrow> ioreturn \<times> nat option) option"
  orgConnectFlags :: "(u32 \<Rightarrow> u32 \<Rightarrow> ioreturn \<times> u32 option) option"

definition QDP_COUNT :: "qdp_hook \<Rightarrow> qdp \<Rightarrow> qdp" where
  "QDP_COUNT hook s = s\<lparr>gHookCounters := (gHookCounters s)(hook := gHookCounters s hook + 1)\<rparr>"

definition pci_memory :: "fb_service option \<Rightarrow> mem_range option" where
  "pci_memory that = (case that of None \<Rightarrow> None | Some f \<Rightarrow> if fs_pci f then fs_bar1 f else None)"

definition set_memory_size :: "fb_service option \<Rightarrow> qdp \<Rightarrow> qdp" where
  "set_memory_size that s =
    (case pci_memory that of None \<Rightarrow> s
     | Some r \<Rightarrow> s\<lparr>fb_properties := (fb_properties s)(''IOFBMemorySize'' \<mapsto> Number 64 (snd r))\<rparr>)"

definition patchedEnableController :: "port_device \<Rightarrow> originals \<Rightarrow> fb_service option \<Rightarrow> qdp \<Rightarrow> ioreturn \<times> qdp" where
  "patchedEnableController d org that s =
    (let s = QDP_COUNT QDP_enableController s
     in case orgEnableController org of None \<Rightarrow> (kIOReturnSuccess, s)
     | Some r \<Rightarrow>
         let s = s\<lparr>qdp_trace := smcWriteKey d HE2N [1] (smcWriteKey d HE0N [1] (qdp_trace s))\<rparr>
         in (r, case that of None \<Rightarrow> s
           | Some f \<Rightarrow>
               let s = set_memory_size that (s\<lparr>gFramebuffer := True\<rparr>);
                   s = (if fs_pci f
                        then s\<lparr>pci_properties := (pci_properties s)(''model'' \<mapsto> Text ''VMware SVGA II'',
                               ''AAPL,slot-name'' \<mapsto> Text ''Built-in'', ''built-in'' \<mapsto> Bytes [1])\<rparr> else s)
               in s\<lparr>fb_properties := (fb_properties s)(''CFBundleIdentifier'' \<mapsto> Text ''com.vmware.kext.VMsvga2'')\<rparr>))"

definition patchedHasDDCConnect :: "qdp \<Rightarrow> bool \<times> qdp" where
  "patchedHasDDCConnect s = (True, QDP_COUNT QDP_hasDDCConnect s)"

text \<open>\<open>out\<close> as for \<open>qd_getDDCBlock\<close>.\<close>

definition patchedGetDDCBlock :: "u32 \<Rightarrow> u64 option \<Rightarrow> qdp \<Rightarrow> (ioreturn \<times> u8 list option) \<times> qdp" where
  "patchedGetDDCBlock bn out s =
    (let s = QDP_COUNT QDP_getDDCBlock s
     in case out of None \<Rightarrow> ((kIOReturnError, None), s)
     | Some len \<Rightarrow>
         if bn \<noteq> 1 \<and> bn \<noteq> 2 then ((kIOReturnError, None), s)
         else let src = (if bn = 1 then imac20_edid_block0 else imac20_edid_block1)
         in ((kIOReturnSuccess, Some (take (unat (if len < 128 then len else 128)) src)), s))"

definition patchedSetGammaTable :: "qdp \<Rightarrow> ioreturn \<times> qdp" where
  "patchedSetGammaTable s = (kIOReturnSuccess, QDP_COUNT QDP_setGammaTable s)"

definition patchedGetVRAMRange :: "originals \<Rightarrow> fb_service option \<Rightarrow> qdp \<Rightarrow> mem_range option \<times> qdp" where
  "patchedGetVRAMRange org that s =
    (case orgGetVRAMRange org of None \<Rightarrow> None
     | Some org_range \<Rightarrow> (case pci_memory that of None \<Rightarrow> org_range | Some r \<Rightarrow> Some r),
     QDP_COUNT QDP_getVRAMRange s)"

definition patchedSetAttributeForConnection :: "qdp \<Rightarrow> ioreturn \<times> qdp" where
  "patchedSetAttributeForConnection s = (kIOReturnSuccess, QDP_COUNT QDP_setAttributeForConnection s)"

definition patchedGetApertureRange :: "sub_range \<Rightarrow> originals \<Rightarrow> fb_service option \<Rightarrow> u32 \<Rightarrow> qdp \<Rightarrow> mem_range option \<times> qdp" where
  "patchedGetApertureRange withSubRange org that aperture s =
    (case orgGetApertureRange org of None \<Rightarrow> None
     | Some org_range \<Rightarrow>
         if that = None \<or> aperture \<noteq> 0 then org_range aperture
         else case pci_memory that of None \<Rightarrow> org_range aperture
         | Some r \<Rightarrow> (case withSubRange r 0 (fb_bytes (gCurrentWidth s) (gCurrentHeight s)) of
             Some r \<Rightarrow> Some r | None \<Rightarrow> org_range aperture),
     QDP_COUNT QDP_getApertureRange s)"

definition patchedGetPixelFormats :: "qdp \<Rightarrow> string \<times> qdp" where
  "patchedGetPixelFormats s = (IO32BitDirectPixels, QDP_COUNT QDP_getPixelFormats s)"

definition patchedGetDisplayModeCount :: "qdp \<Rightarrow> nat \<times> qdp" where
  "patchedGetDisplayModeCount s = (length qdp_modes, QDP_COUNT QDP_getDisplayModeCount s)"

definition patchedGetDisplayModes :: "bool \<Rightarrow> qdp \<Rightarrow> (ioreturn + u32 list) \<times> qdp" where
  "patchedGetDisplayModes given s =
    (if given then Inr (map mi_id qdp_modes) else Inl kIOReturnError, QDP_COUNT QDP_getDisplayModes s)"

definition mode_flags :: "nat \<Rightarrow> u32" where
  "mode_flags i = (if i = 0 then (kDisplayModeValidFlag OR kDisplayModeSafeFlag) OR kDisplayModeDefaultFlag
     else kDisplayModeValidFlag OR kDisplayModeSafeFlag)"

definition patchedGetInformationForDisplayMode :: "u32 \<Rightarrow> bool \<Rightarrow> qdp \<Rightarrow> (ioreturn + mode_information) \<times> qdp" where
  "patchedGetInformationForDisplayMode mode given s =
    (let s = QDP_COUNT QDP_getInformationForDisplayMode s
     in if \<not> given then (Inl kIOReturnError, s)
        else case find_mode mode 0 qdp_modes of None \<Rightarrow> (Inl kIOReturnBadArgument, s)
        | Some (i, m) \<Rightarrow>
            (Inr \<lparr>maxDepthIndex = 0, nominalWidth = mi_width m, nominalHeight = mi_height m, refreshRate = mi_refresh m,
               info_flags = mode_flags i\<rparr>,
             s\<lparr>gModesQueriedMask := gModesQueriedMask s OR push_bit i 1\<rparr>))"

definition patchedGetPixelInformation :: "u32 \<Rightarrow> u32 \<Rightarrow> bool \<Rightarrow> qdp \<Rightarrow> (ioreturn + mode_pixels) \<times> qdp" where
  "patchedGetPixelInformation mode depth given s =
    (if \<not> given \<or> depth \<noteq> 0 then Inl kIOReturnError
     else case find_mode mode 0 qdp_modes of None \<Rightarrow> Inl kIOReturnBadArgument | Some (i, m) \<Rightarrow> Inr (pixels_of m),
     QDP_COUNT QDP_getPixelInformation s)"

definition patchedGetCurrentDisplayMode :: "qdp \<Rightarrow> (u32 \<times> u32) \<times> qdp" where
  "patchedGetCurrentDisplayMode s = ((1, 0), QDP_COUNT QDP_getCurrentDisplayMode s)"

definition patchedSetDisplayMode :: "u32 \<Rightarrow> qdp \<Rightarrow> ioreturn \<times> qdp" where
  "patchedSetDisplayMode mode s =
    (let s = QDP_COUNT QDP_setDisplayMode s
     in case find_mode mode 0 qdp_modes of None \<Rightarrow> (kIOReturnBadArgument, s)
     | Some (i, m) \<Rightarrow> (kIOReturnSuccess, s\<lparr>gCurrentWidth := mi_width m, gCurrentHeight := mi_height m\<rparr>))"

definition patchedGetPixelFormatsForDisplayMode :: "qdp \<Rightarrow> u64 \<times> qdp" where
  "patchedGetPixelFormatsForDisplayMode s = (0, QDP_COUNT QDP_getPixelFormatsForDisplayMode s)"

definition patchedGetTimingInfoForDisplayMode :: "u32 \<Rightarrow> bool \<Rightarrow> qdp \<Rightarrow> (ioreturn \<times> mode_timing option) \<times> qdp" where
  "patchedGetTimingInfoForDisplayMode mode given s =
    (if \<not> given then (kIOReturnError, None)
     else case find_mode mode 0 qdp_modes of None \<Rightarrow> (kIOReturnBadArgument, Some timing_none)
     | Some (i, m) \<Rightarrow> (kIOReturnSuccess, Some (timing_of m)),
     QDP_COUNT QDP_getTimingInfoForDisplayMode s)"

definition patchedGetConnectionCount :: "qdp \<Rightarrow> nat \<times> qdp" where
  "patchedGetConnectionCount s = (1, QDP_COUNT QDP_getConnectionCount s)"

text \<open>\<open>given\<close>: the caller wants the value.\<close>

definition patchedGetAttribute :: "originals \<Rightarrow> fb_attribute \<Rightarrow> bool \<Rightarrow> qdp \<Rightarrow> (ioreturn \<times> nat option) \<times> qdp" where
  "patchedGetAttribute org attr given s =
    (if attr = kIOHardwareCursorAttribute then (kIOReturnSuccess, if given then Some 0 else None)
     else case orgGetAttribute org of Some f \<Rightarrow> f attr | None \<Rightarrow> (kIOReturnUnsupported, None),
     QDP_COUNT QDP_getAttribute s)"

definition patchedGetAttributeForConnection :: "originals \<Rightarrow> u32 \<Rightarrow> connection_attribute \<Rightarrow> bool \<Rightarrow> qdp \<Rightarrow>
    (ioreturn \<times> nat option) \<times> qdp" where
  "patchedGetAttributeForConnection org ci attr given s =
    (if attr = kConnectionEnable \<or> attr = kConnectionCheckEnable then (kIOReturnSuccess, if given then Some 1 else None)
     else if attr = kConnectionFlags then (kIOReturnSuccess, if given then Some 0 else None)
     else if attr = kConnectionSupportsHLDDCSense then (kIOReturnSuccess, None)
     else if attr = kConnectionSupportsAppleSense then (kIOReturnUnsupported, None)
     else case orgGetAttributeForConnection org of Some f \<Rightarrow> f ci attr | None \<Rightarrow> (kIOReturnUnsupported, None),
     QDP_COUNT QDP_getAttributeForConnection s)"

definition patchedRegisterForInterruptType :: "u32 \<Rightarrow> bool \<Rightarrow> qdp \<Rightarrow> (ioreturn \<times> u64 option) \<times> qdp" where
  "patchedRegisterForInterruptType type given s =
    ((kIOReturnSuccess, if given then Some (ucast (type + 1)) else None), QDP_COUNT QDP_registerForInterruptType s)"

definition patchedUnregisterInterrupt :: "qdp \<Rightarrow> ioreturn \<times> qdp" where
  "patchedUnregisterInterrupt s = (kIOReturnSuccess, QDP_COUNT QDP_unregisterInterrupt s)"

definition patchedSetInterruptState :: "qdp \<Rightarrow> ioreturn \<times> qdp" where
  "patchedSetInterruptState s = (kIOReturnSuccess, QDP_COUNT QDP_setInterruptState s)"

definition patchedConnectFlags :: "originals \<Rightarrow> u32 \<Rightarrow> u32 \<Rightarrow> bool \<Rightarrow> qdp \<Rightarrow> (ioreturn \<times> u32 option) \<times> qdp" where
  "patchedConnectFlags org ci mode given s =
    (if \<not> given then (kIOReturnError, None)
     else case find_mode mode 0 qdp_modes of Some (i, m) \<Rightarrow> (kIOReturnSuccess, Some (mode_flags i))
     | None \<Rightarrow> (case orgConnectFlags org of Some f \<Rightarrow> f ci mode | None \<Rightarrow> (kIOReturnSuccess, Some 0)),
     QDP_COUNT QDP_connectFlags s)"

text \<open>\<open>array\<close> and \<open>line\<close>: the array and the line of a counter could be allocated.\<close>

definition flush_counters :: "bool \<Rightarrow> (qdp_hook \<Rightarrow> bool) \<Rightarrow> qdp \<Rightarrow> qdp" where
  "flush_counters array line s =
    (let s = (if array
              then s\<lparr>fb_properties := (fb_properties s)(''QDPCallCounts'' \<mapsto>
                     Counts (map (\<lambda>(name, h). (name, gHookCounters s h)) (filter (\<lambda>(name, h). line h) (zip gHookNames qdp_hooks))))\<rparr>
              else s)
     in s\<lparr>fb_properties := (fb_properties s)(''QDPModesQueriedMask'' \<mapsto> Number 64 (unat (gModesQueriedMask s)))\<rparr>)"

definition patchedSetupForCurrentConfig :: "bool \<Rightarrow> (qdp_hook \<Rightarrow> bool) \<Rightarrow> originals \<Rightarrow> fb_service option \<Rightarrow> qdp \<Rightarrow> ioreturn \<times> qdp" where
  "patchedSetupForCurrentConfig array line org that s =
    (let s = QDP_COUNT QDP_setupForCurrentConfig s
     in case orgSetupForCurrentConfig org of None \<Rightarrow> (kIOReturnSuccess, s)
     | Some r \<Rightarrow> (r, if that = None then s else flush_counters array line (set_memory_size that s)))"

text \<open>The result of the routing is only logged; the kext never unloads.\<close>

datatype kern_return = KERN_SUCCESS | KERN_FAILURE

definition qdp_start :: "((string \<times> string option \<times> qdp_hook) list \<Rightarrow> int) \<Rightarrow> kern_return" where
  "qdp_start mp_route_on_publish = (let rc = mp_route_on_publish qdp_routes in KERN_SUCCESS)"

definition qdp_stop :: kern_return where
  "qdp_stop = KERN_FAILURE"

section \<open>QEMUHelper\<close>

text \<open>
  Services are numbered; \<open>h_refs\<close> counts the references the helper holds on each, \<open>h_due\<close> is when the timer goes
  off, in milliseconds.
\<close>

record helper =
  h_workLoop :: bool
  h_timer :: bool
  h_patchAttempts :: nat
  h_framebuffer :: "nat option"
  h_due :: "nat option"
  h_refs :: "nat \<Rightarrow> nat"
  h_properties :: "nat \<Rightarrow> properties"

definition helper_zero :: helper where
  "helper_zero = \<lparr>h_workLoop = False, h_timer = False, h_patchAttempts = 0, h_framebuffer = None, h_due = None,
     h_refs = (\<lambda>_. 0), h_properties = (\<lambda>_. Map.empty)\<rparr>"

text \<open>Which of the objects for the properties can be allocated.\<close>

record helper_objects =
  ho_edid :: bool
  ho_vendor :: bool
  ho_product :: bool
  ho_vram :: bool

definition put_property :: "nat \<Rightarrow> string \<Rightarrow> property \<Rightarrow> helper \<Rightarrow> helper" where
  "put_property x name v s = s\<lparr>h_properties := (h_properties s)(x := (h_properties s x)(name \<mapsto> v))\<rparr>"

definition patchEDID :: "helper_objects \<Rightarrow> nat \<Rightarrow> helper \<Rightarrow> helper" where
  "patchEDID ob x s =
    (let s = (if ho_edid ob
              then put_property x ''IODisplayEDIDOriginal'' (Bytes iMacEDID) (put_property x ''IODisplayEDID'' (Bytes iMacEDID) s)
              else s);
         s = (if ho_vendor ob then put_property x ''DisplayVendorID'' (Number 32 0x610) s else s)
     in if ho_product ob then put_property x ''DisplayProductID'' (Number 32 0xA034) s else s)"

definition patchVRAM :: "helper_objects \<Rightarrow> nat \<Rightarrow> helper \<Rightarrow> helper" where
  "patchVRAM ob x s = (if ho_vram ob then put_property x ''IOFBMemorySize'' (Number 64 268435456) s else s)"

definition displayConnectMatched :: "helper_objects \<Rightarrow> nat \<Rightarrow> nat option \<Rightarrow> helper \<Rightarrow> bool \<times> helper" where
  "displayConnectMatched ob newService provider s =
    (let s = (case provider of None \<Rightarrow> s | Some x \<Rightarrow> patchEDID ob x s)
     in (True, if ho_edid ob then put_property newService ''IODisplayEDID'' (Bytes iMacEDID) s else s))"

definition framebufferMatched :: "helper_objects \<Rightarrow> nat \<Rightarrow> nat \<Rightarrow> helper \<Rightarrow> bool \<times> helper" where
  "framebufferMatched ob now newService s =
    (let s = s\<lparr>h_refs := (h_refs s)(newService := h_refs s newService + 1), h_framebuffer := Some newService\<rparr>;
         s = patchEDID ob newService s
     in (True, if h_timer s then s\<lparr>h_due := Some (now + 5000)\<rparr> else s))"

definition jetsam_overrides :: "(string \<times> nat) list" where
  "jetsam_overrides = [(''WallpaperAgent'', 128), (''wallpaperexportd'', 64), (''BiomeAgent'', 64), (''PerfPowerService'', 64),
     (''WallpaperVideoEx'', 128)]"

text \<open>
  The process table: the name of a process, and whether it has a task.  The result are the limits asked for, by
  process.
\<close>

type_synonym process_table = "nat \<Rightarrow> (string \<times> bool) option"

definition raise_limits :: "string \<Rightarrow> bool \<Rightarrow> nat \<Rightarrow> (nat \<times> nat) list" where
  "raise_limits name task pid =
    map (\<lambda>(n, mb). (pid, mb)) (filter (\<lambda>(n, mb). take (length n) name = n \<and> task) jetsam_overrides)"

definition raiseJetsamLimits :: "process_table \<Rightarrow> (nat \<times> nat) list" where
  "raiseJetsamLimits procs =
    concat (map (\<lambda>pid. case procs pid of None \<Rightarrow> [] | Some (name, task) \<Rightarrow> raise_limits name task pid) [1..<2000])"

text \<open>The timer has gone off at \<open>now\<close>.\<close>

definition timerFired :: "helper_objects \<Rightarrow> process_table \<Rightarrow> nat \<Rightarrow> helper \<Rightarrow> (nat \<times> nat) list \<times> helper" where
  "timerFired ob procs now s =
    (let s = s\<lparr>h_due := None\<rparr>
     in case h_framebuffer s of None \<Rightarrow> ([], s)
     | Some x \<Rightarrow>
         let s = patchEDID ob x (patchVRAM ob x (s\<lparr>h_patchAttempts := h_patchAttempts s + 1\<rparr>));
             lims = (if h_patchAttempts s = 2 \<or> h_patchAttempts s = 4 then raiseJetsamLimits procs else [])
         in (lims, if h_patchAttempts s < 5 then s\<lparr>h_due := Some (now + 10000)\<rparr> else s))"

definition helper_start :: "bool \<Rightarrow> bool \<Rightarrow> bool \<Rightarrow> helper \<Rightarrow> bool \<times> helper" where
  "helper_start super work_loop timer s =
    (if \<not> super then (False, s)
     else let s = s\<lparr>h_patchAttempts := 0, h_workLoop := work_loop\<rparr>
     in (True, if work_loop then s\<lparr>h_timer := timer\<rparr> else s))"

definition helper_stop :: "helper \<Rightarrow> helper" where
  "helper_stop s =
    (let s = (if h_timer s then s\<lparr>h_due := None, h_timer := False\<rparr> else s)
     in case h_framebuffer s of None \<Rightarrow> s
     | Some x \<Rightarrow> s\<lparr>h_refs := (h_refs s)(x := h_refs s x - 1), h_framebuffer := None\<rparr>)"

end
