(* ===== verification/Spec2Isabelle.thy ===== *)
theory Spec2Isabelle
  imports Prelude SurfaceLocks Context2DProofs PluginProofs QemuDisplayProofs
begin

text \<open>
  Verification development of the display drivers of \<^verbatim>\<open>docker-macos\<close>, the kernel extensions with which macOS draws
  inside a virtual machine: \<^verbatim>\<open>VMsvga2\<close>, the driver of the VMware SVGA II adapter with its accelerator, and the small
  extensions for the display of QEMU.  All paths below are under \<^verbatim>\<open>src/kexts\<close>.

  \<^bold>\<open>The program.\<close>  The framebuffer driver (\<^verbatim>\<open>VMsvga2/FB/VMsvga2.cpp\<close>) publishes the display to the system and owns the
  device object (\<^verbatim>\<open>FB/SVGADevice.cpp\<close>), which programs registers and writes commands to a ring buffer, the FIFO, that
  the host consumes while the driver runs.  The accelerator (\<^verbatim>\<open>AC/VMsvga2Accel.cpp\<close>) finds the framebuffer driver and
  shares its device: it encodes the requests of its user clients with the command writers \<^verbatim>\<open>AC/SVGA3D.cpp\<close> and
  \<^verbatim>\<open>AC/SVGAScreen.cpp\<close>, gives out video memory (\<^verbatim>\<open>AC/VMsvga2Allocator.cpp\<close>), object numbers and guest memory regions
  (\<^verbatim>\<open>AC/VendorTransferBuffer.cpp\<close>), and starts the user clients: the surfaces behind windows
  (\<^verbatim>\<open>AC/UC/VMsvga2Surface.cpp\<close>) and the 2D contexts that draw to them (\<^verbatim>\<open>AC/UC/VMsvga22DContext.cpp\<close>).  The
  acceleration plug-in (\<^verbatim>\<open>GA/VMsvga2GA.cpp\<close>, \<^verbatim>\<open>GA/BlitHelper.c\<close>), which the window server loads, is a client of one 2D
  context, reached through the kernel's dispatch table.
  \<^verbatim>\<open>QEMUDisplay\<close> is a framebuffer driver of its own, \<^verbatim>\<open>QEMUDisplayPatcher\<close> hooks the methods of the system's generic
  framebuffer driver instead, and \<^verbatim>\<open>QEMUHelper\<close> re-applies properties to published framebuffers.

  \<^bold>\<open>How the code is modelled.\<close>  A class is a record of its fields, an operation a function from the old state to its
  result and the new one, under the name it has in the source (with a prefix \<open>svga_\<close>, \<open>fb_\<close>, \<open>accel_\<close>, \<open>buffer_\<close>,
  \<open>surface_\<close>, \<open>td_\<close>, \<open>ga_\<close>, \<open>qd_\<close> where classes use the same name).  Integers are words of their width and wrap; status codes are
  the values IOKit defines.  \<open>None\<close> is the outcome of a fault (a null or stale pointer that is used) and of a loop
  that never ends; theorems that a call returns say that it is \<open>Some\<close>.  Locks make an operation one step.

  \<^bold>\<open>Parameters\<close>, for what is outside of the repository:
    \<^item> \<open>host\<close>: what the host answers to register reads and how it consumes the FIFO, as a function of a clock.
      \<open>host_serving\<close> is the documented behaviour most theorems rest on: a host that is waited for makes progress.
    \<^item> \<open>kit\<close> and the other arguments named after a call of the kernel: memory that is allocated, mapped and prepared, or
      not; answers of a base class; processes and services.  Unless said otherwise a theorem holds for every answer.
    \<^item> \<open>services\<close>: what the kernel answers to the plug-in.  \<open>context_services\<close> is the kernel in which the context answers.
    \<^item> for the extensions of QEMU, the port devices, and the original methods behind the hooks.

  \<^bold>\<open>Theories.\<close>
    \<^item> \<open>Prelude\<close>: status codes, lemmas about words and the option monad.
    \<^item> \<open>FifoQueue\<close>, \<open>SvgaDevice\<close> (\<^verbatim>\<open>SVGADevice.cpp\<close>): registers, reserve and commit with the bounce buffer, then fences,
      modes, cursor, video and region commands.  A committed command is appended to what the host still has to read,
      and a reservation never overlaps it; the fences are ordered across the wrap of their counter.
      Locale \<open>command_sink\<close>: what the command writers need of the queue; interpreted on the reservation calls.
    \<^item> \<open>Svga3D\<close>, \<open>CommandStream\<close> (\<^verbatim>\<open>SVGA3D.cpp\<close>, \<^verbatim>\<open>SVGAScreen.cpp\<close> and the 2D commands): each writer puts exactly its
      documented encoding into the queue, and the stream splits back into the commands.
    \<^item> \<open>AllocBitmap\<close>, \<open>BuddyAllocator\<close>, \<open>BuddyProofs\<close>, \<open>BuddyFree\<close>, \<open>VramPool\<close> (\<^verbatim>\<open>VMsvga2Allocator.cpp\<close> and the calls
      of the accelerator): bit map, free lists threaded through the video memory, splitting, merging, resizing.  The
      invariant ties lists, map and blocks handed out; the locale \<open>shared_heap\<close> is what the users of video memory
      rely on, interpreted on the accelerator's calls.
    \<^item> \<open>Framebuffer\<close>, \<open>FramebufferProofs\<close> (\<^verbatim>\<open>VMsvga2.cpp\<close>, \<^verbatim>\<open>modes.cpp\<close>): bring-up, modes, attributes, EDID, the
      handshake for custom sizes, refresh timer; the invariant over every run of the driver.
    \<^item> \<open>AccelIds\<close>: numbers of surfaces, contexts, streams and regions, with the bit scanners.  Locale \<open>id_allocator\<close>,
      interpreted four times.
    \<^item> \<open>Accelerator\<close>, \<open>AcceleratorProofs\<close> (\<^verbatim>\<open>VMsvga2Accel.cpp\<close>): bring-up, the requests of the clients, screens, the
      master surface with its retain count, the copies the CPU makes.  A request is compared with the list of commands
      it stands for.
    \<^item> \<open>GuestMemory\<close> (\<^verbatim>\<open>createGMR\<close>, \<^verbatim>\<open>VendorTransferBuffer.cpp\<close>): the tables that describe guest memory to the device,
      and a reader of them to compare with; buffers that share the region numbers.
    \<^item> \<open>Surface\<close>, \<open>SurfaceProofs\<close>, \<open>SurfaceLocks\<close> (\<^verbatim>\<open>VMsvga2Surface.cpp\<close>): backing memory, scaling, clipping, the
      output paths, video, locks.  Well-formedness through every call; locale \<open>exclusive_lock\<close>, interpreted for each
      of the three locks.
    \<^item> \<open>Context2D\<close>, \<open>Context2DProofs\<close> (\<^verbatim>\<open>VMsvga22DContext.cpp\<close>): contexts and surfaces beside each other on one
      accelerator, with the references the contexts hold; which objects live, and two ways to break that.
    \<^item> \<open>GraphicsPlugin\<close>, \<open>ContextService\<close>, \<open>PluginProofs\<close> (\<^verbatim>\<open>VMsvga2GA.cpp\<close>, \<^verbatim>\<open>BlitHelper.c\<close>, the dispatch table in
      \<^verbatim>\<open>VMsvga22DContext.cpp\<close>): the plug-in's methods, the table with the context's methods behind it, and both together.
      Every call has the shape the table asks for; the plug-in's memory is exactly that of the surfaces in use; what a
      lock really gives, and what stopping after a failed start does.
    \<^item> \<open>QemuDisplay\<close>, \<open>QemuDisplayProofs\<close> (\<^verbatim>\<open>QEMUDisplay.cpp\<close>, \<^verbatim>\<open>patcher.cpp\<close>, \<^verbatim>\<open>kern_start.cpp\<close>): the management
      controller's port protocol, modes and monitor descriptions, the counters of the hooks, the rounds of the helper.
      Locale \<open>mode_setting\<close>, interpreted on the patcher and on the driver.

  \<^bold>\<open>Loops and bounds.\<close>  Loops over data are structural recursion.  The loops that wait (for room in the FIFO, for a
  fence or the busy flag, for the window server), that walk segments of memory or cut a range into blocks are partial
  functions into \<open>option\<close>, so a loop that never ends has the value \<open>None\<close>; there is no fuel.  The theorems about them
  say that they return, under \<open>host_serving\<close> or the like, and where one never does that is a theorem of its own.  The
  polling of the management controller has its 100 tries as in the code.  Sizes in bytes are naturals whose additions
  and products are taken modulo 64 bits where the code's \<^verbatim>\<open>size_t\<close> wraps; theorems about the stream assume that
  commands fit the FIFO, and those that do not are the subject of another.

  \<^bold>\<open>Not modelled.\<close>  Logging, registry properties of the VMsvga2 drivers, the dispatch tables of the other user clients, code
  that is compiled out (\<^verbatim>\<open>#if 0\<close>, the timing and notifier variants); the OpenGL, DVD and device clients and the OpenGL
  bundle, whose methods mostly log and refuse; the constants of \<^verbatim>\<open>vminclude\<close>, except as the models use them; scripts, containers, boot configuration and documents.
\<close>

end
